(* ===== verification/Prelude.thy ===== *)
theory Prelude
  imports Complex_Main "HOL-Library.AList" "HOL-Library.Product_Lexorder" "HOL-Library.Sublist"
begin

text \<open>
  Shared vocabulary of the development: Python values (dictionaries with insertion
  order, strings, JSON documents, exceptions), points in time, database tables with
  the row operations that the repositories under \<^verbatim>\<open>src/infra/store\<close> issue, and the
  lemma collections every component draws on.

  Times are microseconds since the epoch (\<^verbatim>\<open>datetime\<close> has that resolution), durations
  given as Python floats are exact rationals, and a Python \<^verbatim>\<open>str\<close> is the list of the
  bytes of its UTF-8 encoding; case conversion acts on ASCII letters.
\<close>

named_theorems table_simps \<open>row operations on tables\<close>
named_theorems frame \<open>what an operation leaves alone\<close>
named_theorems status_defs \<open>the status sets and predicates of the source\<close>
named_theorems op_defs \<open>the definitions of the operations\<close>

section \<open>Strings\<close>

fun str_in :: "string \<Rightarrow> string \<Rightarrow> bool" where
  "str_in p [] = (p = [])"
| "str_in p (c # cs) = (prefix p (c # cs) \<or> str_in p cs)"

definition char_lower :: "char \<Rightarrow> char" where
  "char_lower c = (let n = (of_char c :: nat) in if 65 \<le> n \<and> n \<le> 90 then char_of (n + 32) else c)"

definition str_lower :: "string \<Rightarrow> string" where
  "str_lower = map char_lower"

definition ascii_space :: "char \<Rightarrow> bool" where
  "ascii_space c = (let n = (of_char c :: nat) in (9 \<le> n \<and> n \<le> 13) \<or> (28 \<le> n \<and> n \<le> 32))"

definition str_strip :: "string \<Rightarrow> string" where
  "str_strip s = rev (dropWhile ascii_space (rev (dropWhile ascii_space s)))"

fun show_nat :: "nat \<Rightarrow> string" where
  "show_nat n = (if n < 10 then [char_of (48 + n)] else show_nat (n div 10) @ [char_of (48 + n mod 10)])"

declare show_nat.simps [simp del]

definition show_int :: "int \<Rightarrow> string" where
  "show_int i = (if i < 0 then ''-'' @ show_nat (nat (- i)) else show_nat (nat i))"

text \<open>\<^verbatim>\<open>repr\<close> of a \<^verbatim>\<open>str\<close>: double quotes only when the text has a single quote and no double one.\<close>

definition hex_digit :: "nat \<Rightarrow> char" where
  "hex_digit n = char_of (if n < 10 then 48 + n else 87 + n)"

definition repr_char :: "char \<Rightarrow> char \<Rightarrow> string" where
  "repr_char q c = (let n = (of_char c :: nat); bs = CHR 0x5C in
     if c = q \<or> c = bs then [bs, c]
     else if n = 9 then [bs, CHR ''t''] else if n = 10 then [bs, CHR ''n''] else if n = 13 then [bs, CHR ''r'']
     else if n < 32 \<or> n = 127 then [bs, CHR ''x'', hex_digit (n div 16), hex_digit (n mod 16)]
     else [c])"

definition py_repr :: "string \<Rightarrow> string" where
  "py_repr s = (let q = (if CHR 0x27 \<in> set s \<and> CHR 0x22 \<notin> set s then CHR 0x22 else CHR 0x27)
     in q # concat (map (repr_char q) s) @ [q])"

fun join_with :: "string \<Rightarrow> string list \<Rightarrow> string" where
  "join_with sep [] = []"
| "join_with sep [x] = x"
| "join_with sep (x # xs) = x @ sep @ join_with sep xs"

definition byte :: "char \<Rightarrow> nat" where
  "byte c = of_char c"

definition tail_byte :: "char \<Rightarrow> bool" where
  "tail_byte c = (128 \<le> byte c \<and> byte c < 192)"

text \<open>\<^verbatim>\<open>len(s)\<close> and \<^verbatim>\<open>s[:n]\<close> count characters.\<close>

definition char_count :: "string \<Rightarrow> nat" where
  "char_count s = length (filter (\<lambda>c. \<not> tail_byte c) s)"

fun char_take :: "nat \<Rightarrow> string \<Rightarrow> string" where
  "char_take n [] = []"
| "char_take n (c # s) = (if tail_byte c then c # char_take n s
     else case n of 0 \<Rightarrow> [] | Suc m \<Rightarrow> c # char_take m s)"

lemma char_count_append [simp]: "char_count (a @ b) = char_count a + char_count b"
  by (simp add: char_count_def)

lemma char_count_char_take: "char_count (char_take n s) \<le> n"
  by (induction n s rule: char_take.induct) (auto simp: char_count_def split: nat.split)

lemma str_in_iff: "str_in p s \<longleftrightarrow> (\<exists>a b. s = a @ p @ b)"
proof (induction s)
  case Nil
  then show ?case by auto
next
  case (Cons c cs)
  have "(\<exists>a b. c # cs = a @ p @ b) \<longleftrightarrow> prefix p (c # cs) \<or> (\<exists>a b. cs = a @ p @ b)"
    unfolding prefix_def by (metis append_Cons append_Nil list.exhaust list.sel(3) list.inject)
  with Cons show ?case by simp
qed

lemma str_in_infix: "str_in p (a @ p @ b)"
  by (auto simp: str_in_iff)

section \<open>JSON documents and dictionaries\<close>

datatype json = JNull | JBool bool | JNum rat | JStr string | JList "json list" | JObj "(string \<times> json) list"

type_synonym dict = "(string \<times> json) list"

text \<open>
  A Python \<^verbatim>\<open>dict\<close> keeps insertion order: \<^verbatim>\<open>d[k] = v\<close> is \<^const>\<open>AList.update\<close>, which
  overwrites in place and appends a new key at the end; \<^verbatim>\<open>d.get(k)\<close> is \<^const>\<open>map_of\<close>;
  \<^verbatim>\<open>d.pop(k, None)\<close> is \<^const>\<open>AList.delete\<close>.
\<close>

definition dict_setdefault :: "'k \<Rightarrow> 'v \<Rightarrow> ('k \<times> 'v) list \<Rightarrow> ('k \<times> 'v) list" where
  "dict_setdefault k v d = (case map_of d k of None \<Rightarrow> d @ [(k, v)] | Some _ \<Rightarrow> d)"

definition dict_has :: "'k \<Rightarrow> ('k \<times> 'v) list \<Rightarrow> bool" where
  "dict_has k d = (map_of d k \<noteq> None)"

text \<open>The truth value Python gives a JSON value.\<close>

fun json_truthy :: "json \<Rightarrow> bool" where
  "json_truthy JNull = False"
| "json_truthy (JBool b) = b"
| "json_truthy (JNum n) = (n \<noteq> 0)"
| "json_truthy (JStr s) = (s \<noteq> [])"
| "json_truthy (JList xs) = (xs \<noteq> [])"
| "json_truthy (JObj d) = (d \<noteq> [])"

definition jopt :: "string option \<Rightarrow> json" where
  "jopt x = (case x of None \<Rightarrow> JNull | Some s \<Rightarrow> JStr s)"

lemma map_of_setdefault [table_simps]:
  "map_of (dict_setdefault k v d) = (case map_of d k of None \<Rightarrow> (map_of d)(k \<mapsto> v) | Some _ \<Rightarrow> map_of d)"
  by (auto simp: dict_setdefault_def map_add_def fun_eq_iff split: option.splits)

lemma distinct_setdefault [table_simps]:
  "distinct (map fst d) \<Longrightarrow> distinct (map fst (dict_setdefault k v d))"
  by (auto simp: dict_setdefault_def map_of_eq_None_iff split: option.splits)

section \<open>Exceptions\<close>

text \<open>
  One constructor per exception class the modelled code raises or classifies;
  \<^verbatim>\<open>OtherException\<close> carries the class name of any other subclass of \<^verbatim>\<open>Exception\<close>.
  \<^verbatim>\<open>asyncio.CancelledError\<close> is a \<^verbatim>\<open>BaseException\<close> and passes every \<^verbatim>\<open>except Exception\<close>.
\<close>

datatype py_exc =
    RegistryError string
  | SkillError string string
  | KeyError string
  | ValueError string
  | TypeError string
  | IndexError string
  | RuntimeError string
  | TimeoutError string
  | CancelledError
  | RunCancelledError string
  | ExternalSideEffectOutcomeUnknownError string
  | SideEffectOutcomeUnknownError string string
  | StageStateError string
  | StageAttemptsExhaustedError string
  | StaleStageExecutionError string
  | ToolExecutionError string string
  | OutboundPolicyError string
  | UniqueConstraintConflictError string
  | IntegrityError string string
  | OtherException string string

fun exc_str :: "py_exc \<Rightarrow> string" where
  "exc_str (RegistryError m) = m"
| "exc_str (SkillError c m) = m"
| "exc_str (KeyError m) = py_repr m"
| "exc_str (ValueError m) = m"
| "exc_str (TypeError m) = m"
| "exc_str (IndexError m) = m"
| "exc_str (RuntimeError m) = m"
| "exc_str (TimeoutError m) = m"
| "exc_str CancelledError = []"
| "exc_str (RunCancelledError m) = m"
| "exc_str (ExternalSideEffectOutcomeUnknownError m) = m"
| "exc_str (SideEffectOutcomeUnknownError t c) = ''Tool '' @ py_repr t @ '' outcome is unknown: '' @ c"
| "exc_str (StageStateError m) = m"
| "exc_str (StageAttemptsExhaustedError m) = m"
| "exc_str (StaleStageExecutionError m) = m"
| "exc_str (ToolExecutionError t c) = ''Tool '' @ py_repr t @ '' failed: '' @ c"
| "exc_str (OutboundPolicyError m) = m"
| "exc_str (UniqueConstraintConflictError m) = m"
| "exc_str (IntegrityError pgcode m) = m"
| "exc_str (OtherException c m) = m"

fun exc_name :: "py_exc \<Rightarrow> string" where
  "exc_name (RegistryError m) = ''RegistryError''"
| "exc_name (SkillError c m) = c"
| "exc_name (KeyError m) = ''KeyError''"
| "exc_name (ValueError m) = ''ValueError''"
| "exc_name (TypeError m) = ''TypeError''"
| "exc_name (IndexError m) = ''IndexError''"
| "exc_name (RuntimeError m) = ''RuntimeError''"
| "exc_name (TimeoutError m) = ''TimeoutError''"
| "exc_name CancelledError = ''CancelledError''"
| "exc_name (RunCancelledError m) = ''RunCancelledError''"
| "exc_name (ExternalSideEffectOutcomeUnknownError m) = ''ExternalSideEffectOutcomeUnknownError''"
| "exc_name (SideEffectOutcomeUnknownError t c) = ''SideEffectOutcomeUnknownError''"
| "exc_name (StageStateError m) = ''StageStateError''"
| "exc_name (StageAttemptsExhaustedError m) = ''StageAttemptsExhaustedError''"
| "exc_name (StaleStageExecutionError m) = ''StaleStageExecutionError''"
| "exc_name (ToolExecutionError t c) = ''ToolExecutionError''"
| "exc_name (OutboundPolicyError m) = ''OutboundPolicyError''"
| "exc_name (UniqueConstraintConflictError m) = ''UniqueConstraintConflictError''"
| "exc_name (IntegrityError pgcode m) = ''IntegrityError''"
| "exc_name (OtherException c m) = c"

text \<open>PostgreSQL's \<^verbatim>\<open>unique_violation\<close>, SQLSTATE 23505.\<close>

definition unique_violation :: py_exc where
  "unique_violation = IntegrityError ''23505'' ''duplicate key value violates unique constraint''"

definition exc_text :: "py_exc \<Rightarrow> string" where
  "exc_text e = exc_name e @ '': '' @ exc_str e"

section \<open>Time\<close>

type_synonym datetime = int

text \<open>\<^verbatim>\<open>timedelta(seconds=x)\<close>: microseconds, rounded half to even.\<close>

definition round_half_even :: "rat \<Rightarrow> int" where
  "round_half_even x = (let f = \<lfloor>x\<rfloor>; r = x - of_int f in
     if r < 1/2 then f else if 1/2 < r then f + 1 else if even f then f else f + 1)"

definition timedelta_seconds :: "rat \<Rightarrow> int" where
  "timedelta_seconds s = round_half_even (s * 1000000)"

definition total_seconds :: "int \<Rightarrow> rat" where
  "total_seconds us = of_int us / 1000000"

text \<open>
  \<^verbatim>\<open>datetime.isoformat\<close> of a UTC time: the proleptic Gregorian date of a day number, and
  the fraction only when it is not zero.
\<close>

definition pad :: "nat \<Rightarrow> nat \<Rightarrow> string" where
  "pad w n = (let s = show_nat n in replicate (w - length s) CHR ''0'' @ s)"

definition civil_from_days :: "int \<Rightarrow> int \<times> int \<times> int" where
  "civil_from_days days =
     (let z = days + 719468; era = z div 146097; doe = z - era * 146097;
          yoe = (doe - doe div 1460 + doe div 36524 - doe div 146096) div 365;
          doy = doe - (365 * yoe + yoe div 4 - yoe div 100); mp = (5 * doy + 2) div 153;
          d = doy - (153 * mp + 2) div 5 + 1; m = (if mp < 10 then mp + 3 else mp - 9)
      in (yoe + era * 400 + (if m \<le> 2 then 1 else 0), m, d))"

definition isoformat :: "datetime \<Rightarrow> string" where
  "isoformat t =
     (let day = t div 86400000000; us = t mod 86400000000; (y, m, d) = civil_from_days day;
          s = us div 1000000; f = us mod 1000000
      in pad 4 (nat y) @ ''-'' @ pad 2 (nat m) @ ''-'' @ pad 2 (nat d) @ ''T''
         @ pad 2 (nat (s div 3600)) @ '':'' @ pad 2 (nat (s div 60 mod 60)) @ '':'' @ pad 2 (nat (s mod 60))
         @ (if f = 0 then [] else ''.'' @ pad 6 (nat f)) @ ''+00:00'')"

lemma round_half_even_pos: "1/2 < x \<Longrightarrow> 0 < round_half_even x"
proof -
  assume x: "1/2 < x"
  show ?thesis
  proof (cases "x < 1")
    case True
    with x have "\<lfloor>x\<rfloor> = 0" by (simp add: floor_eq_iff)
    with x show ?thesis by (simp add: round_half_even_def Let_def)
  next
    case False
    then have "1 \<le> \<lfloor>x\<rfloor>" by (simp add: le_floor_iff)
    then show ?thesis by (auto simp: round_half_even_def Let_def)
  qed
qed

lemma timedelta_seconds_pos: "1/1000000 \<le> s \<Longrightarrow> 0 < timedelta_seconds s"
  unfolding timedelta_seconds_def by (rule round_half_even_pos) simp

lemma timedelta_seconds_int [simp]: "timedelta_seconds (of_int k) = k * 1000000"
proof -
  have "rat_of_int k * 1000000 = of_int (k * 1000000)" by simp
  then show ?thesis
    unfolding timedelta_seconds_def round_half_even_def Let_def by (simp only: floor_of_int) simp
qed

section \<open>Tables\<close>

text \<open>
  A table is the list of its rows. \<^verbatim>\<open>session.get\<close> finds a row by primary key,
  \<^verbatim>\<open>session.merge\<close> overwrites the row with the key or inserts it, and an
  \<^verbatim>\<open>UPDATE ... WHERE\<close> rewrites the matching rows and reports their number.
\<close>

definition row_get :: "('r \<Rightarrow> 'k) \<Rightarrow> 'k \<Rightarrow> 'r list \<Rightarrow> 'r option" where
  "row_get key k rows = find (\<lambda>r. key r = k) rows"

definition row_merge :: "('r \<Rightarrow> 'k) \<Rightarrow> 'r \<Rightarrow> 'r list \<Rightarrow> 'r list" where
  "row_merge key r rows =
     (if key r \<in> key ` set rows then map (\<lambda>x. if key x = key r then r else x) rows else rows @ [r])"

definition update_where :: "('r \<Rightarrow> bool) \<Rightarrow> ('r \<Rightarrow> 'r) \<Rightarrow> 'r list \<Rightarrow> nat \<times> 'r list" where
  "update_where P f rows = (length (filter P rows), map (\<lambda>r. if P r then f r else r) rows)"

definition keys_distinct :: "('r \<Rightarrow> 'k) \<Rightarrow> 'r list \<Rightarrow> bool" where
  "keys_distinct key rows = distinct (map key rows)"


lemma find_SomeD: "find P xs = Some x \<Longrightarrow> x \<in> set xs \<and> P x"
  by (auto simp: find_Some_iff)

lemma row_get_SomeD: "row_get key k rows = Some r \<Longrightarrow> r \<in> set rows \<and> key r = k"
  by (auto simp: row_get_def find_Some_iff)

lemma row_get_None_iff: "row_get key k rows = None \<longleftrightarrow> k \<notin> key ` set rows"
  by (auto simp: row_get_def find_None_iff)

lemma row_get_Nil [simp]: "row_get key k [] = None"
  by (simp add: row_get_def)

lemma row_get_Cons [simp]: "row_get key k (r # rows) = (if key r = k then Some r else row_get key k rows)"
  by (simp add: row_get_def)

lemma row_get_append:
  "row_get key k (xs @ ys) = (case row_get key k xs of None \<Rightarrow> row_get key k ys | Some r \<Rightarrow> Some r)"
  by (induction xs) auto

lemma row_get_distinct:
  "keys_distinct key rows \<Longrightarrow> r \<in> set rows \<Longrightarrow> row_get key (key r) rows = Some r"
  by (induction rows) (auto simp: keys_distinct_def)

lemma row_get_map [table_simps]:
  "(\<And>r. r \<in> set rows \<Longrightarrow> key (f r) = key r) \<Longrightarrow> row_get key k (map f rows) = map_option f (row_get key k rows)"
  by (induction rows) auto

lemma keys_distinct_map:
  "(\<And>r. r \<in> set rows \<Longrightarrow> key (f r) = key r) \<Longrightarrow> keys_distinct key (map f rows) = keys_distinct key rows"
  by (simp add: keys_distinct_def cong: map_cong)

lemma row_get_filter:
  "row_get key k (filter P rows) = Some r \<Longrightarrow> keys_distinct key rows \<Longrightarrow> row_get key k rows = Some r"
  by (drule row_get_SomeD) (auto dest: row_get_distinct)

lemma row_get_merge_same: "row_get key (key r) (row_merge key r rows) = Some r"
  by (induction rows) (auto simp: row_merge_def)

lemma row_get_merge_other: "k \<noteq> key r \<Longrightarrow> row_get key k (row_merge key r rows) = row_get key k rows"
proof -
  assume k: "k \<noteq> key r"
  then have "row_get key k (map (\<lambda>x. if key x = key r then r else x) rows) = row_get key k rows"
    by (induction rows) auto
  with k show ?thesis by (simp add: row_merge_def row_get_append split: option.split)
qed

lemma row_get_merge [table_simps]:
  "row_get key k (row_merge key r rows) = (if k = key r then Some r else row_get key k rows)"
  by (simp add: row_get_merge_same row_get_merge_other)

lemma keys_distinct_merge [table_simps]: "keys_distinct key (row_merge key r rows) = keys_distinct key rows"
proof (cases "key r \<in> key ` set rows")
  case True
  have "map key (map (\<lambda>x. if key x = key r then r else x) rows) = map key rows"
    by (induction rows) auto
  with True show ?thesis by (simp only: row_merge_def keys_distinct_def if_True)
next
  case False
  then show ?thesis by (auto simp: row_merge_def keys_distinct_def)
qed

lemma update_where_count_0: "fst (update_where P f rows) = 0 \<Longrightarrow> snd (update_where P f rows) = rows"
  by (induction rows) (auto simp: update_where_def split: if_splits)

lemma filter_key_absent: "k \<notin> key ` set rows \<Longrightarrow> filter (\<lambda>r. key r = k \<and> P r) rows = []"
  by (induction rows) auto

lemma keys_distinct_Cons: "keys_distinct key (r # rows) \<longleftrightarrow> key r \<notin> key ` set rows \<and> keys_distinct key rows"
  by (simp add: keys_distinct_def)

lemma count_key_le_1: "keys_distinct key rows \<Longrightarrow> length (filter (\<lambda>r. key r = k \<and> P r) rows) \<le> 1"
  by (induction rows) (auto simp: keys_distinct_Cons filter_key_absent)

lemma count_key_1_iff:
  "keys_distinct key rows \<Longrightarrow>
     length (filter (\<lambda>r. key r = k \<and> P r) rows) = 1 \<longleftrightarrow> (\<exists>x. row_get key k rows = Some x \<and> P x)"
  by (induction rows) (auto simp: keys_distinct_Cons filter_key_absent)

lemma filter_key_unique: "keys_distinct key rows \<Longrightarrow> x \<in> set rows \<Longrightarrow> filter (\<lambda>r. key r = key x) rows = [x]"
proof (induction rows)
  case (Cons r rows)
  then show ?case
    using filter_key_absent [of "key r" key rows "\<lambda>_. True"] by (auto simp: keys_distinct_Cons intro: rev_image_eqI)
qed simp

section \<open>Interfaces of the tables\<close>

text \<open>
  What a repository promises its clients: a row saved under its key is the row read
  back, with the stamp the repository puts on it (its update time), other keys are
  untouched, and the table stays well-formed.
\<close>

locale repository =
  fixes get :: "'k \<Rightarrow> 't \<Rightarrow> 'r option"
    and put :: "'r \<Rightarrow> 't \<Rightarrow> 't"
    and key :: "'r \<Rightarrow> 'k"
    and stamp :: "'r \<Rightarrow> 'r"
    and invar :: "'t \<Rightarrow> bool"
  assumes get_put_same: "get (key r) (put r t) = Some (stamp r)"
    and get_put_other: "k \<noteq> key r \<Longrightarrow> get k (put r t) = get k t"
    and invar_put: "invar t \<Longrightarrow> invar (put r t)"
begin

lemma get_put: "get k (put r t) = (if k = key r then Some (stamp r) else get k t)"
  by (simp add: get_put_same get_put_other)

lemma put_overwrites: "key r' = key r \<Longrightarrow> get k (put r' (put r t)) = get k (put r' t)"
  by (simp add: get_put)

lemma put_commutes: "key r \<noteq> key r' \<Longrightarrow> get k (put r' (put r t)) = get k (put r (put r' t))"
  by (simp add: get_put)

text \<open>After any sequence of saves the last one under a key is the one read back.\<close>

lemma get_fold_put:
  "get k (fold put rs t) = (case find (\<lambda>r. key r = k) (rev rs) of None \<Rightarrow> get k t | Some r \<Rightarrow> Some (stamp r))"
  by (induction rs arbitrary: t rule: rev_induct) (auto simp: get_put)

lemma invar_fold_put: "invar t \<Longrightarrow> invar (fold put rs t)"
  by (induction rs arbitrary: t) (auto intro: invar_put)

end

text \<open>
  A conditional write in the style of \<^verbatim>\<open>UPDATE ... WHERE id = :id AND guard\<close>: it
  succeeds exactly when the stored row meets the guard, stores the stamped row, and
  otherwise changes nothing.
\<close>

locale cas_table =
  fixes get :: "'k \<Rightarrow> 't \<Rightarrow> 'r option"
    and cas :: "'r \<Rightarrow> 'g \<Rightarrow> 't \<Rightarrow> bool \<times> 't"
    and key :: "'r \<Rightarrow> 'k"
    and holds :: "'g \<Rightarrow> 'r \<Rightarrow> bool"
    and stamp :: "'r \<Rightarrow> 'r"
    and invar :: "'t \<Rightarrow> bool"
  assumes cas_wins_iff: "invar t \<Longrightarrow> fst (cas r g t) \<longleftrightarrow> (\<exists>x. get (key r) t = Some x \<and> holds g x)"
    and cas_loses: "invar t \<Longrightarrow> \<not> fst (cas r g t) \<Longrightarrow> snd (cas r g t) = t"
    and cas_stores: "invar t \<Longrightarrow> fst (cas r g t) \<Longrightarrow> get (key r) (snd (cas r g t)) = Some (stamp r)"
    and cas_other: "k \<noteq> key r \<Longrightarrow> get k (snd (cas r g t)) = get k t"
    and invar_cas: "invar t \<Longrightarrow> invar (snd (cas r g t))"
begin

lemma get_cas:
  "invar t \<Longrightarrow> get k (snd (cas r g t)) = (if k = key r \<and> fst (cas r g t) then Some (stamp r) else get k t)"
  by (auto simp: cas_stores cas_loses cas_other)

text \<open>A row that no guard of a writer accepts is sealed against that writer.\<close>

lemma cas_sealed:
  "invar t \<Longrightarrow> get (key r) t = Some x \<Longrightarrow> \<not> holds g x \<Longrightarrow> cas r g t = (False, t)"
  using cas_wins_iff [of t r g] cas_loses [of t r g] by (cases "cas r g t") auto

text \<open>
  Of two writers racing from the same snapshot, the second one loses whenever the
  first one's row does not meet the second one's guard.
\<close>

lemma cas_race:
  assumes "invar t" and "fst (cas r g t)" and "key r' = key r" and "\<not> holds g' (stamp r)"
  shows "cas r' g' (snd (cas r g t)) = (False, snd (cas r g t))"
  using assms by (intro cas_sealed [where x = "stamp r"]) (auto simp: invar_cas cas_stores)

end

text \<open>
  A table whose writers hold a token: a write reaches the row only while the row
  carries the writer's token (the execution id of a stage, the worker of a run).
\<close>

locale fenced_table =
  fixes get :: "'k \<Rightarrow> 't \<Rightarrow> 'r option"
    and wr :: "'k \<Rightarrow> 'e \<Rightarrow> 'u \<Rightarrow> 't \<Rightarrow> bool \<times> 't"
    and token :: "'r \<Rightarrow> 'e option"
    and invar :: "'t \<Rightarrow> bool"
  assumes write_needs_token: "invar t \<Longrightarrow> fst (wr k e u t) \<Longrightarrow> \<exists>r. get k t = Some r \<and> token r = Some e"
    and write_loses: "invar t \<Longrightarrow> \<not> fst (wr k e u t) \<Longrightarrow> snd (wr k e u t) = t"
    and write_other: "k' \<noteq> k \<Longrightarrow> get k' (snd (wr k e u t)) = get k' t"
    and write_token: "invar t \<Longrightarrow> get k t = Some r \<Longrightarrow> \<exists>r'. get k (snd (wr k e u t)) = Some r' \<and> token r' = token r"
    and invar_write: "invar t \<Longrightarrow> invar (snd (wr k e u t))"
begin

lemma stale_write:
  "invar t \<Longrightarrow> get k t = Some r \<Longrightarrow> token r \<noteq> Some e \<Longrightarrow> wr k e u t = (False, t)"
  using write_needs_token [of t k e u] write_loses [of t k e u] by (cases "wr k e u t") auto

text \<open>A whole script of writes by a superseded writer has no effect.\<close>

lemma stale_writes:
  "invar t \<Longrightarrow> get k t = Some r \<Longrightarrow> token r \<noteq> Some e \<Longrightarrow> fold (\<lambda>u t. snd (wr k e u t)) us t = t"
  by (induction us) (auto simp: stale_write)

text \<open>Writes never change who holds the row.\<close>

lemma writes_keep_token:
  "invar t \<Longrightarrow> get k t = Some r \<Longrightarrow>
     \<exists>r'. get k (fold (\<lambda>u t. snd (wr k e u t)) us t) = Some r' \<and> token r' = token r"
proof (induction us arbitrary: t r)
  case Nil
  then show ?case by simp
next
  case (Cons u us)
  from write_token [OF Cons.prems, of e u] obtain r' where
    "get k (snd (wr k e u t)) = Some r'" "token r' = token r" by blast
  with Cons.IH [OF invar_write [OF Cons.prems(1)]] show ?case by fastforce
qed

end

text \<open>
  A queue of rows handed out under leases: a leased row becomes ready again only when
  its lease has expired.
\<close>

locale lease_queue =
  fixes key :: "'r \<Rightarrow> 'k"
    and ready :: "int \<Rightarrow> 'r \<Rightarrow> bool"
    and lease :: "int \<Rightarrow> 'w \<Rightarrow> int \<Rightarrow> 'r \<Rightarrow> 'r"
  assumes key_lease: "key (lease now w e r) = key r"
    and lease_blocks: "ready now' (lease now w e r) \<Longrightarrow> e \<le> now'"
begin

lemma leases_exclusive:
  assumes "set sel' \<subseteq> {r \<in> set (map (\<lambda>r. if key r \<in> key ` set sel then lease now w e r else r) rows). ready now' r}"
    and "now' < e"
  shows "key ` set sel \<inter> key ` set sel' = {}"
proof -
  have "key y \<notin> key ` set sel" if "y \<in> set sel'" for y
  proof
    assume "key y \<in> key ` set sel"
    with that subsetD [OF assms(1), of y] have "ready now' y" "y \<in> lease now w e ` set rows" by auto
    then obtain z where "y = lease now w e z" by blast
    with \<open>ready now' y\<close> have "e \<le> now'" by (simp add: lease_blocks)
    with assms(2) show False by simp
  qed
  then have "\<And>k. k \<in> key ` set sel' \<Longrightarrow> k \<notin> key ` set sel" by (metis imageE)
  then show ?thesis unfolding disjoint_iff by blast
qed

end

end
