(* ===== verification/Domain.thy ===== *)
theory Domain
  imports Prelude
begin

text \<open>
  The business objects of \<^verbatim>\<open>src/domain\<close>: the lifecycle enumerations with their string
  values, the run, stage, delivery, conversation and specification records with the
  fields the Pydantic models declare, and the small pure methods that live on them
  (\<^verbatim>\<open>ErrorType.is_retryable\<close>, \<^verbatim>\<open>RetryPolicy.delay_for_attempt\<close>, the field validators).
  Field names carry a prefix per record (\<open>ar_\<close> for \<^verbatim>\<open>AgentRun\<close>, \<open>as_\<close> for \<^verbatim>\<open>AgentSpec\<close>,
  \<open>st_\<close> for \<^verbatim>\<open>AgentStage\<close>, \<open>cd_\<close> for \<^verbatim>\<open>CallbackDelivery\<close>, \<open>ts_\<close> for \<^verbatim>\<open>ToolSpec\<close>),
  because Isabelle record fields are global constants.
\<close>

section \<open>Enumerations\<close>

datatype run_status =
    CREATED | QUEUED | RUNNING | WAITING_TOOL | RETRYING | AGENT_SUCCEEDED | WAITING_CALLBACK
  | SUCCEEDED | FAILED | TIMEOUT | CANCELED

fun run_status_value :: "run_status \<Rightarrow> string" where
  "run_status_value CREATED = ''CREATED''"
| "run_status_value QUEUED = ''QUEUED''"
| "run_status_value RUNNING = ''RUNNING''"
| "run_status_value WAITING_TOOL = ''WAITING_TOOL''"
| "run_status_value RETRYING = ''RETRYING''"
| "run_status_value AGENT_SUCCEEDED = ''AGENT_SUCCEEDED''"
| "run_status_value WAITING_CALLBACK = ''WAITING_CALLBACK''"
| "run_status_value SUCCEEDED = ''SUCCEEDED''"
| "run_status_value FAILED = ''FAILED''"
| "run_status_value TIMEOUT = ''TIMEOUT''"
| "run_status_value CANCELED = ''CANCELED''"

text \<open>Iteration order of the enumeration class.\<close>

definition run_statuses :: "run_status list" where
  "run_statuses = [CREATED, QUEUED, RUNNING, WAITING_TOOL, RETRYING, AGENT_SUCCEEDED, WAITING_CALLBACK,
     SUCCEEDED, FAILED, TIMEOUT, CANCELED]"

definition EXECUTING_RUN_STATUSES :: "run_status set" where
  [status_defs]: "EXECUTING_RUN_STATUSES = {RUNNING, WAITING_TOOL, RETRYING}"

definition TERMINAL_RUN_STATUSES :: "run_status set" where
  [status_defs]: "TERMINAL_RUN_STATUSES = {SUCCEEDED, FAILED, TIMEOUT, CANCELED}"

datatype stage_status = S_PENDING | S_RUNNING | S_SUCCEEDED | S_FAILED | S_CANCELED | S_OUTCOME_UNKNOWN

datatype callback_status = CB_PENDING | CB_DELIVERED | CB_FAILED | CB_SKIPPED

fun callback_status_value :: "callback_status \<Rightarrow> string" where
  "callback_status_value CB_PENDING = ''PENDING''"
| "callback_status_value CB_DELIVERED = ''DELIVERED''"
| "callback_status_value CB_FAILED = ''FAILED''"
| "callback_status_value CB_SKIPPED = ''SKIPPED''"

datatype error_type =
    VALIDATION_ERROR | ROUTE_NOT_FOUND | AGENT_NOT_AVAILABLE | AGENT_EXECUTION_ERROR | TOOL_TIMEOUT
  | TOOL_RATE_LIMITED | TOOL_UNAVAILABLE | MODEL_ERROR | RUN_TIMEOUT | CALLBACK_ERROR
  | SIDE_EFFECT_OUTCOME_UNKNOWN | INTERNAL_ERROR

fun error_type_value :: "error_type \<Rightarrow> string" where
  "error_type_value VALIDATION_ERROR = ''VALIDATION_ERROR''"
| "error_type_value ROUTE_NOT_FOUND = ''ROUTE_NOT_FOUND''"
| "error_type_value AGENT_NOT_AVAILABLE = ''AGENT_NOT_AVAILABLE''"
| "error_type_value AGENT_EXECUTION_ERROR = ''AGENT_EXECUTION_ERROR''"
| "error_type_value TOOL_TIMEOUT = ''TOOL_TIMEOUT''"
| "error_type_value TOOL_RATE_LIMITED = ''TOOL_RATE_LIMITED''"
| "error_type_value TOOL_UNAVAILABLE = ''TOOL_UNAVAILABLE''"
| "error_type_value MODEL_ERROR = ''MODEL_ERROR''"
| "error_type_value RUN_TIMEOUT = ''RUN_TIMEOUT''"
| "error_type_value CALLBACK_ERROR = ''CALLBACK_ERROR''"
| "error_type_value SIDE_EFFECT_OUTCOME_UNKNOWN = ''SIDE_EFFECT_OUTCOME_UNKNOWN''"
| "error_type_value INTERNAL_ERROR = ''INTERNAL_ERROR''"

definition is_retryable :: "error_type \<Rightarrow> bool" where
  [status_defs]: "is_retryable e = (e \<notin> {VALIDATION_ERROR, ROUTE_NOT_FOUND, SIDE_EFFECT_OUTCOME_UNKNOWN})"

section \<open>Specifications\<close>

record retry_policy =
  rp_max_attempts :: int
  rp_backoff_seconds :: rat
  rp_backoff_type :: string

definition delay_for_attempt :: "retry_policy \<Rightarrow> int \<Rightarrow> rat" where
  "delay_for_attempt p attempt =
     (if rp_backoff_type p = ''exponential'' then rp_backoff_seconds p * 2 powi (attempt - 1)
      else rp_backoff_seconds p * of_int attempt)"

datatype activation = ACT_AUTO | ACT_EXPLICIT | ACT_ALWAYS

record agent_skill_ref =
  sr_name :: string
  sr_version :: "string option"
  sr_activation :: activation
  sr_config :: dict

record skill_snapshot =
  ss_name :: string
  ss_version :: string
  ss_content_hash :: string
  ss_activation :: activation
  ss_artifact_id :: string

record mcp_server_spec =
  ms_name :: string
  ms_description :: string
  ms_transport :: string
  ms_command :: "string option"
  ms_args :: "string list"
  ms_env :: "(string \<times> string) list"
  ms_cwd :: "string option"
  ms_url :: "string option"
  ms_headers :: "(string \<times> string) list"
  ms_timeout_seconds :: "rat option"
  ms_sse_read_timeout_seconds :: "rat option"
  ms_cache_tools_list :: bool
  ms_enabled :: bool

record agent_spec =
  as_name :: string
  as_description :: string
  as_version :: string
  as_route_tags :: "string list"
  as_input_schema :: dict
  as_output_schema :: dict
  as_tools :: "string list"
  as_skills :: "agent_skill_ref list"
  as_max_concurrency :: int
  as_timeout_seconds :: int
  as_retry_policy :: retry_policy
  as_permissions :: "string list"
  as_enabled :: bool
  as_owner :: "string option"
  as_runtime :: dict
  as_mcp_servers :: "mcp_server_spec list"
  as_managed_by :: string
  as_updated_by :: "string option"

datatype operation_type = READ_ONLY | IDEMPOTENT | SIDE_EFFECTING

record tool_spec =
  ts_name :: string
  ts_description :: string
  ts_version :: string
  ts_input_schema :: dict
  ts_output_schema :: dict
  ts_endpoint :: dict
  ts_timeout_seconds :: rat
  ts_max_concurrency :: int
  ts_qps :: "rat option"
  ts_retry_policy :: retry_policy
  ts_operation_type :: operation_type
  ts_idempotency_key_header :: "string option"
  ts_allowed_agents :: "string list"
  ts_enabled :: bool
  ts_owner :: "string option"
  ts_circuit_breaker :: dict
  ts_managed_by :: string
  ts_updated_by :: "string option"

section \<open>Runs, stages, deliveries, conversations, log events\<close>

record agent_ref =
  af_name :: string
  af_version :: string

record run_file =
  rf_file_id :: "string option"
  rf_url :: "string option"
  rf_file_name :: "string option"
  rf_mime_type :: "string option"
  rf_metadata :: dict

record callback_config =
  cc_url :: "string option"
  cc_events :: "string list"

record run_submission =
  rs_route_tag :: string
  rs_request_id :: string
  rs_external_id :: "string option"
  rs_task_type :: "string option"
  rs_source :: "string option"
  rs_conversation_id :: "string option"
  rs_input :: dict
  rs_files :: "run_file list"
  rs_callback :: "callback_config option"
  rs_priority :: int
  rs_timeout_seconds :: "int option"
  rs_metadata :: dict
  rs_caller :: string
  rs_agent_version :: "string option"

record agent_run =
  ar_run_id :: string
  ar_conversation_id :: "string option"
  ar_trace_id :: string
  ar_route_tag :: string
  ar_caller :: string
  ar_request_id :: string
  ar_input :: dict
  ar_files :: "run_file list"
  ar_callback :: "callback_config option"
  ar_priority :: int
  ar_timeout_seconds :: "int option"
  ar_metadata :: dict
  ar_agent :: "agent_ref option"
  ar_skill_snapshots :: "skill_snapshot list"
  ar_status :: run_status
  ar_current_step :: "string option"
  ar_attempts :: int
  ar_max_attempts :: int
  ar_dead_letter_reason :: "string option"
  ar_worker :: "string option"
  ar_lease_expire_time :: "datetime option"
  ar_output :: "dict option"
  ar_error_type :: "error_type option"
  ar_error_message :: "string option"
  ar_callback_status :: callback_status
  ar_callback_event_id :: "string option"
  ar_create_time :: datetime
  ar_update_time :: datetime
  ar_queue_time :: "datetime option"
  ar_run_after :: "datetime option"
  ar_start_time :: "datetime option"
  ar_finish_time :: "datetime option"

text \<open>\<^verbatim>\<open>AgentRun(...)\<close> with the field defaults of the model; the identifiers and the clock are arguments.\<close>

definition new_agent_run ::
    "string \<Rightarrow> string \<Rightarrow> datetime \<Rightarrow> string \<Rightarrow> string \<Rightarrow> string \<Rightarrow> agent_run" where
  "new_agent_run run_id trace_id now route_tag caller request_id =
     \<lparr>ar_run_id = run_id, ar_conversation_id = None, ar_trace_id = trace_id, ar_route_tag = route_tag,
      ar_caller = caller, ar_request_id = request_id, ar_input = [], ar_files = [], ar_callback = None,
      ar_priority = 5, ar_timeout_seconds = None, ar_metadata = [], ar_agent = None, ar_skill_snapshots = [],
      ar_status = CREATED, ar_current_step = None, ar_attempts = 0, ar_max_attempts = 1,
      ar_dead_letter_reason = None, ar_worker = None, ar_lease_expire_time = None, ar_output = None,
      ar_error_type = None, ar_error_message = None, ar_callback_status = CB_PENDING,
      ar_callback_event_id = None, ar_create_time = now, ar_update_time = now, ar_queue_time = None,
      ar_run_after = None, ar_start_time = None, ar_finish_time = None\<rparr>"

record agent_stage =
  st_stage_id :: string
  st_run_id :: string
  st_trace_id :: string
  st_agent_name :: string
  st_agent_version :: string
  st_stage_key :: string
  st_stage_index :: int
  st_schema_version :: string
  st_definition_version :: string
  st_status :: stage_status
  st_run_attempt :: int
  st_attempts :: int
  st_max_attempts :: int
  st_execution_id :: "string option"
  st_idempotency_key :: string
  st_input_hash :: string
  st_output :: json
  st_checkpoint :: "dict option"
  st_error_type :: "string option"
  st_error_message :: "string option"
  st_create_time :: datetime
  st_update_time :: datetime
  st_start_time :: "datetime option"
  st_finish_time :: "datetime option"

record callback_delivery =
  cd_event_id :: string
  cd_run_id :: string
  cd_trace_id :: string
  cd_url :: string
  cd_status :: callback_status
  cd_attempts :: int
  cd_last_error :: "string option"
  cd_run_after :: datetime
  cd_worker :: "string option"
  cd_lease_expire_time :: "datetime option"
  cd_payload :: dict
  cd_create_time :: datetime
  cd_update_time :: datetime

record conversation =
  cv_conversation_id :: string
  cv_caller :: string
  cv_external_id :: string
  cv_task_type :: "string option"
  cv_source :: "string option"
  cv_route_tag :: string
  cv_create_time :: datetime
  cv_update_time :: datetime

record log_event =
  le_run_id :: "string option"
  le_trace_id :: string
  le_component :: string
  le_event_type :: string
  le_level :: string
  le_message :: string
  le_data :: dict
  le_create_time :: datetime

section \<open>Field validators\<close>

definition lower_alnum :: "char \<Rightarrow> bool" where
  "lower_alnum c = (let n = (of_char c :: nat) in (48 \<le> n \<and> n \<le> 57) \<or> (97 \<le> n \<and> n \<le> 122))"

fun split_on :: "char \<Rightarrow> string \<Rightarrow> string list" where
  "split_on d [] = [[]]"
| "split_on d (c # cs) = (if c = d then [] # split_on d cs
     else (case split_on d cs of [] \<Rightarrow> [[c]] | p # ps \<Rightarrow> (c # p) # ps))"

text \<open>\<^verbatim>\<open>^[a-z0-9]+(?:-[a-z0-9]+)*$\<close> and 1 to 64 characters: hyphen-separated non-empty words.\<close>

definition valid_skill_name :: "string \<Rightarrow> bool" where
  "valid_skill_name v =
     ((\<forall>w \<in> set (split_on CHR ''-'' v). w \<noteq> [] \<and> (\<forall>c \<in> set w. lower_alnum c)) \<and> 1 \<le> length v \<and> length v \<le> 64)"

definition validate_skill_name :: "string \<Rightarrow> py_exc + string" where
  "validate_skill_name v = (if valid_skill_name v then Inr v
     else Inl (ValueError ''Skill name must be 1-64 lowercase letters, digits, and single hyphens''))"

definition validate_artifact_path :: "string \<Rightarrow> py_exc + string" where
  "validate_artifact_path v =
     (if v = [] \<or> prefix ''/'' v \<or> (\<exists>p \<in> set (split_on CHR ''/'' v). p \<in> {'''', ''.'', ''..''})
      then Inl (ValueError ''Skill artifact file path must be a safe relative path'') else Inr v)"

section \<open>Lemmas\<close>

lemma run_statuses_UNIV: "set run_statuses = UNIV"
  by (auto simp: run_statuses_def intro: run_status.exhaust)

lemma distinct_run_statuses: "distinct run_statuses"
  by (simp add: run_statuses_def)

lemma run_status_value_inj: "run_status_value a = run_status_value b \<Longrightarrow> a = b"
  by (cases a; cases b) simp_all

lemma callback_status_value_inj: "callback_status_value a = callback_status_value b \<Longrightarrow> a = b"
  by (cases a; cases b) simp_all

lemma error_type_value_inj: "error_type_value a = error_type_value b \<Longrightarrow> a = b"
  by (cases a; cases b) simp_all

lemma executing_not_terminal [status_defs]: "EXECUTING_RUN_STATUSES \<inter> TERMINAL_RUN_STATUSES = {}"
  by (simp add: status_defs)

lemma delay_for_attempt_nonneg: "0 \<le> rp_backoff_seconds p \<Longrightarrow> 1 \<le> attempt \<Longrightarrow> 0 \<le> delay_for_attempt p attempt"
  by (simp add: delay_for_attempt_def)

text \<open>Backoff never shrinks from one attempt to the next, for either policy.\<close>

lemma delay_for_attempt_mono:
  assumes "0 \<le> rp_backoff_seconds p" and "a \<le> b"
  shows "delay_for_attempt p a \<le> delay_for_attempt p b"
proof (cases "rp_backoff_type p = ''exponential''")
  case True
  have "(2::rat) powi (a - 1) \<le> 2 powi (b - 1)" using assms(2) by (intro power_int_increasing) auto
  with True assms(1) show ?thesis by (simp add: delay_for_attempt_def mult_left_mono)
next
  case False
  with assms show ?thesis by (simp add: delay_for_attempt_def mult_left_mono)
qed

end
