(* ===== verification/Codec.thy ===== *)
theory Codec
  imports Domain "HOL-Library.Monad_Syntax"
begin

text \<open>
  Serialisation of the Pydantic models that the tables keep in JSON columns:
  \<^verbatim>\<open>model_dump(mode="json")\<close> as \<open>..._dump\<close> and \<^verbatim>\<open>model_validate\<close> as \<open>..._validate\<close>, with \<^const>\<open>None\<close>
  for a \<^verbatim>\<open>ValidationError\<close>.

  How Pydantic coerces a scalar is not code of this repository: the four scalar
  validators are a parameter, a record \<open>scalars\<close>, and \<open>faithful_scalars\<close> states what the
  models rely on, that a value of the field's own type is accepted unchanged.  Missing
  fields, defaults, \<^verbatim>\<open>Optional\<close>, lists, dictionaries, literals and the models' own
  validators are written out.

  The locale \<open>json_codec\<close> is the contract of a dump/validate pair; it is interpreted for
  every nested model of the run and configuration tables.
\<close>

section \<open>Scalar validators\<close>

record scalars =
  sc_str :: "json \<Rightarrow> string option"
  sc_int :: "json \<Rightarrow> int option"
  sc_float :: "json \<Rightarrow> rat option"
  sc_bool :: "json \<Rightarrow> bool option"

definition faithful_scalars :: "scalars \<Rightarrow> bool" where
  "faithful_scalars v \<longleftrightarrow>
     (\<forall>s. sc_str v (JStr s) = Some s) \<and> (\<forall>i. sc_int v (JNum (of_int i)) = Some i)
     \<and> (\<forall>x. sc_float v (JNum x) = Some x) \<and> (\<forall>b. sc_bool v (JBool b) = Some b)"

text \<open>Strict mode: a value of another type is an error.\<close>

definition strict_scalars :: scalars where
  "strict_scalars =
     \<lparr>sc_str = (\<lambda>j. case j of JStr s \<Rightarrow> Some s | _ \<Rightarrow> None),
      sc_int = (\<lambda>j. case j of JNum x \<Rightarrow> if x = of_int \<lfloor>x\<rfloor> then Some \<lfloor>x\<rfloor> else None | _ \<Rightarrow> None),
      sc_float = (\<lambda>j. case j of JNum x \<Rightarrow> Some x | _ \<Rightarrow> None),
      sc_bool = (\<lambda>j. case j of JBool b \<Rightarrow> Some b | _ \<Rightarrow> None)\<rparr>"

section \<open>Fields and containers\<close>

definition required :: "dict \<Rightarrow> string \<Rightarrow> (json \<Rightarrow> 'a option) \<Rightarrow> 'a option" where
  "required d k f = (case map_of d k of None \<Rightarrow> None | Some j \<Rightarrow> f j)"

definition defaulted :: "dict \<Rightarrow> string \<Rightarrow> 'a \<Rightarrow> (json \<Rightarrow> 'a option) \<Rightarrow> 'a option" where
  "defaulted d k dflt f = (case map_of d k of None \<Rightarrow> Some dflt | Some j \<Rightarrow> f j)"

definition optional :: "(json \<Rightarrow> 'a option) \<Rightarrow> json \<Rightarrow> 'a option option" where
  "optional f j = (case j of JNull \<Rightarrow> Some None | _ \<Rightarrow> map_option Some (f j))"

definition as_list :: "(json \<Rightarrow> 'a option) \<Rightarrow> json \<Rightarrow> 'a list option" where
  "as_list f j = (case j of JList js \<Rightarrow> those (map f js) | _ \<Rightarrow> None)"

definition as_dict :: "json \<Rightarrow> dict option" where
  "as_dict j = (case j of JObj d \<Rightarrow> Some d | _ \<Rightarrow> None)"

definition as_map :: "(json \<Rightarrow> 'a option) \<Rightarrow> json \<Rightarrow> (string \<times> 'a) list option" where
  "as_map f j = (case j of JObj d \<Rightarrow> those (map (\<lambda>(k, x). map_option (Pair k) (f x)) d) | _ \<Rightarrow> None)"

definition jint :: "int \<Rightarrow> json" where
  "jint i = JNum (of_int i)"

definition jnullable :: "('a \<Rightarrow> json) \<Rightarrow> 'a option \<Rightarrow> json" where
  "jnullable f x = (case x of None \<Rightarrow> JNull | Some y \<Rightarrow> f y)"

definition jstrs :: "string list \<Rightarrow> json" where
  "jstrs xs = JList (map JStr xs)"

definition jstr_map :: "(string \<times> string) list \<Rightarrow> json" where
  "jstr_map d = JObj (map (\<lambda>(k, s). (k, JStr s)) d)"

text \<open>\<^verbatim>\<open>value or default\<close> on a column.\<close>

definition json_or :: "json \<Rightarrow> json \<Rightarrow> json" where
  "json_or j dflt = (if json_truthy j then j else dflt)"

definition validation_error :: "string \<Rightarrow> py_exc" where
  "validation_error model = OtherException ''ValidationError'' model"

definition validated :: "string \<Rightarrow> 'a option \<Rightarrow> py_exc + 'a" where
  "validated model x = (case x of None \<Rightarrow> Inl (validation_error model) | Some y \<Rightarrow> Inr y)"

text \<open>A literal or enumeration member by its value.\<close>

definition member_of :: "('a \<Rightarrow> string) \<Rightarrow> 'a list \<Rightarrow> string \<Rightarrow> 'a option" where
  "member_of val xs s = find (\<lambda>x. val x = s) xs"

lemma optional_not_null: "j \<noteq> JNull \<Longrightarrow> optional f j = map_option Some (f j)"
  by (cases j) (simp_all add: optional_def)

section \<open>The contract of a codec\<close>

locale json_codec =
  fixes enc :: "'a \<Rightarrow> json" and dec :: "json \<Rightarrow> 'a option" and ok :: "'a \<Rightarrow> bool"
  assumes dec_enc: "ok x \<Longrightarrow> dec (enc x) = Some x"
begin

lemma those_enc: "(\<forall>x \<in> set xs. ok x) \<Longrightarrow> those (map dec (map enc xs)) = Some xs"
  by (induction xs) (simp_all add: dec_enc)

lemma list_roundtrip: "(\<forall>x \<in> set xs. ok x) \<Longrightarrow> as_list dec (JList (map enc xs)) = Some xs"
  unfolding as_list_def using those_enc by simp

lemma list_or_empty:
  assumes "\<forall>x \<in> set xs. ok x"
  shows "as_list dec (json_or (JList (map enc xs)) (JList [])) = Some xs"
  using list_roundtrip [OF assms] by (cases xs) (simp_all add: json_or_def)

lemma map_roundtrip:
  "(\<forall>x \<in> snd ` set d. ok x) \<Longrightarrow> as_map dec (JObj (map (\<lambda>(k, x). (k, enc x)) d)) = Some d"
  unfolding as_map_def by (induction d) (auto simp: dec_enc)

lemma nullable_roundtrip:
  "(\<forall>x. enc x \<noteq> JNull) \<Longrightarrow> pred_option ok x \<Longrightarrow> optional dec (jnullable enc x) = Some x"
  by (cases x) (simp add: optional_def jnullable_def, simp add: optional_not_null jnullable_def dec_enc)

lemma enc_inj: "ok x \<Longrightarrow> ok y \<Longrightarrow> enc x = enc y \<Longrightarrow> x = y"
  by (metis dec_enc option.inject)

end

section \<open>Lemmas on scalars and members\<close>

lemma faithful_scalarsD:
  assumes "faithful_scalars v"
  shows "sc_str v (JStr s) = Some s" "sc_int v (JNum (of_int i)) = Some i"
    "sc_float v (JNum x) = Some x" "sc_bool v (JBool b) = Some b" "sc_int v (jint i) = Some i"
  using assms by (auto simp: faithful_scalars_def jint_def)

lemma faithful_strict [simp]: "faithful_scalars strict_scalars"
  by (simp add: faithful_scalars_def strict_scalars_def)

lemma member_of_value:
  assumes "\<And>a b. val a = val b \<Longrightarrow> a = b" and "x \<in> set xs"
  shows "member_of val xs (val x) = Some x"
  unfolding member_of_def using assms by (induction xs) auto

lemma optional_simps [simp]:
  "optional f JNull = Some None"
  "optional f (JStr s) = map_option Some (f (JStr s))"
  "optional f (JNum n) = map_option Some (f (JNum n))"
  "optional f (JObj d) = map_option Some (f (JObj d))"
  by (simp_all add: optional_def)

lemma optional_jopt [simp]: "faithful_scalars v \<Longrightarrow> optional (sc_str v) (jopt x) = Some x"
  by (cases x) (simp_all add: jopt_def faithful_scalarsD)

lemma optional_jnum [simp]: "faithful_scalars v \<Longrightarrow> optional (sc_float v) (jnullable JNum x) = Some x"
  by (cases x) (simp_all add: jnullable_def faithful_scalarsD)

lemma as_dict_JObj [simp]: "as_dict (JObj d) = Some d"
  by (simp add: as_dict_def)

interpretation str_codec: json_codec JStr "sc_str v" "\<lambda>_. faithful_scalars v" for v
  by unfold_locales (simp add: faithful_scalarsD)

lemma as_list_jstrs [simp]: "faithful_scalars v \<Longrightarrow> as_list (sc_str v) (jstrs xs) = Some xs"
  unfolding jstrs_def by (rule str_codec.list_roundtrip) simp

lemma as_list_jstrs_or [simp]:
  "faithful_scalars v \<Longrightarrow> as_list (sc_str v) (json_or (jstrs xs) (JList [])) = Some xs"
  unfolding jstrs_def by (rule str_codec.list_or_empty) simp

lemma as_map_jstr_map [simp]: "faithful_scalars v \<Longrightarrow> as_map (sc_str v) (jstr_map d) = Some d"
  unfolding jstr_map_def by (rule str_codec.map_roundtrip) simp

lemma as_dict_or_empty [simp]: "as_dict (json_or (JObj d) (JObj [])) = Some d"
  by (simp add: json_or_def)

end
