(* ===== verification/Run_Store.thy ===== *)
theory Run_Store
  imports Domain
begin

text \<open>
  \<^verbatim>\<open>RunRepository\<close> (\<^verbatim>\<open>src/infra/store/repository/run.py\<close>) over the table
  \<^verbatim>\<open>ai_agent_run\<close>: creation under the two unique keys, the conditional write
  \<^verbatim>\<open>update_if_current\<close> every lifecycle transition goes through, the queue operations
  \<^verbatim>\<open>claim_ready\<close> and \<^verbatim>\<open>renew_lease\<close>, and the listings. Each method is one transaction,
  so it is one function on the table; the clock reading of the method is its argument
  \<open>now\<close>. The theory interprets the two table interfaces of \<open>Prelude\<close> and proves that
  claims by priority are exclusive while their lease lasts.
\<close>

type_synonym runs = "agent_run list"

section \<open>Reads and single-row writes\<close>

definition runs_get :: "string \<Rightarrow> runs \<Rightarrow> agent_run option" where
  "runs_get run_id rows = row_get ar_run_id run_id rows"

definition request_key :: "agent_run \<Rightarrow> string \<times> string \<times> string" where
  "request_key r = (ar_caller r, ar_route_tag r, ar_request_id r)"

definition runs_get_by_request_id :: "string \<Rightarrow> string \<Rightarrow> string \<Rightarrow> runs \<Rightarrow> agent_run option" where
  "runs_get_by_request_id caller route_tag request_id rows =
     find (\<lambda>r. ar_caller r = caller \<and> ar_route_tag r = route_tag \<and> ar_request_id r = request_id) rows"

text \<open>
  \<^verbatim>\<open>create\<close> inserts; the primary key and the constraint \<^verbatim>\<open>uk_ai_agent_run_request\<close> make
  the insert fail when either key is taken.
\<close>

definition runs_create :: "agent_run \<Rightarrow> runs \<Rightarrow> py_exc + runs" where
  "runs_create run rows =
     (if ar_run_id run \<in> ar_run_id ` set rows \<or> request_key run \<in> request_key ` set rows
      then Inl unique_violation
      else Inr (rows @ [run]))"

definition runs_update :: "datetime \<Rightarrow> agent_run \<Rightarrow> runs \<Rightarrow> runs" where
  "runs_update now run rows = row_merge ar_run_id (run\<lparr>ar_update_time := now\<rparr>) rows"

text \<open>The optional guards of \<^verbatim>\<open>update_if_current\<close>; a \<^verbatim>\<open>None\<close> expectation compares with \<^verbatim>\<open>IS NULL\<close>.\<close>

record run_guard =
  expected_statuses :: "run_status set"
  expected_worker :: "string option"
  match_worker :: bool
  expected_lease_expire_time :: "datetime option"
  match_lease_expire_time :: bool

definition run_matches :: "run_guard \<Rightarrow> agent_run \<Rightarrow> bool" where
  "run_matches g r = (ar_status r \<in> expected_statuses g
     \<and> (match_worker g \<longrightarrow> ar_worker r = expected_worker g)
     \<and> (match_lease_expire_time g \<longrightarrow> ar_lease_expire_time r = expected_lease_expire_time g))"

definition update_if_current :: "datetime \<Rightarrow> agent_run \<Rightarrow> run_guard \<Rightarrow> runs \<Rightarrow> bool \<times> runs" where
  "update_if_current now run g rows =
     (case update_where (\<lambda>r. ar_run_id r = ar_run_id run \<and> run_matches g r)
             (\<lambda>_. run\<lparr>ar_update_time := now\<rparr>) rows of
        (rowcount, rows') \<Rightarrow> (rowcount = 1, rows'))"

definition status_guard :: "run_status set \<Rightarrow> run_guard" where
  "status_guard ss = \<lparr>expected_statuses = ss, expected_worker = None, match_worker = False,
     expected_lease_expire_time = None, match_lease_expire_time = False\<rparr>"

definition owner_guard :: "run_status set \<Rightarrow> string option \<Rightarrow> run_guard" where
  "owner_guard ss w = (status_guard ss)\<lparr>expected_worker := w, match_worker := True\<rparr>"

definition lease_guard :: "run_status set \<Rightarrow> string option \<Rightarrow> datetime option \<Rightarrow> run_guard" where
  "lease_guard ss w l = (owner_guard ss w)\<lparr>expected_lease_expire_time := l, match_lease_expire_time := True\<rparr>"

section \<open>Listings\<close>

text \<open>Rows with equal sort keys keep table order; SQL leaves their order open.\<close>

definition runs_list :: "int \<Rightarrow> runs \<Rightarrow> runs" where
  "runs_list limit rows = take (nat limit) (sort_key (\<lambda>r. - ar_create_time r) rows)"

definition list_by_status :: "run_status list \<Rightarrow> int \<Rightarrow> runs \<Rightarrow> runs" where
  "list_by_status statuses limit rows = (if statuses = [] then []
     else take (nat limit) (sort_key ar_create_time (filter (\<lambda>r. ar_status r \<in> set statuses) rows)))"

definition list_by_conversation :: "string \<Rightarrow> int \<Rightarrow> runs \<Rightarrow> runs" where
  "list_by_conversation conversation_id limit rows =
     take (nat limit) (sort_key ar_create_time (filter (\<lambda>r. ar_conversation_id r = Some conversation_id) rows))"

definition status_counts :: "runs \<Rightarrow> (string \<times> nat) list" where
  "status_counts rows = map (\<lambda>s. (run_status_value s, length (filter (\<lambda>r. ar_status r = s) rows))) run_statuses"

section \<open>The queue folded into the run table\<close>

definition claimable :: "datetime \<Rightarrow> agent_run \<Rightarrow> bool" where
  "claimable now r =
     ((ar_status r = QUEUED \<and> (case ar_run_after r of None \<Rightarrow> True | Some t \<Rightarrow> t \<le> now))
      \<or> (ar_status r \<in> {RUNNING, WAITING_TOOL, RETRYING}
         \<and> (case ar_lease_expire_time r of None \<Rightarrow> False | Some t \<Rightarrow> t \<le> now)))"

text \<open>\<^verbatim>\<open>ORDER BY priority DESC, run_after ASC, create_time ASC\<close>; ascending order puts NULL last.\<close>

definition claim_key :: "agent_run \<Rightarrow> int \<times> (bool \<times> int) \<times> int" where
  "claim_key r = (- ar_priority r,
     (case ar_run_after r of None \<Rightarrow> (True, 0) | Some t \<Rightarrow> (False, t)), ar_create_time r)"

definition claim_selection :: "datetime \<Rightarrow> int \<Rightarrow> string set \<Rightarrow> runs \<Rightarrow> runs" where
  "claim_selection now limit exclude_run_ids rows =
     take (nat limit) (sort_key claim_key
       (filter (\<lambda>r. claimable now r \<and> ar_run_id r \<notin> exclude_run_ids) rows))"

definition claim_row :: "datetime \<Rightarrow> string \<Rightarrow> datetime \<Rightarrow> agent_run \<Rightarrow> agent_run" where
  "claim_row now worker_id lease_expire_time r =
     (let was_expired_execution = ar_status r \<in> {RUNNING, WAITING_TOOL, RETRYING} in
      r\<lparr>ar_status := RUNNING,
        ar_attempts := (if was_expired_execution \<and> 0 < ar_attempts r then ar_attempts r - 1 else ar_attempts r),
        ar_worker := Some worker_id,
        ar_lease_expire_time := Some lease_expire_time,
        ar_start_time := (case ar_start_time r of None \<Rightarrow> Some now | Some t \<Rightarrow> Some t),
        ar_update_time := now\<rparr>)"

definition claim_ready :: "datetime \<Rightarrow> string \<Rightarrow> rat \<Rightarrow> int \<Rightarrow> string set \<Rightarrow> runs \<Rightarrow> runs \<times> runs" where
  "claim_ready now worker_id lease_seconds limit exclude_run_ids rows =
     (let lease_expire_time = now + timedelta_seconds lease_seconds;
          entities = claim_selection now limit exclude_run_ids rows;
          claim = claim_row now worker_id lease_expire_time
      in (map claim entities,
          map (\<lambda>r. if ar_run_id r \<in> ar_run_id ` set entities then claim r else r) rows))"

definition renew_lease :: "datetime \<Rightarrow> string \<Rightarrow> string \<Rightarrow> rat \<Rightarrow> runs \<Rightarrow> bool \<times> runs" where
  "renew_lease now run_id worker_id lease_seconds rows =
     (let lease_expire_time = now + timedelta_seconds lease_seconds;
          owned = (\<lambda>r. ar_run_id r = run_id \<and> ar_worker r = Some worker_id
                       \<and> ar_status r \<in> {RUNNING, WAITING_TOOL, RETRYING})
      in case find owned rows of
           None \<Rightarrow> (False, rows)
         | Some _ \<Rightarrow> (True, map (\<lambda>r. if owned r
               then r\<lparr>ar_lease_expire_time := Some lease_expire_time, ar_update_time := now\<rparr> else r) rows))"

section \<open>The table invariant\<close>

definition runs_wf :: "runs \<Rightarrow> bool" where
  "runs_wf rows = (keys_distinct ar_run_id rows \<and> keys_distinct request_key rows)"

lemma runs_wf_ids: "runs_wf rows \<Longrightarrow> keys_distinct ar_run_id rows"
  by (simp add: runs_wf_def)

lemma guard_simps [simp]:
  "run_matches (status_guard ss) r = (ar_status r \<in> ss)"
  "run_matches (owner_guard ss w) r = (ar_status r \<in> ss \<and> ar_worker r = w)"
  "run_matches (lease_guard ss w l) r = (ar_status r \<in> ss \<and> ar_worker r = w \<and> ar_lease_expire_time r = l)"
  by (simp_all add: run_matches_def status_guard_def owner_guard_def lease_guard_def)

lemma runs_get_SomeD: "runs_get k rows = Some r \<Longrightarrow> r \<in> set rows \<and> ar_run_id r = k"
  unfolding runs_get_def by (rule row_get_SomeD)

lemma runs_get_mem: "keys_distinct ar_run_id rows \<Longrightarrow> r \<in> set rows \<Longrightarrow> runs_get (ar_run_id r) rows = Some r"
  unfolding runs_get_def by (rule row_get_distinct)

lemma runs_get_map:
  "(\<And>r. r \<in> set rows \<Longrightarrow> ar_run_id (f r) = ar_run_id r) \<Longrightarrow> runs_get k (map f rows) = map_option f (runs_get k rows)"
  unfolding runs_get_def by (rule row_get_map)

lemma update_if_current_fst:
  "keys_distinct ar_run_id rows \<Longrightarrow>
     fst (update_if_current now r g rows) \<longleftrightarrow> (\<exists>x. runs_get (ar_run_id r) rows = Some x \<and> run_matches g x)"
  by (simp add: update_if_current_def update_where_def runs_get_def count_key_1_iff del: One_nat_def)

lemma update_if_current_snd:
  "snd (update_if_current now r g rows) =
     map (\<lambda>x. if ar_run_id x = ar_run_id r \<and> run_matches g x then r\<lparr>ar_update_time := now\<rparr> else x) rows"
  by (simp add: update_if_current_def update_where_def)

lemma keys_distinct_update_if_current [table_simps]:
  "keys_distinct ar_run_id (snd (update_if_current now r g rows)) = keys_distinct ar_run_id rows"
  unfolding update_if_current_snd by (rule keys_distinct_map) simp

interpretation run_repo: repository runs_get "runs_update now" ar_run_id
    "\<lambda>r. r\<lparr>ar_update_time := now\<rparr>" "keys_distinct ar_run_id" for now
proof
  show "runs_get (ar_run_id r) (runs_update now r t) = Some (r\<lparr>ar_update_time := now\<rparr>)" for r t
    using row_get_merge_same [of ar_run_id "r\<lparr>ar_update_time := now\<rparr>" t] by (simp add: runs_get_def runs_update_def)
  show "k \<noteq> ar_run_id r \<Longrightarrow> runs_get k (runs_update now r t) = runs_get k t" for k r t
    by (simp add: runs_get_def runs_update_def table_simps)
  show "keys_distinct ar_run_id t \<Longrightarrow> keys_distinct ar_run_id (runs_update now r t)" for r t
    by (simp add: runs_update_def table_simps)
qed

interpretation run_cas: cas_table runs_get "update_if_current now" ar_run_id run_matches
    "\<lambda>r. r\<lparr>ar_update_time := now\<rparr>" "keys_distinct ar_run_id" for now
proof
  fix t r g k
  show "fst (update_if_current now r g t) \<longleftrightarrow> (\<exists>x. runs_get (ar_run_id r) t = Some x \<and> run_matches g x)"
    if "keys_distinct ar_run_id t"
    using that by (rule update_if_current_fst)
  show "snd (update_if_current now r g t) = t"
    if wf: "keys_distinct ar_run_id t" and lost: "\<not> fst (update_if_current now r g t)"
  proof -
    have "(if ar_run_id x = ar_run_id r \<and> run_matches g x then r\<lparr>ar_update_time := now\<rparr> else x) = x"
      if "x \<in> set t" for x
      using lost that wf runs_get_mem [OF wf that] by (auto simp: update_if_current_fst)
    then show ?thesis unfolding update_if_current_snd by (simp add: map_idI)
  qed
  show "runs_get (ar_run_id r) (snd (update_if_current now r g t)) = Some (r\<lparr>ar_update_time := now\<rparr>)"
    if "keys_distinct ar_run_id t" and "fst (update_if_current now r g t)"
    using that by (auto simp: update_if_current_fst update_if_current_snd runs_get_map dest: runs_get_SomeD)
  show "runs_get k (snd (update_if_current now r g t)) = runs_get k t" if "k \<noteq> ar_run_id r"
    using that by (auto simp: update_if_current_snd runs_get_map dest: runs_get_SomeD intro!: option.map_ident_strong)
  show "keys_distinct ar_run_id (snd (update_if_current now r g t))" if "keys_distinct ar_run_id t"
    using that by (simp add: table_simps)
qed

section \<open>Claims\<close>

lemma claim_selection_subset: "set (claim_selection now limit ex rows) \<subseteq>
    {r \<in> set rows. claimable now r \<and> ar_run_id r \<notin> ex}"
  by (auto simp: claim_selection_def dest: in_set_takeD)

lemma claim_row_id [simp]: "ar_run_id (claim_row now w l r) = ar_run_id r"
  by (simp add: claim_row_def Let_def)

lemma request_key_claim_row [simp]: "request_key (claim_row now w l r) = request_key r"
  by (simp add: claim_row_def Let_def request_key_def)

lemma claim_ready_fst: "fst (claim_ready now w ls limit ex rows) =
    map (claim_row now w (now + timedelta_seconds ls)) (claim_selection now limit ex rows)"
  by (simp add: claim_ready_def Let_def)

lemma claim_ready_snd: "snd (claim_ready now w ls limit ex rows) =
    map (\<lambda>r. if ar_run_id r \<in> ar_run_id ` set (claim_selection now limit ex rows)
             then claim_row now w (now + timedelta_seconds ls) r else r) rows"
  by (simp add: claim_ready_def Let_def)

lemma runs_get_claim_ready:
  "runs_get k (snd (claim_ready now w ls limit ex rows)) =
     map_option (\<lambda>r. if ar_run_id r \<in> ar_run_id ` set (claim_selection now limit ex rows)
             then claim_row now w (now + timedelta_seconds ls) r else r) (runs_get k rows)"
  unfolding claim_ready_snd by (rule runs_get_map) simp

lemma claimable_claim_row: "claimable now' (claim_row now w l r) \<longleftrightarrow> l \<le> now'"
  by (simp add: claimable_def claim_row_def Let_def)

interpretation run_queue: lease_queue ar_run_id claimable claim_row
  by unfold_locales (simp_all add: claimable_claim_row)

text \<open>The rows a claim skips come no earlier in the queue order than the rows it takes.\<close>

lemma take_sort_key_le:
  assumes "x \<in> set (take n (sort_key f xs))" and "y \<in> set xs" and "y \<notin> set (take n (sort_key f xs))"
  shows "f x \<le> f y"
proof -
  have y: "y \<in> set (drop n (sort_key f xs))"
    using assms(2,3) by (metis append_take_drop_id set_append set_sort Un_iff)
  have "sorted (map f (take n (sort_key f xs) @ drop n (sort_key f xs)))" by simp
  with assms(1) y show ?thesis unfolding map_append sorted_append by auto
qed


lemma claim_selection_order:
  assumes "x \<in> set (claim_selection now limit ex rows)" and "y \<in> set rows" and "claimable now y"
    and "ar_run_id y \<notin> ex" and "y \<notin> set (claim_selection now limit ex rows)"
  shows "claim_key x \<le> claim_key y"
  using assms take_sort_key_le [of x "nat limit" claim_key "filter (\<lambda>r. claimable now r \<and> ar_run_id r \<notin> ex) rows" y]
  by (simp add: claim_selection_def)

lemma claim_selection_sorted: "sorted (map claim_key (claim_selection now limit ex rows))"
  unfolding claim_selection_def by (simp add: take_map [symmetric] sorted_wrt_take)

lemma claim_selection_length: "length (claim_selection now limit ex rows) =
    min (nat limit) (length (filter (\<lambda>r. claimable now r \<and> ar_run_id r \<notin> ex) rows))"
  by (simp add: claim_selection_def)

lemma claim_selection_distinct:
  "keys_distinct ar_run_id rows \<Longrightarrow> distinct (map ar_run_id (claim_selection now limit ex rows))"
proof -
  assume d: "keys_distinct ar_run_id rows"
  let ?f = "filter (\<lambda>r. claimable now r \<and> ar_run_id r \<notin> ex) rows"
  from d have "distinct (map ar_run_id ?f)" by (simp add: keys_distinct_def distinct_map_filter)
  then have "distinct (map ar_run_id (sort_key claim_key ?f))" by (simp add: distinct_map)
  then show ?thesis by (simp add: claim_selection_def take_map [symmetric])
qed

lemma runs_wf_claim_ready: "runs_wf rows \<Longrightarrow> runs_wf (snd (claim_ready now w ls limit ex rows))"
  unfolding runs_wf_def claim_ready_snd by (simp add: keys_distinct_map)

lemma runs_wf_create: "runs_wf rows \<Longrightarrow> runs_create run rows = Inr rows' \<Longrightarrow> runs_wf rows'"
  by (auto simp: runs_wf_def runs_create_def keys_distinct_def split: if_splits)

lemma renew_lease_snd: "snd (renew_lease now rid w ls rows) =
    map (\<lambda>r. if ar_run_id r = rid \<and> ar_worker r = Some w \<and> ar_status r \<in> {RUNNING, WAITING_TOOL, RETRYING}
             then r\<lparr>ar_lease_expire_time := Some (now + timedelta_seconds ls), ar_update_time := now\<rparr> else r) rows"
  by (auto simp: renew_lease_def Let_def find_None_iff intro!: map_idI [symmetric] split: option.split)

lemma runs_wf_renew_lease: "runs_wf rows \<Longrightarrow> runs_wf (snd (renew_lease now rid w ls rows))"
  unfolding runs_wf_def renew_lease_snd by (simp add: keys_distinct_map request_key_def)

lemma renew_lease_fst:
  "keys_distinct ar_run_id rows \<Longrightarrow> fst (renew_lease now rid w ls rows) \<longleftrightarrow>
     (\<exists>r. runs_get rid rows = Some r \<and> ar_worker r = Some w \<and> ar_status r \<in> {RUNNING, WAITING_TOOL, RETRYING})"
proof -
  assume wf: "keys_distinct ar_run_id rows"
  have "fst (renew_lease now rid w ls rows) \<longleftrightarrow>
      (\<exists>r \<in> set rows. ar_run_id r = rid \<and> ar_worker r = Some w \<and> ar_status r \<in> {RUNNING, WAITING_TOOL, RETRYING})"
    unfolding renew_lease_def Let_def by (auto split: option.split simp: find_None_iff dest!: find_SomeD)
  with wf show ?thesis by (metis runs_get_SomeD runs_get_mem)
qed

lemma runs_wf_update_if_current:
  assumes "runs_wf rows" and "\<And>x. runs_get (ar_run_id run) rows = Some x \<Longrightarrow> request_key x = request_key run"
  shows "runs_wf (snd (update_if_current now run g rows))"
proof -
  have "request_key x = request_key (run\<lparr>ar_update_time := now\<rparr>)"
    if "x \<in> set rows" "ar_run_id x = ar_run_id run" for x
    using that assms(2) runs_get_mem [OF runs_wf_ids [OF assms(1)] that(1)] by (simp add: request_key_def)
  then show ?thesis
    using assms(1) unfolding runs_wf_def update_if_current_snd by (simp add: keys_distinct_map)
qed

text \<open>The request key finds at most one run, so \<^verbatim>\<open>scalar_one_or_none\<close> never sees two rows.\<close>

lemma request_key_unique:
  "runs_wf rows \<Longrightarrow> r \<in> set rows \<Longrightarrow> runs_get_by_request_id (ar_caller r) (ar_route_tag r) (ar_request_id r) rows = Some r"
  using row_get_distinct [of request_key rows r]
  by (simp add: runs_wf_def row_get_def runs_get_by_request_id_def request_key_def)

section \<open>Properties\<close>

text \<open>
  C1: \<^verbatim>\<open>update_if_current\<close> is an atomic compare-and-set. On a table with distinct
  run ids it reports success exactly when the stored row of the run meets the
  status, worker and lease guards; on success that row alone becomes the given run
  with its update time stamped, and on failure no row changes.
\<close>

theorem update_if_current_spec:
  assumes "keys_distinct ar_run_id rows" and "update_if_current now run g rows = (ok, rows')"
  shows "(ok \<longleftrightarrow> (\<exists>x. runs_get (ar_run_id run) rows = Some x \<and> run_matches g x))
     \<and> (\<forall>k. runs_get k rows' = (if ok \<and> k = ar_run_id run then Some (run\<lparr>ar_update_time := now\<rparr>) else runs_get k rows))
     \<and> (\<not> ok \<longrightarrow> rows' = rows)"
  using assms run_cas.get_cas [of rows _ now run g] run_cas.cas_loses [of rows now run g]
    update_if_current_fst [of rows now run g] by auto

theorem update_if_current_spec_witness:
  "\<exists>rows'. update_if_current 9 ((new_agent_run ''R'' ''T'' 0 ''tag'' ''me'' ''q'')\<lparr>ar_status := CANCELED\<rparr>)
       (status_guard {CREATED}) [new_agent_run ''R'' ''T'' 0 ''tag'' ''me'' ''q''] = (True, rows')
     \<and> map_option ar_status (runs_get ''R'' rows') = Some CANCELED"
proof -
  let ?r = "new_agent_run ''R'' ''T'' 0 ''tag'' ''me'' ''q''"
  have wf: "keys_distinct ar_run_id [?r]" by (simp add: keys_distinct_def)
  obtain ok rows' where u: "update_if_current 9 (?r\<lparr>ar_status := CANCELED\<rparr>) (status_guard {CREATED}) [?r] = (ok, rows')"
    by (cases "update_if_current 9 (?r\<lparr>ar_status := CANCELED\<rparr>) (status_guard {CREATED}) [?r]") auto
  show ?thesis
    using u update_if_current_spec [OF wf u] by (auto simp: runs_get_def new_agent_run_def)
qed

text \<open>
  C2: A lease is exclusive. The runs one worker claims cannot be claimed again, by any
  worker with any lease, batch size or exclusion set, as long as the second claim
  happens before the first lease expires.
\<close>

theorem claim_ready_exclusive:
  assumes "now' < now + timedelta_seconds ls"
    and "claim_ready now w ls limit ex rows = (claimed, rows1)"
    and "claim_ready now' w' ls' limit' ex' rows1 = (claimed', rows2)"
  shows "ar_run_id ` set claimed \<inter> ar_run_id ` set claimed' = {}"
proof -
  have "rows1 = snd (claim_ready now w ls limit ex rows)" "claimed = fst (claim_ready now w ls limit ex rows)"
    "claimed' = fst (claim_ready now' w' ls' limit' ex' rows1)" using assms(2,3) by simp_all
  then show ?thesis
    using run_queue.leases_exclusive [OF _ assms(1), of "claim_selection now' limit' ex' rows1"
        "claim_selection now limit ex rows" now w rows] claim_selection_subset [of now' limit' ex' rows1]
    by (auto simp: claim_ready_fst claim_ready_snd image_image)
qed

theorem claim_ready_exclusive_witness:
  "let r = (new_agent_run ''R'' ''T'' 0 ''tag'' ''me'' ''q'')\<lparr>ar_status := QUEUED\<rparr>;
       (claimed, rows1) = claim_ready 10 ''w1'' 60 20 {} [r];
       (claimed', rows2) = claim_ready 11 ''w2'' 60 20 {} rows1
   in map ar_run_id claimed = [''R''] \<and> ar_run_id ` set claimed \<inter> ar_run_id ` set claimed' = {}"
proof -
  let ?r = "(new_agent_run ''R'' ''T'' 0 ''tag'' ''me'' ''q'')\<lparr>ar_status := QUEUED\<rparr>"
  obtain c1 t1 where 1: "claim_ready 10 ''w1'' 60 20 {} [?r] = (c1, t1)" by fastforce
  obtain c2 t2 where 2: "claim_ready 11 ''w2'' 60 20 {} t1 = (c2, t2)" by fastforce
  have t: "timedelta_seconds 60 = 60000000" using timedelta_seconds_int [of 60] by simp
  have "map ar_run_id c1 = [''R'']"
    using 1 by (auto simp: claim_ready_def Let_def claim_selection_def claimable_def new_agent_run_def claim_row_def)
  moreover have "ar_run_id ` set c1 \<inter> ar_run_id ` set c2 = {}"
    by (rule claim_ready_exclusive [OF _ 1 2]) (simp add: t)
  ultimately show ?thesis using 1 2 by (simp add: Let_def)
qed

text \<open>
  Claims follow the queue order and leave no capacity unused. Every claimed run was
  ready and not excluded, the claimed runs are sorted by priority (highest first), then
  by due time, then by age, no ready run that was left behind precedes a claimed one in
  that order, and runs are left behind only when the batch limit is reached.
\<close>

theorem claim_ready_in_queue_order:
  "set (claim_selection now limit ex rows) \<subseteq> {r \<in> set rows. claimable now r \<and> ar_run_id r \<notin> ex}
   \<and> sorted (map claim_key (claim_selection now limit ex rows))
   \<and> (\<forall>x y. x \<in> set (claim_selection now limit ex rows) \<and> y \<in> set rows \<and> claimable now y \<and> ar_run_id y \<notin> ex
        \<and> y \<notin> set (claim_selection now limit ex rows) \<longrightarrow> claim_key x \<le> claim_key y)
   \<and> length (fst (claim_ready now w ls limit ex rows)) =
       min (nat limit) (length (filter (\<lambda>r. claimable now r \<and> ar_run_id r \<notin> ex) rows))"
  using claim_selection_subset claim_selection_order
  by (auto simp: claim_selection_sorted claim_ready_fst claim_selection_length)

theorem claim_ready_in_queue_order_witness:
  "let a = (new_agent_run ''A'' ''T'' 0 ''t'' ''me'' ''q1'')\<lparr>ar_status := QUEUED\<rparr>;
       b = (new_agent_run ''B'' ''T'' 1 ''t'' ''me'' ''q2'')\<lparr>ar_status := QUEUED, ar_priority := 9\<rparr>
   in claim_selection 5 1 {} [a, b] = [b] \<and> claim_key b \<le> claim_key a"
proof -
  let ?a = "(new_agent_run ''A'' ''T'' 0 ''t'' ''me'' ''q1'')\<lparr>ar_status := QUEUED\<rparr>"
  let ?b = "(new_agent_run ''B'' ''T'' 1 ''t'' ''me'' ''q2'')\<lparr>ar_status := QUEUED, ar_priority := 9\<rparr>"
  have sel: "claim_selection 5 1 {} [?a, ?b] = [?b]"
    by (simp add: claim_selection_def claimable_def claim_key_def new_agent_run_def less_eq_prod_def)
  have "claim_key ?b \<le> claim_key ?a"
    using claim_ready_in_queue_order [of 5 1 "{}" "[?a, ?b]"] sel
    by (auto simp: claimable_def new_agent_run_def)
  with sel show ?thesis by simp
qed

end
