(* ===== verification/Stage_Store.thy ===== *)
theory Stage_Store
  imports Domain
begin

text \<open>
  \<^verbatim>\<open>StageRepository\<close> (\<^verbatim>\<open>src/infra/store/repository/stage.py\<close>) over the table
  \<^verbatim>\<open>ai_agent_stage\<close>, the durable record of one stage of a run. Every method is one
  statement or one transaction, so it is one function on the table. The operations are
  also collected in the datatype \<open>stage_op\<close>, whose lists are the interleavings of the
  calls of any number of workers; the theorems are about such lists: who may still
  write a stage, which states are final, and how often its side effect is sent.
\<close>

type_synonym stages = "agent_stage list"

section \<open>The row and its keys\<close>

text \<open>\<^verbatim>\<open>AgentStage(...)\<close> with the defaults of the model.\<close>

definition new_agent_stage ::
    "string \<Rightarrow> datetime \<Rightarrow> string \<Rightarrow> string \<Rightarrow> string \<Rightarrow> string \<Rightarrow> string \<Rightarrow> int \<Rightarrow> string \<Rightarrow> int \<Rightarrow> string \<Rightarrow> string
     \<Rightarrow> agent_stage" where
  "new_agent_stage stage_id now run_id trace_id agent_name agent_version stage_key stage_index
     definition_version max_attempts idempotency_key input_hash =
     \<lparr>st_stage_id = stage_id, st_run_id = run_id, st_trace_id = trace_id, st_agent_name = agent_name,
      st_agent_version = agent_version, st_stage_key = stage_key, st_stage_index = stage_index,
      st_schema_version = ''1'', st_definition_version = definition_version, st_status = S_PENDING,
      st_run_attempt = 0, st_attempts = 0, st_max_attempts = max_attempts, st_execution_id = None,
      st_idempotency_key = idempotency_key, st_input_hash = input_hash, st_output = JNull,
      st_checkpoint = None, st_error_type = None, st_error_message = None, st_create_time = now,
      st_update_time = now, st_start_time = None, st_finish_time = None\<rparr>"

definition stage_uk :: "agent_stage \<Rightarrow> string \<times> string" where
  "stage_uk s = (st_run_id s, st_stage_key s)"

definition stages_get :: "string \<Rightarrow> string \<Rightarrow> stages \<Rightarrow> agent_stage option" where
  "stages_get run_id stage_key rows = row_get stage_uk (run_id, stage_key) rows"

definition list_for_run :: "string \<Rightarrow> stages \<Rightarrow> stages" where
  "list_for_run run_id rows = sort_key st_stage_index (filter (\<lambda>s. st_run_id s = run_id) rows)"

section \<open>Operations\<close>

text \<open>
  The insert does nothing when the key \<^verbatim>\<open>uk_ai_agent_stage_run_key\<close> is taken; a taken
  primary key is not covered by the conflict clause and raises.
\<close>

definition get_or_create :: "agent_stage \<Rightarrow> stages \<Rightarrow> py_exc + (agent_stage \<times> stages)" where
  "get_or_create stage rows =
     (case stages_get (st_run_id stage) (st_stage_key stage) rows of
        Some entity \<Rightarrow> Inr (entity, rows)
      | None \<Rightarrow> if st_stage_id stage \<in> st_stage_id ` set rows
                then Inl unique_violation
                else Inr (stage, rows @ [stage]))"

text \<open>\<^verbatim>\<open>UPDATE ... RETURNING\<close> with \<^verbatim>\<open>scalar_one_or_none\<close>.\<close>

definition update_returning :: "('r \<Rightarrow> bool) \<Rightarrow> ('r \<Rightarrow> 'r) \<Rightarrow> 'r list \<Rightarrow> 'r option \<times> 'r list" where
  "update_returning P f rows = (map_option f (find P rows), map (\<lambda>r. if P r then f r else r) rows)"

definition attempt_open :: "string \<Rightarrow> string \<Rightarrow> agent_stage \<Rightarrow> bool" where
  "attempt_open run_id stage_key s = (stage_uk s = (run_id, stage_key)
     \<and> st_status s \<in> {S_PENDING, S_RUNNING, S_FAILED}
     \<and> (st_status s = S_RUNNING \<or> st_attempts s < st_max_attempts s))"

definition begin_attempt ::
    "datetime \<Rightarrow> string \<Rightarrow> string \<Rightarrow> int \<Rightarrow> string \<Rightarrow> stages \<Rightarrow> agent_stage option \<times> stages" where
  "begin_attempt now run_id stage_key run_attempt execution_id rows =
     update_returning (attempt_open run_id stage_key)
       (\<lambda>s. s\<lparr>st_status := S_RUNNING,
              st_run_attempt := run_attempt,
              st_attempts := (if st_status s = S_RUNNING then st_attempts s else st_attempts s + 1),
              st_execution_id := Some execution_id,
              st_error_type := None,
              st_error_message := None,
              st_start_time := (case st_start_time s of None \<Rightarrow> Some now | Some t \<Rightarrow> Some t),
              st_finish_time := None,
              st_update_time := now\<rparr>) rows"

definition active_row :: "string \<Rightarrow> string \<Rightarrow> string \<Rightarrow> stage_status set \<Rightarrow> bool \<Rightarrow> agent_stage \<Rightarrow> bool" where
  "active_row run_id stage_key execution_id active_statuses require_returned_side_effect s =
     (stage_uk s = (run_id, stage_key)
      \<and> st_status s \<in> active_statuses
      \<and> (require_returned_side_effect \<longrightarrow>
           st_status s \<noteq> S_OUTCOME_UNKNOWN \<or> st_error_type s = Some ''SIDE_EFFECT_RETURNED'')
      \<and> st_execution_id s = Some execution_id)"

definition update_active ::
    "datetime \<Rightarrow> string \<Rightarrow> string \<Rightarrow> string \<Rightarrow> stage_status set \<Rightarrow> bool \<Rightarrow> (agent_stage \<Rightarrow> agent_stage)
     \<Rightarrow> stages \<Rightarrow> bool \<times> stages" where
  "update_active now run_id stage_key execution_id active_statuses require_returned_side_effect values rows =
     (case update_where (active_row run_id stage_key execution_id active_statuses require_returned_side_effect)
             (\<lambda>s. values (s\<lparr>st_update_time := now\<rparr>)) rows of
        (rowcount, rows') \<Rightarrow> (rowcount = 1, rows'))"

definition save_checkpoint :: "datetime \<Rightarrow> string \<Rightarrow> string \<Rightarrow> string \<Rightarrow> dict \<Rightarrow> stages \<Rightarrow> bool \<times> stages" where
  "save_checkpoint now run_id stage_key execution_id checkpoint =
     update_active now run_id stage_key execution_id {S_RUNNING} False (\<lambda>s. s\<lparr>st_checkpoint := Some checkpoint\<rparr>)"

definition mark_succeeded :: "datetime \<Rightarrow> string \<Rightarrow> string \<Rightarrow> string \<Rightarrow> json \<Rightarrow> stages \<Rightarrow> bool \<times> stages" where
  "mark_succeeded now run_id stage_key execution_id output =
     update_active now run_id stage_key execution_id {S_RUNNING, S_OUTCOME_UNKNOWN} True
       (\<lambda>s. s\<lparr>st_status := S_SUCCEEDED, st_output := output, st_checkpoint := None, st_error_type := None,
              st_error_message := None, st_finish_time := Some now\<rparr>)"

definition mark_failed ::
    "datetime \<Rightarrow> string \<Rightarrow> string \<Rightarrow> string \<Rightarrow> string \<Rightarrow> string \<Rightarrow> stages \<Rightarrow> bool \<times> stages" where
  "mark_failed now run_id stage_key execution_id error_type error_message =
     update_active now run_id stage_key execution_id {S_RUNNING} False
       (\<lambda>s. s\<lparr>st_status := S_FAILED, st_error_type := Some error_type,
              st_error_message := Some error_message, st_finish_time := Some now\<rparr>)"

definition mark_canceled :: "datetime \<Rightarrow> string \<Rightarrow> string \<Rightarrow> string \<Rightarrow> stages \<Rightarrow> bool \<times> stages" where
  "mark_canceled now run_id stage_key execution_id =
     update_active now run_id stage_key execution_id {S_RUNNING} False
       (\<lambda>s. s\<lparr>st_status := S_CANCELED, st_finish_time := Some now\<rparr>)"

definition mark_outcome_unknown ::
    "datetime \<Rightarrow> string \<Rightarrow> string \<Rightarrow> string \<Rightarrow> string \<Rightarrow> string \<Rightarrow> stages \<Rightarrow> bool \<times> stages" where
  "mark_outcome_unknown now run_id stage_key execution_id error_type error_message =
     update_active now run_id stage_key execution_id {S_RUNNING} False
       (\<lambda>s. s\<lparr>st_status := S_OUTCOME_UNKNOWN, st_error_type := Some error_type,
              st_error_message := Some error_message, st_finish_time := Some now\<rparr>)"

definition begin_side_effect_once ::
    "datetime \<Rightarrow> string \<Rightarrow> string \<Rightarrow> string \<Rightarrow> stages \<Rightarrow> agent_stage option \<times> stages" where
  "begin_side_effect_once now run_id stage_key execution_id rows =
     update_returning (\<lambda>s. stage_uk s = (run_id, stage_key) \<and> st_status s = S_PENDING \<and> st_attempts s = 0)
       (\<lambda>s. s\<lparr>st_status := S_RUNNING, st_attempts := 1, st_execution_id := Some execution_id,
              st_start_time := Some now, st_update_time := now\<rparr>) rows"

definition dispatch_row :: "string \<Rightarrow> string \<Rightarrow> string \<Rightarrow> stage_status \<Rightarrow> agent_stage \<Rightarrow> bool" where
  "dispatch_row run_id idempotency_key execution_id status s =
     (st_run_id s = run_id \<and> st_idempotency_key s = idempotency_key \<and> st_status s = status
      \<and> st_execution_id s = Some execution_id)"

definition mark_side_effect_dispatched ::
    "datetime \<Rightarrow> string \<Rightarrow> string \<Rightarrow> string \<Rightarrow> stages \<Rightarrow> bool \<times> stages" where
  "mark_side_effect_dispatched now run_id idempotency_key execution_id rows =
     (case update_where (dispatch_row run_id idempotency_key execution_id S_RUNNING)
             (\<lambda>s. s\<lparr>st_status := S_OUTCOME_UNKNOWN, st_error_type := Some ''SIDE_EFFECT_OUTCOME_UNKNOWN'',
                    st_error_message := Some ''External side effect dispatched; completion not yet committed'',
                    st_update_time := now\<rparr>) rows of
        (rowcount, rows') \<Rightarrow> (rowcount = 1, rows'))"

definition mark_side_effect_returned ::
    "datetime \<Rightarrow> string \<Rightarrow> string \<Rightarrow> string \<Rightarrow> stages \<Rightarrow> bool \<times> stages" where
  "mark_side_effect_returned now run_id idempotency_key execution_id rows =
     (case update_where (dispatch_row run_id idempotency_key execution_id S_OUTCOME_UNKNOWN)
             (\<lambda>s. s\<lparr>st_error_type := Some ''SIDE_EFFECT_RETURNED'', st_error_message := None,
                    st_update_time := now\<rparr>) rows of
        (rowcount, rows') \<Rightarrow> (rowcount = 1, rows'))"

definition reset_failed_for_run :: "datetime \<Rightarrow> string \<Rightarrow> stages \<Rightarrow> nat \<times> stages" where
  "reset_failed_for_run now run_id rows =
     update_where (\<lambda>s. st_run_id s = run_id \<and> st_status s = S_FAILED)
       (\<lambda>s. s\<lparr>st_status := S_PENDING, st_attempts := 0, st_execution_id := None, st_error_type := None,
              st_error_message := None, st_finish_time := None, st_update_time := now\<rparr>) rows"

definition delete_for_run :: "string \<Rightarrow> stages \<Rightarrow> nat \<times> stages" where
  "delete_for_run run_id rows =
     (length (filter (\<lambda>s. st_run_id s = run_id) rows), filter (\<lambda>s. st_run_id s \<noteq> run_id) rows)"

lemmas stage_op_defs [op_defs] = save_checkpoint_def mark_succeeded_def mark_failed_def mark_canceled_def
  mark_outcome_unknown_def update_active_def begin_attempt_def begin_side_effect_once_def
  mark_side_effect_dispatched_def mark_side_effect_returned_def reset_failed_for_run_def update_returning_def
  update_where_def

section \<open>Interleavings\<close>

text \<open>The writes a stage execution issues under its execution id.\<close>

datatype stage_write =
    Checkpoint dict
  | Succeeded json
  | Failed string string
  | Canceled
  | Outcome_Unknown string string

fun apply_write :: "datetime \<Rightarrow> string \<times> string \<Rightarrow> string \<Rightarrow> stage_write \<Rightarrow> stages \<Rightarrow> bool \<times> stages" where
  "apply_write now (run_id, key) eid (Checkpoint c) rows = save_checkpoint now run_id key eid c rows"
| "apply_write now (run_id, key) eid (Succeeded v) rows = mark_succeeded now run_id key eid v rows"
| "apply_write now (run_id, key) eid (Failed t m) rows = mark_failed now run_id key eid t m rows"
| "apply_write now (run_id, key) eid Canceled rows = mark_canceled now run_id key eid rows"
| "apply_write now (run_id, key) eid (Outcome_Unknown t m) rows = mark_outcome_unknown now run_id key eid t m rows"

datatype stage_op =
    Op_Create agent_stage
  | Op_Begin datetime string string int string
  | Op_Write datetime string string string stage_write
  | Op_Begin_Once datetime string string string
  | Op_Dispatched datetime string string string
  | Op_Returned datetime string string string
  | Op_Reset datetime string
  | Op_Delete string

fun apply_op :: "stage_op \<Rightarrow> stages \<Rightarrow> stages" where
  "apply_op (Op_Create s) rows = (case get_or_create s rows of Inl _ \<Rightarrow> rows | Inr (_, rows') \<Rightarrow> rows')"
| "apply_op (Op_Begin now r k a e) rows = snd (begin_attempt now r k a e rows)"
| "apply_op (Op_Write now r k e w) rows = snd (apply_write now (r, k) e w rows)"
| "apply_op (Op_Begin_Once now r k e) rows = snd (begin_side_effect_once now r k e rows)"
| "apply_op (Op_Dispatched now r i e) rows = snd (mark_side_effect_dispatched now r i e rows)"
| "apply_op (Op_Returned now r i e) rows = snd (mark_side_effect_returned now r i e rows)"
| "apply_op (Op_Reset now r) rows = snd (reset_failed_for_run now r rows)"
| "apply_op (Op_Delete r) rows = snd (delete_for_run r rows)"

definition apply_ops :: "stage_op list \<Rightarrow> stages \<Rightarrow> stages" where
  "apply_ops ops rows = fold apply_op ops rows"

fun deletes :: "string \<Rightarrow> stage_op \<Rightarrow> bool" where
  "deletes run_id (Op_Delete r) = (r = run_id)"
| "deletes run_id _ = False"

text \<open>How often the side effect of the stage is sent: the dispatch marks that reach its row.\<close>

fun dispatch_hit :: "string \<Rightarrow> string \<Rightarrow> stage_op \<Rightarrow> stages \<Rightarrow> bool" where
  "dispatch_hit run_id key (Op_Dispatched now r i e) rows =
     (case stages_get run_id key rows of None \<Rightarrow> False | Some s \<Rightarrow> dispatch_row r i e S_RUNNING s)"
| "dispatch_hit run_id key _ rows = False"

fun dispatch_count :: "string \<Rightarrow> string \<Rightarrow> stage_op list \<Rightarrow> stages \<Rightarrow> nat" where
  "dispatch_count run_id key [] rows = 0"
| "dispatch_count run_id key (op # ops) rows =
     (if dispatch_hit run_id key op rows then 1 else 0) + dispatch_count run_id key ops (apply_op op rows)"

text \<open>The lifecycle of a stage row.\<close>

inductive stage_transition :: "stage_status \<Rightarrow> stage_status \<Rightarrow> bool" where
  stay: "stage_transition s s"
| start: "stage_transition S_PENDING S_RUNNING"
| retry: "stage_transition S_FAILED S_RUNNING"
| succeed: "stage_transition S_RUNNING S_SUCCEEDED"
| fail: "stage_transition S_RUNNING S_FAILED"
| cancel: "stage_transition S_RUNNING S_CANCELED"
| lose: "stage_transition S_RUNNING S_OUTCOME_UNKNOWN"
| settle: "stage_transition S_OUTCOME_UNKNOWN S_SUCCEEDED"
| reset: "stage_transition S_FAILED S_PENDING"

inductive_simps stage_transition_from [simp]:
  "stage_transition S_SUCCEEDED s" "stage_transition S_CANCELED s" "stage_transition S_OUTCOME_UNKNOWN s"
  "stage_transition S_PENDING s"

definition stage_row_ok :: "agent_stage \<Rightarrow> bool" where
  "stage_row_ok s = (0 \<le> st_attempts s \<and> st_attempts s \<le> st_max_attempts s \<and> 1 \<le> st_max_attempts s
     \<and> (st_status s = S_PENDING \<longrightarrow> st_attempts s = 0 \<and> st_execution_id s = None)
     \<and> (st_status s \<noteq> S_PENDING \<longrightarrow> 1 \<le> st_attempts s \<and> st_execution_id s \<noteq> None))"

definition stages_wf :: "stages \<Rightarrow> bool" where
  "stages_wf rows = (keys_distinct st_stage_id rows \<and> keys_distinct stage_uk rows \<and> (\<forall>s \<in> set rows. stage_row_ok s))"

fun op_ok :: "stage_op \<Rightarrow> bool" where
  "op_ok (Op_Create s) = (st_status s = S_PENDING \<and> st_attempts s = 0 \<and> st_execution_id s = None \<and> 1 \<le> st_max_attempts s)"
| "op_ok _ = True"

section \<open>One operation, one row\<close>

text \<open>
  Apart from creation and deletion every operation rewrites rows in place. What it does
  to one row is the function \<open>op_row\<close>; the facts about tables below come from facts
  about single rows.
\<close>

definition op_row :: "stage_op \<Rightarrow> agent_stage \<Rightarrow> agent_stage" where
  "op_row op s = (case apply_op op [s] of [s'] \<Rightarrow> s' | _ \<Rightarrow> s)"

fun in_place :: "stage_op \<Rightarrow> bool" where
  "in_place (Op_Create s) = False"
| "in_place (Op_Delete r) = False"
| "in_place _ = True"

lemma apply_op_in_place: "in_place op \<Longrightarrow> apply_op op rows = map (op_row op) rows"
proof (cases op)
  case (Op_Write now r k e w)
  then show ?thesis by (cases w) (simp_all add: op_row_def stage_op_defs)
qed (simp_all add: op_row_def stage_op_defs)

lemma op_row_keys:
  "in_place op \<Longrightarrow> stage_uk (op_row op s) = stage_uk s \<and> st_stage_id (op_row op s) = st_stage_id s
     \<and> st_max_attempts (op_row op s) = st_max_attempts s"
proof (cases op)
  case (Op_Write now r k e w)
  then show ?thesis by (cases w) (auto simp: op_row_def stage_op_defs stage_uk_def)
qed (auto simp: op_row_def stage_op_defs stage_uk_def)

lemma op_row_ok: "in_place op \<Longrightarrow> stage_row_ok s \<Longrightarrow> stage_row_ok (op_row op s)"
proof (cases op)
  case (Op_Write now r k e w)
  then show "stage_row_ok s \<Longrightarrow> ?thesis"
    by (cases w) (auto simp: op_row_def stage_op_defs stage_row_ok_def active_row_def)
qed (auto simp: op_row_def stage_op_defs stage_row_ok_def attempt_open_def dispatch_row_def)

lemma op_row_transition: "in_place op \<Longrightarrow> stage_transition (st_status s) (st_status (op_row op s))"
proof (cases op)
  case (Op_Write now r k e w)
  then show ?thesis
    by (cases w) (auto simp: op_row_def stage_op_defs active_row_def intro: stage_transition.intros)
qed (auto simp: op_row_def stage_op_defs attempt_open_def dispatch_row_def intro: stage_transition.intros)

lemma closed_row:
  assumes "st_status s \<in> {S_SUCCEEDED, S_CANCELED}"
  shows "\<not> attempt_open r k s" "\<not> active_row r k e {S_RUNNING} b s" "\<not> active_row r k e {S_RUNNING, S_OUTCOME_UNKNOWN} b s"
    "\<not> dispatch_row r k e S_RUNNING s" "\<not> dispatch_row r k e S_OUTCOME_UNKNOWN s"
    "st_status s \<noteq> S_PENDING" "st_status s \<noteq> S_FAILED"
  using assms by (auto simp: attempt_open_def active_row_def dispatch_row_def)

lemma op_row_final:
  assumes "st_status s \<in> {S_SUCCEEDED, S_CANCELED}" and "in_place op"
  shows "op_row op s = s"
proof (cases op)
  case (Op_Write now r k e w)
  then show ?thesis by (cases w) (simp_all add: op_row_def stage_op_defs closed_row [OF assms(1)])
qed (use assms(2) in \<open>simp_all add: op_row_def stage_op_defs closed_row [OF assms(1)]\<close>)

text \<open>A stage whose side effect may have happened is never executed again.\<close>

lemma op_row_unknown:
  "st_status s = S_OUTCOME_UNKNOWN \<Longrightarrow> in_place op \<Longrightarrow>
     st_status (op_row op s) \<in> {S_OUTCOME_UNKNOWN, S_SUCCEEDED} \<and> st_execution_id (op_row op s) = st_execution_id s
     \<and> st_attempts (op_row op s) = st_attempts s"
proof (cases op)
  case (Op_Write now r k e w)
  then show "st_status s = S_OUTCOME_UNKNOWN \<Longrightarrow> ?thesis"
    by (cases w) (auto simp: op_row_def stage_op_defs active_row_def)
qed (auto simp: op_row_def stage_op_defs attempt_open_def dispatch_row_def)

lemma dispatch_hit_row:
  "dispatch_hit run_id key op rows \<Longrightarrow> stages_get run_id key rows = Some s \<Longrightarrow>
     in_place op \<and> st_status s = S_RUNNING \<and> st_status (op_row op s) = S_OUTCOME_UNKNOWN"
  by (cases op) (auto simp: op_row_def stage_op_defs dispatch_row_def)

section \<open>Tables\<close>

lemma stages_get_in_place: "in_place op \<Longrightarrow> stages_get r k (apply_op op rows) = map_option (op_row op) (stages_get r k rows)"
  by (simp add: apply_op_in_place stages_get_def row_get_map op_row_keys)

lemma stages_get_create: "stages_get r k rows = Some s \<Longrightarrow> stages_get r k (apply_op (Op_Create s') rows) = Some s"
  by (auto simp: get_or_create_def stages_get_def row_get_append split: option.splits)

lemma stages_get_delete:
  "r \<noteq> r' \<Longrightarrow> stages_get r k (apply_op (Op_Delete r') rows) = stages_get r k rows"
  by (induction rows) (auto simp: delete_for_run_def stages_get_def stage_uk_def)

text \<open>What any operation that does not delete the run leaves of a row.\<close>

lemma stages_get_op:
  assumes "\<not> deletes r op" and "stages_get r k rows = Some s"
  shows "stages_get r k (apply_op op rows) = Some (if in_place op then op_row op s else s)"
proof (cases op)
  case (Op_Create x)
  with assms show ?thesis by (simp add: stages_get_create del: apply_op.simps)
next
  case (Op_Delete x)
  with assms show ?thesis by (simp add: stages_get_delete del: apply_op.simps)
qed (use assms in \<open>simp_all add: stages_get_in_place del: apply_op.simps\<close>)

lemma row_persists:
  assumes step: "\<And>op x. in_place op \<Longrightarrow> Q x \<Longrightarrow> Q (op_row op x)"
    and "\<forall>op \<in> set ops. \<not> deletes r op" and "stages_get r k rows = Some s" and "Q s"
  shows "\<exists>s'. stages_get r k (apply_ops ops rows) = Some s' \<and> Q s'"
  using assms(2-)
proof (induction ops arbitrary: rows s)
  case Nil
  then show ?case by (simp add: apply_ops_def)
next
  case (Cons op ops)
  then have "stages_get r k (apply_op op rows) = Some (if in_place op then op_row op s else s)"
    by (intro stages_get_op) auto
  moreover have "Q (if in_place op then op_row op s else s)" using step Cons.prems by simp
  ultimately show ?case using Cons.IH [of "apply_op op rows"] Cons.prems by (simp add: apply_ops_def)
qed

lemma stages_wf_op: "op_ok op \<Longrightarrow> stages_wf rows \<Longrightarrow> stages_wf (apply_op op rows)"
proof (cases "in_place op")
  case True
  assume "stages_wf rows"
  then show ?thesis
    unfolding stages_wf_def apply_op_in_place [OF True]
    using op_row_ok [OF True] by (auto simp: keys_distinct_map op_row_keys [OF True])
next
  case False
  assume "op_ok op" "stages_wf rows"
  then show ?thesis
  proof (cases op)
    case (Op_Create s)
    with \<open>op_ok op\<close> \<open>stages_wf rows\<close> show ?thesis
      by (auto simp: stages_wf_def get_or_create_def keys_distinct_def stage_row_ok_def stages_get_def
          row_get_None_iff stage_uk_def split: option.splits)
  next
    case (Op_Delete r)
    with \<open>stages_wf rows\<close> show ?thesis
      by (auto simp: stages_wf_def delete_for_run_def keys_distinct_def distinct_map_filter)
  qed (use False in auto)
qed

lemma stages_wf_ops: "\<forall>op \<in> set ops. op_ok op \<Longrightarrow> stages_wf rows \<Longrightarrow> stages_wf (apply_ops ops rows)"
  unfolding apply_ops_def by (induction ops arbitrary: rows) (simp_all add: stages_wf_op)

lemma stages_wf_Nil: "stages_wf []"
  by (simp add: stages_wf_def keys_distinct_def)

section \<open>Side effects\<close>

lemma unknown_stays:
  assumes "\<forall>op \<in> set ops. \<not> deletes r op" and "stages_get r k rows = Some s"
    and "st_status s \<in> {S_OUTCOME_UNKNOWN, S_SUCCEEDED}"
  shows "\<exists>s'. stages_get r k (apply_ops ops rows) = Some s' \<and> st_status s' \<in> {S_OUTCOME_UNKNOWN, S_SUCCEEDED}
     \<and> st_execution_id s' = st_execution_id s \<and> st_attempts s' = st_attempts s"
proof (rule row_persists [OF _ assms(1,2)])
  fix op and x :: agent_stage
  assume op: "in_place op" and x: "st_status x \<in> {S_OUTCOME_UNKNOWN, S_SUCCEEDED}
     \<and> st_execution_id x = st_execution_id s \<and> st_attempts x = st_attempts s"
  then show "st_status (op_row op x) \<in> {S_OUTCOME_UNKNOWN, S_SUCCEEDED}
     \<and> st_execution_id (op_row op x) = st_execution_id s \<and> st_attempts (op_row op x) = st_attempts s"
    using op_row_unknown [of x op] op_row_final [of x op] by auto
qed (use assms(3) in auto)

lemma dispatch_count_unknown:
  assumes "\<forall>op \<in> set ops. \<not> deletes r op" and "stages_get r k rows = Some s"
    and "st_status s \<in> {S_OUTCOME_UNKNOWN, S_SUCCEEDED}"
  shows "dispatch_count r k ops rows = 0"
  using assms
proof (induction ops arbitrary: rows s)
  case (Cons op ops)
  have "\<not> dispatch_hit r k op rows" using dispatch_hit_row [of r k op rows s] Cons.prems by auto
  moreover obtain s' where "stages_get r k (apply_op op rows) = Some s'" "st_status s' \<in> {S_OUTCOME_UNKNOWN, S_SUCCEEDED}"
    using unknown_stays [of "[op]" r k rows s] Cons.prems by (auto simp: apply_ops_def)
  ultimately show ?case using Cons.IH Cons.prems by simp
qed simp

lemma dispatch_count_le_1:
  assumes "\<forall>op \<in> set ops. \<not> deletes r op" and "stages_get r k rows = Some s"
  shows "dispatch_count r k ops rows \<le> 1"
  using assms
proof (induction ops arbitrary: rows s)
  case (Cons op ops)
  then have next_row: "stages_get r k (apply_op op rows) = Some (if in_place op then op_row op s else s)"
    by (intro stages_get_op) auto
  show ?case
  proof (cases "dispatch_hit r k op rows")
    case True
    with next_row dispatch_hit_row [OF True Cons.prems(2)] have "dispatch_count r k ops (apply_op op rows) = 0"
      using Cons.prems(1) by (intro dispatch_count_unknown) auto
    then show ?thesis by simp
  next
    case False
    with Cons.IH [OF _ next_row] Cons.prems(1) show ?thesis by simp
  qed
qed simp

section \<open>Fencing\<close>

lemma update_active_snd:
  "snd (update_active now r k e ss b f rows) =
     map (\<lambda>s. if active_row r k e ss b s then f (s\<lparr>st_update_time := now\<rparr>) else s) rows"
  by (simp add: update_active_def update_where_def)

lemma update_active_fst:
  assumes "keys_distinct stage_uk rows"
  shows "fst (update_active now r k e ss b f rows) \<longleftrightarrow> (\<exists>s. stages_get r k rows = Some s \<and> active_row r k e ss b s)"
proof -
  have "filter (active_row r k e ss b) rows = filter (\<lambda>s. stage_uk s = (r, k) \<and> active_row r k e ss b s) rows"
    by (rule filter_cong) (auto simp: active_row_def)
  then have "length (filter (active_row r k e ss b) rows) = 1 \<longleftrightarrow>
      (\<exists>s. row_get stage_uk (r, k) rows = Some s \<and> active_row r k e ss b s)"
    by (simp only: count_key_1_iff [OF assms])
  then show ?thesis by (simp add: update_active_def update_where_def stages_get_def)
qed

lemma stages_get_SomeD: "stages_get r k rows = Some s \<Longrightarrow> s \<in> set rows \<and> stage_uk s = (r, k)"
  unfolding stages_get_def by (rule row_get_SomeD)

lemma stages_get_mem: "keys_distinct stage_uk rows \<Longrightarrow> s \<in> set rows \<Longrightarrow> stages_get (st_run_id s) (st_stage_key s) rows = Some s"
  using row_get_distinct [of stage_uk rows s] by (simp add: stages_get_def stage_uk_def)

lemma update_active_loses:
  assumes "keys_distinct stage_uk rows" and "\<not> fst (update_active now r k e ss b f rows)"
  shows "snd (update_active now r k e ss b f rows) = rows"
proof -
  have "\<not> active_row r k e ss b s" if "s \<in> set rows" for s
    using assms update_active_fst [OF assms(1)] stages_get_mem [OF assms(1) that]
    by (auto simp: active_row_def stage_uk_def)
  then show ?thesis unfolding update_active_snd by (simp add: map_idI)
qed

text \<open>Every write under an execution id is one guarded update of the row.\<close>

fun write_fields :: "datetime \<Rightarrow> stage_write \<Rightarrow> agent_stage \<Rightarrow> agent_stage" where
  "write_fields now (Checkpoint c) s = s\<lparr>st_checkpoint := Some c\<rparr>"
| "write_fields now (Succeeded v) s = s\<lparr>st_status := S_SUCCEEDED, st_output := v, st_checkpoint := None,
     st_error_type := None, st_error_message := None, st_finish_time := Some now\<rparr>"
| "write_fields now (Failed t m) s = s\<lparr>st_status := S_FAILED, st_error_type := Some t,
     st_error_message := Some m, st_finish_time := Some now\<rparr>"
| "write_fields now Canceled s = s\<lparr>st_status := S_CANCELED, st_finish_time := Some now\<rparr>"
| "write_fields now (Outcome_Unknown t m) s = s\<lparr>st_status := S_OUTCOME_UNKNOWN, st_error_type := Some t,
     st_error_message := Some m, st_finish_time := Some now\<rparr>"

definition write_statuses :: "stage_write \<Rightarrow> stage_status set" where
  "write_statuses w = (case w of Succeeded v \<Rightarrow> {S_RUNNING, S_OUTCOME_UNKNOWN} | _ \<Rightarrow> {S_RUNNING})"

definition write_checked :: "stage_write \<Rightarrow> bool" where
  "write_checked w = (case w of Succeeded v \<Rightarrow> True | _ \<Rightarrow> False)"

lemma apply_write_active:
  "apply_write now (r, k) e w = update_active now r k e (write_statuses w) (write_checked w) (write_fields now w)"
  by (cases w) (auto simp: fun_eq_iff stage_op_defs write_statuses_def write_checked_def)

lemma write_fields_keep [simp]:
  "stage_uk (write_fields now w s) = stage_uk s" "st_execution_id (write_fields now w s) = st_execution_id s"
  by (cases w; simp add: stage_uk_def)+

interpretation stage_fence: fenced_table "\<lambda>k. stages_get (fst k) (snd k)" "apply_write now" st_execution_id
    "keys_distinct stage_uk" for now
proof
  fix t :: stages and k k' :: "string \<times> string" and e w r
  obtain rid key where k: "k = (rid, key)" by (cases k)
  have get: "stages_get a b (snd (apply_write now k e w t)) = map_option (\<lambda>s.
      if active_row rid key e (write_statuses w) (write_checked w) s
      then write_fields now w (s\<lparr>st_update_time := now\<rparr>) else s) (stages_get a b t)" for a b
    unfolding k apply_write_active update_active_snd stages_get_def
    by (rule row_get_map) (simp, simp add: stage_uk_def)
  show "\<exists>r. stages_get (fst k) (snd k) t = Some r \<and> st_execution_id r = Some e"
    if "keys_distinct stage_uk t" and "fst (apply_write now k e w t)"
    using that by (auto simp: k apply_write_active update_active_fst active_row_def)
  show "snd (apply_write now k e w t) = t"
    if "keys_distinct stage_uk t" and "\<not> fst (apply_write now k e w t)"
    using that by (simp add: k apply_write_active update_active_loses)
  show "stages_get (fst k') (snd k') (snd (apply_write now k e w t)) = stages_get (fst k') (snd k') t"
    if "k' \<noteq> k"
    unfolding get using that by (auto simp: k active_row_def dest!: stages_get_SomeD intro!: option.map_ident_strong)
  show "\<exists>r'. stages_get (fst k) (snd k) (snd (apply_write now k e w t)) = Some r' \<and> st_execution_id r' = st_execution_id r"
    if "stages_get (fst k) (snd k) t = Some r"
    using that by (simp add: get)
  show "keys_distinct stage_uk (snd (apply_write now k e w t))" if "keys_distinct stage_uk t"
    using that unfolding k apply_write_active update_active_snd
    by (subst keys_distinct_map) (simp_all, simp add: stage_uk_def)
qed

section \<open>Properties\<close>

text \<open>
  C18: The stage table keeps its invariant under every interleaving of repository calls.
  Starting from an empty table, after any sequence of operations in which created stages
  are fresh, stage ids and (run, key) pairs are unique, no stage has used more than its
  configured attempts, a pending stage has no executor, and every other stage has been
  attempted and carries an execution id.
\<close>

theorem stages_invariant:
  assumes "\<forall>op \<in> set ops. op_ok op"
  shows "stages_wf (apply_ops ops [])"
  using stages_wf_ops [OF assms stages_wf_Nil] .

theorem stages_invariant_witness:
  "let s = new_agent_stage ''i'' 0 ''R'' ''T'' ''a'' ''1'' ''k'' 0 ''1'' 1 ''R:k'' ''h'';
       rows = apply_ops [Op_Create s, Op_Begin 1 ''R'' ''k'' 1 ''e1'', Op_Write 2 ''R'' ''k'' ''e1'' (Failed ''E'' ''m''),
                Op_Begin 3 ''R'' ''k'' 2 ''e2''] []
   in stages_wf rows \<and> map st_status rows = [S_FAILED] \<and> map st_attempts rows = [1]"
proof -
  let ?s = "new_agent_stage ''i'' 0 ''R'' ''T'' ''a'' ''1'' ''k'' 0 ''1'' 1 ''R:k'' ''h''"
  let ?ops = "[Op_Create ?s, Op_Begin 1 ''R'' ''k'' 1 ''e1'', Op_Write 2 ''R'' ''k'' ''e1'' (Failed ''E'' ''m''),
                Op_Begin 3 ''R'' ''k'' 2 ''e2'']"
  have "stages_wf (apply_ops ?ops [])"
    by (rule stages_invariant) (simp add: new_agent_stage_def)
  moreover have "map st_status (apply_ops ?ops []) = [S_FAILED] \<and> map st_attempts (apply_ops ?ops []) = [1]"
    by (simp add: apply_ops_def stage_op_defs get_or_create_def stages_get_def new_agent_stage_def
        attempt_open_def active_row_def stage_uk_def)
  ultimately show ?thesis by (simp only: Let_def)
qed

text \<open>
  Final stage results are durable. Once a stage has succeeded (or was canceled), no
  sequence of repository calls by any workers changes its row in any column, as long as
  the stages of its run are not deleted.
\<close>

theorem stage_final_is_immutable:
  assumes "\<forall>op \<in> set ops. \<not> deletes run_id op"
    and "stages_get run_id key rows = Some s" and "st_status s \<in> {S_SUCCEEDED, S_CANCELED}"
  shows "stages_get run_id key (apply_ops ops rows) = Some s"
  using row_persists [where Q = "\<lambda>x. x = s", OF _ assms(1,2)] op_row_final assms(3) by auto

theorem stage_final_is_immutable_witness:
  "let s = (new_agent_stage ''i'' 0 ''R'' ''T'' ''a'' ''1'' ''k'' 0 ''1'' 1 ''R:k'' ''h'')
             \<lparr>st_status := S_SUCCEEDED, st_output := JStr ''out'', st_execution_id := Some ''e1''\<rparr>
   in stages_get ''R'' ''k'' (apply_ops [Op_Begin 3 ''R'' ''k'' 2 ''e2'', Op_Reset 4 ''R'',
        Op_Write 5 ''R'' ''k'' ''e1'' (Succeeded JNull)] [s]) = Some s"
proof -
  let ?s = "(new_agent_stage ''i'' 0 ''R'' ''T'' ''a'' ''1'' ''k'' 0 ''1'' 1 ''R:k'' ''h'')
             \<lparr>st_status := S_SUCCEEDED, st_output := JStr ''out'', st_execution_id := Some ''e1''\<rparr>"
  have "stages_get ''R'' ''k'' [?s] = Some ?s"
    by (simp add: stages_get_def stage_uk_def new_agent_stage_def)
  then show ?thesis unfolding Let_def by (intro stage_final_is_immutable) simp_all
qed



text \<open>
  C4: A superseded stage execution is fenced off. After another worker has begun an attempt
  with its own execution id, every script of checkpoints and outcome marks by the earlier
  execution is refused and leaves the table untouched, so its results are never recorded.
\<close>

theorem superseded_execution_is_fenced:
  assumes "keys_distinct stage_uk rows" and "begin_attempt now run_id key a e' rows = (Some active, rows')"
    and "e \<noteq> e'"
  shows "st_execution_id active = Some e' \<and> apply_write t (run_id, key) e w rows' = (False, rows')
     \<and> fold (\<lambda>w rows. snd (apply_write t (run_id, key) e w rows)) ws rows' = rows'"
proof -
  have rows': "rows' = apply_op (Op_Begin now run_id key a e') rows" using assms(2) by simp
  have wf: "keys_distinct stage_uk rows'"
    using assms(1) unfolding rows' by (simp add: apply_op_in_place keys_distinct_map op_row_keys del: apply_op.simps)
  obtain s where s: "find (attempt_open run_id key) rows = Some s"
    using assms(2) by (auto simp: begin_attempt_def update_returning_def)
  then have "s \<in> set rows" and avail: "attempt_open run_id key s" by (auto dest: find_SomeD)
  then have "stages_get run_id key rows = Some s"
    using stages_get_mem [OF assms(1)] by (auto simp: attempt_open_def stage_uk_def)
  then have get: "stages_get run_id key rows' = Some (op_row (Op_Begin now run_id key a e') s)"
    unfolding rows' by (simp add: stages_get_in_place del: apply_op.simps)
  have "active = op_row (Op_Begin now run_id key a e') s"
    using assms(2) s avail by (auto simp: op_row_def begin_attempt_def update_returning_def)
  with avail have "st_execution_id active = Some e'" "st_execution_id (op_row (Op_Begin now run_id key a e') s) = Some e'"
    by (simp_all add: op_row_def stage_op_defs)
  with wf get assms(3) show ?thesis
    using stage_fence.stale_write [of rows' "(run_id, key)"] stage_fence.stale_writes [of rows' "(run_id, key)"] by simp
qed

theorem superseded_execution_is_fenced_witness:
  "let s = (new_agent_stage ''i'' 0 ''R'' ''T'' ''a'' ''1'' ''k'' 0 ''1'' 3 ''R:k'' ''h'')
             \<lparr>st_status := S_RUNNING, st_execution_id := Some ''e1'', st_attempts := 1\<rparr>
   in \<exists>active rows'. begin_attempt 5 ''R'' ''k'' 2 ''e2'' [s] = (Some active, rows') \<and> st_attempts active = 1
        \<and> mark_succeeded 6 ''R'' ''k'' ''e1'' (JStr ''late'') rows' = (False, rows')"
proof -
  let ?s = "(new_agent_stage ''i'' 0 ''R'' ''T'' ''a'' ''1'' ''k'' 0 ''1'' 3 ''R:k'' ''h'')
             \<lparr>st_status := S_RUNNING, st_execution_id := Some ''e1'', st_attempts := 1\<rparr>"
  obtain active rows' where b: "begin_attempt 5 ''R'' ''k'' 2 ''e2'' [?s] = (Some active, rows')"
      and "st_attempts active = 1"
    by (auto simp: stage_op_defs attempt_open_def new_agent_stage_def stage_uk_def)
  moreover have "apply_write 6 (''R'', ''k'') ''e1'' (Succeeded (JStr ''late'')) rows' = (False, rows')"
    using superseded_execution_is_fenced [OF _ b, of "''e1''" 6 "Succeeded (JStr ''late'')"]
    by (simp add: keys_distinct_def)
  ultimately show ?thesis by auto
qed

text \<open>
  A stage follows its lifecycle. Every repository call moves every stage along the
  transitions \<^verbatim>\<open>PENDING\<close> to \<^verbatim>\<open>RUNNING\<close>, \<^verbatim>\<open>RUNNING\<close> to a result, \<^verbatim>\<open>FAILED\<close> back to
  \<^verbatim>\<open>RUNNING\<close> or \<^verbatim>\<open>PENDING\<close>, \<^verbatim>\<open>OUTCOME_UNKNOWN\<close> to \<^verbatim>\<open>SUCCEEDED\<close>, or leaves its status alone.
\<close>

theorem stage_lifecycle:
  assumes "\<not> deletes run_id op" and "stages_get run_id key rows = Some s"
  shows "\<exists>s'. stages_get run_id key (apply_op op rows) = Some s' \<and> stage_transition (st_status s) (st_status s')"
  using stages_get_op [OF assms] op_row_transition [of op s] by (auto intro: stage_transition.intros)

theorem stage_lifecycle_witness:
  "let s = new_agent_stage ''i'' 0 ''R'' ''T'' ''a'' ''1'' ''k'' 0 ''1'' 3 ''R:k'' ''h''
   in \<exists>s'. stages_get ''R'' ''k'' (apply_op (Op_Begin_Once 1 ''R'' ''k'' ''e'') [s]) = Some s'
        \<and> stage_transition S_PENDING (st_status s')"
  using stage_lifecycle [of "''R''" "Op_Begin_Once 1 ''R'' ''k'' ''e''" "''k''"
      "[new_agent_stage ''i'' 0 ''R'' ''T'' ''a'' ''1'' ''k'' 0 ''1'' 3 ''R:k'' ''h'']"]
  by (simp add: stages_get_def stage_uk_def new_agent_stage_def del: apply_op.simps stage_transition_from)

end
