(* ===== verification/Store.thy ===== *)
theory Store
  imports Run_Store Stage_Store
begin

text \<open>
  The persistence container \<^verbatim>\<open>SqlAlchemyRunStore\<close> (\<^verbatim>\<open>src/infra/store/sqlalchemy_store.py\<close>):
  the remaining repositories (callback deliveries, conversations, run log, model calls)
  and the operations that span tables: \<^verbatim>\<open>unit_of_work\<close>, \<^verbatim>\<open>update_run_with_callback\<close> and
  \<^verbatim>\<open>prune\<close>. Log data is redacted on its way in (\<^verbatim>\<open>_redact\<close> of \<^verbatim>\<open>repository/base.py\<close>).
  The theorems: redaction leaves no secret at any depth, deliveries are leased
  exclusively, a run and its delivery are written together or not at all, and
  retention deletes exactly the rows that are too old.
\<close>

section \<open>Redaction\<close>

definition is_sensitive_key :: "string \<Rightarrow> bool" where
  "is_sensitive_key key =
     (let normalized = str_lower key in
      if normalized \<in> {''password'', ''secret'', ''api_key'', ''authorization'', ''token'', ''access_token'',
           ''refresh_token'', ''bearer_token''} then True
      else if suffix ''_api_key'' normalized \<or> suffix ''_secret'' normalized then True
      else if normalized \<in> {''prompt_tokens'', ''completion_tokens'', ''total_tokens'', ''input_tokens'',
           ''output_tokens''} then False
      else False)"

fun redact :: "json \<Rightarrow> json" where
  "redact (JObj d) = JObj (map (\<lambda>(k, v). (k, if is_sensitive_key k then JStr ''***REDACTED***'' else redact v)) d)"
| "redact (JList xs) = JList (map redact xs)"
| "redact v = v"

definition redact_dict :: "dict \<Rightarrow> dict" where
  "redact_dict d = (case redact (JObj d) of JObj d' \<Rightarrow> d' | _ \<Rightarrow> d)"

text \<open>No value under a sensitive key survives, at any depth.\<close>

fun no_secrets :: "json \<Rightarrow> bool" where
  "no_secrets (JObj d) = (\<forall>kv \<in> set d. (is_sensitive_key (fst kv) \<longrightarrow> snd kv = JStr ''***REDACTED***'') \<and> no_secrets (snd kv))"
| "no_secrets (JList xs) = (\<forall>x \<in> set xs. no_secrets x)"
| "no_secrets v = True"

lemma redact_no_secrets: "no_secrets (redact v)"
  by (induction v rule: redact.induct) auto

lemma redact_idem: "redact (redact v) = redact v"
  by (induction v rule: redact.induct) auto

lemma redact_keeps: "no_secrets v \<Longrightarrow> redact v = v"
  by (induction v rule: redact.induct) (auto intro!: map_idI)

section \<open>Model calls\<close>

record model_call_record =
  mc_call_id :: string
  mc_run_id :: string
  mc_trace_id :: string
  mc_agent_name :: string
  mc_agent_version :: string
  mc_provider :: string
  mc_model :: "string option"
  mc_prompt_version :: "string option"
  mc_prompt_hash :: "string option"
  mc_input_summary :: "string option"
  mc_output_summary :: "string option"
  mc_status :: string
  mc_error :: "string option"
  mc_prompt_tokens :: int
  mc_completion_tokens :: int
  mc_total_tokens :: int
  mc_estimated_cost :: rat
  mc_start_time :: datetime
  mc_finish_time :: "datetime option"
  mc_metadata :: dict
  mc_http_status :: "int option"

definition classify_model_error :: "string option \<Rightarrow> string option" where
  "classify_model_error error =
     (case error of None \<Rightarrow> None
      | Some e \<Rightarrow> if e = [] then None else
          (let lower = str_lower e; has = (\<lambda>p. str_in p lower) in
           if has ''timeout'' then Some ''timeout''
           else if has ''429'' \<or> has ''rate_limit'' \<or> has ''rate limit'' then Some ''rate_limited''
           else if (has ''5'' \<and> (has ''00'' \<or> has ''xx''))
                   \<and> (has ''500'' \<or> has ''502'' \<or> has ''503'' \<or> has ''504'' \<or> has ''5xx'') then Some ''server_error''
           else if (has ''4'' \<and> (has ''00'' \<or> has ''xx''))
                   \<and> (has ''400'' \<or> has ''401'' \<or> has ''403'' \<or> has ''404'' \<or> has ''4xx'') then Some ''client_error''
           else if has ''connection'' \<or> has ''network'' \<or> has ''dns'' then Some ''network''
           else Some ''unknown''))"

text \<open>The row of \<^verbatim>\<open>ai_model_call\<close> with its two derived columns.\<close>

record model_call_row =
  mr_record :: model_call_record
  mr_latency_ms :: "int option"
  mr_error_type :: "string option"

definition model_calls_save :: "model_call_record \<Rightarrow> model_call_row list \<Rightarrow> model_call_row list" where
  "model_calls_save rec rows = row_merge (\<lambda>r. mc_call_id (mr_record r))
     \<lparr>mr_record = rec,
      mr_latency_ms = (case mc_finish_time rec of None \<Rightarrow> None
         | Some f \<Rightarrow> Some (let ms = total_seconds (f - mc_start_time rec) * 1000 in
                           if 0 \<le> ms then \<lfloor>ms\<rfloor> else \<lceil>ms\<rceil>)),
      mr_error_type = classify_model_error (mc_error rec)\<rparr> rows"

definition model_calls_for_run :: "string \<Rightarrow> model_call_row list \<Rightarrow> model_call_record list" where
  "model_calls_for_run run_id rows = sort_key mc_start_time (filter (\<lambda>r. mc_run_id r = run_id) (map mr_record rows))"

definition model_calls_for_trace :: "string \<Rightarrow> model_call_row list \<Rightarrow> model_call_record list" where
  "model_calls_for_trace trace_id rows = sort_key mc_start_time (filter (\<lambda>r. mc_trace_id r = trace_id) (map mr_record rows))"

definition model_calls_list_failed :: "int \<Rightarrow> model_call_row list \<Rightarrow> model_call_record list" where
  "model_calls_list_failed limit rows =
     take (nat limit) (sort_key (\<lambda>r. - mc_start_time r) (filter (\<lambda>r. mc_status r = ''failed'') (map mr_record rows)))"

definition model_calls_list :: "int \<Rightarrow> model_call_row list \<Rightarrow> model_call_record list" where
  "model_calls_list limit rows = take (nat limit) (sort_key (\<lambda>r. - mc_start_time r) (map mr_record rows))"

section \<open>Callback deliveries\<close>

type_synonym callbacks = "callback_delivery list"

definition callbacks_save :: "datetime \<Rightarrow> callback_delivery \<Rightarrow> callbacks \<Rightarrow> callbacks" where
  "callbacks_save now delivery rows = row_merge cd_event_id (delivery\<lparr>cd_update_time := now\<rparr>) rows"

definition callbacks_get :: "string \<Rightarrow> callbacks \<Rightarrow> callback_delivery option" where
  "callbacks_get event_id rows = row_get cd_event_id event_id rows"

definition deliverable :: "int option \<Rightarrow> datetime \<Rightarrow> callback_delivery \<Rightarrow> bool" where
  "deliverable max_attempts now d =
     ((cd_status d = CB_PENDING
       \<or> (case max_attempts of None \<Rightarrow> False | Some m \<Rightarrow> cd_status d = CB_FAILED \<and> cd_attempts d < m))
      \<and> cd_run_after d \<le> now
      \<and> (cd_worker d = None \<or> (case cd_lease_expire_time d of None \<Rightarrow> True | Some t \<Rightarrow> t \<le> now)))"

definition pending_selection :: "datetime \<Rightarrow> int option \<Rightarrow> int \<Rightarrow> callbacks \<Rightarrow> callbacks" where
  "pending_selection now max_attempts limit rows =
     take (nat limit) (sort_key (\<lambda>d. (cd_run_after d, cd_update_time d)) (filter (deliverable max_attempts now) rows))"

definition lease_delivery :: "datetime \<Rightarrow> string \<Rightarrow> datetime \<Rightarrow> callback_delivery \<Rightarrow> callback_delivery" where
  "lease_delivery now worker_id lease_expire_time d =
     d\<lparr>cd_worker := Some worker_id, cd_lease_expire_time := Some lease_expire_time, cd_update_time := now\<rparr>"

definition claim_pending ::
    "datetime \<Rightarrow> string \<Rightarrow> rat \<Rightarrow> int option \<Rightarrow> int \<Rightarrow> callbacks \<Rightarrow> callbacks \<times> callbacks" where
  "claim_pending now worker_id lease_seconds max_attempts limit rows =
     (let lease_expire_time = now + timedelta_seconds lease_seconds;
          entities = pending_selection now max_attempts limit rows;
          claim = lease_delivery now worker_id lease_expire_time
      in (map claim entities,
          map (\<lambda>d. if cd_event_id d \<in> cd_event_id ` set entities then claim d else d) rows))"

definition callbacks_for_run :: "string \<Rightarrow> callbacks \<Rightarrow> callbacks" where
  "callbacks_for_run run_id rows = sort_key cd_update_time (filter (\<lambda>d. cd_run_id d = run_id) rows)"

definition callbacks_list :: "callback_status list \<Rightarrow> int \<Rightarrow> callbacks \<Rightarrow> callbacks" where
  "callbacks_list statuses limit rows = take (nat limit) (sort_key cd_update_time
     (if statuses = [] then rows else filter (\<lambda>d. cd_status d \<in> set statuses) rows))"

definition callback_counts :: "callbacks \<Rightarrow> (string \<times> nat) list" where
  "callback_counts rows = map (\<lambda>s. (callback_status_value s, length (filter (\<lambda>d. cd_status d = s) rows)))
     [CB_PENDING, CB_DELIVERED, CB_FAILED, CB_SKIPPED]"

section \<open>Conversations and the log\<close>

definition conversation_key :: "conversation \<Rightarrow> string \<times> string" where
  "conversation_key c = (cv_caller c, cv_external_id c)"

definition conversations_create :: "conversation \<Rightarrow> conversation list \<Rightarrow> py_exc + conversation list" where
  "conversations_create c rows =
     (if cv_conversation_id c \<in> cv_conversation_id ` set rows \<or> conversation_key c \<in> conversation_key ` set rows
      then Inl unique_violation else Inr (rows @ [c]))"

definition conversations_get :: "string \<Rightarrow> conversation list \<Rightarrow> conversation option" where
  "conversations_get conversation_id rows = row_get cv_conversation_id conversation_id rows"

definition conversations_get_by_external_id :: "string \<Rightarrow> string \<Rightarrow> conversation list \<Rightarrow> conversation option" where
  "conversations_get_by_external_id caller external_id rows = row_get conversation_key (caller, external_id) rows"

definition conversations_update :: "datetime \<Rightarrow> conversation \<Rightarrow> conversation list \<Rightarrow> conversation list" where
  "conversations_update now c rows = row_merge cv_conversation_id (c\<lparr>cv_update_time := now\<rparr>) rows"

definition logs_add :: "log_event \<Rightarrow> log_event list \<Rightarrow> log_event list" where
  "logs_add event rows = rows @ [event\<lparr>le_data := redact_dict (le_data event)\<rparr>]"

definition logs_for_trace :: "string \<Rightarrow> log_event list \<Rightarrow> log_event list" where
  "logs_for_trace trace_id rows = sort_key le_create_time (filter (\<lambda>e. le_trace_id e = trace_id) rows)"

definition logs_for_run :: "string \<Rightarrow> log_event list \<Rightarrow> log_event list" where
  "logs_for_run run_id rows = sort_key le_create_time (filter (\<lambda>e. le_run_id e = Some run_id) rows)"

definition list_by_component :: "string \<Rightarrow> int \<Rightarrow> log_event list \<Rightarrow> log_event list" where
  "list_by_component component limit rows =
     take (nat limit) (sort_key (\<lambda>e. - le_create_time e) (filter (\<lambda>e. le_component e = component) rows))"

section \<open>The container\<close>

record store =
  s_runs :: runs
  s_stages :: stages
  s_conversations :: "conversation list"
  s_logs :: "log_event list"
  s_callbacks :: callbacks
  s_model_calls :: "model_call_row list"

text \<open>
  One transaction: the body's writes are kept when it returns and dropped when it raises;
  a unique violation leaves as \<^verbatim>\<open>UniqueConstraintConflictError\<close>.
\<close>

definition unit_of_work :: "(store \<Rightarrow> py_exc + (store \<times> 'a)) \<Rightarrow> store \<Rightarrow> store \<times> (py_exc + 'a)" where
  "unit_of_work body st =
     (case body st of
        Inr (st', x) \<Rightarrow> (st', Inr x)
      | Inl e \<Rightarrow> (st, Inl (case e of IntegrityError pgcode m \<Rightarrow>
            if pgcode = ''23505'' then UniqueConstraintConflictError ''A unique persistence key already exists'' else e
          | _ \<Rightarrow> e)))"

definition update_run_with_callback ::
    "datetime \<Rightarrow> datetime \<Rightarrow> agent_run \<Rightarrow> callback_delivery option \<Rightarrow> run_guard option \<Rightarrow> store \<Rightarrow> store \<times> bool" where
  "update_run_with_callback now now' run delivery guard st =
     (let (ok, rows) = (case guard of None \<Rightarrow> (True, runs_update now run (s_runs st))
                        | Some g \<Rightarrow> update_if_current now run g (s_runs st))
      in if \<not> ok then (st, False)
         else (st\<lparr>s_runs := rows,
                  s_callbacks := (case delivery of None \<Rightarrow> s_callbacks st
                    | Some d \<Rightarrow> callbacks_save now' d (s_callbacks st))\<rparr>, True))"

record retention =
  log_days :: "rat option"
  callback_days :: "rat option"
  model_call_days :: "rat option"

definition cutoff :: "datetime \<Rightarrow> rat \<Rightarrow> datetime" where
  "cutoff now days = now - timedelta_seconds (days * 86400)"

definition prune_rows :: "datetime \<Rightarrow> string \<Rightarrow> ('r \<Rightarrow> datetime) \<Rightarrow> rat option \<Rightarrow> 'r list \<Rightarrow> 'r list \<times> (string \<times> nat) list" where
  "prune_rows now label column days rows =
     (case days of None \<Rightarrow> (rows, [])
      | Some d \<Rightarrow> (filter (\<lambda>r. \<not> column r < cutoff now d) rows,
                   [(label, length (filter (\<lambda>r. column r < cutoff now d) rows))]))"

definition prune :: "datetime \<Rightarrow> retention \<Rightarrow> store \<Rightarrow> store \<times> (string \<times> nat) list" where
  "prune now ret st =
     (let (logs, d1) = prune_rows now ''log_events'' le_create_time (log_days ret) (s_logs st);
          (cbs, d2) = prune_rows now ''callbacks'' cd_update_time (callback_days ret) (s_callbacks st);
          (mcs, d3) = prune_rows now ''model_calls'' (\<lambda>r. mc_start_time (mr_record r)) (model_call_days ret) (s_model_calls st)
      in (st\<lparr>s_logs := logs, s_callbacks := cbs, s_model_calls := mcs\<rparr>, d1 @ d2 @ d3))"

section \<open>Interpretations\<close>

interpretation callback_repo: repository callbacks_get "callbacks_save now" cd_event_id
    "\<lambda>d. d\<lparr>cd_update_time := now\<rparr>" "keys_distinct cd_event_id" for now
proof
  show "callbacks_get (cd_event_id r) (callbacks_save now r t) = Some (r\<lparr>cd_update_time := now\<rparr>)" for r t
    using row_get_merge_same [of cd_event_id "r\<lparr>cd_update_time := now\<rparr>" t]
    by (simp add: callbacks_get_def callbacks_save_def)
qed (simp_all add: callbacks_get_def callbacks_save_def table_simps)

interpretation conversation_repo: repository conversations_get "conversations_update now" cv_conversation_id
    "\<lambda>c. c\<lparr>cv_update_time := now\<rparr>" "keys_distinct cv_conversation_id" for now
proof
  show "conversations_get (cv_conversation_id r) (conversations_update now r t) = Some (r\<lparr>cv_update_time := now\<rparr>)" for r t
    using row_get_merge_same [of cv_conversation_id "r\<lparr>cv_update_time := now\<rparr>" t]
    by (simp add: conversations_get_def conversations_update_def)
qed (simp_all add: conversations_get_def conversations_update_def table_simps)

interpretation callback_queue: lease_queue cd_event_id "deliverable max_attempts" lease_delivery for max_attempts
  by unfold_locales (auto simp: lease_delivery_def deliverable_def)

lemma pending_selection_subset:
  "set (pending_selection now m limit rows) \<subseteq> {d \<in> set rows. deliverable m now d}"
  by (auto simp: pending_selection_def dest: in_set_takeD)

lemma claim_pending_simps:
  "fst (claim_pending now w ls m limit rows) =
     map (lease_delivery now w (now + timedelta_seconds ls)) (pending_selection now m limit rows)"
  "snd (claim_pending now w ls m limit rows) =
     map (\<lambda>d. if cd_event_id d \<in> cd_event_id ` set (pending_selection now m limit rows)
              then lease_delivery now w (now + timedelta_seconds ls) d else d) rows"
  by (simp_all add: claim_pending_def Let_def)

lemma lease_delivery_id [simp]: "cd_event_id (lease_delivery now w l d) = cd_event_id d"
  by (simp add: lease_delivery_def)

lemma prune_rows_simps:
  "fst (prune_rows now label col days rows) = filter (\<lambda>r. case days of None \<Rightarrow> True | Some d \<Rightarrow> cutoff now d \<le> col r) rows"
  "map_of (snd (prune_rows now label col days rows)) label' =
     (if label' = label then map_option (\<lambda>_. length rows - length (fst (prune_rows now label col days rows))) days else None)"
  using sum_length_filter_compl [of "\<lambda>r. col r < cutoff now (the days)" rows]
  by (auto simp: prune_rows_def not_less split: option.split)

lemma prune_simps:
  "fst (prune now ret st) = st\<lparr>s_logs := fst (prune_rows now ''log_events'' le_create_time (log_days ret) (s_logs st)),
     s_callbacks := fst (prune_rows now ''callbacks'' cd_update_time (callback_days ret) (s_callbacks st)),
     s_model_calls := fst (prune_rows now ''model_calls'' (\<lambda>r. mc_start_time (mr_record r)) (model_call_days ret) (s_model_calls st))\<rparr>"
  "snd (prune now ret st) = snd (prune_rows now ''log_events'' le_create_time (log_days ret) (s_logs st))
     @ snd (prune_rows now ''callbacks'' cd_update_time (callback_days ret) (s_callbacks st))
     @ snd (prune_rows now ''model_calls'' (\<lambda>r. mc_start_time (mr_record r)) (model_call_days ret) (s_model_calls st))"
  by (simp_all add: prune_def Let_def split_beta)

section \<open>Properties\<close>



text \<open>
  A delivery is sent by one worker at a time: the deliveries one worker claims cannot be
  claimed again, under any attempt limit and batch size, before their lease expires.
\<close>

theorem claim_pending_exclusive:
  assumes "now' < now + timedelta_seconds ls"
    and "claim_pending now w ls m limit rows = (claimed, rows1)"
    and "claim_pending now' w' ls' m' limit' rows1 = (claimed', rows2)"
  shows "cd_event_id ` set claimed \<inter> cd_event_id ` set claimed' = {}"
proof -
  have "rows1 = snd (claim_pending now w ls m limit rows)" "claimed = fst (claim_pending now w ls m limit rows)"
    "claimed' = fst (claim_pending now' w' ls' m' limit' rows1)" using assms(2,3) by simp_all
  then show ?thesis
    using callback_queue.leases_exclusive [OF _ assms(1), of "pending_selection now' m' limit' rows1"
        "pending_selection now m limit rows" now w rows m'] pending_selection_subset [of now' m' limit' rows1]
    by (auto simp: claim_pending_simps image_image)
qed

theorem claim_pending_exclusive_witness:
  "let d = \<lparr>cd_event_id = ''E'', cd_run_id = ''R'', cd_trace_id = ''T'', cd_url = ''u'', cd_status = CB_PENDING,
        cd_attempts = 0, cd_last_error = None, cd_run_after = 0, cd_worker = None, cd_lease_expire_time = None,
        cd_payload = [], cd_create_time = 0, cd_update_time = 0\<rparr>;
       (claimed, rows1) = claim_pending 10 ''w1'' 60 None 20 [d];
       (claimed', rows2) = claim_pending 11 ''w2'' 60 (Some 3) 20 rows1
   in map cd_event_id claimed = [''E''] \<and> cd_event_id ` set claimed \<inter> cd_event_id ` set claimed' = {}"
proof -
  let ?d = "\<lparr>cd_event_id = ''E'', cd_run_id = ''R'', cd_trace_id = ''T'', cd_url = ''u'', cd_status = CB_PENDING,
        cd_attempts = 0, cd_last_error = None, cd_run_after = 0, cd_worker = None, cd_lease_expire_time = None,
        cd_payload = [], cd_create_time = 0, cd_update_time = 0\<rparr>"
  obtain c1 t1 where 1: "claim_pending 10 ''w1'' 60 None 20 [?d] = (c1, t1)" by fastforce
  obtain c2 t2 where 2: "claim_pending 11 ''w2'' 60 (Some 3) 20 t1 = (c2, t2)" by fastforce
  have t: "timedelta_seconds 60 = 60000000" using timedelta_seconds_int [of 60] by simp
  have "map cd_event_id c1 = [''E'']"
    using 1 by (auto simp: claim_pending_def Let_def pending_selection_def deliverable_def lease_delivery_def)
  moreover have "cd_event_id ` set c1 \<inter> cd_event_id ` set c2 = {}"
    by (rule claim_pending_exclusive [OF _ 1 2]) (simp add: t)
  ultimately show ?thesis using 1 2 by (simp add: Let_def)
qed

text \<open>
  A run's outcome and its callback delivery are recorded together or not at all. When the
  guarded write reports success, the stored row met the guard and both the run and the
  delivery read back as given; when it reports failure the store is unchanged, so no
  delivery exists for a transition that did not happen.
\<close>

theorem update_run_with_callback_atomic:
  assumes "keys_distinct ar_run_id (s_runs st)"
    and "update_run_with_callback now now' run (Some d) (Some g) st = (st', ok)"
  shows "if ok
    then (\<exists>x. runs_get (ar_run_id run) (s_runs st) = Some x \<and> run_matches g x)
       \<and> runs_get (ar_run_id run) (s_runs st') = Some (run\<lparr>ar_update_time := now\<rparr>)
       \<and> callbacks_get (cd_event_id d) (s_callbacks st') = Some (d\<lparr>cd_update_time := now'\<rparr>)
    else st' = st"
proof -
  obtain ok' rows' where u: "update_if_current now run g (s_runs st) = (ok', rows')" by fastforce
  then have ok: "ok = ok'" and st': "st' = (if ok' then st\<lparr>s_runs := rows', s_callbacks := callbacks_save now' d (s_callbacks st)\<rparr> else st)"
    using assms(2) by (auto simp: update_run_with_callback_def split: if_splits)
  show ?thesis
  proof (cases ok')
    case True
    then show ?thesis
      using run_cas.cas_wins_iff [OF assms(1), of now run g] run_cas.cas_stores [OF assms(1), of now run g] u ok st'
        callback_repo.get_put_same [of d now' "s_callbacks st"] by simp
  qed (simp add: ok st')
qed

theorem update_run_with_callback_atomic_witness:
  "let r = (new_agent_run ''R'' ''T'' 0 ''tag'' ''me'' ''q'')\<lparr>ar_status := RUNNING\<rparr>;
       d = \<lparr>cd_event_id = ''E'', cd_run_id = ''R'', cd_trace_id = ''T'', cd_url = ''u'', cd_status = CB_PENDING,
        cd_attempts = 0, cd_last_error = None, cd_run_after = 0, cd_worker = None, cd_lease_expire_time = None,
        cd_payload = [], cd_create_time = 0, cd_update_time = 0\<rparr>;
       st = \<lparr>s_runs = [r], s_stages = [], s_conversations = [], s_logs = [], s_callbacks = [], s_model_calls = []\<rparr>
   in \<exists>st'. update_run_with_callback 5 6 (r\<lparr>ar_status := FAILED\<rparr>) (Some d) (Some (owner_guard {RUNNING} None)) st = (st', True)
        \<and> callbacks_get ''E'' (s_callbacks st') = Some (d\<lparr>cd_update_time := 6\<rparr>)"
proof -
  let ?r = "(new_agent_run ''R'' ''T'' 0 ''tag'' ''me'' ''q'')\<lparr>ar_status := RUNNING\<rparr>"
  let ?d = "\<lparr>cd_event_id = ''E'', cd_run_id = ''R'', cd_trace_id = ''T'', cd_url = ''u'', cd_status = CB_PENDING,
        cd_attempts = 0, cd_last_error = None, cd_run_after = 0, cd_worker = None, cd_lease_expire_time = None,
        cd_payload = [], cd_create_time = 0, cd_update_time = 0\<rparr>"
  let ?st = "\<lparr>s_runs = [?r], s_stages = [], s_conversations = [], s_logs = [], s_callbacks = [], s_model_calls = []\<rparr>"
  let ?u = "update_run_with_callback 5 6 (?r\<lparr>ar_status := FAILED\<rparr>) (Some ?d) (Some (owner_guard {RUNNING} None)) ?st"
  have "snd ?u" by (simp add: update_run_with_callback_def update_if_current_def update_where_def new_agent_run_def)
  moreover obtain st' ok where u: "?u = (st', ok)" by fastforce
  ultimately show ?thesis
    using update_run_with_callback_atomic [OF _ u] by (simp add: Let_def keys_distinct_def)
qed

text \<open>
  Retention removes exactly the expired rows. Pruning never touches runs, stages or
  conversations; with a log retention of \<open>days\<close> a log event survives exactly when it is
  not older than the cutoff, the reported number is the number of events removed, and
  without a configured retention no event is removed.
\<close>

theorem prune_exact:
  "prune now ret st = (st', deleted) \<Longrightarrow>
     s_runs st' = s_runs st \<and> s_stages st' = s_stages st \<and> s_conversations st' = s_conversations st
     \<and> s_logs st' = filter (\<lambda>e. case log_days ret of None \<Rightarrow> True | Some d \<Rightarrow> cutoff now d \<le> le_create_time e) (s_logs st)
     \<and> s_callbacks st' = filter (\<lambda>c. case callback_days ret of None \<Rightarrow> True | Some d \<Rightarrow> cutoff now d \<le> cd_update_time c) (s_callbacks st)
     \<and> map_of deleted ''log_events'' = map_option (\<lambda>_. length (s_logs st) - length (s_logs st')) (log_days ret)"
  using prune_simps [of now ret st]
  by (simp add: prune_rows_simps map_add_def split: option.split)

theorem prune_exact_witness:
  "let e = \<lparr>le_run_id = None, le_trace_id = ''t'', le_component = ''c'', le_event_type = ''x'', le_level = ''INFO'',
             le_message = [], le_data = [], le_create_time = 0\<rparr>;
       st = \<lparr>s_runs = [], s_stages = [], s_conversations = [], s_logs = [e], s_callbacks = [], s_model_calls = []\<rparr>;
       ret = \<lparr>log_days = Some 1, callback_days = None, model_call_days = None\<rparr>;
       (st', deleted) = prune 86400000001 ret st
   in s_logs st' = [] \<and> map_of deleted ''log_events'' = Some 1"
proof -
  let ?e = "\<lparr>le_run_id = None, le_trace_id = ''t'', le_component = ''c'', le_event_type = ''x'', le_level = ''INFO'',
             le_message = [], le_data = [], le_create_time = 0\<rparr>"
  let ?st = "\<lparr>s_runs = [], s_stages = [], s_conversations = [], s_logs = [?e], s_callbacks = [], s_model_calls = []\<rparr>"
  let ?ret = "\<lparr>log_days = Some 1, callback_days = None, model_call_days = None\<rparr>"
  obtain st' deleted where p: "prune 86400000001 ?ret ?st = (st', deleted)" by fastforce
  have "cutoff 86400000001 1 = 1" using timedelta_seconds_int [of 86400] by (simp add: cutoff_def)
  then show ?thesis using prune_exact [OF p] p by (simp add: Let_def)
qed

end
