(* ===== verification/Registry.thy ===== *)
theory Registry
  imports Domain
begin

text \<open>
  \<^verbatim>\<open>AgentRegistry\<close> and \<^verbatim>\<open>ToolRegistry\<close> (\<^verbatim>\<open>src/framework/registry.py\<close>). The two maps of the
  agent registry are association lists in insertion order. \<open>vk\<close> stands for
  \<^verbatim>\<open>_version_key\<close>, which rests on the \<^verbatim>\<open>packaging\<close> library: any function into a linear
  order. \<open>validate\<close> stands for \<^verbatim>\<open>jsonschema.validate\<close>: it returns the message of the
  \<^verbatim>\<open>ValidationError\<close> it raises, if any, or another exception (a malformed schema). The theorems: whatever is registered, disabled,
  removed or made default, a route tag leads to a registered, enabled agent that
  declares it, and registration is all or nothing.
\<close>

type_synonym agents = "((string \<times> string) \<times> agent_spec) list"
type_synonym routes = "(string \<times> agent_spec) list"

record agent_registry =
  reg_agents :: agents
  reg_routes :: routes

definition empty_registry :: agent_registry where
  "empty_registry = \<lparr>reg_agents = [], reg_routes = []\<rparr>"

text \<open>Python's \<^verbatim>\<open>max(xs, key=f)\<close>: the first element with the greatest key.\<close>

fun max_by :: "('a \<Rightarrow> 'k::linorder) \<Rightarrow> 'a list \<Rightarrow> 'a option" where
  "max_by f [] = None"
| "max_by f (x # xs) = (case max_by f xs of None \<Rightarrow> Some x | Some y \<Rightarrow> if f x < f y then Some y else Some x)"

definition agent_key :: "agent_spec \<Rightarrow> string \<times> string" where
  "agent_key a = (as_name a, as_version a)"

definition given :: "string option \<Rightarrow> bool" where
  "given v = (v \<noteq> None \<and> v \<noteq> Some [])"

definition latest_enabled_for_tag :: "(string \<Rightarrow> 'k::linorder) \<Rightarrow> string \<Rightarrow> agents \<Rightarrow> agent_spec option" where
  "latest_enabled_for_tag vk route_tag ags =
     max_by (\<lambda>a. vk (as_version a)) (filter (\<lambda>a. as_enabled a \<and> route_tag \<in> set (as_route_tags a)) (map snd ags))"

text \<open>The first route tag that another agent already owns.\<close>

definition route_conflict :: "agent_spec \<Rightarrow> routes \<Rightarrow> py_exc option" where
  "route_conflict agent rts =
     (case find (\<lambda>t. case map_of rts t of None \<Rightarrow> False | Some e \<Rightarrow> as_name e \<noteq> as_name agent) (as_route_tags agent) of
        None \<Rightarrow> None
      | Some t \<Rightarrow> Some (RegistryError (''route_tag '' @ py_repr t @ '' is already routed to ''
                    @ py_repr (case map_of rts t of None \<Rightarrow> [] | Some e \<Rightarrow> as_name e))))"

definition same_version :: "agent_spec \<Rightarrow> agent_spec \<Rightarrow> bool" where
  "same_version a b = (as_name a = as_name b \<and> as_version a = as_version b)"

definition register :: "(string \<Rightarrow> 'k::linorder) \<Rightarrow> agent_spec \<Rightarrow> bool \<Rightarrow> agent_registry \<Rightarrow> agent_registry \<times> (py_exc + unit)" where
  "register vk agent make_default reg =
     (case (if as_enabled agent \<and> make_default then route_conflict agent (reg_routes reg) else None) of
        Some e \<Rightarrow> (reg, Inl e)
      | None \<Rightarrow>
          let key = agent_key agent;
              previous = map_of (reg_agents reg) key;
              rts = (case previous of None \<Rightarrow> reg_routes reg
                     | Some p \<Rightarrow> filter (\<lambda>(t, r). \<not> same_version r p) (reg_routes reg));
              ags = AList.update key agent (reg_agents reg);
              rts' = (if \<not> as_enabled agent \<or> \<not> make_default
                      then (case previous of None \<Rightarrow> rts
                            | Some p \<Rightarrow> fold (\<lambda>t rs. case latest_enabled_for_tag vk t ags of None \<Rightarrow> rs
                                               | Some x \<Rightarrow> AList.update t x rs) (as_route_tags p) rts)
                      else fold (\<lambda>t rs. AList.update t agent rs) (as_route_tags agent) rts)
          in (\<lparr>reg_agents = ags, reg_routes = rts'\<rparr>, Inr ()))"

text \<open>
  The loop that \<^verbatim>\<open>disable\<close> and \<^verbatim>\<open>deregister\<close> share: every route of the withdrawn agent goes
  to the latest enabled agent for its tag, or goes away.
\<close>

definition reroute :: "(string \<Rightarrow> 'k::linorder) \<Rightarrow> agents \<Rightarrow> agent_spec \<Rightarrow> routes \<Rightarrow> routes" where
  "reroute vk ags agent rts =
     fold (\<lambda>(t, routed) rs. if same_version routed agent
             then (case latest_enabled_for_tag vk t ags of None \<Rightarrow> AList.delete t rs
                   | Some x \<Rightarrow> AList.update t x (AList.delete t rs))
             else rs) rts rts"

definition disable_step ::
    "(string \<Rightarrow> 'k::linorder) \<Rightarrow> string \<Rightarrow> string option \<Rightarrow> (string \<times> string) \<times> agent_spec
     \<Rightarrow> agent_registry \<times> agent_spec list \<Rightarrow> agent_registry \<times> agent_spec list" where
  "disable_step vk name version item acc =
     (case item of (key, agent) \<Rightarrow> case acc of (reg, changed) \<Rightarrow>
        if as_name agent \<noteq> name \<or> (given version \<and> Some (as_version agent) \<noteq> version) then (reg, changed)
        else let agent' = agent\<lparr>as_enabled := False\<rparr>;
                 ags = AList.update key agent' (reg_agents reg)
             in (\<lparr>reg_agents = ags, reg_routes = reroute vk ags agent (reg_routes reg)\<rparr>, changed @ [agent']))"

definition disable :: "(string \<Rightarrow> 'k::linorder) \<Rightarrow> string \<Rightarrow> string option \<Rightarrow> agent_registry
     \<Rightarrow> agent_registry \<times> (py_exc + agent_spec list)" where
  "disable vk name version reg =
     (case fold (disable_step vk name version) (reg_agents reg) (reg, []) of (reg', changed) \<Rightarrow>
        (reg', if changed = [] then Inl (RegistryError (''Unknown agent '' @ py_repr name)) else Inr changed))"

definition deregister_step ::
    "(string \<Rightarrow> 'k::linorder) \<Rightarrow> (string \<times> string) \<times> agent_spec \<Rightarrow> agent_registry \<times> agent_spec list \<Rightarrow> agent_registry \<times> agent_spec list" where
  "deregister_step vk item acc =
     (case item of (key, agent) \<Rightarrow> case acc of (reg, removed) \<Rightarrow>
        let ags = AList.delete key (reg_agents reg)
        in (\<lparr>reg_agents = ags, reg_routes = reroute vk ags agent (reg_routes reg)\<rparr>, removed @ [agent]))"

definition deregister :: "(string \<Rightarrow> 'k::linorder) \<Rightarrow> string \<Rightarrow> string option \<Rightarrow> agent_registry
     \<Rightarrow> agent_registry \<times> (py_exc + agent_spec list)" where
  "deregister vk name version reg =
     (case fold (deregister_step vk) (filter (\<lambda>(k, a). as_name a = name
               \<and> (case version of None \<Rightarrow> True | Some v \<Rightarrow> as_version a = v)) (reg_agents reg)) (reg, []) of
        (reg', removed) \<Rightarrow>
          (reg', if removed = [] then Inl (RegistryError (''Unknown agent '' @ py_repr name)) else Inr removed))"

definition registry_get :: "(string \<Rightarrow> 'k::linorder) \<Rightarrow> string \<Rightarrow> string option \<Rightarrow> agent_registry \<Rightarrow> py_exc + agent_spec" where
  "registry_get vk name version reg =
     (let matches = map snd (filter (\<lambda>((n, _), a). n = name) (reg_agents reg));
          matches' = (if given version then filter (\<lambda>a. Some (as_version a) = version) matches else matches);
          enabled = filter as_enabled matches'
      in case max_by (\<lambda>a. vk (as_version a)) (if enabled \<noteq> [] then enabled else matches') of
           None \<Rightarrow> Inl (RegistryError (''Unknown agent '' @ py_repr name))
         | Some a \<Rightarrow> Inr a)"

definition set_default :: "(string \<Rightarrow> 'k::linorder) \<Rightarrow> string \<Rightarrow> string \<Rightarrow> agent_registry
     \<Rightarrow> agent_registry \<times> (py_exc + agent_spec)" where
  "set_default vk name version reg =
     (case registry_get vk name (Some version) reg of
        Inl e \<Rightarrow> (reg, Inl e)
      | Inr agent \<Rightarrow>
          if \<not> as_enabled agent
          then (reg, Inl (RegistryError (''Agent '' @ py_repr name @ ''@'' @ version @ '' is disabled'')))
          else case route_conflict agent (reg_routes reg) of
            Some e \<Rightarrow> (reg, Inl e)
          | None \<Rightarrow> (reg\<lparr>reg_routes := fold (\<lambda>t rs. AList.update t agent rs) (as_route_tags agent) (reg_routes reg)\<rparr>,
                     Inr agent))"

definition resolve :: "string \<Rightarrow> string option \<Rightarrow> agent_registry \<Rightarrow> py_exc + agent_spec" where
  "resolve route_tag version reg =
     (if given version
      then (case find (\<lambda>a. route_tag \<in> set (as_route_tags a) \<and> Some (as_version a) = version \<and> as_enabled a)
                   (map snd (reg_agents reg)) of
              Some a \<Rightarrow> Inr a
            | None \<Rightarrow> Inl (RegistryError (''No enabled agent version '' @ py_repr (the version)
                        @ '' for route_tag '' @ py_repr route_tag)))
      else (case map_of (reg_routes reg) route_tag of
              Some a \<Rightarrow> Inr a
            | None \<Rightarrow> Inl (RegistryError (''No enabled agent for route_tag '' @ py_repr route_tag))))"

definition registry_get_optional :: "string \<Rightarrow> string \<Rightarrow> agent_registry \<Rightarrow> agent_spec option" where
  "registry_get_optional name version reg = map_of (reg_agents reg) (name, version)"

type_synonym json_validator = "json \<Rightarrow> dict \<Rightarrow> py_exc + string option"

definition object_schema :: dict where
  "object_schema = [(''type'', JStr ''object'')]"

definition validate_input :: "json_validator \<Rightarrow> agent_spec \<Rightarrow> dict \<Rightarrow> py_exc + unit" where
  "validate_input validate agent data =
     (case validate (JObj data) (if as_input_schema agent = [] then object_schema else as_input_schema agent) of
        Inl e \<Rightarrow> Inl e
      | Inr None \<Rightarrow> Inr ()
      | Inr (Some m) \<Rightarrow> Inl (RegistryError (''Agent '' @ py_repr (as_name agent) @ '' input validation failed: '' @ m)))"

definition validate_output :: "json_validator \<Rightarrow> agent_spec \<Rightarrow> dict \<Rightarrow> py_exc + unit" where
  "validate_output validate agent data =
     (case validate (JObj data) (if as_output_schema agent = [] then object_schema else as_output_schema agent) of
        Inl e \<Rightarrow> Inl e
      | Inr None \<Rightarrow> Inr ()
      | Inr (Some m) \<Rightarrow> Inl (RegistryError (''Agent '' @ py_repr (as_name agent) @ '' output validation failed: '' @ m)))"

section \<open>Tools\<close>

type_synonym tool_registry = "(string \<times> tool_spec) list"

definition tools_init :: "tool_spec list \<Rightarrow> tool_registry" where
  "tools_init ts = fold (\<lambda>t reg. AList.update (ts_name t) t reg) ts []"

definition unknown_tool :: "string \<Rightarrow> py_exc" where
  "unknown_tool name = RegistryError (''Unknown tool '' @ py_repr name)"

definition tools_get :: "string \<Rightarrow> tool_registry \<Rightarrow> py_exc + tool_spec" where
  "tools_get name reg =
     (case map_of reg name of None \<Rightarrow> Inl (unknown_tool name)
      | Some t \<Rightarrow> if ts_enabled t then Inr t else Inl (RegistryError (''Tool '' @ py_repr name @ '' is disabled'')))"

definition tools_register :: "tool_spec \<Rightarrow> tool_registry \<Rightarrow> tool_registry" where
  "tools_register t reg = AList.update (ts_name t) t reg"

definition tools_disable :: "string \<Rightarrow> tool_registry \<Rightarrow> tool_registry \<times> (py_exc + tool_spec)" where
  "tools_disable name reg =
     (case map_of reg name of None \<Rightarrow> (reg, Inl (unknown_tool name))
      | Some t \<Rightarrow> (AList.update name (t\<lparr>ts_enabled := False\<rparr>) reg, Inr (t\<lparr>ts_enabled := False\<rparr>)))"

definition tools_deregister :: "string \<Rightarrow> tool_registry \<Rightarrow> tool_registry \<times> (py_exc + tool_spec)" where
  "tools_deregister name reg =
     (case map_of reg name of None \<Rightarrow> (AList.delete name reg, Inl (unknown_tool name))
      | Some t \<Rightarrow> (AList.delete name reg, Inr t))"

definition validate_allowed :: "tool_spec \<Rightarrow> string \<Rightarrow> py_exc + unit" where
  "validate_allowed tool agent_name =
     (if ts_allowed_agents tool \<noteq> [] \<and> agent_name \<notin> set (ts_allowed_agents tool)
      then Inl (RegistryError (''Agent '' @ py_repr agent_name @ '' is not allowed to call tool '' @ py_repr (ts_name tool)))
      else Inr ())"

definition tool_validate_input :: "json_validator \<Rightarrow> tool_spec \<Rightarrow> json \<Rightarrow> py_exc + unit" where
  "tool_validate_input validate tool data =
     (case validate data (if ts_input_schema tool = [] then object_schema else ts_input_schema tool) of
        Inl e \<Rightarrow> Inl e
      | Inr None \<Rightarrow> Inr ()
      | Inr (Some m) \<Rightarrow> Inl (RegistryError (''Tool '' @ py_repr (ts_name tool) @ '' input validation failed: '' @ m)))"

definition tool_validate_output :: "json_validator \<Rightarrow> tool_spec \<Rightarrow> json \<Rightarrow> py_exc + unit" where
  "tool_validate_output validate tool data =
     (case validate data (if ts_output_schema tool = [] then object_schema else ts_output_schema tool) of
        Inl e \<Rightarrow> Inl e
      | Inr None \<Rightarrow> Inr ()
      | Inr (Some m) \<Rightarrow> Inl (RegistryError (''Tool '' @ py_repr (ts_name tool) @ '' output validation failed: '' @ m)))"

section \<open>The routing invariant\<close>

text \<open>A route is sound when its agent is registered under its own name and version, enabled, and declares the tag.\<close>

definition sound_route :: "agents \<Rightarrow> string \<Rightarrow> agent_spec \<Rightarrow> bool" where
  "sound_route ags t a = (map_of ags (agent_key a) = Some a \<and> as_enabled a \<and> t \<in> set (as_route_tags a))"

definition registry_ok :: "agent_registry \<Rightarrow> bool" where
  "registry_ok reg =
     (distinct (map fst (reg_agents reg)) \<and> distinct (map fst (reg_routes reg))
      \<and> (\<forall>k a. map_of (reg_agents reg) k = Some a \<longrightarrow> agent_key a = k)
      \<and> (\<forall>t a. map_of (reg_routes reg) t = Some a \<longrightarrow> sound_route (reg_agents reg) t a))"

lemma registry_okD:
  assumes "registry_ok reg"
  shows "distinct (map fst (reg_agents reg))" "distinct (map fst (reg_routes reg))"
    "map_of (reg_agents reg) k = Some a \<Longrightarrow> agent_key a = k"
    "map_of (reg_routes reg) t = Some a \<Longrightarrow> map_of (reg_agents reg) (agent_key a) = Some a"
    "map_of (reg_routes reg) t = Some a \<Longrightarrow> as_enabled a \<and> t \<in> set (as_route_tags a)"
  using assms unfolding registry_ok_def sound_route_def by blast+

lemma max_by_mem: "max_by f xs = Some x \<Longrightarrow> x \<in> set xs"
  by (induction xs arbitrary: x) (auto split: option.splits if_splits)

lemma max_by_max: "max_by f xs = Some x \<Longrightarrow> y \<in> set xs \<Longrightarrow> f y \<le> f x"
proof (induction xs arbitrary: x y)
  case (Cons z zs)
  show ?case
  proof (cases "max_by f zs")
    case None
    then have "zs = []" by (cases zs) (auto split: option.splits if_splits)
    with Cons.prems None show ?thesis by simp
  next
    case (Some w)
    with Cons show ?thesis by (fastforce split: if_splits simp: not_less intro: order_trans less_imp_le)
  qed
qed simp

lemma max_by_None [simp]: "max_by f xs = None \<longleftrightarrow> xs = []"
  by (cases xs) (auto split: option.splits)

lemma same_version_iff: "same_version a b \<longleftrightarrow> agent_key a = agent_key b"
  by (simp add: same_version_def agent_key_def)

lemma latest_sound:
  assumes "latest_enabled_for_tag vk t ags = Some x" and "distinct (map fst ags)"
    and "\<And>k a. map_of ags k = Some a \<Longrightarrow> agent_key a = k"
  shows "sound_route ags t x"
proof -
  have "x \<in> snd ` set ags" and x: "as_enabled x" "t \<in> set (as_route_tags x)"
    using max_by_mem [OF assms(1) [unfolded latest_enabled_for_tag_def]] by auto
  then obtain k where "map_of ags k = Some x" using assms(2) by (auto intro: map_of_is_SomeI)
  with assms(3) x show ?thesis by (auto simp: sound_route_def)
qed

lemma map_of_reroute_aux:
  assumes "distinct (map fst l)"
  shows "map_of (fold (\<lambda>(t, routed) rs. if same_version routed agent
             then (case latest_enabled_for_tag vk t ags of None \<Rightarrow> AList.delete t rs
                   | Some x \<Rightarrow> AList.update t x (AList.delete t rs))
             else rs) l rts) t =
     (case map_of l t of Some r \<Rightarrow> if same_version r agent then latest_enabled_for_tag vk t ags else map_of rts t
      | None \<Rightarrow> map_of rts t)"
  using assms
proof (induction l arbitrary: rts)
  case (Cons p l)
  obtain t' r where p: "p = (t', r)" by fastforce
  have "map_of l t' = None" using Cons.prems p by (simp add: map_of_eq_None_iff)
  with Cons p show ?case
    by (auto simp: update_conv' delete_conv' split: option.splits)
qed simp

lemma map_of_reroute:
  "distinct (map fst rts) \<Longrightarrow> map_of (reroute vk ags agent rts) t =
     (case map_of rts t of Some r \<Rightarrow> if same_version r agent then latest_enabled_for_tag vk t ags else Some r | None \<Rightarrow> None)"
  unfolding reroute_def by (simp add: map_of_reroute_aux split: option.split)

lemma distinct_fold_routes:
  assumes "\<And>x rs. distinct (map fst rs) \<Longrightarrow> distinct (map fst (f x rs))" and "distinct (map fst rts)"
  shows "distinct (map fst (fold f l rts))"
  using assms(2) by (induction l arbitrary: rts) (auto intro: assms(1))

lemma distinct_reroute: "distinct (map fst rts) \<Longrightarrow> distinct (map fst (reroute vk ags agent rts))"
  unfolding reroute_def
  by (rule distinct_fold_routes) (auto simp: distinct_update distinct_delete split: option.splits)

lemma fold_update_sound:
  assumes "\<And>t x. t \<in> set ts \<Longrightarrow> f t = Some x \<Longrightarrow> sound_route ags t x"
    and "\<And>t x. map_of rts t = Some x \<Longrightarrow> sound_route ags t x"
  shows "map_of (fold (\<lambda>t rs. case f t of None \<Rightarrow> rs | Some x \<Rightarrow> AList.update t x rs) ts rts) t = Some x \<Longrightarrow> sound_route ags t x"
  using assms
proof (induction ts arbitrary: rts)
  case (Cons u us)
  show ?case
  proof (rule Cons.IH)
    show "map_of (fold (\<lambda>t rs. case f t of None \<Rightarrow> rs | Some x \<Rightarrow> AList.update t x rs) us
        (case f u of None \<Rightarrow> rts | Some x \<Rightarrow> AList.update u x rts)) t = Some x"
      using Cons.prems(1) by simp
    show "sound_route ags t x" if "t \<in> set us" "f t = Some x" for t x using Cons.prems(2) that by simp
    show "sound_route ags t x" if "map_of (case f u of None \<Rightarrow> rts | Some x \<Rightarrow> AList.update u x rts) t = Some x" for t x
      using that Cons.prems(2,3) by (auto simp: update_conv' split: option.splits if_splits)
  qed
qed simp

lemma distinct_fold_update:
  "distinct (map fst rts) \<Longrightarrow> distinct (map fst (fold (\<lambda>t rs. case f t of None \<Rightarrow> rs | Some x \<Rightarrow> AList.update t x rs) ts rts))"
  by (rule distinct_fold_routes) (auto simp: distinct_update split: option.splits)

text \<open>Withdrawing one agent version, in any of the three ways, keeps the routes sound.\<close>

lemma withdraw_ok:
  assumes ok: "registry_ok reg" and d: "distinct (map fst ags')"
    and keys: "\<And>k a. map_of ags' k = Some a \<Longrightarrow> agent_key a = k"
    and same: "\<And>k. k \<noteq> agent_key agent \<Longrightarrow> map_of ags' k = map_of (reg_agents reg) k"
  shows "registry_ok \<lparr>reg_agents = ags', reg_routes = reroute vk ags' agent (reg_routes reg)\<rparr>"
proof -
  have dr: "distinct (map fst (reg_routes reg))" using ok by (simp add: registry_ok_def)
  have "sound_route ags' t a" if "map_of (reroute vk ags' agent (reg_routes reg)) t = Some a" for t a
  proof (cases "\<exists>r. map_of (reg_routes reg) t = Some r \<and> \<not> same_version r agent")
    case True
    then have "a \<in> {r. map_of (reg_routes reg) t = Some r \<and> agent_key r \<noteq> agent_key agent}"
      using that dr by (auto simp: map_of_reroute same_version_iff)
    with ok same show ?thesis by (auto simp: registry_ok_def sound_route_def)
  next
    case False
    then have "latest_enabled_for_tag vk t ags' = Some a"
      using that dr by (auto simp: map_of_reroute split: option.splits if_splits)
    then show ?thesis by (rule latest_sound [OF _ d keys])
  qed
  with d keys dr show ?thesis by (simp add: registry_ok_def distinct_reroute)
qed

lemma disable_step_ok:
  assumes "registry_ok (fst acc)" and "agent_key (snd item) = fst item"
  shows "registry_ok (fst (disable_step vk name version item acc))"
proof -
  obtain key agent reg changed where e: "item = (key, agent)" "acc = (reg, changed)" by (cases item, cases acc)
  have "registry_ok \<lparr>reg_agents = AList.update key (agent\<lparr>as_enabled := False\<rparr>) (reg_agents reg),
      reg_routes = reroute vk (AList.update key (agent\<lparr>as_enabled := False\<rparr>) (reg_agents reg)) agent (reg_routes reg)\<rparr>"
    using assms e
    by (intro withdraw_ok) (auto simp: registry_ok_def update_conv' distinct_update agent_key_def split: if_splits)
  with assms(1) e show ?thesis by (simp add: disable_step_def Let_def)
qed

lemma deregister_step_ok:
  assumes "registry_ok (fst acc)" and "agent_key (snd item) = fst item"
  shows "registry_ok (fst (deregister_step vk item acc))"
proof -
  obtain key agent reg changed where e: "item = (key, agent)" "acc = (reg, changed)" by (cases item, cases acc)
  have "registry_ok \<lparr>reg_agents = AList.delete key (reg_agents reg),
      reg_routes = reroute vk (AList.delete key (reg_agents reg)) agent (reg_routes reg)\<rparr>"
    using assms e
    by (intro withdraw_ok) (auto simp: registry_ok_def delete_conv' distinct_delete split: if_splits)
  with e show ?thesis by (simp add: deregister_step_def Let_def)
qed

lemma fold_ok:
  assumes "\<And>item acc. item \<in> set items \<Longrightarrow> registry_ok (fst acc) \<Longrightarrow> registry_ok (fst (f item acc))"
    and "registry_ok (fst acc)"
  shows "registry_ok (fst (fold f items acc))"
  using assms by (induction items arbitrary: acc) auto

lemma registry_ok_items: "registry_ok reg \<Longrightarrow> item \<in> set (reg_agents reg) \<Longrightarrow> agent_key (snd item) = fst item"
  by (cases item) (auto simp: registry_ok_def map_of_is_SomeI)

lemma disable_ok: "registry_ok reg \<Longrightarrow> registry_ok (fst (disable vk name version reg))"
  using fold_ok [of "reg_agents reg" "disable_step vk name version" "(reg, [])"] disable_step_ok registry_ok_items
  by (fastforce simp: disable_def split: prod.split)

lemma deregister_ok: "registry_ok reg \<Longrightarrow> registry_ok (fst (deregister vk name version reg))"
proof -
  assume ok: "registry_ok reg"
  let ?items = "filter (\<lambda>(k, a). as_name a = name \<and> (case version of None \<Rightarrow> True | Some v \<Rightarrow> as_version a = v)) (reg_agents reg)"
  have "registry_ok (fst (fold (deregister_step vk) ?items (reg, [])))"
    using ok registry_ok_items [OF ok] by (intro fold_ok deregister_step_ok) auto
  then show ?thesis unfolding deregister_def by (cases "fold (deregister_step vk) ?items (reg, [])") simp
qed

lemma or_filter_subset: "x \<in> set (if filter P xs \<noteq> [] then filter P xs else xs) \<Longrightarrow> x \<in> set xs"
  by (auto split: if_splits)

lemma registry_get_mem:
  assumes "registry_ok reg" and "registry_get vk name version reg = Inr a"
  shows "map_of (reg_agents reg) (agent_key a) = Some a \<and> as_name a = name \<and> (given version \<longrightarrow> version = Some (as_version a))"
proof -
  let ?m = "map snd (filter (\<lambda>((n, _), a). n = name) (reg_agents reg))"
  let ?v = "if given version then filter (\<lambda>a. Some (as_version a) = version) ?m else ?m"
  let ?c = "if filter as_enabled ?v \<noteq> [] then filter as_enabled ?v else ?v"
  have "max_by (\<lambda>a. vk (as_version a)) ?c = Some a"
    using assms(2) unfolding registry_get_def Let_def by (cases "max_by (\<lambda>a. vk (as_version a)) ?c") simp_all
  then have "a \<in> set ?c" by (rule max_by_mem)
  then have v: "a \<in> set ?v" by (rule or_filter_subset)
  then have "a \<in> set ?m" by (cases "given version") simp_all
  then have "\<exists>k. (k, a) \<in> set (reg_agents reg) \<and> fst k = name" by fastforce
  moreover have "given version \<longrightarrow> version = Some (as_version a)" using v by (cases "given version") auto
  ultimately obtain k where k: "(k, a) \<in> set (reg_agents reg)" "fst k = name" "given version \<longrightarrow> version = Some (as_version a)" by blast
  have "agent_key a = k" using registry_ok_items [OF assms(1) k(1)] by simp
  moreover have "map_of (reg_agents reg) k = Some a" using k(1) registry_okD(1) [OF assms(1)] by (rule map_of_is_SomeI [rotated])
  ultimately show ?thesis using k(2,3) by (auto simp: agent_key_def)
qed

lemma set_default_ok: "registry_ok reg \<Longrightarrow> registry_ok (fst (set_default vk name version reg))"
proof -
  assume ok: "registry_ok reg"
  have "registry_ok (reg\<lparr>reg_routes := fold (\<lambda>t rs. AList.update t a rs) (as_route_tags a) (reg_routes reg)\<rparr>)"
    if "registry_get vk name (Some version) reg = Inr a" and "as_enabled a" for a
  proof -
    have s: "sound_route (reg_agents reg) t a" if "t \<in> set (as_route_tags a)" for t
      using registry_get_mem [OF ok \<open>registry_get vk name (Some version) reg = Inr a\<close>] that \<open>as_enabled a\<close>
      by (simp add: sound_route_def)
    then have "map_of (fold (\<lambda>t rs. AList.update t a rs) (as_route_tags a) (reg_routes reg)) t = Some x \<Longrightarrow> sound_route (reg_agents reg) t x" for t x
      using fold_update_sound [of "as_route_tags a" "\<lambda>_. Some a" "reg_agents reg" "reg_routes reg" t x] ok
      by (auto simp: registry_ok_def)
    with ok show ?thesis
      using distinct_fold_update [of "reg_routes reg" "\<lambda>_. Some a" "as_route_tags a"] by (simp add: registry_ok_def)
  qed
  with ok show ?thesis by (auto simp: set_default_def split: sum.split option.split)
qed

lemma register_ok:
  assumes ok: "registry_ok reg"
  shows "registry_ok (fst (register vk agent make_default reg))"
proof -
  let ?ags = "AList.update (agent_key agent) agent (reg_agents reg)"
  let ?prev = "map_of (reg_agents reg) (agent_key agent)"
  let ?rts = "case ?prev of None \<Rightarrow> reg_routes reg | Some p \<Rightarrow> filter (\<lambda>(t, r). \<not> same_version r p) (reg_routes reg)"
  have d: "distinct (map fst ?ags)" "distinct (map fst ?rts)"
    using ok by (auto simp: registry_ok_def distinct_update distinct_map_filter split: option.split)
  have keys: "map_of ?ags k = Some a \<Longrightarrow> agent_key a = k" for k a
    using ok by (cases k) (auto simp: registry_ok_def update_conv' split: if_splits)
  have rts: "sound_route ?ags t a" if t: "map_of ?rts t = Some a" for t a
  proof -
    have "map_of (reg_routes reg) t = Some a \<and> agent_key a \<noteq> agent_key agent"
    proof (cases ?prev)
      case None
      with t have "map_of (reg_routes reg) t = Some a" by simp
      with registry_okD(4) [OF ok this] None show ?thesis by auto
    next
      case (Some p)
      then have "agent_key p = agent_key agent" by (rule registry_okD(3) [OF ok])
      moreover have "(t, a) \<in> set (reg_routes reg)" "\<not> same_version a p" using Some t by (auto dest!: map_of_SomeD)
      ultimately show ?thesis using ok by (auto simp: registry_ok_def same_version_iff map_of_is_SomeI)
    qed
    with ok show ?thesis by (auto simp: registry_ok_def sound_route_def update_conv')
  qed
  have upd: "registry_ok \<lparr>reg_agents = ?ags, reg_routes =
        fold (\<lambda>t rs. case f t of None \<Rightarrow> rs | Some x \<Rightarrow> AList.update t x rs) ts ?rts\<rparr>"
    if "\<And>t x. t \<in> set ts \<Longrightarrow> f t = Some x \<Longrightarrow> sound_route ?ags t x" for f ts
    unfolding registry_ok_def agent_registry.simps
    using fold_update_sound [OF that rts] distinct_fold_update [OF d(2)] d keys by blast
  have own: "as_enabled agent \<Longrightarrow> t \<in> set (as_route_tags agent) \<Longrightarrow> sound_route ?ags t agent" for t
    by (simp add: sound_route_def update_conv')
  show ?thesis
  proof (cases "as_enabled agent \<and> make_default")
    case True
    then have "\<And>t x. t \<in> set (as_route_tags agent) \<Longrightarrow> Some agent = Some x \<Longrightarrow> sound_route ?ags t x" using own by auto
    from upd [of "as_route_tags agent" "\<lambda>_. Some agent", OF this] True ok show ?thesis by (auto simp: register_def Let_def split: option.split)
  next
    case False
    have "registry_ok \<lparr>reg_agents = ?ags, reg_routes = fold (\<lambda>t rs. case latest_enabled_for_tag vk t ?ags of None \<Rightarrow> rs
        | Some x \<Rightarrow> AList.update t x rs) ts ?rts\<rparr>" for ts
      by (rule upd) (rule latest_sound [OF _ d(1) keys])
    with False upd [of "[]" "\<lambda>_. None"] show ?thesis by (auto simp: register_def Let_def split: option.splits)
  qed
qed

section \<open>Histories\<close>

datatype registry_op =
    Register agent_spec bool
  | Disable string "string option"
  | Deregister string "string option"
  | Set_Default string string

fun registry_step :: "(string \<Rightarrow> 'k::linorder) \<Rightarrow> registry_op \<Rightarrow> agent_registry \<Rightarrow> agent_registry" where
  "registry_step vk (Register a d) reg = fst (register vk a d reg)"
| "registry_step vk (Disable n v) reg = fst (disable vk n v reg)"
| "registry_step vk (Deregister n v) reg = fst (deregister vk n v reg)"
| "registry_step vk (Set_Default n v) reg = fst (set_default vk n v reg)"

lemma registry_step_ok: "registry_ok reg \<Longrightarrow> registry_ok (registry_step vk op reg)"
  by (cases op) (simp_all add: register_ok disable_ok deregister_ok set_default_ok)

lemma registry_history_ok: "registry_ok (fold (registry_step vk) ops empty_registry)"
proof -
  have "registry_ok reg \<Longrightarrow> registry_ok (fold (registry_step vk) ops reg)" for reg
    by (induction ops arbitrary: reg) (simp_all add: registry_step_ok)
  moreover have "registry_ok empty_registry" by (simp add: registry_ok_def empty_registry_def)
  ultimately show ?thesis .
qed

lemma resolve_sound:
  assumes ok: "registry_ok reg" and r: "resolve tag version reg = Inr a"
  shows "sound_route (reg_agents reg) tag a \<and> (given version \<longrightarrow> version = Some (as_version a))"
proof (cases "given version")
  case True
  with r obtain k where "(k, a) \<in> set (reg_agents reg)" and a: "tag \<in> set (as_route_tags a)" "as_enabled a" "version = Some (as_version a)"
    by (auto simp: resolve_def split: option.splits dest!: find_SomeD)
  then have "map_of (reg_agents reg) (agent_key a) = Some a"
    using registry_ok_items [OF ok] registry_okD(1) [OF ok] by (metis fst_conv snd_conv map_of_is_SomeI)
  with a show ?thesis by (simp add: sound_route_def)
next
  case False
  with r have "map_of (reg_routes reg) tag = Some a" by (auto simp: resolve_def split: option.splits)
  with False ok show ?thesis by (auto simp: sound_route_def registry_okD)
qed

section \<open>Properties\<close>

text \<open>
  C21: Routing never leads to a missing, disabled or unrelated agent. After any history of
  registrations, replacements, disabling, removals and default changes, whether or not
  some of them were rejected, an agent that \<^verbatim>\<open>resolve\<close> returns is the one currently
  registered under its name and version, is enabled, declares the route tag, and has the
  requested version when one was requested.
\<close>

theorem resolve_returns_registered_agent:
  assumes "resolve tag version (fold (registry_step vk) ops empty_registry) = Inr a"
  shows "registry_get_optional (as_name a) (as_version a) (fold (registry_step vk) ops empty_registry) = Some a
     \<and> as_enabled a \<and> tag \<in> set (as_route_tags a) \<and> (given version \<longrightarrow> version = Some (as_version a))"
  using resolve_sound [OF registry_history_ok assms]
  by (simp add: sound_route_def registry_get_optional_def agent_key_def)

definition demo_agent :: "string \<Rightarrow> string \<Rightarrow> string list \<Rightarrow> agent_spec" where
  "demo_agent name version tags =
     \<lparr>as_name = name, as_description = [], as_version = version, as_route_tags = tags, as_input_schema = [],
      as_output_schema = [], as_tools = [], as_skills = [], as_max_concurrency = 1, as_timeout_seconds = 60,
      as_retry_policy = \<lparr>rp_max_attempts = 1, rp_backoff_seconds = 0, rp_backoff_type = ''fixed''\<rparr>,
      as_permissions = [], as_enabled = True, as_owner = None, as_runtime = [], as_mcp_servers = [],
      as_managed_by = ''yaml'', as_updated_by = None\<rparr>"

lemma demo_fields [simp]:
  "as_name (demo_agent n v ts) = n" "as_version (demo_agent n v ts) = v" "as_route_tags (demo_agent n v ts) = ts"
  "as_enabled (demo_agent n v ts)"
  by (simp_all add: demo_agent_def)

lemmas demo_simps = register_def route_conflict_def agent_key_def Let_def empty_registry_def
  disable_def disable_step_def reroute_def same_version_def latest_enabled_for_tag_def given_def resolve_def

theorem resolve_returns_registered_agent_witness:
  "let reg = fold (registry_step length) [Register (demo_agent ''a'' ''1'' [''t'']) True,
        Register (demo_agent ''a'' ''22'' [''t'']) True, Disable ''a'' (Some ''22'')] empty_registry
   in resolve ''t'' None reg = Inr (demo_agent ''a'' ''1'' [''t''])
      \<and> registry_get_optional ''a'' ''1'' reg = Some (demo_agent ''a'' ''1'' [''t''])"
proof -
  let ?ops = "[Register (demo_agent ''a'' ''1'' [''t'']) True,
        Register (demo_agent ''a'' ''22'' [''t'']) True, Disable ''a'' (Some ''22'')]"
  have r: "resolve ''t'' None (fold (registry_step length) ?ops empty_registry) = Inr (demo_agent ''a'' ''1'' [''t''])"
    by (simp add: demo_simps)
  with resolve_returns_registered_agent [OF r] show ?thesis by (simp only: Let_def demo_fields)
qed

text \<open>
  Registration is all or nothing and respects ownership of routes. When it is rejected
  nothing changed, and it is rejected only because another agent owns one of the tags. When
  an enabled agent is registered as default, every tag it declares leads to it, and every
  tag of a differently named agent still leads where it led before.
\<close>

theorem register_atomic:
  assumes "registry_ok reg" and "register vk agent make_default reg = (reg', r)"
  shows "(case r of
       Inl _ \<Rightarrow> reg' = reg \<and> (\<exists>t b. t \<in> set (as_route_tags agent) \<and> map_of (reg_routes reg) t = Some b \<and> as_name b \<noteq> as_name agent)
     | Inr _ \<Rightarrow> registry_get_optional (as_name agent) (as_version agent) reg' = Some agent
         \<and> (as_enabled agent \<and> make_default \<longrightarrow>
             (\<forall>t. t \<in> set (as_route_tags agent) \<longrightarrow> map_of (reg_routes reg') t = Some agent)
             \<and> (\<forall>t b. map_of (reg_routes reg) t = Some b \<and> as_name b \<noteq> as_name agent \<longrightarrow> map_of (reg_routes reg') t = Some b)))"
proof (cases r)
  case (Inl e)
  then have "as_enabled agent \<and> make_default" "route_conflict agent (reg_routes reg) \<noteq> None" "reg' = reg"
    using assms(2) by (auto simp: register_def Let_def split: option.splits if_splits)
  then show ?thesis
    unfolding Inl by (auto simp: route_conflict_def split: option.splits dest!: find_SomeD)
next
  case (Inr u)
  let ?p = "map_of (reg_agents reg) (agent_key agent)"
  let ?rts = "case ?p of None \<Rightarrow> reg_routes reg | Some p \<Rightarrow> filter (\<lambda>(t, r). \<not> same_version r p) (reg_routes reg)"
  have ags: "reg_agents reg' = AList.update (agent_key agent) agent (reg_agents reg)"
    using assms(2) Inr by (auto simp: register_def Let_def split: option.splits if_splits)
  have keep: "map_of ?rts t = Some b" if "map_of (reg_routes reg) t = Some b" "as_name b \<noteq> as_name agent" for t b
  proof (cases ?p)
    case (Some p)
    then have "as_name p = as_name agent" using registry_okD(3) [OF assms(1) Some] by (simp add: agent_key_def)
    with Some that show ?thesis
      using registry_okD(2) [OF assms(1)] by (auto simp: same_version_def distinct_map_filter intro!: map_of_is_SomeI dest: map_of_SomeD)
  qed (use that in simp)
  have routes: "(\<forall>t. t \<in> set (as_route_tags agent) \<longrightarrow> map_of (reg_routes reg') t = Some agent)
     \<and> (\<forall>t b. map_of (reg_routes reg) t = Some b \<and> as_name b \<noteq> as_name agent \<longrightarrow> map_of (reg_routes reg') t = Some b)"
    if "as_enabled agent" "make_default"
  proof -
    have c: "route_conflict agent (reg_routes reg) = None"
      and rr: "reg_routes reg' = fold (\<lambda>t rs. AList.update t agent rs) (as_route_tags agent) ?rts"
      using assms(2) Inr that by (auto simp: register_def Let_def split: option.splits)
    have "map_of (fold (\<lambda>t rs. AList.update t agent rs) ts rs) t = (if t \<in> set ts then Some agent else map_of rs t)" for ts rs t
      by (induction ts arbitrary: rs) (auto simp: update_conv')
    then have m: "map_of (reg_routes reg') t = (if t \<in> set (as_route_tags agent) then Some agent else map_of ?rts t)" for t
      unfolding rr .
    have own: "t \<in> set (as_route_tags agent) \<Longrightarrow> map_of (reg_routes reg) t = Some b \<Longrightarrow> as_name b = as_name agent" for t b
    proof -
      assume t: "t \<in> set (as_route_tags agent)" and b: "map_of (reg_routes reg) t = Some b"
      have "find (\<lambda>t. case map_of (reg_routes reg) t of None \<Rightarrow> False | Some e \<Rightarrow> as_name e \<noteq> as_name agent) (as_route_tags agent) = None"
        using c unfolding route_conflict_def by (simp split: option.splits)
      then show ?thesis using t b unfolding find_None_iff by fastforce
    qed
    show ?thesis
    proof (intro conjI allI impI)
      fix t assume "t \<in> set (as_route_tags agent)"
      then show "map_of (reg_routes reg') t = Some agent" by (simp only: m if_True)
    next
      fix t b assume b: "map_of (reg_routes reg) t = Some b \<and> as_name b \<noteq> as_name agent"
      with own have "t \<notin> set (as_route_tags agent)" by blast
      then show "map_of (reg_routes reg') t = Some b" using keep [OF conjunct1 [OF b] conjunct2 [OF b]] by (simp only: m if_False)
    qed
  qed
  have "registry_get_optional (as_name agent) (as_version agent) reg' = Some agent"
    using ags by (simp add: registry_get_optional_def update_conv' agent_key_def)
  with routes Inr show ?thesis by simp
qed

theorem register_atomic_witness:
  "let reg = fst (register length (demo_agent ''a'' ''1'' [''t'']) True empty_registry)
   in \<exists>e. register length (demo_agent ''b'' ''1'' [''u'', ''t'']) True reg = (reg, Inl e)"
proof -
  let ?reg = "fst (register length (demo_agent ''a'' ''1'' [''t'']) True empty_registry)"
  obtain reg' r where r: "register length (demo_agent ''b'' ''1'' [''u'', ''t'']) True ?reg = (reg', r)" by fastforce
  have "\<exists>e. r = Inl e" using r by (auto simp: demo_simps)
  moreover have "registry_ok ?reg" using register_ok [of empty_registry] by (simp add: registry_ok_def empty_registry_def)
  ultimately show ?thesis using register_atomic [OF _ r] r by (auto simp: Let_def)
qed

text \<open>
  Re-registering one agent as disabled can move another agent's route. The replacement
  loop of \<^verbatim>\<open>register\<close> runs over every tag of the previous version, also over tags that were
  never routed to it, and points them at the latest enabled agent: here \<^verbatim>\<open>b\<close> was pinned to
  version 1 and ends up on version 2 because \<^verbatim>\<open>a\<close> was disabled.
\<close>

theorem register_disabled_moves_foreign_route:
  "let b1 = demo_agent ''b'' ''1'' [''t'']; b2 = demo_agent ''b'' ''22'' [''t'']; a = demo_agent ''a'' ''1'' [''t''];
       reg = fold (registry_step length) [Register b1 True, Register b2 False, Register a False] empty_registry
   in resolve ''t'' None reg = Inr b1
      \<and> resolve ''t'' None (fst (register length (a\<lparr>as_enabled := False\<rparr>) True reg)) = Inr b2"
proof -
  let ?b1 = "demo_agent ''b'' ''1'' [''t'']" and ?b2 = "demo_agent ''b'' ''22'' [''t'']" and ?a = "demo_agent ''a'' ''1'' [''t'']"
  have 1: "fst (register length ?b1 True empty_registry) = \<lparr>reg_agents = [((''b'', ''1''), ?b1)], reg_routes = [(''t'', ?b1)]\<rparr>"
    by (simp add: demo_simps)
  have 2: "fst (register length ?b2 False \<lparr>reg_agents = [((''b'', ''1''), ?b1)], reg_routes = [(''t'', ?b1)]\<rparr>) =
      \<lparr>reg_agents = [((''b'', ''1''), ?b1), ((''b'', ''22''), ?b2)], reg_routes = [(''t'', ?b1)]\<rparr>"
    by (simp add: demo_simps)
  have 3: "fst (register length ?a False \<lparr>reg_agents = [((''b'', ''1''), ?b1), ((''b'', ''22''), ?b2)], reg_routes = [(''t'', ?b1)]\<rparr>) =
      \<lparr>reg_agents = [((''b'', ''1''), ?b1), ((''b'', ''22''), ?b2), ((''a'', ''1''), ?a)], reg_routes = [(''t'', ?b1)]\<rparr>" (is "_ = ?reg")
    by (simp add: demo_simps)
  have 4: "reg_routes (fst (register length (?a\<lparr>as_enabled := False\<rparr>) True ?reg)) = [(''t'', ?b2)]"
    by (simp add: demo_simps)
  show ?thesis
    by (simp add: 1 2 3) (simp add: 4 resolve_def given_def)
qed

end
