(* ===== verification/Entities.thy ===== *)
theory Entities
  imports Codec Run_Store Stage_Store Store Registry
begin

text \<open>
  The object-relational mapping of \<^verbatim>\<open>src/infra/store/model\<close>: one record per table with its
  columns, \<^verbatim>\<open>from_domain\<close> and \<^verbatim>\<open>to_domain\<close> of every entity, and the dump and validation of
  the nested models their JSON columns hold.  Enumerations are stored by value, a
  reference to an agent is split into two columns, nested models become JSON.

  The locale \<open>entity\<close> is the contract of one mapping: reading back what was written
  gives the same object, under the same key.  Its lemmas lift the contract to tables:
  the row operations a repository issues (\<^verbatim>\<open>session.get\<close>, \<^verbatim>\<open>session.merge\<close>) on mapped rows
  are the operations on domain objects that \<^verbatim>\<open>Run_Store\<close>, \<^verbatim>\<open>Stage_Store\<close> and \<^verbatim>\<open>Store\<close> use.
  A configuration row's \<^verbatim>\<open>id\<close> and \<^verbatim>\<open>last_time\<close> are set by the database and the repository,
  not by the mapping, and are left out of the row records.
\<close>

section \<open>Nested models\<close>

definition run_file_dump :: "run_file \<Rightarrow> json" where
  "run_file_dump f = JObj [(''file_id'', jopt (rf_file_id f)), (''url'', jopt (rf_url f)),
     (''file_name'', jopt (rf_file_name f)), (''mime_type'', jopt (rf_mime_type f)),
     (''metadata'', JObj (rf_metadata f))]"

definition run_file_validate :: "scalars \<Rightarrow> json \<Rightarrow> run_file option" where
  "run_file_validate v j = do {
     d \<leftarrow> as_dict j;
     file_id \<leftarrow> defaulted d ''file_id'' None (optional (sc_str v));
     url \<leftarrow> defaulted d ''url'' None (optional (sc_str v));
     file_name \<leftarrow> defaulted d ''file_name'' None (optional (sc_str v));
     mime_type \<leftarrow> defaulted d ''mime_type'' None (optional (sc_str v));
     metadata \<leftarrow> defaulted d ''metadata'' [] as_dict;
     Some \<lparr>rf_file_id = file_id, rf_url = url, rf_file_name = file_name, rf_mime_type = mime_type,
           rf_metadata = metadata\<rparr>}"

text \<open>A \<^verbatim>\<open>str\<close> given for \<^verbatim>\<open>HttpUrl | str\<close> stays a \<^verbatim>\<open>str\<close>.\<close>

definition callback_config_dump :: "callback_config \<Rightarrow> json" where
  "callback_config_dump c = JObj [(''url'', jopt (cc_url c)), (''events'', jstrs (cc_events c))]"

definition callback_config_validate :: "scalars \<Rightarrow> json \<Rightarrow> callback_config option" where
  "callback_config_validate v j = do {
     d \<leftarrow> as_dict j;
     url \<leftarrow> defaulted d ''url'' None (optional (sc_str v));
     events \<leftarrow> defaulted d ''events'' [''succeeded'', ''failed''] (as_list (sc_str v));
     Some \<lparr>cc_url = url, cc_events = events\<rparr>}"

fun activation_value :: "activation \<Rightarrow> string" where
  "activation_value ACT_AUTO = ''auto''"
| "activation_value ACT_EXPLICIT = ''explicit''"
| "activation_value ACT_ALWAYS = ''always''"

definition activation_validate :: "json \<Rightarrow> activation option" where
  "activation_validate j =
     (case j of JStr s \<Rightarrow> member_of activation_value [ACT_AUTO, ACT_EXPLICIT, ACT_ALWAYS] s | _ \<Rightarrow> None)"

definition skill_snapshot_dump :: "skill_snapshot \<Rightarrow> json" where
  "skill_snapshot_dump s = JObj [(''name'', JStr (ss_name s)), (''version'', JStr (ss_version s)),
     (''content_hash'', JStr (ss_content_hash s)), (''activation'', JStr (activation_value (ss_activation s))),
     (''artifact_id'', JStr (ss_artifact_id s))]"

definition skill_snapshot_validate :: "scalars \<Rightarrow> json \<Rightarrow> skill_snapshot option" where
  "skill_snapshot_validate v j = do {
     d \<leftarrow> as_dict j;
     nm \<leftarrow> required d ''name'' (sc_str v);
     version \<leftarrow> required d ''version'' (sc_str v);
     content_hash \<leftarrow> required d ''content_hash'' (sc_str v);
     act \<leftarrow> required d ''activation'' activation_validate;
     artifact_id \<leftarrow> required d ''artifact_id'' (sc_str v);
     Some \<lparr>ss_name = nm, ss_version = version, ss_content_hash = content_hash, ss_activation = act,
           ss_artifact_id = artifact_id\<rparr>}"

definition skill_ref_dump :: "agent_skill_ref \<Rightarrow> json" where
  "skill_ref_dump s = JObj [(''name'', JStr (sr_name s)), (''version'', jopt (sr_version s)),
     (''activation'', JStr (activation_value (sr_activation s))), (''config'', JObj (sr_config s))]"

definition skill_ref_validate :: "scalars \<Rightarrow> json \<Rightarrow> agent_skill_ref option" where
  "skill_ref_validate v j = do {
     d \<leftarrow> as_dict j;
     nm \<leftarrow> required d ''name'' (sc_str v);
     nm \<leftarrow> (case validate_skill_name nm of Inl _ \<Rightarrow> None | Inr n \<Rightarrow> Some n);
     version \<leftarrow> defaulted d ''version'' None (optional (sc_str v));
     act \<leftarrow> defaulted d ''activation'' ACT_AUTO activation_validate;
     config \<leftarrow> defaulted d ''config'' [] as_dict;
     Some \<lparr>sr_name = nm, sr_version = version, sr_activation = act, sr_config = config\<rparr>}"

definition retry_policy_dump :: "retry_policy \<Rightarrow> json" where
  "retry_policy_dump p = JObj [(''max_attempts'', jint (rp_max_attempts p)),
     (''backoff_seconds'', JNum (rp_backoff_seconds p)), (''backoff_type'', JStr (rp_backoff_type p))]"

definition retry_policy_validate :: "scalars \<Rightarrow> json \<Rightarrow> retry_policy option" where
  "retry_policy_validate v j = do {
     d \<leftarrow> as_dict j;
     max_attempts \<leftarrow> defaulted d ''max_attempts'' 1 (sc_int v);
     backoff_seconds \<leftarrow> defaulted d ''backoff_seconds'' 0 (sc_float v);
     backoff_type \<leftarrow> defaulted d ''backoff_type'' ''fixed'' (sc_str v);
     Some \<lparr>rp_max_attempts = max_attempts, rp_backoff_seconds = backoff_seconds,
           rp_backoff_type = backoff_type\<rparr>}"

definition mcp_server_dump :: "mcp_server_spec \<Rightarrow> json" where
  "mcp_server_dump m = JObj [(''name'', JStr (ms_name m)), (''description'', JStr (ms_description m)),
     (''transport'', JStr (ms_transport m)), (''command'', jopt (ms_command m)), (''args'', jstrs (ms_args m)),
     (''env'', jstr_map (ms_env m)), (''cwd'', jopt (ms_cwd m)), (''url'', jopt (ms_url m)),
     (''headers'', jstr_map (ms_headers m)), (''timeout_seconds'', jnullable JNum (ms_timeout_seconds m)),
     (''sse_read_timeout_seconds'', jnullable JNum (ms_sse_read_timeout_seconds m)),
     (''cache_tools_list'', JBool (ms_cache_tools_list m)), (''enabled'', JBool (ms_enabled m))]"

definition mcp_server_validate :: "scalars \<Rightarrow> json \<Rightarrow> mcp_server_spec option" where
  "mcp_server_validate v j = do {
     d \<leftarrow> as_dict j;
     nm \<leftarrow> required d ''name'' (sc_str v);
     description \<leftarrow> defaulted d ''description'' '''' (sc_str v);
     transport \<leftarrow> defaulted d ''transport'' ''stdio'' (sc_str v);
     command \<leftarrow> defaulted d ''command'' None (optional (sc_str v));
     args \<leftarrow> defaulted d ''args'' [] (as_list (sc_str v));
     env \<leftarrow> defaulted d ''env'' [] (as_map (sc_str v));
     cwd \<leftarrow> defaulted d ''cwd'' None (optional (sc_str v));
     url \<leftarrow> defaulted d ''url'' None (optional (sc_str v));
     headers \<leftarrow> defaulted d ''headers'' [] (as_map (sc_str v));
     timeout \<leftarrow> defaulted d ''timeout_seconds'' None (optional (sc_float v));
     sse \<leftarrow> defaulted d ''sse_read_timeout_seconds'' None (optional (sc_float v));
     cache \<leftarrow> defaulted d ''cache_tools_list'' True (sc_bool v);
     enabled \<leftarrow> defaulted d ''enabled'' True (sc_bool v);
     Some \<lparr>ms_name = nm, ms_description = description, ms_transport = transport, ms_command = command,
           ms_args = args, ms_env = env, ms_cwd = cwd, ms_url = url, ms_headers = headers,
           ms_timeout_seconds = timeout, ms_sse_read_timeout_seconds = sse, ms_cache_tools_list = cache,
           ms_enabled = enabled\<rparr>}"

lemmas field_simps' = required_def defaulted_def

lemma activation_roundtrip [simp]: "activation_validate (JStr (activation_value a)) = Some a"
  by (cases a) (simp_all add: activation_validate_def member_of_def)

interpretation run_file: json_codec run_file_dump "run_file_validate v" "\<lambda>_. faithful_scalars v" for v
  by unfold_locales (simp add: run_file_dump_def run_file_validate_def field_simps')

interpretation callback_config: json_codec callback_config_dump "callback_config_validate v"
  "\<lambda>_. faithful_scalars v" for v
  by unfold_locales (simp add: callback_config_dump_def callback_config_validate_def field_simps')

interpretation skill_snapshot: json_codec skill_snapshot_dump "skill_snapshot_validate v"
  "\<lambda>_. faithful_scalars v" for v
  by unfold_locales (simp add: skill_snapshot_dump_def skill_snapshot_validate_def field_simps' faithful_scalarsD)

interpretation skill_ref: json_codec skill_ref_dump "skill_ref_validate v"
  "\<lambda>s. faithful_scalars v \<and> valid_skill_name (sr_name s)" for v
  by unfold_locales
    (simp add: skill_ref_dump_def skill_ref_validate_def field_simps' faithful_scalarsD validate_skill_name_def)

interpretation retry_policy: json_codec retry_policy_dump "retry_policy_validate v" "\<lambda>_. faithful_scalars v" for v
  by unfold_locales (simp add: retry_policy_dump_def retry_policy_validate_def field_simps' faithful_scalarsD)

interpretation mcp_server: json_codec mcp_server_dump "mcp_server_validate v" "\<lambda>_. faithful_scalars v" for v
  by unfold_locales (simp add: mcp_server_dump_def mcp_server_validate_def field_simps' faithful_scalarsD)

section \<open>The contract of a mapping\<close>

text \<open>
  What the repositories do with an entity: \<^verbatim>\<open>session.get(...)\<close> followed by \<^verbatim>\<open>to_domain\<close>,
  \<^verbatim>\<open>session.merge(from_domain(...))\<close>, and a query whose rows are all mapped.
\<close>

definition orm_get :: "('row \<Rightarrow> 'k) \<Rightarrow> ('row \<Rightarrow> py_exc + 'd) \<Rightarrow> 'k \<Rightarrow> 'row list \<Rightarrow> py_exc + 'd option" where
  "orm_get row_key to_domain k rows =
     (case row_get row_key k rows of None \<Rightarrow> Inr None
      | Some r \<Rightarrow> (case to_domain r of Inl e \<Rightarrow> Inl e | Inr x \<Rightarrow> Inr (Some x)))"

definition orm_merge :: "('row \<Rightarrow> 'k) \<Rightarrow> ('d \<Rightarrow> 'row) \<Rightarrow> 'd \<Rightarrow> 'row list \<Rightarrow> 'row list" where
  "orm_merge row_key from_domain x rows = row_merge row_key (from_domain x) rows"

fun orm_all :: "('row \<Rightarrow> py_exc + 'd) \<Rightarrow> 'row list \<Rightarrow> py_exc + 'd list" where
  "orm_all to_domain [] = Inr []"
| "orm_all to_domain (r # rs) = (case to_domain r of Inl e \<Rightarrow> Inl e | Inr x \<Rightarrow>
     (case orm_all to_domain rs of Inl e \<Rightarrow> Inl e | Inr xs \<Rightarrow> Inr (x # xs)))"

locale entity =
  fixes from_domain :: "'d \<Rightarrow> 'row" and to_domain :: "'row \<Rightarrow> py_exc + 'd"
    and key :: "'d \<Rightarrow> 'k" and row_key :: "'row \<Rightarrow> 'k" and ok :: "'d \<Rightarrow> bool"
  assumes roundtrip: "ok x \<Longrightarrow> to_domain (from_domain x) = Inr x"
    and key_kept: "row_key (from_domain x) = key x"
begin

lemma row_get_mapped: "row_get row_key k (map from_domain t) = map_option from_domain (row_get key k t)"
  by (induction t) (simp_all add: key_kept)

lemma get_refines:
  assumes "\<forall>x \<in> set t. ok x"
  shows "orm_get row_key to_domain k (map from_domain t) = Inr (row_get key k t)"
proof (cases "row_get key k t")
  case None
  then show ?thesis by (simp add: orm_get_def row_get_mapped)
next
  case (Some x)
  with assms have "ok x" by (auto dest: row_get_SomeD)
  with Some show ?thesis by (simp add: orm_get_def row_get_mapped roundtrip)
qed

lemma merge_refines: "orm_merge row_key from_domain x (map from_domain t) = map from_domain (row_merge key x t)"
  unfolding orm_merge_def row_merge_def by (simp add: key_kept image_image)

lemma all_refines: "\<forall>x \<in> set t. ok x \<Longrightarrow> orm_all to_domain (map from_domain t) = Inr t"
  by (induction t) (simp_all add: roundtrip)

lemma merge_get:
  assumes "ok x" and "\<forall>y \<in> set t. ok y"
  shows "orm_get row_key to_domain (key x) (orm_merge row_key from_domain x (map from_domain t)) = Inr (Some x)"
proof -
  have "set (row_merge key x t) \<subseteq> insert x (set t)" by (auto simp: row_merge_def)
  with assms have "\<forall>y \<in> set (row_merge key x t). ok y" by auto
  then show ?thesis unfolding merge_refines by (simp add: get_refines row_get_merge_same)
qed

end

section \<open>ai_agent_run\<close>

record run_row =
  rr_id :: string
  rr_conversation_id :: "string option"
  rr_trace_id :: string
  rr_caller :: string
  rr_route_tag :: string
  rr_request_id :: string
  rr_status :: string
  rr_priority :: int
  rr_current_step :: "string option"
  rr_attempts :: int
  rr_max_attempts :: int
  rr_dead_letter_reason :: "string option"
  rr_worker :: "string option"
  rr_lease_expire_time :: "datetime option"
  rr_agent_name :: "string option"
  rr_agent_version :: "string option"
  rr_error_type :: "string option"
  rr_error_message :: "string option"
  rr_callback_status :: "string option"
  rr_callback_event_id :: "string option"
  rr_timeout_seconds :: "int option"
  rr_create_time :: datetime
  rr_update_time :: datetime
  rr_queue_time :: "datetime option"
  rr_run_after :: "datetime option"
  rr_start_time :: "datetime option"
  rr_finish_time :: "datetime option"
  rr_input :: json
  rr_output :: json
  rr_meta :: json
  rr_files :: json
  rr_callback :: json
  rr_skill_snapshots :: json

definition run_from_domain :: "agent_run \<Rightarrow> run_row" where
  "run_from_domain t =
     \<lparr>rr_id = ar_run_id t, rr_conversation_id = ar_conversation_id t, rr_trace_id = ar_trace_id t,
      rr_caller = ar_caller t, rr_route_tag = ar_route_tag t, rr_request_id = ar_request_id t,
      rr_status = run_status_value (ar_status t), rr_priority = ar_priority t,
      rr_current_step = ar_current_step t, rr_attempts = ar_attempts t, rr_max_attempts = ar_max_attempts t,
      rr_dead_letter_reason = ar_dead_letter_reason t, rr_worker = ar_worker t,
      rr_lease_expire_time = ar_lease_expire_time t, rr_agent_name = map_option af_name (ar_agent t),
      rr_agent_version = map_option af_version (ar_agent t),
      rr_error_type = map_option error_type_value (ar_error_type t), rr_error_message = ar_error_message t,
      rr_callback_status = Some (callback_status_value (ar_callback_status t)),
      rr_callback_event_id = ar_callback_event_id t, rr_timeout_seconds = ar_timeout_seconds t,
      rr_create_time = ar_create_time t, rr_update_time = ar_update_time t, rr_queue_time = ar_queue_time t,
      rr_run_after = ar_run_after t, rr_start_time = ar_start_time t, rr_finish_time = ar_finish_time t,
      rr_input = JObj (ar_input t), rr_output = jnullable JObj (ar_output t), rr_meta = JObj (ar_metadata t),
      rr_files = JList (map run_file_dump (ar_files t)),
      rr_callback = jnullable callback_config_dump (ar_callback t),
      rr_skill_snapshots = JList (map skill_snapshot_dump (ar_skill_snapshots t))\<rparr>"

definition error_types :: "error_type list" where
  "error_types = [VALIDATION_ERROR, ROUTE_NOT_FOUND, AGENT_NOT_AVAILABLE, AGENT_EXECUTION_ERROR, TOOL_TIMEOUT,
     TOOL_RATE_LIMITED, TOOL_UNAVAILABLE, MODEL_ERROR, RUN_TIMEOUT, CALLBACK_ERROR,
     SIDE_EFFECT_OUTCOME_UNKNOWN, INTERNAL_ERROR]"

definition callback_statuses :: "callback_status list" where
  "callback_statuses = [CB_PENDING, CB_DELIVERED, CB_FAILED, CB_SKIPPED]"

definition optional_text :: "(string \<Rightarrow> 'a option) \<Rightarrow> string option \<Rightarrow> 'a option option" where
  "optional_text f x = (case x of None \<Rightarrow> Some None | Some s \<Rightarrow> map_option Some (f s))"

definition agent_of_columns :: "string option \<Rightarrow> string option \<Rightarrow> agent_ref option option" where
  "agent_of_columns nm version =
     (case nm of None \<Rightarrow> Some None
      | Some n \<Rightarrow> if n = [] then Some None
                  else (case version of None \<Rightarrow> None | Some w \<Rightarrow> Some (Some \<lparr>af_name = n, af_version = w\<rparr>)))"

definition run_to_domain :: "scalars \<Rightarrow> run_row \<Rightarrow> py_exc + agent_run" where
  "run_to_domain v r = validated ''AgentRun'' (do {
     status \<leftarrow> member_of run_status_value run_statuses (rr_status r);
     agent \<leftarrow> agent_of_columns (rr_agent_name r) (rr_agent_version r);
     err \<leftarrow> optional_text (member_of error_type_value error_types) (rr_error_type r);
     cb \<leftarrow> rr_callback_status r;
     cb \<leftarrow> member_of callback_status_value callback_statuses cb;
     inp \<leftarrow> as_dict (json_or (rr_input r) (JObj []));
     out \<leftarrow> optional as_dict (rr_output r);
     meta \<leftarrow> as_dict (json_or (rr_meta r) (JObj []));
     files \<leftarrow> as_list (run_file_validate v) (json_or (rr_files r) (JList []));
     callback \<leftarrow> optional (callback_config_validate v) (rr_callback r);
     snapshots \<leftarrow> as_list (skill_snapshot_validate v) (json_or (rr_skill_snapshots r) (JList []));
     Some \<lparr>ar_run_id = rr_id r, ar_conversation_id = rr_conversation_id r, ar_trace_id = rr_trace_id r,
       ar_route_tag = rr_route_tag r, ar_caller = rr_caller r, ar_request_id = rr_request_id r, ar_input = inp,
       ar_files = files, ar_callback = callback, ar_priority = rr_priority r,
       ar_timeout_seconds = rr_timeout_seconds r, ar_metadata = meta, ar_agent = agent,
       ar_skill_snapshots = snapshots, ar_status = status, ar_current_step = rr_current_step r,
       ar_attempts = rr_attempts r, ar_max_attempts = rr_max_attempts r,
       ar_dead_letter_reason = rr_dead_letter_reason r, ar_worker = rr_worker r,
       ar_lease_expire_time = rr_lease_expire_time r, ar_output = out, ar_error_type = err,
       ar_error_message = rr_error_message r, ar_callback_status = cb,
       ar_callback_event_id = rr_callback_event_id r, ar_create_time = rr_create_time r,
       ar_update_time = rr_update_time r, ar_queue_time = rr_queue_time r, ar_run_after = rr_run_after r,
       ar_start_time = rr_start_time r, ar_finish_time = rr_finish_time r\<rparr>})"

text \<open>The run objects that survive the mapping: an agent reference has a name.\<close>

definition storable_run :: "agent_run \<Rightarrow> bool" where
  "storable_run t = (case ar_agent t of None \<Rightarrow> True | Some a \<Rightarrow> af_name a \<noteq> [])"

lemma member_run_status [simp]: "member_of run_status_value run_statuses (run_status_value s) = Some s"
  by (rule member_of_value) (simp_all add: run_status_value_inj run_statuses_UNIV)

lemma member_callback_status [simp]:
  "member_of callback_status_value callback_statuses (callback_status_value s) = Some s"
  by (cases s) (simp_all add: member_of_def callback_statuses_def)

lemma member_error_type [simp]: "member_of error_type_value error_types (error_type_value s) = Some s"
  by (cases s) (simp_all add: member_of_def error_types_def)

lemma optional_text_map [simp]:
  "(\<And>x. f (g x) = Some x) \<Longrightarrow> optional_text f (map_option g x) = Some x"
  by (cases x) (simp_all add: optional_text_def)

lemma agent_of_columns_agent:
  "(case a of None \<Rightarrow> True | Some r \<Rightarrow> af_name r \<noteq> []) \<Longrightarrow>
   agent_of_columns (map_option af_name a) (map_option af_version a) = Some a"
  by (cases a) (simp_all add: agent_of_columns_def)

lemma optional_dict [simp]: "optional as_dict (jnullable JObj x) = Some x"
  by (cases x) (simp_all add: jnullable_def)

lemma optional_callback [simp]:
  "faithful_scalars v \<Longrightarrow> optional (callback_config_validate v) (jnullable callback_config_dump x) = Some x"
  by (rule callback_config.nullable_roundtrip) (simp_all add: callback_config_dump_def pred_option_def)

lemma files_roundtrip [simp]:
  "faithful_scalars v \<Longrightarrow> as_list (run_file_validate v) (json_or (JList (map run_file_dump fs)) (JList [])) = Some fs"
  by (rule run_file.list_or_empty) simp

lemma snapshots_roundtrip [simp]:
  "faithful_scalars v \<Longrightarrow>
   as_list (skill_snapshot_validate v) (json_or (JList (map skill_snapshot_dump ss)) (JList [])) = Some ss"
  by (rule skill_snapshot.list_or_empty) simp

interpretation run_entity: entity run_from_domain "run_to_domain v" ar_run_id rr_id
  "\<lambda>t. faithful_scalars v \<and> storable_run t" for v
  by unfold_locales
    (simp_all add: run_to_domain_def run_from_domain_def validated_def storable_run_def agent_of_columns_agent)

section \<open>ai_agent_stage\<close>

record stage_row =
  sw_id :: string
  sw_run_id :: string
  sw_trace_id :: string
  sw_agent_name :: string
  sw_agent_version :: string
  sw_stage_key :: string
  sw_stage_index :: int
  sw_schema_version :: string
  sw_definition_version :: string
  sw_status :: string
  sw_run_attempt :: int
  sw_attempts :: int
  sw_max_attempts :: int
  sw_execution_id :: "string option"
  sw_idempotency_key :: string
  sw_input_hash :: string
  sw_output :: json
  sw_checkpoint :: json
  sw_error_type :: "string option"
  sw_error_message :: "string option"
  sw_create_time :: datetime
  sw_update_time :: datetime
  sw_start_time :: "datetime option"
  sw_finish_time :: "datetime option"

fun stage_status_value :: "stage_status \<Rightarrow> string" where
  "stage_status_value S_PENDING = ''PENDING''"
| "stage_status_value S_RUNNING = ''RUNNING''"
| "stage_status_value S_SUCCEEDED = ''SUCCEEDED''"
| "stage_status_value S_FAILED = ''FAILED''"
| "stage_status_value S_CANCELED = ''CANCELED''"
| "stage_status_value S_OUTCOME_UNKNOWN = ''OUTCOME_UNKNOWN''"

definition stage_statuses :: "stage_status list" where
  "stage_statuses = [S_PENDING, S_RUNNING, S_SUCCEEDED, S_FAILED, S_CANCELED, S_OUTCOME_UNKNOWN]"

definition stage_from_domain :: "agent_stage \<Rightarrow> stage_row" where
  "stage_from_domain s =
     \<lparr>sw_id = st_stage_id s, sw_run_id = st_run_id s, sw_trace_id = st_trace_id s,
      sw_agent_name = st_agent_name s, sw_agent_version = st_agent_version s, sw_stage_key = st_stage_key s,
      sw_stage_index = st_stage_index s, sw_schema_version = st_schema_version s,
      sw_definition_version = st_definition_version s, sw_status = stage_status_value (st_status s),
      sw_run_attempt = st_run_attempt s, sw_attempts = st_attempts s, sw_max_attempts = st_max_attempts s,
      sw_execution_id = st_execution_id s, sw_idempotency_key = st_idempotency_key s,
      sw_input_hash = st_input_hash s, sw_output = st_output s, sw_checkpoint = jnullable JObj (st_checkpoint s),
      sw_error_type = st_error_type s, sw_error_message = st_error_message s,
      sw_create_time = st_create_time s, sw_update_time = st_update_time s, sw_start_time = st_start_time s,
      sw_finish_time = st_finish_time s\<rparr>"

text \<open>\<^verbatim>\<open>StageStatus(self.status)\<close> raises \<^verbatim>\<open>ValueError\<close> before the model is validated.\<close>

definition stage_to_domain :: "stage_row \<Rightarrow> py_exc + agent_stage" where
  "stage_to_domain r =
     (case member_of stage_status_value stage_statuses (sw_status r) of
        None \<Rightarrow> Inl (ValueError (py_repr (sw_status r) @ '' is not a valid StageStatus''))
      | Some status \<Rightarrow> validated ''AgentStage'' (do {
          checkpoint \<leftarrow> optional as_dict (sw_checkpoint r);
          Some \<lparr>st_stage_id = sw_id r, st_run_id = sw_run_id r, st_trace_id = sw_trace_id r,
            st_agent_name = sw_agent_name r, st_agent_version = sw_agent_version r,
            st_stage_key = sw_stage_key r, st_stage_index = sw_stage_index r,
            st_schema_version = sw_schema_version r, st_definition_version = sw_definition_version r,
            st_status = status, st_run_attempt = sw_run_attempt r, st_attempts = sw_attempts r,
            st_max_attempts = sw_max_attempts r, st_execution_id = sw_execution_id r,
            st_idempotency_key = sw_idempotency_key r, st_input_hash = sw_input_hash r,
            st_output = sw_output r, st_checkpoint = checkpoint, st_error_type = sw_error_type r,
            st_error_message = sw_error_message r, st_create_time = sw_create_time r,
            st_update_time = sw_update_time r, st_start_time = sw_start_time r,
            st_finish_time = sw_finish_time r\<rparr>}))"

lemma member_stage_status [simp]: "member_of stage_status_value stage_statuses (stage_status_value s) = Some s"
  by (cases s) (simp_all add: member_of_def stage_statuses_def)

interpretation stage_entity: entity stage_from_domain stage_to_domain st_stage_id sw_id "\<lambda>_. True"
  by unfold_locales (simp_all add: stage_to_domain_def stage_from_domain_def validated_def)

section \<open>ai_callback_log\<close>

record callback_row =
  kr_event_id :: string
  kr_run_id :: string
  kr_trace_id :: string
  kr_url :: "string option"
  kr_status :: string
  kr_attempts :: int
  kr_last_error :: "string option"
  kr_run_after :: "datetime option"
  kr_worker :: "string option"
  kr_lease_expire_time :: "datetime option"
  kr_create_time :: datetime
  kr_update_time :: datetime
  kr_payload :: json

definition callback_from_domain :: "callback_delivery \<Rightarrow> callback_row" where
  "callback_from_domain c =
     \<lparr>kr_event_id = cd_event_id c, kr_run_id = cd_run_id c, kr_trace_id = cd_trace_id c,
      kr_url = Some (cd_url c), kr_status = callback_status_value (cd_status c), kr_attempts = cd_attempts c,
      kr_last_error = cd_last_error c, kr_run_after = Some (cd_run_after c), kr_worker = cd_worker c,
      kr_lease_expire_time = cd_lease_expire_time c, kr_create_time = cd_create_time c,
      kr_update_time = cd_update_time c, kr_payload = JObj (cd_payload c)\<rparr>"

definition callback_to_domain :: "callback_row \<Rightarrow> py_exc + callback_delivery" where
  "callback_to_domain r = validated ''CallbackDelivery'' (do {
     url \<leftarrow> kr_url r;
     status \<leftarrow> member_of callback_status_value callback_statuses (kr_status r);
     run_after \<leftarrow> kr_run_after r;
     payload \<leftarrow> as_dict (json_or (kr_payload r) (JObj []));
     Some \<lparr>cd_event_id = kr_event_id r, cd_run_id = kr_run_id r, cd_trace_id = kr_trace_id r, cd_url = url,
       cd_status = status, cd_attempts = kr_attempts r, cd_last_error = kr_last_error r,
       cd_run_after = run_after, cd_worker = kr_worker r, cd_lease_expire_time = kr_lease_expire_time r,
       cd_payload = payload, cd_create_time = kr_create_time r, cd_update_time = kr_update_time r\<rparr>})"

interpretation callback_entity: entity callback_from_domain callback_to_domain cd_event_id kr_event_id "\<lambda>_. True"
  by unfold_locales (simp_all add: callback_to_domain_def callback_from_domain_def validated_def)

section \<open>ai_conversation\<close>

record conversation_row =
  vr_id :: string
  vr_caller :: string
  vr_external_id :: string
  vr_task_type :: "string option"
  vr_source :: "string option"
  vr_route_tag :: string
  vr_create_time :: datetime
  vr_update_time :: datetime

definition conversation_from_domain :: "conversation \<Rightarrow> conversation_row" where
  "conversation_from_domain c =
     \<lparr>vr_id = cv_conversation_id c, vr_caller = cv_caller c, vr_external_id = cv_external_id c,
      vr_task_type = cv_task_type c, vr_source = cv_source c, vr_route_tag = cv_route_tag c,
      vr_create_time = cv_create_time c, vr_update_time = cv_update_time c\<rparr>"

definition conversation_to_domain :: "conversation_row \<Rightarrow> py_exc + conversation" where
  "conversation_to_domain r = Inr
     \<lparr>cv_conversation_id = vr_id r, cv_caller = vr_caller r, cv_external_id = vr_external_id r,
      cv_task_type = vr_task_type r, cv_source = vr_source r, cv_route_tag = vr_route_tag r,
      cv_create_time = vr_create_time r, cv_update_time = vr_update_time r\<rparr>"

interpretation conversation_entity: entity conversation_from_domain conversation_to_domain
  cv_conversation_id vr_id "\<lambda>_. True"
  by unfold_locales (simp_all add: conversation_to_domain_def conversation_from_domain_def)

section \<open>ai_run_log\<close>

text \<open>The event identifier is the first component: the log events of the model carry none.\<close>

record log_row =
  lr_event_id :: string
  lr_run_id :: "string option"
  lr_trace_id :: string
  lr_component :: string
  lr_event_type :: string
  lr_level :: string
  lr_message :: "string option"
  lr_create_time :: datetime
  lr_data :: json

definition log_from_domain :: "string \<times> log_event \<Rightarrow> log_row" where
  "log_from_domain ie = (case ie of (event_id, e) \<Rightarrow>
     \<lparr>lr_event_id = event_id, lr_run_id = le_run_id e, lr_trace_id = le_trace_id e,
      lr_component = le_component e, lr_event_type = le_event_type e, lr_level = le_level e,
      lr_message = Some (le_message e), lr_create_time = le_create_time e, lr_data = JObj (le_data e)\<rparr>)"

definition log_to_domain :: "log_row \<Rightarrow> py_exc + string \<times> log_event" where
  "log_to_domain r = validated ''LogEvent'' (do {
     message \<leftarrow> lr_message r;
     data \<leftarrow> as_dict (json_or (lr_data r) (JObj []));
     Some (lr_event_id r, \<lparr>le_run_id = lr_run_id r, le_trace_id = lr_trace_id r, le_component = lr_component r,
       le_event_type = lr_event_type r, le_level = lr_level r, le_message = message, le_data = data,
       le_create_time = lr_create_time r\<rparr>)})"

interpretation log_entity: entity log_from_domain log_to_domain fst lr_event_id "\<lambda>_. True"
  by unfold_locales (auto simp: log_to_domain_def log_from_domain_def validated_def split: prod.splits)

section \<open>ai_model_call\<close>

record call_row =
  mw_call_id :: string
  mw_run_id :: string
  mw_trace_id :: string
  mw_agent_name :: string
  mw_agent_version :: "string option"
  mw_provider :: "string option"
  mw_model :: "string option"
  mw_prompt_version :: "string option"
  mw_prompt_hash :: "string option"
  mw_input_summary :: "string option"
  mw_output_summary :: "string option"
  mw_status :: string
  mw_error :: "string option"
  mw_prompt_tokens :: "int option"
  mw_completion_tokens :: "int option"
  mw_total_tokens :: "int option"
  mw_estimated_cost :: rat
  mw_http_status :: "int option"
  mw_start_time :: datetime
  mw_finish_time :: "datetime option"
  mw_meta :: json

definition call_from_domain :: "model_call_record \<Rightarrow> call_row" where
  "call_from_domain r =
     \<lparr>mw_call_id = mc_call_id r, mw_run_id = mc_run_id r, mw_trace_id = mc_trace_id r,
      mw_agent_name = mc_agent_name r, mw_agent_version = Some (mc_agent_version r),
      mw_provider = Some (mc_provider r), mw_model = mc_model r, mw_prompt_version = mc_prompt_version r,
      mw_prompt_hash = mc_prompt_hash r, mw_input_summary = mc_input_summary r,
      mw_output_summary = mc_output_summary r, mw_status = mc_status r, mw_error = mc_error r,
      mw_prompt_tokens = Some (mc_prompt_tokens r), mw_completion_tokens = Some (mc_completion_tokens r),
      mw_total_tokens = Some (mc_total_tokens r), mw_estimated_cost = mc_estimated_cost r,
      mw_http_status = mc_http_status r, mw_start_time = mc_start_time r, mw_finish_time = mc_finish_time r,
      mw_meta = JObj (mc_metadata r)\<rparr>"

definition call_to_domain :: "call_row \<Rightarrow> py_exc + model_call_record" where
  "call_to_domain r = validated ''ModelCallRecord'' (do {
     agent_version \<leftarrow> mw_agent_version r;
     provider \<leftarrow> mw_provider r;
     prompt_tokens \<leftarrow> mw_prompt_tokens r;
     completion_tokens \<leftarrow> mw_completion_tokens r;
     total_tokens \<leftarrow> mw_total_tokens r;
     metadata \<leftarrow> as_dict (json_or (mw_meta r) (JObj []));
     Some \<lparr>mc_call_id = mw_call_id r, mc_run_id = mw_run_id r, mc_trace_id = mw_trace_id r,
       mc_agent_name = mw_agent_name r, mc_agent_version = agent_version, mc_provider = provider,
       mc_model = mw_model r, mc_prompt_version = mw_prompt_version r, mc_prompt_hash = mw_prompt_hash r,
       mc_input_summary = mw_input_summary r, mc_output_summary = mw_output_summary r,
       mc_status = mw_status r, mc_error = mw_error r, mc_prompt_tokens = prompt_tokens,
       mc_completion_tokens = completion_tokens, mc_total_tokens = total_tokens,
       mc_estimated_cost = mw_estimated_cost r, mc_start_time = mw_start_time r,
       mc_finish_time = mw_finish_time r, mc_metadata = metadata, mc_http_status = mw_http_status r\<rparr>})"

interpretation call_entity: entity call_from_domain call_to_domain mc_call_id mw_call_id "\<lambda>_. True"
  by unfold_locales (simp_all add: call_to_domain_def call_from_domain_def validated_def)

section \<open>ai_agent_config\<close>

record agent_config_row =
  gr_name :: string
  gr_version :: string
  gr_description :: "string option"
  gr_max_concurrency :: int
  gr_timeout_seconds :: int
  gr_enabled :: bool
  gr_owner :: "string option"
  gr_managed_by :: string
  gr_updated_by :: "string option"
  gr_route_tags :: json
  gr_input_schema :: json
  gr_output_schema :: json
  gr_tools :: json
  gr_skills :: json
  gr_retry_policy :: json
  gr_permissions :: json
  gr_runtime :: json
  gr_mcp_servers :: json

definition agent_config_from_domain :: "agent_spec \<Rightarrow> agent_config_row" where
  "agent_config_from_domain s =
     \<lparr>gr_name = as_name s, gr_version = as_version s, gr_description = Some (as_description s),
      gr_max_concurrency = as_max_concurrency s, gr_timeout_seconds = as_timeout_seconds s,
      gr_enabled = as_enabled s, gr_owner = as_owner s, gr_managed_by = as_managed_by s,
      gr_updated_by = as_updated_by s, gr_route_tags = jstrs (as_route_tags s),
      gr_input_schema = JObj (as_input_schema s), gr_output_schema = JObj (as_output_schema s),
      gr_tools = jstrs (as_tools s), gr_skills = JList (map skill_ref_dump (as_skills s)),
      gr_retry_policy = retry_policy_dump (as_retry_policy s), gr_permissions = jstrs (as_permissions s),
      gr_runtime = JObj (as_runtime s), gr_mcp_servers = JList (map mcp_server_dump (as_mcp_servers s))\<rparr>"

definition agent_config_to_domain :: "scalars \<Rightarrow> agent_config_row \<Rightarrow> py_exc + agent_spec" where
  "agent_config_to_domain v r = validated ''AgentSpec'' (do {
     route_tags \<leftarrow> as_list (sc_str v) (json_or (gr_route_tags r) (JList []));
     input_schema \<leftarrow> as_dict (json_or (gr_input_schema r) (JObj object_schema));
     output_schema \<leftarrow> as_dict (json_or (gr_output_schema r) (JObj object_schema));
     tools \<leftarrow> as_list (sc_str v) (json_or (gr_tools r) (JList []));
     skills \<leftarrow> as_list (skill_ref_validate v) (json_or (gr_skills r) (JList []));
     retry \<leftarrow> retry_policy_validate v (json_or (gr_retry_policy r) (JObj []));
     permissions \<leftarrow> as_list (sc_str v) (json_or (gr_permissions r) (JList []));
     runtime \<leftarrow> as_dict (json_or (gr_runtime r) (JObj []));
     mcp_servers \<leftarrow> as_list (mcp_server_validate v) (json_or (gr_mcp_servers r) (JList []));
     Some \<lparr>as_name = gr_name r, as_description = (case gr_description r of None \<Rightarrow> [] | Some d \<Rightarrow> d),
       as_version = gr_version r, as_route_tags = route_tags, as_input_schema = input_schema,
       as_output_schema = output_schema, as_tools = tools, as_skills = skills,
       as_max_concurrency = gr_max_concurrency r, as_timeout_seconds = gr_timeout_seconds r,
       as_retry_policy = retry, as_permissions = permissions, as_enabled = gr_enabled r,
       as_owner = gr_owner r, as_runtime = runtime, as_mcp_servers = mcp_servers,
       as_managed_by = gr_managed_by r, as_updated_by = gr_updated_by r\<rparr>})"

section \<open>ai_tool_config\<close>

record tool_config_row =
  or_name :: string
  or_version :: string
  or_description :: "string option"
  or_timeout_seconds :: rat
  or_max_concurrency :: int
  or_qps :: "rat option"
  or_enabled :: bool
  or_owner :: "string option"
  or_managed_by :: string
  or_updated_by :: "string option"
  or_input_schema :: json
  or_output_schema :: json
  or_endpoint :: json
  or_retry_policy :: json
  or_operation_type :: string
  or_idempotency_key_header :: "string option"
  or_allowed_agents :: json
  or_circuit_breaker :: json

fun operation_type_value :: "operation_type \<Rightarrow> string" where
  "operation_type_value READ_ONLY = ''read_only''"
| "operation_type_value IDEMPOTENT = ''idempotent''"
| "operation_type_value SIDE_EFFECTING = ''side_effecting''"

definition tool_config_from_domain :: "tool_spec \<Rightarrow> tool_config_row" where
  "tool_config_from_domain s =
     \<lparr>or_name = ts_name s, or_version = ts_version s, or_description = Some (ts_description s),
      or_timeout_seconds = ts_timeout_seconds s, or_max_concurrency = ts_max_concurrency s,
      or_qps = ts_qps s, or_enabled = ts_enabled s, or_owner = ts_owner s, or_managed_by = ts_managed_by s,
      or_updated_by = ts_updated_by s, or_input_schema = JObj (ts_input_schema s),
      or_output_schema = JObj (ts_output_schema s), or_endpoint = JObj (ts_endpoint s),
      or_retry_policy = retry_policy_dump (ts_retry_policy s),
      or_operation_type = operation_type_value (ts_operation_type s),
      or_idempotency_key_header = ts_idempotency_key_header s, or_allowed_agents = jstrs (ts_allowed_agents s),
      or_circuit_breaker = JObj (ts_circuit_breaker s)\<rparr>"

definition tool_config_to_domain :: "scalars \<Rightarrow> tool_config_row \<Rightarrow> py_exc + tool_spec" where
  "tool_config_to_domain v r = validated ''ToolSpec'' (do {
     input_schema \<leftarrow> as_dict (json_or (or_input_schema r) (JObj object_schema));
     output_schema \<leftarrow> as_dict (json_or (or_output_schema r) (JObj object_schema));
     endpoint \<leftarrow> as_dict (json_or (or_endpoint r) (JObj []));
     retry \<leftarrow> retry_policy_validate v (json_or (or_retry_policy r) (JObj []));
     op \<leftarrow> member_of operation_type_value [READ_ONLY, IDEMPOTENT, SIDE_EFFECTING]
            (if or_operation_type r = [] then ''read_only'' else or_operation_type r);
     allowed \<leftarrow> as_list (sc_str v) (json_or (or_allowed_agents r) (JList []));
     breaker \<leftarrow> as_dict (json_or (or_circuit_breaker r) (JObj []));
     Some \<lparr>ts_name = or_name r, ts_description = (case or_description r of None \<Rightarrow> [] | Some d \<Rightarrow> d),
       ts_version = or_version r, ts_input_schema = input_schema, ts_output_schema = output_schema,
       ts_endpoint = endpoint, ts_timeout_seconds = or_timeout_seconds r,
       ts_max_concurrency = or_max_concurrency r, ts_qps = or_qps r, ts_retry_policy = retry,
       ts_operation_type = op, ts_idempotency_key_header = or_idempotency_key_header r,
       ts_allowed_agents = allowed, ts_enabled = or_enabled r, ts_owner = or_owner r,
       ts_circuit_breaker = breaker, ts_managed_by = or_managed_by r, ts_updated_by = or_updated_by r\<rparr>})"

section \<open>Configuration mappings\<close>

text \<open>
  What a specification looks like once it has been through the table: an empty JSON
  schema has become the schema of any object.
\<close>

definition schema_normal :: "dict \<Rightarrow> dict" where
  "schema_normal d = (if d = [] then object_schema else d)"

definition agent_normal :: "agent_spec \<Rightarrow> agent_spec" where
  "agent_normal s = s\<lparr>as_input_schema := schema_normal (as_input_schema s),
     as_output_schema := schema_normal (as_output_schema s)\<rparr>"

definition tool_normal :: "tool_spec \<Rightarrow> tool_spec" where
  "tool_normal s = s\<lparr>ts_input_schema := schema_normal (ts_input_schema s),
     ts_output_schema := schema_normal (ts_output_schema s)\<rparr>"

lemma schema_or_default: "as_dict (json_or (JObj d) (JObj object_schema)) = Some (schema_normal d)"
  by (simp add: json_or_def schema_normal_def object_schema_def)

lemma schema_normal_idem: "d \<noteq> [] \<Longrightarrow> schema_normal d = d"
  by (simp add: schema_normal_def)

lemma skills_roundtrip [simp]:
  "faithful_scalars v \<Longrightarrow> \<forall>s \<in> set ss. valid_skill_name (sr_name s) \<Longrightarrow>
   as_list (skill_ref_validate v) (json_or (JList (map skill_ref_dump ss)) (JList [])) = Some ss"
  by (rule skill_ref.list_or_empty) simp

lemma mcp_servers_roundtrip [simp]:
  "faithful_scalars v \<Longrightarrow>
   as_list (mcp_server_validate v) (json_or (JList (map mcp_server_dump ms)) (JList [])) = Some ms"
  by (rule mcp_server.list_or_empty) simp

lemma retry_or_default [simp]:
  "faithful_scalars v \<Longrightarrow> retry_policy_validate v (json_or (retry_policy_dump p) (JObj [])) = Some p"
  using retry_policy.dec_enc by (simp add: json_or_def retry_policy_dump_def)

lemma agent_config_stored:
  assumes "faithful_scalars v" and "\<forall>s \<in> set (as_skills a). valid_skill_name (sr_name s)"
  shows "agent_config_to_domain v (agent_config_from_domain a) = Inr (agent_normal a)"
  using assms by (simp add: agent_config_to_domain_def agent_config_from_domain_def validated_def
      schema_or_default agent_normal_def)

lemma tool_config_stored:
  "faithful_scalars v \<Longrightarrow> tool_config_to_domain v (tool_config_from_domain t) = Inr (tool_normal t)"
  by (cases "ts_operation_type t")
    (simp_all add: tool_config_to_domain_def tool_config_from_domain_def validated_def schema_or_default
      tool_normal_def member_of_def)

lemma agent_config_key: "gr_name (agent_config_from_domain a) = as_name a" "gr_version (agent_config_from_domain a) = as_version a"
  by (simp_all add: agent_config_from_domain_def)

lemma tool_config_key: "or_name (tool_config_from_domain t) = ts_name t" "or_version (tool_config_from_domain t) = ts_version t"
  by (simp_all add: tool_config_from_domain_def)

interpretation agent_config_entity: entity agent_config_from_domain "agent_config_to_domain v"
  "\<lambda>a. (as_name a, as_version a)" "\<lambda>r. (gr_name r, gr_version r)"
  "\<lambda>a. faithful_scalars v \<and> (\<forall>s \<in> set (as_skills a). valid_skill_name (sr_name s))
     \<and> as_input_schema a \<noteq> [] \<and> as_output_schema a \<noteq> []" for v
  by unfold_locales (simp_all add: agent_config_stored agent_normal_def schema_normal_idem agent_config_key)

interpretation tool_config_entity: entity tool_config_from_domain "tool_config_to_domain v"
  "\<lambda>t. (ts_name t, ts_version t)" "\<lambda>r. (or_name r, or_version r)"
  "\<lambda>t. faithful_scalars v \<and> ts_input_schema t \<noteq> [] \<and> ts_output_schema t \<noteq> []" for v
  by unfold_locales (simp_all add: tool_config_stored tool_normal_def schema_normal_idem tool_config_key)

section \<open>Round trips and refinement\<close>

definition example_run :: agent_run where
  "example_run = (new_agent_run ''run-1'' ''trace-1'' 0 ''billing'' ''default'' ''req-1'')
     \<lparr>ar_agent := Some \<lparr>af_name = ''biller'', af_version = ''1.0.0''\<rparr>, ar_status := RUNNING,
      ar_error_type := Some TOOL_TIMEOUT,
      ar_files := [\<lparr>rf_file_id = Some ''f1'', rf_url = None, rf_file_name = None, rf_mime_type = None,
                    rf_metadata = []\<rparr>]\<rparr>"

text \<open>
  Writing a run and reading it back restores every field, nested files, callback
  and skill snapshots included; the one thing that can be lost is a reference to an
  agent with an empty name, which comes back as no agent.
\<close>

theorem run_roundtrip:
  assumes "faithful_scalars v"
  shows "run_to_domain v (run_from_domain t) =
           Inr (if storable_run t then t else t\<lparr>ar_agent := None\<rparr>)"
proof (cases "storable_run t")
  case True
  with assms show ?thesis by (simp add: run_entity.roundtrip)
next
  case False
  then obtain a where "ar_agent t = Some a" "af_name a = []"
    by (auto simp: storable_run_def split: option.splits)
  with False assms show ?thesis
    by (simp add: run_to_domain_def run_from_domain_def validated_def agent_of_columns_def)
qed

theorem run_roundtrip_witness:
  "faithful_scalars strict_scalars \<and> run_to_domain strict_scalars (run_from_domain example_run) = Inr example_run"
  using run_roundtrip [of strict_scalars example_run]
  by (simp add: storable_run_def example_run_def new_agent_run_def)

text \<open>
  C11: The run repository on table rows refines the run repository on run objects: looking
  up a key in the mapped table and mapping the row back is the lookup in the table of
  objects, and merging a mapped run is mapping the merged table, so that a later
  lookup of its key returns the run that was written.
\<close>

theorem run_rows_refine_runs:
  assumes "faithful_scalars v" and "\<forall>x \<in> set t. storable_run x" and "storable_run r"
  shows "orm_get rr_id (run_to_domain v) k (map run_from_domain t) = Inr (runs_get k t)
     \<and> orm_merge rr_id run_from_domain (r\<lparr>ar_update_time := now\<rparr>) (map run_from_domain t)
         = map run_from_domain (runs_update now r t)
     \<and> orm_get rr_id (run_to_domain v) (ar_run_id r)
         (orm_merge rr_id run_from_domain (r\<lparr>ar_update_time := now\<rparr>) (map run_from_domain t))
         = Inr (Some (r\<lparr>ar_update_time := now\<rparr>))"
proof -
  have "storable_run (r\<lparr>ar_update_time := now\<rparr>)" using assms(3) by (simp add: storable_run_def)
  then show ?thesis
    using assms run_entity.get_refines [of t v] run_entity.merge_refines
      run_entity.merge_get [of v "r\<lparr>ar_update_time := now\<rparr>" t]
    by (simp add: runs_get_def runs_update_def)
qed

theorem run_rows_refine_runs_witness:
  "orm_get rr_id (run_to_domain strict_scalars) ''run-1'' (map run_from_domain [example_run])
     = Inr (runs_get ''run-1'' [example_run])"
proof -
  have "storable_run example_run" by (simp add: storable_run_def example_run_def)
  then show ?thesis using run_rows_refine_runs [of strict_scalars "[example_run]" example_run] by simp
qed

text \<open>
  An agent specification comes back from its configuration row as it was stored, with
  skills, retry policy and MCP servers, except that an empty input or output schema
  has become the schema of any object; reading such a row back is stable.
\<close>

theorem agent_config_normal_form:
  assumes "faithful_scalars v" and "\<forall>s \<in> set (as_skills a). valid_skill_name (sr_name s)"
  shows "agent_config_to_domain v (agent_config_from_domain a) = Inr (agent_normal a)
     \<and> agent_config_to_domain v (agent_config_from_domain (agent_normal a)) = Inr (agent_normal a)"
proof -
  have "agent_normal (agent_normal a) = agent_normal a"
    by (simp add: agent_normal_def schema_normal_def object_schema_def)
  moreover have "as_skills (agent_normal a) = as_skills a" by (simp add: agent_normal_def)
  ultimately show ?thesis using agent_config_stored [OF assms] agent_config_stored [of v "agent_normal a"] assms
    by simp
qed

definition example_agent :: agent_spec where
  "example_agent = \<lparr>as_name = ''biller'', as_description = [], as_version = ''1.0.0'', as_route_tags = [''billing''],
     as_input_schema = [], as_output_schema = object_schema, as_tools = [''ledger''],
     as_skills = [\<lparr>sr_name = ''tax-rules'', sr_version = None, sr_activation = ACT_AUTO, sr_config = []\<rparr>],
     as_max_concurrency = 1, as_timeout_seconds = 300,
     as_retry_policy = \<lparr>rp_max_attempts = 1, rp_backoff_seconds = 0, rp_backoff_type = ''fixed''\<rparr>,
     as_permissions = [], as_enabled = True, as_owner = None, as_runtime = [], as_mcp_servers = [],
     as_managed_by = ''yaml'', as_updated_by = None\<rparr>"

theorem agent_config_normal_form_witness:
  "agent_config_to_domain strict_scalars (agent_config_from_domain example_agent)
     = Inr (example_agent\<lparr>as_input_schema := object_schema\<rparr>)"
proof -
  have "\<forall>s \<in> set (as_skills example_agent). valid_skill_name (sr_name s)" by code_simp
  then show ?thesis using agent_config_normal_form [of strict_scalars example_agent]
    by (simp add: agent_normal_def example_agent_def schema_normal_def object_schema_def)
qed

end
