(* ===== verification/Dynamic.thy ===== *)
theory Dynamic
  imports Domain
begin

text \<open>
  What Python does with a value whose type is known only at run time, where the program takes
  values from configuration documents and answers of services: conversions to numbers, subscripts,
  attribute access on the wrong type, and iteration.
\<close>

section \<open>Numbers in configuration documents\<close>

definition trunc_rat :: "rat \<Rightarrow> int" where
  "trunc_rat x = (if 0 \<le> x then \<lfloor>x\<rfloor> else \<lceil>x\<rceil>)"

definition digit_value :: "char \<Rightarrow> nat option" where
  "digit_value c = (let n = (of_char c :: nat) in if 48 \<le> n \<and> n \<le> 57 then Some (n - 48) else None)"

fun parse_digits :: "nat \<Rightarrow> string \<Rightarrow> nat option" where
  "parse_digits acc [] = Some acc"
| "parse_digits acc (c # cs) = (case digit_value c of None \<Rightarrow> None | Some d \<Rightarrow> parse_digits (10 * acc + d) cs)"

definition parse_nat :: "string \<Rightarrow> nat option" where
  "parse_nat s = (if s = [] then None else parse_digits 0 s)"

definition parse_sign :: "string \<Rightarrow> bool \<times> string" where
  "parse_sign s = (case s of c # cs \<Rightarrow> if c = CHR ''-'' then (True, cs) else if c = CHR ''+'' then (False, cs) else (False, s)
     | [] \<Rightarrow> (False, []))"

text \<open>
  \<^verbatim>\<open>int(v)\<close> and \<^verbatim>\<open>float(v)\<close>. Strings are decimal literals with an optional sign and, for
  \<^verbatim>\<open>float\<close>, an optional fraction; digit separators, exponents and the non-finite literals
  are not covered and count as malformed.
\<close>

fun py_int :: "json \<Rightarrow> py_exc + int" where
  "py_int (JNum x) = Inr (trunc_rat x)"
| "py_int (JBool b) = Inr (if b then 1 else 0)"
| "py_int (JStr s) = (case parse_sign (str_strip s) of (neg, ds) \<Rightarrow>
     (case parse_nat ds of None \<Rightarrow> Inl (ValueError (''invalid literal for int() with base 10: '' @ py_repr s))
      | Some n \<Rightarrow> Inr (if neg then - int n else int n)))"
| "py_int _ = Inl (TypeError ''int() argument must be a string, a bytes-like object or a real number'')"

definition parse_decimal :: "string \<Rightarrow> rat option" where
  "parse_decimal s = (case split_on CHR ''.'' s of
      [i] \<Rightarrow> map_option of_nat (parse_nat i)
    | [i, f] \<Rightarrow> (case (parse_digits 0 i, parse_digits 0 f) of
          (Some a, Some b) \<Rightarrow> if i = [] \<and> f = [] then None else Some (of_nat a + of_nat b / 10 ^ length f)
        | _ \<Rightarrow> None)
    | _ \<Rightarrow> None)"

fun py_float :: "json \<Rightarrow> py_exc + rat" where
  "py_float (JNum x) = Inr x"
| "py_float (JBool b) = Inr (if b then 1 else 0)"
| "py_float (JStr s) = (case parse_sign (str_strip s) of (neg, ds) \<Rightarrow>
     (case parse_decimal ds of None \<Rightarrow> Inl (ValueError (''could not convert string to float: '' @ py_repr s))
      | Some x \<Rightarrow> Inr (if neg then - x else x)))"
| "py_float _ = Inl (TypeError ''float() argument must be a string or a real number'')"

definition dict_get_or :: "string \<Rightarrow> json \<Rightarrow> dict \<Rightarrow> json" where
  "dict_get_or k dflt d = (case map_of d k of None \<Rightarrow> dflt | Some v \<Rightarrow> v)"

section \<open>Subscripts and attributes\<close>

text \<open>\<^verbatim>\<open>type(v).__name__\<close>\<close>

fun json_type_name :: "json \<Rightarrow> string" where
  "json_type_name JNull = ''NoneType''"
| "json_type_name (JBool b) = ''bool''"
| "json_type_name (JNum n) = (if of_int \<lfloor>n\<rfloor> = n then ''int'' else ''float'')"
| "json_type_name (JStr s) = ''str''"
| "json_type_name (JList xs) = ''list''"
| "json_type_name (JObj d) = ''dict''"

definition subscript :: "string \<Rightarrow> dict \<Rightarrow> py_exc + json" where
  "subscript k d = (case map_of d k of Some j \<Rightarrow> Inr j | None \<Rightarrow> Inl (KeyError k))"

text \<open>A field used as a dictionary; the method called on it names the \<^verbatim>\<open>AttributeError\<close>.\<close>

definition attribute_error :: "json \<Rightarrow> string \<Rightarrow> py_exc" where
  "attribute_error j attr = OtherException ''AttributeError'' (py_repr (json_type_name j) @ '' object has no attribute '' @ py_repr attr)"

definition sub_dict :: "string \<Rightarrow> bool \<Rightarrow> string \<Rightarrow> dict \<Rightarrow> py_exc + dict" where
  "sub_dict k or_empty attr d = (case map_of d k of None \<Rightarrow> Inr []
     | Some (JObj m) \<Rightarrow> Inr m
     | Some j \<Rightarrow> if or_empty \<and> \<not> json_truthy j then Inr [] else Inl (attribute_error j attr))"

text \<open>\<^verbatim>\<open>d.get(k)\<close> where \<open>d\<close> should be a dictionary.\<close>

definition get_attr :: "json \<Rightarrow> string \<Rightarrow> py_exc + json" where
  "get_attr j k = (case j of JObj d \<Rightarrow> Inr (dict_get_or k JNull d) | _ \<Rightarrow> Inl (attribute_error j ''get''))"

text \<open>The characters of a text.\<close>

fun py_chars :: "string \<Rightarrow> string list" where
  "py_chars [] = []"
| "py_chars (c # s) = (case py_chars s of [] \<Rightarrow> [[c]]
     | p # ps \<Rightarrow> (case p of [] \<Rightarrow> [c] # ps | d # ds \<Rightarrow> if tail_byte d then (c # p) # ps else [c] # p # ps))"

text \<open>\<^verbatim>\<open>list(v)\<close>\<close>

fun py_list :: "json \<Rightarrow> py_exc + json list" where
  "py_list (JList xs) = Inr xs"
| "py_list (JStr s) = Inr (map JStr (py_chars s))"
| "py_list (JObj d) = Inr (map (\<lambda>kv. JStr (fst kv)) d)"
| "py_list j = Inl (TypeError (py_repr (json_type_name j) @ '' object is not iterable''))"

text \<open>\<^verbatim>\<open>v[0]\<close>\<close>

fun py_first :: "json \<Rightarrow> py_exc + json" where
  "py_first (JList []) = Inl (IndexError ''list index out of range'')"
| "py_first (JList (x # xs)) = Inr x"
| "py_first (JStr s) = (case py_chars s of [] \<Rightarrow> Inl (IndexError ''string index out of range'') | c # cs \<Rightarrow> Inr (JStr c))"
| "py_first (JObj d) = Inl (OtherException ''KeyError'' ''0'')"
| "py_first j = Inl (TypeError (py_repr (json_type_name j) @ '' object is not subscriptable''))"

text \<open>\<^verbatim>\<open>repr(v)\<close>, given \<^verbatim>\<open>str(v)\<close> of what is no text.\<close>

definition repr_with :: "(json \<Rightarrow> string) \<Rightarrow> json \<Rightarrow> string" where
  "repr_with text j = (case j of JStr s \<Rightarrow> py_repr s | _ \<Rightarrow> text j)"

definition str_with :: "(json \<Rightarrow> string) \<Rightarrow> json \<Rightarrow> string" where
  "str_with text j = (case j of JStr s \<Rightarrow> s | _ \<Rightarrow> text j)"

end
