(* ===== verification/Resilience.thy ===== *)
theory Resilience
  imports Dynamic
begin

text \<open>
  Process-local flow control: the per-tool \<^verbatim>\<open>QpsLimiter\<close> and \<^verbatim>\<open>CircuitBreaker\<close>
  (\<^verbatim>\<open>src/framework/tool/resilience.py\<close>) and the per-caller token buckets of
  \<^verbatim>\<open>RateLimiter\<close> (\<^verbatim>\<open>src/infra/rate_limiter.py\<close>). Readings of \<^verbatim>\<open>time.monotonic\<close> are
  rational numbers of seconds passed as arguments. The theorems bound the admitted
  traffic: calls per second for the limiter, calls over any period for the bucket, and
  when the breaker opens and closes.
\<close>

section \<open>The queries-per-second limiter\<close>

type_synonym windows = "(string \<times> rat list) list"

definition window_of :: "string \<Rightarrow> windows \<Rightarrow> rat list" where
  "window_of tool ws = (case map_of ws tool of None \<Rightarrow> [] | Some w \<Rightarrow> w)"

datatype qps_outcome = Admitted | Sleep rat | Window_Error py_exc

text \<open>
  One turn of the loop of \<^verbatim>\<open>acquire\<close> under the lock: drop the entries that left the
  one-second window, then admit the call or say how long to sleep. On an empty window
  that is still too full (a negative rate) \<^verbatim>\<open>window[0]\<close> raises.
\<close>

definition qps_turn :: "rat \<Rightarrow> string \<Rightarrow> rat \<Rightarrow> windows \<Rightarrow> windows \<times> qps_outcome" where
  "qps_turn now tool qps ws =
     (let window = dropWhile (\<lambda>t. 1 \<le> now - t) (window_of tool ws) in
      if of_nat (length window) < qps then (AList.update tool (window @ [now]) ws, Admitted)
      else (AList.update tool window ws,
            case window of [] \<Rightarrow> Window_Error (IndexError ''deque index out of range'')
            | t # _ \<Rightarrow> Sleep (max 0 (1 - (now - t)))))"

text \<open>
  The loop: each element of \<open>turns\<close> is the clock reading of one turn together with what
  the other tasks did to the windows since the previous one. \<^verbatim>\<open>None\<close>: still waiting.
\<close>

fun qps_loop :: "(rat \<times> (windows \<Rightarrow> windows)) list \<Rightarrow> string \<Rightarrow> rat \<Rightarrow> windows \<Rightarrow> windows \<times> (py_exc + unit) option" where
  "qps_loop [] tool qps ws = (ws, None)"
| "qps_loop ((now, others) # turns) tool qps ws =
     (case qps_turn now tool qps (others ws) of
        (ws', Admitted) \<Rightarrow> (ws', Some (Inr ()))
      | (ws', Window_Error e) \<Rightarrow> (ws', Some (Inl e))
      | (ws', Sleep _) \<Rightarrow> qps_loop turns tool qps ws')"

definition qps_acquire ::
    "(rat \<times> (windows \<Rightarrow> windows)) list \<Rightarrow> string \<Rightarrow> rat option \<Rightarrow> windows \<Rightarrow> windows \<times> (py_exc + unit) option" where
  "qps_acquire turns tool qps ws =
     (case qps of None \<Rightarrow> (ws, Some (Inr ())) | Some q \<Rightarrow> if q = 0 then (ws, Some (Inr ())) else qps_loop turns tool q ws)"

text \<open>The times at which a tool's calls are admitted, for any sequence of turns of any tasks.\<close>

fun qps_history :: "rat list \<Rightarrow> string \<Rightarrow> rat \<Rightarrow> windows \<Rightarrow> rat list" where
  "qps_history [] tool qps ws = []"
| "qps_history (now # clock) tool qps ws =
     (case qps_turn now tool qps ws of (ws', out) \<Rightarrow>
        (if out = Admitted then [now] else []) @ qps_history clock tool qps ws')"

section \<open>The circuit breaker\<close>

record breaker =
  br_failures :: int
  br_open_until :: rat

definition new_breaker_state :: breaker where
  "new_breaker_state = \<lparr>br_failures = 0, br_open_until = 0\<rparr>"

type_synonym breakers = "(string \<times> breaker) list"

definition breaker_of :: "string \<Rightarrow> breakers \<Rightarrow> breaker" where
  "breaker_of tool bs = (case map_of bs tool of None \<Rightarrow> new_breaker_state | Some b \<Rightarrow> b)"

definition open_until :: "string \<Rightarrow> breakers \<Rightarrow> breakers \<times> rat" where
  "open_until tool bs = (dict_setdefault tool new_breaker_state bs, br_open_until (breaker_of tool bs))"

definition record_failure :: "rat \<Rightarrow> string \<Rightarrow> dict \<Rightarrow> breakers \<Rightarrow> breakers \<times> (py_exc + rat option)" where
  "record_failure now tool config bs =
     (if config = [] \<or> map_of config ''enabled'' = Some (JBool False) then (bs, Inr None)
      else case py_int (dict_get_or ''failure_threshold'' (JNum 3) config) of
        Inl e \<Rightarrow> (bs, Inl e)
      | Inr threshold \<Rightarrow>
          (case py_float (dict_get_or ''cooldown_seconds'' (JNum 30) config) of
             Inl e \<Rightarrow> (bs, Inl e)
           | Inr cooldown_seconds \<Rightarrow>
               let state = (breaker_of tool bs)\<lparr>br_failures := br_failures (breaker_of tool bs) + 1\<rparr> in
               if threshold \<le> br_failures state
               then (let until = now + cooldown_seconds in
                     (AList.update tool (state\<lparr>br_open_until := until\<rparr>) bs, Inr (Some until)))
               else (AList.update tool state bs, Inr None)))"

definition record_success :: "string \<Rightarrow> breakers \<Rightarrow> breakers" where
  "record_success tool bs = AList.update tool new_breaker_state bs"

definition breaker_snapshot :: "string \<Rightarrow> breakers \<Rightarrow> breakers \<times> (int \<times> rat)" where
  "breaker_snapshot tool bs = (dict_setdefault tool new_breaker_state bs,
     (br_failures (breaker_of tool bs), br_open_until (breaker_of tool bs)))"

datatype breaker_event = Call_Failed rat | Call_Succeeded

fun breaker_run :: "string \<Rightarrow> dict \<Rightarrow> breaker_event list \<Rightarrow> breakers \<Rightarrow> breakers" where
  "breaker_run tool config [] bs = bs"
| "breaker_run tool config (Call_Failed now # es) bs = breaker_run tool config es (fst (record_failure now tool config bs))"
| "breaker_run tool config (Call_Succeeded # es) bs = breaker_run tool config es (record_success tool bs)"

section \<open>Token buckets\<close>

record token_bucket =
  tb_capacity :: rat
  tb_fill_rate :: rat
  tb_tokens :: rat
  tb_last_refill :: rat

definition new_bucket :: "rat \<Rightarrow> rat \<Rightarrow> rat \<Rightarrow> token_bucket" where
  "new_bucket now capacity fill_rate =
     \<lparr>tb_capacity = capacity, tb_fill_rate = fill_rate, tb_tokens = capacity, tb_last_refill = now\<rparr>"

definition refill :: "rat \<Rightarrow> token_bucket \<Rightarrow> token_bucket" where
  "refill now b = (let elapsed = now - tb_last_refill b in
     b\<lparr>tb_tokens := min (tb_capacity b) (tb_tokens b + elapsed * tb_fill_rate b), tb_last_refill := now\<rparr>)"

definition consume :: "rat \<Rightarrow> rat \<Rightarrow> token_bucket \<Rightarrow> token_bucket \<times> bool" where
  "consume now tokens b = (let b' = refill now b in
     if tokens \<le> tb_tokens b' then (b'\<lparr>tb_tokens := tb_tokens b' - tokens\<rparr>, True) else (b', False))"

definition available :: "rat \<Rightarrow> token_bucket \<Rightarrow> token_bucket \<times> rat" where
  "available now b = (refill now b, tb_tokens (refill now b))"

fun consumed :: "rat list \<Rightarrow> token_bucket \<Rightarrow> nat" where
  "consumed [] b = 0"
| "consumed (now # clock) b = (case consume now 1 b of (b', ok) \<Rightarrow> (if ok then 1 else 0) + consumed clock b')"

text \<open>The limiter's settings: a default limit and one per caller, with the defaults 100 and 10 of the code.\<close>

record caller_limits =
  cl_capacity :: "rat option"
  cl_fill_rate :: "rat option"

record rate_limiter =
  rl_enabled :: bool
  rl_callers :: "(string \<times> caller_limits) list"
  rl_default :: caller_limits
  rl_buckets :: "(string \<times> token_bucket) list"

definition reconfigure :: "bool \<Rightarrow> (string \<times> caller_limits) list \<Rightarrow> caller_limits \<Rightarrow> rate_limiter \<Rightarrow> rate_limiter" where
  "reconfigure enabled callers dflt rl =
     rl\<lparr>rl_enabled := enabled, rl_callers := callers, rl_default := dflt, rl_buckets := []\<rparr>"

definition get_bucket :: "rat \<Rightarrow> string \<Rightarrow> rate_limiter \<Rightarrow> token_bucket \<times> rate_limiter" where
  "get_bucket now caller rl =
     (case map_of (rl_buckets rl) caller of
        Some b \<Rightarrow> (b, rl)
      | None \<Rightarrow>
          let limits = (case map_of (rl_callers rl) caller of None \<Rightarrow> rl_default rl | Some l \<Rightarrow> l);
              b = new_bucket now (case cl_capacity limits of None \<Rightarrow> 100 | Some c \<Rightarrow> c)
                                 (case cl_fill_rate limits of None \<Rightarrow> 10 | Some f \<Rightarrow> f)
          in (b, rl\<lparr>rl_buckets := AList.update caller b (rl_buckets rl)\<rparr>))"

definition is_allowed :: "rat \<Rightarrow> string \<Rightarrow> rate_limiter \<Rightarrow> rate_limiter \<times> bool" where
  "is_allowed now caller rl =
     (if \<not> rl_enabled rl then (rl, True)
      else case get_bucket now caller rl of (b, rl') \<Rightarrow>
        (case consume now 1 b of (b', ok) \<Rightarrow> (rl'\<lparr>rl_buckets := AList.update caller b' (rl_buckets rl')\<rparr>, ok)))"

definition rate_metrics :: "rat \<Rightarrow> rate_limiter \<Rightarrow> rate_limiter \<times> (string \<times> rat \<times> rat) list" where
  "rate_metrics now rl =
     (rl\<lparr>rl_buckets := map (\<lambda>(c, b). (c, fst (available now b))) (rl_buckets rl)\<rparr>,
      map (\<lambda>(c, b). (c, snd (available now b), tb_capacity b)) (rl_buckets rl))"

section \<open>The limiter admits at most the rounded-up rate per second\<close>

definition in_second :: "rat \<Rightarrow> rat \<Rightarrow> bool" where
  "in_second a x = (a \<le> x \<and> x < a + 1)"

lemma dropWhile_old_sorted:
  "sorted xs \<Longrightarrow> dropWhile (\<lambda>t. 1 \<le> now - t) xs = filter (\<lambda>t. now - t < (1::rat)) xs"
  by (induction xs) (auto intro!: filter_True [symmetric])

lemma length_filter_mono: "(\<And>x. x \<in> set xs \<Longrightarrow> P x \<Longrightarrow> Q x) \<Longrightarrow> length (filter P xs) \<le> length (filter Q xs)"
  by (induction xs) (auto simp: le_SucI)

text \<open>
  The invariant of the limiter, relative to the calls \<open>h\<close> admitted so far and a time
  \<open>l\<close> not after the next reading: the window holds exactly the admitted calls of the
  last second.
\<close>

definition qps_inv :: "rat list \<Rightarrow> rat \<Rightarrow> rat list \<Rightarrow> bool" where
  "qps_inv h l w = (sorted h \<and> (\<forall>x \<in> set h. x \<le> l) \<and> w = filter (\<lambda>t. l - t < 1) h)"

lemma window_of_update [simp]: "window_of tool (AList.update tool w ws) = w"
  by (simp add: window_of_def update_conv')

lemma qps_inv_step:
  assumes "qps_inv h l (window_of tool ws)" and "l \<le> now" and "qps_turn now tool qps ws = (ws', out)"
  shows "qps_inv (h @ (if out = Admitted then [now] else [])) now (window_of tool ws')
     \<and> (out = Admitted \<longrightarrow> of_nat (length (filter (\<lambda>t. now - t < 1) h)) < qps)"
proof -
  let ?w = "filter (\<lambda>t. now - t < 1) h"
  have s: "sorted h" and le: "\<forall>x \<in> set h. x \<le> now" and w: "window_of tool ws = filter (\<lambda>t. l - t < 1) h"
    using assms(1,2) unfolding qps_inv_def by (auto intro: order_trans)
  have "dropWhile (\<lambda>t. 1 \<le> now - t) (window_of tool ws) = ?w"
    unfolding w using s assms(2) by (subst dropWhile_old_sorted) (auto simp: sorted_wrt_filter intro!: filter_cong)
  then have *: "out = Admitted \<longleftrightarrow> of_nat (length ?w) < qps"
    and "window_of tool ws' = (if out = Admitted then ?w @ [now] else ?w)"
    using assms(3) by (auto simp: qps_turn_def Let_def split: if_splits list.splits)
  with s le show ?thesis by (auto simp: qps_inv_def sorted_append)
qed

lemma qps_rate_extend:
  assumes bound: "\<forall>a. int (length (filter (in_second a) h)) \<le> \<lceil>qps\<rceil>"
    and "\<forall>x \<in> set h. x \<le> now" and adm: "of_nat (length (filter (\<lambda>t. now - t < 1) h)) < qps"
  shows "int (length (filter (in_second a) (h @ [now]))) \<le> \<lceil>qps\<rceil>"
proof (cases "in_second a now")
  case True
  then have "length (filter (in_second a) h) \<le> length (filter (\<lambda>t. now - t < 1) h)"
    by (intro length_filter_mono) (auto simp: in_second_def)
  moreover have "int (length (filter (\<lambda>t. now - t < 1) h)) < \<lceil>qps\<rceil>"
    using adm by (simp add: less_ceiling_iff)
  ultimately show ?thesis using True by simp
next
  case False
  with bound show ?thesis by simp
qed

lemma qps_history_bound:
  assumes "qps_inv h l (window_of tool ws)" and "\<forall>a. int (length (filter (in_second a) h)) \<le> \<lceil>qps\<rceil>"
    and "sorted (l # clock)"
  shows "int (length (filter (in_second a) (h @ qps_history clock tool qps ws))) \<le> \<lceil>qps\<rceil>"
  using assms
proof (induction clock arbitrary: h l ws)
  case Nil
  then show ?case by simp
next
  case (Cons now clock)
  obtain ws' out where t: "qps_turn now tool qps ws = (ws', out)" by fastforce
  let ?h = "h @ (if out = Admitted then [now] else [])"
  have "l \<le> now" using Cons.prems(3) by simp
  note step = qps_inv_step [OF Cons.prems(1) this t]
  have le: "\<forall>x \<in> set h. x \<le> now" using Cons.prems(1) \<open>l \<le> now\<close> by (auto simp: qps_inv_def intro: order_trans)
  have "\<forall>a. int (length (filter (in_second a) ?h)) \<le> \<lceil>qps\<rceil>"
    using step qps_rate_extend [OF Cons.prems(2) le] Cons.prems(2) by auto
  with step Cons.IH [of ?h now ws'] Cons.prems(3) t show ?case by simp
qed

section \<open>Breakers and buckets\<close>

lemma breaker_of_update [simp]: "breaker_of tool (AList.update tool' b bs) = (if tool = tool' then b else breaker_of tool bs)"
  by (simp add: breaker_of_def update_conv')

text \<open>The failures since the last success.\<close>

fun trailing_failures :: "breaker_event list \<Rightarrow> nat \<Rightarrow> nat" where
  "trailing_failures [] n = n"
| "trailing_failures (Call_Failed now # es) n = trailing_failures es (Suc n)"
| "trailing_failures (Call_Succeeded # es) n = trailing_failures es 0"

lemma record_failure_failures:
  assumes "py_int (dict_get_or ''failure_threshold'' (JNum 3) config) = Inr threshold"
    and "py_float (dict_get_or ''cooldown_seconds'' (JNum 30) config) = Inr cooldown"
    and "config \<noteq> []" and "map_of config ''enabled'' \<noteq> Some (JBool False)"
  shows "br_failures (breaker_of tool (fst (record_failure now tool config bs))) = br_failures (breaker_of tool bs) + 1"
  using assms by (simp add: record_failure_def Let_def)

lemma breaker_run_failures:
  assumes "py_int (dict_get_or ''failure_threshold'' (JNum 3) config) = Inr threshold"
    and "py_float (dict_get_or ''cooldown_seconds'' (JNum 30) config) = Inr cooldown"
    and "config \<noteq> []" and "map_of config ''enabled'' \<noteq> Some (JBool False)"
    and "br_failures (breaker_of tool bs) = int n"
  shows "br_failures (breaker_of tool (breaker_run tool config es bs)) = int (trailing_failures es n)"
  using assms(5)
proof (induction es arbitrary: bs n)
  case (Cons e es)
  then show ?case
    using record_failure_failures [OF assms(1-4)]
    by (cases e) (auto simp: record_success_def new_breaker_state_def)
qed simp

definition bucket_ok :: "token_bucket \<Rightarrow> bool" where
  "bucket_ok b = (0 \<le> tb_fill_rate b \<and> 0 \<le> tb_tokens b \<and> tb_tokens b \<le> tb_capacity b)"

lemma refill_ok: "bucket_ok b \<Longrightarrow> tb_last_refill b \<le> now \<Longrightarrow> bucket_ok (refill now b)"
  by (auto simp: bucket_ok_def refill_def Let_def min_def)

lemma consume_ok:
  "bucket_ok b \<Longrightarrow> tb_last_refill b \<le> now \<Longrightarrow> 0 \<le> n \<Longrightarrow> bucket_ok (fst (consume now n b))"
  using refill_ok [of b now] by (auto simp: consume_def Let_def bucket_ok_def)

lemma consume_fields [simp]:
  "tb_fill_rate (fst (consume now n b)) = tb_fill_rate b" "tb_capacity (fst (consume now n b)) = tb_capacity b"
  "tb_last_refill (fst (consume now n b)) = now"
  by (auto simp: consume_def refill_def Let_def)

lemma consume_spends:
  "tb_tokens (fst (consume now n b)) + (if snd (consume now n b) then n else 0)
     \<le> tb_tokens b + (now - tb_last_refill b) * tb_fill_rate b"
  by (auto simp: consume_def refill_def Let_def)

lemma consumed_le_tokens:
  assumes "bucket_ok b" and "sorted (tb_last_refill b # clock)" and "\<forall>t \<in> set clock. t \<le> T" and "tb_last_refill b \<le> T"
  shows "of_nat (consumed clock b) \<le> tb_tokens b + (T - tb_last_refill b) * tb_fill_rate b"
  using assms
proof (induction clock arbitrary: b)
  case Nil
  then show ?case by (simp add: bucket_ok_def)
next
  case (Cons now clock)
  obtain b' ok where c: "consume now 1 b = (b', ok)" by fastforce
  have f: "tb_fill_rate b' = tb_fill_rate b" "tb_last_refill b' = now" "bucket_ok b'"
    using consume_fields [of now 1 b] consume_ok [of b now 1] c Cons.prems by simp_all
  have "of_nat (consumed clock b') \<le> tb_tokens b' + (T - now) * tb_fill_rate b"
    using Cons.IH [of b'] Cons.prems f by simp
  moreover have "tb_tokens b' + (if ok then 1 else 0) \<le> tb_tokens b + (now - tb_last_refill b) * tb_fill_rate b"
    using consume_spends [of now 1 b] c by simp
  ultimately show ?case using c by (simp add: algebra_simps split: if_splits)
qed

section \<open>Properties\<close>

text \<open>
  The limiter keeps to its rate. For any sequence of acquisition turns, by any number of
  tasks, at non-decreasing clock readings, the calls of a tool admitted within any
  half-open second number at most its configured rate, rounded up.
\<close>

theorem qps_limit:
  assumes "sorted clock" and "0 < qps"
  shows "int (length (filter (\<lambda>t. a \<le> t \<and> t < a + 1) (qps_history clock tool qps []))) \<le> \<lceil>qps\<rceil>"
proof (cases clock)
  case Nil
  with assms(2) show ?thesis by (simp add: less_imp_le)
next
  case (Cons t ts)
  have "qps_inv [] t (window_of tool [])" by (simp add: qps_inv_def window_of_def)
  moreover have "\<forall>a. int (length (filter (in_second a) [])) \<le> \<lceil>qps\<rceil>" using assms(2) by (simp add: less_imp_le)
  ultimately have "int (length (filter (in_second a) ([] @ qps_history clock tool qps []))) \<le> \<lceil>qps\<rceil>"
    using assms(1) Cons by (intro qps_history_bound) auto
  then show ?thesis by (simp add: in_second_def [abs_def])
qed

theorem qps_limit_witness:
  "int (length (filter (\<lambda>t. 0 \<le> t \<and> t < 0 + 1) (qps_history [0, 1/4, 1/2] ''t'' 2 []))) \<le> 2
     \<and> qps_history [0, 1/4, 1/2] ''t'' 2 [] = [0, 1/4]"
proof
  show "int (length (filter (\<lambda>t. 0 \<le> t \<and> t < 0 + 1) (qps_history [0, 1/4, 1/2] ''t'' 2 []))) \<le> 2"
    using qps_limit [of "[0, 1/4, 1/2]" 2 0 "''t''"] by simp
  show "qps_history [0, 1/4, 1/2] ''t'' 2 [] = [0, 1/4]"
    by (simp add: qps_turn_def window_of_def Let_def)
qed

text \<open>
  A limited call is not starved by its own sleep. If a turn finds the window full and the
  task sleeps at least as long as it was told while no other task is admitted, then the
  next turn admits it, for every positive rate and every window the limiter can hold
  (at most the rounded-up rate of entries).
\<close>

theorem qps_acquire_returns:
  assumes "0 < qps" and "int (length (window_of tool ws)) \<le> \<lceil>qps\<rceil>"
    and "\<And>d. snd (qps_turn now tool qps ws) = Sleep d \<Longrightarrow> now + d \<le> now'"
  shows "snd (qps_acquire [(now, id), (now', id)] tool (Some qps) ws) = Some (Inr ())"
proof (cases "of_nat (length (dropWhile (\<lambda>t. 1 \<le> now - t) (window_of tool ws))) < qps")
  case True
  with assms(1) show ?thesis by (simp add: qps_acquire_def qps_turn_def Let_def)
next
  case False
  let ?w = "dropWhile (\<lambda>t. 1 \<le> now - t) (window_of tool ws)"
  from False assms(1) obtain t w where w: "?w = t # w" by (cases ?w) auto
  have turn: "qps_turn now tool qps ws = (AList.update tool (t # w) ws, Sleep (max 0 (1 - (now - t))))"
    using False w by (simp add: qps_turn_def Let_def)
  then have "now + max 0 (1 - (now - t)) \<le> now'" using assms(3) by simp
  then have t: "1 \<le> now' - t" by (simp add: max_def split: if_splits)
  have "length (dropWhile (\<lambda>t. 1 \<le> now' - t) (t # w)) \<le> length w"
    using t by (simp add: length_dropWhile_le)
  moreover have "int (length w) < \<lceil>qps\<rceil>"
    using assms(2) w length_dropWhile_le [of "\<lambda>t. 1 \<le> now - t" "window_of tool ws"] by simp
  ultimately have "of_nat (length (dropWhile (\<lambda>t. 1 \<le> now' - t) (t # w))) < qps"
    using less_ceiling_iff [of "int (length (dropWhile (\<lambda>t. 1 \<le> now' - t) (t # w)))" qps] by linarith
  then have "snd (qps_turn now' tool qps (AList.update tool (t # w) ws)) = Admitted"
    by (simp add: qps_turn_def Let_def)
  with turn assms(1) show ?thesis
    by (auto simp: qps_acquire_def split: prod.split)
qed

theorem qps_acquire_returns_witness:
  "snd (qps_acquire [(1/2, id), (1, id)] ''t'' (Some 1) [(''t'', [0])]) = Some (Inr ())"
  by (rule qps_acquire_returns) (simp_all add: window_of_def qps_turn_def)

text \<open>
  The breaker opens exactly when a tool has failed often enough in a row. With a readable
  configuration, after any history of calls the counter equals the number of failures since
  the last success, the next failure opens the breaker until its cooldown has passed if that
  makes the threshold and leaves it alone otherwise, and a success closes it.
\<close>

theorem breaker_opens_at_threshold:
  assumes "py_int (dict_get_or ''failure_threshold'' (JNum 3) config) = Inr threshold"
    and "py_float (dict_get_or ''cooldown_seconds'' (JNum 30) config) = Inr cooldown"
    and "config \<noteq> []" and "map_of config ''enabled'' \<noteq> Some (JBool False)"
  shows "snd (record_failure now tool config (breaker_run tool config es [])) =
       Inr (if threshold \<le> int (trailing_failures es 0) + 1 then Some (now + cooldown) else None)
     \<and> snd (open_until tool (record_success tool (breaker_run tool config es []))) = 0"
proof -
  have "br_failures (breaker_of tool (breaker_run tool config es [])) = int (trailing_failures es 0)"
    by (rule breaker_run_failures [OF assms]) (simp add: breaker_of_def new_breaker_state_def)
  with assms show ?thesis
    by (simp add: record_failure_def Let_def open_until_def record_success_def new_breaker_state_def)
qed

theorem breaker_opens_at_threshold_witness:
  "snd (record_failure 7 ''t'' [(''enabled'', JBool True)] (breaker_run ''t'' [(''enabled'', JBool True)]
       [Call_Succeeded, Call_Failed 5, Call_Failed 6] [])) = Inr (Some 37)"
  using breaker_opens_at_threshold [of "[(''enabled'', JBool True)]" 3 30 7 "''t''" "[Call_Succeeded, Call_Failed 5, Call_Failed 6]"]
  by (simp add: dict_get_or_def trunc_rat_def)

text \<open>
  A caller cannot exceed its budget. Whatever the times of its requests, the number of
  requests a fresh bucket grants up to time \<open>T\<close> is at most its capacity plus the refill of
  that period; and after a pause long enough to refill one token a request is granted.
\<close>

theorem token_bucket_budget:
  assumes "0 \<le> capacity" and "0 \<le> fill_rate" and "sorted (t0 # clock)" and "\<forall>t \<in> set clock. t \<le> T" and "t0 \<le> T"
  shows "of_nat (consumed clock (new_bucket t0 capacity fill_rate)) \<le> capacity + (T - t0) * fill_rate
     \<and> (bucket_ok b \<and> 1 \<le> tb_capacity b \<and> 1 \<le> (now - tb_last_refill b) * tb_fill_rate b \<longrightarrow> snd (consume now 1 b))"
  using consumed_le_tokens [of "new_bucket t0 capacity fill_rate" clock T] assms
  by (auto simp: new_bucket_def bucket_ok_def consume_def refill_def Let_def)

theorem token_bucket_budget_witness:
  "consumed [0, 0, 0, 1] (new_bucket 0 2 1) = 3 \<and> of_nat (consumed [0, 0, 0, 1] (new_bucket 0 2 1)) \<le> (2 + (1 - 0) * 1 :: rat)"
proof
  show "consumed [0, 0, 0, 1] (new_bucket 0 2 1) = 3"
    by (simp add: new_bucket_def consume_def refill_def Let_def)
  show "of_nat (consumed [0, 0, 0, 1] (new_bucket 0 2 1)) \<le> (2 + (1 - 0) * 1 :: rat)"
    using token_bucket_budget [of 2 1 0 "[0, 0, 0, 1]" 1] by simp
qed

text \<open>
  Callers are limited independently. A request of one caller never changes another caller's
  bucket, an admitted request of an enabled limiter had a token, and a disabled limiter
  admits everything without touching any bucket.
\<close>

theorem rate_limit_per_caller:
  assumes "is_allowed now caller rl = (rl', ok)"
  shows "(other \<noteq> caller \<longrightarrow> map_of (rl_buckets rl') other = map_of (rl_buckets rl) other)
     \<and> (rl_enabled rl \<and> ok \<longrightarrow> 1 \<le> tb_tokens (refill now (fst (get_bucket now caller rl))))
     \<and> (\<not> rl_enabled rl \<longrightarrow> ok \<and> rl' = rl)"
  using assms
  by (auto simp: is_allowed_def get_bucket_def consume_def Let_def update_conv' split: if_splits option.splits)

theorem rate_limit_per_caller_witness:
  "let rl = \<lparr>rl_enabled = True, rl_callers = [], rl_default = \<lparr>cl_capacity = Some 1, cl_fill_rate = None\<rparr>, rl_buckets = []\<rparr>;
       (rl', ok) = is_allowed 0 ''a'' rl
   in ok \<and> map_of (rl_buckets rl') ''b'' = None"
proof -
  let ?rl = "\<lparr>rl_enabled = True, rl_callers = [], rl_default = \<lparr>cl_capacity = Some 1, cl_fill_rate = None\<rparr>, rl_buckets = []\<rparr>"
  obtain rl' ok where a: "is_allowed 0 ''a'' ?rl = (rl', ok)" by fastforce
  moreover have "ok" using a by (auto simp: is_allowed_def get_bucket_def consume_def refill_def new_bucket_def Let_def)
  ultimately show ?thesis using rate_limit_per_caller [OF a, of "''b''"] by simp
qed

end
