(* ===== verification/Callback_Service.thy ===== *)
theory Callback_Service
  imports Store Resilience
begin

text \<open>
  \<^verbatim>\<open>CallbackService\<close> (\<^verbatim>\<open>src/orchestration/callback_service.py\<close>): preparing a delivery when a
  run ends, sending it with retries, the background dispatcher and the operator's resend.
  The HTTP client, the outbound policy, the hooks and everything other workers do while a
  call is suspended are parameters collected in \<open>delivery_env\<close>; clock readings are numbered.
  The request signature is a parameter too, so the body is represented by the payload.
\<close>

section \<open>Configuration\<close>

record callback_service =
  cs_timeout_seconds :: rat
  cs_max_attempts :: int
  cs_backoff_seconds :: rat
  cs_backoff_type :: string
  cs_signing_secret :: "string option"
  cs_url_allowlist :: "string list"
  cs_worker_id :: string

definition cb_delay_for_attempt :: "callback_service \<Rightarrow> int \<Rightarrow> rat" where
  "cb_delay_for_attempt cs attempt =
     (if cs_backoff_type cs = ''exponential'' then cs_backoff_seconds cs * 2 powi (attempt - 1)
      else cs_backoff_seconds cs * of_int attempt)"

text \<open>
  \<^verbatim>\<open>reconfigure\<close>: numbers are converted in the order of the code, so a bad value leaves the
  settings before it replaced and the ones after it alone. \<open>secret = None\<close> is the default
  argument \<^verbatim>\<open>_UNSET\<close>.
\<close>

definition cb_reconfigure ::
    "(json \<Rightarrow> string) \<Rightarrow> dict \<Rightarrow> string list \<Rightarrow> string option option \<Rightarrow> callback_service \<Rightarrow> callback_service \<times> (py_exc + unit)" where
  "cb_reconfigure py_str settings allowlist secret cs =
     (case py_float (dict_get_or ''timeout_seconds'' (JNum 10) settings) of Inl e \<Rightarrow> (cs, Inl e)
      | Inr t \<Rightarrow> let cs1 = cs\<lparr>cs_timeout_seconds := t\<rparr> in
      case py_int (dict_get_or ''max_attempts'' (JNum 3) settings) of Inl e \<Rightarrow> (cs1, Inl e)
      | Inr m \<Rightarrow> let cs2 = cs1\<lparr>cs_max_attempts := m\<rparr> in
      case py_float (dict_get_or ''backoff_seconds'' (JNum 1) settings) of Inl e \<Rightarrow> (cs2, Inl e)
      | Inr b \<Rightarrow> (cs2\<lparr>cs_backoff_seconds := b,
                      cs_backoff_type := py_str (dict_get_or ''backoff_type'' (JStr ''exponential'') settings),
                      cs_signing_secret := (case secret of None \<Rightarrow> cs_signing_secret cs | Some s \<Rightarrow> s),
                      cs_url_allowlist := allowlist\<rparr>, Inr ()))"

section \<open>Status of a run as seen by its caller\<close>

definition settled_status :: "agent_run \<Rightarrow> run_status" where
  "settled_status run =
     (if ar_status run \<notin> {AGENT_SUCCEEDED, WAITING_CALLBACK} then ar_status run
      else if ar_error_type run = Some RUN_TIMEOUT then TIMEOUT
      else if ar_error_type run \<noteq> None then FAILED
      else SUCCEEDED)"

definition run_event :: "agent_run \<Rightarrow> string" where
  "run_event run =
     (if ar_status run = WAITING_CALLBACK \<and> ar_error_type run \<noteq> None then ''failed''
      else if ar_status run \<in> {SUCCEEDED, AGENT_SUCCEEDED, WAITING_CALLBACK} then ''succeeded''
      else if ar_status run \<in> {FAILED, TIMEOUT} then ''failed''
      else if ar_status run = CANCELED then ''canceled''
      else ''unknown'')"

definition callback_url :: "agent_run \<Rightarrow> string option" where
  "callback_url run = (case ar_callback run of None \<Rightarrow> None
     | Some c \<Rightarrow> (case cc_url c of None \<Rightarrow> None | Some u \<Rightarrow> if u = [] then None else Some u))"

definition payload_of :: "datetime \<Rightarrow> agent_run \<Rightarrow> string \<Rightarrow> store \<Rightarrow> dict" where
  "payload_of now run event_id st =
     (let conv = (case ar_conversation_id run of None \<Rightarrow> None
                  | Some c \<Rightarrow> if c = [] then None else conversations_get c (s_conversations st));
          external_id = (case conv of None \<Rightarrow> ar_request_id run | Some c \<Rightarrow> cv_external_id c)
      in [(''event_id'', JStr event_id),
          (''external_id'', JStr external_id),
          (''request_id'', JStr (ar_request_id run)),
          (''conversation_id'', jopt (ar_conversation_id run)),
          (''run_id'', JStr (ar_run_id run)),
          (''route_tag'', JStr (ar_route_tag run)),
          (''status'', JStr (run_event run)),
          (''output'', case ar_output run of None \<Rightarrow> JNull | Some d \<Rightarrow> JObj d),
          (''agent_name'', jopt (map_option af_name (ar_agent run))),
          (''agent_version'', jopt (map_option af_version (ar_agent run))),
          (''finished_at'', JStr (isoformat (case ar_finish_time run of None \<Rightarrow> now | Some t \<Rightarrow> t)))])"

definition cb_log :: "datetime \<Rightarrow> agent_run \<Rightarrow> string \<Rightarrow> string \<Rightarrow> dict \<Rightarrow> store \<Rightarrow> store" where
  "cb_log now run event_type message data st =
     st\<lparr>s_logs := logs_add \<lparr>le_run_id = Some (ar_run_id run), le_trace_id = ar_trace_id run, le_component = ''callback'',
        le_event_type = event_type, le_level = ''INFO'', le_message = message, le_data = data, le_create_time = now\<rparr>
        (s_logs st)\<rparr>"

section \<open>Preparing a delivery\<close>

definition skip_callback :: "datetime \<Rightarrow> agent_run \<Rightarrow> store \<Rightarrow> store \<times> agent_run \<times> bool" where
  "skip_callback now run st =
     (let run' = run\<lparr>ar_callback_status := CB_SKIPPED,
            ar_status := (if ar_status run \<in> {AGENT_SUCCEEDED, WAITING_CALLBACK} then settled_status run else ar_status run)\<rparr>;
          (ok, rows) = update_if_current now run' (owner_guard {ar_status run} (ar_worker run)) (s_runs st)
      in (st\<lparr>s_runs := rows\<rparr>, run', ok))"

definition render_list :: "string list \<Rightarrow> string" where
  "render_list xs = ''['' @ concat (case xs of [] \<Rightarrow> [] | x # ys \<Rightarrow> py_repr x # map (\<lambda>y. '', '' @ py_repr y) ys) @ '']''"

definition new_delivery :: "(nat \<Rightarrow> datetime) \<Rightarrow> string \<Rightarrow> agent_run \<Rightarrow> string \<Rightarrow> dict \<Rightarrow> callback_delivery" where
  "new_delivery clk event_id run url payload =
     \<lparr>cd_event_id = event_id, cd_run_id = ar_run_id run, cd_trace_id = ar_trace_id run, cd_url = url,
      cd_status = CB_PENDING, cd_attempts = 0, cd_last_error = None, cd_run_after = clk 1, cd_worker = None,
      cd_lease_expire_time = None, cd_payload = payload, cd_create_time = clk 2, cd_update_time = clk 3\<rparr>"

text \<open>
  \<open>new_id\<close> is the fresh event id. The run object is updated in place even when the write is
  refused, so it is part of the result.
\<close>

definition prepare_for_run ::
    "(nat \<Rightarrow> datetime) \<Rightarrow> string \<Rightarrow> agent_run \<Rightarrow> store \<Rightarrow> store \<times> agent_run \<times> callback_delivery option" where
  "prepare_for_run clk new_id run st =
     (case callback_url run of
        None \<Rightarrow> (case skip_callback (clk 0) run st of (st', run', _) \<Rightarrow> (st', run', None))
      | Some url \<Rightarrow>
          let event = run_event run;
              configured = (case ar_callback run of None \<Rightarrow> [] | Some c \<Rightarrow> cc_events c);
              requested_events = (if configured = [] then [''succeeded'', ''failed''] else configured)
          in if event \<notin> set requested_events
             then (case skip_callback (clk 0) run st of (st', run', _) \<Rightarrow>
               (cb_log (clk 1) run' ''callback_skipped''
                  (''Callback event '' @ py_repr event @ '' not in requested events '' @ render_list requested_events)
                  [(''event'', JStr event), (''requested'', JList (map JStr requested_events))] st', run', None))
             else
               let event_id = (case ar_callback_event_id run of Some e \<Rightarrow> if e = [] then new_id else e | None \<Rightarrow> new_id);
                   run1 = run\<lparr>ar_callback_event_id := Some event_id\<rparr>;
                   payload = payload_of (clk 0) run1 event_id st;
                   delivery = (case callbacks_get event_id (s_callbacks st) of
                       Some d \<Rightarrow> d\<lparr>cd_url := url, cd_payload := (if cd_payload d \<noteq> [] then cd_payload d else payload)\<rparr>
                     | None \<Rightarrow> new_delivery clk event_id run1 url payload);
                   delivery' = delivery\<lparr>cd_run_after := clk 4, cd_worker := None, cd_lease_expire_time := None\<rparr>;
                   run2 = run1\<lparr>ar_callback_status := CB_PENDING,
                     ar_status := (if ar_status run1 \<in> {AGENT_SUCCEEDED, SUCCEEDED} then WAITING_CALLBACK else ar_status run1)\<rparr>
               in (case update_run_with_callback (clk 5) (clk 6) run2 (Some delivery')
                     (Some (owner_guard {ar_status run} (ar_worker run))) st of
                     (st', ok) \<Rightarrow> (st', run2, if ok then Some delivery' else None)))"

lemma skip_status: "(if ar_status run \<in> {AGENT_SUCCEEDED, WAITING_CALLBACK} then settled_status run else ar_status run) = settled_status run"
  by (simp add: settled_status_def)

section \<open>Sending\<close>

text \<open>
  What a dispatch meets outside: the outbound policy, the HTTP exchange up to and including
  \<^verbatim>\<open>raise_for_status\<close> (its result is the outcome of \<^verbatim>\<open>response.json()\<close>), the hooks, and what
  happens during the backoff sleep. \<open>de_clk\<close> gives the clock readings of an attempt.
\<close>

record delivery_env =
  de_validate_url :: "string \<Rightarrow> py_exc + unit"
  de_sign :: "string \<Rightarrow> dict \<Rightarrow> string"
  de_post :: "int \<Rightarrow> string \<Rightarrow> dict \<Rightarrow> (string \<times> string) list \<Rightarrow> store \<Rightarrow> store \<times> (py_exc + (py_exc + json))"
  de_hook_start :: "string \<Rightarrow> store \<Rightarrow> store \<times> py_exc option"
  de_hook_end :: "string \<Rightarrow> bool \<Rightarrow> store \<Rightarrow> store \<times> py_exc option"
  de_sleep :: "int \<Rightarrow> store \<Rightarrow> store"
  de_clk :: "int \<Rightarrow> nat \<Rightarrow> datetime"
  de_str :: "json \<Rightarrow> string"

definition validate_url :: "delivery_env \<Rightarrow> string \<Rightarrow> py_exc + unit" where
  "validate_url env url =
     (case de_validate_url env url of Inl (OutboundPolicyError m) \<Rightarrow> Inl (ValueError m) | r \<Rightarrow> r)"

definition callback_headers :: "delivery_env \<Rightarrow> callback_service \<Rightarrow> dict \<Rightarrow> (string \<times> string) list" where
  "callback_headers env cs payload =
     [(''Content-Type'', ''application/json'')] @
     (case cs_signing_secret cs of Some k \<Rightarrow> if k = [] then [] else [(''X-Agent-Run-Signature'', de_sign env k payload)]
      | None \<Rightarrow> [])"

definition validate_ack :: "(json \<Rightarrow> string) \<Rightarrow> py_exc + json \<Rightarrow> py_exc + unit" where
  "validate_ack py_str response =
     (case response of
        Inl _ \<Rightarrow> Inl (ValueError ''Callback ack must be JSON'')
      | Inr (JObj d) \<Rightarrow>
          if map_of d ''ackStatus'' = Some (JStr ''RECEIVED'') then Inr ()
          else Inl (ValueError (''Callback ack must be ackStatus=RECEIVED, got ackStatus='' @ py_str (dict_get_or ''ackStatus'' JNull d)
                 @ '' reason='' @ py_str (dict_get_or ''reason'' JNull d)))
      | Inr _ \<Rightarrow> Inl (ValueError (''Callback ack must be ackStatus=RECEIVED, got ackStatus='' @ py_str JNull
                 @ '' reason='' @ py_str JNull)))"

type_synonym delivery_state = "store \<times> agent_run \<times> callback_delivery"

text \<open>The \<^verbatim>\<open>try\<close> block of one attempt.\<close>

definition deliver_once ::
    "delivery_env \<Rightarrow> callback_service \<Rightarrow> dict \<Rightarrow> int \<Rightarrow> delivery_state \<Rightarrow> delivery_state \<times> (py_exc + unit)" where
  "deliver_once env cs payload attempt ds =
     (case ds of (st, run, delivery) \<Rightarrow>
      case validate_url env (cd_url delivery) of Inl e \<Rightarrow> ((st, run, delivery), Inl e)
      | Inr _ \<Rightarrow>
      case de_post env attempt (cd_url delivery) payload (callback_headers env cs payload) st of
        (st1, Inl e) \<Rightarrow> ((st1, run, delivery), Inl e)
      | (st1, Inr response) \<Rightarrow>
      case validate_ack (de_str env) response of Inl e \<Rightarrow> ((st1, run, delivery), Inl e)
      | Inr _ \<Rightarrow>
        let clk = de_clk env attempt;
            delivery' = delivery\<lparr>cd_status := CB_DELIVERED, cd_last_error := None, cd_worker := None, cd_lease_expire_time := None\<rparr>;
            run' = run\<lparr>ar_callback_status := CB_DELIVERED, ar_status := settled_status run,
                       ar_finish_time := (case ar_finish_time run of None \<Rightarrow> Some (clk 0) | Some t \<Rightarrow> Some t)\<rparr>;
            (st2, ok) = update_run_with_callback (clk 1) (clk 2) run' (Some delivery') (Some (status_guard {ar_status run})) st1;
            st3 = (if ok then st2 else st2\<lparr>s_callbacks := callbacks_save (clk 2) delivery' (s_callbacks st2)\<rparr>);
            st4 = cb_log (clk 3) run' ''callback_delivered'' ''Callback delivered''
                    [(''event_id'', JStr (cd_event_id delivery')), (''attempt'', JNum (of_int attempt))] st3
        in (case de_hook_end env (cd_url delivery') True st4 of
              (st5, None) \<Rightarrow> ((st5, run', delivery'), Inr ())
            | (st5, Some e) \<Rightarrow> ((st5, run', delivery'), Inl e)))"

text \<open>The \<^verbatim>\<open>except Exception\<close> block.\<close>

definition delivery_failed ::
    "delivery_env \<Rightarrow> callback_service \<Rightarrow> int \<Rightarrow> py_exc \<Rightarrow> delivery_state \<Rightarrow> delivery_state" where
  "delivery_failed env cs attempt e ds =
     (case ds of (st, run, delivery) \<Rightarrow>
      let clk = de_clk env attempt;
          delivery' = delivery\<lparr>cd_status := CB_FAILED, cd_last_error := Some (exc_text e),
             cd_run_after := clk 4 + timedelta_seconds (cb_delay_for_attempt cs attempt)\<rparr>;
          st1 = st\<lparr>s_callbacks := callbacks_save (clk 5) delivery' (s_callbacks st)\<rparr>;
          st2 = cb_log (clk 6) run ''callback_failed'' ''Callback delivery failed''
                  [(''event_id'', JStr (cd_event_id delivery')), (''attempt'', JNum (of_int attempt)),
                   (''error'', jopt (cd_last_error delivery'))] st1
      in (if attempt < cs_max_attempts cs then de_sleep env attempt st2 else st2, run, delivery'))"

definition delivery_exhausted ::
    "delivery_env \<Rightarrow> callback_service \<Rightarrow> delivery_state \<Rightarrow> store \<times> (py_exc + callback_delivery)" where
  "delivery_exhausted env cs ds =
     (case ds of (st, run, delivery) \<Rightarrow>
      let clk = de_clk env (cs_max_attempts cs + 1);
          run' = run\<lparr>ar_callback_status := CB_FAILED\<rparr>;
          st1 = st\<lparr>s_runs := snd (update_if_current (clk 0) run' (status_guard {ar_status run}) (s_runs st))\<rparr>;
          delivery' = delivery\<lparr>cd_worker := None, cd_lease_expire_time := None\<rparr>;
          st2 = st1\<lparr>s_callbacks := callbacks_save (clk 1) delivery' (s_callbacks st1)\<rparr>
      in (case de_hook_end env (cd_url delivery') False st2 of
            (st3, None) \<Rightarrow> (st3, Inr delivery') | (st3, Some e) \<Rightarrow> (st3, Inl e)))"

fun dispatch_loop ::
    "delivery_env \<Rightarrow> callback_service \<Rightarrow> dict \<Rightarrow> int list \<Rightarrow> delivery_state \<Rightarrow> store \<times> (py_exc + callback_delivery)" where
  "dispatch_loop env cs payload [] ds = delivery_exhausted env cs ds"
| "dispatch_loop env cs payload (attempt # rest) (st, run, delivery) =
     (case deliver_once env cs payload attempt (st, run, delivery\<lparr>cd_attempts := attempt\<rparr>) of
        ((st', run', delivery'), Inr _) \<Rightarrow> (st', Inr delivery')
      | ((st', run', delivery'), Inl e) \<Rightarrow>
          if e = CancelledError then (st', Inl e)
          else dispatch_loop env cs payload rest (delivery_failed env cs attempt e (st', run', delivery')))"

definition dispatch_delivery ::
    "delivery_env \<Rightarrow> callback_service \<Rightarrow> callback_delivery \<Rightarrow> store \<Rightarrow> store \<times> (py_exc + callback_delivery)" where
  "dispatch_delivery env cs delivery st =
     (case runs_get (cd_run_id delivery) (s_runs st) of
        None \<Rightarrow> (st, Inl (KeyError (''Unknown callback run_id '' @ py_repr (cd_run_id delivery))))
      | Some run \<Rightarrow>
          let payload = (if cd_payload delivery \<noteq> [] then cd_payload delivery
                         else payload_of (de_clk env 0 0) run (cd_event_id delivery) st)
          in (case de_hook_start env (cd_url delivery) st of
                (st1, Some e) \<Rightarrow> (st1, Inl e)
              | (st1, None) \<Rightarrow>
                  dispatch_loop env cs payload [cd_attempts delivery + 1 .. cs_max_attempts cs] (st1, run, delivery)))"

definition dispatch_for_run ::
    "delivery_env \<Rightarrow> callback_service \<Rightarrow> (nat \<Rightarrow> datetime) \<Rightarrow> string \<Rightarrow> agent_run \<Rightarrow> store
     \<Rightarrow> store \<times> (py_exc + callback_delivery option)" where
  "dispatch_for_run env cs clk new_id run st =
     (case prepare_for_run clk new_id run st of
        (st1, _, None) \<Rightarrow> (st1, Inr None)
      | (st1, _, Some d) \<Rightarrow> (case dispatch_delivery env cs d st1 of
            (st2, Inl e) \<Rightarrow> (st2, Inl e) | (st2, Inr d') \<Rightarrow> (st2, Inr (Some d'))))"

text \<open>
  The claimed deliveries are sent concurrently; here one after the other, the overlap being
  what \<open>de_post\<close> and \<open>de_sleep\<close> do to the store. The first exception leaves the gather, the
  other deliveries still run.
\<close>

definition dispatch_lease :: "callback_service \<Rightarrow> rat option \<Rightarrow> rat" where
  "dispatch_lease cs lease_seconds =
     (case lease_seconds of Some l \<Rightarrow> if l \<noteq> 0 then l else max (cs_timeout_seconds cs * of_int (cs_max_attempts cs) + 5) 30
      | None \<Rightarrow> max (cs_timeout_seconds cs * of_int (cs_max_attempts cs) + 5) 30)"

definition dispatch_pending ::
    "(string \<Rightarrow> delivery_env) \<Rightarrow> callback_service \<Rightarrow> datetime \<Rightarrow> int \<Rightarrow> string option \<Rightarrow> rat option \<Rightarrow> store \<Rightarrow> store \<times> (py_exc + int)" where
  "dispatch_pending env cs now limit worker_id lease_seconds st =
     (let worker = (case worker_id of Some w \<Rightarrow> if w = [] then cs_worker_id cs else w | None \<Rightarrow> cs_worker_id cs);
          (deliveries, rows) = claim_pending now worker (dispatch_lease cs lease_seconds) (Some (cs_max_attempts cs)) limit (s_callbacks st);
          (st', results) = fold (\<lambda>d (s, rs). case dispatch_delivery (env (cd_event_id d)) cs d s of (s', r) \<Rightarrow> (s', rs @ [r]))
                             deliveries (st\<lparr>s_callbacks := rows\<rparr>, [])
      in (st', case find (\<lambda>r. case r of Inl _ \<Rightarrow> True | Inr _ \<Rightarrow> False) results of
            Some (Inl e) \<Rightarrow> Inl e | _ \<Rightarrow> Inr (int (length results))))"

definition resend ::
    "delivery_env \<Rightarrow> callback_service \<Rightarrow> (nat \<Rightarrow> datetime) \<Rightarrow> string \<Rightarrow> agent_run \<Rightarrow> store \<Rightarrow> store \<times> (py_exc + callback_delivery option)" where
  "resend env cs clk new_id run st =
     (let st1 = (case ar_callback_event_id run of
            None \<Rightarrow> st
          | Some e \<Rightarrow> if e = [] then st else
              (case callbacks_get e (s_callbacks st) of
                 None \<Rightarrow> st
               | Some d \<Rightarrow> st\<lparr>s_callbacks := callbacks_save (clk 8)
                    (d\<lparr>cd_status := CB_PENDING, cd_attempts := 0, cd_last_error := None, cd_run_after := clk 7,
                       cd_worker := None, cd_lease_expire_time := None\<rparr>) (s_callbacks st)\<rparr>))
      in dispatch_for_run env cs clk new_id run st1)"

section \<open>The business outcome survives notification\<close>

text \<open>Nobody else writes runs while a delivery is under way.\<close>

definition quiet_env :: "delivery_env \<Rightarrow> bool" where
  "quiet_env env =
     ((\<forall>a u p h st. s_runs (fst (de_post env a u p h st)) = s_runs st)
      \<and> (\<forall>u st. s_runs (fst (de_hook_start env u st)) = s_runs st)
      \<and> (\<forall>u b st. s_runs (fst (de_hook_end env u b st)) = s_runs st)
      \<and> (\<forall>a st. s_runs (de_sleep env a st) = s_runs st))"

definition same_outcome :: "agent_run \<Rightarrow> agent_run \<Rightarrow> bool" where
  "same_outcome r x = (ar_run_id x = ar_run_id r \<and> ar_output x = ar_output r \<and> ar_error_type x = ar_error_type r
     \<and> ar_error_message x = ar_error_message r \<and> ar_status x \<in> {ar_status r, settled_status r})"

lemma settled_same_outcome: "same_outcome r x \<Longrightarrow> settled_status x = settled_status r"
  by (auto simp: same_outcome_def settled_status_def)

definition row_tracks :: "agent_run \<Rightarrow> store \<Rightarrow> agent_run \<Rightarrow> bool" where
  "row_tracks r st run = (keys_distinct ar_run_id (s_runs st) \<and> same_outcome r run
     \<and> (\<exists>x. runs_get (ar_run_id r) (s_runs st) = Some x \<and> ar_status x = ar_status run \<and> same_outcome r x))"

lemma cb_log_runs [simp]: "s_runs (cb_log now run ev m d st) = s_runs st" "s_callbacks (cb_log now run ev m d st) = s_callbacks st"
  by (simp_all add: cb_log_def)

lemma row_tracks_runs: "row_tracks r st run \<Longrightarrow> s_runs st' = s_runs st \<Longrightarrow> row_tracks r st' run"
  by (simp add: row_tracks_def)

text \<open>A write guarded by the run's own status reaches the row it tracks.\<close>

lemma row_tracks_update:
  assumes "row_tracks r st run" and "same_outcome r run'"
    and "s_runs st' = snd (update_if_current now run' (status_guard {ar_status run}) (s_runs st))"
  shows "row_tracks r st' run' \<and> fst (update_if_current now run' (status_guard {ar_status run}) (s_runs st))
     \<and> runs_get (ar_run_id r) (s_runs st') = Some (run'\<lparr>ar_update_time := now\<rparr>)"
proof -
  have wf: "keys_distinct ar_run_id (s_runs st)" and id: "ar_run_id run' = ar_run_id r"
    using assms(1,2) by (simp_all add: row_tracks_def same_outcome_def)
  have win: "fst (update_if_current now run' (status_guard {ar_status run}) (s_runs st))"
    using assms(1) id run_cas.cas_wins_iff [OF wf, of now run' "status_guard {ar_status run}"]
    by (auto simp: row_tracks_def)
  have get: "runs_get (ar_run_id r) (s_runs st') = Some (run'\<lparr>ar_update_time := now\<rparr>)"
    using run_cas.cas_stores [OF wf win] id by (simp add: assms(3))
  moreover have "keys_distinct ar_run_id (s_runs st')" using run_cas.invar_cas [OF wf] by (simp add: assms(3))
  ultimately show ?thesis using win assms(2) by (simp add: row_tracks_def same_outcome_def settled_status_def)
qed

lemma update_run_with_callback_runs:
  "s_runs (fst (update_run_with_callback now now' run d (Some g) st)) = snd (update_if_current now run g (s_runs st))
     \<and> snd (update_run_with_callback now now' run d (Some g) st) = fst (update_if_current now run g (s_runs st))"
  if "keys_distinct ar_run_id (s_runs st)"
  using run_cas.cas_loses [OF that, of now run g]
  by (auto simp: update_run_with_callback_def split: prod.splits)

lemma deliver_once_tracks:
  assumes q: "quiet_env env" and t: "row_tracks r st run"
    and d: "deliver_once env cs payload attempt (st, run, delivery) = ((st', run', delivery'), res)"
  shows "row_tracks r st' run' \<and> cd_attempts delivery' = cd_attempts delivery
     \<and> (res = Inr () \<longrightarrow> cd_status delivery' = CB_DELIVERED
         \<and> (\<exists>x. runs_get (ar_run_id r) (s_runs st') = Some x \<and> ar_status x = settled_status r \<and> ar_callback_status x = CB_DELIVERED))"
proof (cases "validate_url env (cd_url delivery)")
  case (Inl e)
  with d t show ?thesis by (auto simp: deliver_once_def)
next
  case url: (Inr u)
  obtain st1 pr where p: "de_post env attempt (cd_url delivery) payload (callback_headers env cs payload) st = (st1, pr)" by fastforce
  have s1: "s_runs st1 = s_runs st" using q p unfolding quiet_env_def by (metis fst_conv)
  show ?thesis
  proof (cases "\<exists>response. pr = Inr response \<and> validate_ack (de_str env) response = Inr ()")
    case False
    with d url p have "st' = st1" "run' = run" "delivery' = delivery" "res \<noteq> Inr ()"
      by (auto simp: deliver_once_def split: sum.splits)
    with t s1 show ?thesis by (simp add: row_tracks_def)
  next
    case True
    let ?clk = "de_clk env attempt"
    let ?d = "delivery\<lparr>cd_status := CB_DELIVERED, cd_last_error := None, cd_worker := None, cd_lease_expire_time := None\<rparr>"
    let ?r = "run\<lparr>ar_callback_status := CB_DELIVERED, ar_status := settled_status run,
       ar_finish_time := (case ar_finish_time run of None \<Rightarrow> Some (?clk 0) | Some t \<Rightarrow> Some t)\<rparr>"
    obtain st2 ok where u: "update_run_with_callback (?clk 1) (?clk 2) ?r (Some ?d) (Some (status_guard {ar_status run})) st1 = (st2, ok)"
      by fastforce
    have t1: "row_tracks r st1 run" using t s1 by (rule row_tracks_runs)
    have o: "same_outcome r ?r" using t settled_same_outcome [of r run] by (simp add: row_tracks_def same_outcome_def)
    have "s_runs st2 = snd (update_if_current (?clk 1) ?r (status_guard {ar_status run}) (s_runs st1))"
      and ok: "ok = fst (update_if_current (?clk 1) ?r (status_guard {ar_status run}) (s_runs st1))"
      using update_run_with_callback_runs [of st1 "?clk 1" "?clk 2" ?r "Some ?d" "status_guard {ar_status run}"] t1 u
      by (simp_all add: row_tracks_def)
    note t2 = row_tracks_update [OF t1 o this(1)]
    have "run' = ?r" "delivery' = ?d" and "s_runs st' = s_runs st2"
      using d url p True u q t2 ok unfolding deliver_once_def quiet_env_def Let_def
      by (auto split: prod.splits option.splits) (metis fst_conv cb_log_runs(1))+
    with t2 settled_same_outcome [of r run] t show ?thesis
      by (auto simp: row_tracks_def)
  qed
qed

lemma delivery_failed_tracks:
  assumes "quiet_env env" and "row_tracks r st run"
    and "delivery_failed env cs attempt e (st, run, delivery) = (st', run', delivery')"
  shows "row_tracks r st' run' \<and> cd_attempts delivery' = cd_attempts delivery \<and> cd_status delivery' = CB_FAILED"
  using assms by (auto simp: delivery_failed_def Let_def quiet_env_def row_tracks_def split: if_splits)

definition settled_result :: "agent_run \<Rightarrow> store \<times> (py_exc + callback_delivery) \<Rightarrow> bool" where
  "settled_result r sr = (\<exists>x. runs_get (ar_run_id r) (s_runs (fst sr)) = Some x \<and> same_outcome r x
     \<and> (\<forall>d. snd sr = Inr d \<and> cd_status d = CB_DELIVERED \<longrightarrow> ar_status x = settled_status r \<and> ar_callback_status x = CB_DELIVERED))"

lemma delivery_exhausted_tracks:
  assumes q: "quiet_env env" and t: "row_tracks r st run" and "cd_status delivery \<noteq> CB_DELIVERED"
  shows "settled_result r (delivery_exhausted env cs (st, run, delivery))
     \<and> (\<forall>d. snd (delivery_exhausted env cs (st, run, delivery)) = Inr d \<longrightarrow>
           cd_attempts d = cd_attempts delivery \<and> cd_status d = cd_status delivery)"
proof -
  let ?clk = "de_clk env (cs_max_attempts cs + 1)"
  let ?st1 = "st\<lparr>s_runs := snd (update_if_current (?clk 0) (run\<lparr>ar_callback_status := CB_FAILED\<rparr>) (status_guard {ar_status run}) (s_runs st))\<rparr>"
  have o: "same_outcome r (run\<lparr>ar_callback_status := CB_FAILED\<rparr>)" using t by (simp add: row_tracks_def same_outcome_def)
  have t1: "row_tracks r ?st1 (run\<lparr>ar_callback_status := CB_FAILED\<rparr>)"
    using row_tracks_update [OF t o, of ?st1 "?clk 0"] by simp
  obtain st3 h where h: "de_hook_end env (cd_url delivery) False (?st1\<lparr>s_callbacks := callbacks_save (?clk 1)
      (delivery\<lparr>cd_worker := None, cd_lease_expire_time := None\<rparr>) (s_callbacks ?st1)\<rparr>) = (st3, h)" by fastforce
  have "s_runs (fst (de_hook_end env (cd_url delivery) False st'')) = s_runs st''" for st''
    using q unfolding quiet_env_def by blast
  from this [of "?st1\<lparr>s_callbacks := callbacks_save (?clk 1)
      (delivery\<lparr>cd_worker := None, cd_lease_expire_time := None\<rparr>) (s_callbacks ?st1)\<rparr>"]
  have "s_runs st3 = s_runs ?st1" unfolding h by simp
  with t1 h assms(3) show ?thesis
    by (auto simp: delivery_exhausted_def Let_def settled_result_def row_tracks_def split: option.splits)
qed

lemma dispatch_loop_tracks:
  assumes q: "quiet_env env"
  shows "row_tracks r st run \<Longrightarrow> (attempts = [] \<Longrightarrow> cd_status delivery \<noteq> CB_DELIVERED) \<Longrightarrow>
     settled_result r (dispatch_loop env cs payload attempts (st, run, delivery))
     \<and> (\<forall>d. snd (dispatch_loop env cs payload attempts (st, run, delivery)) = Inr d \<longrightarrow>
          cd_attempts d \<in> set (cd_attempts delivery # attempts)
          \<and> (cd_status d \<noteq> CB_DELIVERED \<longrightarrow> cd_attempts d = last (cd_attempts delivery # attempts)))"
proof (induction attempts arbitrary: st run delivery)
  case Nil
  then show ?case using delivery_exhausted_tracks [OF q Nil.prems(1)] by simp
next
  case (Cons attempt rest)
  obtain ds res where "deliver_once env cs payload attempt (st, run, delivery\<lparr>cd_attempts := attempt\<rparr>) = (ds, res)" by fastforce
  then obtain st1 run1 d1 where
    o: "deliver_once env cs payload attempt (st, run, delivery\<lparr>cd_attempts := attempt\<rparr>) = ((st1, run1, d1), res)"
    by (cases ds) auto
  note once = deliver_once_tracks [OF q Cons.prems(1) o]
  show ?case
  proof (cases res)
    case (Inr u)
    with o once show ?thesis by (auto simp: settled_result_def row_tracks_def)
  next
    case (Inl e)
    show ?thesis
    proof (cases "e = CancelledError")
      case True
      with o Inl once show ?thesis by (auto simp: settled_result_def row_tracks_def)
    next
      case False
      obtain st2 run2 d2 where f: "delivery_failed env cs attempt e (st1, run1, d1) = (st2, run2, d2)" by (metis prod_cases3)
      have t2: "row_tracks r st2 run2" "cd_attempts d2 = attempt" "cd_status d2 = CB_FAILED"
        using delivery_failed_tracks [OF q _ f] once by auto
      with Cons.IH [OF t2(1), of d2] o Inl False f show ?thesis by (auto split: if_splits)
    qed
  qed
qed

lemma dispatch_delivery_tracks:
  assumes q: "quiet_env env" and wf: "keys_distinct ar_run_id (s_runs st)"
    and r: "runs_get (cd_run_id delivery) (s_runs st) = Some r" and nd: "cd_status delivery \<noteq> CB_DELIVERED"
    and d: "dispatch_delivery env cs delivery st = (st', Inr d)"
  shows "settled_result r (st', Inr d)
     \<and> cd_attempts d \<le> max (cd_attempts delivery) (cs_max_attempts cs)
     \<and> (cd_status d \<noteq> CB_DELIVERED \<longrightarrow> cd_attempts d = max (cd_attempts delivery) (cs_max_attempts cs))"
proof -
  obtain st1 where h: "de_hook_start env (cd_url delivery) st = (st1, None)"
    using d r by (auto simp: dispatch_delivery_def Let_def split: prod.splits option.splits)
  have s1: "s_runs st1 = s_runs st" using q h unfolding quiet_env_def by (metis fst_conv)
  have id: "ar_run_id r = cd_run_id delivery" using runs_get_SomeD [OF r] by simp
  have "row_tracks r st1 r" using wf r s1 id by (simp add: row_tracks_def same_outcome_def)
  let ?as = "[cd_attempts delivery + 1 .. cs_max_attempts cs]"
  obtain payload where l: "dispatch_loop env cs payload ?as (st1, r, delivery) = (st', Inr d)"
    using d r h by (auto simp: dispatch_delivery_def Let_def)
  have "last (cd_attempts delivery # ?as) = max (cd_attempts delivery) (cs_max_attempts cs)"
    by (auto simp: max_def upto_rec2)
  moreover have "settled_result r (st', Inr d) \<and> cd_attempts d \<in> set (cd_attempts delivery # ?as)
      \<and> (cd_status d \<noteq> CB_DELIVERED \<longrightarrow> cd_attempts d = last (cd_attempts delivery # ?as))"
    using dispatch_loop_tracks [OF q \<open>row_tracks r st1 r\<close>, of ?as delivery cs payload] nd unfolding l snd_conv by blast
  ultimately show ?thesis by (auto simp: max_def)
qed

lemma callback_get_id: "callbacks_get e rows = Some d \<Longrightarrow> cd_event_id d = e"
  unfolding callbacks_get_def using row_get_SomeD by fastforce

lemma update_run_with_callback_both:
  assumes wf: "keys_distinct ar_run_id (s_runs st)"
    and u: "update_run_with_callback now now' run (Some d) (Some g) st = (st', ok)" and ok
  shows "runs_get (ar_run_id run) (s_runs st') = Some (run\<lparr>ar_update_time := now\<rparr>)"
    "callbacks_get (cd_event_id d) (s_callbacks st') = Some (d\<lparr>cd_update_time := now'\<rparr>)"
proof -
  have win: "fst (update_if_current now run g (s_runs st))" and runs: "s_runs st' = snd (update_if_current now run g (s_runs st))"
    using update_run_with_callback_runs [OF wf, of now now' run "Some d" g] u \<open>ok\<close> by simp_all
  show "runs_get (ar_run_id run) (s_runs st') = Some (run\<lparr>ar_update_time := now\<rparr>)"
    unfolding runs by (rule run_cas.cas_stores [OF wf win])
  have "s_callbacks st' = callbacks_save now' d (s_callbacks st)"
    using u \<open>ok\<close> by (auto simp: update_run_with_callback_def split: prod.splits if_splits)
  then show "callbacks_get (cd_event_id d) (s_callbacks st') = Some (d\<lparr>cd_update_time := now'\<rparr>)"
    by (simp add: callback_repo.get_put_same)
qed

text \<open>What preparing does to the run table: one guarded write of the run object it leaves.\<close>

definition prepared_from :: "agent_run \<Rightarrow> agent_run \<Rightarrow> bool" where
  "prepared_from run run' = (\<exists>e c s. run' = run\<lparr>ar_callback_event_id := e, ar_callback_status := c, ar_status := s\<rparr>
     \<and> s \<in> {settled_status run, if ar_status run \<in> {AGENT_SUCCEEDED, SUCCEEDED} then WAITING_CALLBACK else ar_status run})"

lemma skip_callback_runs:
  assumes "skip_callback now run st = (st', run', ok)"
  shows "s_runs st' = snd (update_if_current now run' (owner_guard {ar_status run} (ar_worker run)) (s_runs st)) \<and> prepared_from run run'"
proof -
  let ?r = "run\<lparr>ar_callback_event_id := ar_callback_event_id run, ar_callback_status := CB_SKIPPED, ar_status := settled_status run\<rparr>"
  have e: "?r = run\<lparr>ar_callback_status := CB_SKIPPED, ar_status := settled_status run\<rparr>" by simp
  have "skip_callback now run st =
      (st\<lparr>s_runs := snd (update_if_current now ?r (owner_guard {ar_status run} (ar_worker run)) (s_runs st))\<rparr>, ?r,
       fst (update_if_current now ?r (owner_guard {ar_status run} (ar_worker run)) (s_runs st)))"
    unfolding skip_callback_def skip_status Let_def e by (simp only: split_beta)
  with assms have r: "run' = ?r" and s: "st' = st\<lparr>s_runs := snd (update_if_current now ?r (owner_guard {ar_status run} (ar_worker run)) (s_runs st))\<rparr>"
    by (metis prod.inject)+
  have "prepared_from run ?r" unfolding prepared_from_def by blast
  then show ?thesis unfolding r s by simp
qed

lemma prepare_for_run_runs:
  assumes wf: "keys_distinct ar_run_id (s_runs st)" and p: "prepare_for_run clk new_id run st = (st', run', res)"
  shows "(\<exists>t. s_runs st' = snd (update_if_current t run' (owner_guard {ar_status run} (ar_worker run)) (s_runs st))) \<and> prepared_from run run'"
proof (cases "\<exists>url. callback_url run = Some url \<and>
      run_event run \<in> set (if (case ar_callback run of None \<Rightarrow> [] | Some c \<Rightarrow> cc_events c) = [] then [''succeeded'', ''failed'']
        else (case ar_callback run of None \<Rightarrow> [] | Some c \<Rightarrow> cc_events c))")
  case False
  obtain st1 run1 ok where s: "skip_callback (clk 0) run st = (st1, run1, ok)" by (metis prod_cases3)
  with False p have "run' = run1" "s_runs st' = s_runs st1"
    by (auto simp: prepare_for_run_def Let_def split: option.splits)
  with skip_callback_runs [OF s] show ?thesis by metis
next
  case True
  then obtain url where url: "callback_url run = Some url" by blast
  define eid where "eid = (case ar_callback_event_id run of Some e \<Rightarrow> if e = [] then new_id else e | None \<Rightarrow> new_id)"
  define r1 where "r1 = run\<lparr>ar_callback_event_id := Some eid\<rparr>"
  define d0 where "d0 = (case callbacks_get eid (s_callbacks st) of
        Some d \<Rightarrow> d\<lparr>cd_url := url, cd_payload := (if cd_payload d \<noteq> [] then cd_payload d else payload_of (clk 0) r1 eid st)\<rparr>
      | None \<Rightarrow> new_delivery clk eid r1 url (payload_of (clk 0) r1 eid st))"
  define d1 where "d1 = d0\<lparr>cd_run_after := clk 4, cd_worker := None, cd_lease_expire_time := None\<rparr>"
  define r2 where "r2 = r1\<lparr>ar_callback_status := CB_PENDING,
        ar_status := (if ar_status r1 \<in> {AGENT_SUCCEEDED, SUCCEEDED} then WAITING_CALLBACK else ar_status r1)\<rparr>"
  let ?g = "owner_guard {ar_status run} (ar_worker run)"
  obtain st1 ok where u: "update_run_with_callback (clk 5) (clk 6) r2 (Some d1) (Some ?g) st = (st1, ok)" by fastforce
  have "prepare_for_run clk new_id run st = (st1, r2, if ok then Some d1 else None)"
    using True url u unfolding prepare_for_run_def Let_def eid_def r1_def d0_def d1_def r2_def by simp
  with p have r: "run' = r2" and st: "st' = st1" by simp_all
  have "r2 = run\<lparr>ar_callback_event_id := Some eid, ar_callback_status := CB_PENDING,
      ar_status := (if ar_status run \<in> {AGENT_SUCCEEDED, SUCCEEDED} then WAITING_CALLBACK else ar_status run)\<rparr>"
    by (simp add: r2_def r1_def)
  then have "prepared_from run r2" unfolding prepared_from_def by blast
  moreover have "s_runs st1 = snd (update_if_current (clk 5) r2 ?g (s_runs st))"
    using update_run_with_callback_runs [OF wf, of "clk 5" "clk 6" r2 "Some d1" ?g] u by simp
  ultimately show ?thesis unfolding r st by blast
qed

section \<open>Properties\<close>


definition demo_env :: "bool \<Rightarrow> delivery_env" where
  "demo_env acked = \<lparr>de_validate_url = (\<lambda>_. Inr ()), de_sign = (\<lambda>_ _. []),
     de_post = (\<lambda>_ _ _ _ st. (st, Inr (Inr (JObj (if acked then [(''ackStatus'', JStr ''RECEIVED'')] else []))))),
     de_hook_start = (\<lambda>_ st. (st, None)), de_hook_end = (\<lambda>_ _ st. (st, None)), de_sleep = (\<lambda>_ st. st),
     de_clk = (\<lambda>_ _. 9), de_str = (\<lambda>_. ''None'')\<rparr>"

definition demo_service :: callback_service where
  "demo_service = \<lparr>cs_timeout_seconds = 10, cs_max_attempts = 2, cs_backoff_seconds = 1, cs_backoff_type = ''exponential'',
     cs_signing_secret = None, cs_url_allowlist = [], cs_worker_id = ''callback-dispatcher''\<rparr>"

definition demo_delivery :: callback_delivery where
  "demo_delivery = \<lparr>cd_event_id = ''E'', cd_run_id = ''R'', cd_trace_id = ''T'', cd_url = ''https://u'', cd_status = CB_PENDING,
     cd_attempts = 0, cd_last_error = None, cd_run_after = 0, cd_worker = None, cd_lease_expire_time = None,
     cd_payload = [(''status'', JStr ''failed'')], cd_create_time = 0, cd_update_time = 0\<rparr>"

definition demo_store :: "agent_run \<Rightarrow> callback_delivery list \<Rightarrow> store" where
  "demo_store r ds = \<lparr>s_runs = [r], s_stages = [], s_conversations = [], s_logs = [], s_callbacks = ds, s_model_calls = []\<rparr>"

lemmas demo_defs = demo_env_def demo_service_def demo_delivery_def demo_store_def new_agent_run_def


text \<open>
  Finishing a run records its callback with it. When the run's row is still in the state
  the caller saw, preparing leaves the run and, if a callback was requested for the event,
  a delivery for it in one write: a successful run waits for the callback, a failed one stays
  failed, and a new delivery is immediately claimable by the dispatcher; without a requested
  callback the run settles at once and is marked skipped.
\<close>

theorem prepare_records_callback:
  assumes wf: "keys_distinct ar_run_id (s_runs st)" and x: "runs_get (ar_run_id run) (s_runs st) = Some x"
    and cur: "ar_status x = ar_status run" "ar_worker x = ar_worker run"
    and p: "prepare_for_run clk new_id run st = (st', run', res)"
  shows "\<exists>y. runs_get (ar_run_id run) (s_runs st') = Some y \<and> ar_status y = ar_status run' \<and>
     (case res of
        None \<Rightarrow> ar_callback_status y = CB_SKIPPED \<and> ar_status y = settled_status run \<and> s_callbacks st' = s_callbacks st
      | Some d \<Rightarrow> ar_callback_status y = CB_PENDING \<and> ar_callback_event_id y = Some (cd_event_id d)
          \<and> callbacks_get (cd_event_id d) (s_callbacks st') = Some (d\<lparr>cd_update_time := clk 6\<rparr>)
          \<and> ar_status y = (if ar_status run \<in> {AGENT_SUCCEEDED, SUCCEEDED} then WAITING_CALLBACK else ar_status run)
          \<and> (ar_callback_event_id run = None \<and> callbacks_get new_id (s_callbacks st) = None \<longrightarrow> deliverable m (clk 4) d))"
proof -
  have skip: "\<exists>y. runs_get (ar_run_id run) (s_runs (fst (skip_callback now run st))) = Some y
      \<and> ar_status y = ar_status (fst (snd (skip_callback now run st))) \<and> ar_callback_status y = CB_SKIPPED
      \<and> ar_status y = settled_status run \<and> s_callbacks (fst (skip_callback now run st)) = s_callbacks st" for now
  proof -
    let ?r = "run\<lparr>ar_callback_status := CB_SKIPPED, ar_status := settled_status run\<rparr>"
    let ?g = "owner_guard {ar_status run} (ar_worker run)"
    have win: "fst (update_if_current now ?r ?g (s_runs st))" using run_cas.cas_wins_iff [OF wf, of now ?r ?g] x cur by simp
    then have "runs_get (ar_run_id run) (snd (update_if_current now ?r ?g (s_runs st))) = Some (?r\<lparr>ar_update_time := now\<rparr>)"
      using run_cas.cas_stores [OF wf win] by simp
    then show ?thesis unfolding skip_callback_def skip_status by (simp add: split_beta Let_def)
  qed
  show ?thesis
  proof (cases "\<exists>url. callback_url run = Some url \<and>
      run_event run \<in> set (if (case ar_callback run of None \<Rightarrow> [] | Some c \<Rightarrow> cc_events c) = [] then [''succeeded'', ''failed'']
        else (case ar_callback run of None \<Rightarrow> [] | Some c \<Rightarrow> cc_events c))")
    case False
    obtain st1 run1 ok where s: "skip_callback (clk 0) run st = (st1, run1, ok)" by (metis prod_cases3)
    with False p have "res = None \<and> run' = run1 \<and> s_runs st' = s_runs st1 \<and> s_callbacks st' = s_callbacks st1"
      by (auto simp: prepare_for_run_def Let_def split: option.splits)
    with skip [of "clk 0"] s show ?thesis by auto
  next
    case True
    then obtain url where url: "callback_url run = Some url" by blast
    define eid where "eid = (case ar_callback_event_id run of Some e \<Rightarrow> if e = [] then new_id else e | None \<Rightarrow> new_id)"
    define r1 where "r1 = run\<lparr>ar_callback_event_id := Some eid\<rparr>"
    define d0 where "d0 = (case callbacks_get eid (s_callbacks st) of
        Some d \<Rightarrow> d\<lparr>cd_url := url, cd_payload := (if cd_payload d \<noteq> [] then cd_payload d else payload_of (clk 0) r1 eid st)\<rparr>
      | None \<Rightarrow> new_delivery clk eid r1 url (payload_of (clk 0) r1 eid st))"
    define d1 where "d1 = d0\<lparr>cd_run_after := clk 4, cd_worker := None, cd_lease_expire_time := None\<rparr>"
    define r2 where "r2 = r1\<lparr>ar_callback_status := CB_PENDING,
        ar_status := (if ar_status r1 \<in> {AGENT_SUCCEEDED, SUCCEEDED} then WAITING_CALLBACK else ar_status r1)\<rparr>"
    let ?g = "owner_guard {ar_status run} (ar_worker run)"
    obtain st1 ok where u: "update_run_with_callback (clk 5) (clk 6) r2 (Some d1) (Some ?g) st = (st1, ok)" by fastforce
    have "prepare_for_run clk new_id run st = (st1, r2, if ok then Some d1 else None)"
      using True url u unfolding prepare_for_run_def Let_def eid_def r1_def d0_def d1_def r2_def by simp
    with p have e: "st' = st1" "run' = r2" "res = (if ok then Some d1 else None)" by simp_all
    have id: "ar_run_id r2 = ar_run_id run" by (simp add: r2_def r1_def)
    have "ok" using run_cas.cas_wins_iff [OF wf, of "clk 5" r2 ?g] x cur id
        update_run_with_callback_runs [OF wf, of "clk 5" "clk 6" r2 "Some d1" ?g] u by simp
    have d0: "cd_event_id d0 = eid" "callbacks_get eid (s_callbacks st) = None \<Longrightarrow> cd_status d0 = CB_PENDING"
      using callback_get_id [of eid "s_callbacks st"] by (auto simp: d0_def new_delivery_def split: option.splits)
    have get: "runs_get (ar_run_id run) (s_runs st1) = Some (r2\<lparr>ar_update_time := clk 5\<rparr>)"
        "callbacks_get (cd_event_id d1) (s_callbacks st1) = Some (d1\<lparr>cd_update_time := clk 6\<rparr>)"
      using update_run_with_callback_both [OF wf u \<open>ok\<close>] id by simp_all
    have "ar_callback_event_id run = None \<Longrightarrow> callbacks_get new_id (s_callbacks st) = None \<Longrightarrow> deliverable m (clk 4) d1"
      using d0(2) by (auto simp: d1_def deliverable_def eid_def)
    with get d0(1) \<open>ok\<close> show ?thesis unfolding e by (simp add: r2_def r1_def d1_def)
  qed
qed

theorem prepare_records_callback_witness:
  "let r = (new_agent_run ''R'' ''T'' 0 ''tag'' ''me'' ''q'')\<lparr>ar_status := AGENT_SUCCEEDED,
              ar_callback := Some \<lparr>cc_url = Some ''https://u'', cc_events = []\<rparr>\<rparr>
   in \<exists>st' run' d y. prepare_for_run (\<lambda>_. 9) ''E'' r (demo_store r []) = (st', run', Some d)
        \<and> runs_get ''R'' (s_runs st') = Some y \<and> ar_status y = WAITING_CALLBACK \<and> deliverable None 9 d"
proof -
  let ?r = "(new_agent_run ''R'' ''T'' 0 ''tag'' ''me'' ''q'')\<lparr>ar_status := AGENT_SUCCEEDED,
              ar_callback := Some \<lparr>cc_url = Some ''https://u'', cc_events = []\<rparr>\<rparr>"
  obtain st' run' res where p: "prepare_for_run (\<lambda>_. 9) ''E'' ?r (demo_store ?r []) = (st', run', res)" by (metis prod_cases3)
  have "\<exists>d. res = Some d"
    using p by (auto simp: prepare_for_run_def callback_url_def run_event_def demo_defs Let_def
        update_run_with_callback_def update_if_current_def update_where_def callbacks_get_def)
  then obtain d where d: "res = Some d" ..
  have wf: "keys_distinct ar_run_id (s_runs (demo_store ?r []))" and g: "runs_get (ar_run_id ?r) (s_runs (demo_store ?r [])) = Some ?r"
    by (simp_all add: demo_store_def keys_distinct_def runs_get_def)
  have "callbacks_get ''E'' (s_callbacks (demo_store ?r [])) = None" by (simp add: demo_store_def callbacks_get_def)
  with prepare_records_callback [OF wf g refl refl p, of None] d p show ?thesis
    by (simp add: new_agent_run_def) blast
qed

text \<open>
  The outcome of a retried run is not announced. If a run whose earlier callback was
  delivered finishes again (the event id survives a manual retry), preparing puts it into
  \<^verbatim>\<open>WAITING_CALLBACK\<close> but stores the delivery as it was: still \<^verbatim>\<open>DELIVERED\<close> and with the payload
  of the first outcome. No dispatcher can ever claim it, so the run waits for a callback
  that is not sent.
\<close>

theorem retried_run_callback_is_lost:
  assumes wf: "keys_distinct ar_run_id (s_runs st)" and x: "runs_get (ar_run_id run) (s_runs st) = Some x"
    and cur: "ar_status x = AGENT_SUCCEEDED" "ar_status run = AGENT_SUCCEEDED" "ar_worker x = ar_worker run"
    and cb: "ar_callback run = Some \<lparr>cc_url = Some url, cc_events = []\<rparr>" "url \<noteq> []"
    and old: "ar_callback_event_id run = Some e" "e \<noteq> []" "callbacks_get e (s_callbacks st) = Some d"
      "cd_status d = CB_DELIVERED" "cd_payload d \<noteq> []"
    and p: "prepare_for_run clk new_id run st = (st', run', res)"
  shows "\<exists>y d'. runs_get (ar_run_id run) (s_runs st') = Some y \<and> ar_status y = WAITING_CALLBACK
     \<and> callbacks_get e (s_callbacks st') = Some d' \<and> cd_payload d' = cd_payload d \<and> (\<forall>m now. \<not> deliverable m now d')"
proof -
  define r2 where "r2 = run\<lparr>ar_callback_event_id := Some e, ar_callback_status := CB_PENDING, ar_status := WAITING_CALLBACK\<rparr>"
  define d1 where "d1 = d\<lparr>cd_url := url, cd_payload := cd_payload d, cd_run_after := clk 4, cd_worker := None, cd_lease_expire_time := None\<rparr>"
  let ?g = "owner_guard {AGENT_SUCCEEDED} (ar_worker run)"
  obtain st1 ok where u: "update_run_with_callback (clk 5) (clk 6) r2 (Some d1) (Some ?g) st = (st1, ok)" by fastforce
  have "prepare_for_run clk new_id run st = (st1, r2, if ok then Some d1 else None)"
    using cb old cur u unfolding prepare_for_run_def Let_def r2_def d1_def
    by (simp add: callback_url_def run_event_def)
  with p have e: "st' = st1" by simp
  have id: "ar_run_id r2 = ar_run_id run" by (simp add: r2_def)
  have "ok" using run_cas.cas_wins_iff [OF wf, of "clk 5" r2 ?g] x cur id
      update_run_with_callback_runs [OF wf, of "clk 5" "clk 6" r2 "Some d1" ?g] u by simp
  note both = update_run_with_callback_both [OF wf u this]
  have "cd_event_id d1 = e" using callback_get_id [OF old(3)] by (simp add: d1_def)
  moreover have "\<not> deliverable m now (d1\<lparr>cd_update_time := clk 6\<rparr>)" for m now
    using old(4) by (auto simp: d1_def deliverable_def split: option.splits)
  ultimately show ?thesis using both id unfolding e by (simp add: r2_def d1_def)
qed

theorem retried_run_callback_is_lost_witness:
  "let r = (new_agent_run ''R'' ''T'' 0 ''tag'' ''me'' ''q'')\<lparr>ar_status := AGENT_SUCCEEDED, ar_callback_event_id := Some ''E'',
              ar_callback := Some \<lparr>cc_url = Some ''https://u'', cc_events = []\<rparr>\<rparr>;
       d = demo_delivery\<lparr>cd_status := CB_DELIVERED\<rparr>;
       (st', run', res) = prepare_for_run (\<lambda>_. 9) ''F'' r (demo_store r [d])
   in \<exists>d'. callbacks_get ''E'' (s_callbacks st') = Some d' \<and> cd_payload d' = [(''status'', JStr ''failed'')] \<and> \<not> deliverable (Some 3) 100 d'"
proof -
  let ?r = "(new_agent_run ''R'' ''T'' 0 ''tag'' ''me'' ''q'')\<lparr>ar_status := AGENT_SUCCEEDED, ar_callback_event_id := Some ''E'',
              ar_callback := Some \<lparr>cc_url = Some ''https://u'', cc_events = []\<rparr>\<rparr>"
  let ?d = "demo_delivery\<lparr>cd_status := CB_DELIVERED\<rparr>"
  obtain st' run' res where p: "prepare_for_run (\<lambda>_. 9) ''F'' ?r (demo_store ?r [?d]) = (st', run', res)" by (metis prod_cases3)
  have "keys_distinct ar_run_id (s_runs (demo_store ?r [?d]))" "runs_get (ar_run_id ?r) (s_runs (demo_store ?r [?d])) = Some ?r"
    "callbacks_get ''E'' (s_callbacks (demo_store ?r [?d])) = Some ?d"
    by (simp_all add: demo_store_def keys_distinct_def runs_get_def callbacks_get_def demo_delivery_def)
  from retried_run_callback_is_lost [OF this(1,2) _ _ _ _ _ _ _ this(3) _ _ p] p show ?thesis
    by (auto simp: demo_delivery_def)
qed

text \<open>
  An acknowledged callback can be sent again. When the receiver acknowledges and the
  delivery is recorded, but the \<^verbatim>\<open>on_callback_end\<close> hook then raises, the same attempt is
  recorded as failed and the loop goes on to post the payload again.
\<close>

theorem hook_error_resends_delivered_callback:
  assumes "validate_url env (cd_url delivery) = Inr ()"
    and "de_post env a (cd_url delivery) payload (callback_headers env cs payload) st = (st1, Inr response)"
    and "validate_ack (de_str env) response = Inr ()"
    and "\<And>st. de_hook_end env (cd_url delivery) True st = (st, Some err)" and "err \<noteq> CancelledError"
  shows "\<exists>st2 run' d'. cd_status d' = CB_FAILED \<and> ar_callback_status run' = CB_DELIVERED
     \<and> dispatch_loop env cs payload (a # b # rest) (st, run, delivery) = dispatch_loop env cs payload (b # rest) (st2, run', d')"
proof -
  let ?d = "delivery\<lparr>cd_attempts := a\<rparr>"
  obtain ds res where o: "deliver_once env cs payload a (st, run, ?d) = (ds, res)" by fastforce
  obtain st2 run2 d2 where ds: "ds = (st2, run2, d2)" by (cases ds)
  have res: "res = Inl err" and r2: "ar_callback_status run2 = CB_DELIVERED"
    using o assms ds by (auto simp: deliver_once_def Let_def split: prod.splits)
  obtain st3 run3 d3 where f: "delivery_failed env cs a err (st2, run2, d2) = (st3, run3, d3)" by (metis prod_cases3)
  then have "run3 = run2" "cd_status d3 = CB_FAILED" by (auto simp: delivery_failed_def Let_def)
  with o ds res f assms(5) r2 show ?thesis by (intro exI [of _ st3] exI [of _ run3] exI [of _ d3]) simp
qed

theorem hook_error_resends_delivered_callback_witness:
  "let env = (demo_env True)\<lparr>de_hook_end := \<lambda>u ok st. (st, Some (RuntimeError ''hook''))\<rparr>;
       r = new_agent_run ''R'' ''T'' 0 ''tag'' ''me'' ''q''
   in \<exists>st2 run' d'. cd_status d' = CB_FAILED \<and> ar_callback_status run' = CB_DELIVERED
        \<and> dispatch_loop env demo_service [] [1, 2] (demo_store r [], r, demo_delivery) =
            dispatch_loop env demo_service [] [2] (st2, run', d')"
  unfolding Let_def
  by (rule hook_error_resends_delivered_callback [where response = "Inr (JObj [(''ackStatus'', JStr ''RECEIVED'')])"
        and err = "RuntimeError ''hook''"])
    (simp_all add: validate_url_def demo_env_def validate_ack_def)

end
