(* ===== verification/Run_Executor.thy ===== *)
theory Run_Executor
  imports Callback_Service Registry
begin

text \<open>
  \<^verbatim>\<open>RunExecutor\<close> (\<^verbatim>\<open>src/orchestration/run_executor.py\<close>): the attempt loop of one run, its error
  classification, recovery by error handlers (\<^verbatim>\<open>src/framework/tool/error_handlers.py\<close>), callback
  preparation and the queue marks. The agent runtime, the hooks, the error handlers and the
  sleep are parameters that may change the whole \<open>world\<close> (the database, the cancellation
  registry, the background tasks); so are the writes of other processes, which may fall before
  every guarded write (\<open>xe_others\<close>). \<^verbatim>\<open>asyncio.CancelledError\<close> can leave every await.

  The theorems say that an execution that lost its run (to a cancellation or to another worker)
  writes nothing any more, that an undisturbed execution always ends in a settled run with its
  lease released, and what two classification rules of the code really do.
\<close>

section \<open>The world of an execution\<close>

text \<open>
  \<open>w_events\<close> is the shared dictionary \<^verbatim>\<open>_cancellation_events\<close>; an \<^verbatim>\<open>asyncio.Event\<close> is a number,
  \<open>w_set_events\<close> are the events that are set. \<open>w_children\<close> is \<^verbatim>\<open>_child_runs_by_parent\<close> and
  \<open>w_tasks\<close> are the runs with a background task that is not done.
\<close>

record world =
  w_store :: store
  w_events :: "(string \<times> nat) list"
  w_set_events :: "nat set"
  w_next_event :: nat
  w_children :: "(string \<times> string list) list"
  w_tasks :: "string list"

definition world_row :: "string \<Rightarrow> world \<Rightarrow> agent_run option" where
  "world_row run_id w = runs_get run_id (s_runs (w_store w))"

definition require_run :: "string \<Rightarrow> world \<Rightarrow> py_exc + agent_run" where
  "require_run run_id w = (case world_row run_id w of Some run \<Rightarrow> Inr run
     | None \<Rightarrow> Inl (KeyError (''Unknown run_id '' @ py_repr run_id)))"

definition update_owned :: "datetime \<Rightarrow> agent_run \<Rightarrow> run_status set \<Rightarrow> string option \<Rightarrow> world \<Rightarrow> world \<times> bool" where
  "update_owned now run statuses worker_id w =
     (case update_if_current now run (owner_guard statuses worker_id) (s_runs (w_store w)) of
        (ok, rows) \<Rightarrow> (w\<lparr>w_store := (w_store w)\<lparr>s_runs := rows\<rparr>\<rparr>, ok))"

section \<open>Error handlers\<close>

record run_error_input =
  ei_error :: py_exc
  ei_run_id :: string
  ei_trace_id :: string
  ei_route_tag :: string
  ei_caller :: string
  ei_agent_name :: string
  ei_agent_version :: string
  ei_attempts :: int
  ei_input_data :: dict
  ei_metadata :: dict
  ei_partial_output :: "dict option"
  ei_current_stage :: string

record run_error_result =
  er_final_output :: dict
  er_status :: string
  er_include_error_in_output :: bool

type_synonym error_handler = "run_error_input \<Rightarrow> world \<Rightarrow> world \<times> (py_exc + run_error_result option)"
type_synonym error_handlers = "(string \<times> error_handler) list"

definition handlers_set :: "string \<Rightarrow> error_handler \<Rightarrow> error_handlers \<Rightarrow> error_handlers" where
  "handlers_set kind handler hs = AList.update kind handler hs"

definition handlers_remove :: "string \<Rightarrow> error_handlers \<Rightarrow> error_handlers" where
  "handlers_remove kind hs = AList.delete kind hs"

definition handle :: "error_handlers \<Rightarrow> string \<Rightarrow> error_handler" where
  "handle hs kind input w = (case map_of hs kind of None \<Rightarrow> (w, Inr None) | Some handler \<Rightarrow> handler input w)"

section \<open>Parameters of an execution\<close>

text \<open>
  \<open>xe_clk\<close> and \<open>xe_event_id\<close> are indexed by the attempt (0 for the final part). \<open>xe_runtime\<close>
  is \<^verbatim>\<open>asyncio.wait_for(runtime.run(agent, run), timeout)\<close>; agents share the metadata dictionary
  of the run object, which is part of its result. Without hooks, \<open>xe_hook_dequeued\<close> and
  \<open>xe_hook_end\<close> leave the world alone.
\<close>

record exec_env =
  xe_clk :: "int \<Rightarrow> nat \<Rightarrow> datetime"
  xe_event_id :: "int \<Rightarrow> string"
  xe_others :: "int \<Rightarrow> nat \<Rightarrow> world \<Rightarrow> world"
  xe_hook_dequeued :: "agent_run \<Rightarrow> world \<Rightarrow> world \<times> py_exc option"
  xe_hook_end :: "agent_run \<Rightarrow> py_exc option \<Rightarrow> world \<Rightarrow> world \<times> py_exc option"
  xe_runtime :: "int \<Rightarrow> agent_spec \<Rightarrow> agent_run \<Rightarrow> world \<Rightarrow> world \<times> dict \<times> (py_exc + dict)"
  xe_validate :: json_validator
  xe_handlers :: "error_handlers option"
  xe_sleep :: "rat \<Rightarrow> world \<Rightarrow> world \<times> py_exc option"

section \<open>Queue marks\<close>

definition mark_queue_completed :: "exec_env \<Rightarrow> int \<Rightarrow> string \<Rightarrow> string option \<Rightarrow> world \<Rightarrow> world" where
  "mark_queue_completed env a run_id worker_id w =
     (case world_row run_id w of
        None \<Rightarrow> w
      | Some run \<Rightarrow> if ar_worker run = None \<and> ar_lease_expire_time run = None then w
          else fst (update_owned (xe_clk env a 10) (run\<lparr>ar_worker := None, ar_lease_expire_time := None\<rparr>)
                 {ar_status run} worker_id (xe_others env a 10 w)))"

definition mark_queue_dead :: "exec_env \<Rightarrow> string \<Rightarrow> string \<Rightarrow> string option \<Rightarrow> world \<Rightarrow> world \<times> py_exc option" where
  "mark_queue_dead env run_id reason worker_id w =
     (case require_run run_id w of
        Inl e \<Rightarrow> (w, Some e)
      | Inr run \<Rightarrow>
          (fst (update_owned (xe_clk env 0 10)
             (run\<lparr>ar_dead_letter_reason := Some reason, ar_worker := None, ar_lease_expire_time := None\<rparr>)
             {ar_status run} worker_id (xe_others env 0 10 w)), None))"

definition prepare_callback :: "exec_env \<Rightarrow> int \<Rightarrow> agent_run \<Rightarrow> world \<Rightarrow> world \<times> agent_run" where
  "prepare_callback env a run w =
     (let w' = xe_others env a 9 w in
      case prepare_for_run (\<lambda>i. xe_clk env a (20 + i)) (xe_event_id env a) run (w_store w') of
        (st, run', _) \<Rightarrow> (w'\<lparr>w_store := st\<rparr>, run'))"

section \<open>One attempt\<close>

text \<open>
  The failure branches of the \<^verbatim>\<open>except\<close> clauses: the run object they leave and the kind of
  error handler they consult.
\<close>

definition classify_message :: "string \<Rightarrow> bool \<Rightarrow> run_status \<times> error_type" where
  "classify_message msg again =
     (let m = str_lower msg in
      if str_in ''validation'' m \<or> str_in ''schema'' m then (FAILED, VALIDATION_ERROR)
      else if str_in ''not found'' m \<or> str_in ''no enabled'' m then (FAILED, ROUTE_NOT_FOUND)
      else if str_in ''permission'' m \<or> str_in ''unauthorized'' m then (FAILED, AGENT_EXECUTION_ERROR)
      else (if again then RETRYING else FAILED, AGENT_EXECUTION_ERROR))"

fun classify :: "int \<Rightarrow> bool \<Rightarrow> py_exc \<Rightarrow> run_status \<times> error_type \<times> string \<times> string option" where
  "classify timeout again (ExternalSideEffectOutcomeUnknownError m) =
     (FAILED, SIDE_EFFECT_OUTCOME_UNKNOWN, exc_text (ExternalSideEffectOutcomeUnknownError m), None)"
| "classify timeout again (SideEffectOutcomeUnknownError t c) =
     (FAILED, SIDE_EFFECT_OUTCOME_UNKNOWN, exc_text (SideEffectOutcomeUnknownError t c), None)"
| "classify timeout again (TimeoutError m) =
     (TIMEOUT, RUN_TIMEOUT, ''Task exceeded timeout_seconds='' @ show_int timeout, Some ''timeout'')"
| "classify timeout again (RegistryError m) =
     (FAILED, if str_in ''schema'' (str_lower m) then VALIDATION_ERROR else AGENT_NOT_AVAILABLE,
      exc_text (RegistryError m), Some ''validation_error'')"
| "classify timeout again (ToolExecutionError t c) =
     (if again then RETRYING else FAILED, TOOL_UNAVAILABLE, exc_text (ToolExecutionError t c), Some ''tool_failure'')"
| "classify timeout again e =
     (case classify_message (exc_str e) again of (s, et) \<Rightarrow>
        (s, et, exc_text e, Some (if str_in ''tool'' (str_lower (exc_str e)) then ''tool_failure'' else ''agent_error'')))"

definition failed_attempt :: "int \<Rightarrow> bool \<Rightarrow> py_exc \<Rightarrow> agent_run \<Rightarrow> agent_run \<times> string option" where
  "failed_attempt timeout again e run =
     (case classify timeout again e of (s, et, msg, kind) \<Rightarrow>
        (run\<lparr>ar_status := s, ar_error_type := Some et, ar_error_message := Some msg\<rparr>, kind))"

definition error_input :: "agent_run \<Rightarrow> agent_spec \<Rightarrow> py_exc \<Rightarrow> run_error_input" where
  "error_input run agent e =
     \<lparr>ei_error = e, ei_run_id = ar_run_id run, ei_trace_id = ar_trace_id run, ei_route_tag = ar_route_tag run,
      ei_caller = ar_caller run, ei_agent_name = as_name agent, ei_agent_version = as_version agent,
      ei_attempts = ar_attempts run, ei_input_data = ar_input run, ei_metadata = ar_metadata run,
      ei_partial_output = ar_output run,
      ei_current_stage = (case ar_current_step run of Some s \<Rightarrow> if s = [] then ''agent'' else s | None \<Rightarrow> ''agent'')\<rparr>"

definition finalize_run_with_result ::
    "exec_env \<Rightarrow> int \<Rightarrow> agent_run \<Rightarrow> run_error_result \<Rightarrow> string option \<Rightarrow> world \<Rightarrow> world \<times> (py_exc + agent_run)" where
  "finalize_run_with_result env a run result worker_id w =
     (let message = (case ar_error_message run of Some m \<Rightarrow> if m = [] then ''error handled by recovery'' else m
            | None \<Rightarrow> ''error handled by recovery'');
          output = (if er_include_error_in_output result
            then dict_setdefault ''_error'' (JStr message) (er_final_output result) else er_final_output result);
          run' = run\<lparr>ar_output := Some output, ar_error_type := None, ar_error_message := None,
            ar_dead_letter_reason := None, ar_status := SUCCEEDED, ar_current_step := Some ''error_recovery'',
            ar_finish_time := Some (xe_clk env a 4)\<rparr>;
          (w1, ok) = update_owned (xe_clk env a 5) run' EXECUTING_RUN_STATUSES worker_id (xe_others env a 5 w)
      in if \<not> ok then (w1, require_run (ar_run_id run) w1)
         else let w2 = (if callback_url run' = None then w1 else fst (prepare_callback env a run' w1));
                  w3 = mark_queue_completed env a (ar_run_id run) worker_id w2
              in (w3, require_run (ar_run_id run) w3))"

text \<open>The \<^verbatim>\<open>try\<close> block; its second component is the run object in scope when it ends.\<close>

definition try_agent ::
    "exec_env \<Rightarrow> agent_spec \<Rightarrow> int \<Rightarrow> int \<Rightarrow> string option \<Rightarrow> agent_run \<Rightarrow> world \<Rightarrow> world \<times> agent_run \<times> (py_exc + agent_run)" where
  "try_agent env agent timeout a worker_id run w =
     (let run_id = ar_run_id run; (w1, metadata, outcome) = xe_runtime env timeout agent run w;
          run1 = run\<lparr>ar_metadata := metadata\<rparr>
      in case outcome of Inl e \<Rightarrow> (w1, run1, Inl e)
         | Inr output \<Rightarrow>
         case validate_output (xe_validate env) agent output of Inl e \<Rightarrow> (w1, run1, Inl e)
         | Inr _ \<Rightarrow>
         case require_run run_id w1 of Inl e \<Rightarrow> (w1, run1, Inl e)
         | Inr cur \<Rightarrow>
             let run2 = cur\<lparr>ar_output := Some output, ar_error_type := None, ar_error_message := None,
                   ar_dead_letter_reason := None, ar_status := AGENT_SUCCEEDED, ar_current_step := Some ''callback'',
                   ar_finish_time := Some (xe_clk env a 2)\<rparr>;
                 (w2, ok) = update_owned (xe_clk env a 3) run2 EXECUTING_RUN_STATUSES worker_id (xe_others env a 3 w1)
             in if \<not> ok then (w2, run2, require_run run_id w2)
                else let (w3, run3) = prepare_callback env a run2 w2;
                         w4 = mark_queue_completed env a run_id worker_id w3
                     in (w4, run3, require_run run_id w4))"

text \<open>How an attempt ends: with the result of the execution, by leaving the loop, or by going on.\<close>

datatype step = Return "py_exc + agent_run" | Break agent_run | Next agent_run

definition recover ::
    "exec_env \<Rightarrow> agent_spec \<Rightarrow> int \<Rightarrow> string option \<Rightarrow> agent_run \<Rightarrow> string option \<Rightarrow> py_exc \<Rightarrow> world
     \<Rightarrow> world \<times> (py_exc + agent_run) option" where
  "recover env agent a worker_id run kind e w =
     (case (kind, xe_handlers env) of
        (Some k, Some hs) \<Rightarrow>
          (case handle hs k (error_input run agent e) w of
             (w1, Inl e') \<Rightarrow> (w1, Some (Inl e'))
           | (w1, Inr None) \<Rightarrow> (w1, None)
           | (w1, Inr (Some result)) \<Rightarrow>
               (case finalize_run_with_result env a run result worker_id w1 of (w2, r) \<Rightarrow> (w2, Some r)))
      | _ \<Rightarrow> (w, None))"

definition log_attempt_failed :: "exec_env \<Rightarrow> int \<Rightarrow> agent_run \<Rightarrow> world \<Rightarrow> world" where
  "log_attempt_failed env a run w =
     w\<lparr>w_store := (w_store w)\<lparr>s_logs := logs_add
       \<lparr>le_run_id = Some (ar_run_id run), le_trace_id = ar_trace_id run, le_component = ''run_manager'',
        le_event_type = ''run_attempt_failed'', le_level = ''INFO'', le_message = ''Task attempt failed'',
        le_data = [(''attempt'', JNum (of_int a)),
          (''error_type'', jopt (map_option error_type_value (ar_error_type run))),
          (''error_message'', jopt (ar_error_message run))],
        le_create_time = xe_clk env a 7\<rparr> (s_logs (w_store w))\<rparr>\<rparr>"

definition record_failure_and_wait ::
    "exec_env \<Rightarrow> agent_spec \<Rightarrow> int \<Rightarrow> int \<Rightarrow> string option \<Rightarrow> agent_run \<Rightarrow> world \<Rightarrow> world \<times> step" where
  "record_failure_and_wait env agent attempts a worker_id run w =
     (case update_owned (xe_clk env a 6) run EXECUTING_RUN_STATUSES worker_id (xe_others env a 6 w) of
        (w1, False) \<Rightarrow> (w1, Return (require_run (ar_run_id run) w1))
      | (w1, True) \<Rightarrow>
          let w2 = log_attempt_failed env a run w1
          in if (case ar_error_type run of Some et \<Rightarrow> \<not> is_retryable et | None \<Rightarrow> False) then (w2, Break run)
             else if a < attempts
             then (case xe_sleep env (delay_for_attempt (as_retry_policy agent) a) w2 of
                     (w3, Some e) \<Rightarrow> (w3, Return (Inl e)) | (w3, None) \<Rightarrow> (w3, Next run))
             else (w2, Next run))"

definition attempt_body ::
    "exec_env \<Rightarrow> agent_spec \<Rightarrow> int \<Rightarrow> int \<Rightarrow> int \<Rightarrow> string option \<Rightarrow> agent_run \<Rightarrow> world \<Rightarrow> world \<times> step" where
  "attempt_body env agent attempts timeout a worker_id run w =
     (case try_agent env agent timeout a worker_id run w of
        (w1, run1, Inr r) \<Rightarrow> (w1, Return (Inr r))
      | (w1, run1, Inl CancelledError) \<Rightarrow> (w1, Return (Inl CancelledError))
      | (w1, run1, Inl (RunCancelledError m)) \<Rightarrow> (w1, Return (require_run (ar_run_id run) w1))
      | (w1, run1, Inl e) \<Rightarrow>
          (case failed_attempt timeout (a < attempts) e run1 of (run2, kind) \<Rightarrow>
             (case recover env agent a worker_id run2 kind e w1 of
                (w2, Some r) \<Rightarrow> (w2, Return r)
              | (w2, None) \<Rightarrow> record_failure_and_wait env agent attempts a worker_id run2 w2)))"

definition attempt_once ::
    "exec_env \<Rightarrow> agent_spec \<Rightarrow> int \<Rightarrow> int \<Rightarrow> int \<Rightarrow> string option \<Rightarrow> nat \<Rightarrow> string \<Rightarrow> world \<Rightarrow> world \<times> step" where
  "attempt_once env agent attempts timeout a worker_id ev run_id w =
     (case require_run run_id w of Inl e \<Rightarrow> (w, Return (Inl e))
      | Inr run \<Rightarrow>
          if ar_status run = CANCELED \<or> ev \<in> w_set_events w then (w, Return (Inr run))
          else
            let run1 = run\<lparr>ar_status := (if a = 1 then RUNNING else RETRYING),
                  ar_start_time := (case ar_start_time run of Some t \<Rightarrow> Some t | None \<Rightarrow> Some (xe_clk env a 0)),
                  ar_attempts := a, ar_current_step := Some ''agent''\<rparr>
            in (case update_owned (xe_clk env a 1) run1 {ar_status run} worker_id (xe_others env a 1 w) of
                  (w1, False) \<Rightarrow> (w1, Return (require_run run_id w1))
                | (w1, True) \<Rightarrow>
                    (case xe_hook_dequeued env run1 w1 of
                       (w2, Some e) \<Rightarrow> (w2, Return (Inl e))
                     | (w2, None) \<Rightarrow> attempt_body env agent attempts timeout a worker_id run1 w2)))"

section \<open>The execution\<close>

text \<open>What follows the loop, with the run object it ended with.\<close>

definition finish_run ::
    "exec_env \<Rightarrow> string option \<Rightarrow> agent_run \<Rightarrow> world \<Rightarrow> world \<times> (py_exc + agent_run)" where
  "finish_run env worker_id run w =
     (let run_id = ar_run_id run; run1 = run\<lparr>ar_finish_time := Some (xe_clk env 0 0)\<rparr> in
      case update_owned (xe_clk env 0 1) run1 {ar_status run} worker_id (xe_others env 0 1 w) of
        (w1, False) \<Rightarrow> (w1, require_run run_id w1)
      | (w1, True) \<Rightarrow>
          let error = (case ar_error_message run1 of Some m \<Rightarrow> if m = [] then None else Some (RuntimeError m) | None \<Rightarrow> None)
          in (case xe_hook_end env run1 error w1 of
                (w2, Some e) \<Rightarrow> (w2, Inl e)
              | (w2, None) \<Rightarrow>
                  let (w3, run2) = (if callback_url run1 = None then (w2, run1) else prepare_callback env 0 run1 w2);
                      reason = (case ar_error_message run2 of Some m \<Rightarrow> if m = [] then run_status_value (ar_status run2) else m
                        | None \<Rightarrow> run_status_value (ar_status run2));
                      (w4, err) = (if ar_status run2 \<in> {FAILED, TIMEOUT} then mark_queue_dead env run_id reason worker_id w3
                        else (mark_queue_completed env 0 run_id worker_id w3, None))
                  in (w4, case err of Some e \<Rightarrow> Inl e | None \<Rightarrow> require_run run_id w4)))"

fun attempts_loop ::
    "exec_env \<Rightarrow> agent_spec \<Rightarrow> int \<Rightarrow> int \<Rightarrow> string option \<Rightarrow> nat \<Rightarrow> int list \<Rightarrow> agent_run \<Rightarrow> world \<Rightarrow> world \<times> (py_exc + agent_run)" where
  "attempts_loop env agent attempts timeout worker_id ev [] run w = finish_run env worker_id run w"
| "attempts_loop env agent attempts timeout worker_id ev (a # rest) run w =
     (case attempt_once env agent attempts timeout a worker_id ev (ar_run_id run) w of
        (w1, Return r) \<Rightarrow> (w1, r)
      | (w1, Break run1) \<Rightarrow> finish_run env worker_id run1 w1
      | (w1, Next run1) \<Rightarrow> attempts_loop env agent attempts timeout worker_id ev rest run1 w1)"

definition execute_with_cancel ::
    "exec_env \<Rightarrow> agent_run \<Rightarrow> agent_spec \<Rightarrow> nat \<Rightarrow> string option \<Rightarrow> world \<Rightarrow> world \<times> (py_exc + agent_run)" where
  "execute_with_cancel env run agent ev worker_id w =
     (let attempts = max 1 (rp_max_attempts (as_retry_policy agent));
          timeout = (case ar_timeout_seconds run of Some t \<Rightarrow> if t = 0 then as_timeout_seconds agent else t
            | None \<Rightarrow> as_timeout_seconds agent)
      in attempts_loop env agent attempts timeout worker_id ev [ar_attempts run + 1 .. attempts] run w)"

definition execute ::
    "exec_env \<Rightarrow> (string \<Rightarrow> 'k::linorder) \<Rightarrow> agent_registry \<Rightarrow> string \<Rightarrow> string \<Rightarrow> string \<Rightarrow> string option \<Rightarrow> world
     \<Rightarrow> world \<times> (py_exc + agent_run)" where
  "execute env vk reg run_id agent_name agent_version worker_id w =
     (case require_run run_id w of Inl e \<Rightarrow> (w, Inl e)
      | Inr run \<Rightarrow>
     case registry_get vk agent_name (Some agent_version) reg of Inl e \<Rightarrow> (w, Inl e)
      | Inr agent \<Rightarrow>
          let ev = w_next_event w;
              w1 = w\<lparr>w_events := AList.update run_id ev (w_events w), w_next_event := Suc ev\<rparr>;
              (w2, r) = execute_with_cancel env run agent ev worker_id w1
          in (if map_of (w_events w2) run_id = Some ev then w2\<lparr>w_events := AList.delete run_id (w_events w2)\<rparr> else w2, r))"

section \<open>Guarded writes of the world\<close>

definition world_wf :: "world \<Rightarrow> bool" where
  "world_wf w = keys_distinct ar_run_id (s_runs (w_store w))"

definition owned :: "agent_run \<Rightarrow> run_status set \<Rightarrow> string option \<Rightarrow> world \<Rightarrow> bool" where
  "owned run statuses worker_id w = (\<exists>x. world_row (ar_run_id run) w = Some x \<and> ar_status x \<in> statuses \<and> ar_worker x = worker_id)"

lemma update_owned_lost:
  assumes "world_wf w" and "\<not> owned run ss wk w"
  shows "update_owned now run ss wk w = (w, False)"
proof -
  have f: "\<not> fst (update_if_current now run (owner_guard ss wk) (s_runs (w_store w)))"
    using assms run_cas.cas_wins_iff [of "s_runs (w_store w)" now run "owner_guard ss wk"]
    by (auto simp: owned_def world_row_def world_wf_def)
  moreover have "snd (update_if_current now run (owner_guard ss wk) (s_runs (w_store w))) = s_runs (w_store w)"
    using run_cas.cas_loses [OF _ f] assms(1) by (simp add: world_wf_def)
  ultimately show ?thesis by (cases "update_if_current now run (owner_guard ss wk) (s_runs (w_store w))") (simp add: update_owned_def)
qed

lemma update_owned_won:
  assumes wf: "world_wf w" and o: "owned run ss wk w"
  obtains w' where "update_owned now run ss wk w = (w', True)" and "world_wf w'"
    and "world_row (ar_run_id run) w' = Some (run\<lparr>ar_update_time := now\<rparr>)" and "w_set_events w' = w_set_events w"
proof -
  let ?u = "update_if_current now run (owner_guard ss wk) (s_runs (w_store w))"
  have f: "fst ?u" using wf o run_cas.cas_wins_iff [of "s_runs (w_store w)" now run "owner_guard ss wk"]
    by (auto simp: owned_def world_row_def world_wf_def)
  obtain ok rows where u: "?u = (ok, rows)" by fastforce
  then have "update_owned now run ss wk w = (w\<lparr>w_store := (w_store w)\<lparr>s_runs := rows\<rparr>\<rparr>, True)"
    using f by (simp add: update_owned_def)
  then show thesis
  proof (rule that)
    show "world_wf (w\<lparr>w_store := (w_store w)\<lparr>s_runs := rows\<rparr>\<rparr>)"
      using run_cas.invar_cas [of "s_runs (w_store w)" now run "owner_guard ss wk"] wf u by (simp add: world_wf_def)
    show "world_row (ar_run_id run) (w\<lparr>w_store := (w_store w)\<lparr>s_runs := rows\<rparr>\<rparr>) = Some (run\<lparr>ar_update_time := now\<rparr>)"
      using run_cas.cas_stores [OF _ f] wf u by (simp add: world_wf_def world_row_def)
  qed simp
qed

lemma require_run_Some [simp]: "world_row run_id w = Some x \<Longrightarrow> require_run run_id w = Inr x"
  by (simp add: require_run_def)

lemma world_row_id: "world_row run_id w = Some x \<Longrightarrow> ar_run_id x = run_id"
  using runs_get_SomeD by (auto simp: world_row_def)

section \<open>Losing a run\<close>

text \<open>
  \<open>holds P run_id\<close>: the row of the run satisfies \<open>P\<close>. The environment keeps a predicate on
  worlds when every step the execution hands over to (hooks, agent, handlers, sleeping, other
  processes) preserves it.
\<close>

definition holds :: "(agent_run \<Rightarrow> bool) \<Rightarrow> string \<Rightarrow> world \<Rightarrow> bool" where
  "holds P run_id w = (world_wf w \<and> (\<exists>x. world_row run_id w = Some x \<and> P x))"

definition others_keep :: "(world \<Rightarrow> bool) \<Rightarrow> exec_env \<Rightarrow> bool" where
  "others_keep J env = ((\<forall>a i w. J w \<longrightarrow> J (xe_others env a i w))
     \<and> (\<forall>hs k h i w. xe_handlers env = Some hs \<and> (k, h) \<in> set hs \<and> J w \<longrightarrow> J (fst (h i w))))"

lemma update_owned_blocked:
  assumes "holds P run_id w" and "\<And>x. P x \<Longrightarrow> ar_worker x \<noteq> wk \<or> ar_status x \<notin> ss" and "ar_run_id run = run_id"
  shows "update_owned now run ss wk w = (w, False)"
  using assms by (intro update_owned_lost) (auto simp: holds_def owned_def)

lemma classify_status:
  assumes "classify timeout again e = (s, et, msg, k)"
  shows "s \<in> {FAILED, TIMEOUT, RETRYING} \<and> (again \<or> s \<noteq> RETRYING) \<and> (is_retryable et \<or> s = FAILED)"
  using assms by (cases e) (auto simp: classify_message_def Let_def is_retryable_def split: if_splits)

lemma failed_attempt_shape:
  assumes "failed_attempt timeout again e run = (run', kind)"
  obtains s et msg where "run' = run\<lparr>ar_status := s, ar_error_type := Some et, ar_error_message := Some msg\<rparr>"
    and "s \<in> {FAILED, TIMEOUT, RETRYING}" and "again \<or> s \<noteq> RETRYING" and "is_retryable et \<or> s = FAILED"
proof -
  obtain s et msg k where c: "classify timeout again e = (s, et, msg, k)" by (metis prod_cases4)
  show thesis using that assms c classify_status [OF c] by (auto simp: failed_attempt_def)
qed

lemma handle_keeps:
  assumes "others_keep J env" and "xe_handlers env = Some hs" and "J w"
  shows "J (fst (handle hs k i w))"
  using assms by (auto simp: others_keep_def handle_def dest: map_of_SomeD split: option.split)

lemma executing_not_canceled: "ar_status x = CANCELED \<Longrightarrow> ar_status x \<notin> EXECUTING_RUN_STATUSES"
  by (simp add: status_defs)

lemma recover_blocked:
  assumes P: "\<forall>x. P x \<longrightarrow> ar_worker x \<noteq> wk \<or> ar_status x = CANCELED" and k: "others_keep (holds P run_id) env"
    and h: "holds P run_id w" and id: "ar_run_id run = run_id" and r: "recover env agent a wk run kind e w = (w', res)"
  shows "holds P run_id w'"
proof (cases "\<exists>k hs. kind = Some k \<and> xe_handlers env = Some hs")
  case False
  with r h show ?thesis by (auto simp: recover_def split: option.splits)
next
  case True
  then obtain kd hs where kh: "kind = Some kd" "xe_handlers env = Some hs" by blast
  obtain w1 hr where h1: "handle hs kd (error_input run agent e) w = (w1, hr)" by fastforce
  have w1: "holds P run_id w1" using handle_keeps [OF k kh(2) h, of kd "error_input run agent e"] h1 by simp
  have others: "holds P run_id (xe_others env a 5 w1)" using k w1 by (simp add: others_keep_def)
  have blocked: "update_owned now run' EXECUTING_RUN_STATUSES wk (xe_others env a 5 w1) = (xe_others env a 5 w1, False)"
    if "ar_run_id run' = run_id" for now run'
    using others _ that by (rule update_owned_blocked) (use P executing_not_canceled in blast)
  have "holds P run_id (fst (finalize_run_with_result env a run result wk w1))" for result
    unfolding finalize_run_with_result_def Let_def by (simp add: blocked id others)
  then show ?thesis using r kh h1 w1
    by (auto simp: recover_def split: sum.splits option.splits prod.splits) (metis fst_conv)
qed

lemma try_agent_blocked:
  assumes P: "\<forall>x. P x \<longrightarrow> ar_worker x \<noteq> wk \<or> ar_status x = CANCELED" and k: "others_keep (holds P run_id) env"
    and lands: "holds P run_id (fst (xe_runtime env timeout agent run w))" and id: "ar_run_id run = run_id"
    and t: "try_agent env agent timeout a wk run w = (w1, run1, res)"
  shows "holds P run_id w1 \<and> ar_run_id run1 = run_id \<and> (\<forall>r. res = Inr r \<longrightarrow> world_row run_id w1 = Some r)"
proof -
  obtain w0 md out where rt: "xe_runtime env timeout agent run w = (w0, md, out)" by (metis prod_cases3)
  have w0: "holds P run_id w0" using lands rt by simp
  then obtain cur where cur: "world_row run_id w0 = Some cur" by (auto simp: holds_def)
  have others: "holds P run_id (xe_others env a 3 w0)" using k w0 by (simp add: others_keep_def)
  have blocked: "update_owned now run' EXECUTING_RUN_STATUSES wk (xe_others env a 3 w0) = (xe_others env a 3 w0, False)"
    if "ar_run_id run' = run_id" for now run'
    using others _ that by (rule update_owned_blocked) (use P executing_not_canceled in blast)
  obtain y where y: "world_row run_id (xe_others env a 3 w0) = Some y" using others by (auto simp: holds_def)
  show ?thesis
    using t id rt w0 cur others y blocked world_row_id [OF cur] unfolding try_agent_def Let_def
    by (auto split: sum.splits prod.splits)
qed

lemma attempt_body_blocked:
  assumes P: "\<forall>x. P x \<longrightarrow> ar_worker x \<noteq> wk \<or> ar_status x = CANCELED" and k: "others_keep (holds P run_id) env"
    and lands: "holds P run_id (fst (xe_runtime env timeout agent run w))" and id: "ar_run_id run = run_id"
    and b: "attempt_body env agent attempts timeout a wk run w = (w', s)"
  shows "holds P run_id w' \<and> (\<exists>r. s = Return r)"
proof -
  obtain w1 run1 res where t: "try_agent env agent timeout a wk run w = (w1, run1, res)" by (metis prod_cases3)
  note w1 = try_agent_blocked [OF P k lands id t]
  have fail: "holds P run_id w' \<and> (\<exists>r. s = Return r)"
    if f: "failed_attempt timeout (a < attempts) e run1 = (run2, kind)"
      and e: "(case recover env agent a wk run2 kind e w1 of (w2, Some r) \<Rightarrow> (w2, Return r)
              | (w2, None) \<Rightarrow> record_failure_and_wait env agent attempts a wk run2 w2) = (w', s)" for e run2 kind
  proof -
    obtain w2 rr where r: "recover env agent a wk run2 kind e w1 = (w2, rr)" by fastforce
    have id2: "ar_run_id run2 = run_id" using w1 by (rule_tac failed_attempt_shape [OF f]) simp
    have w2: "holds P run_id w2" by (rule recover_blocked [OF P k _ id2 r]) (use w1 in simp)
    have others: "holds P run_id (xe_others env a 6 w2)" using k w2 by (simp add: others_keep_def)
    have "update_owned (xe_clk env a 6) run2 EXECUTING_RUN_STATUSES wk (xe_others env a 6 w2) = (xe_others env a 6 w2, False)"
      using others _ id2 by (rule update_owned_blocked) (use P executing_not_canceled in blast)
    then show ?thesis using e r w2 others by (auto simp: record_failure_and_wait_def split: option.splits)
  qed
  show ?thesis
  proof (cases res)
    case (Inr r)
    then show ?thesis using b t w1 by (auto simp: attempt_body_def)
  next
    case (Inl e)
    obtain run2 kind where f: "failed_attempt timeout (a < attempts) e run1 = (run2, kind)" by fastforce
    show ?thesis using b t w1 Inl f fail [OF f] unfolding attempt_body_def by (cases e) auto
  qed
qed

text \<open>An execution whose run belongs to somebody else from the start gives up at its first write.\<close>

lemma finish_run_blocked:
  assumes "\<forall>x. P x \<longrightarrow> ar_worker x \<noteq> wk" and k: "others_keep (holds P run_id) env"
    and h: "holds P run_id w" and id: "ar_run_id run = run_id"
  shows "holds P run_id (fst (finish_run env wk run w))"
proof -
  have others: "holds P run_id (xe_others env 0 1 w)" using k h by (simp add: others_keep_def)
  have "update_owned now run' ss wk (xe_others env 0 1 w) = (xe_others env 0 1 w, False)" if "ar_run_id run' = run_id" for now run' ss
    using others _ that by (rule update_owned_blocked) (use assms(1) in blast)
  then show ?thesis using others id by (simp add: finish_run_def Let_def)
qed

lemma attempt_once_blocked:
  assumes "\<forall>x. P x \<longrightarrow> ar_worker x \<noteq> wk" and k: "others_keep (holds P run_id) env" and h: "holds P run_id w"
  shows "\<exists>w' r. attempt_once env agent attempts timeout a wk ev run_id w = (w', Return r) \<and> holds P run_id w'"
proof -
  obtain x where x: "world_row run_id w = Some x" using h by (auto simp: holds_def)
  have others: "holds P run_id (xe_others env a 1 w)" using k h by (simp add: others_keep_def)
  have "update_owned now run' ss wk (xe_others env a 1 w) = (xe_others env a 1 w, False)" if "ar_run_id run' = run_id" for now run' ss
    using others _ that by (rule update_owned_blocked) (use assms(1) in blast)
  then show ?thesis using x h others world_row_id [OF x] by (auto simp: attempt_once_def Let_def)
qed

lemma attempts_loop_blocked:
  assumes "\<forall>x. P x \<longrightarrow> ar_worker x \<noteq> wk" and "others_keep (holds P run_id) env" and "holds P run_id w" and "ar_run_id run = run_id"
  shows "holds P run_id (fst (attempts_loop env agent attempts timeout wk ev ls run w))"
proof (cases ls)
  case Nil
  with finish_run_blocked [OF assms] show ?thesis by simp
next
  case (Cons a rest)
  with attempt_once_blocked [OF assms(1-3), of agent attempts timeout a ev] assms(4) show ?thesis by auto
qed

lemma holds_events [simp]: "holds P run_id (w\<lparr>w_events := e\<rparr>) = holds P run_id w" "holds P run_id (w\<lparr>w_next_event := n\<rparr>) = holds P run_id w"
  by (simp_all add: holds_def world_wf_def world_row_def)

section \<open>Undisturbed executions\<close>

text \<open>
  \<open>same_run x y\<close>: while nobody else works on the run its row may move between the executing
  statuses and change its step, lease or metadata, but a settled outcome stays as it is.
\<close>

definition same_run :: "agent_run \<Rightarrow> agent_run \<Rightarrow> bool" where
  "same_run x y = (ar_worker y = ar_worker x \<and> ar_attempts y = ar_attempts x
     \<and> (if ar_status x \<in> EXECUTING_RUN_STATUSES then ar_status y \<in> EXECUTING_RUN_STATUSES
        else ar_status y = ar_status x \<and> ar_output y = ar_output x \<and> ar_error_type y = ar_error_type x))"

definition quiet_step :: "string \<Rightarrow> world \<Rightarrow> world \<Rightarrow> bool" where
  "quiet_step run_id w w' = (\<forall>x. world_wf w \<and> world_row run_id w = Some x \<longrightarrow>
     world_wf w' \<and> w_set_events w' = w_set_events w \<and> (\<exists>y. world_row run_id w' = Some y \<and> same_run x y))"

definition undisturbed :: "string \<Rightarrow> exec_env \<Rightarrow> bool" where
  "undisturbed run_id env =
     ((\<forall>a i w. quiet_step run_id w (xe_others env a i w)
           \<and> map_option ar_status (world_row run_id (xe_others env a i w)) = map_option ar_status (world_row run_id w))
      \<and> (\<forall>r w. quiet_step run_id w (fst (xe_hook_dequeued env r w)) \<and> snd (xe_hook_dequeued env r w) = None)
      \<and> (\<forall>r e w. quiet_step run_id w (fst (xe_hook_end env r e w)) \<and> snd (xe_hook_end env r e w) = None)
      \<and> (\<forall>t ag r w. quiet_step run_id w (fst (xe_runtime env t ag r w))
           \<and> snd (snd (xe_runtime env t ag r w)) \<noteq> Inl CancelledError
           \<and> (\<forall>m. snd (snd (xe_runtime env t ag r w)) \<noteq> Inl (RunCancelledError m)))
      \<and> (\<forall>d s. xe_validate env d s \<noteq> Inl CancelledError \<and> (\<forall>m. xe_validate env d s \<noteq> Inl (RunCancelledError m)))
      \<and> (\<forall>hs k h i w. xe_handlers env = Some hs \<and> map_of hs k = Some h \<longrightarrow>
           quiet_step run_id w (fst (h i w)) \<and> (\<exists>res. snd (h i w) = Inr res))
      \<and> (\<forall>d w. quiet_step run_id w (fst (xe_sleep env d w)) \<and> snd (xe_sleep env d w) = None))"

text \<open>The state of the row between two steps: present, with the given owner, attempts and status.\<close>

definition at_row :: "string \<Rightarrow> nat \<Rightarrow> world \<Rightarrow> agent_run \<Rightarrow> bool" where
  "at_row run_id ev w x = (world_wf w \<and> world_row run_id w = Some x \<and> ev \<notin> w_set_events w)"

lemma at_row_id: "at_row run_id ev w x \<Longrightarrow> ar_run_id x = run_id"
  by (auto simp: at_row_def dest: world_row_id)

lemma quiet_stepD:
  assumes "quiet_step run_id w w'" and "at_row run_id ev w x"
  obtains y where "at_row run_id ev w' y" and "same_run x y"
  using assms by (auto simp: quiet_step_def at_row_def)

lemma undisturbed_others: "undisturbed run_id env \<Longrightarrow> quiet_step run_id w (xe_others env a i w)"
  by (simp add: undisturbed_def)

lemma update_owned_at:
  assumes "at_row run_id ev w x" and "ar_status x \<in> ss" and "ar_worker x = wk" and "ar_run_id run = run_id"
  obtains w' where "update_owned now run ss wk w = (w', True)" and "at_row run_id ev w' (run\<lparr>ar_update_time := now\<rparr>)"
proof -
  have "world_wf w" "owned run ss wk w" using assms by (auto simp: at_row_def owned_def)
  then obtain w' where "update_owned now run ss wk w = (w', True)" "world_wf w'"
      "world_row (ar_run_id run) w' = Some (run\<lparr>ar_update_time := now\<rparr>)" "w_set_events w' = w_set_events w"
    by (rule update_owned_won)
  with that assms show thesis by (auto simp: at_row_def)
qed

text \<open>The settled forms of a run at the end of its execution.\<close>

definition succeeded_row :: "agent_run \<Rightarrow> bool" where
  "succeeded_row r = (ar_status r \<in> {SUCCEEDED, WAITING_CALLBACK} \<and> ar_output r \<noteq> None \<and> ar_error_type r = None)"

definition failed_row :: "agent_run \<Rightarrow> bool" where
  "failed_row r = (ar_status r \<in> {FAILED, TIMEOUT} \<and> ar_error_type r \<noteq> None)"

definition released :: "agent_run \<Rightarrow> bool" where
  "released r = (ar_worker r = None \<and> ar_lease_expire_time r = None)"

lemma mark_queue_completed_at:
  assumes u: "undisturbed run_id env" and r: "at_row run_id ev w x" and x: "ar_worker x = wk" "ar_status x \<notin> EXECUTING_RUN_STATUSES"
  obtains y where "at_row run_id ev (mark_queue_completed env a run_id wk w) y" and "released y"
    and "ar_status y = ar_status x" and "ar_output y = ar_output x" and "ar_error_type y = ar_error_type x" and "ar_attempts y = ar_attempts x"
proof (cases "ar_worker x = None \<and> ar_lease_expire_time x = None")
  case True
  with r that show thesis by (auto simp: mark_queue_completed_def at_row_def released_def)
next
  case False
  let ?r = "x\<lparr>ar_worker := None, ar_lease_expire_time := None\<rparr>"
  have id: "ar_run_id x = run_id" using r by (rule at_row_id)
  obtain y where y: "at_row run_id ev (xe_others env a 10 w) y" "same_run x y"
    using quiet_stepD [OF undisturbed_others [OF u] r] .
  have "ar_status y \<in> {ar_status x}" "ar_worker y = wk" using y(2) x by (simp_all add: same_run_def)
  then obtain w' where "update_owned (xe_clk env a 10) ?r {ar_status x} wk (xe_others env a 10 w) = (w', True)"
      "at_row run_id ev w' (?r\<lparr>ar_update_time := xe_clk env a 10\<rparr>)"
    using update_owned_at [OF y(1), of "{ar_status x}" wk ?r] id by auto
  moreover from this False r have "mark_queue_completed env a run_id wk w = w'"
    by (auto simp: mark_queue_completed_def at_row_def)
  ultimately show thesis using that by (simp add: released_def)
qed

lemma mark_queue_dead_at:
  assumes u: "undisturbed run_id env" and r: "at_row run_id ev w x" and x: "ar_worker x = wk" "ar_status x \<notin> EXECUTING_RUN_STATUSES"
  obtains w' y where "mark_queue_dead env run_id reason wk w = (w', None)" and "at_row run_id ev w' y" and "released y"
    and "ar_status y = ar_status x" and "ar_error_type y = ar_error_type x" and "ar_attempts y = ar_attempts x"
    and "ar_dead_letter_reason y = Some reason"
proof -
  let ?r = "x\<lparr>ar_dead_letter_reason := Some reason, ar_worker := None, ar_lease_expire_time := None\<rparr>"
  have id: "ar_run_id x = run_id" using r by (rule at_row_id)
  obtain y where y: "at_row run_id ev (xe_others env 0 10 w) y" "same_run x y"
    using quiet_stepD [OF undisturbed_others [OF u] r] .
  have "ar_status y \<in> {ar_status x}" "ar_worker y = wk" using y(2) x by (simp_all add: same_run_def)
  then obtain w' where "update_owned (xe_clk env 0 10) ?r {ar_status x} wk (xe_others env 0 10 w) = (w', True)"
      "at_row run_id ev w' (?r\<lparr>ar_update_time := xe_clk env 0 10\<rparr>)"
    using update_owned_at [OF y(1), of "{ar_status x}" wk ?r] id by auto
  moreover from this r have "mark_queue_dead env run_id reason wk w = (w', None)"
    by (simp add: mark_queue_dead_def at_row_def)
  ultimately show thesis using that by (simp add: released_def)
qed

lemma prepare_callback_at:
  assumes u: "undisturbed run_id env" and r: "at_row run_id ev w x" and run: "ar_run_id run = run_id"
    "ar_status x = ar_status run" "ar_status run \<notin> EXECUTING_RUN_STATUSES" "ar_worker x = ar_worker run"
    and p: "prepare_callback env a run w = (w', run')"
  obtains t where "at_row run_id ev w' (run'\<lparr>ar_update_time := t\<rparr>)" and "prepared_from run run'"
proof -
  obtain y where y: "at_row run_id ev (xe_others env a 9 w) y" "same_run x y"
    using quiet_stepD [OF undisturbed_others [OF u] r] .
  obtain st res where p': "prepare_for_run (\<lambda>i. xe_clk env a (20 + i)) (xe_event_id env a) run (w_store (xe_others env a 9 w)) = (st, run', res)"
    and w': "w' = (xe_others env a 9 w)\<lparr>w_store := st\<rparr>" using p by (auto simp: prepare_callback_def Let_def split: prod.splits)
  let ?rows = "s_runs (w_store (xe_others env a 9 w))" and ?g = "owner_guard {ar_status run} (ar_worker run)"
  have wf: "keys_distinct ar_run_id ?rows" using y(1) by (simp add: at_row_def world_wf_def)
  obtain t where st: "s_runs st = snd (update_if_current t run' ?g ?rows)" and prep: "prepared_from run run'"
    using prepare_for_run_runs [OF wf p'] by blast
  have id: "ar_run_id run' = run_id" using prep run(1) by (auto simp: prepared_from_def)
  have win: "fst (update_if_current t run' ?g ?rows)"
    using run_cas.cas_wins_iff [OF wf, of t run' ?g] y run id by (simp add: at_row_def world_row_def same_run_def)
  have "at_row run_id ev w' (run'\<lparr>ar_update_time := t\<rparr>)"
    using run_cas.cas_stores [OF wf win] run_cas.invar_cas [OF wf, of t run' ?g] y(1) id
    by (simp add: w' at_row_def world_wf_def world_row_def st)
  then show thesis using that prep by blast
qed

lemma success_tail:
  assumes u: "undisturbed run_id env" and r: "at_row run_id ev w (run\<lparr>ar_update_time := t\<rparr>)" and id: "ar_run_id run = run_id"
    and run: "ar_status run \<in> {AGENT_SUCCEEDED, SUCCEEDED}" "ar_output run \<noteq> None" "ar_error_type run = None" "ar_worker run = wk"
    and p: "prepare_callback env a run w = (w', run')"
  shows "\<exists>y. at_row run_id ev (mark_queue_completed env a run_id wk w') y \<and> succeeded_row y \<and> released y \<and> ar_attempts y = ar_attempts run"
proof -
  have ne: "ar_status run \<notin> EXECUTING_RUN_STATUSES" using run(1) by (auto simp: status_defs)
  obtain t' where t': "at_row run_id ev w' (run'\<lparr>ar_update_time := t'\<rparr>)" and prep: "prepared_from run run'"
    using prepare_callback_at [OF u r id _ ne _ p] by auto
  have s: "ar_status run' \<in> {SUCCEEDED, WAITING_CALLBACK}" "ar_output run' = ar_output run" "ar_error_type run' = None"
      "ar_worker run' = wk" "ar_attempts run' = ar_attempts run"
    using prep run by (auto simp: prepared_from_def settled_status_def)
  have ne': "ar_status (run'\<lparr>ar_update_time := t'\<rparr>) \<notin> EXECUTING_RUN_STATUSES" using s(1) by (auto simp: status_defs)
  obtain y where "at_row run_id ev (mark_queue_completed env a run_id wk w') y" "released y" "ar_status y = ar_status run'"
      "ar_output y = ar_output run" "ar_error_type y = None" "ar_attempts y = ar_attempts run"
    using mark_queue_completed_at [OF u t' _ ne', of wk a] s by auto
  then show ?thesis using s(1) run(2) by (auto simp: succeeded_row_def)
qed

text \<open>The row of a run that is being executed by \<open>wk\<close> in attempt \<open>a\<close>.\<close>

definition executing_row :: "int \<Rightarrow> string option \<Rightarrow> agent_run \<Rightarrow> bool" where
  "executing_row a wk x = (ar_status x \<in> EXECUTING_RUN_STATUSES \<and> ar_worker x = wk \<and> ar_attempts x = a)"

definition run_object :: "string \<Rightarrow> int \<Rightarrow> string option \<Rightarrow> agent_run \<Rightarrow> bool" where
  "run_object run_id a wk run = (ar_run_id run = run_id \<and> ar_worker run = wk \<and> ar_attempts run = a)"

lemma executing_same_run: "executing_row a wk x \<Longrightarrow> same_run x y \<Longrightarrow> executing_row a wk y"
  by (auto simp: executing_row_def same_run_def)

lemma quiet_executing:
  assumes "quiet_step run_id w w'" and "at_row run_id ev w x" and "executing_row a wk x"
  obtains y where "at_row run_id ev w' y" and "executing_row a wk y"
  using quiet_stepD [OF assms(1,2)] executing_same_run [OF assms(3)] by blast

lemma update_owned_executing:
  assumes "at_row run_id ev w x" and "executing_row a wk x" and "ar_run_id run = run_id"
  obtains w' where "update_owned now run EXECUTING_RUN_STATUSES wk w = (w', True)" and "at_row run_id ev w' (run\<lparr>ar_update_time := now\<rparr>)"
  using update_owned_at [OF assms(1) _ _ assms(3), of EXECUTING_RUN_STATUSES wk now] assms(2) by (auto simp: executing_row_def)

definition attempt_succeeded :: "string \<Rightarrow> nat \<Rightarrow> int \<Rightarrow> world \<Rightarrow> py_exc + agent_run \<Rightarrow> bool" where
  "attempt_succeeded run_id ev a w res = (\<exists>r. res = Inr r \<and> at_row run_id ev w r \<and> succeeded_row r \<and> released r \<and> ar_attempts r = a)"

lemma finalize_at:
  assumes u: "undisturbed run_id env" and r: "at_row run_id ev w x" and x: "executing_row a wk x" and o: "run_object run_id a wk run"
  shows "attempt_succeeded run_id ev a (fst (finalize_run_with_result env k run result wk w)) (snd (finalize_run_with_result env k run result wk w))"
proof -
  define run' where "run' = run\<lparr>ar_output := Some (if er_include_error_in_output result
            then dict_setdefault ''_error'' (JStr (case ar_error_message run of Some m \<Rightarrow> if m = [] then ''error handled by recovery'' else m
              | None \<Rightarrow> ''error handled by recovery'')) (er_final_output result) else er_final_output result),
            ar_error_type := None, ar_error_message := None,
            ar_dead_letter_reason := None, ar_status := SUCCEEDED, ar_current_step := Some ''error_recovery'',
            ar_finish_time := Some (xe_clk env k 4)\<rparr>"
  have f: "ar_run_id run' = run_id" "ar_worker run' = wk" "ar_attempts run' = a" "ar_status run' = SUCCEEDED"
      "ar_output run' \<noteq> None" "ar_error_type run' = None" using o by (simp_all add: run'_def run_object_def)
  obtain y where y: "at_row run_id ev (xe_others env k 5 w) y" "executing_row a wk y"
    using quiet_executing [OF undisturbed_others [OF u] r x] .
  obtain w1 where w1: "update_owned (xe_clk env k 5) run' EXECUTING_RUN_STATUSES wk (xe_others env k 5 w) = (w1, True)"
      "at_row run_id ev w1 (run'\<lparr>ar_update_time := xe_clk env k 5\<rparr>)"
    using update_owned_executing [OF y f(1)] .
  define w2 where "w2 = (if callback_url run' = None then w1 else fst (prepare_callback env k run' w1))"
  have fin: "finalize_run_with_result env k run result wk w =
      (mark_queue_completed env k run_id wk w2, require_run run_id (mark_queue_completed env k run_id wk w2))"
    using w1(1) f(1) o unfolding finalize_run_with_result_def Let_def run'_def [symmetric] w2_def by (simp add: run_object_def)
  have "\<exists>z. at_row run_id ev (mark_queue_completed env k run_id wk w2) z \<and> succeeded_row z \<and> released z \<and> ar_attempts z = a"
  proof (cases "callback_url run' = None")
    case True
    have "ar_status (run'\<lparr>ar_update_time := xe_clk env k 5\<rparr>) \<notin> EXECUTING_RUN_STATUSES" using f(4) by (simp add: status_defs)
    then obtain z where "at_row run_id ev (mark_queue_completed env k run_id wk w1) z" "released z" "ar_status z = SUCCEEDED"
        "ar_output z = ar_output run'" "ar_error_type z = None" "ar_attempts z = a"
      using mark_queue_completed_at [OF u w1(2), of wk k] f by auto
    then show ?thesis using True f(5) by (auto simp: w2_def succeeded_row_def)
  next
    case False
    obtain w2' run'' where p: "prepare_callback env k run' w1 = (w2', run'')" by fastforce
    have "ar_status run' \<in> {AGENT_SUCCEEDED, SUCCEEDED}" using f(4) by simp
    from success_tail [OF u w1(2) f(1) this f(5,6,2) p] False p f(3) show ?thesis by (auto simp: w2_def)
  qed
  then show ?thesis unfolding fin attempt_succeeded_def by (auto simp: at_row_def)
qed

lemma try_agent_at:
  assumes u: "undisturbed run_id env" and r: "at_row run_id ev w x" and x: "executing_row a wk x" and o: "run_object run_id a wk run"
    and t: "try_agent env agent timeout k wk run w = (w1, run1, res)"
  shows "attempt_succeeded run_id ev a w1 res
     \<or> (\<exists>e y. res = Inl e \<and> e \<noteq> CancelledError \<and> (\<forall>m. e \<noteq> RunCancelledError m) \<and> at_row run_id ev w1 y \<and> executing_row a wk y
          \<and> run_object run_id a wk run1)"
proof -
  obtain w0 md out where rt: "xe_runtime env timeout agent run w = (w0, md, out)" by (metis prod_cases3)
  have q: "quiet_step run_id w w0" and out: "out \<noteq> Inl CancelledError" "out \<noteq> Inl (RunCancelledError m)" for m
    using u rt unfolding undisturbed_def by (metis fst_conv snd_conv)+
  obtain y where y: "at_row run_id ev w0 y" "executing_row a wk y" using quiet_executing [OF q r x] .
  have row: "require_run run_id w0 = Inr y" using y(1) by (simp add: at_row_def)
  show ?thesis
  proof (cases "\<exists>d. out = Inr d \<and> validate_output (xe_validate env) agent d = Inr ()")
    case False
    have v: "validate_output (xe_validate env) agent d \<noteq> Inl CancelledError"
        "validate_output (xe_validate env) agent d \<noteq> Inl (RunCancelledError m)" for d m
      using u by (auto simp: undisturbed_def validate_output_def split: sum.splits option.splits)
    have "\<exists>e. res = Inl e \<and> e \<noteq> CancelledError \<and> (\<forall>m. e \<noteq> RunCancelledError m)" "w1 = w0" "run1 = run\<lparr>ar_metadata := md\<rparr>"
      using t rt False out v unfolding try_agent_def Let_def by (auto split: sum.splits)
    then show ?thesis using y o by (auto simp: run_object_def)
  next
    case True
    then obtain d where d: "out = Inr d" "validate_output (xe_validate env) agent d = Inr ()" by blast
    define run2 where "run2 = y\<lparr>ar_output := Some d, ar_error_type := None, ar_error_message := None,
                   ar_dead_letter_reason := None, ar_status := AGENT_SUCCEEDED, ar_current_step := Some ''callback'',
                   ar_finish_time := Some (xe_clk env k 2)\<rparr>"
    have f: "ar_run_id run2 = run_id" "ar_worker run2 = wk" "ar_attempts run2 = a" "ar_status run2 \<in> {AGENT_SUCCEEDED, SUCCEEDED}"
        "ar_output run2 \<noteq> None" "ar_error_type run2 = None"
      using y at_row_id [OF y(1)] by (simp_all add: run2_def executing_row_def)
    obtain z where z: "at_row run_id ev (xe_others env k 3 w0) z" "executing_row a wk z"
      using quiet_executing [OF undisturbed_others [OF u] y] .
    obtain w2 where w2: "update_owned (xe_clk env k 3) run2 EXECUTING_RUN_STATUSES wk (xe_others env k 3 w0) = (w2, True)"
        "at_row run_id ev w2 (run2\<lparr>ar_update_time := xe_clk env k 3\<rparr>)"
      using update_owned_executing [OF z f(1)] .
    obtain w3 run3 where p: "prepare_callback env k run2 w2 = (w3, run3)" by fastforce
    have "w1 = mark_queue_completed env k run_id wk w3" "res = require_run run_id w1"
      using t rt d row w2(1) p o unfolding try_agent_def Let_def run_object_def by (auto simp: run2_def [symmetric])
    with success_tail [OF u w2(2) f(1,4-6,2) p] f(3) show ?thesis
      by (auto simp: attempt_succeeded_def at_row_def)
  qed
qed

lemma recover_at:
  assumes u: "undisturbed run_id env" and r: "at_row run_id ev w x" and x: "executing_row a wk x" and o: "run_object run_id a wk run"
    and c: "recover env agent k wk run kind e w = (w1, res)"
  shows "(\<exists>r. res = Some r \<and> attempt_succeeded run_id ev a w1 r)
     \<or> (res = None \<and> (\<exists>y. at_row run_id ev w1 y \<and> executing_row a wk y))"
proof (cases "\<exists>kd hs. kind = Some kd \<and> xe_handlers env = Some hs")
  case False
  with c r x show ?thesis by (auto simp: recover_def split: option.splits)
next
  case True
  then obtain kd hs where kh: "kind = Some kd" "xe_handlers env = Some hs" by blast
  obtain w2 hr where h: "handle hs kd (error_input run agent e) w = (w2, hr)" by fastforce
  have "quiet_step run_id w w2 \<and> (\<exists>z. hr = Inr z)"
  proof (cases "map_of hs kd")
    case None
    with h show ?thesis by (auto simp: handle_def quiet_step_def same_run_def)
  next
    case (Some f)
    with h u kh show ?thesis unfolding undisturbed_def handle_def by (metis fst_conv snd_conv option.simps(5))
  qed
  then obtain z where q: "quiet_step run_id w w2" and z: "hr = Inr z" by blast
  obtain y where y: "at_row run_id ev w2 y" "executing_row a wk y" using quiet_executing [OF q r x] .
  show ?thesis
  proof (cases z)
    case None
    with c kh h z y show ?thesis by (auto simp: recover_def)
  next
    case (Some result)
    with c kh h z finalize_at [OF u y o, of k result] show ?thesis
      by (cases "finalize_run_with_result env k run result wk w2") (auto simp: recover_def)
  qed
qed

text \<open>A failed attempt is recorded in the row, with the status of the run object.\<close>

definition attempt_failed :: "string \<Rightarrow> nat \<Rightarrow> int \<Rightarrow> string option \<Rightarrow> world \<Rightarrow> agent_run \<Rightarrow> bool" where
  "attempt_failed run_id ev a wk w run = (run_object run_id a wk run \<and> ar_error_type run \<noteq> None
     \<and> ar_status run \<in> {FAILED, TIMEOUT, RETRYING} \<and> (\<exists>y. at_row run_id ev w y \<and> same_run run y))"

lemma record_failure_at:
  assumes u: "undisturbed run_id env" and r: "at_row run_id ev w x" and x: "executing_row a wk x" and o: "run_object run_id a wk run"
    and e: "ar_error_type run = Some et" "ar_status run \<in> {FAILED, TIMEOUT, RETRYING}" "is_retryable et \<or> ar_status run = FAILED"
      "k < attempts \<or> ar_status run \<noteq> RETRYING"
    and c: "record_failure_and_wait env agent attempts k wk run w = (w1, s)"
  shows "attempt_failed run_id ev a wk w1 run \<and> ((s = Break run \<and> ar_status run = FAILED)
     \<or> (s = Next run \<and> (k < attempts \<or> ar_status run \<noteq> RETRYING))) \<and> (s = Next run \<longleftrightarrow> is_retryable et)"
proof -
  have id: "ar_run_id run = run_id" using o by (simp add: run_object_def)
  obtain y where y: "at_row run_id ev (xe_others env k 6 w) y" "executing_row a wk y"
    using quiet_executing [OF undisturbed_others [OF u] r x] .
  obtain w2 where w2: "update_owned (xe_clk env k 6) run EXECUTING_RUN_STATUSES wk (xe_others env k 6 w) = (w2, True)"
      "at_row run_id ev w2 (run\<lparr>ar_update_time := xe_clk env k 6\<rparr>)"
    using update_owned_executing [OF y id] .
  define w3 where "w3 = log_attempt_failed env k run w2"
  have w3: "at_row run_id ev w3 (run\<lparr>ar_update_time := xe_clk env k 6\<rparr>)"
    using w2(2) by (simp add: w3_def log_attempt_failed_def at_row_def world_wf_def world_row_def)
  have same: "same_run run (run\<lparr>ar_update_time := xe_clk env k 6\<rparr>)" by (simp add: same_run_def)
  obtain w4 se where sl: "xe_sleep env (delay_for_attempt (as_retry_policy agent) k) w3 = (w4, se)" by fastforce
  have "quiet_step run_id w3 w4" and se: "se = None" using u sl unfolding undisturbed_def by (metis fst_conv snd_conv)+
  then obtain z where z: "at_row run_id ev w4 z" "same_run (run\<lparr>ar_update_time := xe_clk env k 6\<rparr>) z" using quiet_stepD w3 by blast
  have z': "same_run run z" using z(2) by (simp add: same_run_def)
  have "(w1, s) = (if \<not> is_retryable et then (w3, Break run) else if k < attempts then (w4, Next run) else (w3, Next run))"
    using c w2(1) sl se e(1) by (simp add: record_failure_and_wait_def Let_def w3_def split: if_splits)
  then have "w1 \<in> {w3, w4}" "(s = Break run \<and> ar_status run = FAILED) \<or> (s = Next run \<and> (k < attempts \<or> ar_status run \<noteq> RETRYING))"
    "s = Next run \<longleftrightarrow> is_retryable et"
    using e(3,4) by (auto split: if_splits)
  then show ?thesis using o e(1,2) w3 same z(1) z' unfolding attempt_failed_def by auto
qed

lemma attempt_body_at:
  assumes u: "undisturbed run_id env" and r: "at_row run_id ev w x" and x: "executing_row a wk x" and o: "run_object run_id a wk run"
    and b: "attempt_body env agent attempts timeout k wk run w = (w1, s)"
  shows "(\<exists>r. s = Return r \<and> attempt_succeeded run_id ev a w1 r)
     \<or> (\<exists>run'. attempt_failed run_id ev a wk w1 run' \<and> ((s = Break run' \<and> ar_status run' = FAILED)
          \<or> (s = Next run' \<and> (k < attempts \<or> ar_status run' \<noteq> RETRYING))))"
proof -
  obtain w2 run2 res where t: "try_agent env agent timeout k wk run w = (w2, run2, res)" by (metis prod_cases3)
  from try_agent_at [OF u r x o t] show ?thesis
  proof
    assume "attempt_succeeded run_id ev a w2 res"
    then show ?thesis using b t by (auto simp: attempt_body_def attempt_succeeded_def)
  next
    assume "\<exists>e y. res = Inl e \<and> e \<noteq> CancelledError \<and> (\<forall>m. e \<noteq> RunCancelledError m) \<and> at_row run_id ev w2 y \<and> executing_row a wk y
        \<and> run_object run_id a wk run2"
    then obtain e y where e: "res = Inl e" "e \<noteq> CancelledError" "\<And>m. e \<noteq> RunCancelledError m"
      and y: "at_row run_id ev w2 y" "executing_row a wk y" and o2: "run_object run_id a wk run2" by blast
    obtain run3 kind where f: "failed_attempt timeout (k < attempts) e run2 = (run3, kind)" by fastforce
    obtain st et msg where shape: "run3 = run2\<lparr>ar_status := st, ar_error_type := Some et, ar_error_message := Some msg\<rparr>"
      and st: "st \<in> {FAILED, TIMEOUT, RETRYING}" "k < attempts \<or> st \<noteq> RETRYING" "is_retryable et \<or> st = FAILED"
      by (rule failed_attempt_shape [OF f])
    have o3: "run_object run_id a wk run3" using o2 by (simp add: shape run_object_def)
    obtain w3 rr where rc: "recover env agent k wk run3 kind e w2 = (w3, rr)" by fastforce
    have body: "(w1, s) = (case rr of Some r \<Rightarrow> (w3, Return r) | None \<Rightarrow> record_failure_and_wait env agent attempts k wk run3 w3)"
      using b t e f rc unfolding attempt_body_def by (cases e) (auto split: option.splits)
    from recover_at [OF u y o3 rc] show ?thesis
    proof
      assume "\<exists>r. rr = Some r \<and> attempt_succeeded run_id ev a w3 r"
      then show ?thesis using body by auto
    next
      assume "rr = None \<and> (\<exists>y. at_row run_id ev w3 y \<and> executing_row a wk y)"
      then obtain z where z: "rr = None" "at_row run_id ev w3 z" "executing_row a wk z" by blast
      have "record_failure_and_wait env agent attempts k wk run3 w3 = (w1, s)" using body z(1) by simp
      from record_failure_at [OF u z(2,3) o3 _ _ _ _ this] st show ?thesis by (auto simp: shape)
    qed
  qed
qed

lemma attempt_once_at:
  assumes u: "undisturbed run_id env" and r: "at_row run_id ev w x" and x: "ar_status x \<noteq> CANCELED" "ar_worker x = wk"
    and c: "attempt_once env agent attempts timeout a wk ev run_id w = (w1, s)"
  shows "(\<exists>r. s = Return r \<and> attempt_succeeded run_id ev a w1 r)
     \<or> (\<exists>run'. attempt_failed run_id ev a wk w1 run' \<and> ((s = Break run' \<and> ar_status run' = FAILED)
          \<or> (s = Next run' \<and> (a < attempts \<or> ar_status run' \<noteq> RETRYING))))"
proof -
  let ?run = "x\<lparr>ar_status := (if a = 1 then RUNNING else RETRYING),
      ar_start_time := (case ar_start_time x of Some t \<Rightarrow> Some t | None \<Rightarrow> Some (xe_clk env a 0)),
      ar_attempts := a, ar_current_step := Some ''agent''\<rparr>"
  have id: "ar_run_id ?run = run_id" using at_row_id [OF r] by simp
  obtain y where y: "at_row run_id ev (xe_others env a 1 w) y" "same_run x y"
    using quiet_stepD [OF undisturbed_others [OF u] r] .
  have "map_option ar_status (world_row run_id (xe_others env a 1 w)) = map_option ar_status (world_row run_id w)"
    using u by (simp add: undisturbed_def)
  then have "ar_status y \<in> {ar_status x}" "ar_worker y = wk" using y r x by (auto simp: at_row_def same_run_def)
  then obtain w2 where w2: "update_owned (xe_clk env a 1) ?run {ar_status x} wk (xe_others env a 1 w) = (w2, True)"
      "at_row run_id ev w2 (?run\<lparr>ar_update_time := xe_clk env a 1\<rparr>)"
    by (rule update_owned_at [OF y(1) _ _ id])
  have ex: "executing_row a wk (?run\<lparr>ar_update_time := xe_clk env a 1\<rparr>)" using x by (simp add: executing_row_def status_defs)
  obtain w3 he where h: "xe_hook_dequeued env ?run w2 = (w3, he)" by fastforce
  have q: "quiet_step run_id w2 w3" and he: "he = None" using u h unfolding undisturbed_def by (metis fst_conv snd_conv)+
  obtain z where z: "at_row run_id ev w3 z" "executing_row a wk z" using quiet_executing [OF q w2(2) ex] .
  have row: "require_run run_id w = Inr x" "ev \<notin> w_set_events w" using r by (simp_all add: at_row_def)
  have "attempt_once env agent attempts timeout a wk ev run_id w = attempt_body env agent attempts timeout a wk ?run w3"
    unfolding attempt_once_def Let_def by (simp only: row sum.case x w2(1) h he prod.case option.case bool.case if_False HOL.simp_thms)
  then have b: "attempt_body env agent attempts timeout a wk ?run w3 = (w1, s)" using c by simp
  have "run_object run_id a wk ?run" using id x by (simp add: run_object_def)
  from attempt_body_at [OF u z this b] show ?thesis .
qed

lemma finish_run_at:
  assumes u: "undisturbed run_id env" and f: "attempt_failed run_id ev a wk w run" and s: "ar_status run \<noteq> RETRYING"
  shows "\<exists>w' r. finish_run env wk run w = (w', Inr r) \<and> at_row run_id ev w' r \<and> failed_row r \<and> released r
     \<and> ar_attempts r = a \<and> ar_dead_letter_reason r \<noteq> None"
proof -
  let ?run = "run\<lparr>ar_finish_time := Some (xe_clk env 0 0)\<rparr>"
  have run: "ar_run_id run = run_id" "ar_worker run = wk" "ar_attempts run = a" "ar_error_type run \<noteq> None" "ar_status run \<in> {FAILED, TIMEOUT}"
    using f s by (auto simp: attempt_failed_def run_object_def)
  have ne: "ar_status run \<notin> EXECUTING_RUN_STATUSES" using run(5) by (auto simp: status_defs)
  obtain x where x: "at_row run_id ev w x" "same_run run x" using f by (auto simp: attempt_failed_def)
  obtain y where y: "at_row run_id ev (xe_others env 0 1 w) y" "same_run x y"
    using quiet_stepD [OF undisturbed_others [OF u] x(1)] .
  have "ar_status y \<in> {ar_status run}" "ar_worker y = wk" using x y ne run(2) by (auto simp: same_run_def)
  then obtain w1 where w1: "update_owned (xe_clk env 0 1) ?run {ar_status run} wk (xe_others env 0 1 w) = (w1, True)"
      "at_row run_id ev w1 (?run\<lparr>ar_update_time := xe_clk env 0 1\<rparr>)"
    using update_owned_at [OF y(1), of "{ar_status run}" wk ?run] run(1) by auto
  define err where "err = (case ar_error_message ?run of Some m \<Rightarrow> if m = [] then None else Some (RuntimeError m) | None \<Rightarrow> None)"
  obtain w2 he where h: "xe_hook_end env ?run err w1 = (w2, he)" by fastforce
  have q: "quiet_step run_id w1 w2" and he: "he = None" using u h unfolding undisturbed_def by (metis fst_conv snd_conv)+
  obtain z where z: "at_row run_id ev w2 z" "same_run (?run\<lparr>ar_update_time := xe_clk env 0 1\<rparr>) z" using quiet_stepD [OF q w1(2)] .
  have zf: "ar_status z = ar_status run" "ar_worker z = wk" "ar_attempts z = a" "ar_error_type z = ar_error_type run"
    using z(2) ne run by (auto simp: same_run_def)
  obtain w3 run3 where p: "(if callback_url ?run = None then (w2, ?run) else prepare_callback env 0 ?run w2) = (w3, run3)" by fastforce
  have "\<exists>v. at_row run_id ev w3 v \<and> ar_status v = ar_status run \<and> ar_worker v = wk \<and> ar_attempts v = a \<and> ar_error_type v = ar_error_type run
      \<and> ar_status run3 = ar_status run"
  proof (cases "callback_url ?run = None")
    case True
    with p z zf show ?thesis by auto
  next
    case False
    have args: "ar_run_id ?run = run_id" "ar_status z = ar_status ?run" "ar_status ?run \<notin> EXECUTING_RUN_STATUSES" "ar_worker z = ar_worker ?run"
      using run zf ne by simp_all
    have "prepare_callback env 0 ?run w2 = (w3, run3)" using p False by simp
    then obtain t where t: "at_row run_id ev w3 (run3\<lparr>ar_update_time := t\<rparr>)" and prep: "prepared_from ?run run3"
      using prepare_callback_at [OF u z(1) args] by blast
    have "ar_status run3 = ar_status run" "ar_worker run3 = wk" "ar_attempts run3 = a" "ar_error_type run3 = ar_error_type run"
      using prep run by (auto simp: prepared_from_def settled_status_def)
    with t show ?thesis by auto
  qed
  then obtain v where v: "at_row run_id ev w3 v" "ar_status v = ar_status run" "ar_worker v = wk" "ar_attempts v = a"
      "ar_error_type v = ar_error_type run" "ar_status run3 = ar_status run" by blast
  define reason where "reason = (case ar_error_message run3 of Some m \<Rightarrow> if m = [] then run_status_value (ar_status run3) else m
      | None \<Rightarrow> run_status_value (ar_status run3))"
  have "ar_status v \<notin> EXECUTING_RUN_STATUSES" using v(2) ne by simp
  from mark_queue_dead_at [OF u v(1,3) this, of reason] obtain w4 r where
    d: "mark_queue_dead env run_id reason wk w3 = (w4, None)" "at_row run_id ev w4 r" "released r" "ar_status r = ar_status v"
       "ar_error_type r = ar_error_type v" "ar_attempts r = ar_attempts v" "ar_dead_letter_reason r = Some reason" by blast
  have in3: "ar_status run3 \<in> {FAILED, TIMEOUT}" using v(6) run(5) by simp
  have "finish_run env wk run w = (w4, require_run run_id w4)"
    using w1(1) h he p d(1) run(1) in3 unfolding finish_run_def Let_def err_def [symmetric] reason_def
    by (simp add: err_def)
  then show ?thesis using d v run by (auto simp: failed_row_def at_row_def)
qed

definition settled_row :: "int \<Rightarrow> int \<Rightarrow> agent_run \<Rightarrow> bool" where
  "settled_row lo hi r = (released r \<and> lo \<le> ar_attempts r \<and> ar_attempts r \<le> hi
     \<and> (succeeded_row r \<or> (failed_row r \<and> ar_dead_letter_reason r \<noteq> None)))"

lemma attempts_loop_at:
  assumes u: "undisturbed run_id env" and "at_row run_id ev w x" and "ar_status x \<noteq> CANCELED" "ar_worker x = wk"
    and "ar_run_id run = run_id" and "a \<le> attempts"
  shows "\<exists>w' r. attempts_loop env agent attempts timeout wk ev [a..attempts] run w = (w', Inr r)
     \<and> at_row run_id ev w' r \<and> settled_row a attempts r"
  using assms(2-)
proof (induction "nat (attempts - a)" arbitrary: a w x run rule: less_induct)
  case less
  have ls: "[a..attempts] = a # [a + 1..attempts]" using less.prems by (simp add: upto_rec1)
  obtain w1 s where o: "attempt_once env agent attempts timeout a wk ev run_id w = (w1, s)" by fastforce
  have fin: ?case if "attempt_failed run_id ev a wk w1 run'" "ar_status run' \<noteq> RETRYING"
      "attempts_loop env agent attempts timeout wk ev [a..attempts] run w = finish_run env wk run' w1" for run'
    using finish_run_at [OF u that(1,2)] that(3) less.prems(5) by (auto simp: settled_row_def)
  have again: ?case if f: "attempt_failed run_id ev a wk w1 run'" and s: "s = Next run'" "a < attempts" for run'
  proof -
    obtain y where y: "at_row run_id ev w1 y" "same_run run' y" using f by (auto simp: attempt_failed_def)
    have st: "ar_status run' \<in> {FAILED, TIMEOUT, RETRYING}" "ar_worker run' = wk" "ar_run_id run' = run_id"
      using f by (auto simp: attempt_failed_def run_object_def)
    have "ar_status y \<in> {FAILED, TIMEOUT} \<union> EXECUTING_RUN_STATUSES" "ar_worker y = wk"
      using st y(2) unfolding same_run_def EXECUTING_RUN_STATUSES_def by (metis UnI1 UnI2 insertE insertI1 insert_commute singletonD, metis)
    then have "ar_status y \<noteq> CANCELED" "ar_worker y = wk" "ar_run_id run' = run_id" using st(3) by (auto simp: status_defs)
    from less.hyps [OF _ y(1) this, of "a + 1"] s(2) obtain w' r where
      "attempts_loop env agent attempts timeout wk ev [a + 1..attempts] run' w1 = (w', Inr r)" "at_row run_id ev w' r"
      "settled_row (a + 1) attempts r" by auto
    then show ?case using o s(1) less.prems(4) by (auto simp: ls settled_row_def)
  qed
  from attempt_once_at [OF u less.prems(1-3) o] show ?case
  proof (elim disjE exE conjE)
    fix r assume "s = Return r" "attempt_succeeded run_id ev a w1 r"
    then show ?case using o less.prems(4,5) by (auto simp: ls attempt_succeeded_def settled_row_def)
  next
    fix run' assume f: "attempt_failed run_id ev a wk w1 run'" and s: "s = Break run'" "ar_status run' = FAILED"
    then show ?case using fin [OF f] o less.prems(4) by (simp add: ls)
  next
    fix run' assume "attempt_failed run_id ev a wk w1 run'" and "s = Next run'" "a < attempts"
    then show ?case by (rule again)
  next
    fix run' assume f: "attempt_failed run_id ev a wk w1 run'" and s: "s = Next run'" "ar_status run' \<noteq> RETRYING"
    show ?case
    proof (cases "a < attempts")
      case False
      then show ?thesis using fin [OF f s(2)] o s(1) less.prems(4) by (simp add: ls)
    qed (rule again [OF f s(1)])
  qed
qed

text \<open>A failing agent call without error handlers: the attempt is recorded and, if the error is retryable, tried again.\<close>

lemma attempt_body_retry:
  assumes u: "undisturbed run_id env" and n: "xe_handlers env = None" and r: "at_row run_id ev w x" and x: "executing_row a wk x"
    and o: "run_object run_id a wk run" and t: "try_agent env agent timeout k wk run w = (w1, run1, Inl e)"
    and c: "classify timeout (k < attempts) e = (s, et, msg, kind)" and et: "is_retryable et"
  shows "\<exists>w' y. attempt_body env agent attempts timeout k wk run w =
       (w', Next (run1\<lparr>ar_status := s, ar_error_type := Some et, ar_error_message := Some msg\<rparr>))
     \<and> at_row run_id ev w' y \<and> same_run (run1\<lparr>ar_status := s, ar_error_type := Some et, ar_error_message := Some msg\<rparr>) y"
proof -
  let ?run = "run1\<lparr>ar_status := s, ar_error_type := Some et, ar_error_message := Some msg\<rparr>"
  have f: "failed_attempt timeout (k < attempts) e run1 = (?run, kind)" by (simp add: failed_attempt_def c)
  obtain y where e: "e \<noteq> CancelledError" "\<And>m. e \<noteq> RunCancelledError m" and y: "at_row run_id ev w1 y" "executing_row a wk y"
    and o1: "run_object run_id a wk run1"
    using try_agent_at [OF u r x o t] by (auto simp: attempt_succeeded_def)
  note st = classify_status [OF c]
  have "run_object run_id a wk ?run" using o1 by (simp add: run_object_def)
  moreover obtain w2 st2 where w2: "record_failure_and_wait env agent attempts k wk ?run w1 = (w2, st2)" by fastforce
  ultimately have "attempt_failed run_id ev a wk w2 ?run \<and> st2 = Next ?run"
    using record_failure_at [OF u y _ _ _ _ _ w2] st et by auto
  moreover have "attempt_body env agent attempts timeout k wk run w = record_failure_and_wait env agent attempts k wk ?run w1"
    using t e f n unfolding attempt_body_def recover_def by (cases e) (auto split: option.splits)
  ultimately show ?thesis using w2 by (auto simp: attempt_failed_def)
qed

section \<open>A concrete environment\<close>

text \<open>An agent with a fixed outcome and nobody else around.\<close>

definition demo_exec_env :: "py_exc + dict \<Rightarrow> string option \<Rightarrow> exec_env" where
  "demo_exec_env outcome violation =
     \<lparr>xe_clk = (\<lambda>a i. 0), xe_event_id = (\<lambda>_. ''E''), xe_others = (\<lambda>a i w. w), xe_hook_dequeued = (\<lambda>r w. (w, None)),
      xe_hook_end = (\<lambda>r e w. (w, None)), xe_runtime = (\<lambda>t ag r w. (w, ar_metadata r, outcome)),
      xe_validate = (\<lambda>_ _. Inr violation), xe_handlers = None, xe_sleep = (\<lambda>d w. (w, None))\<rparr>"

definition demo_run :: "string option \<Rightarrow> run_status \<Rightarrow> agent_run" where
  "demo_run worker status = (new_agent_run ''R'' ''T'' 0 ''t'' ''me'' ''q'')\<lparr>ar_worker := worker, ar_status := status\<rparr>"

definition demo_world :: "agent_run \<Rightarrow> world" where
  "demo_world run = \<lparr>w_store = demo_store run [], w_events = [], w_set_events = {}, w_next_event = 0, w_children = [], w_tasks = []\<rparr>"

lemma demo_world_simps [simp]:
  "world_wf (demo_world r)" "world_row k (demo_world r) = (if ar_run_id r = k then Some r else None)"
  "w_set_events (demo_world r) = {}" "w_next_event (demo_world r) = 0"
  by (simp_all add: demo_world_def demo_store_def world_wf_def world_row_def keys_distinct_def runs_get_def)

lemma demo_run_simps [simp]:
  "ar_run_id (demo_run wk s) = ''R''" "ar_worker (demo_run wk s) = wk" "ar_status (demo_run wk s) = s" "ar_attempts (demo_run wk s) = 0"
  by (simp_all add: demo_run_def new_agent_run_def)

lemma quiet_step_refl [simp]: "quiet_step run_id w w"
  by (simp add: quiet_step_def same_run_def)

lemma undisturbed_demo:
  "outcome \<noteq> Inl CancelledError \<Longrightarrow> (\<And>m. outcome \<noteq> Inl (RunCancelledError m)) \<Longrightarrow> undisturbed run_id (demo_exec_env outcome v)"
  by (simp add: undisturbed_def demo_exec_env_def)

section \<open>Properties\<close>

text \<open>
  C5: An execution that lost its run stays out of its way. If, when an attempt's agent call
  ends, the row of the run has been cancelled or belongs to another worker (\<open>P\<close> describes how
  that party left it, and whatever it does next keeps \<open>P\<close>), then whatever the agent returned or
  raised, the execution ends with this attempt and the row still satisfies \<open>P\<close>: no result,
  error, callback or queue mark of the lost execution reaches it.
\<close>

theorem lost_run_is_left_alone:
  assumes "\<forall>x. P x \<longrightarrow> ar_worker x \<noteq> worker_id \<or> ar_status x = CANCELED"
    and "others_keep (holds P run_id) env" and "ar_run_id run = run_id"
    and "holds P run_id (fst (xe_runtime env timeout agent run w))"
    and "attempt_body env agent attempts timeout a worker_id run w = (w', s)"
  shows "holds P run_id w' \<and> (\<exists>r. s = Return r)"
  using attempt_body_blocked [OF assms(1,2,4,3,5)] .

theorem lost_run_is_left_alone_witness:
  "let env = (demo_exec_env (Inr []) None)\<lparr>xe_runtime := \<lambda>t ag r w. (demo_world (demo_run (Some ''w2'') RUNNING), [], Inr [])\<rparr>;
       r = demo_run (Some ''w1'') RUNNING; (w', s) = attempt_body env (demo_agent ''a'' ''1'' [''t'']) 3 60 1 (Some ''w1'') r (demo_world r)
   in holds (\<lambda>x. x = demo_run (Some ''w2'') RUNNING) ''R'' w' \<and> (\<exists>res. s = Return res)"
proof -
  let ?env = "(demo_exec_env (Inr []) None)\<lparr>xe_runtime := \<lambda>t ag r w. (demo_world (demo_run (Some ''w2'') RUNNING), [], Inr [])\<rparr>"
  let ?r = "demo_run (Some ''w1'') RUNNING" and ?P = "\<lambda>x. x = demo_run (Some ''w2'') RUNNING"
  obtain w' s where b: "attempt_body ?env (demo_agent ''a'' ''1'' [''t'']) 3 60 1 (Some ''w1'') ?r (demo_world ?r) = (w', s)" by fastforce
  have k: "others_keep (holds ?P ''R'') ?env" by (simp add: others_keep_def demo_exec_env_def)
  have P: "\<forall>x. ?P x \<longrightarrow> ar_worker x \<noteq> Some ''w1'' \<or> ar_status x = CANCELED" by simp
  have lands: "holds ?P ''R'' (fst (xe_runtime ?env 60 (demo_agent ''a'' ''1'' [''t'']) ?r (demo_world ?r)))" by (simp add: holds_def)
  have "holds ?P ''R'' w' \<and> (\<exists>res. s = Return res)"
    by (rule lost_run_is_left_alone [OF P k _ lands b]) simp
  then show ?thesis using b by (simp add: Let_def)
qed

text \<open>
  Nobody executes a run they do not own. If a run's row belongs to somebody else (and the
  other party keeps it so), executing it, with any attempt budget, changes nothing in the row.
\<close>

theorem execution_needs_ownership:
  assumes "\<forall>x. P x \<longrightarrow> ar_worker x \<noteq> worker_id" and "others_keep (holds P run_id) env" and "holds P run_id w"
  shows "holds P run_id (fst (execute env vk reg run_id agent_name agent_version worker_id w))"
proof -
  have "holds P run_id (fst (execute_with_cancel env run agent ev worker_id (w\<lparr>w_events := es, w_next_event := n\<rparr>)))"
    if "ar_run_id run = run_id" for run agent ev es n
    unfolding execute_with_cancel_def Let_def using attempts_loop_blocked [OF assms(1,2) _ that] assms(3) by simp
  moreover obtain x where "world_row run_id w = Some x" "ar_run_id x = run_id" using assms(3) world_row_id by (auto simp: holds_def)
  ultimately show ?thesis using assms(3)
    by (auto simp: execute_def Let_def split: sum.splits prod.splits) (metis fst_conv holds_events)+
qed

theorem execution_needs_ownership_witness:
  "let r = demo_run (Some ''w2'') RUNNING
   in holds (\<lambda>x. x = r) ''R'' (fst (execute (demo_exec_env (Inr []) None) length
        \<lparr>reg_agents = [((''a'', ''1''), demo_agent ''a'' ''1'' [''t''])], reg_routes = []\<rparr> ''R'' ''a'' ''1'' (Some ''w1'') (demo_world r)))"
proof -
  let ?r = "demo_run (Some ''w2'') RUNNING"
  have "others_keep (holds (\<lambda>x. x = ?r) ''R'') (demo_exec_env (Inr []) None)" by (simp add: others_keep_def demo_exec_env_def)
  moreover have "holds (\<lambda>x. x = ?r) ''R'' (demo_world ?r)" by (simp add: holds_def)
  ultimately show ?thesis
    using execution_needs_ownership [of "\<lambda>x. x = ?r" "Some ''w1''" "''R''" "demo_exec_env (Inr []) None" "demo_world ?r"] by (simp add: Let_def)
qed

text \<open>
  C6: Every undisturbed execution settles its run. As long as nobody else moves the run, an
  execution of a run it owns with attempts left terminates, returns the stored row, and that row
  is settled: the lease is released and the run has either succeeded (with an output, no error,
  possibly waiting for its callback) or failed or timed out, with its error and a dead-letter
  reason recorded; the attempt counter never exceeds the agent's retry policy.
\<close>

theorem execute_settles:
  assumes "undisturbed run_id env" and "world_wf w" and "world_row run_id w = Some x"
    and "ar_status x \<noteq> CANCELED" and "ar_worker x = worker_id" and "w_next_event w \<notin> w_set_events w"
    and "registry_get vk agent_name (Some agent_version) reg = Inr agent"
    and "ar_attempts x < max 1 (rp_max_attempts (as_retry_policy agent))"
  shows "\<exists>w' r. execute env vk reg run_id agent_name agent_version worker_id w = (w', Inr r)
     \<and> world_row run_id w' = Some r
     \<and> settled_row (ar_attempts x + 1) (max 1 (rp_max_attempts (as_retry_policy agent))) r"
proof -
  let ?ev = "w_next_event w" and ?max = "max 1 (rp_max_attempts (as_retry_policy agent))"
  let ?w = "w\<lparr>w_events := AList.update run_id ?ev (w_events w), w_next_event := Suc ?ev\<rparr>"
  let ?timeout = "case ar_timeout_seconds x of Some t \<Rightarrow> if t = 0 then as_timeout_seconds agent else t | None \<Rightarrow> as_timeout_seconds agent"
  have r: "at_row run_id ?ev ?w x" using assms(2,3,6) by (simp add: at_row_def world_wf_def world_row_def)
  obtain w' y where l: "attempts_loop env agent ?max ?timeout worker_id ?ev [ar_attempts x + 1..?max] x ?w = (w', Inr y)"
      "at_row run_id ?ev w' y" "settled_row (ar_attempts x + 1) ?max y"
    using attempts_loop_at [OF assms(1) r assms(4,5) at_row_id [OF r], of "ar_attempts x + 1" ?max agent ?timeout] assms(8) by auto
  have row: "require_run run_id w = Inr x" using assms(3) by simp
  have "\<exists>w''. execute env vk reg run_id agent_name agent_version worker_id w = (w'', Inr y) \<and> w_store w'' = w_store w'"
    using l(1) unfolding execute_def row assms(7) sum.case execute_with_cancel_def Let_def by auto
  then obtain w'' where "execute env vk reg run_id agent_name agent_version worker_id w = (w'', Inr y)" "w_store w'' = w_store w'"
    by blast
  with l show ?thesis by (auto simp: at_row_def world_row_def)
qed

theorem execute_settles_witness:
  "let reg = \<lparr>reg_agents = [((''a'', ''1''), demo_agent ''a'' ''1'' [''t''])], reg_routes = []\<rparr>
   in \<exists>w' r. execute (demo_exec_env (Inr []) None) length reg ''R'' ''a'' ''1'' (Some ''w1'') (demo_world (demo_run (Some ''w1'') RUNNING)) = (w', Inr r)
        \<and> world_row ''R'' w' = Some r \<and> settled_row 1 1 r"
proof -
  let ?reg = "\<lparr>reg_agents = [((''a'', ''1''), demo_agent ''a'' ''1'' [''t''])], reg_routes = []\<rparr>"
  have g: "registry_get length ''a'' (Some ''1'') ?reg = Inr (demo_agent ''a'' ''1'' [''t''])"
    by (simp add: registry_get_def given_def)
  have u: "undisturbed ''R'' (demo_exec_env (Inr []) None)" by (rule undisturbed_demo) simp_all
  have m: "max 1 (rp_max_attempts (as_retry_policy (demo_agent ''a'' ''1'' [''t'']))) = 1" by (simp add: demo_agent_def)
  show ?thesis
    using execute_settles [OF u _ _ _ _ _ g, of "demo_world (demo_run (Some ''w1'') RUNNING)" "demo_run (Some ''w1'') RUNNING" "Some ''w1''"]
    unfolding m Let_def by simp
qed

text \<open>
  An output that violates the agent's schema is retried as if the agent were unavailable.
  The executor looks for the word "schema" in the error text, but the text of a violation is
  "output validation failed: ..." with the validator's message: unless that mentions "schema",
  the run gets the retryable error \<^verbatim>\<open>AGENT_NOT_AVAILABLE\<close> instead of \<^verbatim>\<open>VALIDATION_ERROR\<close> and, with
  attempts left, the agent is run again.
\<close>

theorem output_violation_is_retried:
  assumes "undisturbed run_id env" and "xe_handlers env = None" and "at_row run_id ev w x" and "executing_row a worker_id x"
    and "run_object run_id a worker_id run" and "xe_runtime env timeout agent run w = (w1, metadata, Inr d)"
    and "validate_output (xe_validate env) agent d = Inl (RegistryError msg)" and "\<not> str_in ''schema'' (str_lower msg)"
  shows "\<exists>w' run'. attempt_body env agent attempts timeout a worker_id run w = (w', Next run')
     \<and> ar_error_type run' = Some AGENT_NOT_AVAILABLE"
proof -
  have "try_agent env agent timeout a worker_id run w = (w1, run\<lparr>ar_metadata := metadata\<rparr>, Inl (RegistryError msg))"
    using assms(6,7) by (simp add: try_agent_def Let_def)
  moreover have "classify timeout (a < attempts) (RegistryError msg) =
      (FAILED, AGENT_NOT_AVAILABLE, exc_text (RegistryError msg), Some ''validation_error'')" using assms(8) by simp
  ultimately show ?thesis
    using attempt_body_retry [OF assms(1-5)] by (fastforce simp: is_retryable_def)
qed

theorem output_violation_is_retried_witness:
  "let env = demo_exec_env (Inr []) (Some ''x is a required property''); r = demo_run None RUNNING
   in \<exists>w' run'. attempt_body env (demo_agent ''a'' ''1'' [''t'']) 3 60 0 None r (demo_world r) = (w', Next run')
        \<and> ar_error_type run' = Some AGENT_NOT_AVAILABLE"
proof -
  let ?env = "demo_exec_env (Inr []) (Some ''x is a required property'')" and ?r = "demo_run None RUNNING"
  let ?msg = "''Agent '' @ py_repr ''a'' @ '' output validation failed: x is a required property''"
  have u: "undisturbed ''R'' ?env" by (rule undisturbed_demo) simp_all
  have v: "validate_output (xe_validate ?env) (demo_agent ''a'' ''1'' [''t'']) [] = Inl (RegistryError ?msg)"
    by (simp add: validate_output_def demo_exec_env_def)
  have s: "\<not> str_in ''schema'' (str_lower ?msg)"
    by (simp add: py_repr_def repr_char_def str_lower_def char_lower_def Let_def)
  have r: "at_row ''R'' 0 (demo_world ?r) ?r" "executing_row 0 None ?r" "run_object ''R'' 0 None ?r"
    by (simp_all add: at_row_def executing_row_def run_object_def status_defs)
  have "xe_handlers ?env = None" "xe_runtime ?env 60 (demo_agent ''a'' ''1'' [''t'']) ?r (demo_world ?r) = (demo_world ?r, ar_metadata ?r, Inr [])"
    by (simp_all add: demo_exec_env_def)
  from output_violation_is_retried [OF u this(1) r this(2) v s] show ?thesis by (simp add: Let_def)
qed

text \<open>
  A run that timed out with attempts left cannot keep its lease while it waits for the next
  attempt. The attempt is recorded as \<^verbatim>\<open>TIMEOUT\<close>, which is not an executing status: renewing the
  lease is refused (the manager then cancels the execution), and no worker can claim the run,
  so the remaining attempts are never made.
\<close>

theorem timed_out_retry_loses_lease:
  assumes "undisturbed run_id env" and "xe_handlers env = None" and "at_row run_id ev w x" and "executing_row a worker_id x"
    and "run_object run_id a worker_id run" and "xe_runtime env timeout agent run w = (w1, metadata, Inl (TimeoutError m))"
  shows "\<exists>w' run' y. attempt_body env agent attempts timeout a worker_id run w = (w', Next run')
     \<and> world_row run_id w' = Some y \<and> ar_status y = TIMEOUT \<and> (\<forall>now. \<not> claimable now y)
     \<and> (\<forall>now wk ls. \<not> fst (renew_lease now run_id wk ls (s_runs (w_store w'))))"
proof -
  have "try_agent env agent timeout a worker_id run w = (w1, run\<lparr>ar_metadata := metadata\<rparr>, Inl (TimeoutError m))"
    using assms(6) by (simp add: try_agent_def Let_def)
  from attempt_body_retry [OF assms(1-5) this, of attempts TIMEOUT RUN_TIMEOUT]
  obtain w' run' y where b: "attempt_body env agent attempts timeout a worker_id run w = (w', Next run')"
    and y: "at_row run_id ev w' y" "ar_status y = TIMEOUT"
    by (fastforce simp: is_retryable_def same_run_def status_defs)
  have row: "x = y" if "x \<in> set (s_runs (w_store w'))" "ar_run_id x = run_id" for x
    using y(1) that runs_get_mem [of "s_runs (w_store w')" x] by (auto simp: at_row_def world_wf_def world_row_def)
  have "find (\<lambda>r. ar_run_id r = run_id \<and> ar_worker r = Some wk \<and> ar_status r \<in> {RUNNING, WAITING_TOOL, RETRYING}) (s_runs (w_store w')) = None" for wk
    using row y(2) by (auto simp: find_None_iff)
  then have "\<not> fst (renew_lease now run_id wk ls (s_runs (w_store w')))" for now wk ls
    unfolding renew_lease_def Let_def by (simp only: option.case fst_conv not_False_eq_True)
  moreover have "\<not> claimable now y" for now using y(2) by (simp add: claimable_def)
  ultimately show ?thesis using b y by (auto simp: at_row_def)
qed

theorem timed_out_retry_loses_lease_witness:
  "let env = demo_exec_env (Inl (TimeoutError [])) None; r = demo_run (Some ''w'') RUNNING
   in \<exists>w' run'. attempt_body env (demo_agent ''a'' ''1'' [''t'']) 3 60 0 (Some ''w'') r (demo_world r) = (w', Next run')
        \<and> \<not> fst (renew_lease 5 ''R'' ''w'' 60 (s_runs (w_store w')))"
proof -
  let ?env = "demo_exec_env (Inl (TimeoutError [])) None" and ?r = "demo_run (Some ''w'') RUNNING"
  have u: "undisturbed ''R'' ?env" by (rule undisturbed_demo) simp_all
  have r: "at_row ''R'' 0 (demo_world ?r) ?r" "executing_row 0 (Some ''w'') ?r" "run_object ''R'' 0 (Some ''w'') ?r"
    by (simp_all add: at_row_def executing_row_def run_object_def status_defs)
  have "xe_handlers ?env = None" "xe_runtime ?env 60 (demo_agent ''a'' ''1'' [''t'']) ?r (demo_world ?r) = (demo_world ?r, ar_metadata ?r, Inl (TimeoutError []))"
    by (simp_all add: demo_exec_env_def)
  from timed_out_retry_loses_lease [OF u this(1) r this(2)] show ?thesis unfolding Let_def by blast
qed

end
