(* ===== verification/Run_Service.thy ===== *)
theory Run_Service
  imports Store Registry
begin

text \<open>
  Run submission: \<^verbatim>\<open>ConversationService\<close> (\<^verbatim>\<open>src/orchestration/conversation_service.py\<close>) and
  \<^verbatim>\<open>RunService.submit\<close> (\<^verbatim>\<open>src/orchestration/run_service.py\<close>). The skill runtime and the JSON
  validator are parameters. Other processes may write between any two transactions of a
  submission: \<open>se_others\<close> is what they do at the numbered points. The theorems say that a
  request is accepted once, whatever the others do, and what a new run looks like.
\<close>

section \<open>Conversations\<close>

definition conversation_get_or_create ::
    "datetime \<Rightarrow> string \<Rightarrow> string \<Rightarrow> string \<Rightarrow> string \<Rightarrow> string option \<Rightarrow> string option \<Rightarrow> string option
     \<Rightarrow> store \<Rightarrow> py_exc + (store \<times> conversation)" where
  "conversation_get_or_create now new_id caller external_id route_tag task_type source conversation_id st =
     (let rows = s_conversations st;
          by_id = (case conversation_id of None \<Rightarrow> None | Some c \<Rightarrow> if c = [] then None else conversations_get c rows)
      in case by_id of
           Some c \<Rightarrow> Inr (st, c)
         | None \<Rightarrow>
             (case conversations_get_by_external_id caller external_id rows of
                Some c \<Rightarrow> Inr (st, c)
              | None \<Rightarrow>
                  let c = \<lparr>cv_conversation_id = new_id, cv_caller = caller, cv_external_id = external_id,
                           cv_task_type = task_type, cv_source = source, cv_route_tag = route_tag,
                           cv_create_time = now, cv_update_time = now\<rparr>
                  in (case conversations_create c rows of
                        Inl e \<Rightarrow> Inl e
                      | Inr rows' \<Rightarrow> Inr (st\<lparr>s_conversations := rows'\<rparr>, c))))"

section \<open>Submission\<close>

type_synonym skill_snapshots = "agent_spec \<Rightarrow> py_exc + skill_snapshot list"

record submit_env =
  se_run_id :: string
  se_trace_id :: string
  se_conversation_id :: "nat \<Rightarrow> string"
  se_clk :: "nat \<Rightarrow> datetime"
  se_others :: "nat \<Rightarrow> store \<Rightarrow> store"

definition submitted_run :: "submit_env \<Rightarrow> run_submission \<Rightarrow> agent_run" where
  "submitted_run env sub =
     (new_agent_run (se_run_id env) (se_trace_id env) (se_clk env 0) (rs_route_tag sub) (rs_caller sub) (rs_request_id sub))
       \<lparr>ar_input := rs_input sub, ar_files := rs_files sub, ar_callback := rs_callback sub, ar_priority := rs_priority sub,
        ar_timeout_seconds := rs_timeout_seconds sub, ar_metadata := rs_metadata sub\<rparr>"

definition has_callback_url :: "agent_run \<Rightarrow> bool" where
  "has_callback_url run = (case ar_callback run of None \<Rightarrow> False
     | Some c \<Rightarrow> (case cc_url c of None \<Rightarrow> False | Some u \<Rightarrow> u \<noteq> []))"

text \<open>The \<^verbatim>\<open>try\<close> block: route, validate, pin the skills, queue.\<close>

definition route_run ::
    "json_validator \<Rightarrow> skill_snapshots option \<Rightarrow> submit_env \<Rightarrow> run_submission \<Rightarrow> agent_registry \<Rightarrow> agent_run \<Rightarrow> py_exc + agent_run" where
  "route_run validate skill_runtime env sub reg run =
     (case resolve (ar_route_tag run) (rs_agent_version sub) reg of Inl e \<Rightarrow> Inl e
      | Inr agent \<Rightarrow>
      case validate_input validate agent (ar_input run) of Inl e \<Rightarrow> Inl e
      | Inr _ \<Rightarrow>
      case (if as_skills agent = [] then Inr (ar_skill_snapshots run)
            else case skill_runtime of None \<Rightarrow> Inl (RegistryError ''Skill runtime is not configured'')
                 | Some snapshots_for_agent \<Rightarrow> snapshots_for_agent agent) of Inl e \<Rightarrow> Inl e
      | Inr snapshots \<Rightarrow>
          let queue_time = se_clk env 1 in
          Inr (run\<lparr>ar_skill_snapshots := snapshots,
                   ar_agent := Some \<lparr>af_name = as_name agent, af_version = as_version agent\<rparr>,
                   ar_status := QUEUED,
                   ar_queue_time := Some queue_time,
                   ar_max_attempts := rp_max_attempts (as_retry_policy agent),
                   ar_run_after := (case ar_run_after run of Some t \<Rightarrow> Some t | None \<Rightarrow> Some queue_time),
                   ar_callback_status := (if has_callback_url run then CB_PENDING else CB_SKIPPED)\<rparr>))"

fun is_registry_or_skill_error :: "py_exc \<Rightarrow> bool" where
  "is_registry_or_skill_error (RegistryError _) = True"
| "is_registry_or_skill_error (SkillError _ _) = True"
| "is_registry_or_skill_error _ = False"

definition rejected_run :: "py_exc \<Rightarrow> agent_run \<Rightarrow> agent_run" where
  "rejected_run e run =
     run\<lparr>ar_status := FAILED,
         ar_error_type := Some (if str_in ''No enabled agent'' (exc_str e) then ROUTE_NOT_FOUND else VALIDATION_ERROR),
         ar_error_message := Some (exc_str e)\<rparr>"

definition submission_external_id :: "run_submission \<Rightarrow> string" where
  "submission_external_id sub = (case rs_external_id sub of Some e \<Rightarrow> if e = [] then rs_request_id sub else e
     | None \<Rightarrow> rs_request_id sub)"

text \<open>One transaction: get or create the conversation and insert the run.\<close>

definition submit_txn :: "nat \<Rightarrow> submit_env \<Rightarrow> run_submission \<Rightarrow> agent_run \<Rightarrow> store \<Rightarrow> store \<times> (py_exc + agent_run)" where
  "submit_txn i env sub run =
     unit_of_work (\<lambda>st.
       case conversation_get_or_create (se_clk env (3 + i)) (se_conversation_id env i) (rs_caller sub)
              (submission_external_id sub) (rs_route_tag sub) (rs_task_type sub) (rs_source sub) (rs_conversation_id sub) st of
         Inl e \<Rightarrow> Inl e
       | Inr (st1, c) \<Rightarrow>
           let run' = run\<lparr>ar_conversation_id := Some (cv_conversation_id c)\<rparr> in
           (case runs_create run' (s_runs st1) of Inl e \<Rightarrow> Inl e
            | Inr rows \<Rightarrow> Inr (st1\<lparr>s_runs := rows\<rparr>, run')))"

definition run_api_log :: "datetime \<Rightarrow> agent_run \<Rightarrow> string \<Rightarrow> string \<Rightarrow> dict \<Rightarrow> store \<Rightarrow> store" where
  "run_api_log now run event_type message data st =
     st\<lparr>s_logs := logs_add \<lparr>le_run_id = Some (ar_run_id run), le_trace_id = ar_trace_id run, le_component = ''run_api'',
        le_event_type = event_type, le_level = ''INFO'', le_message = message, le_data = data, le_create_time = now\<rparr>
        (s_logs st)\<rparr>"

definition find_submitted :: "run_submission \<Rightarrow> store \<Rightarrow> agent_run option" where
  "find_submitted sub st = runs_get_by_request_id (rs_caller sub) (rs_route_tag sub) (rs_request_id sub) (s_runs st)"

definition log_submitted :: "submit_env \<Rightarrow> agent_run \<Rightarrow> store \<Rightarrow> store" where
  "log_submitted env run =
     run_api_log (se_clk env 6) run ''run_submitted'' ''Run submitted''
       [(''route_tag'', JStr (ar_route_tag run)), (''status'', JStr (run_status_value (ar_status run))),
        (''conversation_id'', jopt (ar_conversation_id run)),
        (''agent'', case ar_agent run of None \<Rightarrow> JNull
           | Some a \<Rightarrow> JObj [(''name'', JStr (af_name a)), (''version'', JStr (af_version a))])]"

text \<open>
  The two transaction attempts. Points of \<open>se_others\<close>: 0 before the first transaction, 1
  and 3 after a failed one, 2 before the second.
\<close>

definition submit_insert ::
    "submit_env \<Rightarrow> run_submission \<Rightarrow> agent_run \<Rightarrow> store \<Rightarrow> store \<times> (py_exc + agent_run \<times> bool)" where
  "submit_insert env sub run st =
     (case submit_txn 0 env sub run (se_others env 0 st) of
        (st1, Inr run') \<Rightarrow> (log_submitted env run' st1, Inr (run', True))
      | (st1, Inl (UniqueConstraintConflictError m)) \<Rightarrow>
          let st2 = se_others env 1 st1 in
          (case find_submitted sub st2 of
             Some existing \<Rightarrow> (st2, Inr (existing, False))
           | None \<Rightarrow>
               (case submit_txn 1 env sub run (se_others env 2 st2) of
                  (st3, Inr run') \<Rightarrow> (log_submitted env run' st3, Inr (run', True))
                | (st3, Inl (UniqueConstraintConflictError m)) \<Rightarrow>
                    let st4 = se_others env 3 st3 in
                    (case find_submitted sub st4 of
                       Some existing \<Rightarrow> (st4, Inr (existing, False))
                     | None \<Rightarrow> (st4, Inl (UniqueConstraintConflictError m)))
                | (st3, Inl e) \<Rightarrow> (st3, Inl e)))
      | (st1, Inl e) \<Rightarrow> (st1, Inl e))"

definition submit ::
    "json_validator \<Rightarrow> skill_snapshots option \<Rightarrow> submit_env \<Rightarrow> agent_registry \<Rightarrow> run_submission \<Rightarrow> store
     \<Rightarrow> store \<times> (py_exc + agent_run \<times> bool)" where
  "submit validate skill_runtime env reg sub st =
     (case find_submitted sub st of
        Some existing \<Rightarrow>
          (run_api_log (se_clk env 6) existing ''idempotent_replay'' ''Returned existing run for duplicate requestId''
             [(''caller'', JStr (rs_caller sub)), (''route_tag'', JStr (rs_route_tag sub))] st, Inr (existing, False))
      | None \<Rightarrow>
          let run = submitted_run env sub in
          (case route_run validate skill_runtime env sub reg run of
             Inr run' \<Rightarrow> submit_insert env sub (run'\<lparr>ar_update_time := se_clk env 2\<rparr>) st
           | Inl e \<Rightarrow> if is_registry_or_skill_error e
               then submit_insert env sub ((rejected_run e run)\<lparr>ar_update_time := se_clk env 2\<rparr>) st
               else (st, Inl e)))"

section \<open>Lemmas\<close>

definition store_wf :: "store \<Rightarrow> bool" where
  "store_wf st = (runs_wf (s_runs st) \<and> keys_distinct cv_conversation_id (s_conversations st)
     \<and> keys_distinct conversation_key (s_conversations st))"

text \<open>What the theorems assume of other processes: they keep the unique keys.\<close>

definition well_behaved :: "submit_env \<Rightarrow> bool" where
  "well_behaved env = (\<forall>i st. store_wf st \<longrightarrow> store_wf (se_others env i st))"

lemma run_api_log_tables [simp]:
  "s_runs (run_api_log now run ev m d st) = s_runs st" "s_conversations (run_api_log now run ev m d st) = s_conversations st"
  by (simp_all add: run_api_log_def)

lemma log_submitted_tables [simp]:
  "s_runs (log_submitted env run st) = s_runs st" "s_conversations (log_submitted env run st) = s_conversations st"
  by (simp_all add: log_submitted_def)

lemma conversation_get_or_create_wf:
  assumes "conversation_get_or_create now n c x rt tt so ci st = Inr (st1, conv)" and "store_wf st"
  shows "store_wf st1 \<and> s_runs st1 = s_runs st"
  using assms
  by (auto simp: conversation_get_or_create_def Let_def conversations_create_def store_wf_def keys_distinct_def
      split: option.splits if_splits)

lemma find_submitted_key:
  "store_wf st \<Longrightarrow> run \<in> set (s_runs st) \<Longrightarrow> request_key run = (rs_caller sub, rs_route_tag sub, rs_request_id sub) \<Longrightarrow>
     find_submitted sub st = Some run"
  using request_key_unique [of "s_runs st" run] by (simp add: find_submitted_def store_wf_def request_key_def)

lemma submit_txn_result:
  assumes wf: "store_wf st" and t: "submit_txn i env sub run st = (st', r)"
  shows "store_wf st' \<and> (case r of Inl _ \<Rightarrow> st' = st
     | Inr run' \<Rightarrow> s_runs st' = s_runs st @ [run'] \<and> (\<exists>c. run' = run\<lparr>ar_conversation_id := Some c\<rparr>))"
proof -
  let ?c = "conversation_get_or_create (se_clk env (3 + i)) (se_conversation_id env i) (rs_caller sub)
     (submission_external_id sub) (rs_route_tag sub) (rs_task_type sub) (rs_source sub) (rs_conversation_id sub) st"
  show ?thesis
  proof (cases ?c)
    case (Inl e)
    with t wf show ?thesis by (auto simp: submit_txn_def unit_of_work_def)
  next
    case (Inr p)
    obtain st1 conv where p: "p = (st1, conv)" by fastforce
    let ?run = "run\<lparr>ar_conversation_id := Some (cv_conversation_id conv)\<rparr>"
    have st1: "store_wf st1" "s_runs st1 = s_runs st" using conversation_get_or_create_wf [OF _ wf] Inr p by auto
    show ?thesis
    proof (cases "runs_create ?run (s_runs st1)")
      case (Inl e)
      with t wf Inr p show ?thesis by (auto simp: submit_txn_def unit_of_work_def)
    next
      case rows: (Inr rows)
      then have "rows = s_runs st @ [?run]" using st1 by (auto simp: runs_create_def split: if_splits)
      moreover have "runs_wf rows" using st1 rows by (auto simp: store_wf_def intro: runs_wf_create)
      ultimately show ?thesis using t Inr p rows st1 by (auto simp: submit_txn_def unit_of_work_def store_wf_def Let_def)
    qed
  qed
qed

lemma submit_insert_result:
  assumes wb: "well_behaved env" and wf: "store_wf st"
    and key: "request_key run = (rs_caller sub, rs_route_tag sub, rs_request_id sub)"
    and s: "submit_insert env sub run st = (st', Inr (run', is_new))"
  shows "store_wf st' \<and> find_submitted sub st' = Some run' \<and> (is_new \<longrightarrow> (\<exists>c. run' = run\<lparr>ar_conversation_id := Some c\<rparr>))"
proof -
  have stored: "store_wf st4 \<and> find_submitted sub st4 = Some r"
    if "store_wf st3" "submit_txn i env sub run st3 = (st4, Inr r)" for i st3 st4 r
    using submit_txn_result [OF that] key by (auto intro!: find_submitted_key simp: request_key_def)
  have new: "\<exists>c. r = run\<lparr>ar_conversation_id := Some c\<rparr>"
    if "store_wf st3" "submit_txn i env sub run st3 = (st4, Inr r)" for i st3 st4 r
    using submit_txn_result [OF that] by auto
  have log: "store_wf (log_submitted env r st4) = store_wf st4" "find_submitted sub (log_submitted env r st4) = find_submitted sub st4"
    for r st4 by (simp_all add: store_wf_def find_submitted_def)
  have wb': "store_wf st3 \<Longrightarrow> store_wf (se_others env i st3)" for i st3 using wb by (simp add: well_behaved_def)
  obtain st1 r1 where 1: "submit_txn 0 env sub run (se_others env 0 st) = (st1, r1)" by fastforce
  have w1: "store_wf st1" using submit_txn_result [OF wb' [OF wf] 1] by simp
  obtain st3 r3 where 3: "submit_txn 1 env sub run (se_others env 2 (se_others env 1 st1)) = (st3, r3)" by fastforce
  have w3: "store_wf st3" using submit_txn_result [OF wb' [OF wb' [OF w1]] 3] by simp
  show ?thesis
    using s 1 3 w1 w3 wb' stored [OF wb' [OF wf]] new [OF wb' [OF wf]] stored [OF wb' [OF wb' [OF w1]]] new [OF wb' [OF wb' [OF w1]]]
    unfolding submit_insert_def Let_def
    by (auto simp: log split: sum.splits py_exc.splits option.splits)
qed

lemma submitted_run_key: "request_key (submitted_run env sub) = (rs_caller sub, rs_route_tag sub, rs_request_id sub)"
  by (simp add: submitted_run_def request_key_def new_agent_run_def)

lemma route_run_result:
  assumes "route_run validate sk env sub reg run = Inr run'"
  shows "request_key run' = request_key run \<and> ar_status run' = QUEUED \<and> ar_queue_time run' = Some (se_clk env 1)
     \<and> ar_callback_status run' = (if has_callback_url run then CB_PENDING else CB_SKIPPED)
     \<and> ar_run_after run' = (case ar_run_after run of Some t \<Rightarrow> Some t | None \<Rightarrow> Some (se_clk env 1))
     \<and> (\<exists>agent. resolve (ar_route_tag run) (rs_agent_version sub) reg = Inr agent
          \<and> ar_agent run' = Some \<lparr>af_name = as_name agent, af_version = as_version agent\<rparr>
          \<and> ar_max_attempts run' = rp_max_attempts (as_retry_policy agent))"
  using assms by (auto simp: route_run_def Let_def request_key_def split: sum.splits option.split)

lemma rejected_run_key: "request_key (rejected_run e run) = request_key run"
  by (simp add: rejected_run_def request_key_def)

text \<open>A submission that is new inserts either the routed or the rejected run.\<close>

lemma submit_cases:
  assumes "submit validate sk env reg sub st = (st', Inr (run', is_new))" and "find_submitted sub st = None"
  obtains run0 where "submit_insert env sub (run0\<lparr>ar_update_time := se_clk env 2\<rparr>) st = (st', Inr (run', is_new))"
    and "request_key (run0\<lparr>ar_update_time := se_clk env 2\<rparr>) = (rs_caller sub, rs_route_tag sub, rs_request_id sub)"
    and "route_run validate sk env sub reg (submitted_run env sub) = Inr run0
       \<or> (\<exists>e. route_run validate sk env sub reg (submitted_run env sub) = Inl e \<and> run0 = rejected_run e (submitted_run env sub))"
proof (cases "route_run validate sk env sub reg (submitted_run env sub)")
  case (Inl e)
  with assms have "submit_insert env sub ((rejected_run e (submitted_run env sub))\<lparr>ar_update_time := se_clk env 2\<rparr>) st = (st', Inr (run', is_new))"
    by (simp add: submit_def Let_def split: if_splits)
  with that Inl show ?thesis by (simp add: rejected_run_def submitted_run_def request_key_def new_agent_run_def)
next
  case (Inr run0)
  with assms have "submit_insert env sub (run0\<lparr>ar_update_time := se_clk env 2\<rparr>) st = (st', Inr (run', is_new))"
    by (simp add: submit_def Let_def)
  moreover have "request_key (run0\<lparr>ar_update_time := se_clk env 2\<rparr>) = request_key run0" by (simp add: request_key_def)
  ultimately show ?thesis using that Inr route_run_result [OF Inr] submitted_run_key by simp
qed

section \<open>Properties\<close>

text \<open>
  C8: A request is accepted exactly once. Whatever other processes do around the transactions
  of a submission, as long as the database keeps its unique keys: when it returns, exactly one
  run carries the request's caller, route tag and request id, and that run is the one
  returned. If such a run was there from the start, it is returned unchanged, not marked new,
  and no run is written.
\<close>

theorem submit_accepts_once:
  assumes wb: "well_behaved env" and wf: "store_wf st"
    and s: "submit validate sk env reg sub st = (st', Inr (run', is_new))"
  shows "store_wf st'
     \<and> filter (\<lambda>r. request_key r = (rs_caller sub, rs_route_tag sub, rs_request_id sub)) (s_runs st') = [run']
     \<and> (\<forall>r. find_submitted sub st = Some r \<longrightarrow> run' = r \<and> \<not> is_new \<and> s_runs st' = s_runs st)"
proof -
  have "store_wf st' \<and> find_submitted sub st' = Some run' \<and> (\<forall>r. find_submitted sub st = Some r \<longrightarrow> run' = r \<and> \<not> is_new \<and> s_runs st' = s_runs st)"
  proof (cases "find_submitted sub st")
    case None
    with submit_cases [OF s None] submit_insert_result [OF wb wf] show ?thesis by (metis option.distinct(1))
  next
    case (Some r)
    with s wf show ?thesis by (auto simp: submit_def store_wf_def find_submitted_def)
  qed
  moreover from this have "run' \<in> set (s_runs st')" "request_key run' = (rs_caller sub, rs_route_tag sub, rs_request_id sub)"
    by (auto simp: find_submitted_def runs_get_by_request_id_def request_key_def dest!: find_SomeD)
  ultimately show ?thesis
    using filter_key_unique [of request_key "s_runs st'" run'] by (simp add: store_wf_def runs_wf_def)
qed

definition demo_submission :: run_submission where
  "demo_submission = \<lparr>rs_route_tag = ''t'', rs_request_id = ''q'', rs_external_id = None, rs_task_type = None, rs_source = None,
     rs_conversation_id = None, rs_input = [], rs_files = [], rs_callback = None, rs_priority = 5, rs_timeout_seconds = None,
     rs_metadata = [], rs_caller = ''me'', rs_agent_version = None\<rparr>"

definition demo_submit_env :: submit_env where
  "demo_submit_env = \<lparr>se_run_id = ''R'', se_trace_id = ''T'', se_conversation_id = (\<lambda>_. ''C''), se_clk = int, se_others = (\<lambda>_ st. st)\<rparr>"

definition empty_store :: store where
  "empty_store = \<lparr>s_runs = [], s_stages = [], s_conversations = [], s_logs = [], s_callbacks = [], s_model_calls = []\<rparr>"

lemma demo_env_ok: "well_behaved demo_submit_env" "store_wf empty_store"
  by (simp_all add: well_behaved_def demo_submit_env_def store_wf_def empty_store_def runs_wf_def keys_distinct_def)

lemma demo_submit:
  "\<exists>st' run'. submit (\<lambda>_ _. Inr None) None demo_submit_env \<lparr>reg_agents = [], reg_routes = [(''t'', demo_agent ''a'' ''1'' [''t''])]\<rparr>
     demo_submission empty_store = (st', Inr (run', True)) \<and> ar_status run' = QUEUED"
  by (simp add: submit_def find_submitted_def empty_store_def runs_get_by_request_id_def Let_def route_run_def resolve_def given_def
      demo_submission_def submitted_run_def new_agent_run_def validate_input_def demo_agent_def submit_insert_def demo_submit_env_def
      submit_txn_def unit_of_work_def conversation_get_or_create_def conversations_get_by_external_id_def conversations_create_def
      runs_create_def submission_external_id_def)

theorem submit_accepts_once_witness:
  "let reg = \<lparr>reg_agents = [], reg_routes = [(''t'', demo_agent ''a'' ''1'' [''t''])]\<rparr>
   in \<exists>st' run'. submit (\<lambda>_ _. Inr None) None demo_submit_env reg demo_submission empty_store = (st', Inr (run', True))
        \<and> filter (\<lambda>r. request_key r = (''me'', ''t'', ''q'')) (s_runs st') = [run']"
  using demo_submit submit_accepts_once [OF demo_env_ok, of "\<lambda>_ _. Inr None" None _ demo_submission]
  by (fastforce simp: demo_submission_def)

text \<open>
  What a newly accepted run is. It is either queued, with the agent its route tag resolves
  to, ready to be claimed from the moment it was queued; or it failed at the door, with a
  non-retryable error, and can never be claimed by a worker.
\<close>

theorem submit_new_run:
  assumes "well_behaved env" and "store_wf st"
    and "submit validate sk env reg sub st = (st', Inr (run', True))"
  shows "(ar_status run' = QUEUED \<and> claimable (se_clk env 1) run'
          \<and> (\<exists>agent. resolve (rs_route_tag sub) (rs_agent_version sub) reg = Inr agent
               \<and> ar_agent run' = Some \<lparr>af_name = as_name agent, af_version = as_version agent\<rparr>
               \<and> ar_max_attempts run' = rp_max_attempts (as_retry_policy agent)))
       \<or> (ar_status run' = FAILED \<and> (\<exists>e. ar_error_type run' = Some e \<and> \<not> is_retryable e) \<and> (\<forall>now. \<not> claimable now run'))"
proof -
  have none: "find_submitted sub st = None"
    using assms(3) by (auto simp: submit_def split: option.splits)
  obtain run0 where i: "submit_insert env sub (run0\<lparr>ar_update_time := se_clk env 2\<rparr>) st = (st', Inr (run', True))"
    and k: "request_key (run0\<lparr>ar_update_time := se_clk env 2\<rparr>) = (rs_caller sub, rs_route_tag sub, rs_request_id sub)"
    and r: "route_run validate sk env sub reg (submitted_run env sub) = Inr run0
       \<or> (\<exists>e. route_run validate sk env sub reg (submitted_run env sub) = Inl e \<and> run0 = rejected_run e (submitted_run env sub))"
    by (rule submit_cases [OF assms(3) none])
  obtain c where c: "run' = run0\<lparr>ar_update_time := se_clk env 2, ar_conversation_id := Some c\<rparr>"
    using submit_insert_result [OF assms(1,2) k i] by auto
  from r show ?thesis
  proof
    assume "route_run validate sk env sub reg (submitted_run env sub) = Inr run0"
    note res = route_run_result [OF this]
    have "ar_route_tag (submitted_run env sub) = rs_route_tag sub" "ar_run_after (submitted_run env sub) = None"
      by (simp_all add: submitted_run_def new_agent_run_def)
    then obtain agent where agent: "resolve (rs_route_tag sub) (rs_agent_version sub) reg = Inr agent"
        "ar_agent run0 = Some \<lparr>af_name = as_name agent, af_version = as_version agent\<rparr>"
        "ar_max_attempts run0 = rp_max_attempts (as_retry_policy agent)"
        "ar_status run0 = QUEUED" "ar_run_after run0 = Some (se_clk env 1)"
      using res by auto
    have "ar_status run' = QUEUED" "claimable (se_clk env 1) run'" using agent(4,5) by (simp_all add: c claimable_def)
    moreover have "ar_agent run' = ar_agent run0" "ar_max_attempts run' = ar_max_attempts run0" by (simp_all add: c)
    ultimately show ?thesis using agent(1-3) by metis
  next
    assume "\<exists>e. route_run validate sk env sub reg (submitted_run env sub) = Inl e \<and> run0 = rejected_run e (submitted_run env sub)"
    then obtain e where e: "run0 = rejected_run e (submitted_run env sub)" by blast
    have "ar_status run' = FAILED" by (simp add: c e rejected_run_def)
    moreover from this have "\<not> claimable now run'" for now by (simp add: claimable_def)
    moreover have "ar_error_type run' = Some (if str_in ''No enabled agent'' (exc_str e) then ROUTE_NOT_FOUND else VALIDATION_ERROR)"
      by (simp add: c e rejected_run_def)
    moreover have "\<not> is_retryable (if str_in ''No enabled agent'' (exc_str e) then ROUTE_NOT_FOUND else VALIDATION_ERROR)"
      by (cases "str_in ''No enabled agent'' (exc_str e)") (simp_all add: is_retryable_def)
    ultimately show ?thesis by metis
  qed
qed

theorem submit_new_run_witness:
  "let reg = \<lparr>reg_agents = [], reg_routes = [(''t'', demo_agent ''a'' ''1'' [''t''])]\<rparr>
   in \<exists>st' run'. submit (\<lambda>_ _. Inr None) None demo_submit_env reg demo_submission empty_store = (st', Inr (run', True))
        \<and> claimable 1 run'"
proof -
  let ?reg = "\<lparr>reg_agents = [], reg_routes = [(''t'', demo_agent ''a'' ''1'' [''t''])]\<rparr>"
  obtain st' run' where s: "submit (\<lambda>_ _. Inr None) None demo_submit_env ?reg demo_submission empty_store = (st', Inr (run', True))"
    and q: "ar_status run' = QUEUED" using demo_submit by blast
  have "se_clk demo_submit_env 1 = 1" by (simp add: demo_submit_env_def)
  with submit_new_run [OF demo_env_ok s] q s show ?thesis by (auto simp: Let_def)
qed

end
