(* ===== verification/Run_Manager.thy ===== *)
theory Run_Manager
  imports Run_Executor Run_Service
begin

text \<open>
  \<^verbatim>\<open>RunManager\<close> (\<^verbatim>\<open>src/orchestration/manager.py\<close>): submission with child tracking, retry, cancellation
  of a run and its children, crash recovery, queue dispatch, lease reclamation and renewal, and
  the background tasks. The state is the \<open>world\<close> of \<open>Run_Executor\<close>; the scheduler's admission
  (\<^verbatim>\<open>run_with_limits\<close>) is a parameter of \<open>run_now\<close>. Other processes may write between a read and the
  guarded write that follows it (\<open>mg_others\<close>).

  The theorems: cancellation is final for the run and its children, dispatching starts each
  claimed run once, reclaiming touches exactly the runs whose lease expired, a renewed lease
  never lapses, and a retried run starts afresh while finished stages stay finished.
\<close>

section \<open>Logging and background tasks\<close>

record manager_env =
  mg_clk :: "string \<Rightarrow> nat \<Rightarrow> datetime"
  mg_others :: "string \<Rightarrow> nat \<Rightarrow> world \<Rightarrow> world"

definition world_log :: "datetime \<Rightarrow> string \<Rightarrow> string \<Rightarrow> string \<Rightarrow> string \<Rightarrow> string \<Rightarrow> dict \<Rightarrow> world \<Rightarrow> world" where
  "world_log now run_id trace_id component event_type message data w =
     w\<lparr>w_store := (w_store w)\<lparr>s_logs := logs_add
        \<lparr>le_run_id = Some run_id, le_trace_id = trace_id, le_component = component, le_event_type = event_type,
         le_level = ''INFO'', le_message = message, le_data = data, le_create_time = now\<rparr> (s_logs (w_store w))\<rparr>\<rparr>"

definition row_trace_id :: "string \<Rightarrow> world \<Rightarrow> string" where
  "row_trace_id run_id w = (case world_row run_id w of Some run \<Rightarrow> ar_trace_id run | None \<Rightarrow> [])"

definition is_running :: "string \<Rightarrow> world \<Rightarrow> bool" where
  "is_running run_id w = (run_id \<in> set (w_tasks w))"

definition start_background :: "manager_env \<Rightarrow> string \<Rightarrow> world \<Rightarrow> world \<times> bool" where
  "start_background env run_id w =
     (if is_running run_id w
      then (world_log (mg_clk env run_id 90) run_id (row_trace_id run_id w) ''run_manager'' ''background_start_skipped''
              ''Task already has an active background runner'' [] w, False)
      else (w\<lparr>w_tasks := w_tasks w @ [run_id]\<rparr>, True))"

text \<open>The done callback of a background task.\<close>

definition discard_task :: "string \<Rightarrow> world \<Rightarrow> world" where
  "discard_task run_id w = w\<lparr>w_tasks := removeAll run_id (w_tasks w)\<rparr>"

section \<open>Submission\<close>

definition add_child :: "string \<Rightarrow> string \<Rightarrow> (string \<times> string list) list \<Rightarrow> (string \<times> string list) list" where
  "add_child parent run_id m =
     (let old = (case map_of m parent of Some cs \<Rightarrow> cs | None \<Rightarrow> [])
      in AList.update parent (if run_id \<in> set old then old else old @ [run_id]) m)"

text \<open>A parent id that is a list or an object cannot be a dictionary key.\<close>

definition track_child :: "agent_run \<Rightarrow> world \<Rightarrow> py_exc + world" where
  "track_child run w =
     (case map_of (ar_metadata run) ''parent_run_id'' of
        Some (JStr p) \<Rightarrow> Inr (if p = [] then w else w\<lparr>w_children := add_child p (ar_run_id run) (w_children w)\<rparr>)
      | Some (JList xs) \<Rightarrow> if xs = [] then Inr w else Inl (TypeError (''unhashable type: '' @ py_repr ''list''))
      | Some (JObj d) \<Rightarrow> if d = [] then Inr w else Inl (TypeError (''unhashable type: '' @ py_repr ''dict''))
      | _ \<Rightarrow> Inr w)"

definition manager_submit ::
    "manager_env \<Rightarrow> bool \<Rightarrow> json_validator \<Rightarrow> skill_snapshots option \<Rightarrow> submit_env \<Rightarrow> agent_registry \<Rightarrow> run_submission
     \<Rightarrow> bool option \<Rightarrow> world \<Rightarrow> world \<times> (py_exc + agent_run)" where
  "manager_submit env auto_start validate skill_runtime senv reg submission start w =
     (case submit validate skill_runtime senv reg submission (w_store w) of
        (st, Inl e) \<Rightarrow> (w\<lparr>w_store := st\<rparr>, Inl e)
      | (st, Inr (run, is_new)) \<Rightarrow>
          (case track_child run (w\<lparr>w_store := st\<rparr>) of
             Inl e \<Rightarrow> (w\<lparr>w_store := st\<rparr>, Inl e)
           | Inr w1 \<Rightarrow>
               let should_start = (case start of None \<Rightarrow> auto_start | Some b \<Rightarrow> b)
               in if should_start \<and> is_new \<and> ar_status run = QUEUED
                  then (fst (start_background env (ar_run_id run) w1), Inr run)
                  else (w1, Inr run)))"

section \<open>Execution\<close>

text \<open>
  \<open>admit\<close> is what happens in \<^verbatim>\<open>run_with_limits\<close> before the call (waiting for slots, or an
  exception), \<open>leave\<close> what happens after it.
\<close>

definition run_version :: "agent_run \<Rightarrow> string option" where
  "run_version run = map_option af_version (ar_agent run)"

definition run_now ::
    "exec_env \<Rightarrow> (agent_run \<Rightarrow> agent_spec \<Rightarrow> world \<Rightarrow> world \<times> py_exc option) \<Rightarrow> (world \<Rightarrow> world) \<Rightarrow> (string \<Rightarrow> 'k::linorder)
     \<Rightarrow> agent_registry \<Rightarrow> string \<Rightarrow> string option \<Rightarrow> world \<Rightarrow> world \<times> (py_exc + agent_run)" where
  "run_now xenv admit leave vk reg run_id worker_id w =
     (case require_run run_id w of Inl e \<Rightarrow> (w, Inl e)
      | Inr run \<Rightarrow>
          if ar_status run \<in> {SUCCEEDED, FAILED, TIMEOUT, CANCELED} then (w, Inr run)
          else
            case resolve (ar_route_tag run) (run_version run) reg of Inl e \<Rightarrow> (w, Inl e)
            | Inr agent \<Rightarrow>
                (case admit run agent w of
                   (w1, Some e) \<Rightarrow> (w1, Inl e)
                 | (w1, None) \<Rightarrow>
                     (case execute xenv vk reg (ar_run_id run) (as_name agent) (as_version agent) worker_id w1 of
                        (w2, r) \<Rightarrow> (leave w2, r))))"

text \<open>
  The body of a background task without its renewal task, which runs beside it
  (\<open>renew_queue_lease_until_done\<close> below).
\<close>

definition run_background ::
    "manager_env \<Rightarrow> (world \<Rightarrow> world \<times> (py_exc + agent_run)) \<Rightarrow> string \<Rightarrow> string option \<Rightarrow> world \<Rightarrow> world \<times> py_exc option" where
  "run_background env run_now_call run_id worker_id w =
     (case run_now_call w of
        (w1, Inr _) \<Rightarrow> (w1, None)
      | (w1, Inl CancelledError) \<Rightarrow> (w1, Some CancelledError)
      | (w1, Inl e) \<Rightarrow>
          (case world_row run_id w1 of
             None \<Rightarrow> (w1, None)
           | Some run \<Rightarrow>
               (fst (update_owned (mg_clk env run_id 80)
                  (run\<lparr>ar_status := FAILED, ar_error_type := Some INTERNAL_ERROR, ar_error_message := Some (exc_text e)\<rparr>)
                  (EXECUTING_RUN_STATUSES \<union> {QUEUED}) worker_id (mg_others env run_id 80 w1)), None)))"

section \<open>Lease renewal\<close>

definition renew_interval :: "rat \<Rightarrow> rat" where
  "renew_interval lease_seconds = max (1 / 100) (lease_seconds / 3)"

text \<open>
  Each tick is the time at which the sleep of \<^verbatim>\<open>interval\<close> seconds ended, with what happened to
  the world meanwhile; the list ends when the execution is done and the renewal is cancelled.
  The flag says that the execution was cancelled because the lease was lost.
\<close>

fun renew_queue_lease_until_done ::
    "string \<Rightarrow> string \<Rightarrow> rat \<Rightarrow> (datetime \<times> (world \<Rightarrow> world)) list \<Rightarrow> world \<Rightarrow> world \<times> bool" where
  "renew_queue_lease_until_done run_id worker_id lease_seconds [] w = (w, False)"
| "renew_queue_lease_until_done run_id worker_id lease_seconds ((now, meanwhile) # ticks) w =
     (let w1 = meanwhile w in
      case renew_lease now run_id worker_id lease_seconds (s_runs (w_store w1)) of
        (True, rows) \<Rightarrow> renew_queue_lease_until_done run_id worker_id lease_seconds ticks
                          (w1\<lparr>w_store := (w_store w1)\<lparr>s_runs := rows\<rparr>\<rparr>)
      | (False, rows) \<Rightarrow>
          (world_log now run_id (row_trace_id run_id w1) ''run_manager'' ''lease_renewal_stopped''
             ''Lease renewal stopped because ownership no longer matches'' [(''worker_id'', JStr worker_id)] w1, True))"

section \<open>Retry\<close>

definition retried_run :: "manager_env \<Rightarrow> agent_spec \<Rightarrow> agent_run \<Rightarrow> agent_run" where
  "retried_run env agent run =
     run\<lparr>ar_status := QUEUED, ar_error_type := None, ar_error_message := None, ar_dead_letter_reason := None,
         ar_attempts := 0, ar_queue_time := Some (mg_clk env (ar_run_id run) 0),
         ar_run_after := Some (mg_clk env (ar_run_id run) 1),
         ar_max_attempts := rp_max_attempts (as_retry_policy agent), ar_worker := None, ar_lease_expire_time := None\<rparr>"

definition retry :: "manager_env \<Rightarrow> agent_registry \<Rightarrow> string \<Rightarrow> world \<Rightarrow> world \<times> (py_exc + agent_run)" where
  "retry env reg run_id w =
     (case require_run run_id w of Inl e \<Rightarrow> (w, Inl e)
      | Inr run \<Rightarrow>
          if ar_status run \<notin> {FAILED, TIMEOUT, WAITING_CALLBACK} then (w, Inr run)
          else if ar_error_type run = Some SIDE_EFFECT_OUTCOME_UNKNOWN then (w, Inr run)
          else
            case resolve (ar_route_tag run) (run_version run) reg of Inl e \<Rightarrow> (w, Inl e)
            | Inr agent \<Rightarrow>
                let run' = retried_run env agent run;
                    w1 = mg_others env run_id 2 w;
                    (st, _) = unit_of_work (\<lambda>st. Inr (st\<lparr>
                        s_stages := snd (reset_failed_for_run (mg_clk env run_id 2) run_id (s_stages st)),
                        s_runs := runs_update (mg_clk env run_id 3) run' (s_runs st)\<rparr>, ())) (w_store w1)
                in (fst (start_background env run_id (w1\<lparr>w_store := st\<rparr>)), Inr run'))"

section \<open>Cancellation\<close>

datatype cancel_outcome = Already agent_run | Canceled_now agent_run | Cancel_failed py_exc

fun cancel_row :: "manager_env \<Rightarrow> string \<Rightarrow> nat \<Rightarrow> world \<Rightarrow> world \<times> cancel_outcome" where
  "cancel_row env run_id 0 w =
     (w, Cancel_failed (RuntimeError (''Run '' @ py_repr run_id @ '' changed repeatedly while cancellation was requested'')))"
| "cancel_row env run_id (Suc n) w =
     (case require_run run_id w of Inl e \<Rightarrow> (w, Cancel_failed e)
      | Inr run \<Rightarrow>
          if ar_status run \<in> TERMINAL_RUN_STATUSES then (w, Already run)
          else
            let run' = run\<lparr>ar_status := CANCELED, ar_finish_time := Some (mg_clk env run_id (2 * n)),
                           ar_worker := None, ar_lease_expire_time := None\<rparr>;
                w1 = mg_others env run_id n w
            in (case update_if_current (mg_clk env run_id (2 * n + 1)) run' (status_guard {ar_status run}) (s_runs (w_store w1)) of
                  (True, rows) \<Rightarrow> (w1\<lparr>w_store := (w_store w1)\<lparr>s_runs := rows\<rparr>\<rparr>, Canceled_now run')
                | (False, rows) \<Rightarrow> cancel_row env run_id n w1))"

text \<open>
  The first argument is the depth the interpreter's recursion limit still allows; the exception
  raised beyond it is caught by the caller like any other.
\<close>

fun cancel :: "nat \<Rightarrow> manager_env \<Rightarrow> string \<Rightarrow> world \<Rightarrow> world \<times> (py_exc + agent_run)" where
  "cancel 0 env run_id w = (w, Inl (OtherException ''RecursionError'' ''maximum recursion depth exceeded''))"
| "cancel (Suc depth) env run_id w =
     (case cancel_row env run_id 10 w of
        (w1, Cancel_failed e) \<Rightarrow> (w1, Inl e)
      | (w1, Already run) \<Rightarrow> (w1, Inr run)
      | (w1, Canceled_now run) \<Rightarrow>
          let w2 = (case map_of (w_events w1) run_id of Some ev \<Rightarrow> w1\<lparr>w_set_events := insert ev (w_set_events w1)\<rparr> | None \<Rightarrow> w1);
              children = (case map_of (w_children w1) run_id of Some cs \<Rightarrow> cs | None \<Rightarrow> []);
              w3 = fold (\<lambda>c v. fst (cancel depth env c v)) children w2
          in (world_log (mg_clk env run_id 70) run_id (ar_trace_id run) ''run_api'' ''run_canceled'' ''Task canceled'' [] w3, Inr run))"

section \<open>Recovery after a restart\<close>

definition recovered_run :: "manager_env \<Rightarrow> agent_spec \<Rightarrow> agent_run \<Rightarrow> agent_run" where
  "recovered_run env agent run =
     (let clk = mg_clk env (ar_run_id run);
          queue_time = (case ar_queue_time run of Some t \<Rightarrow> t | None \<Rightarrow> clk 1)
      in run\<lparr>ar_status := QUEUED,
             ar_attempts := (if ar_status run \<in> EXECUTING_RUN_STATUSES \<and> 0 < ar_attempts run then ar_attempts run - 1 else ar_attempts run),
             ar_queue_time := Some queue_time,
             ar_run_after := (case ar_run_after run of Some t \<Rightarrow> Some t | None \<Rightarrow> Some queue_time),
             ar_max_attempts := rp_max_attempts (as_retry_policy agent), ar_worker := None, ar_lease_expire_time := None\<rparr>)"

definition leased_until_after :: "datetime \<Rightarrow> agent_run \<Rightarrow> bool" where
  "leased_until_after now run = (ar_worker run \<noteq> None \<and> (case ar_lease_expire_time run of Some t \<Rightarrow> now < t | None \<Rightarrow> False))"

definition recover_one :: "manager_env \<Rightarrow> agent_registry \<Rightarrow> agent_run \<Rightarrow> world \<times> int \<Rightarrow> world \<times> int" where
  "recover_one env reg run wn =
     (case wn of (w, recovered) \<Rightarrow>
        let clk = mg_clk env (ar_run_id run) in
        if ar_status run = CANCELED then (w, recovered)
        else if leased_until_after (clk 0) run then (w, recovered)
        else case resolve (ar_route_tag run) (run_version run) reg of
               Inl _ \<Rightarrow> (w, recovered)
             | Inr agent \<Rightarrow>
                 let w1 = mg_others env (ar_run_id run) 3 w in
                 (case update_if_current (clk 3) (recovered_run env agent run)
                         (lease_guard {ar_status run} (ar_worker run) (ar_lease_expire_time run)) (s_runs (w_store w1)) of
                    (True, rows) \<Rightarrow> (fst (start_background env (ar_run_id run) (w1\<lparr>w_store := (w_store w1)\<lparr>s_runs := rows\<rparr>\<rparr>)), recovered + 1)
                  | (False, rows) \<Rightarrow> (w1, recovered)))"

definition recover_incomplete :: "manager_env \<Rightarrow> agent_registry \<Rightarrow> int \<Rightarrow> world \<Rightarrow> world \<times> int" where
  "recover_incomplete env reg limit w =
     fold (recover_one env reg) (list_by_status [CREATED, QUEUED, RUNNING, WAITING_TOOL, RETRYING] limit (s_runs (w_store w))) (w, 0)"

section \<open>The queue\<close>

definition dispatch_one :: "manager_env \<Rightarrow> agent_run \<Rightarrow> world \<times> int \<Rightarrow> world \<times> int" where
  "dispatch_one env run wn =
     (case wn of (w, dispatched) \<Rightarrow>
        (case start_background env (ar_run_id run) w of
           (w1, False) \<Rightarrow> (w1, dispatched)
         | (w1, True) \<Rightarrow>
             (world_log (mg_clk env (ar_run_id run) 91) (ar_run_id run) (ar_trace_id run) ''worker'' ''runtime_dispatched''
                ''Worker dispatched ready runtime''
                [(''agent'', jopt (map_option af_name (ar_agent run))), (''route_tag'', JStr (ar_route_tag run)),
                 (''priority'', JNum (of_int (ar_priority run)))] w1, dispatched + 1)))"

definition dispatch_ready :: "manager_env \<Rightarrow> datetime \<Rightarrow> string \<Rightarrow> rat \<Rightarrow> int \<Rightarrow> world \<Rightarrow> world \<times> int" where
  "dispatch_ready env now worker_id lease_seconds limit w =
     (let active_run_ids = set (w_tasks w);
          (claimed, rows) = claim_ready now worker_id lease_seconds limit active_run_ids (s_runs (w_store w))
      in fold (dispatch_one env) claimed (w\<lparr>w_store := (w_store w)\<lparr>s_runs := rows\<rparr>\<rparr>, 0))"

definition reclaimed_run :: "agent_run \<Rightarrow> agent_run" where
  "reclaimed_run run = run\<lparr>ar_status := QUEUED,
     ar_attempts := (if 0 < ar_attempts run then ar_attempts run - 1 else ar_attempts run),
     ar_worker := None, ar_lease_expire_time := None\<rparr>"

definition lease_expired :: "datetime \<Rightarrow> agent_run \<Rightarrow> bool" where
  "lease_expired now run = (case ar_lease_expire_time run of None \<Rightarrow> False | Some t \<Rightarrow> t \<le> now)"

definition reclaim_log :: "manager_env \<Rightarrow> agent_run \<Rightarrow> string \<Rightarrow> string \<Rightarrow> world \<Rightarrow> world" where
  "reclaim_log env run event_type message w =
     world_log (mg_clk env (ar_run_id run) 92) (ar_run_id run) (ar_trace_id run) ''run_manager'' event_type message
       [(''route_tag'', JStr (ar_route_tag run)), (''agent'', jopt (map_option af_name (ar_agent run)))] w"

definition reclaim_one :: "manager_env \<Rightarrow> datetime \<Rightarrow> agent_run \<Rightarrow> world \<times> int \<Rightarrow> world \<times> int" where
  "reclaim_one env now run wn =
     (case wn of (w, reclaimed) \<Rightarrow>
        if \<not> lease_expired now run then (w, reclaimed)
        else if is_running (ar_run_id run) w
        then (reclaim_log env run ''lease_reclaim_skipped_active_run'' ''Expired lease still has an active background run'' w, reclaimed)
        else
          let w1 = mg_others env (ar_run_id run) 4 w in
          (case update_if_current (mg_clk env (ar_run_id run) 4) (reclaimed_run run)
                  (lease_guard {ar_status run} (ar_worker run) (ar_lease_expire_time run)) (s_runs (w_store w1)) of
             (True, rows) \<Rightarrow>
               (reclaim_log env run ''lease_expired_reclaimed'' ''Expired lease reclaimed, runtime reset to QUEUED''
                  (w1\<lparr>w_store := (w_store w1)\<lparr>s_runs := rows\<rparr>\<rparr>), reclaimed + 1)
           | (False, rows) \<Rightarrow> (w1, reclaimed)))"

definition reclaim_expired_leases :: "manager_env \<Rightarrow> datetime \<Rightarrow> int \<Rightarrow> world \<Rightarrow> world \<times> int" where
  "reclaim_expired_leases env now limit w =
     fold (reclaim_one env now) (list_by_status [RUNNING, WAITING_TOOL, RETRYING] limit (s_runs (w_store w))) (w, 0)"

section \<open>Callbacks and shutdown\<close>

definition resend_callback ::
    "delivery_env \<Rightarrow> callback_service \<Rightarrow> (nat \<Rightarrow> datetime) \<Rightarrow> string \<Rightarrow> string \<Rightarrow> world \<Rightarrow> world \<times> (py_exc + callback_delivery option)" where
  "resend_callback denv cs clk new_id run_id w =
     (case require_run run_id w of Inl e \<Rightarrow> (w, Inl e)
      | Inr run \<Rightarrow> (case resend denv cs clk new_id run (w_store w) of (st, r) \<Rightarrow> (w\<lparr>w_store := st\<rparr>, r)))"

definition compensate_callbacks ::
    "(string \<Rightarrow> delivery_env) \<Rightarrow> callback_service \<Rightarrow> datetime \<Rightarrow> int \<Rightarrow> world \<Rightarrow> world \<times> (py_exc + int)" where
  "compensate_callbacks denv cs now limit w =
     (case dispatch_pending denv cs now limit None None (w_store w) of (st, r) \<Rightarrow> (w\<lparr>w_store := st\<rparr>, r))"

text \<open>\<open>wait\<close> is what the background tasks do until the timeout and while they are being cancelled.\<close>

definition shutdown :: "(world \<Rightarrow> world) \<Rightarrow> world \<Rightarrow> world" where
  "shutdown wait w =
     (let w1 = w\<lparr>w_set_events := w_set_events w \<union> set (map snd (w_events w))\<rparr>
      in if w_tasks w1 = [] then w1 else (wait w1)\<lparr>w_tasks := []\<rparr>)"

section \<open>Sweeps over the run table\<close>

text \<open>
  Reclaiming and recovering both walk over a listing of the run table and rewrite some of its
  rows. The interface is one step of such a sweep on a row that is still as it was listed;
  its consequence is what the whole sweep does.
\<close>

locale row_sweep =
  fixes one :: "agent_run \<Rightarrow> world \<times> int \<Rightarrow> world \<times> int"
    and sel :: "agent_run \<Rightarrow> bool"
    and new :: "agent_run \<Rightarrow> agent_run"
    and inv :: "world \<Rightarrow> bool"
  assumes one_row: "inv w \<Longrightarrow> world_row (ar_run_id r) w = Some r \<Longrightarrow> one r (w, n) = (w', n') \<Longrightarrow>
      inv w' \<and> n' = n + (if sel r then 1 else 0)
      \<and> (\<forall>k. world_row k w' = (if k = ar_run_id r \<and> sel r then Some (new r) else world_row k w))"
begin

lemma sweep_exact:
  assumes "inv w" and "distinct (map ar_run_id ls)" and "\<forall>r \<in> set ls. world_row (ar_run_id r) w = Some r"
    and "fold one ls (w, n) = (w', n')"
  shows "inv w' \<and> n' = n + int (length (filter sel ls))
     \<and> (\<forall>k. world_row k w' = (case find (\<lambda>r. ar_run_id r = k \<and> sel r) ls of Some r \<Rightarrow> Some (new r) | None \<Rightarrow> world_row k w))"
  using assms
proof (induction ls arbitrary: w n)
  case (Cons r ls)
  obtain w1 n1 where o: "one r (w, n) = (w1, n1)" by fastforce
  have r: "world_row (ar_run_id r) w = Some r" using Cons.prems(3) by simp
  note step = one_row [OF Cons.prems(1) r o]
  have "\<forall>x \<in> set ls. world_row (ar_run_id x) w1 = Some x"
  proof
    fix x assume x: "x \<in> set ls"
    then have "ar_run_id x \<in> ar_run_id ` set ls" by simp
    then have "ar_run_id x \<noteq> ar_run_id r" using Cons.prems(2) by auto
    then show "world_row (ar_run_id x) w1 = Some x" using step x Cons.prems(3) by simp
  qed
  moreover have "fold one ls (w1, n1) = (w', n')" using Cons.prems(4) o by simp
  ultimately have ih: "inv w' \<and> n' = n1 + int (length (filter sel ls))
     \<and> (\<forall>k. world_row k w' = (case find (\<lambda>r. ar_run_id r = k \<and> sel r) ls of Some r \<Rightarrow> Some (new r) | None \<Rightarrow> world_row k w1))"
    using Cons.IH [of w1 n1] step Cons.prems(2) by simp
  have "find (\<lambda>x. ar_run_id x = ar_run_id r \<and> sel x) ls = None"
    using Cons.prems(2) by (auto simp: find_None_iff image_iff)
  then show ?case using ih step by (auto split: option.splits)
qed simp

end

text \<open>Nobody else writes between the listing and the guarded writes.\<close>

definition calm :: "manager_env \<Rightarrow> manager_env" where
  "calm env = env\<lparr>mg_others := \<lambda>_ _ w. w\<rparr>"

lemma calm_simps [simp]: "mg_others (calm env) k i w = w" "mg_clk (calm env) = mg_clk env"
  by (simp_all add: calm_def)

lemma world_log_simps [simp]:
  "world_row k (world_log t r tr c e m d w) = world_row k w" "world_wf (world_log t r tr c e m d w) = world_wf w"
  "w_tasks (world_log t r tr c e m d w) = w_tasks w" "w_events (world_log t r tr c e m d w) = w_events w"
  "w_children (world_log t r tr c e m d w) = w_children w" "w_set_events (world_log t r tr c e m d w) = w_set_events w"
  "s_runs (w_store (world_log t r tr c e m d w)) = s_runs (w_store w)" "s_stages (w_store (world_log t r tr c e m d w)) = s_stages (w_store w)"
  by (simp_all add: world_log_def world_row_def world_wf_def)

lemma start_background_simps [simp]:
  "world_row k (fst (start_background env r w)) = world_row k w" "world_wf (fst (start_background env r w)) = world_wf w"
  "s_runs (w_store (fst (start_background env r w))) = s_runs (w_store w)"
  "s_stages (w_store (fst (start_background env r w))) = s_stages (w_store w)"
  by (simp_all add: start_background_def world_row_def world_wf_def world_log_def)

lemma reclaim_log_simps [simp]:
  "world_row k (reclaim_log env r e m w) = world_row k w" "world_wf (reclaim_log env r e m w) = world_wf w"
  "w_tasks (reclaim_log env r e m w) = w_tasks w"
  by (simp_all add: reclaim_log_def)

text \<open>A guarded write that meets the row it was computed from replaces exactly that row.\<close>

lemma cas_row:
  assumes wf: "world_wf w" and r: "world_row (ar_run_id run) w = Some r" and m: "run_matches g r"
  obtains rows where "update_if_current now run g (s_runs (w_store w)) = (True, rows)"
    and "world_wf (w\<lparr>w_store := (w_store w)\<lparr>s_runs := rows\<rparr>\<rparr>)"
    and "\<And>k. world_row k (w\<lparr>w_store := (w_store w)\<lparr>s_runs := rows\<rparr>\<rparr>) =
           (if k = ar_run_id run then Some (run\<lparr>ar_update_time := now\<rparr>) else world_row k w)"
proof -
  let ?u = "update_if_current now run g (s_runs (w_store w))"
  have wf': "keys_distinct ar_run_id (s_runs (w_store w))" using wf by (simp add: world_wf_def)
  have f: "fst ?u" using run_cas.cas_wins_iff [OF wf', of now run g] r m by (auto simp: world_row_def)
  show thesis
  proof (rule that [of "snd ?u"])
    show "?u = (True, snd ?u)" using f by (cases ?u) simp
    show "world_wf (w\<lparr>w_store := (w_store w)\<lparr>s_runs := snd ?u\<rparr>\<rparr>)" using run_cas.invar_cas [OF wf', of now run g] by (simp add: world_wf_def)
    show "world_row k (w\<lparr>w_store := (w_store w)\<lparr>s_runs := snd ?u\<rparr>\<rparr>) =
        (if k = ar_run_id run then Some (run\<lparr>ar_update_time := now\<rparr>) else world_row k w)" for k
      using run_cas.get_cas [OF wf', of k now run g] f by (simp add: world_row_def)
  qed
qed

interpretation reclaim: row_sweep "reclaim_one (calm env) now" "\<lambda>r. lease_expired now r \<and> ar_run_id r \<notin> T"
    "\<lambda>r. (reclaimed_run r)\<lparr>ar_update_time := mg_clk env (ar_run_id r) 4\<rparr>" "\<lambda>w. world_wf w \<and> set (w_tasks w) = T" for env now T
proof
  fix w r n w' n'
  assume inv: "world_wf w \<and> set (w_tasks w) = T" and r: "world_row (ar_run_id r) w = Some r"
    and o: "reclaim_one (calm env) now r (w, n) = (w', n')"
  have id: "ar_run_id (reclaimed_run r) = ar_run_id r" by (simp add: reclaimed_run_def)
  show "(world_wf w' \<and> set (w_tasks w') = T) \<and> n' = n + (if lease_expired now r \<and> ar_run_id r \<notin> T then 1 else 0)
      \<and> (\<forall>k. world_row k w' = (if k = ar_run_id r \<and> lease_expired now r \<and> ar_run_id r \<notin> T
             then Some ((reclaimed_run r)\<lparr>ar_update_time := mg_clk env (ar_run_id r) 4\<rparr>) else world_row k w))"
  proof (cases "lease_expired now r \<and> ar_run_id r \<notin> T")
    case False
    with inv o show ?thesis by (auto simp: reclaim_one_def is_running_def Let_def split: if_splits)
  next
    case True
    obtain rows where u: "update_if_current (mg_clk env (ar_run_id r) 4) (reclaimed_run r)
        (lease_guard {ar_status r} (ar_worker r) (ar_lease_expire_time r)) (s_runs (w_store w)) = (True, rows)"
      and w: "world_wf (w\<lparr>w_store := (w_store w)\<lparr>s_runs := rows\<rparr>\<rparr>)"
        "\<And>k. world_row k (w\<lparr>w_store := (w_store w)\<lparr>s_runs := rows\<rparr>\<rparr>) =
           (if k = ar_run_id (reclaimed_run r) then Some ((reclaimed_run r)\<lparr>ar_update_time := mg_clk env (ar_run_id r) 4\<rparr>) else world_row k w)"
      using cas_row [of w "reclaimed_run r" r "lease_guard {ar_status r} (ar_worker r) (ar_lease_expire_time r)" "mg_clk env (ar_run_id r) 4"]
        inv r id by auto
    have "(w', n') = (reclaim_log (calm env) r ''lease_expired_reclaimed'' ''Expired lease reclaimed, runtime reset to QUEUED''
        (w\<lparr>w_store := (w_store w)\<lparr>s_runs := rows\<rparr>\<rparr>), n + 1)"
      using o True inv u by (simp add: reclaim_one_def is_running_def)
    then show ?thesis using w inv id True by simp
  qed
qed

definition recoverable :: "manager_env \<Rightarrow> agent_registry \<Rightarrow> agent_run \<Rightarrow> bool" where
  "recoverable env reg r = (ar_status r \<noteq> CANCELED \<and> \<not> leased_until_after (mg_clk env (ar_run_id r) 0) r
     \<and> (\<exists>agent. resolve (ar_route_tag r) (run_version r) reg = Inr agent))"

definition recovered_row :: "manager_env \<Rightarrow> agent_registry \<Rightarrow> agent_run \<Rightarrow> agent_run" where
  "recovered_row env reg r = (case resolve (ar_route_tag r) (run_version r) reg of
     Inr agent \<Rightarrow> (recovered_run env agent r)\<lparr>ar_update_time := mg_clk env (ar_run_id r) 3\<rparr> | Inl _ \<Rightarrow> r)"

lemma recovered_run_id [simp]: "ar_run_id (recovered_run env agent r) = ar_run_id r"
  by (simp add: recovered_run_def Let_def)

lemma recovered_run_calm [simp]: "recovered_run (calm env) agent r = recovered_run env agent r"
  by (simp add: recovered_run_def)

interpretation recovery: row_sweep "recover_one (calm env) reg" "recoverable env reg" "recovered_row env reg" world_wf for env reg
proof
  fix w r n w' n'
  assume wf: "world_wf w" and r: "world_row (ar_run_id r) w = Some r" and o: "recover_one (calm env) reg r (w, n) = (w', n')"
  show "world_wf w' \<and> n' = n + (if recoverable env reg r then 1 else 0)
      \<and> (\<forall>k. world_row k w' = (if k = ar_run_id r \<and> recoverable env reg r then Some (recovered_row env reg r) else world_row k w))"
  proof (cases "recoverable env reg r")
    case False
    with wf o show ?thesis by (auto simp: recover_one_def recoverable_def Let_def split: if_splits sum.splits)
  next
    case True
    then obtain agent where a: "resolve (ar_route_tag r) (run_version r) reg = Inr agent" by (auto simp: recoverable_def)
    let ?new = "recovered_run env agent r"
    obtain rows where u: "update_if_current (mg_clk env (ar_run_id r) 3) ?new
        (lease_guard {ar_status r} (ar_worker r) (ar_lease_expire_time r)) (s_runs (w_store w)) = (True, rows)"
      and w: "world_wf (w\<lparr>w_store := (w_store w)\<lparr>s_runs := rows\<rparr>\<rparr>)"
        "\<And>k. world_row k (w\<lparr>w_store := (w_store w)\<lparr>s_runs := rows\<rparr>\<rparr>) =
           (if k = ar_run_id ?new then Some (?new\<lparr>ar_update_time := mg_clk env (ar_run_id r) 3\<rparr>) else world_row k w)"
      using cas_row [of w ?new r "lease_guard {ar_status r} (ar_worker r) (ar_lease_expire_time r)" "mg_clk env (ar_run_id r) 3"] wf r by auto
    have "(w', n') = (fst (start_background (calm env) (ar_run_id r) (w\<lparr>w_store := (w_store w)\<lparr>s_runs := rows\<rparr>\<rparr>)), n + 1)"
      using o True a u by (simp add: recover_one_def recoverable_def)
    then show ?thesis using w True a by (simp add: recovered_row_def)
  qed
qed

lemma find_by_id:
  assumes "distinct (map ar_run_id ls)" and "r \<in> set ls" and "ar_run_id r = k"
  shows "find (\<lambda>x. ar_run_id x = k \<and> P x) ls = (if P r then Some r else None)"
  using assms by (induction ls) (auto simp: find_None_iff image_iff)

lemma list_by_status_rows:
  assumes "world_wf w"
  shows "distinct (map ar_run_id (list_by_status ss limit (s_runs (w_store w))))"
    and "\<forall>r \<in> set (list_by_status ss limit (s_runs (w_store w))). world_row (ar_run_id r) w = Some r \<and> ar_status r \<in> set ss"
proof -
  let ?rows = "s_runs (w_store w)"
  have wf: "keys_distinct ar_run_id ?rows" using assms by (simp add: world_wf_def)
  have sub: "set (list_by_status ss limit ?rows) \<subseteq> {r \<in> set ?rows. ar_status r \<in> set ss}"
    by (auto simp: list_by_status_def dest: in_set_takeD split: if_splits)
  then show "\<forall>r \<in> set (list_by_status ss limit ?rows). world_row (ar_run_id r) w = Some r \<and> ar_status r \<in> set ss"
    using runs_get_mem [OF wf] by (auto simp: world_row_def)
  have d: "distinct ?rows" and i: "inj_on ar_run_id (set ?rows)" using wf by (simp_all add: keys_distinct_def distinct_map)
  have "distinct (list_by_status ss limit ?rows)" using d by (simp add: list_by_status_def)
  then show "distinct (map ar_run_id (list_by_status ss limit ?rows))"
    using i sub by (auto simp: distinct_map intro: inj_on_subset)
qed

text \<open>What a sweep does to each row, from the interface's conclusion.\<close>

lemma sweep_row:
  assumes wf: "world_wf w" and r: "world_row k w = Some r"
    and d: "distinct (map ar_run_id ls)" "\<forall>x \<in> set ls. world_row (ar_run_id x) w = Some x"
    and k: "world_row k w' = (case find (\<lambda>x. ar_run_id x = k \<and> P x) ls of Some x \<Rightarrow> Some (new x) | None \<Rightarrow> world_row k w)"
  shows "world_row k w' = Some (if r \<in> set ls \<and> P r then new r else r)"
proof (cases "r \<in> set ls")
  case True
  then show ?thesis using find_by_id [OF d(1) True world_row_id [OF r], of P] k r by simp
next
  case False
  have "find (\<lambda>x. ar_run_id x = k \<and> P x) ls = None" using False d(2) r by (force simp: find_None_iff)
  then show ?thesis using k r False by simp
qed

section \<open>Cancellation\<close>

definition canceled_row :: "agent_run \<Rightarrow> bool" where
  "canceled_row y = (ar_status y = CANCELED \<and> ar_worker y = None \<and> ar_lease_expire_time y = None)"

text \<open>\<open>cancels w w'\<close>: from \<open>w\<close> to \<open>w'\<close> some unfinished runs were cancelled and nothing else happened to runs.\<close>

definition cancels :: "world \<Rightarrow> world \<Rightarrow> bool" where
  "cancels w w' = (world_wf w' \<and> w_events w' = w_events w \<and> w_children w' = w_children w \<and> w_set_events w \<subseteq> w_set_events w'
     \<and> (\<forall>k. world_row k w' = world_row k w
          \<or> (\<exists>x y. world_row k w = Some x \<and> ar_status x \<notin> TERMINAL_RUN_STATUSES \<and> world_row k w' = Some y \<and> canceled_row y)))"

lemma cancels_refl: "world_wf w \<Longrightarrow> cancels w w"
  by (simp add: cancels_def)

lemma canceled_terminal: "canceled_row y \<Longrightarrow> ar_status y \<in> TERMINAL_RUN_STATUSES"
  by (simp add: canceled_row_def status_defs)

lemma cancels_trans:
  assumes "cancels w w1" and "cancels w1 w2"
  shows "cancels w w2"
proof -
  have "world_row k w2 = world_row k w
      \<or> (\<exists>x y. world_row k w = Some x \<and> ar_status x \<notin> TERMINAL_RUN_STATUSES \<and> world_row k w2 = Some y \<and> canceled_row y)" for k
    using assms canceled_terminal unfolding cancels_def by (metis option.inject)
  then show ?thesis using assms unfolding cancels_def by auto
qed

lemma cancels_terminal:
  "cancels w w' \<Longrightarrow> world_row k w = Some x \<Longrightarrow> ar_status x \<in> TERMINAL_RUN_STATUSES \<Longrightarrow> world_row k w' = Some x"
  unfolding cancels_def by (metis option.inject)

lemma cancel_row_calm:
  assumes wf: "world_wf w" and x: "world_row k w = Some x" and n: "ar_status x \<notin> TERMINAL_RUN_STATUSES"
  obtains w1 run y where "cancel_row (calm env) k (Suc m) w = (w1, Canceled_now run)" and "cancels w w1" and "w_set_events w1 = w_set_events w"
    and "world_row k w1 = Some y" and "canceled_row y"
proof -
  let ?run = "x\<lparr>ar_status := CANCELED, ar_finish_time := Some (mg_clk env k (2 * m)), ar_worker := None, ar_lease_expire_time := None\<rparr>"
  have id: "ar_run_id ?run = k" using world_row_id [OF x] by simp
  obtain rows where u: "update_if_current (mg_clk env k (2 * m + 1)) ?run (status_guard {ar_status x}) (s_runs (w_store w)) = (True, rows)"
    and w: "world_wf (w\<lparr>w_store := (w_store w)\<lparr>s_runs := rows\<rparr>\<rparr>)"
      "\<And>j. world_row j (w\<lparr>w_store := (w_store w)\<lparr>s_runs := rows\<rparr>\<rparr>) =
         (if j = ar_run_id ?run then Some (?run\<lparr>ar_update_time := mg_clk env k (2 * m + 1)\<rparr>) else world_row j w)"
    using cas_row [of w ?run x "status_guard {ar_status x}" "mg_clk env k (2 * m + 1)"] wf x id by auto
  have c: "cancel_row (calm env) k (Suc m) w = (w\<lparr>w_store := (w_store w)\<lparr>s_runs := rows\<rparr>\<rparr>, Canceled_now ?run)"
    using x n u by (simp add: Let_def)
  show thesis
  proof (rule that [OF c])
    show "cancels w (w\<lparr>w_store := (w_store w)\<lparr>s_runs := rows\<rparr>\<rparr>)"
      using w x n id by (auto simp: cancels_def canceled_row_def)
    show "world_row k (w\<lparr>w_store := (w_store w)\<lparr>s_runs := rows\<rparr>\<rparr>) = Some (?run\<lparr>ar_update_time := mg_clk env k (2 * m + 1)\<rparr>)"
      using w(2) id by simp
  qed (simp_all add: canceled_row_def)
qed

lemma cancels_set_event: "cancels w (v\<lparr>w_set_events := insert e (w_set_events v)\<rparr>)" if "cancels w v"
  using that by (auto simp: cancels_def world_wf_def world_row_def)

lemma cancels_log: "cancels w (world_log t r tr c e m d v) = cancels w v"
  by (simp add: cancels_def)

lemma cancels_wf: "cancels w w' \<Longrightarrow> world_wf w'"
  by (simp add: cancels_def)

lemma cancels_fold:
  assumes "\<And>c v. world_wf v \<Longrightarrow> cancels v (f c v)" and "world_wf w"
  shows "cancels w (fold f cs w)"
  using assms(2)
proof (induction cs arbitrary: w)
  case (Cons c cs)
  then show ?case using assms(1) [of w c] cancels_trans cancels_wf by fastforce
qed (simp add: cancels_refl)

lemma fold_cancels_terminal:
  assumes "\<And>c v. world_wf v \<Longrightarrow> cancels v (f c v)" and "world_wf w" and "c \<in> set cs" and "world_row c w = Some z"
    and "\<And>v z. world_wf v \<Longrightarrow> world_row c v = Some z \<Longrightarrow> \<exists>y. world_row c (f c v) = Some y \<and> ar_status y \<in> TERMINAL_RUN_STATUSES"
  shows "\<exists>y. world_row c (fold f cs w) = Some y \<and> ar_status y \<in> TERMINAL_RUN_STATUSES"
  using assms(2-4)
proof (induction cs arbitrary: w z)
  case (Cons d cs)
  have s: "cancels w (f d w)" using assms(1) Cons.prems(1) by blast
  have rest: "cancels (f d w) (fold f cs (f d w))" using assms(1) cancels_wf [OF s] by (rule cancels_fold)
  show ?case
  proof (cases "c = d")
    case True
    then obtain y where "world_row c (f d w) = Some y" "ar_status y \<in> TERMINAL_RUN_STATUSES" using assms(5) Cons.prems by blast
    then show ?thesis using cancels_terminal [OF rest] by auto
  next
    case False
    obtain y where "world_row c (f d w) = Some y" using s Cons.prems(3) unfolding cancels_def by metis
    with Cons.IH [OF cancels_wf [OF s]] False Cons.prems(2) show ?thesis by simp
  qed
qed simp

text \<open>The successful branch of \<open>cancel\<close>.\<close>

lemma cancel_unfinished:
  assumes wf: "world_wf w" and x: "world_row k w = Some x" and n: "ar_status x \<notin> TERMINAL_RUN_STATUSES"
  obtains w2 run y where "cancel (Suc d) (calm env) k w =
      (world_log (mg_clk env k 70) k (ar_trace_id run) ''run_api'' ''run_canceled'' ''Task canceled'' []
         (fold (\<lambda>c v. fst (cancel d (calm env) c v)) (case map_of (w_children w) k of Some cs \<Rightarrow> cs | None \<Rightarrow> []) w2), Inr run)"
    and "cancels w w2" and "world_row k w2 = Some y" and "canceled_row y" and "\<forall>ev. map_of (w_events w) k = Some ev \<longrightarrow> ev \<in> w_set_events w2"
proof -
  have ten: "(10::nat) = Suc 9" by simp
  obtain w1 run y where c: "cancel_row (calm env) k 10 w = (w1, Canceled_now run)" and w1: "cancels w w1" "w_set_events w1 = w_set_events w"
      and y: "world_row k w1 = Some y" "canceled_row y"
    unfolding ten using cancel_row_calm [OF wf x n] .
  let ?w2 = "case map_of (w_events w1) k of Some ev \<Rightarrow> w1\<lparr>w_set_events := insert ev (w_set_events w1)\<rparr> | None \<Rightarrow> w1"
  have same: "w_events w1 = w_events w" "w_children w1 = w_children w" using w1(1) by (simp_all add: cancels_def)
  show thesis
  proof (rule that [of run ?w2 y])
    show "cancels w ?w2" using w1(1) cancels_set_event by (auto split: option.split)
    show "world_row k ?w2 = Some y" using y(1) by (auto simp: world_row_def split: option.split)
    show "\<forall>ev. map_of (w_events w) k = Some ev \<longrightarrow> ev \<in> w_set_events ?w2" by (auto simp: same)
    show "cancel (Suc d) (calm env) k w =
      (world_log (mg_clk env k 70) k (ar_trace_id run) ''run_api'' ''run_canceled'' ''Task canceled'' []
         (fold (\<lambda>c v. fst (cancel d (calm env) c v)) (case map_of (w_children w) k of Some cs \<Rightarrow> cs | None \<Rightarrow> []) ?w2), Inr run)"
      by (simp only: cancel.simps c prod.case cancel_outcome.case Let_def same calm_simps)
  qed (use y in simp)
qed

lemma cancel_row_other:
  "world_row k w = Some x \<Longrightarrow> ar_status x \<in> TERMINAL_RUN_STATUSES \<Longrightarrow> cancel_row env k (Suc m) w = (w, Already x)"
  "world_row k w = None \<Longrightarrow> \<exists>e. cancel_row env k (Suc m) w = (w, Cancel_failed e)"
  by (simp_all add: require_run_def)

lemma cancel_finished:
  assumes "world_row k w = Some x" and "ar_status x \<in> TERMINAL_RUN_STATUSES"
  shows "cancel (Suc d) env k w = (w, Inr x)"
proof -
  have ten: "(10::nat) = Suc 9" by simp
  have "cancel_row env k 10 w = (w, Already x)" unfolding ten by (rule cancel_row_other(1) [OF assms])
  then show ?thesis by simp
qed

lemma cancel_unknown: "world_row k w = None \<Longrightarrow> fst (cancel d env k w) = w"
proof (cases d)
  case (Suc e)
  have ten: "(10::nat) = Suc 9" by simp
  assume "world_row k w = None"
  then have "\<exists>e. cancel_row env k 10 w = (w, Cancel_failed e)" unfolding ten by (rule cancel_row_other(2))
  then show ?thesis using Suc by auto
qed simp

lemma cancel_cancels: "world_wf w \<Longrightarrow> cancels w (fst (cancel d (calm env) k w))"
proof (induction d arbitrary: k w)
  case (Suc d)
  consider "world_row k w = None" | x where "world_row k w = Some x" "ar_status x \<in> TERMINAL_RUN_STATUSES"
    | x where "world_row k w = Some x" "ar_status x \<notin> TERMINAL_RUN_STATUSES" by fastforce
  then show ?case
  proof cases
    case 1
    with Suc.prems show ?thesis by (simp add: cancel_unknown cancels_refl del: cancel.simps)
  next
    case (2 x)
    with Suc.prems show ?thesis by (simp add: cancel_finished cancels_refl del: cancel.simps)
  next
    case (3 x)
    show ?thesis
    proof (rule cancel_unfinished [OF Suc.prems 3, of d env])
      fix w2 run y
      let ?cs = "case map_of (w_children w) k of Some cs \<Rightarrow> cs | None \<Rightarrow> []"
      assume c: "cancel (Suc d) (calm env) k w = (world_log (mg_clk env k 70) k (ar_trace_id run) ''run_api'' ''run_canceled'' ''Task canceled'' []
         (fold (\<lambda>c v. fst (cancel d (calm env) c v)) ?cs w2), Inr run)" and w2: "cancels w w2"
      have "cancels w2 (fold (\<lambda>c v. fst (cancel d (calm env) c v)) ?cs w2)"
        by (rule cancels_fold [OF Suc.IH cancels_wf [OF w2]])
      then show ?thesis unfolding c fst_conv cancels_log using cancels_trans [OF w2] by blast
    qed
  qed
qed (simp add: cancels_refl)

lemma cancel_ends:
  assumes v: "world_wf v" "world_row c v = Some z"
  shows "\<exists>u. world_row c (fst (cancel (Suc d) (calm env) c v)) = Some u \<and> ar_status u \<in> TERMINAL_RUN_STATUSES"
proof (cases "ar_status z \<in> TERMINAL_RUN_STATUSES")
  case True
  then show ?thesis using cancel_finished [OF v(2) True] v(2) by (simp del: cancel.simps)
next
  case nt: False
  show ?thesis
  proof (rule cancel_unfinished [OF v nt, of d env])
    fix v2 r u
    let ?g = "\<lambda>c v. fst (cancel d (calm env) c v)" and ?cs = "case map_of (w_children v) c of Some cs \<Rightarrow> cs | None \<Rightarrow> []"
    assume e: "cancel (Suc d) (calm env) c v = (world_log (mg_clk env c 70) c (ar_trace_id r) ''run_api'' ''run_canceled''
        ''Task canceled'' [] (fold ?g ?cs v2), Inr r)" and v2: "cancels v v2" and u: "world_row c v2 = Some u" "canceled_row u"
    have "cancels v2 (fold ?g ?cs v2)" by (rule cancels_fold [OF cancel_cancels cancels_wf [OF v2]])
    then have "world_row c (fold ?g ?cs v2) = Some u" using cancels_terminal u canceled_terminal by blast
    then show ?thesis unfolding e using canceled_terminal [OF u(2)] by simp
  qed
qed

section \<open>Dispatch and renewal\<close>

lemma dispatch_one_new:
  assumes "ar_run_id r \<notin> set (w_tasks w)" and "dispatch_one env r (w, n) = (w', n')"
  shows "n' = n + 1 \<and> w_tasks w' = w_tasks w @ [ar_run_id r] \<and> s_runs (w_store w') = s_runs (w_store w)"
  using assms by (auto simp: dispatch_one_def start_background_def is_running_def)

lemma dispatch_fold:
  assumes "distinct (map ar_run_id ls)" and "ar_run_id ` set ls \<inter> set (w_tasks w) = {}" and "fold (dispatch_one env) ls (w, n) = (w', n')"
  shows "n' = n + int (length ls) \<and> w_tasks w' = w_tasks w @ map ar_run_id ls \<and> s_runs (w_store w') = s_runs (w_store w)"
  using assms
proof (induction ls arbitrary: w n)
  case (Cons r ls)
  obtain w1 n1 where o: "dispatch_one env r (w, n) = (w1, n1)" by fastforce
  have s: "n1 = n + 1" "w_tasks w1 = w_tasks w @ [ar_run_id r]" "s_runs (w_store w1) = s_runs (w_store w)"
    using dispatch_one_new [OF _ o] Cons.prems(2) by auto
  have "ar_run_id ` set ls \<inter> set (w_tasks w1) = {}" using Cons.prems(1,2) s(2) by auto
  with Cons.IH [of w1 n1] Cons.prems(1,3) o s show ?case by simp
qed simp

text \<open>Claims of other workers, as they may happen between two renewals.\<close>

record foreign_claim =
  fc_time :: datetime
  fc_worker :: string
  fc_lease_seconds :: rat
  fc_limit :: int
  fc_exclude :: "string set"

definition apply_claims :: "foreign_claim list \<Rightarrow> world \<Rightarrow> world" where
  "apply_claims cs w = fold (\<lambda>c v. v\<lparr>w_store := (w_store v)\<lparr>s_runs :=
     snd (claim_ready (fc_time c) (fc_worker c) (fc_lease_seconds c) (fc_limit c) (fc_exclude c) (s_runs (w_store v)))\<rparr>\<rparr>) cs w"

text \<open>Every renewal comes before the previous lease ends, and so do the claims before it.\<close>

fun timely :: "rat \<Rightarrow> datetime \<Rightarrow> (datetime \<times> foreign_claim list) list \<Rightarrow> bool" where
  "timely ls t0 [] = True"
| "timely ls t0 ((now, cs) # ticks) = (now < t0 + timedelta_seconds ls \<and> (\<forall>c \<in> set cs. fc_time c \<le> now) \<and> timely ls now ticks)"

definition leased_row :: "string \<Rightarrow> datetime \<Rightarrow> agent_run \<Rightarrow> bool" where
  "leased_row worker_id expiry x =
     (ar_worker x = Some worker_id \<and> ar_status x \<in> EXECUTING_RUN_STATUSES \<and> ar_lease_expire_time x = Some expiry)"

lemma leased_not_claimable: "leased_row wk e x \<Longrightarrow> now < e \<Longrightarrow> \<not> claimable now x"
  by (auto simp: leased_row_def claimable_def status_defs)

lemma apply_claims_leased:
  assumes "world_wf w" and "world_row k w = Some x" and "leased_row wk e x" and "\<forall>c \<in> set cs. fc_time c < e"
  shows "world_wf (apply_claims cs w) \<and> world_row k (apply_claims cs w) = Some x"
  using assms
proof (induction cs arbitrary: w)
  case (Cons c cs)
  let ?rows = "s_runs (w_store w)"
  let ?claim = "claim_ready (fc_time c) (fc_worker c) (fc_lease_seconds c) (fc_limit c) (fc_exclude c) ?rows"
  let ?w = "w\<lparr>w_store := (w_store w)\<lparr>s_runs := snd ?claim\<rparr>\<rparr>"
  have wf: "keys_distinct ar_run_id ?rows" using Cons.prems(1) by (simp add: world_wf_def)
  have "\<not> claimable (fc_time c) x" using leased_not_claimable Cons.prems(3,4) by auto
  then have "x \<notin> set (claim_selection (fc_time c) (fc_limit c) (fc_exclude c) ?rows)" using claim_selection_subset by blast
  moreover have mem: "x \<in> set ?rows" "ar_run_id x = k" using runs_get_SomeD Cons.prems(2) by (auto simp: world_row_def)
  ultimately have "ar_run_id x \<notin> ar_run_id ` set (claim_selection (fc_time c) (fc_limit c) (fc_exclude c) ?rows)"
    using claim_selection_subset [of "fc_time c" "fc_limit c" "fc_exclude c" ?rows] wf
    by (auto simp: keys_distinct_def distinct_map inj_on_def)
  then have "runs_get k (snd ?claim) = Some x" using Cons.prems(2) by (simp add: runs_get_claim_ready world_row_def)
  moreover have "keys_distinct ar_run_id (snd ?claim)" unfolding claim_ready_snd using wf by (subst keys_distinct_map) simp_all
  ultimately have "world_wf ?w" "world_row k ?w = Some x" by (simp_all add: world_wf_def world_row_def)
  from Cons.IH [OF this Cons.prems(3)] Cons.prems(4) show ?case by (simp add: apply_claims_def)
qed (simp add: apply_claims_def)

lemma renew_lease_row:
  assumes wf: "world_wf w" and x: "world_row k w = Some x" and l: "leased_row wk e x"
  obtains rows where "renew_lease now k wk ls (s_runs (w_store w)) = (True, rows)"
    and "world_wf (w\<lparr>w_store := (w_store w)\<lparr>s_runs := rows\<rparr>\<rparr>)"
    and "\<exists>y. world_row k (w\<lparr>w_store := (w_store w)\<lparr>s_runs := rows\<rparr>\<rparr>) = Some y \<and> leased_row wk (now + timedelta_seconds ls) y"
proof -
  let ?rows = "s_runs (w_store w)"
  let ?owned = "\<lambda>r. ar_run_id r = k \<and> ar_worker r = Some wk \<and> ar_status r \<in> {RUNNING, WAITING_TOOL, RETRYING}"
  let ?f = "\<lambda>r. if ?owned r then r\<lparr>ar_lease_expire_time := Some (now + timedelta_seconds ls), ar_update_time := now\<rparr> else r"
  have mem: "x \<in> set ?rows" "ar_run_id x = k" using runs_get_SomeD x by (auto simp: world_row_def)
  have "find ?owned ?rows \<noteq> None" using mem l by (auto simp: find_None_iff leased_row_def status_defs)
  then have r: "renew_lease now k wk ls ?rows = (True, map ?f ?rows)" by (auto simp: renew_lease_def Let_def)
  show thesis
  proof (rule that [OF r])
    show "world_wf (w\<lparr>w_store := (w_store w)\<lparr>s_runs := map ?f ?rows\<rparr>\<rparr>)"
      using wf keys_distinct_map [of ?rows ar_run_id ?f] by (simp add: world_wf_def)
    have "runs_get k (map ?f ?rows) = Some (?f x)" using x runs_get_map [of ?rows ?f k] by (simp add: world_row_def)
    moreover have "leased_row wk (now + timedelta_seconds ls) (?f x)" using mem l by (auto simp: leased_row_def status_defs)
    ultimately show "\<exists>y. world_row k (w\<lparr>w_store := (w_store w)\<lparr>s_runs := map ?f ?rows\<rparr>\<rparr>) = Some y
        \<and> leased_row wk (now + timedelta_seconds ls) y" by (simp add: world_row_def)
  qed
qed

lemma renewals_keep:
  assumes "world_wf w" and "world_row k w = Some x" and "leased_row wk (t0 + timedelta_seconds ls) x" and "timely ls t0 ticks"
  shows "\<exists>w' y. renew_queue_lease_until_done k wk ls (map (\<lambda>(now, cs). (now, apply_claims cs)) ticks) w = (w', False)
     \<and> world_wf w' \<and> world_row k w' = Some y \<and> leased_row wk (last (t0 # map fst ticks) + timedelta_seconds ls) y"
  using assms
proof (induction ticks arbitrary: w x t0)
  case (Cons tick ticks)
  obtain now cs where t: "tick = (now, cs)" by fastforce
  have time: "now < t0 + timedelta_seconds ls" "\<forall>c \<in> set cs. fc_time c \<le> now" "timely ls now ticks" using Cons.prems(4) t by auto
  have "\<forall>c \<in> set cs. fc_time c < t0 + timedelta_seconds ls" using time by auto
  note keep = apply_claims_leased [OF Cons.prems(1-3) this]
  obtain rows y where r: "renew_lease now k wk ls (s_runs (w_store (apply_claims cs w))) = (True, rows)"
    and y: "world_wf ((apply_claims cs w)\<lparr>w_store := (w_store (apply_claims cs w))\<lparr>s_runs := rows\<rparr>\<rparr>)"
      "world_row k ((apply_claims cs w)\<lparr>w_store := (w_store (apply_claims cs w))\<lparr>s_runs := rows\<rparr>\<rparr>) = Some y"
      "leased_row wk (now + timedelta_seconds ls) y"
    using renew_lease_row [OF conjunct1 [OF keep] conjunct2 [OF keep] Cons.prems(3), of now ls] by blast
  from Cons.IH [OF y time(3)] show ?case using r by (simp add: t Let_def)
qed auto

lemma renew_lease_refused:
  assumes "world_wf w" and "world_row k w = Some y" and "ar_status y \<notin> EXECUTING_RUN_STATUSES"
  shows "\<not> fst (renew_lease now k wk ls (s_runs (w_store w)))"
proof -
  have "x = y" if "x \<in> set (s_runs (w_store w))" "ar_run_id x = k" for x
    using assms(1,2) that runs_get_mem [of "s_runs (w_store w)" x] by (auto simp: world_wf_def world_row_def)
  then have "find (\<lambda>r. ar_run_id r = k \<and> ar_worker r = Some wk \<and> ar_status r \<in> {RUNNING, WAITING_TOOL, RETRYING}) (s_runs (w_store w)) = None"
    using assms(3) by (auto simp: find_None_iff EXECUTING_RUN_STATUSES_def)
  then show ?thesis unfolding renew_lease_def Let_def by (simp only: option.case fst_conv not_False_eq_True)
qed

lemma demo_world_tasks [simp]: "w_tasks (demo_world r) = []"
  by (simp add: demo_world_def)

text \<open>The write of a retry, whatever the row looks like at that time.\<close>

lemma retry_writes:
  assumes x: "world_row run_id w = Some x" "ar_status x \<in> {FAILED, TIMEOUT, WAITING_CALLBACK}"
      "ar_error_type x \<noteq> Some SIDE_EFFECT_OUTCOME_UNKNOWN" "resolve (ar_route_tag x) (run_version x) reg = Inr agent"
  obtains w' where "retry env reg run_id w = (w', Inr (retried_run env agent x))"
    and "world_row run_id w' = Some ((retried_run env agent x)\<lparr>ar_update_time := mg_clk env run_id 3\<rparr>)"
    and "\<forall>k. k \<noteq> run_id \<longrightarrow> world_row k w' = world_row k (mg_others env run_id 2 w)"
    and "s_stages (w_store w') = snd (reset_failed_for_run (mg_clk env run_id 2) run_id (s_stages (w_store (mg_others env run_id 2 w))))"
    and "is_running run_id w'"
proof -
  let ?run = "retried_run env agent x" and ?w1 = "mg_others env run_id 2 w"
  let ?st = "(w_store ?w1)\<lparr>s_stages := snd (reset_failed_for_run (mg_clk env run_id 2) run_id (s_stages (w_store ?w1))),
      s_runs := runs_update (mg_clk env run_id 3) ?run (s_runs (w_store ?w1))\<rparr>"
  let ?w' = "fst (start_background env run_id (?w1\<lparr>w_store := ?st\<rparr>))"
  have id: "ar_run_id ?run = run_id" using world_row_id [OF x(1)] by (simp add: retried_run_def)
  have r: "retry env reg run_id w = (?w', Inr ?run)" using x by (simp add: retry_def unit_of_work_def Let_def)
  show thesis
  proof (rule that [OF r])
    show "world_row run_id ?w' = Some (?run\<lparr>ar_update_time := mg_clk env run_id 3\<rparr>)"
      using run_repo.get_put_same [of ?run "mg_clk env run_id 3" "s_runs (w_store ?w1)"] id by (simp add: world_row_def)
    show "\<forall>k. k \<noteq> run_id \<longrightarrow> world_row k ?w' = world_row k ?w1"
      using run_repo.get_put_other [of _ ?run "mg_clk env run_id 3" "s_runs (w_store ?w1)"] id by (simp add: world_row_def)
    show "is_running run_id ?w'" by (simp add: start_background_def is_running_def)
  qed simp
qed

section \<open>Properties\<close>



text \<open>
  Exactly the runs with an expired lease are reclaimed. Without writes in between, a sweep
  changes a run's row if and only if it was listed, its lease had expired and no background task
  of this process is running it; such a run is queued again without worker and lease, its
  interrupted attempt does not count, and it is ready to be claimed as soon as its start time
  allows. The sweep reports the number of reclaimed runs.
\<close>

theorem reclaim_exact:
  assumes wf: "world_wf w" and r: "reclaim_expired_leases (calm env) now limit w = (w', n)"
  shows "n = int (length (filter (\<lambda>x. lease_expired now x \<and> \<not> is_running (ar_run_id x) w)
             (list_by_status [RUNNING, WAITING_TOOL, RETRYING] limit (s_runs (w_store w)))))
     \<and> (\<forall>k x. world_row k w = Some x \<longrightarrow> (\<exists>y. world_row k w' = Some y
          \<and> (if x \<in> set (list_by_status [RUNNING, WAITING_TOOL, RETRYING] limit (s_runs (w_store w)))
                \<and> lease_expired now x \<and> \<not> is_running k w
             then ar_status y = QUEUED \<and> ar_worker y = None \<and> ar_lease_expire_time y = None
                \<and> ar_attempts y = (if 0 < ar_attempts x then ar_attempts x - 1 else ar_attempts x)
                \<and> (\<forall>t. (case ar_run_after x of None \<Rightarrow> True | Some a \<Rightarrow> a \<le> t) \<longrightarrow> claimable t y)
             else y = x)))"
proof -
  let ?ls = "list_by_status [RUNNING, WAITING_TOOL, RETRYING] limit (s_runs (w_store w))"
  let ?P = "\<lambda>x. lease_expired now x \<and> ar_run_id x \<notin> set (w_tasks w)"
  let ?new = "\<lambda>x. (reclaimed_run x)\<lparr>ar_update_time := mg_clk env (ar_run_id x) 4\<rparr>"
  note rows = list_by_status_rows [OF wf, of "[RUNNING, WAITING_TOOL, RETRYING]" limit]
  have d2: "\<forall>x \<in> set ?ls. world_row (ar_run_id x) w = Some x" using rows(2) by blast
  note sw = reclaim.sweep_exact [of w "set (w_tasks w)", OF conjI [OF wf refl] rows(1) d2 r [unfolded reclaim_expired_leases_def]]
  have row: "\<exists>y. world_row k w' = Some y \<and> (if x \<in> set ?ls \<and> lease_expired now x \<and> \<not> is_running k w
             then ar_status y = QUEUED \<and> ar_worker y = None \<and> ar_lease_expire_time y = None
                \<and> ar_attempts y = (if 0 < ar_attempts x then ar_attempts x - 1 else ar_attempts x)
                \<and> (\<forall>t. (case ar_run_after x of None \<Rightarrow> True | Some a \<Rightarrow> a \<le> t) \<longrightarrow> claimable t y)
             else y = x)" if x: "world_row k w = Some x" for k x
  proof -
    have "world_row k w' = Some (if x \<in> set ?ls \<and> ?P x then ?new x else x)"
      by (rule sweep_row [OF wf x rows(1) d2]) (use sw in blast)
    then show ?thesis using world_row_id [OF x] by (auto simp: is_running_def reclaimed_run_def claimable_def split: option.splits)
  qed
  have "n = int (length (filter ?P ?ls))" using sw by simp
  then show ?thesis using row by (simp add: is_running_def)
qed

theorem reclaim_exact_witness:
  "let r = (demo_run (Some ''w1'') RUNNING)\<lparr>ar_lease_expire_time := Some 5, ar_attempts := 1\<rparr>;
       env = calm \<lparr>mg_clk = \<lambda>_ i. int i, mg_others = \<lambda>_ _ w. w\<rparr>; (w', n) = reclaim_expired_leases env 5 100 (demo_world r)
   in n = 1 \<and> (\<exists>y. world_row ''R'' w' = Some y \<and> ar_status y = QUEUED \<and> ar_attempts y = 0)"
proof -
  let ?r = "(demo_run (Some ''w1'') RUNNING)\<lparr>ar_lease_expire_time := Some 5, ar_attempts := 1\<rparr>"
  let ?env = "\<lparr>mg_clk = \<lambda>_ i. int i, mg_others = \<lambda>_ _ w. w\<rparr>"
  obtain w' n where r: "reclaim_expired_leases (calm ?env) 5 100 (demo_world ?r) = (w', n)" by fastforce
  have l: "list_by_status [RUNNING, WAITING_TOOL, RETRYING] 100 (s_runs (w_store (demo_world ?r))) = [?r]"
    by (simp add: list_by_status_def demo_world_def demo_store_def)
  have x: "world_row ''R'' (demo_world ?r) = Some ?r" "\<not> is_running ''R'' (demo_world ?r)" "lease_expired 5 ?r"
    by (simp_all add: is_running_def demo_world_def lease_expired_def world_row_def demo_store_def runs_get_def)
  have "n = 1 \<and> (\<exists>y. world_row ''R'' w' = Some y \<and> ar_status y = QUEUED \<and> ar_attempts y = 0)"
    using reclaim_exact [OF _ r] x unfolding l by fastforce
  then show ?thesis using r by (simp add: Let_def)
qed

text \<open>
  C15: Recovery after a restart leaves live work alone. Of the unfinished runs, a sweep changes only
  those it listed, that are not leased to a worker beyond the present, and whose agent still
  exists; they are queued again without worker and lease, with the interrupted attempt given
  back. All other rows are unchanged.
\<close>

theorem recover_spares_live_runs:
  assumes wf: "world_wf w" and r: "recover_incomplete (calm env) reg limit w = (w', n)" and x: "world_row k w = Some x"
  shows "\<exists>y. world_row k w' = Some y
     \<and> (if x \<in> set (list_by_status [CREATED, QUEUED, RUNNING, WAITING_TOOL, RETRYING] limit (s_runs (w_store w)))
           \<and> \<not> leased_until_after (mg_clk env k 0) x \<and> (\<exists>agent. resolve (ar_route_tag x) (run_version x) reg = Inr agent)
        then ar_status y = QUEUED \<and> ar_worker y = None \<and> ar_lease_expire_time y = None
           \<and> ar_attempts y = (if ar_status x \<in> EXECUTING_RUN_STATUSES \<and> 0 < ar_attempts x then ar_attempts x - 1 else ar_attempts x)
        else y = x)"
proof -
  let ?ls = "list_by_status [CREATED, QUEUED, RUNNING, WAITING_TOOL, RETRYING] limit (s_runs (w_store w))"
  note rows = list_by_status_rows [OF wf, of "[CREATED, QUEUED, RUNNING, WAITING_TOOL, RETRYING]" limit]
  have d2: "\<forall>x \<in> set ?ls. world_row (ar_run_id x) w = Some x" using rows(2) by blast
  note sw = recovery.sweep_exact [OF wf rows(1) d2 r [unfolded recover_incomplete_def]]
  have y: "world_row k w' = Some (if x \<in> set ?ls \<and> recoverable env reg x then recovered_row env reg x else x)"
    by (rule sweep_row [OF wf x rows(1) d2]) (use sw in blast)
  have nc: "ar_status x \<noteq> CANCELED" if "x \<in> set ?ls" using rows(2) that by auto
  show ?thesis
  proof (cases "x \<in> set ?ls \<and> recoverable env reg x")
    case True
    then obtain agent where a: "resolve (ar_route_tag x) (run_version x) reg = Inr agent" by (auto simp: recoverable_def)
    let ?y = "(recovered_run env agent x)\<lparr>ar_update_time := mg_clk env (ar_run_id x) 3\<rparr>"
    have "world_row k w' = Some ?y" using y True a by (simp add: recovered_row_def)
    moreover have "ar_status ?y = QUEUED" "ar_worker ?y = None" "ar_lease_expire_time ?y = None"
      "ar_attempts ?y = (if ar_status x \<in> EXECUTING_RUN_STATUSES \<and> 0 < ar_attempts x then ar_attempts x - 1 else ar_attempts x)"
      by (simp_all add: recovered_run_def Let_def)
    moreover have "\<not> leased_until_after (mg_clk env k 0) x" using True world_row_id [OF x] by (simp add: recoverable_def)
    ultimately show ?thesis using True a by simp
  next
    case False
    then have "\<not> (x \<in> set ?ls \<and> \<not> leased_until_after (mg_clk env k 0) x \<and> (\<exists>agent. resolve (ar_route_tag x) (run_version x) reg = Inr agent))"
      using nc world_row_id [OF x] by (auto simp: recoverable_def)
    then show ?thesis using y False by auto
  qed
qed

theorem recover_spares_live_runs_witness:
  "let r = (demo_run (Some ''w1'') RUNNING)\<lparr>ar_lease_expire_time := Some 500\<rparr>;
       env = calm \<lparr>mg_clk = \<lambda>_ i. int i, mg_others = \<lambda>_ _ w. w\<rparr>; (w', n) = recover_incomplete env empty_registry 100 (demo_world r)
   in world_row ''R'' w' = Some r"
proof -
  let ?r = "(demo_run (Some ''w1'') RUNNING)\<lparr>ar_lease_expire_time := Some 500\<rparr>"
  let ?env = "\<lparr>mg_clk = \<lambda>_ i. int i, mg_others = \<lambda>_ _ w. w\<rparr>"
  obtain w' n where r: "recover_incomplete (calm ?env) empty_registry 100 (demo_world ?r) = (w', n)" by fastforce
  have x: "world_row ''R'' (demo_world ?r) = Some ?r" "leased_until_after (mg_clk ?env ''R'' 0) ?r"
    by (simp_all add: leased_until_after_def)
  have "world_row ''R'' w' = Some ?r" using recover_spares_live_runs [OF _ r x(1)] x(2) by simp
  then show ?thesis using r by (simp add: Let_def)
qed



text \<open>
  C12: A worker that renews in time cannot lose its run to another worker. However many claims
  other workers make between two renewals, as long as each renewal comes before the previous
  lease ends, every renewal succeeds, the execution is never cancelled, and at the end the run is
  still executing, owned by the worker, and leased for the full period from the last renewal.
\<close>

theorem renewal_keeps_ownership:
  assumes "world_wf w" and "world_row run_id w = Some x" and "leased_row worker_id (t0 + timedelta_seconds ls) x" and "timely ls t0 ticks"
  shows "\<exists>w' y. renew_queue_lease_until_done run_id worker_id ls (map (\<lambda>(now, cs). (now, apply_claims cs)) ticks) w = (w', False)
     \<and> world_row run_id w' = Some y \<and> leased_row worker_id (last (t0 # map fst ticks) + timedelta_seconds ls) y"
  using renewals_keep [OF assms] by blast

theorem renewal_keeps_ownership_witness:
  "let r = (demo_run (Some ''w1'') RUNNING)\<lparr>ar_lease_expire_time := Some 60000000\<rparr>;
       c = \<lparr>fc_time = 15000000, fc_worker = ''w2'', fc_lease_seconds = 60, fc_limit = 20, fc_exclude = {}\<rparr>
   in \<exists>w' y. renew_queue_lease_until_done ''R'' ''w1'' 60 [(20000000, apply_claims [c])] (demo_world r) = (w', False)
        \<and> world_row ''R'' w' = Some y \<and> leased_row ''w1'' 80000000 y"
proof -
  let ?r = "(demo_run (Some ''w1'') RUNNING)\<lparr>ar_lease_expire_time := Some 60000000\<rparr>"
  let ?c = "\<lparr>fc_time = 15000000, fc_worker = ''w2'', fc_lease_seconds = 60, fc_limit = 20, fc_exclude = {}\<rparr>"
  have t: "timedelta_seconds 60 = 60000000" using timedelta_seconds_int [of 60] by simp
  have l: "leased_row ''w1'' (0 + timedelta_seconds 60) ?r" by (simp add: leased_row_def t status_defs)
  have "timely 60 0 [(20000000, [?c])]" by (simp add: t)
  from renewal_keeps_ownership [OF _ _ l this, of "demo_world ?r" "''R''"] show ?thesis by (simp add: t)
qed

text \<open>
  C17: A retried run starts afresh and keeps its finished work. Retrying a failed or timed-out
  run whose side effects are known queues it again with no error, no dead-letter reason, no
  owner and its full attempt budget, ready to be claimed; its failed stages are reset, every
  other stage (the succeeded ones in particular) keeps its row, and no other run changes.
\<close>

theorem retry_starts_afresh:
  assumes x: "world_row run_id w = Some x" "ar_status x \<in> {FAILED, TIMEOUT, WAITING_CALLBACK}"
      "ar_error_type x \<noteq> Some SIDE_EFFECT_OUTCOME_UNKNOWN" "resolve (ar_route_tag x) (run_version x) reg = Inr agent"
    and r: "retry (calm env) reg run_id w = (w', res)"
  shows "\<exists>y. world_row run_id w' = Some y \<and> ar_status y = QUEUED \<and> ar_attempts y = 0 \<and> ar_error_type y = None
     \<and> ar_dead_letter_reason y = None \<and> (\<forall>t. mg_clk env run_id 1 \<le> t \<longrightarrow> claimable t y) \<and> is_running run_id w'
     \<and> (\<forall>k. k \<noteq> run_id \<longrightarrow> world_row k w' = world_row k w)
     \<and> (\<forall>key s. stages_get run_id key (s_stages (w_store w)) = Some s \<longrightarrow>
          (\<exists>s'. stages_get run_id key (s_stages (w_store w')) = Some s'
             \<and> (if st_status s = S_FAILED then st_status s' = S_PENDING \<and> st_attempts s' = 0 else s' = s)))"
proof -
  obtain w1 where w1: "retry (calm env) reg run_id w = (w1, Inr (retried_run (calm env) agent x))"
    and y: "world_row run_id w1 = Some ((retried_run (calm env) agent x)\<lparr>ar_update_time := mg_clk (calm env) run_id 3\<rparr>)"
    and o: "\<forall>k. k \<noteq> run_id \<longrightarrow> world_row k w1 = world_row k (mg_others (calm env) run_id 2 w)"
    and st: "s_stages (w_store w1) =
       snd (reset_failed_for_run (mg_clk (calm env) run_id 2) run_id (s_stages (w_store (mg_others (calm env) run_id 2 w))))"
    and run: "is_running run_id w1" by (rule retry_writes [OF x, of "calm env"])
  have w': "w' = w1" using r w1 by simp
  have stages: "\<exists>s'. stages_get run_id key (s_stages (w_store w1)) = Some s'
      \<and> (if st_status s = S_FAILED then st_status s' = S_PENDING \<and> st_attempts s' = 0 else s' = s)"
    if s: "stages_get run_id key (s_stages (w_store w)) = Some s" for key s
  proof -
    let ?f = "\<lambda>s. if st_run_id s = run_id \<and> st_status s = S_FAILED
       then s\<lparr>st_status := S_PENDING, st_attempts := 0, st_execution_id := None, st_error_type := None,
              st_error_message := None, st_finish_time := None, st_update_time := mg_clk env run_id 2\<rparr> else s"
    have "stages_get run_id key (map ?f (s_stages (w_store w))) = Some (?f s)"
      using s row_get_map [of "s_stages (w_store w)" stage_uk ?f "(run_id, key)"] by (simp add: stages_get_def stage_uk_def)
    then show ?thesis using stages_get_SomeD [OF s] st by (auto simp: reset_failed_for_run_def update_where_def stage_uk_def)
  qed
  have "claimable t ((retried_run (calm env) agent x)\<lparr>ar_update_time := mg_clk env run_id 3\<rparr>)" if "mg_clk env run_id 1 \<le> t" for t
    using that world_row_id [OF x(1)] by (simp add: retried_run_def claimable_def)
  then show ?thesis unfolding w' using y run o stages by (simp add: retried_run_def)
qed

theorem retry_starts_afresh_witness:
  "let reg = \<lparr>reg_agents = [], reg_routes = [(''t'', demo_agent ''a'' ''1'' [''t''])]\<rparr>;
       env = calm \<lparr>mg_clk = \<lambda>_ i. int i, mg_others = \<lambda>_ _ w. w\<rparr>; (w', res) = retry env reg ''R'' (demo_world (demo_run None FAILED))
   in \<exists>y. world_row ''R'' w' = Some y \<and> ar_status y = QUEUED \<and> claimable 1 y"
proof -
  let ?reg = "\<lparr>reg_agents = [], reg_routes = [(''t'', demo_agent ''a'' ''1'' [''t''])]\<rparr>"
  let ?env = "\<lparr>mg_clk = \<lambda>_ i. int i, mg_others = \<lambda>_ _ w. w\<rparr>" and ?x = "demo_run None FAILED"
  obtain w' res where r: "retry (calm ?env) ?reg ''R'' (demo_world ?x) = (w', res)" by fastforce
  have x: "world_row ''R'' (demo_world ?x) = Some ?x" "ar_status ?x \<in> {FAILED, TIMEOUT, WAITING_CALLBACK}"
    "ar_error_type ?x \<noteq> Some SIDE_EFFECT_OUTCOME_UNKNOWN" "resolve (ar_route_tag ?x) (run_version ?x) ?reg = Inr (demo_agent ''a'' ''1'' [''t''])"
    by (simp_all add: demo_run_def new_agent_run_def resolve_def given_def run_version_def demo_world_def demo_store_def world_row_def runs_get_def)
  from retry_starts_afresh [OF x r] r show ?thesis by (auto simp: Let_def)
qed

text \<open>
  A retry is not guarded by the state it was decided on. If, between reading the failed run and
  writing it, another worker has claimed it (a concurrent retry queued it, say) and is executing
  it under a valid lease, the write still goes through: the run is queued again without owner,
  so it can be claimed and executed a second time while the first execution is under way.
\<close>

theorem retry_is_unguarded:
  assumes "world_row run_id w = Some x" "ar_status x \<in> {FAILED, TIMEOUT, WAITING_CALLBACK}"
      "ar_error_type x \<noteq> Some SIDE_EFFECT_OUTCOME_UNKNOWN" "resolve (ar_route_tag x) (run_version x) reg = Inr agent"
    and "world_row run_id (mg_others env run_id 2 w) = Some z" and "leased_row other_worker expiry z"
  shows "\<exists>w' res y. retry env reg run_id w = (w', Inr res) \<and> world_row run_id w' = Some y
     \<and> ar_worker y = None \<and> (\<forall>t. mg_clk env run_id 1 \<le> t \<longrightarrow> claimable t y)"
proof -
  obtain w' where w': "retry env reg run_id w = (w', Inr (retried_run env agent x))"
      "world_row run_id w' = Some ((retried_run env agent x)\<lparr>ar_update_time := mg_clk env run_id 3\<rparr>)"
    by (rule retry_writes [OF assms(1-4)])
  moreover have "ar_run_id x = run_id" using world_row_id [OF assms(1)] .
  ultimately show ?thesis by (simp add: retried_run_def claimable_def)
qed

theorem retry_is_unguarded_witness:
  "let reg = \<lparr>reg_agents = [], reg_routes = [(''t'', demo_agent ''a'' ''1'' [''t''])]\<rparr>;
       busy = (demo_run (Some ''w2'') RUNNING)\<lparr>ar_lease_expire_time := Some 900\<rparr>;
       env = \<lparr>mg_clk = \<lambda>_ i. int i, mg_others = \<lambda>_ _ w. demo_world busy\<rparr>
   in \<exists>w' res y. retry env reg ''R'' (demo_world (demo_run None FAILED)) = (w', Inr res)
        \<and> world_row ''R'' w' = Some y \<and> ar_worker y = None \<and> claimable 5 y"
proof -
  let ?reg = "\<lparr>reg_agents = [], reg_routes = [(''t'', demo_agent ''a'' ''1'' [''t''])]\<rparr>"
  let ?busy = "(demo_run (Some ''w2'') RUNNING)\<lparr>ar_lease_expire_time := Some 900\<rparr>" and ?x = "demo_run None FAILED"
  let ?env = "\<lparr>mg_clk = \<lambda>_ i. int i, mg_others = \<lambda>_ _ w. demo_world ?busy\<rparr>"
  have x: "world_row ''R'' (demo_world ?x) = Some ?x" "ar_status ?x \<in> {FAILED, TIMEOUT, WAITING_CALLBACK}"
    "ar_error_type ?x \<noteq> Some SIDE_EFFECT_OUTCOME_UNKNOWN" "resolve (ar_route_tag ?x) (run_version ?x) ?reg = Inr (demo_agent ''a'' ''1'' [''t''])"
    by (simp_all add: demo_run_def new_agent_run_def resolve_def given_def run_version_def demo_world_def demo_store_def world_row_def runs_get_def)
  have z: "world_row ''R'' (mg_others ?env ''R'' 2 (demo_world ?x)) = Some ?busy" "leased_row ''w2'' 900 ?busy"
    by (simp_all add: leased_row_def status_defs)
  from retry_is_unguarded [OF x z] show ?thesis by (auto simp: Let_def)
qed

end
