(* ===== verification/Stage_Runner.thy ===== *)
theory Stage_Runner
  imports Dynamic Run_Executor "HOL-Library.List_Lexorder"
begin

text \<open>
  \<^verbatim>\<open>StageRunner\<close> (\<^verbatim>\<open>src/framework/runtime/stage_runner.py\<close>), the durable execution of one stage
  of a run, with the \<^verbatim>\<open>StageExecutionContext\<close> it hands to the stage
  (\<^verbatim>\<open>src/framework/tool/stage_context.py\<close>) and the entry points of \<^verbatim>\<open>AgentContext\<close>
  (\<^verbatim>\<open>src/framework/runtime/context.py\<close>): \<^verbatim>\<open>run_stage\<close>, the stage keys of child runs and
  their timeout.

  The operation of a stage is a parameter that may change the whole world: it saves
  checkpoints, calls tools, and other processes run while it is awaited.  The writes of other
  processes between the runner's own statements are \<open>sn_others\<close>.  SHA-256 over the compact
  JSON text is a parameter on JSON values, as are the lifecycle hooks.

  The central theorem: once a stage has returned a value, every later execution of the same
  stage returns that value without executing its operation, whatever the workers did to the
  stage table in between (short of deleting the stages of the run).
\<close>

section \<open>Python values and their JSON form\<close>

text \<open>A value that is not JSON serialisable is known by its type name only.\<close>

datatype pyval = Json json | Opaque string

text \<open>\<^verbatim>\<open>json.loads(json.dumps(value, sort_keys=True))\<close>: keys sorted at every level.\<close>

fun json_canonical :: "json \<Rightarrow> json" and json_canonical_items :: "dict \<Rightarrow> dict" where
  "json_canonical (JList xs) = JList (map json_canonical xs)"
| "json_canonical (JObj d) = JObj (sort_key (\<lambda>kv. map (of_char :: char \<Rightarrow> nat) (fst kv)) (json_canonical_items d))"
| "json_canonical j = j"
| "json_canonical_items [] = []"
| "json_canonical_items ((k, j) # d) = (k, json_canonical j) # json_canonical_items d"

definition json_value :: "string \<Rightarrow> pyval \<Rightarrow> py_exc + json" where
  "json_value label v = (case v of Json j \<Rightarrow> Inr (json_canonical j)
     | Opaque _ \<Rightarrow> Inl (TypeError (label @ '' must be JSON serializable'')))"

definition stable_hash :: "(json \<Rightarrow> string) \<Rightarrow> pyval \<Rightarrow> py_exc + string" where
  "stable_hash digest v = (case json_value ''stage input'' v of Inl e \<Rightarrow> Inl e | Inr j \<Rightarrow> Inr (digest (json_canonical j)))"

section \<open>Contexts\<close>

record agent_context =
  ac_run_id :: string
  ac_route_tag :: string
  ac_trace_id :: string
  ac_metadata :: dict
  ac_files :: "run_file list"
  ac_agent :: agent_spec
  ac_worker_id :: "string option"
  ac_cancellation_signal :: "nat option"
  ac_start_time :: "datetime option"

record stage_context =
  sx_run_id :: string
  sx_trace_id :: string
  sx_route_tag :: string
  sx_caller :: json
  sx_metadata :: dict
  sx_agent_name :: string
  sx_agent_version :: string
  sx_stage_name :: string
  sx_stage_index :: int
  sx_stage_input :: pyval
  sx_definition_version :: string
  sx_attempt :: int
  sx_max_attempts :: int
  sx_idempotency_key :: string
  sx_checkpoint :: "dict option"
  sx_start_time :: datetime
  sx_writer :: "(string \<times> string) option"

text \<open>
  \<open>sx_writer\<close> is the checkpoint writer, a closure over the stage key and the execution id.
  \<^verbatim>\<open>metadata.get("caller") or ""\<close> may be any truthy JSON value.
\<close>

definition from_agent_context ::
    "agent_context \<Rightarrow> datetime \<Rightarrow> string \<Rightarrow> int \<Rightarrow> pyval \<Rightarrow> string \<Rightarrow> int \<Rightarrow> int \<Rightarrow> string \<Rightarrow> dict option
     \<Rightarrow> (string \<times> string) option \<Rightarrow> stage_context" where
  "from_agent_context ctx now stage_name stage_index stage_input definition_version attempt max_attempts
     idempotency_key checkpoint writer =
     \<lparr>sx_run_id = ac_run_id ctx, sx_trace_id = ac_trace_id ctx, sx_route_tag = ac_route_tag ctx,
      sx_caller = (case map_of (ac_metadata ctx) ''caller'' of Some j \<Rightarrow> if json_truthy j then j else JStr [] | None \<Rightarrow> JStr []),
      sx_metadata = ac_metadata ctx, sx_agent_name = as_name (ac_agent ctx),
      sx_agent_version = as_version (ac_agent ctx), sx_stage_name = stage_name, sx_stage_index = stage_index,
      sx_stage_input = stage_input, sx_definition_version = definition_version, sx_attempt = attempt,
      sx_max_attempts = max_attempts, sx_idempotency_key = idempotency_key, sx_checkpoint = checkpoint,
      sx_start_time = now, sx_writer = writer\<rparr>"

section \<open>Runner state and parameters\<close>

record runner =
  rn_run :: agent_run
  rn_agent :: agent_spec
  rn_signal :: "nat option"
  rn_seen :: "string list"
  rn_next_index :: int

definition new_runner :: "agent_run \<Rightarrow> agent_spec \<Rightarrow> nat option \<Rightarrow> runner" where
  "new_runner run agent signal =
     \<lparr>rn_run = run, rn_agent = agent, rn_signal = signal, rn_seen = [], rn_next_index = 0\<rparr>"

type_synonym stage_hook = "stage_context \<Rightarrow> json option \<Rightarrow> py_exc option \<Rightarrow> world \<Rightarrow> world \<times> py_exc option"

record stage_env =
  sn_clk :: "nat \<Rightarrow> datetime"
  sn_stage_id :: string
  sn_execution_id :: string
  sn_digest :: "json \<Rightarrow> string"
  sn_others :: "nat \<Rightarrow> world \<Rightarrow> world"
  sn_hook_start :: "stage_hook option"
  sn_hook_end :: "stage_hook option"

type_synonym operation = "stage_context \<Rightarrow> world \<Rightarrow> world \<times> (py_exc + pyval)"

definition set_stages :: "stages \<Rightarrow> world \<Rightarrow> world" where
  "set_stages rows w = w\<lparr>w_store := (w_store w)\<lparr>s_stages := rows\<rparr>\<rparr>"

definition stages_of :: "world \<Rightarrow> stages" where
  "stages_of w = s_stages (w_store w)"

section \<open>The private methods\<close>

definition stage_key_char :: "char \<Rightarrow> bool" where
  "stage_key_char c = (let n = (of_char c :: nat) in (48 \<le> n \<and> n \<le> 57) \<or> (65 \<le> n \<and> n \<le> 90) \<or> (97 \<le> n \<and> n \<le> 122))"

definition valid_stage_key :: "string \<Rightarrow> bool" where
  "valid_stage_key key = (case key of [] \<Rightarrow> False
     | c # cs \<Rightarrow> stage_key_char c \<and> length cs \<le> 127 \<and> (\<forall>d \<in> set cs. stage_key_char d \<or> d \<in> set ''_.:-''))"

definition validate_key :: "string \<Rightarrow> py_exc option" where
  "validate_key key = (if valid_stage_key key then None
     else Some (ValueError (''stage_key must be 1-128 characters using letters, numbers, '' @ [CHR 0x27] @ ''.''
       @ [CHR 0x27] @ '', '' @ [CHR 0x27] @ ''_'' @ [CHR 0x27] @ '', '' @ [CHR 0x27] @ '':'' @ [CHR 0x27] @ '', or ''
       @ [CHR 0x27] @ ''-'' @ [CHR 0x27])))"

definition stage_cancelled :: "runner \<Rightarrow> world \<Rightarrow> bool" where
  "stage_cancelled rn w = ((case rn_signal rn of None \<Rightarrow> False | Some ev \<Rightarrow> ev \<in> w_set_events w)
     \<or> (case world_row (ar_run_id (rn_run rn)) w of None \<Rightarrow> False | Some run \<Rightarrow> ar_status run = CANCELED))"

definition run_canceled_error :: "runner \<Rightarrow> py_exc" where
  "run_canceled_error rn = RunCancelledError (''Run '' @ py_repr (ar_run_id (rn_run rn)) @ '' was canceled'')"

definition stage_log :: "stage_env \<Rightarrow> runner \<Rightarrow> nat \<Rightarrow> string \<Rightarrow> string \<Rightarrow> dict \<Rightarrow> world \<Rightarrow> world" where
  "stage_log env rn i event_type message data w =
     w\<lparr>w_store := (w_store w)\<lparr>s_logs := logs_add
       \<lparr>le_run_id = Some (ar_run_id (rn_run rn)), le_trace_id = ar_trace_id (rn_run rn),
        le_component = ''stage_runner'', le_event_type = event_type, le_level = ''INFO'', le_message = message,
        le_data = data, le_create_time = sn_clk env i\<rparr> (s_logs (w_store w))\<rparr>\<rparr>"

definition state_error :: "string \<Rightarrow> py_exc" where
  "state_error m = StageStateError (''Stage state validation failed: '' @ m)"

definition validate_state :: "runner \<Rightarrow> agent_stage \<Rightarrow> int \<Rightarrow> string \<Rightarrow> string \<Rightarrow> py_exc option" where
  "validate_state rn stage stage_index definition_version input_hash =
     (if st_schema_version stage \<noteq> ''1''
      then Some (state_error (''unsupported schema version '' @ py_repr (st_schema_version stage)))
      else if st_agent_name stage \<noteq> as_name (rn_agent rn) \<or> st_agent_version stage \<noteq> as_version (rn_agent rn)
      then Some (state_error ''agent identity changed'')
      else if st_stage_index stage \<noteq> stage_index
      then Some (state_error (py_repr (st_stage_key stage) @ '' moved from index '' @ show_int (st_stage_index stage)
        @ '' to '' @ show_int stage_index))
      else if st_definition_version stage \<noteq> definition_version
      then Some (state_error (py_repr (st_stage_key stage) @ '' definition changed''))
      else if st_input_hash stage \<noteq> input_hash
      then Some (state_error (py_repr (st_stage_key stage) @ '' input changed''))
      else None)"

definition set_current_step :: "stage_env \<Rightarrow> runner \<Rightarrow> string \<Rightarrow> world \<Rightarrow> world \<times> py_exc option" where
  "set_current_step env rn stage_key w =
     (case world_row (ar_run_id (rn_run rn)) w of
        None \<Rightarrow> (w, if stage_cancelled rn w then Some (run_canceled_error rn) else None)
      | Some run \<Rightarrow>
          if ar_status run = CANCELED then (w, Some (run_canceled_error rn))
          else (case update_owned (sn_clk env 3) (run\<lparr>ar_current_step := Some (''stage:'' @ stage_key)\<rparr>) {ar_status run}
                       (ar_worker (rn_run rn)) (sn_others env 2 w) of
                  (w1, True) \<Rightarrow> (w1, None)
                | (w1, False) \<Rightarrow> (w1, Some (RunCancelledError (''Run '' @ py_repr (ar_run_id (rn_run rn))
                     @ '' was canceled or is owned by another worker'')))))"

text \<open>A hook that raises an \<^verbatim>\<open>Exception\<close> is logged; \<^verbatim>\<open>asyncio.CancelledError\<close> passes.\<close>

definition run_hook :: "stage_env \<Rightarrow> runner \<Rightarrow> nat \<Rightarrow> string \<Rightarrow> stage_hook option \<Rightarrow> stage_context \<Rightarrow> json option
    \<Rightarrow> py_exc option \<Rightarrow> world \<Rightarrow> world \<times> py_exc option" where
  "run_hook env rn i hook callback ctx output error w =
     (case callback of None \<Rightarrow> (w, None)
      | Some f \<Rightarrow> (case f ctx output error w of
          (w1, None) \<Rightarrow> (w1, None)
        | (w1, Some CancelledError) \<Rightarrow> (w1, Some CancelledError)
        | (w1, Some e) \<Rightarrow> (stage_log env rn i ''lifecycle_hook_failed'' (''Lifecycle hook '' @ hook @ '' failed'')
             [(''hook'', JStr hook), (''error_type'', JStr (exc_name e))] w1, None)))"

text \<open>\<^verbatim>\<open>StageExecutionContext.save_checkpoint\<close> through the runner's writer.\<close>

definition save_stage_checkpoint ::
    "stage_env \<Rightarrow> runner \<Rightarrow> string \<Rightarrow> string \<Rightarrow> pyval \<Rightarrow> world \<Rightarrow> world \<times> py_exc option" where
  "save_stage_checkpoint env rn stage_key execution_id checkpoint w =
     (if stage_cancelled rn w then (w, Some (run_canceled_error rn))
      else case json_value ''stage checkpoint'' checkpoint of
        Inl e \<Rightarrow> (w, Some e)
      | Inr (JObj value) \<Rightarrow>
          (case save_checkpoint (sn_clk env 8) (ar_run_id (rn_run rn)) stage_key execution_id value (stages_of w) of
             (False, rows) \<Rightarrow> (set_stages rows w, Some (StaleStageExecutionError
               (''Stage '' @ py_repr stage_key @ '' checkpoint belongs to a superseded execution'')))
           | (True, rows) \<Rightarrow> (stage_log env rn 9 ''stage_checkpointed'' (''Stage '' @ stage_key @ '' checkpoint saved'')
               [(''stage_key'', JStr stage_key), (''checkpoint_keys'', JList (map (JStr \<circ> fst) value))]
               (set_stages rows w), None))
      | Inr _ \<Rightarrow> (w, Some (TypeError ''stage checkpoint must be a JSON object'')))"

definition context_save_checkpoint ::
    "stage_env \<Rightarrow> runner \<Rightarrow> pyval \<Rightarrow> stage_context \<Rightarrow> world \<Rightarrow> world \<times> stage_context \<times> py_exc option" where
  "context_save_checkpoint env rn checkpoint ctx w =
     (case sx_writer ctx of
        None \<Rightarrow> (w, ctx, Some (RuntimeError ''Durable checkpoints are unavailable in this context''))
      | Some (stage_key, execution_id) \<Rightarrow>
          (case save_stage_checkpoint env rn stage_key execution_id checkpoint w of
             (w1, Some e) \<Rightarrow> (w1, ctx, Some e)
           | (w1, None) \<Rightarrow> (w1, ctx\<lparr>sx_checkpoint := (case checkpoint of Json (JObj d) \<Rightarrow> Some d | _ \<Rightarrow> None)\<rparr>, None)))"

definition context_raise_if_cancelled :: "agent_context \<Rightarrow> stage_context \<Rightarrow> world \<Rightarrow> py_exc option" where
  "context_raise_if_cancelled actx ctx w =
     (case ac_cancellation_signal actx of None \<Rightarrow> None
      | Some ev \<Rightarrow> if ev \<in> w_set_events w
          then Some (RunCancelledError (''Run '' @ py_repr (sx_run_id ctx) @ '' was canceled'')) else None)"

section \<open>Running a stage\<close>

text \<open>The head of \<^verbatim>\<open>run_stage\<close>: what happens before an attempt is begun.\<close>

datatype opened = Restored json | Pending

definition outcome_unknown_error :: "string \<Rightarrow> agent_stage \<Rightarrow> py_exc" where
  "outcome_unknown_error stage_key stage = ExternalSideEffectOutcomeUnknownError
     (case st_error_message stage of Some m \<Rightarrow> if m = [] then ''Stage '' @ py_repr stage_key @ '' external outcome is unknown'' else m
      | None \<Rightarrow> ''Stage '' @ py_repr stage_key @ '' external outcome is unknown'')"

definition stage_row_for :: "stage_env \<Rightarrow> runner \<Rightarrow> string \<Rightarrow> int \<Rightarrow> string \<Rightarrow> int option \<Rightarrow> string option \<Rightarrow> string \<Rightarrow> agent_stage" where
  "stage_row_for env rn stage_key stage_index definition_version max_attempts idempotency_key input_hash =
     new_agent_stage (sn_stage_id env) (sn_clk env 0) (ar_run_id (rn_run rn)) (ar_trace_id (rn_run rn))
       (as_name (rn_agent rn)) (as_version (rn_agent rn)) stage_key stage_index definition_version
       (max 1 (case max_attempts of Some n \<Rightarrow> if n = 0 then rp_max_attempts (as_retry_policy (rn_agent rn)) else n
          | None \<Rightarrow> rp_max_attempts (as_retry_policy (rn_agent rn))))
       (case idempotency_key of Some k \<Rightarrow> if k = [] then ar_run_id (rn_run rn) @ '':'' @ stage_key else k
          | None \<Rightarrow> ar_run_id (rn_run rn) @ '':'' @ stage_key)
       input_hash"

definition open_stage ::
    "stage_env \<Rightarrow> runner \<Rightarrow> string \<Rightarrow> int \<Rightarrow> pyval \<Rightarrow> string \<Rightarrow> int option \<Rightarrow> string option \<Rightarrow> world
     \<Rightarrow> world \<times> (py_exc + opened)" where
  "open_stage env rn stage_key stage_index stage_input definition_version max_attempts idempotency_key w =
     (if stage_cancelled rn w then (w, Inl (run_canceled_error rn))
      else case stable_hash (sn_digest env) stage_input of Inl e \<Rightarrow> (w, Inl e)
      | Inr input_hash \<Rightarrow>
          let w0 = sn_others env 0 w in
          (case get_or_create (stage_row_for env rn stage_key stage_index definition_version max_attempts
                  idempotency_key input_hash) (stages_of w0) of
             Inl e \<Rightarrow> (w0, Inl e)
           | Inr (stage, rows) \<Rightarrow>
               let w1 = set_stages rows w0 in
               (case validate_state rn stage stage_index definition_version input_hash of
                  Some e \<Rightarrow> (w1, Inl e)
                | None \<Rightarrow>
                    if st_status stage = S_SUCCEEDED
                    then (stage_log env rn 1 ''stage_resumed'' (''Stage '' @ stage_key @ '' restored from durable state'')
                       [(''stage_key'', JStr stage_key), (''stage_index'', JNum (of_int stage_index)),
                        (''attempts'', JNum (of_int (st_attempts stage)))] w1, Inr (Restored (st_output stage)))
                    else if st_status stage = S_CANCELED
                    then (w1, Inl (RunCancelledError (''Stage '' @ py_repr stage_key @ '' was canceled'')))
                    else if st_status stage = S_OUTCOME_UNKNOWN then (w1, Inl (outcome_unknown_error stage_key stage))
                    else (w1, Inr Pending))))"

definition stage_data :: "string \<Rightarrow> int \<Rightarrow> int \<Rightarrow> dict" where
  "stage_data stage_key stage_index attempt =
     [(''stage_key'', JStr stage_key), (''stage_index'', JNum (of_int stage_index)), (''attempt'', JNum (of_int attempt))]"

text \<open>The \<^verbatim>\<open>try\<close> block: the operation, the cancellation check and the guarded commit.\<close>

definition commit_stage ::
    "stage_env \<Rightarrow> runner \<Rightarrow> string \<Rightarrow> json \<Rightarrow> world \<Rightarrow> world \<times> (py_exc + json)" where
  "commit_stage env rn stage_key output w =
     (let run_id = ar_run_id (rn_run rn) in
      case mark_succeeded (sn_clk env 5) run_id stage_key (sn_execution_id env) output (stages_of w) of
        (True, rows) \<Rightarrow> (set_stages rows w, Inr output)
      | (False, rows) \<Rightarrow>
          let w1 = sn_others env 4 (set_stages rows w) in
          (case stages_get run_id stage_key (stages_of w1) of
             Some persisted \<Rightarrow>
               if st_status persisted = S_OUTCOME_UNKNOWN then (w1, Inl (outcome_unknown_error stage_key persisted))
               else (w1, Inl (StaleStageExecutionError
                 (''Stage '' @ py_repr stage_key @ '' result belongs to a superseded execution'')))
           | None \<Rightarrow> (w1, Inl (StaleStageExecutionError
                 (''Stage '' @ py_repr stage_key @ '' result belongs to a superseded execution'')))))"

definition try_operation ::
    "stage_env \<Rightarrow> runner \<Rightarrow> string \<Rightarrow> operation \<Rightarrow> stage_context \<Rightarrow> world \<Rightarrow> world \<times> (py_exc + json)" where
  "try_operation env rn stage_key op ctx w =
     (case op ctx w of
        (w1, Inl e) \<Rightarrow> (w1, Inl e)
      | (w1, Inr v) \<Rightarrow>
          (case json_value ''stage output'' v of Inl e \<Rightarrow> (w1, Inl e)
           | Inr output \<Rightarrow>
               if stage_cancelled rn w1 then (w1, Inl (run_canceled_error rn))
               else commit_stage env rn stage_key output w1))"

text \<open>The \<^verbatim>\<open>except\<close> clauses, in their order, without the hook and the \<^verbatim>\<open>raise\<close> that end each.\<close>

definition mark_stage_error ::
    "stage_env \<Rightarrow> runner \<Rightarrow> string \<Rightarrow> int \<Rightarrow> int \<Rightarrow> py_exc \<Rightarrow> world \<Rightarrow> world" where
  "mark_stage_error env rn stage_key stage_index attempt e w =
     (let run_id = ar_run_id (rn_run rn); eid = sn_execution_id env; data = stage_data stage_key stage_index attempt in
      case e of
        RunCancelledError m \<Rightarrow> set_stages (snd (mark_canceled (sn_clk env 6) run_id stage_key eid (stages_of w))) w
      | CancelledError \<Rightarrow> stage_log env rn 7 ''stage_interrupted'' (''Stage '' @ stage_key @ '' execution was interrupted'') data w
      | StaleStageExecutionError m \<Rightarrow>
          stage_log env rn 7 ''stage_superseded'' (''Stage '' @ stage_key @ '' execution was superseded'') data w
      | ExternalSideEffectOutcomeUnknownError m \<Rightarrow>
          stage_log env rn 7 ''stage_outcome_unknown'' (''Stage '' @ stage_key @ '' external outcome is unknown'') data
            (set_stages (snd (mark_outcome_unknown (sn_clk env 6) run_id stage_key eid (exc_name e) (exc_str e) (stages_of w))) w)
      | SideEffectOutcomeUnknownError t c \<Rightarrow>
          stage_log env rn 7 ''stage_outcome_unknown'' (''Stage '' @ stage_key @ '' external outcome is unknown'') data
            (set_stages (snd (mark_outcome_unknown (sn_clk env 6) run_id stage_key eid (exc_name e) (exc_str e) (stages_of w))) w)
      | _ \<Rightarrow> stage_log env rn 7 ''stage_failed'' (''Stage '' @ stage_key @ '' failed'')
            (data @ [(''error_type'', JStr (exc_name e)), (''error_message'', JStr (exc_str e))])
            (set_stages (snd (mark_failed (sn_clk env 6) run_id stage_key eid (exc_name e) (exc_str e) (stages_of w))) w))"

definition execute_stage ::
    "stage_env \<Rightarrow> runner \<Rightarrow> string \<Rightarrow> int \<Rightarrow> int \<Rightarrow> operation \<Rightarrow> stage_context \<Rightarrow> world \<Rightarrow> world \<times> (py_exc + json)" where
  "execute_stage env rn stage_key stage_index attempt op ctx w =
     (case try_operation env rn stage_key op ctx w of
        (w1, Inl e) \<Rightarrow>
          (case run_hook env rn 10 ''on_stage_end'' (sn_hook_end env) ctx None (Some e)
                  (mark_stage_error env rn stage_key stage_index attempt e w1) of
             (w2, Some e') \<Rightarrow> (w2, Inl e') | (w2, None) \<Rightarrow> (w2, Inl e))
      | (w1, Inr output) \<Rightarrow>
          (case run_hook env rn 10 ''on_stage_end'' (sn_hook_end env) ctx (Some output) None
                  (stage_log env rn 7 ''stage_succeeded'' (''Stage '' @ stage_key @ '' succeeded'')
                    (stage_data stage_key stage_index attempt @ [(''output_type'', JStr (json_type_name output))]) w1) of
             (w2, Some e') \<Rightarrow> (w2, Inl e') | (w2, None) \<Rightarrow> (w2, Inr output)))"

definition attempt_stage ::
    "stage_env \<Rightarrow> runner \<Rightarrow> agent_context \<Rightarrow> string \<Rightarrow> int \<Rightarrow> pyval \<Rightarrow> operation \<Rightarrow> string \<Rightarrow> world
     \<Rightarrow> world \<times> (py_exc + json)" where
  "attempt_stage env rn actx stage_key stage_index stage_input op definition_version w =
     (let w0 = sn_others env 1 w in
      case begin_attempt (sn_clk env 2) (ar_run_id (rn_run rn)) stage_key (ar_attempts (rn_run rn))
             (sn_execution_id env) (stages_of w0) of
        (None, rows) \<Rightarrow> (set_stages rows w0, Inl (StageAttemptsExhaustedError
          (''Stage '' @ py_repr stage_key @ '' exhausted its configured attempts'')))
      | (Some active, rows) \<Rightarrow>
          (case set_current_step env rn stage_key (set_stages rows w0) of
             (w1, Some e) \<Rightarrow> (w1, Inl e)
           | (w1, None) \<Rightarrow>
               let ctx = from_agent_context actx (sn_clk env 4) stage_key stage_index stage_input definition_version
                     (st_attempts active) (st_max_attempts active) (st_idempotency_key active) (st_checkpoint active)
                     (Some (stage_key, sn_execution_id env));
                   w2 = stage_log env rn 4 ''stage_started'' (''Stage '' @ stage_key @ '' started'')
                     (stage_data stage_key stage_index (st_attempts active)
                       @ [(''idempotency_key'', JStr (st_idempotency_key active))]) w1
               in (case run_hook env rn 4 ''on_stage_start'' (sn_hook_start env) ctx None None w2 of
                     (w3, Some e) \<Rightarrow> (w3, Inl e)
                   | (w3, None) \<Rightarrow> execute_stage env rn stage_key stage_index (st_attempts active) op ctx w3)))"

definition run_stage ::
    "stage_env \<Rightarrow> agent_context \<Rightarrow> string \<Rightarrow> pyval \<Rightarrow> operation \<Rightarrow> string \<Rightarrow> int option \<Rightarrow> string option \<Rightarrow> runner \<Rightarrow> world
     \<Rightarrow> runner \<times> world \<times> (py_exc + json)" where
  "run_stage env actx stage_key stage_input op definition_version max_attempts idempotency_key rn w =
     (case validate_key stage_key of Some e \<Rightarrow> (rn, w, Inl e)
      | None \<Rightarrow>
          if stage_key \<in> set (rn_seen rn)
          then (rn, w, Inl (state_error (''duplicate stage key '' @ py_repr stage_key)))
          else
            let stage_index = rn_next_index rn;
                rn' = rn\<lparr>rn_seen := stage_key # rn_seen rn, rn_next_index := stage_index + 1\<rparr>
            in (rn', case open_stage env rn' stage_key stage_index stage_input definition_version max_attempts
                            idempotency_key w of
                  (w1, Inl e) \<Rightarrow> (w1, Inl e)
                | (w1, Inr (Restored output)) \<Rightarrow> (w1, Inr output)
                | (w1, Inr Pending) \<Rightarrow>
                    attempt_stage env rn' actx stage_key stage_index stage_input op definition_version w1))"

section \<open>How the stage table evolves\<close>

text \<open>
  \<open>evolves\<close>: some sequence of repository calls, by whichever worker, that does not delete
  the stages of the run. A parameter is \<open>orderly\<close> when all it does to the stage table is that.
\<close>

definition evolves :: "string \<Rightarrow> stages \<Rightarrow> stages \<Rightarrow> bool" where
  "evolves r t t' \<longleftrightarrow> (\<exists>ops. t' = apply_ops ops t \<and> (\<forall>op \<in> set ops. \<not> deletes r op))"

definition orderly :: "string \<Rightarrow> (world \<Rightarrow> world) \<Rightarrow> bool" where
  "orderly r f \<longleftrightarrow> (\<forall>w. evolves r (stages_of w) (stages_of (f w)))"

definition orderly_hook :: "string \<Rightarrow> stage_hook option \<Rightarrow> bool" where
  "orderly_hook r h \<longleftrightarrow> (\<forall>f ctx o' e. h = Some f \<longrightarrow> orderly r (\<lambda>w. fst (f ctx o' e w)))"

definition orderly_env :: "string \<Rightarrow> stage_env \<Rightarrow> bool" where
  "orderly_env r env \<longleftrightarrow> (\<forall>i. orderly r (sn_others env i)) \<and> orderly_hook r (sn_hook_start env)
     \<and> orderly_hook r (sn_hook_end env)"

definition orderly_operation :: "string \<Rightarrow> operation \<Rightarrow> bool" where
  "orderly_operation r op \<longleftrightarrow> (\<forall>ctx. orderly r (\<lambda>w. fst (op ctx w)))"

definition stage_identity :: "agent_stage \<Rightarrow> string \<times> string \<times> string \<times> int \<times> string \<times> string" where
  "stage_identity s = (st_schema_version s, st_agent_name s, st_agent_version s, st_stage_index s,
     st_definition_version s, st_input_hash s)"

lemma evolves_refl [simp]: "evolves r t t"
  unfolding evolves_def by (rule exI [of _ "[]"]) (simp add: apply_ops_def)

lemma evolves_trans [trans]: "evolves r t t' \<Longrightarrow> evolves r t' t'' \<Longrightarrow> evolves r t t''"
  unfolding evolves_def apply_ops_def
proof (elim exE conjE)
  fix ops ops'
  assume "t' = fold apply_op ops t" "t'' = fold apply_op ops' t'"
    and "\<forall>op \<in> set ops. \<not> deletes r op" "\<forall>op \<in> set ops'. \<not> deletes r op"
  then show "\<exists>ops. t'' = fold apply_op ops t \<and> (\<forall>op \<in> set ops. \<not> deletes r op)"
    by (intro exI [of _ "ops @ ops'"]) auto
qed

lemma evolves_op: "\<not> deletes r op \<Longrightarrow> evolves r t (apply_op op t)"
  unfolding evolves_def by (rule exI [of _ "[op]"]) (simp add: apply_ops_def)

lemma evolves_begin: "evolves r t (snd (begin_attempt now r' k a e t))"
  using evolves_op [of r "Op_Begin now r' k a e" t] by simp

lemma evolves_write: "evolves r t (snd (apply_write now (r', k) e w t))"
  using evolves_op [of r "Op_Write now r' k e w" t] by simp

lemmas evolves_marks = evolves_write [where w = "Succeeded v" for v] evolves_write [where w = Canceled]
  evolves_write [where w = "Failed t m" for t m] evolves_write [where w = "Outcome_Unknown t m" for t m]
  evolves_write [where w = "Checkpoint c" for c]

lemma op_row_identity: "in_place op \<Longrightarrow> stage_identity (op_row op s) = stage_identity s"
proof (cases op)
  case (Op_Write now r k e w)
  then show ?thesis by (cases w) (simp_all add: op_row_def stage_op_defs stage_identity_def)
qed (simp_all add: op_row_def stage_op_defs stage_identity_def)

lemma evolves_identity:
  assumes "evolves r t t'" and "stages_get r k t = Some s"
  shows "\<exists>s'. stages_get r k t' = Some s' \<and> stage_identity s' = stage_identity s"
proof -
  from assms(1) obtain ops where ops: "t' = apply_ops ops t" "\<forall>op \<in> set ops. \<not> deletes r op"
    unfolding evolves_def by blast
  show ?thesis unfolding ops(1)
    by (rule row_persists [OF _ ops(2) assms(2)]) (simp_all add: op_row_identity)
qed

lemma evolves_final:
  assumes "evolves r t t'" and "stages_get r k t = Some s" and "st_status s = S_SUCCEEDED"
  shows "stages_get r k t' = Some s"
proof -
  from assms(1) obtain ops where ops: "t' = apply_ops ops t" "\<forall>op \<in> set ops. \<not> deletes r op"
    unfolding evolves_def by blast
  have "\<exists>s'. stages_get r k (apply_ops ops t) = Some s' \<and> s' = s"
    by (rule row_persists [OF _ ops(2) assms(2)]) (use assms(3) in \<open>auto simp: op_row_final\<close>)
  then show ?thesis by (simp add: ops(1))
qed

lemma keys_distinct_op: "keys_distinct stage_uk t \<Longrightarrow> keys_distinct stage_uk (apply_op op t)"
proof (cases "in_place op")
  case True
  then show "keys_distinct stage_uk t \<Longrightarrow> ?thesis"
    by (simp add: apply_op_in_place keys_distinct_map op_row_keys)
next
  case False
  assume "keys_distinct stage_uk t"
  with False show ?thesis
    by (cases op)
      (auto simp: get_or_create_def keys_distinct_def stages_get_def row_get_None_iff stage_uk_def
        delete_for_run_def distinct_map_filter split: option.splits)
qed

lemma evolves_distinct: "evolves r t t' \<Longrightarrow> keys_distinct stage_uk t \<Longrightarrow> keys_distinct stage_uk t'"
proof -
  have "keys_distinct stage_uk t \<Longrightarrow> keys_distinct stage_uk (apply_ops ops t)" for ops
    unfolding apply_ops_def by (induction ops arbitrary: t) (simp_all add: keys_distinct_op)
  then show "evolves r t t' \<Longrightarrow> keys_distinct stage_uk t \<Longrightarrow> keys_distinct stage_uk t'"
    unfolding evolves_def by blast
qed

section \<open>What the steps of the runner do to the stage table\<close>

lemma stages_of_set [simp]: "stages_of (set_stages rows w) = rows"
  by (simp add: stages_of_def set_stages_def)

lemma stages_of_log [simp]: "stages_of (stage_log env rn i et m d w) = stages_of w"
  by (simp add: stages_of_def stage_log_def)

lemma stages_of_update_owned [simp]: "stages_of (fst (update_owned now run ss wk w)) = stages_of w"
  by (simp add: update_owned_def stages_of_def split: prod.splits)

lemma orderlyD: "orderly r f \<Longrightarrow> evolves r (stages_of w) (stages_of (f w))"
  by (simp add: orderly_def)

lemma orderly_envD:
  assumes "orderly_env r env"
  shows "evolves r (stages_of w) (stages_of (sn_others env i w))"
    "orderly_hook r (sn_hook_start env)" "orderly_hook r (sn_hook_end env)"
  using assms by (auto simp: orderly_env_def orderly_def)

lemma run_hook_evolves:
  assumes "orderly_hook r h"
  shows "evolves r (stages_of w) (stages_of (fst (run_hook env rn i nm h ctx out e w)))"
proof (cases h)
  case None
  then show ?thesis by (simp add: run_hook_def)
next
  case (Some f)
  have "stages_of (fst (run_hook env rn i nm h ctx out e w)) = stages_of (fst (f ctx out e w))"
    by (simp add: run_hook_def Some split: prod.splits option.splits py_exc.splits)
  with assms Some show ?thesis by (simp add: orderly_hook_def orderly_def)
qed

lemma set_current_step_evolves:
  assumes "orderly_env r env"
  shows "evolves r (stages_of w) (stages_of (fst (set_current_step env rn key w)))"
proof (cases "world_row (ar_run_id (rn_run rn)) w")
  case None
  then show ?thesis by (simp add: set_current_step_def)
next
  case (Some run)
  show ?thesis
  proof (cases "ar_status run = CANCELED")
    case True
    with Some show ?thesis by (simp add: set_current_step_def)
  next
    case False
    obtain w1 b where up: "update_owned (sn_clk env 3) (run\<lparr>ar_current_step := Some (''stage:'' @ key)\<rparr>) {ar_status run}
        (ar_worker (rn_run rn)) (sn_others env 2 w) = (w1, b)" by fastforce
    then have "stages_of w1 = stages_of (sn_others env 2 w)" using stages_of_update_owned by (metis fst_conv)
    moreover have "fst (set_current_step env rn key w) = w1"
      using Some False up by (cases b) (simp_all add: set_current_step_def)
    ultimately show ?thesis using orderly_envD(1) [OF assms] by simp
  qed
qed

lemma commit_stage_durable:
  assumes "commit_stage env rn key out w = (w1, Inr v)" and "keys_distinct stage_uk (stages_of w)"
  shows "v = out \<and> (\<exists>s. stages_get (ar_run_id (rn_run rn)) key (stages_of w1) = Some s
     \<and> st_status s = S_SUCCEEDED \<and> st_output s = v) \<and> evolves r (stages_of w) (stages_of w1)"
proof -
  let ?r = "ar_run_id (rn_run rn)"
  obtain ok rows where up: "mark_succeeded (sn_clk env 5) ?r key (sn_execution_id env) out (stages_of w) = (ok, rows)"
    by fastforce
  from assms(1) up have ok: "ok" and w1: "w1 = set_stages rows w" "v = out"
    by (cases ok; auto simp: commit_stage_def Let_def split: option.splits if_splits)+
  from up ok have hit: "fst (apply_write (sn_clk env 5) (?r, key) (sn_execution_id env) (Succeeded out) (stages_of w))"
    by simp
  then obtain s where s: "stages_get ?r key (stages_of w) = Some s"
      "active_row ?r key (sn_execution_id env) (write_statuses (Succeeded out)) (write_checked (Succeeded out)) s"
    unfolding apply_write_active update_active_fst [OF assms(2)] by blast
  have rows: "rows = snd (apply_write (sn_clk env 5) (?r, key) (sn_execution_id env) (Succeeded out) (stages_of w))"
    using up by simp
  have "stages_get ?r key rows = Some (write_fields (sn_clk env 5) (Succeeded out) (s\<lparr>st_update_time := sn_clk env 5\<rparr>))"
    unfolding rows apply_write_active update_active_snd stages_get_def
    using s by (subst row_get_map) (simp_all add: stages_get_def stage_uk_def)
  moreover have "evolves r (stages_of w) rows" unfolding rows by (rule evolves_write)
  ultimately show ?thesis using w1 by simp
qed

lemma execute_stage_durable:
  assumes run: "execute_stage env rn key idx att op ctx w = (w1, Inr v)"
    and "keys_distinct stage_uk (stages_of w)" and op: "orderly_operation r op" and env: "orderly_env r env"
    and r: "r = ar_run_id (rn_run rn)"
  shows "(\<exists>s. stages_get r key (stages_of w1) = Some s \<and> st_status s = S_SUCCEEDED \<and> st_output s = v)
     \<and> evolves r (stages_of w) (stages_of w1)"
proof -
  obtain wo res where o': "op ctx w = (wo, res)" by fastforce
  have evo: "evolves r (stages_of w) (stages_of wo)"
    using op o' by (metis fst_conv orderly_operation_def orderlyD)
  then have dist: "keys_distinct stage_uk (stages_of wo)" using evolves_distinct assms(2) by blast
  obtain wt tr where t: "try_operation env rn key op ctx w = (wt, tr)" by fastforce
  from run t obtain out where tr: "tr = Inr out" 
    by (cases tr) (auto simp: execute_stage_def split: prod.splits option.splits)
  from t tr o' obtain j where c: "commit_stage env rn key j wo = (wt, Inr out)"
    by (auto simp: try_operation_def split: sum.splits if_splits)
  from commit_stage_durable [OF c dist, of r] obtain s where s: "stages_get r key (stages_of wt) = Some s"
      "st_status s = S_SUCCEEDED" "st_output s = out" and evc: "evolves r (stages_of wo) (stages_of wt)"
    unfolding r by blast
  let ?wl = "stage_log env rn 7 ''stage_succeeded'' (''Stage '' @ key @ '' succeeded'')
      (stage_data key idx att @ [(''output_type'', JStr (json_type_name out))]) wt"
  obtain wh he where h: "run_hook env rn 10 ''on_stage_end'' (sn_hook_end env) ctx (Some out) None ?wl = (wh, he)"
    by fastforce
  with run t tr have w1: "w1 = wh" "v = out" by (auto simp: execute_stage_def split: option.splits)
  have "evolves r (stages_of ?wl) (stages_of wh)"
    using run_hook_evolves [OF orderly_envD(3) [OF env]] h by (metis fst_conv)
  then have evh: "evolves r (stages_of wt) (stages_of wh)" by simp
  with evo evc show ?thesis using evolves_final [OF evh s(1,2)] s w1 by (auto intro: evolves_trans)
qed

lemma attempt_stage_durable:
  assumes run: "attempt_stage env rn actx key idx inp op dv w = (w1, Inr v)"
    and dist: "keys_distinct stage_uk (stages_of w)" and op: "orderly_operation r op" and env: "orderly_env r env"
    and r: "r = ar_run_id (rn_run rn)"
  shows "(\<exists>s. stages_get r key (stages_of w1) = Some s \<and> st_status s = S_SUCCEEDED \<and> st_output s = v)
     \<and> evolves r (stages_of w) (stages_of w1)"
proof -
  let ?w0 = "sn_others env 1 w"
  obtain a rows where b: "begin_attempt (sn_clk env 2) (ar_run_id (rn_run rn)) key (ar_attempts (rn_run rn))
      (sn_execution_id env) (stages_of ?w0) = (a, rows)" by fastforce
  with run obtain active where a: "a = Some active" by (cases a) (auto simp: attempt_stage_def)
  obtain ws e where st: "set_current_step env rn key (set_stages rows ?w0) = (ws, e)" by fastforce
  with run b a have e: "e = None" by (cases e) (auto simp: attempt_stage_def Let_def)
  define ctx where "ctx = from_agent_context actx (sn_clk env 4) key idx inp dv
      (st_attempts active) (st_max_attempts active) (st_idempotency_key active) (st_checkpoint active)
      (Some (key, sn_execution_id env))"
  define wl where "wl = stage_log env rn 4 ''stage_started'' (''Stage '' @ key @ '' started'')
      (stage_data key idx (st_attempts active) @ [(''idempotency_key'', JStr (st_idempotency_key active))]) ws"
  obtain wh he where h: "run_hook env rn 4 ''on_stage_start'' (sn_hook_start env) ctx None None wl = (wh, he)" by fastforce
  with run b a st e have he: "he = None"
    by (cases he) (auto simp: attempt_stage_def Let_def ctx_def wl_def)
  with run b a st e h have ex: "execute_stage env rn key idx (st_attempts active) op ctx wh = (w1, Inr v)"
    by (simp add: attempt_stage_def Let_def ctx_def wl_def)
  have "evolves r (stages_of w) (stages_of ?w0)" by (rule orderly_envD(1) [OF env])
  also have "evolves r (stages_of ?w0) rows" using evolves_begin b by (metis snd_conv)
  also have "evolves r rows (stages_of ws)"
    using set_current_step_evolves [OF env, of "set_stages rows ?w0" rn key] st by simp
  also have "evolves r (stages_of ws) (stages_of wh)"
    using run_hook_evolves [OF orderly_envD(2) [OF env], of wl env rn 4] h unfolding wl_def
    by (metis fst_conv stages_of_log)
  finally have ev: "evolves r (stages_of w) (stages_of wh)" .
  show ?thesis
    using execute_stage_durable [OF ex evolves_distinct [OF ev dist] op env r] evolves_trans [OF ev] by blast
qed

section \<open>Opening a stage\<close>

lemma validate_state_None:
  "validate_state rn s idx dv h = None \<longleftrightarrow>
     stage_identity s = (''1'', as_name (rn_agent rn), as_version (rn_agent rn), idx, dv, h)"
  by (auto simp: validate_state_def stage_identity_def)

lemma open_stage_row:
  assumes op: "open_stage env rn key idx inp dv ma ik w = (w1, Inr res)" and env: "orderly_env r env"
    and r: "r = ar_run_id (rn_run rn)"
  shows "\<exists>h s. stable_hash (sn_digest env) inp = Inr h \<and> stages_get r key (stages_of w1) = Some s
     \<and> stage_identity s = (''1'', as_name (rn_agent rn), as_version (rn_agent rn), idx, dv, h)
     \<and> evolves r (stages_of w) (stages_of w1)
     \<and> (\<forall>v. res = Restored v \<longrightarrow> st_status s = S_SUCCEEDED \<and> st_output s = v)"
proof -
  from op obtain h where h: "stable_hash (sn_digest env) inp = Inr h"
    by (auto simp: open_stage_def split: if_splits sum.splits)
  define w0 where "w0 = sn_others env 0 w"
  define new where "new = stage_row_for env rn key idx dv ma ik h"
  have new: "st_run_id new = r" "st_stage_key new = key"
    by (simp_all add: new_def stage_row_for_def new_agent_stage_def r)
  from op h obtain s rows where g: "get_or_create new (stages_of w0) = Inr (s, rows)"
    by (auto simp: open_stage_def Let_def w0_def [symmetric] new_def [symmetric] split: if_splits sum.splits prod.splits)
  from op h g have v: "validate_state rn s idx dv h = None"
    by (auto simp: open_stage_def Let_def w0_def [symmetric] new_def [symmetric] split: if_splits option.splits)
  from op h g v have w1: "stages_of w1 = rows"
    and res: "\<forall>v. res = Restored v \<longrightarrow> st_status s = S_SUCCEEDED \<and> st_output s = v"
    by (auto simp: open_stage_def Let_def w0_def [symmetric] new_def [symmetric] split: if_splits)
  have "apply_op (Op_Create new) (stages_of w0) = rows" using g by simp
  then have "evolves r (stages_of w0) rows" using evolves_op [of r "Op_Create new"] by fastforce
  then have ev: "evolves r (stages_of w) rows"
    using orderly_envD(1) [OF env, of w 0] evolves_trans unfolding w0_def by blast
  have "stages_get r key rows = Some s"
    using g new by (auto simp: get_or_create_def stages_get_def row_get_append stage_uk_def split: option.splits if_splits)
  with h v w1 res ev show ?thesis by (auto simp: validate_state_None)
qed

text \<open>A stage whose row has succeeded with the expected identity is restored.\<close>

lemma open_stage_restores:
  assumes row: "stages_get r key (stages_of (sn_others env 0 w)) = Some s" and "st_status s = S_SUCCEEDED"
    and h: "stable_hash (sn_digest env) inp = Inr h"
    and id: "stage_identity s = (''1'', as_name (rn_agent rn), as_version (rn_agent rn), idx, dv, h)"
    and r: "r = ar_run_id (rn_run rn)" and live: "\<not> stage_cancelled rn w"
  shows "\<exists>w1. open_stage env rn key idx inp dv ma ik w = (w1, Inr (Restored (st_output s)))
     \<and> stages_of w1 = stages_of (sn_others env 0 w)"
proof -
  define new where "new = stage_row_for env rn key idx dv ma ik h"
  have "st_run_id new = r" "st_stage_key new = key"
    by (simp_all add: new_def stage_row_for_def new_agent_stage_def r)
  with row have g: "get_or_create new (stages_of (sn_others env 0 w)) = Inr (s, stages_of (sn_others env 0 w))"
    by (simp add: get_or_create_def)
  have v: "validate_state rn s idx dv h = None" using id by (simp add: validate_state_None)
  show ?thesis using g v live h assms(2)
    by (auto simp: open_stage_def Let_def new_def [symmetric])
qed

lemma stage_cancelled_seen [simp]: "stage_cancelled (rn\<lparr>rn_seen := x, rn_next_index := i\<rparr>) w = stage_cancelled rn w"
  by (simp add: stage_cancelled_def)

text \<open>What a stage that returned has left in the table.\<close>

lemma run_stage_durable:
  assumes run: "run_stage env actx key inp op dv ma ik rn w = (rn1, w1, Inr v)"
    and dist: "keys_distinct stage_uk (stages_of w)" and op: "orderly_operation r op" and env: "orderly_env r env"
    and r: "r = ar_run_id (rn_run rn)"
  shows "\<exists>h s. stable_hash (sn_digest env) inp = Inr h \<and> stages_get r key (stages_of w1) = Some s
     \<and> stage_identity s = (''1'', as_name (rn_agent rn), as_version (rn_agent rn), rn_next_index rn, dv, h)
     \<and> st_status s = S_SUCCEEDED \<and> st_output s = v \<and> valid_stage_key key"
proof -
  define rn' where "rn' = rn\<lparr>rn_seen := key # rn_seen rn, rn_next_index := rn_next_index rn + 1\<rparr>"
  from run have key: "valid_stage_key key" by (auto simp: run_stage_def validate_key_def split: if_splits)
  obtain wo res where o': "open_stage env rn' key (rn_next_index rn) inp dv ma ik w = (wo, res)" by fastforce
  from run o' obtain op' where res: "res = Inr op'"
    by (cases res) (auto simp: run_stage_def Let_def rn'_def split: option.splits if_splits)
  have r': "r = ar_run_id (rn_run rn')" by (simp add: rn'_def r)
  from open_stage_row [OF o' [unfolded res] env r'] obtain h s where
    h: "stable_hash (sn_digest env) inp = Inr h" and s: "stages_get r key (stages_of wo) = Some s"
      "stage_identity s = (''1'', as_name (rn_agent rn), as_version (rn_agent rn), rn_next_index rn, dv, h)"
    and ev: "evolves r (stages_of w) (stages_of wo)"
    and rest: "\<forall>v. op' = Restored v \<longrightarrow> st_status s = S_SUCCEEDED \<and> st_output s = v"
    by (auto simp: rn'_def)
  show ?thesis
  proof (cases op')
    case (Restored out)
    with run o' res have "w1 = wo" "v = out"
      by (auto simp: run_stage_def Let_def rn'_def [symmetric] split: option.splits if_splits)
    with h s rest Restored key show ?thesis by auto
  next
    case Pending
    with run o' res have at: "attempt_stage env rn' actx key (rn_next_index rn) inp op dv wo = (w1, Inr v)"
      by (auto simp: run_stage_def Let_def rn'_def [symmetric] split: option.splits if_splits)
    from attempt_stage_durable [OF at evolves_distinct [OF ev dist] op env r'] obtain s' where
      s': "stages_get r key (stages_of w1) = Some s'" "st_status s' = S_SUCCEEDED" "st_output s' = v"
      and ev': "evolves r (stages_of wo) (stages_of w1)" by blast
    from evolves_identity [OF ev' s(1)] s'(1) have "stage_identity s' = stage_identity s" by auto
    with h s s' key show ?thesis by auto
  qed
qed

lemma stage_replayed:
  assumes "run_stage env actx key inp op dv ma ik rn w = (rn1, w1, Inr v)"
    and "keys_distinct stage_uk (stages_of w)" and "orderly_operation r op" and "orderly_env r env"
    and "r = ar_run_id (rn_run rn)"
    and "evolves r (stages_of w1) (stages_of w2)" and "orderly_env r env2" and "sn_digest env2 = sn_digest env"
    and "ar_run_id (rn_run rn2) = r" and "as_name (rn_agent rn2) = as_name (rn_agent rn)"
    and "as_version (rn_agent rn2) = as_version (rn_agent rn)" and "rn_next_index rn2 = rn_next_index rn"
    and "key \<notin> set (rn_seen rn2)" and "\<not> stage_cancelled rn2 w2"
  shows "\<exists>rn3 w3. run_stage env2 actx2 key inp op2 dv ma2 ik2 rn2 w2 = (rn3, w3, Inr v)
     \<and> stages_of w3 = stages_of (sn_others env2 0 w2)"
proof -
  from run_stage_durable [OF assms(1-5)] obtain h s where
    h: "stable_hash (sn_digest env2) inp = Inr h" and s: "stages_get r key (stages_of w1) = Some s"
      "st_status s = S_SUCCEEDED" "st_output s = v"
    and id: "stage_identity s = (''1'', as_name (rn_agent rn2), as_version (rn_agent rn2), rn_next_index rn2, dv, h)"
    and key: "valid_stage_key key" using assms(8,10-12) by auto
  define rn' where "rn' = rn2\<lparr>rn_seen := key # rn_seen rn2, rn_next_index := rn_next_index rn2 + 1\<rparr>"
  have "evolves r (stages_of w1) (stages_of (sn_others env2 0 w2))"
    using assms(6) orderly_envD(1) [OF assms(7)] evolves_trans by blast
  from evolves_final [OF this s(1,2)] have row: "stages_get r key (stages_of (sn_others env2 0 w2)) = Some s" .
  have "\<exists>w3. open_stage env2 rn' key (rn_next_index rn2) inp dv ma2 ik2 w2 = (w3, Inr (Restored (st_output s)))
     \<and> stages_of w3 = stages_of (sn_others env2 0 w2)"
    by (rule open_stage_restores [OF row s(2) h]) (use id assms(9,14) in \<open>simp_all add: rn'_def\<close>)
  then show ?thesis using key assms(13) s(3)
    by (auto simp: run_stage_def validate_key_def Let_def rn'_def [symmetric])
qed

section \<open>Properties\<close>

text \<open>
  C9: Durable stages are replayed, not repeated. When \<^verbatim>\<open>run_stage\<close> has returned a value,
  a later \<^verbatim>\<open>run_stage\<close> of the same stage (same run, agent identity, position, definition
  version and input, in this process or another) returns the same value and leaves the
  stage table alone, whatever operation it is given and whatever repository calls other
  workers made on the table in between and during both executions, as long as the stages
  of the run were not deleted and the run was not canceled.
\<close>

theorem stage_replay:
  assumes "run_stage env actx key inp op dv ma ik rn w = (rn1, w1, Inr v)"
    and "keys_distinct stage_uk (stages_of w)" and "orderly_operation r op" and "orderly_env r env"
    and "r = ar_run_id (rn_run rn)"
    and "evolves r (stages_of w1) (stages_of w2)" and "orderly_env r env2" and "sn_digest env2 = sn_digest env"
    and "ar_run_id (rn_run rn2) = r" and "as_name (rn_agent rn2) = as_name (rn_agent rn)"
    and "as_version (rn_agent rn2) = as_version (rn_agent rn)" and "rn_next_index rn2 = rn_next_index rn"
    and "key \<notin> set (rn_seen rn2)" and "\<not> stage_cancelled rn2 w2"
  shows "\<exists>rn3 w3. run_stage env2 actx2 key inp op2 dv ma2 ik2 rn2 w2 = (rn3, w3, Inr v)
     \<and> stages_of w3 = stages_of (sn_others env2 0 w2)"
  using assms by (rule stage_replayed)

definition demo_stage_env :: stage_env where
  "demo_stage_env = \<lparr>sn_clk = int, sn_stage_id = ''S1'', sn_execution_id = ''E1'', sn_digest = (\<lambda>_. ''hash''),
     sn_others = (\<lambda>_ w. w), sn_hook_start = None, sn_hook_end = None\<rparr>"

text \<open>
  An execution that has lost its stage cannot write it. If another execution holds
  the stage when the operation ends, then neither the result nor any error of the superseded
  execution changes the stage table, and the caller gets an exception.
\<close>

theorem superseded_execution_writes_nothing:
  assumes "op ctx w = (wo, res)" and "keys_distinct stage_uk (stages_of wo)"
    and "stages_get (ar_run_id (rn_run rn)) key (stages_of wo) = Some s"
    and "st_execution_id s \<noteq> Some (sn_execution_id env)"
    and "\<forall>w. stages_of (sn_others env 4 w) = stages_of w" and "sn_hook_end env = None"
  shows "stages_of (fst (execute_stage env rn key idx att op ctx w)) = stages_of wo
     \<and> (\<exists>e. snd (execute_stage env rn key idx att op ctx w) = Inl e)"
proof -
  let ?r = "ar_run_id (rn_run rn)" and ?e = "sn_execution_id env"
  have stale: "apply_write now (?r, key) ?e u (stages_of wo) = (False, stages_of wo)" for now u
    by (rule stage_fence.stale_write) (use assms(2-4) in auto)
  note marks = stale [of _ "Succeeded v" for v] stale [of _ Canceled] stale [of _ "Failed t m" for t m]
    stale [of _ "Outcome_Unknown t m" for t m]
  have commit: "stages_of (fst (commit_stage env rn key out wo)) = stages_of wo
      \<and> (\<exists>e. snd (commit_stage env rn key out wo) = Inl e)" for out
    using marks(1) [of "sn_clk env 5" out] assms(5)
    by (auto simp: commit_stage_def Let_def split: option.splits)
  have try_op: "stages_of (fst (try_operation env rn key op ctx w)) = stages_of wo
      \<and> (\<exists>e. snd (try_operation env rn key op ctx w) = Inl e)"
    using commit assms(1) by (auto simp: try_operation_def split: sum.splits)
  then obtain w1 e where t: "try_operation env rn key op ctx w = (w1, Inl e)" "stages_of w1 = stages_of wo"
    by (metis prod.collapse)
  have "stages_of (mark_stage_error env rn key idx att e w1) = stages_of wo"
    using marks(2-4) by (cases e) (simp_all add: mark_stage_error_def Let_def t(2))
  then show ?thesis using t assms(6) by (simp add: execute_stage_def run_hook_def)
qed

text \<open>
  C26: An interrupted stage resumes where it stopped. If the operation is interrupted
  (\<^verbatim>\<open>asyncio.CancelledError\<close>), the runner leaves the row running with its last checkpoint, and the
  next attempt, under a new execution id, gets that checkpoint without using up an attempt.
\<close>

theorem interrupted_stage_resumes:
  assumes "op ctx w = (wo, Inl CancelledError)" and "keys_distinct stage_uk (stages_of wo)"
    and "stages_get (ar_run_id (rn_run rn)) key (stages_of wo) = Some s" and "st_status s = S_RUNNING"
    and "sn_hook_end env = None"
    and "execute_stage env rn key idx att op ctx w = (w1, res)"
  shows "res = Inl CancelledError \<and>
     (\<exists>a rows. begin_attempt now (ar_run_id (rn_run rn)) key ra eid (stages_of w1) = (Some a, rows)
        \<and> st_checkpoint a = st_checkpoint s \<and> st_attempts a = st_attempts s \<and> st_execution_id a = Some eid)"
proof -
  let ?r = "ar_run_id (rn_run rn)"
  have w1: "stages_of w1 = stages_of wo" and res: "res = Inl CancelledError"
    using assms(1,5,6) by (auto simp: execute_stage_def try_operation_def run_hook_def mark_stage_error_def Let_def)
  have open_s: "attempt_open ?r key s"
    using assms(3,4) by (auto simp: attempt_open_def dest: stages_get_SomeD)
  have "find (attempt_open ?r key) (stages_of w1) = Some s"
  proof -
    have "s' = s" if "s' \<in> set (stages_of wo)" "attempt_open ?r key s'" for s'
      using that stages_get_mem [OF assms(2) that(1)] assms(3) by (auto simp: attempt_open_def stage_uk_def)
    moreover have "s \<in> set (stages_of wo)" using assms(3) by (auto dest: stages_get_SomeD)
    ultimately show ?thesis unfolding w1 using open_s
      by (metis find_None_iff find_SomeD option.exhaust)
  qed
  then show ?thesis using assms(4) res by (simp add: begin_attempt_def update_returning_def)
qed

section \<open>Witnesses\<close>

definition demo_actx :: agent_context where
  "demo_actx = \<lparr>ac_run_id = ''R'', ac_route_tag = ''t'', ac_trace_id = ''T'', ac_metadata = [], ac_files = [],
     ac_agent = demo_agent ''a'' ''1'' [''t''], ac_worker_id = Some ''w1'', ac_cancellation_signal = None,
     ac_start_time = None\<rparr>"

definition demo_runner :: runner where
  "demo_runner = new_runner (demo_run (Some ''w1'') RUNNING) (demo_agent ''a'' ''1'' [''t'']) None"

definition demo_stage_world :: world where
  "demo_stage_world = demo_world (demo_run (Some ''w1'') RUNNING)"

definition demo_operation :: "string \<Rightarrow> operation" where
  "demo_operation s ctx w = (w, Inr (Json (JStr s)))"

lemma orderly_demo [simp]:
  "orderly_env r demo_stage_env" "orderly_operation r (demo_operation s)"
  by (simp_all add: orderly_env_def demo_stage_env_def orderly_def orderly_hook_def orderly_operation_def demo_operation_def)

lemma demo_first_run:
  "snd (snd (run_stage demo_stage_env demo_actx ''fetch'' (Json JNull) (demo_operation ''first'') ''1'' None None
     demo_runner demo_stage_world)) = Inr (JStr ''first'')"
  by code_simp

theorem stage_replay_witness:
  "let (rn1, w1, r1) = run_stage demo_stage_env demo_actx ''fetch'' (Json JNull) (demo_operation ''first'') ''1'' None None
         demo_runner demo_stage_world
   in \<exists>rn3 w3. run_stage demo_stage_env demo_actx ''fetch'' (Json JNull) (demo_operation ''second'') ''1'' None None
         demo_runner w1 = (rn3, w3, Inr (JStr ''first''))"
proof -
  obtain rn1 w1 r1 where one: "run_stage demo_stage_env demo_actx ''fetch'' (Json JNull) (demo_operation ''first'') ''1''
      None None demo_runner demo_stage_world = (rn1, w1, r1)" by (metis prod_cases3)
  have w1: "fst (snd (run_stage demo_stage_env demo_actx ''fetch'' (Json JNull) (demo_operation ''first'') ''1''
      None None demo_runner demo_stage_world)) = w1" using one by simp
  have "\<not> stage_cancelled demo_runner (fst (snd (run_stage demo_stage_env demo_actx ''fetch'' (Json JNull)
      (demo_operation ''first'') ''1'' None None demo_runner demo_stage_world)))" by code_simp
  then have live: "\<not> stage_cancelled demo_runner w1" unfolding w1 .
  have r1: "r1 = Inr (JStr ''first'')" using demo_first_run one by simp
  have d: "keys_distinct stage_uk (stages_of demo_stage_world)" "''R'' = ar_run_id (rn_run demo_runner)"
    "''fetch'' \<notin> set (rn_seen demo_runner)"
    by (simp_all add: demo_stage_world_def demo_world_def demo_store_def stages_of_def keys_distinct_def demo_runner_def new_runner_def)
  have "\<exists>rn3 w3. run_stage demo_stage_env demo_actx ''fetch'' (Json JNull) (demo_operation ''second'') ''1'' None None
      demo_runner w1 = (rn3, w3, Inr (JStr ''first'')) \<and> stages_of w3 = stages_of (sn_others demo_stage_env 0 w1)"
    by (rule stage_replay [OF one [unfolded r1] d(1) orderly_demo(2) orderly_demo(1) d(2) evolves_refl orderly_demo(1)
        refl d(2) [symmetric] refl refl refl d(3) live])
  then show ?thesis unfolding one Let_def prod.case by blast
qed

theorem superseded_execution_writes_nothing_witness:
  "let row = (new_agent_stage ''S1'' 0 ''R'' ''T'' ''a'' ''1'' ''fetch'' 0 ''1'' 1 ''R:fetch'' ''hash'')
         \<lparr>st_status := S_RUNNING, st_attempts := 1, st_execution_id := Some ''E2''\<rparr>;
       w = set_stages [row] demo_stage_world
   in stages_of (fst (execute_stage demo_stage_env demo_runner ''fetch'' 0 1 (demo_operation ''late'')
        (from_agent_context demo_actx 0 ''fetch'' 0 (Json JNull) ''1'' 1 1 ''R:fetch'' None None) w)) = [row]"
proof -
  let ?row = "(new_agent_stage ''S1'' 0 ''R'' ''T'' ''a'' ''1'' ''fetch'' 0 ''1'' 1 ''R:fetch'' ''hash'')
         \<lparr>st_status := S_RUNNING, st_attempts := 1, st_execution_id := Some ''E2''\<rparr>"
  have "stages_get (ar_run_id (rn_run demo_runner)) ''fetch'' (stages_of (set_stages [?row] demo_stage_world)) = Some ?row"
    by (simp add: stages_get_def stage_uk_def new_agent_stage_def demo_runner_def new_runner_def)
  then show ?thesis
    using superseded_execution_writes_nothing [of "demo_operation ''late''"
        "from_agent_context demo_actx 0 ''fetch'' 0 (Json JNull) ''1'' 1 1 ''R:fetch'' None None"
        "set_stages [?row] demo_stage_world" "set_stages [?row] demo_stage_world" "Inr (Json (JStr ''late''))"
        demo_runner "''fetch''" ?row demo_stage_env 0 1]
    by (simp add: demo_operation_def demo_stage_env_def keys_distinct_def Let_def)
qed

theorem interrupted_stage_resumes_witness:
  "let row = (new_agent_stage ''S1'' 0 ''R'' ''T'' ''a'' ''1'' ''fetch'' 0 ''1'' 1 ''R:fetch'' ''hash'')
         \<lparr>st_status := S_RUNNING, st_attempts := 1, st_execution_id := Some ''E1'', st_checkpoint := Some [(''page'', JNum 2)]\<rparr>;
       w = set_stages [row] demo_stage_world
   in \<exists>a rows. begin_attempt 9 ''R'' ''fetch'' 2 ''E2'' (stages_of (fst (execute_stage demo_stage_env demo_runner ''fetch'' 0 1
        (\<lambda>ctx w. (w, Inl CancelledError)) (from_agent_context demo_actx 0 ''fetch'' 0 (Json JNull) ''1'' 1 1 ''R:fetch'' None None) w)))
        = (Some a, rows) \<and> st_checkpoint a = Some [(''page'', JNum 2)] \<and> st_attempts a = 1"
proof -
  let ?row = "(new_agent_stage ''S1'' 0 ''R'' ''T'' ''a'' ''1'' ''fetch'' 0 ''1'' 1 ''R:fetch'' ''hash'')
         \<lparr>st_status := S_RUNNING, st_attempts := 1, st_execution_id := Some ''E1'', st_checkpoint := Some [(''page'', JNum 2)]\<rparr>"
  let ?w = "set_stages [?row] demo_stage_world" and ?op = "\<lambda>ctx w. (w, Inl CancelledError) :: world \<times> (py_exc + pyval)"
  let ?ctx = "from_agent_context demo_actx 0 ''fetch'' 0 (Json JNull) ''1'' 1 1 ''R:fetch'' None None"
  have hook: "sn_hook_end demo_stage_env = None" by (simp add: demo_stage_env_def)
  have id: "ar_run_id (rn_run demo_runner) = ''R''" by (simp add: demo_runner_def new_runner_def)
  have get: "stages_get ''R'' ''fetch'' (stages_of ?w) = Some ?row"
    by (simp add: stages_get_def stage_uk_def new_agent_stage_def)
  obtain w1 res where e: "execute_stage demo_stage_env demo_runner ''fetch'' 0 1 ?op ?ctx ?w = (w1, res)" by fastforce
  have "\<exists>a rows. begin_attempt 9 ''R'' ''fetch'' 2 ''E2'' (stages_of w1) = (Some a, rows)
      \<and> st_checkpoint a = Some [(''page'', JNum 2)] \<and> st_attempts a = 1"
    using interrupted_stage_resumes [of ?op ?ctx ?w ?w demo_runner "''fetch''" ?row demo_stage_env 0 1 w1 res 9 2 "''E2''"]
      get e id hook by (simp add: keys_distinct_def) blast
  then show ?thesis using e by (simp add: Let_def)
qed

end
