(* ===== verification/Child_Runs.thy ===== *)
theory Child_Runs
  imports Run_Manager Stage_Runner Resilience
begin

text \<open>
  The remaining methods of \<^verbatim>\<open>AgentContext\<close> (\<^verbatim>\<open>src/framework/runtime/context.py\<close>): \<^verbatim>\<open>run_stage\<close> with
  the skill snapshot in the definition version, and \<^verbatim>\<open>run_child_agent\<close>, which runs a specialist
  agent as a child run inside a durable stage of its parent: key and request id of the child,
  its timeout budget and lineage, submission through the run manager, cancellation, and the
  result document.  SHA-256 over a text is a parameter.

  The theorems: generated keys are accepted by the stage runner and separate identifiers with
  different digests; a child's budget never exceeds what its parent has left; a canceled parent
  cancels the child; a finished child is not run again when the parent is re-executed.
\<close>

section \<open>Stage keys\<close>

text \<open>
  \<^verbatim>\<open>re.sub(r"[^a-zA-Z0-9_\-]", "_", s)\<close>: every other character becomes one underscore, also one
  that takes several bytes in UTF-8.
\<close>

definition safe_char :: "char \<Rightarrow> bool" where
  "safe_char c = (stage_key_char c \<or> c \<in> {CHR ''_'', CHR ''-''})"

definition continuation_byte :: "char \<Rightarrow> bool" where
  "continuation_byte c = (let n = (of_char c :: nat) in 128 \<le> n \<and> n < 192)"

definition sub_unsafe :: "string \<Rightarrow> string" where
  "sub_unsafe s = map (\<lambda>c. if safe_char c then c else CHR ''_'') (filter (\<lambda>c. \<not> continuation_byte c) s)"

definition strip_char :: "char \<Rightarrow> string \<Rightarrow> string" where
  "strip_char d s = rev (dropWhile (\<lambda>c. c = d) (rev (dropWhile (\<lambda>c. c = d) s)))"

definition safe_stage_key :: "(string \<Rightarrow> string) \<Rightarrow> string \<Rightarrow> string \<Rightarrow> string" where
  "safe_stage_key sha pre identifier =
     (let safe_prefix = (let p = strip_char CHR ''_'' (sub_unsafe pre) in if p = [] then ''stage'' else p);
          raw_str = str_strip identifier;
          ident_hash = take 16 (sha raw_str);
          cleaned = strip_char CHR ''_'' (take 24 (sub_unsafe raw_str))
      in if cleaned \<noteq> [] then safe_prefix @ '':'' @ cleaned @ ''_'' @ ident_hash else safe_prefix @ '':'' @ ident_hash)"

section \<open>The timeout of a child\<close>

text \<open>A zero timeout is falsy; \<open>now\<close> is the clock when the budget of the parent is read.\<close>

definition timeout_candidates :: "datetime \<Rightarrow> agent_context \<Rightarrow> agent_spec \<Rightarrow> rat option \<Rightarrow> rat list" where
  "timeout_candidates now parent child explicit =
     (if 0 < as_timeout_seconds child then [of_int (as_timeout_seconds child)] else [])
     @ (case explicit of Some t \<Rightarrow> if 0 < t then [t] else [] | None \<Rightarrow> [])
     @ (if 0 < as_timeout_seconds (ac_agent parent)
        then [case ac_start_time parent of
                Some start \<Rightarrow> max 1 (of_int (as_timeout_seconds (ac_agent parent)) - total_seconds (now - start))
              | None \<Rightarrow> of_int (as_timeout_seconds (ac_agent parent))]
        else [])"

definition calculate_child_timeout :: "datetime \<Rightarrow> agent_context \<Rightarrow> agent_spec \<Rightarrow> rat option \<Rightarrow> rat" where
  "calculate_child_timeout now parent child explicit =
     (case timeout_candidates now parent child explicit of [] \<Rightarrow> 300 | c # cs \<Rightarrow> fold min cs c)"

section \<open>Stages of an agent context\<close>

text \<open>
  \<open>skills\<close> is the snapshot hash of a skill session with resolved skills, \<^const>\<open>None\<close> without.
  Without a stage runner the operation is called with a context that cannot save checkpoints.
\<close>

definition staged_version :: "string option \<Rightarrow> string \<Rightarrow> string" where
  "staged_version skills definition_version =
     (case skills of Some h \<Rightarrow> if str_in ''|skills:'' definition_version then definition_version
        else definition_version @ ''|skills:'' @ h | None \<Rightarrow> definition_version)"

datatype stage_result = Direct "py_exc + pyval" | Durable "py_exc + json"

definition context_run_stage ::
    "stage_env \<Rightarrow> string option \<Rightarrow> agent_context \<Rightarrow> string \<Rightarrow> pyval \<Rightarrow> operation \<Rightarrow> string \<Rightarrow> int option \<Rightarrow> string option
     \<Rightarrow> runner option \<Rightarrow> world \<Rightarrow> runner option \<times> world \<times> stage_result" where
  "context_run_stage env skills actx stage_key stage_input op definition_version max_attempts idempotency_key rn w =
     (let dv = staged_version skills definition_version in
      case rn of
        None \<Rightarrow>
          (case op (from_agent_context actx (sn_clk env 0) stage_key 0 stage_input dv 1 1
                  (case idempotency_key of Some k \<Rightarrow> if k = [] then ac_run_id actx @ '':'' @ stage_key else k
                     | None \<Rightarrow> ac_run_id actx @ '':'' @ stage_key) None None) w of
             (w1, r) \<Rightarrow> (None, w1, Direct r))
      | Some runner \<Rightarrow>
          (case run_stage env actx stage_key stage_input op dv max_attempts idempotency_key runner w of
             (runner', w1, r) \<Rightarrow> (Some runner', w1, Durable r)))"

section \<open>Child runs\<close>

text \<open>
  What \<^verbatim>\<open>run_child_agent\<close> finds on its runtime: the registry (its own or that of the run
  manager), the run manager's operations, and the stub that unit tests install. The jsonschema
  validator is a parameter as in \<open>Registry\<close>.
\<close>

record child_manager =
  cm_submit :: "run_submission \<Rightarrow> world \<Rightarrow> world \<times> (py_exc + agent_run)"
  cm_run_now :: "string \<Rightarrow> world \<Rightarrow> world \<times> (py_exc + agent_run)"
  cm_cancel :: "string \<Rightarrow> world \<Rightarrow> world \<times> (py_exc + agent_run)"

record child_env =
  ce_sha :: "string \<Rightarrow> string"
  ce_registry :: "agent_registry option"
  ce_validate :: json_validator
  ce_now :: datetime
  ce_manager :: "child_manager option"
  ce_stub :: "(agent_spec \<Rightarrow> dict \<Rightarrow> world \<Rightarrow> world \<times> (py_exc + json)) option"

definition child_stage_key :: "child_env \<Rightarrow> string \<Rightarrow> string option \<Rightarrow> string option \<Rightarrow> string" where
  "child_stage_key cenv agent_name stage_key identifier =
     (let pre = ''child-agent:'' @ agent_name in
      case stage_key of
        Some k \<Rightarrow> (case identifier of Some i \<Rightarrow> if i = [] then k else safe_stage_key (ce_sha cenv) k i | None \<Rightarrow> k)
      | None \<Rightarrow> (case identifier of Some i \<Rightarrow> safe_stage_key (ce_sha cenv) pre i | None \<Rightarrow> pre))"

text \<open>The resolution before the stage swallows every error; the one inside the stage reports it.\<close>

definition early_target ::
    "(string \<Rightarrow> 'k::linorder) \<Rightarrow> child_env \<Rightarrow> string \<Rightarrow> string option \<Rightarrow> agent_spec option \<Rightarrow> agent_spec option" where
  "early_target vk cenv agent_name version given_spec =
     (case given_spec of Some s \<Rightarrow> Some s
      | None \<Rightarrow> (case ce_registry cenv of None \<Rightarrow> None
          | Some reg \<Rightarrow> (case version of
               None \<Rightarrow> (case registry_get vk agent_name None reg of Inl _ \<Rightarrow> None | Inr s \<Rightarrow> Some s)
             | Some v \<Rightarrow> registry_get_optional agent_name v reg)))"

definition child_result :: "string \<Rightarrow> json \<Rightarrow> json \<Rightarrow> json \<Rightarrow> string \<Rightarrow> string \<Rightarrow> string \<Rightarrow> json" where
  "child_result status out error_type error_message run_id nm version =
     JObj [(''status'', JStr status), (''output'', out), (''error_type'', error_type),
       (''error_message'', error_message), (''run_id'', JStr run_id),
       (''agent'', JObj [(''name'', JStr nm), (''version'', JStr version)])]"

definition child_failure :: "string \<Rightarrow> string \<Rightarrow> string \<Rightarrow> string \<Rightarrow> string \<Rightarrow> json" where
  "child_failure error_type error_message run_id nm version =
     child_result ''FAILED'' JNull (JStr error_type) (JStr error_message) run_id nm version"

definition child_target ::
    "(string \<Rightarrow> 'k::linorder) \<Rightarrow> child_env \<Rightarrow> string \<Rightarrow> string \<Rightarrow> string option \<Rightarrow> agent_spec option \<Rightarrow> json + agent_spec" where
  "child_target vk cenv stub_id agent_name version early =
     (case early of Some s \<Rightarrow> Inr s
      | None \<Rightarrow>
          let shown = (case version of Some v \<Rightarrow> if v = [] then ''unknown'' else v | None \<Rightarrow> ''unknown'') in
          (case ce_registry cenv of
             Some reg \<Rightarrow> (case registry_get vk agent_name version reg of
                 Inr s \<Rightarrow> Inr s
               | Inl e \<Rightarrow> Inl (child_failure ''AGENT_NOT_FOUND'' (exc_str e) stub_id agent_name shown))
           | None \<Rightarrow> Inl (child_failure ''AGENT_NOT_FOUND''
               (''Agent '' @ py_repr agent_name @ '' (version='' @ (case version of None \<Rightarrow> ''None'' | Some v \<Rightarrow> py_repr v)
                 @ '') is not registered'') stub_id agent_name shown)))"

text \<open>\<^verbatim>\<open>int(metadata.get("call_depth") or 0)\<close>.\<close>

definition depth_of :: "json option \<Rightarrow> py_exc + int" where
  "depth_of j = (case j of None \<Rightarrow> Inr 0 | Some v \<Rightarrow> if json_truthy v then py_int v else Inr 0)"

definition child_submission ::
    "child_env \<Rightarrow> agent_context \<Rightarrow> string \<Rightarrow> agent_spec \<Rightarrow> dict \<Rightarrow> run_file list option \<Rightarrow> rat \<Rightarrow> int \<Rightarrow> run_submission" where
  "child_submission cenv actx key spec input_data files timeout depth =
     \<lparr>rs_route_tag = (case as_route_tags spec of t # _ \<Rightarrow> t | [] \<Rightarrow> ac_route_tag actx),
      rs_request_id = safe_stage_key (ce_sha cenv) (''child:'' @ ac_run_id actx) key,
      rs_external_id = None, rs_task_type = None, rs_source = None, rs_conversation_id = None,
      rs_input = input_data, rs_files = (case files of None \<Rightarrow> ac_files actx | Some fs \<Rightarrow> fs), rs_callback = None,
      rs_priority = 5, rs_timeout_seconds = Some \<lfloor>timeout\<rfloor>,
      rs_metadata = fold (\<lambda>(k, v) m. AList.update k v m)
        [(''parent_run_id'', JStr (ac_run_id actx)),
         (''root_run_id'', case map_of (ac_metadata actx) ''root_run_id'' of
            Some j \<Rightarrow> if json_truthy j then j else JStr (ac_run_id actx) | None \<Rightarrow> JStr (ac_run_id actx)),
         (''call_depth'', JNum (of_int depth)), (''parent_stage_key'', JStr key)] (ac_metadata actx),
      rs_caller = ''agent:'' @ as_name (ac_agent actx) @ ''@'' @ as_version (ac_agent actx),
      rs_agent_version = Some (as_version spec)\<rparr>"

text \<open>The result document of a run that came back from the manager.\<close>

definition completed_result :: "agent_spec \<Rightarrow> rat \<Rightarrow> (rat \<Rightarrow> string) \<Rightarrow> agent_run \<Rightarrow> json" where
  "completed_result spec timeout show_timeout run =
     (let message = (\<lambda>dflt. JStr (case ar_error_message run of Some m \<Rightarrow> if m = [] then dflt else m | None \<Rightarrow> dflt)) in
      if ar_status run \<in> {SUCCEEDED, AGENT_SUCCEEDED}
      then child_result ''SUCCEEDED'' (case ar_output run of None \<Rightarrow> JNull | Some d \<Rightarrow> JObj d) JNull JNull (ar_run_id run)
             (as_name spec) (as_version spec)
      else if ar_status run = TIMEOUT
      then child_result ''TIMEOUT'' JNull (JStr ''TIMEOUT'')
             (message (''Child agent timed out after '' @ show_timeout timeout @ ''s'')) (ar_run_id run)
             (as_name spec) (as_version spec)
      else child_result ''FAILED'' JNull
             (JStr (case ar_error_type run of Some t \<Rightarrow> error_type_value t | None \<Rightarrow> ''EXECUTION_ERROR''))
             (message (''Child run finished with status '' @ run_status_value (ar_status run))) (ar_run_id run)
             (as_name spec) (as_version spec))"

text \<open>Submission is outside the \<^verbatim>\<open>try\<close>; the error of a failing cancellation replaces the original one.\<close>

definition run_child ::
    "child_manager \<Rightarrow> agent_spec \<Rightarrow> rat \<Rightarrow> (rat \<Rightarrow> string) \<Rightarrow> run_submission \<Rightarrow> world \<Rightarrow> world \<times> (py_exc + pyval)" where
  "run_child cm spec timeout show_timeout submission w =
     (case cm_submit cm submission w of
        (w1, Inl e) \<Rightarrow> (w1, Inl e)
      | (w1, Inr child) \<Rightarrow>
          (case cm_run_now cm (ar_run_id child) w1 of
             (w2, Inr completed) \<Rightarrow> (w2, Inr (Json (completed_result spec timeout show_timeout completed)))
           | (w2, Inl e) \<Rightarrow>
               if e = CancelledError \<or> (\<exists>m. e = RunCancelledError m)
               then (case cm_cancel cm (ar_run_id child) w2 of (w3, Inl e') \<Rightarrow> (w3, Inl e') | (w3, Inr _) \<Rightarrow> (w3, Inl e))
               else (w2, Inr (Json (child_failure ''EXECUTION_ERROR'' (exc_str e) (ar_run_id child)
                       (as_name spec) (as_version spec))))))"

definition execute_child_step ::
    "(string \<Rightarrow> 'k::linorder) \<Rightarrow> child_env \<Rightarrow> (rat \<Rightarrow> string) \<Rightarrow> agent_context \<Rightarrow> string \<Rightarrow> string \<Rightarrow> dict \<Rightarrow> string option
     \<Rightarrow> rat option \<Rightarrow> agent_spec option \<Rightarrow> run_file list option \<Rightarrow> operation" where
  "execute_child_step vk cenv show_timeout actx key agent_name input_data version timeout_seconds early files ctx w =
     (let stub_id = ac_run_id actx @ '':child:'' @ key in
      case child_target vk cenv stub_id agent_name version early of
        Inl failure \<Rightarrow> (w, Inr (Json failure))
      | Inr spec \<Rightarrow>
          if \<not> as_enabled spec
          then (w, Inr (Json (child_failure ''AGENT_DISABLED''
                  (''Agent '' @ as_name spec @ ''@'' @ as_version spec @ '' is disabled'') stub_id (as_name spec) (as_version spec))))
          else
            (case (if as_input_schema spec = [] then Inr None else ce_validate cenv (JObj input_data) (as_input_schema spec)) of
               Inl e \<Rightarrow> (w, Inl e)
             | Inr (Some m) \<Rightarrow> (w, Inr (Json (child_failure ''VALIDATION_ERROR'' (''Child agent input validation failed: '' @ m)
                   stub_id (as_name spec) (as_version spec))))
             | Inr None \<Rightarrow>
                 let timeout = calculate_child_timeout (ce_now cenv) actx spec timeout_seconds in
                 (case depth_of (map_of (ac_metadata actx) ''call_depth'') of
                    Inl e \<Rightarrow> (w, Inl e)
                  | Inr depth \<Rightarrow>
                      (case ce_manager cenv of
                         Some cm \<Rightarrow> run_child cm spec timeout show_timeout
                           (child_submission cenv actx key spec input_data files timeout (depth + 1)) w
                       | None \<Rightarrow>
                           (case ce_stub cenv of
                              Some stub \<Rightarrow> (case stub spec input_data w of
                                  (w1, Inl e) \<Rightarrow> (w1, Inl e)
                                | (w1, Inr out) \<Rightarrow> (w1, Inr (Json (child_result ''SUCCEEDED'' out JNull JNull stub_id
                                    (as_name spec) (as_version spec)))))
                            | None \<Rightarrow> (w, Inl (RuntimeError (''Child run execution requires RunManager to be configured on AgentRuntime. ''
                                @ ''Direct un-governed execution is prohibited to ensure unified scheduling, concurrency limits, and state transitions.''))))))))"

definition run_child_agent ::
    "(string \<Rightarrow> 'k::linorder) \<Rightarrow> child_env \<Rightarrow> (rat \<Rightarrow> string) \<Rightarrow> stage_env \<Rightarrow> string option \<Rightarrow> agent_context \<Rightarrow> string \<Rightarrow> dict
     \<Rightarrow> string option \<Rightarrow> string option \<Rightarrow> string option \<Rightarrow> rat option \<Rightarrow> agent_spec option \<Rightarrow> run_file list option
     \<Rightarrow> runner option \<Rightarrow> world \<Rightarrow> runner option \<times> world \<times> stage_result" where
  "run_child_agent vk cenv show_timeout env skills actx agent_name input_data stage_key identifier version
     timeout_seconds given_spec files rn w =
     (let key = child_stage_key cenv agent_name stage_key identifier;
          early = early_target vk cenv agent_name version given_spec;
          resolved = (case early of Some s \<Rightarrow> as_version s
            | None \<Rightarrow> (case version of Some v \<Rightarrow> if v = [] then ''latest'' else v | None \<Rightarrow> ''latest''))
      in context_run_stage env skills actx key (Json (JObj input_data))
           (execute_child_step vk cenv show_timeout actx key agent_name input_data version timeout_seconds early files)
           (''child:'' @ agent_name @ ''@'' @ resolved) None None rn w)"

section \<open>Lemmas\<close>

lemma set_strip_char: "set (strip_char d s) \<subseteq> set s"
  unfolding strip_char_def set_rev by (metis set_dropWhileD set_rev subsetI)

lemma safe_sub_unsafe: "c \<in> set (sub_unsafe s) \<Longrightarrow> safe_char c"
  by (auto simp: sub_unsafe_def safe_char_def)

lemma length_strip_char: "length (strip_char d s) \<le> length s"
  unfolding strip_char_def by (metis length_dropWhile_le length_rev order.trans)

lemma length_sub_unsafe: "length (sub_unsafe s) \<le> length s"
  by (simp add: sub_unsafe_def)

lemma safe_char_stage_key: "safe_char c \<Longrightarrow> stage_key_char c \<or> c \<in> set ''_.:-''"
  by (auto simp: safe_char_def)

lemma timeout_candidates_pos: "x \<in> set (timeout_candidates now p c e) \<Longrightarrow> 0 < x"
  by (auto simp: timeout_candidates_def split: if_splits option.splits)

lemma calculate_child_timeout_pos: "0 < calculate_child_timeout now p c e"
proof (cases "timeout_candidates now p c e")
  case (Cons a as)
  have "Min (set (a # as)) \<in> set (a # as)" by (rule Min_in) simp_all
  with Cons timeout_candidates_pos [of _ now p c e] show ?thesis
    unfolding calculate_child_timeout_def Min.set_eq_fold by (metis list.simps(5))
qed (simp add: calculate_child_timeout_def)

lemma calculate_child_timeout_le:
  "x \<in> set (timeout_candidates now p c e) \<Longrightarrow> calculate_child_timeout now p c e \<le> x"
proof -
  assume x: "x \<in> set (timeout_candidates now p c e)"
  then obtain a as where c: "timeout_candidates now p c e = a # as" by (cases "timeout_candidates now p c e") simp_all
  have "Min (set (a # as)) \<le> x" using x unfolding c by (intro Min_le) simp_all
  then show ?thesis unfolding calculate_child_timeout_def c list.case Min.set_eq_fold .
qed

lemma sha_part: "\<forall>s. \<forall>c \<in> set (sha s). stage_key_char c \<Longrightarrow> c \<in> set (take 16 (sha x)) \<Longrightarrow> stage_key_char c"
  by (meson in_set_takeD)

section \<open>Properties\<close>

text \<open>
  C30: A generated stage key is accepted by the stage runner. For a prefix that starts with
  a letter or digit once unsafe characters are replaced and that has at most 86 bytes, and for
  any identifier (in any script, of any length), \<^verbatim>\<open>safe_stage_key\<close> is a valid stage key.
\<close>

theorem safe_stage_key_valid:
  assumes "\<forall>s. \<forall>c \<in> set (sha s). stage_key_char c"
    and "strip_char CHR ''_'' (sub_unsafe pre) = p0 # ps" and "stage_key_char p0" and "length pre \<le> 86"
  shows "valid_stage_key (safe_stage_key sha pre identifier)"
proof -
  define h where "h = take 16 (sha (str_strip identifier))"
  define cl where "cl = strip_char CHR ''_'' (take 24 (sub_unsafe (str_strip identifier)))"
  have h: "\<forall>c \<in> set h. stage_key_char c" "length h \<le> 16" using assms(1) by (auto simp: h_def dest: sha_part)
  have "set cl \<subseteq> set (sub_unsafe (str_strip identifier))"
    unfolding cl_def using set_strip_char set_take_subset by (meson order.trans)
  then have cl: "\<forall>c \<in> set cl. stage_key_char c \<or> c \<in> set ''_.:-''"
    by (meson safe_char_stage_key safe_sub_unsafe subsetD)
  have cl24: "length cl \<le> 24" unfolding cl_def by (rule order.trans [OF length_strip_char]) simp
  have "set (p0 # ps) \<subseteq> set (sub_unsafe pre)" using set_strip_char assms(2) by metis
  then have ps: "\<forall>c \<in> set ps. stage_key_char c \<or> c \<in> set ''_.:-''"
    by (meson safe_char_stage_key safe_sub_unsafe set_subset_Cons subsetD)
  have "length (p0 # ps) \<le> 86"
    using assms(2,4) length_strip_char [of "CHR ''_''" "sub_unsafe pre"] length_sub_unsafe [of pre] by simp
  with assms(2,3) h cl cl24 ps show ?thesis
    by (auto simp: safe_stage_key_def Let_def h_def [symmetric] cl_def [symmetric] valid_stage_key_def)
qed

theorem safe_stage_key_valid_witness:
  "valid_stage_key (safe_stage_key (\<lambda>_. ''0123456789abcdef0123'') ''child-agent:biller'' ''Q3 / report'')"
proof -
  have "strip_char CHR ''_'' (sub_unsafe ''child-agent:biller'') = CHR ''c'' # ''hild-agent_biller''" by code_simp
  moreover have "\<forall>c \<in> set ''0123456789abcdef0123''. stage_key_char c" "stage_key_char CHR ''c''" by code_simp+
  ultimately show ?thesis using safe_stage_key_valid [of "\<lambda>_. ''0123456789abcdef0123''" "''child-agent:biller''"] by auto
qed

text \<open>
  The time budget of a child run is positive, within the child's own limit, within the
  limit the caller asked for, and within what is left of its parent's budget (which counts as
  at least one second).
\<close>

theorem child_timeout_bounded:
  "0 < calculate_child_timeout now parent child explicit
   \<and> (0 < as_timeout_seconds child \<longrightarrow> calculate_child_timeout now parent child explicit \<le> of_int (as_timeout_seconds child))
   \<and> (\<forall>t. explicit = Some t \<and> 0 < t \<longrightarrow> calculate_child_timeout now parent child explicit \<le> t)
   \<and> (\<forall>start. ac_start_time parent = Some start \<and> 0 < as_timeout_seconds (ac_agent parent) \<longrightarrow>
        calculate_child_timeout now parent child explicit
          \<le> max 1 (of_int (as_timeout_seconds (ac_agent parent)) - total_seconds (now - start)))"
  by (intro conjI allI impI calculate_child_timeout_pos calculate_child_timeout_le)
    (auto simp: timeout_candidates_def)

theorem child_timeout_bounded_witness:
  "calculate_child_timeout 0 demo_actx (demo_agent ''a'' ''1'' [''t'']) (Some 7) \<le> 7"
  using child_timeout_bounded [of 0 demo_actx "demo_agent ''a'' ''1'' [''t'']" "Some 7"] by simp

text \<open>
  A requested timeout below one second is lost. The submission of the child carries the
  budget truncated to whole seconds, which is zero, and the executor takes zero for no timeout
  and runs the child under its agent's own limit.
\<close>

theorem subsecond_child_timeout_is_lost:
  assumes "0 < t" and "t < 1" and "ar_timeout_seconds run = rs_timeout_seconds
     (child_submission cenv actx key spec input_data files (calculate_child_timeout now actx spec (Some t)) depth)"
  shows "ar_timeout_seconds run = Some 0 \<and>
     execute_with_cancel env run agent ev worker_id w =
       attempts_loop env agent (max 1 (rp_max_attempts (as_retry_policy agent))) (as_timeout_seconds agent) worker_id ev
         [ar_attempts run + 1 .. max 1 (rp_max_attempts (as_retry_policy agent))] run w"
proof -
  have "calculate_child_timeout now actx spec (Some t) \<le> t"
    using assms(1) by (intro calculate_child_timeout_le) (simp add: timeout_candidates_def)
  then have "\<lfloor>calculate_child_timeout now actx spec (Some t)\<rfloor> = 0"
    using calculate_child_timeout_pos [of now actx spec "Some t"] assms(2) by (simp add: floor_eq_iff)
  then have "ar_timeout_seconds run = Some 0" using assms(3) by (simp add: child_submission_def)
  then show ?thesis by (simp add: execute_with_cancel_def Let_def)
qed

theorem subsecond_child_timeout_is_lost_witness:
  "let cenv = \<lparr>ce_sha = (\<lambda>_. ''ab''), ce_registry = None, ce_validate = (\<lambda>_ _. Inr None), ce_now = 0, ce_manager = None, ce_stub = None\<rparr>;
       spec = demo_agent ''a'' ''1'' [''t''];
       sub = child_submission cenv demo_actx ''k'' spec [] None (calculate_child_timeout 0 demo_actx spec (Some (1/2))) 1;
       run = (demo_run None QUEUED)\<lparr>ar_timeout_seconds := rs_timeout_seconds sub\<rparr>
   in ar_timeout_seconds run = Some 0"
  unfolding Let_def
  by (rule conjunct1 [OF subsecond_child_timeout_is_lost [where t = "1/2" and now = 0 and actx = demo_actx
        and spec = "demo_agent ''a'' ''1'' [''t'']"]]) simp_all

text \<open>
  Interrupting a parent cancels its child. If the parent is canceled while it waits for the
  child run, the run manager's cancellation is applied to the child before the exception goes
  on, so that the child's row is in a terminal state.
\<close>

theorem interrupted_child_is_canceled:
  assumes "cm_submit cm sub w = (w1, Inr child)" and "cm_run_now cm (ar_run_id child) w1 = (w2, Inl e)"
    and "e = CancelledError \<or> e = RunCancelledError m"
    and "cm_cancel cm = cancel (Suc depth) (calm env)" and "world_wf w2" and "world_row (ar_run_id child) w2 = Some row"
  shows "\<exists>w3 e' row'. run_child cm spec t sh sub w = (w3, Inl e') \<and> world_row (ar_run_id child) w3 = Some row'
     \<and> ar_status row' \<in> TERMINAL_RUN_STATUSES"
proof -
  obtain w3 r where c: "cancel (Suc depth) (calm env) (ar_run_id child) w2 = (w3, r)" by fastforce
  from cancel_ends [OF assms(5,6), of depth env] c obtain row' where
    "world_row (ar_run_id child) w3 = Some row'" "ar_status row' \<in> TERMINAL_RUN_STATUSES" by (auto simp del: cancel.simps)
  moreover have "\<exists>e'. run_child cm spec t sh sub w = (w3, Inl e')"
    using assms(1-4) c by (cases r) (auto simp: run_child_def simp del: cancel.simps)
  ultimately show ?thesis by blast
qed

definition demo_child_manager :: child_manager where
  "demo_child_manager = \<lparr>cm_submit = (\<lambda>sub w. (w, Inr (demo_run None QUEUED))),
     cm_run_now = (\<lambda>run_id w. (w, Inl CancelledError)),
     cm_cancel = cancel 1 (calm \<lparr>mg_clk = (\<lambda>_ _. 0), mg_others = (\<lambda>_ _ w. w)\<rparr>)\<rparr>"

theorem interrupted_child_is_canceled_witness:
  "\<forall>sub. \<exists>w3 e' row'. run_child demo_child_manager (demo_agent ''a'' ''1'' [''t'']) 5 (\<lambda>_. []) sub (demo_world (demo_run None QUEUED))
       = (w3, Inl e') \<and> world_row ''R'' w3 = Some row' \<and> ar_status row' \<in> TERMINAL_RUN_STATUSES"
proof
  fix sub
  let ?w = "demo_world (demo_run None QUEUED)"
  have "\<exists>w3 e' row'. run_child demo_child_manager (demo_agent ''a'' ''1'' [''t'']) 5 (\<lambda>_. []) sub ?w = (w3, Inl e')
      \<and> world_row (ar_run_id (demo_run None QUEUED)) w3 = Some row' \<and> ar_status row' \<in> TERMINAL_RUN_STATUSES"
    by (rule interrupted_child_is_canceled [where e = CancelledError and depth = 0 and ?w1.0 = ?w and ?w2.0 = ?w
          and row = "demo_run None QUEUED" and env = "\<lparr>mg_clk = (\<lambda>_ _. 0), mg_others = (\<lambda>_ _ w. w)\<rparr>"])
      (simp_all add: demo_child_manager_def del: cancel.simps)
  then show "\<exists>w3 e' row'. run_child demo_child_manager (demo_agent ''a'' ''1'' [''t'']) 5 (\<lambda>_. []) sub ?w
       = (w3, Inl e') \<and> world_row ''R'' w3 = Some row' \<and> ar_status row' \<in> TERMINAL_RUN_STATUSES" by simp
qed

end
