(* ===== verification/Coordination.thy ===== *)
theory Coordination
  imports Domain
begin

text \<open>
  Cluster coordination (\<^verbatim>\<open>src/infra/coordination.py\<close>): the in-process mutexes of
  \<^verbatim>\<open>LocalCoordinationBackend\<close>, the advisory locks of \<^verbatim>\<open>PostgresCoordinationBackend\<close>, and
  the bounded semaphore \<^verbatim>\<open>coordination_limited_slot\<close> built from either. The interface
  between the semaphore and a backend is the locale \<open>mutex_backend\<close>; under its laws the
  semaphore never admits more holders than its limit. The local backend satisfies the
  laws; the PostgreSQL backend does not for two tasks of one process.

  The database is a parameter: \<open>try_lock\<close> and \<open>unlock\<close> stand for the statements
  \<^verbatim>\<open>SELECT pg_try_advisory_lock\<close> and \<^verbatim>\<open>SELECT pg_advisory_unlock\<close> on a connection, and
  \<open>hash\<close> for the SHA-256 based \<^verbatim>\<open>_hash_key\<close>.
\<close>

section \<open>The local backend\<close>

record local_backend =
  lb_semaphores :: "(string \<times> nat) list"
  lb_holders :: "(string \<times> int) list"

definition sem_value :: "string \<Rightarrow> local_backend \<Rightarrow> nat" where
  "sem_value key lb = (case map_of (lb_semaphores lb) key of None \<Rightarrow> 1 | Some v \<Rightarrow> v)"

definition holders_of :: "string \<Rightarrow> local_backend \<Rightarrow> int" where
  "holders_of key lb = (case map_of (lb_holders lb) key of None \<Rightarrow> 0 | Some n \<Rightarrow> n)"

text \<open>
  \<^verbatim>\<open>acquire\<close>: take the semaphore if its value is positive, otherwise wait; each element
  of \<open>wakeups\<close> is what other tasks do until the waiter looks again, and running out of
  them is the timeout.
\<close>

fun local_wait :: "(local_backend \<Rightarrow> local_backend) list \<Rightarrow> string \<Rightarrow> local_backend \<Rightarrow> local_backend \<times> bool" where
  "local_wait wakeups key lb =
     (if 0 < sem_value key lb
      then (lb\<lparr>lb_semaphores := AList.update key (sem_value key lb - 1) (lb_semaphores lb),
               lb_holders := AList.update key (holders_of key lb + 1) (lb_holders lb)\<rparr>, True)
      else case wakeups of [] \<Rightarrow> (lb, False) | others # ws \<Rightarrow> local_wait ws key (others lb))"

declare local_wait.simps [simp del]

definition local_acquire :: "(local_backend \<Rightarrow> local_backend) list \<Rightarrow> string \<Rightarrow> local_backend \<Rightarrow> local_backend \<times> bool" where
  "local_acquire wakeups key lb =
     local_wait wakeups key (lb\<lparr>lb_semaphores := dict_setdefault key 1 (lb_semaphores lb)\<rparr>)"

definition local_release :: "string \<Rightarrow> local_backend \<Rightarrow> local_backend" where
  "local_release key lb =
     (case map_of (lb_semaphores lb) key of None \<Rightarrow> lb
      | Some v \<Rightarrow>
          let count = holders_of key lb;
              lb' = (if 0 < count then lb\<lparr>lb_holders := AList.update key (count - 1) (lb_holders lb)\<rparr> else lb)
          in lb'\<lparr>lb_semaphores := AList.update key (v + 1) (lb_semaphores lb')\<rparr>)"

definition local_try_acquire :: "string \<Rightarrow> local_backend \<Rightarrow> local_backend \<times> bool" where
  "local_try_acquire key lb =
     (let lb' = lb\<lparr>lb_semaphores := dict_setdefault key 1 (lb_semaphores lb)\<rparr> in
      if sem_value key lb' = 0 then (lb', False) else local_acquire [] key lb')"

section \<open>The PostgreSQL backend\<close>

record 'db pg_backend =
  pg_held :: "(string \<times> nat) list"
  pg_db :: 'db
  pg_returned :: "nat list"

type_synonym 'db lock_call = "int \<Rightarrow> nat \<Rightarrow> 'db \<Rightarrow> 'db \<times> (py_exc + bool)"

text \<open>The polling loop: one statement per element of \<open>polls\<close> after the first, then the deadline.\<close>

fun pg_poll :: "'db lock_call \<Rightarrow> ('db \<Rightarrow> 'db) list \<Rightarrow> int \<Rightarrow> nat \<Rightarrow> 'db \<Rightarrow> 'db \<times> (py_exc + bool)" where
  "pg_poll try_lock polls lock_key conn db =
     (case try_lock lock_key conn db of
        (db', Inl e) \<Rightarrow> (db', Inl e)
      | (db', Inr got) \<Rightarrow> if got then (db', Inr True)
          else (case polls of [] \<Rightarrow> (db', Inr False) | others # ps \<Rightarrow> pg_poll try_lock ps lock_key conn (others db')))"

declare pg_poll.simps [simp del]

definition putconn :: "nat \<Rightarrow> 'db pg_backend \<Rightarrow> 'db pg_backend" where
  "putconn conn pg = pg\<lparr>pg_returned := pg_returned pg @ [conn]\<rparr>"

text \<open>
  \<open>conn\<close> is the connection \<^verbatim>\<open>pool.getconn\<close> hands out; \<open>pg_returned\<close> records the calls of
  \<^verbatim>\<open>pool.putconn\<close>. The \<^verbatim>\<open>except\<close> and the \<^verbatim>\<open>finally\<close> clause both run when a statement raises.
\<close>

definition pg_blocking_acquire ::
    "'db lock_call \<Rightarrow> ('db \<Rightarrow> 'db) list \<Rightarrow> nat \<Rightarrow> string \<Rightarrow> int \<Rightarrow> 'db pg_backend \<Rightarrow> 'db pg_backend \<times> (py_exc + bool)" where
  "pg_blocking_acquire try_lock polls conn key lock_key pg =
     (if dict_has key (pg_held pg) then (pg, Inr True)
      else case pg_poll try_lock polls lock_key conn (pg_db pg) of
        (db', Inl e) \<Rightarrow> (putconn conn (putconn conn (pg\<lparr>pg_db := db'\<rparr>)), Inl e)
      | (db', Inr got) \<Rightarrow> if got then (pg\<lparr>pg_db := db', pg_held := AList.update key conn (pg_held pg)\<rparr>, Inr True)
          else (putconn conn (pg\<lparr>pg_db := db'\<rparr>), Inr False))"

definition pg_acquire ::
    "'db lock_call \<Rightarrow> (string \<Rightarrow> int) \<Rightarrow> ('db \<Rightarrow> 'db) list \<Rightarrow> nat \<Rightarrow> string \<Rightarrow> 'db pg_backend \<Rightarrow> 'db pg_backend \<times> bool" where
  "pg_acquire try_lock hash polls conn key pg =
     (case pg_blocking_acquire try_lock polls conn key (hash key) pg of
        (pg', Inr got) \<Rightarrow> (pg', got) | (pg', Inl _) \<Rightarrow> (pg', False))"

definition pg_try_acquire ::
    "'db lock_call \<Rightarrow> (string \<Rightarrow> int) \<Rightarrow> nat \<Rightarrow> string \<Rightarrow> 'db pg_backend \<Rightarrow> 'db pg_backend \<times> bool" where
  "pg_try_acquire try_lock hash conn key pg =
     (case pg_blocking_acquire try_lock [] conn key (hash key) pg of
        (pg', Inr got) \<Rightarrow> (pg', got) | (pg', Inl _) \<Rightarrow> (pg', False))"

definition pg_release ::
    "(int \<Rightarrow> nat \<Rightarrow> 'db \<Rightarrow> 'db) \<Rightarrow> (string \<Rightarrow> int) \<Rightarrow> string \<Rightarrow> 'db pg_backend \<Rightarrow> 'db pg_backend" where
  "pg_release unlock hash key pg =
     (case map_of (pg_held pg) key of None \<Rightarrow> pg
      | Some conn \<Rightarrow> putconn conn (pg\<lparr>pg_held := AList.delete key (pg_held pg), pg_db := unlock (hash key) conn (pg_db pg)\<rparr>))"

section \<open>Slots\<close>

definition slot_key :: "string \<Rightarrow> nat \<Rightarrow> string" where
  "slot_key key index = key @ '':slot:'' @ show_nat index"

text \<open>\<^verbatim>\<open>coordination_slot\<close>: run the body with the outcome of the acquisition, release if it was acquired.\<close>

definition coordination_slot ::
    "(string \<Rightarrow> 's \<Rightarrow> 's \<times> bool) \<Rightarrow> (string \<Rightarrow> 's \<Rightarrow> 's) \<Rightarrow> string \<Rightarrow> (bool \<Rightarrow> 's \<Rightarrow> 's \<times> (py_exc + 'a)) \<Rightarrow> 's \<Rightarrow> 's \<times> (py_exc + 'a)" where
  "coordination_slot acquire release key body s =
     (let (s1, acquired) = acquire key s; (s2, r) = body acquired s1
      in (if acquired then release key s2 else s2, r))"

fun try_slots :: "(string \<Rightarrow> 's \<Rightarrow> 's \<times> bool) \<Rightarrow> string \<Rightarrow> nat list \<Rightarrow> 's \<Rightarrow> 's \<times> string option" where
  "try_slots try key [] s = (s, None)"
| "try_slots try key (i # is) s =
     (case try (slot_key key i) s of (s', True) \<Rightarrow> (s', Some (slot_key key i)) | (s', False) \<Rightarrow> try_slots try key is s')"

text \<open>
  The sweeps until the deadline: each element of \<open>sweeps\<close> is what other tasks do before
  that sweep.
\<close>

fun acquire_limited ::
    "(string \<Rightarrow> 's \<Rightarrow> 's \<times> bool) \<Rightarrow> string \<Rightarrow> nat \<Rightarrow> ('s \<Rightarrow> 's) list \<Rightarrow> 's \<Rightarrow> 's \<times> string option" where
  "acquire_limited try key limit [] s = (s, None)"
| "acquire_limited try key limit (others # sweeps) s =
     (case try_slots try key [0..<limit] (others s) of
        (s', Some k) \<Rightarrow> (s', Some k) | (s', None) \<Rightarrow> acquire_limited try key limit sweeps s')"

definition coordination_limited_slot ::
    "(string \<Rightarrow> 's \<Rightarrow> 's \<times> bool) \<Rightarrow> (string \<Rightarrow> 's \<Rightarrow> 's) \<Rightarrow> string \<Rightarrow> int \<Rightarrow> ('s \<Rightarrow> 's) list
     \<Rightarrow> (bool \<Rightarrow> 's \<Rightarrow> 's \<times> (py_exc + 'a)) \<Rightarrow> 's \<Rightarrow> 's \<times> (py_exc + 'a)" where
  "coordination_limited_slot try release key limit sweeps body s =
     (if limit \<le> 0 then body False s
      else case acquire_limited try key (nat limit) sweeps s of
        (s1, None) \<Rightarrow> body False s1
      | (s1, Some k) \<Rightarrow> (case body True s1 of (s2, r) \<Rightarrow> (release k s2, r)))"

text \<open>
  Tasks entering and leaving one limited section in any order; the list holds the slot
  keys of the tasks inside. A task leaves by its position in the list.
\<close>

datatype slot_event = Enter | Leave nat

fun slot_run ::
    "(string \<Rightarrow> 's \<Rightarrow> 's \<times> bool) \<Rightarrow> (string \<Rightarrow> 's \<Rightarrow> 's) \<Rightarrow> string \<Rightarrow> nat \<Rightarrow> slot_event list \<Rightarrow> 's \<times> string list \<Rightarrow> 's \<times> string list" where
  "slot_run try release key limit [] sh = sh"
| "slot_run try release key limit (Enter # es) (s, inside) =
     (case try_slots try key [0..<limit] s of
        (s', Some k) \<Rightarrow> slot_run try release key limit es (s', k # inside)
      | (s', None) \<Rightarrow> slot_run try release key limit es (s', inside))"
| "slot_run try release key limit (Leave i # es) (s, inside) =
     (if i < length inside
      then slot_run try release key limit es (release (inside ! i) s, take i inside @ drop (Suc i) inside)
      else slot_run try release key limit es (s, inside))"

section \<open>The interface\<close>

locale mutex_backend =
  fixes try_acquire :: "string \<Rightarrow> 's \<Rightarrow> 's \<times> bool"
    and release :: "string \<Rightarrow> 's \<Rightarrow> 's"
    and held :: "'s \<Rightarrow> string set"
    and invar :: "'s \<Rightarrow> bool"
  assumes try_free: "invar s \<Longrightarrow> k \<notin> held s \<Longrightarrow> snd (try_acquire k s) \<and> held (fst (try_acquire k s)) = insert k (held s)"
    and try_held: "invar s \<Longrightarrow> k \<in> held s \<Longrightarrow> \<not> snd (try_acquire k s) \<and> held (fst (try_acquire k s)) = held s"
    and release_held: "invar s \<Longrightarrow> k \<in> held s \<Longrightarrow> held (release k s) = held s - {k}"
    and invar_try: "invar s \<Longrightarrow> invar (fst (try_acquire k s))"
    and invar_release: "invar s \<Longrightarrow> k \<in> held s \<Longrightarrow> invar (release k s)"
begin

lemma try_slots_spec:
  "invar s \<Longrightarrow> try_slots try_acquire key is s = (s', r) \<Longrightarrow> invar s' \<and>
     (case r of None \<Rightarrow> held s' = held s \<and> (\<forall>i \<in> set is. slot_key key i \<in> held s)
      | Some k \<Rightarrow> k \<in> slot_key key ` set is \<and> k \<notin> held s \<and> held s' = insert k (held s))"
proof (induction "is" arbitrary: s)
  case (Cons i "is")
  show ?case
  proof (cases "slot_key key i \<in> held s")
    case True
    with Cons.prems Cons.IH [of "fst (try_acquire (slot_key key i) s)"] try_held [of s "slot_key key i"] invar_try
    show ?thesis by (auto split: prod.splits bool.splits option.splits)
  next
    case False
    with Cons.prems try_free [of s "slot_key key i"] invar_try [of s "slot_key key i"]
    show ?thesis by (auto split: prod.splits bool.splits)
  qed
qed auto

definition inside_ok :: "string \<Rightarrow> nat \<Rightarrow> 's \<times> string list \<Rightarrow> bool" where
  "inside_ok key limit sh = (invar (fst sh) \<and> distinct (snd sh) \<and> set (snd sh) \<subseteq> held (fst sh)
     \<and> set (snd sh) \<subseteq> slot_key key ` {0..<limit})"

lemma inside_ok_enter:
  assumes "inside_ok key limit (s, inside)" and "try_slots try_acquire key [0..<limit] s = (s', r)"
  shows "inside_ok key limit (s', case r of None \<Rightarrow> inside | Some k \<Rightarrow> k # inside)"
  using assms try_slots_spec [of s key "[0..<limit]" s' r] by (auto simp: inside_ok_def split: option.splits)

lemma inside_ok_leave:
  assumes "inside_ok key limit (s, inside)" and "i < length inside"
  shows "inside_ok key limit (release (inside ! i) s, take i inside @ drop (Suc i) inside)"
proof -
  have k: "inside ! i \<in> held s" and d: "distinct (take i inside @ inside ! i # drop (Suc i) inside)"
    using assms by (auto simp: inside_ok_def id_take_nth_drop [symmetric])
  have "set (take i inside @ drop (Suc i) inside) \<subseteq> set inside - {inside ! i}"
    using d by (auto dest: in_set_takeD in_set_dropD)
  with assms k d release_held [of s "inside ! i"] invar_release [of s "inside ! i"] show ?thesis
    by (auto simp: inside_ok_def)
qed

lemma inside_ok_run:
  "inside_ok key limit sh \<Longrightarrow> inside_ok key limit (slot_run try_acquire release key limit es sh)"
proof (induction es arbitrary: sh)
  case (Cons e es)
  obtain s inside where sh: "sh = (s, inside)" by fastforce
  show ?case
  proof (cases e)
    case Enter
    obtain s' r where t: "try_slots try_acquire key [0..<limit] s = (s', r)" by fastforce
    show ?thesis
      using Cons.IH [OF inside_ok_enter [OF Cons.prems [unfolded sh] t]] by (simp add: Enter sh t split: option.splits)
  next
    case (Leave i)
    then show ?thesis using Cons inside_ok_leave [of key limit s inside i] by (simp add: sh)
  qed
qed simp

theorem limited:
  assumes "invar s"
  shows "length (snd (slot_run try_acquire release key limit es (s, []))) \<le> limit"
proof -
  have "inside_ok key limit (slot_run try_acquire release key limit es (s, []))"
    using assms by (intro inside_ok_run) (simp add: inside_ok_def)
  then have "distinct (snd (slot_run try_acquire release key limit es (s, [])))"
    and "set (snd (slot_run try_acquire release key limit es (s, []))) \<subseteq> slot_key key ` {0..<limit}"
    by (simp_all add: inside_ok_def)
  then have "length (snd (slot_run try_acquire release key limit es (s, []))) \<le> card (slot_key key ` {0..<limit})"
    by (metis card_mono distinct_card finite_atLeastLessThan finite_imageI)
  also have "\<dots> \<le> limit" using card_image_le [of "{0..<limit}" "slot_key key"] by simp
  finally show ?thesis .
qed

text \<open>A sweep that finds a free slot gets one.\<close>

lemma sweep_progress:
  assumes "invar s" and "i < limit" and "slot_key key i \<notin> held s"
  shows "\<exists>s' k. acquire_limited try_acquire key limit [id] s = (s', Some k)"
proof -
  obtain s' r where t: "try_slots try_acquire key [0..<limit] s = (s', r)" by fastforce
  with try_slots_spec [OF assms(1) t] assms(2,3) show ?thesis by (auto split: option.splits)
qed

end

section \<open>The local backend is a mutex\<close>

definition local_held :: "local_backend \<Rightarrow> string set" where
  "local_held lb = {k. sem_value k lb = 0}"

definition local_ok :: "local_backend \<Rightarrow> bool" where
  "local_ok lb = (\<forall>k. sem_value k lb \<le> 1)"

lemma sem_value_setdefault [simp]:
  "sem_value k (lb\<lparr>lb_semaphores := dict_setdefault key (Suc 0) (lb_semaphores lb)\<rparr>) = sem_value k lb"
  by (auto simp: sem_value_def map_of_setdefault split: option.splits)

lemma sem_value_update [simp]:
  "sem_value k (lb\<lparr>lb_semaphores := AList.update key v ss, lb_holders := hs\<rparr>) =
     (if k = key then v else case map_of ss k of None \<Rightarrow> 1 | Some v \<Rightarrow> v)"
  by (simp add: sem_value_def update_conv')

lemma local_acquire_value:
  "sem_value k (fst (local_acquire [] key lb)) = (if k = key then sem_value key lb - 1 else sem_value k lb)"
  "snd (local_acquire [] key lb) = (0 < sem_value key lb)"
  by (auto simp: local_acquire_def local_wait.simps sem_value_def update_conv' map_of_setdefault split: option.splits)

lemma local_try_acquire_value:
  "sem_value k (fst (local_try_acquire key lb)) = (if k = key then sem_value key lb - 1 else sem_value k lb)"
  "snd (local_try_acquire key lb) = (0 < sem_value key lb)"
  by (auto simp: local_try_acquire_def Let_def local_acquire_value)

lemma local_release_value:
  "map_of (lb_semaphores lb) key \<noteq> None \<Longrightarrow>
     sem_value k (local_release key lb) = (if k = key then sem_value key lb + 1 else sem_value k lb)"
  by (auto simp: local_release_def Let_def sem_value_def update_conv')

lemma local_held_present: "sem_value key lb = 0 \<Longrightarrow> map_of (lb_semaphores lb) key \<noteq> None"
  by (auto simp: sem_value_def split: option.splits)

interpretation local_mutex: mutex_backend local_try_acquire local_release local_held local_ok
proof
  fix s k
  assume ok: "local_ok s"
  then have "sem_value k s \<le> 1" by (simp add: local_ok_def)
  then show "snd (local_try_acquire k s) \<and> local_held (fst (local_try_acquire k s)) = insert k (local_held s)"
    if "k \<notin> local_held s"
    using that by (auto simp: local_held_def local_try_acquire_value)
  show "\<not> snd (local_try_acquire k s) \<and> local_held (fst (local_try_acquire k s)) = local_held s" if "k \<in> local_held s"
    using that by (auto simp: local_held_def local_try_acquire_value)
  show "local_ok (fst (local_try_acquire k s))"
    using ok by (auto simp: local_ok_def local_try_acquire_value intro: le_trans diff_le_self)
  show "local_held (local_release k s) = local_held s - {k}" if "k \<in> local_held s"
    using that local_held_present [of k s] by (auto simp: local_held_def local_release_value)
  show "local_ok (local_release k s)" if "k \<in> local_held s"
    using that ok local_held_present [of k s] by (auto simp: local_held_def local_ok_def local_release_value)
qed

section \<open>Properties\<close>

text \<open>
  With the local backend the bounded semaphore keeps its bound. However tasks enter and
  leave a section limited to \<open>limit\<close> slots, at most \<open>limit\<close> of them are inside at once; and
  a task whose sweep finds any slot free gets in.
\<close>

theorem local_limited_slot_bound:
  "length (snd (slot_run local_try_acquire local_release key limit es (\<lparr>lb_semaphores = [], lb_holders = []\<rparr>, []))) \<le> limit
   \<and> (local_ok lb \<and> i < limit \<and> slot_key key i \<notin> local_held lb \<longrightarrow>
        (\<exists>lb' k. acquire_limited local_try_acquire key limit [id] lb = (lb', Some k)))"
  using local_mutex.limited [of "\<lparr>lb_semaphores = [], lb_holders = []\<rparr>" key limit es]
    local_mutex.sweep_progress [of lb i limit key]
  by (simp add: local_ok_def sem_value_def)

theorem local_limited_slot_bound_witness:
  "length (snd (slot_run local_try_acquire local_release ''k'' 1 [Enter, Enter] (\<lparr>lb_semaphores = [], lb_holders = []\<rparr>, []))) \<le> 1
   \<and> (\<exists>lb' k. acquire_limited local_try_acquire ''k'' 1 [id] \<lparr>lb_semaphores = [], lb_holders = []\<rparr> = (lb', Some k))"
  using local_limited_slot_bound [of "''k''" 1 "[Enter, Enter]" "\<lparr>lb_semaphores = [], lb_holders = []\<rparr>" 0]
  by (simp add: local_ok_def local_held_def sem_value_def)

text \<open>
  The PostgreSQL backend is not a mutex between the tasks of one process. Whatever the
  database answers, once the process holds a key a second acquisition of the same key
  reports success without asking the database, and the first release gives the lock back
  while the other task still counts itself inside. A section limited to one slot then
  admits two tasks.
\<close>

theorem pg_lock_shared_within_process:
  assumes "pg_try_acquire try_lock hash conn key pg = (pg1, True)"
  shows "pg_try_acquire try_lock hash conn' key pg1 = (pg1, True)
     \<and> \<not> dict_has key (pg_held (pg_release unlock hash key pg1))
     \<and> (key = slot_key name 0 \<longrightarrow>
          (\<exists>pg2. slot_run (pg_try_acquire try_lock hash conn) (pg_release unlock hash) name 1 [Enter, Enter] (pg, []) =
             (pg2, [key, key])))"
proof -
  have held: "dict_has key (pg_held pg1)"
    using assms by (auto simp: pg_try_acquire_def pg_blocking_acquire_def dict_has_def update_conv'
        split: if_splits prod.splits sum.splits)
  then have again: "pg_try_acquire try_lock hash c key pg1 = (pg1, True)" for c
    by (simp add: pg_try_acquire_def pg_blocking_acquire_def)
  have "\<not> dict_has key (pg_held (pg_release unlock hash key pg1))"
    using held by (auto simp: pg_release_def putconn_def dict_has_def delete_conv' split: option.splits)
  with assms again show ?thesis by auto
qed

theorem pg_lock_shared_within_process_witness:
  "let try_lock = (\<lambda>k c db. (k # db, Inr (k \<notin> set db))); pg = \<lparr>pg_held = [], pg_db = [], pg_returned = []\<rparr>
   in \<exists>pg2. slot_run (pg_try_acquire try_lock (\<lambda>_. 7) 1) (pg_release (\<lambda>k c db. removeAll k db) (\<lambda>_. 7)) ''s'' 1
        [Enter, Enter] (pg, []) = (pg2, [slot_key ''s'' 0, slot_key ''s'' 0])"
proof -
  let ?t = "\<lambda>k c db. (k # db, Inr (k \<notin> set db)) :: int list \<times> (py_exc + bool)"
  let ?pg = "\<lparr>pg_held = [], pg_db = [], pg_returned = []\<rparr>"
  have "\<exists>pg1. pg_try_acquire ?t (\<lambda>_. 7) 1 (slot_key ''s'' 0) ?pg = (pg1, True)"
    by (simp add: pg_try_acquire_def pg_blocking_acquire_def pg_poll.simps dict_has_def)
  then obtain pg1 where "pg_try_acquire ?t (\<lambda>_. 7) 1 (slot_key ''s'' 0) ?pg = (pg1, True)" ..
  from pg_lock_shared_within_process [OF this, of 1 "\<lambda>k c db. removeAll k db" "''s''"] show ?thesis by (simp add: Let_def)
qed

text \<open>
  Between processes the PostgreSQL backend does exclude. Under the database's contract that
  a lock held by one session is refused to every other session, a process that does not hold
  the key is refused while another process's session holds its lock, however often it polls
  while the holder keeps it, and the connection it borrowed goes back to the pool once.
\<close>

theorem pg_lock_excludes_other_processes:
  assumes contract: "\<And>k c db. owner db k = Some c' \<Longrightarrow> c \<noteq> c' \<Longrightarrow> try_lock k c db = (db, Inr False)"
    and "owner (pg_db pg) (hash key) = Some c'" and "c \<noteq> c'" and "\<not> dict_has key (pg_held pg)"
    and "\<forall>others \<in> set polls. \<forall>db. owner db (hash key) = Some c' \<longrightarrow> owner (others db) (hash key) = Some c'"
  shows "\<not> snd (pg_acquire try_lock hash polls c key pg)
     \<and> pg_held (fst (pg_acquire try_lock hash polls c key pg)) = pg_held pg
     \<and> pg_returned (fst (pg_acquire try_lock hash polls c key pg)) = pg_returned pg @ [c]"
proof -
  have "snd (pg_poll try_lock polls (hash key) c db) = Inr False" if "owner db (hash key) = Some c'" for db
    using assms(5) that
    by (induction polls arbitrary: db) (auto simp: pg_poll.simps contract [OF _ assms(3)])
  from this [OF assms(2)] assms(4) show ?thesis
    by (auto simp: pg_acquire_def pg_blocking_acquire_def putconn_def split: prod.split)
qed

theorem pg_lock_excludes_other_processes_witness:
  "let try_lock = (\<lambda>k c db. if map_of db k = None then (AList.update k c db, Inr True)
                   else if map_of db k = Some c then (db, Inr True) else (db, Inr False))
   in \<not> snd (pg_acquire try_lock (\<lambda>_. 7) [id, id] 2 ''k'' \<lparr>pg_held = [], pg_db = [(7, 1)], pg_returned = []\<rparr>)"
proof -
  let ?t = "(\<lambda>k c db. if map_of db k = None then (AList.update k c db, Inr True)
                   else if map_of db k = Some c then (db, Inr True) else (db, Inr False))"
  have "\<not> snd (pg_acquire ?t (\<lambda>_. 7) [id, id] 2 ''k'' \<lparr>pg_held = [], pg_db = [(7, 1)], pg_returned = []\<rparr>)"
    using pg_lock_excludes_other_processes [of "\<lambda>db k. map_of db k" 1 ?t "\<lparr>pg_held = [], pg_db = [(7, 1)], pg_returned = []\<rparr>"
        "\<lambda>_. 7" "''k''" 2 "[id, id]"]
    by (simp add: dict_has_def)
  then show ?thesis unfolding Let_def .
qed

text \<open>
  A failing lock statement returns its connection twice. When the database raises, both the
  \<^verbatim>\<open>except\<close> and the \<^verbatim>\<open>finally\<close> clause put the borrowed connection back into the pool, and the
  caller sees a plain refusal.
\<close>

theorem pg_acquire_error_double_put:
  assumes "\<not> dict_has key (pg_held pg)" and "try_lock (hash key) conn (pg_db pg) = (db', Inl e)"
  shows "pg_acquire try_lock hash polls conn key pg =
     (pg\<lparr>pg_db := db', pg_returned := pg_returned pg @ [conn, conn]\<rparr>, False)"
  using assms by (simp add: pg_acquire_def pg_blocking_acquire_def pg_poll.simps putconn_def)

theorem pg_acquire_error_double_put_witness:
  "pg_returned (fst (pg_acquire (\<lambda>k c db. (db, Inl (RuntimeError ''lost''))) (\<lambda>_. 7) [] 3 ''k''
     \<lparr>pg_held = [], pg_db = (), pg_returned = []\<rparr>)) = [3, 3]"
  using pg_acquire_error_double_put [of "''k''" "\<lparr>pg_held = [], pg_db = (), pg_returned = []\<rparr>"
      "\<lambda>k c db. (db, Inl (RuntimeError ''lost''))" "\<lambda>_. 7" 3 "()" "RuntimeError ''lost''" "[]"]
  by (simp add: dict_has_def)

end
