(* ===== verification/Scheduler.thy ===== *)
theory Scheduler
  imports Child_Runs Coordination Resilience
begin

text \<open>
  \<^verbatim>\<open>RunScheduler\<close> (\<^verbatim>\<open>src/orchestration/scheduler.py\<close>): admission of runs under a global limit and
  limits per agent, route tag, caller and root run.  Semaphores are objects in a heap
  (\<open>sc_objects\<close>, pairs of initial value and current value), because the dictionaries that name
  them are cleared while tasks still hold them.  A run that passes through \<^verbatim>\<open>run_with_limits\<close> is
  a task that looks up, awaits and takes one semaphore after the other, registers itself,
  runs, and gives everything back; the events of \<open>sched_event\<close> are these steps, and lists of
  events are the interleavings of all tasks with reconfigurations.

  The theorems: no semaphore is ever over-committed, so that the number of runs inside stays
  within its limit; admission refuses too deep nesting; and a reconfiguration while runs are
  still queueing lets more root runs in than either configuration allows.
\<close>

section \<open>State\<close>

record limits =
  lm_global :: int
  lm_route_tags :: "(string \<times> int) list"
  lm_callers :: "(string \<times> int) list"
  lm_nested_depth :: int
  lm_children :: int

datatype sem_key = AgentSem string | RouteSem string | CallerSem string | NestedSem string | LaneSem string string

record holder =
  ho_agent :: string
  ho_route_tag :: string
  ho_caller :: string
  ho_parent :: "json option"
  ho_root :: string

record scheduler =
  sc_limits :: limits
  sc_global :: nat
  sc_sems :: "(sem_key \<times> nat) list"
  sc_objects :: "(nat \<times> nat) list"
  sc_holders :: "(string \<times> holder) list"
  sc_by_agent :: "(string \<times> int) list"
  sc_by_route_tag :: "(string \<times> int) list"
  sc_by_caller :: "(string \<times> int) list"

text \<open>\<^verbatim>\<open>asyncio.Semaphore(n)\<close> refuses a negative value.\<close>

definition new_semaphore :: "int \<Rightarrow> scheduler \<Rightarrow> py_exc + scheduler \<times> nat" where
  "new_semaphore n sc = (if n < 0 then Inl (ValueError ''Semaphore initial value must be >= 0'')
     else Inr (sc\<lparr>sc_objects := sc_objects sc @ [(nat n, nat n)]\<rparr>, length (sc_objects sc)))"

definition new_scheduler :: "limits \<Rightarrow> py_exc + scheduler" where
  "new_scheduler lm =
     (case new_semaphore (lm_global lm)
        \<lparr>sc_limits = lm, sc_global = 0, sc_sems = [], sc_objects = [], sc_holders = [], sc_by_agent = [], sc_by_route_tag = [], sc_by_caller = []\<rparr> of
        Inl e \<Rightarrow> Inl e | Inr (sc, i) \<Rightarrow> Inr (sc\<lparr>sc_global := i\<rparr>))"

text \<open>
  The queue section of the settings. Its tables were validated as \<^verbatim>\<open>dict[str, int]\<close> by
  \<^verbatim>\<open>RuntimeConfig\<close>; the scalars go through \<^verbatim>\<open>int\<close>.
\<close>

record queue_settings =
  qs_global :: "json option"
  qs_route_tags :: "(string \<times> int) list option"
  qs_callers :: "(string \<times> int) list option"
  qs_depth :: "json option"
  qs_children :: "json option"

definition setting_int :: "json option \<Rightarrow> int \<Rightarrow> py_exc + int" where
  "setting_int j dflt = (case j of None \<Rightarrow> Inr dflt | Some v \<Rightarrow> py_int v)"

definition limits_of :: "queue_settings \<Rightarrow> py_exc + limits" where
  "limits_of s =
     (case setting_int (qs_global s) 20 of Inl e \<Rightarrow> Inl e | Inr g \<Rightarrow>
      case setting_int (qs_depth s) 3 of Inl e \<Rightarrow> Inl e | Inr d \<Rightarrow>
      case setting_int (qs_children s) 5 of Inl e \<Rightarrow> Inl e | Inr c \<Rightarrow>
        Inr \<lparr>lm_global = g, lm_route_tags = (case qs_route_tags s of None \<Rightarrow> [] | Some t \<Rightarrow> t),
             lm_callers = (case qs_callers s of None \<Rightarrow> [] | Some t \<Rightarrow> t), lm_nested_depth = d, lm_children = c\<rparr>)"

definition is_agent_sem :: "sem_key \<Rightarrow> bool" where
  "is_agent_sem k = (case k of AgentSem _ \<Rightarrow> True | _ \<Rightarrow> False)"

definition reconfigure_queue :: "queue_settings \<Rightarrow> scheduler \<Rightarrow> scheduler \<times> py_exc option" where
  "reconfigure_queue settings sc =
     (case limits_of settings of Inl e \<Rightarrow> (sc, Some e)
      | Inr lm \<Rightarrow>
          if lm_global lm \<le> 0 then (sc, Some (ValueError ''queue.global_max_concurrency must be greater than zero''))
          else if sc_holders sc \<noteq> [] then (sc, Some (RuntimeError ''queue settings cannot reload while runs are active''))
          else (case new_semaphore (lm_global lm) (sc\<lparr>sc_limits := lm\<rparr>) of
                  Inl e \<Rightarrow> (sc\<lparr>sc_limits := lm\<rparr>, Some e)
                | Inr (sc1, i) \<Rightarrow> (sc1\<lparr>sc_global := i, sc_sems := filter (\<lambda>(k, _). is_agent_sem k) (sc_sems sc1)\<rparr>, None)))"

section \<open>Semaphores by name\<close>

definition sem_limit :: "limits \<Rightarrow> int \<Rightarrow> sem_key \<Rightarrow> int" where
  "sem_limit lm agent_limit k = (case k of
       AgentSem _ \<Rightarrow> agent_limit
     | RouteSem t \<Rightarrow> (case map_of (lm_route_tags lm) t of Some n \<Rightarrow> n | None \<Rightarrow> 10000)
     | CallerSem c \<Rightarrow> (case map_of (lm_callers lm) c of Some n \<Rightarrow> n | None \<Rightarrow> 10000)
     | NestedSem _ \<Rightarrow> lm_children lm
     | LaneSem _ _ \<Rightarrow> 1)"

text \<open>
  The \<^verbatim>\<open>semaphore_for_...\<close> methods: \<^verbatim>\<open>setdefault\<close> evaluates its default first, so that a bad limit
  raises even when the semaphore exists; then the new object is dropped.
\<close>

definition semaphore_for :: "int \<Rightarrow> sem_key \<Rightarrow> scheduler \<Rightarrow> py_exc + scheduler \<times> nat" where
  "semaphore_for agent_limit k sc =
     (case new_semaphore (sem_limit (sc_limits sc) agent_limit k) sc of
        Inl e \<Rightarrow> Inl e
      | Inr (sc1, i) \<Rightarrow> (case map_of (sc_sems sc) k of
            Some j \<Rightarrow> Inr (sc, j)
          | None \<Rightarrow> Inr (sc1\<lparr>sc_sems := sc_sems sc1 @ [(k, i)]\<rparr>, i)))"

section \<open>Admission\<close>

text \<open>
  The chain of active ancestors, nearest first. The loop holds the scheduler's lock and ends
  when an ancestor is not active; \<^const>\<open>None\<close> says that more steps are taken than there are
  holders, so that the chain has a cycle and the loop does not end. A list or an object as a
  parent id is no dictionary key.
\<close>

fun ancestors :: "nat \<Rightarrow> json option \<Rightarrow> (string \<times> holder) list \<Rightarrow> (py_exc + (string \<times> holder) list) option" where
  "ancestors fuel None hs = Some (Inr [])"
| "ancestors fuel (Some j) hs =
     (if \<not> json_truthy j then Some (Inr [])
      else case j of
        JStr p \<Rightarrow> (case map_of hs p of None \<Rightarrow> Some (Inr [])
          | Some h \<Rightarrow> (case fuel of 0 \<Rightarrow> None
              | Suc n \<Rightarrow> (case ancestors n (ho_parent h) hs of
                  None \<Rightarrow> None | Some (Inl e) \<Rightarrow> Some (Inl e) | Some (Inr as) \<Rightarrow> Some (Inr ((p, h) # as)))))
      | JList _ \<Rightarrow> Some (Inl (TypeError (''unhashable type: '' @ py_repr ''list'')))
      | JObj _ \<Rightarrow> Some (Inl (TypeError (''unhashable type: '' @ py_repr ''dict'')))
      | _ \<Rightarrow> Some (Inr []))"

definition find_ancestor :: "(holder \<Rightarrow> bool) \<Rightarrow> (string \<times> holder) list \<Rightarrow> string option" where
  "find_ancestor P as = map_option fst (find (\<lambda>(p, h). P h) as)"

text \<open>
  What a run needs, in the order it takes it: \<^const>\<open>None\<close> in the first component is the global
  semaphore. The other components are the flags of the distributed path.
\<close>

record admission =
  ad_child :: bool
  ad_root :: string
  ad_agent_held :: bool
  ad_route_held :: bool
  ad_caller_held :: bool
  ad_plan :: "sem_key option list"

definition root_of :: "(json \<Rightarrow> string) \<Rightarrow> agent_run \<Rightarrow> string" where
  "root_of str_of run = (case map_of (ar_metadata run) ''root_run_id'' of
     Some j \<Rightarrow> if json_truthy j then str_of j else ar_run_id run | None \<Rightarrow> ar_run_id run)"

definition plan_admission ::
    "(json \<Rightarrow> string) \<Rightarrow> agent_run \<Rightarrow> agent_spec \<Rightarrow> scheduler \<Rightarrow> (py_exc + admission) option" where
  "plan_admission str_of run agent sc =
     (let parent = map_of (ar_metadata run) ''parent_run_id''; root = root_of str_of run in
      case depth_of (map_of (ar_metadata run) ''call_depth'') of
        Inl e \<Rightarrow> Some (Inl e)
      | Inr depth \<Rightarrow>
          if lm_nested_depth (sc_limits sc) < depth
          then Some (Inl (RuntimeError (''Nested execution depth limit '' @ show_int (lm_nested_depth (sc_limits sc))
                 @ '' exceeded (call_depth='' @ show_int depth @ '')'')))
          else
            let is_child = (case parent of Some j \<Rightarrow> json_truthy j | None \<Rightarrow> False) in
            (case ancestors (length (sc_holders sc)) parent (sc_holders sc) of
               None \<Rightarrow> None
             | Some (Inl e) \<Rightarrow> Some (Inl e)
             | Some (Inr as) \<Rightarrow>
                 let agent_id = find_ancestor (\<lambda>h. ho_agent h = as_name agent) as;
                     route_id = find_ancestor (\<lambda>h. ho_route_tag h = ar_route_tag run) as;
                     caller_exempt = (is_child \<and> ar_caller run \<in> ho_caller ` snd ` set as)
                 in Some (Inr \<lparr>ad_child = is_child, ad_root = root, ad_agent_held = (agent_id \<noteq> None),
                      ad_route_held = (route_id \<noteq> None), ad_caller_held = caller_exempt,
                      ad_plan = [if is_child then Some (NestedSem root) else None,
                        case agent_id of Some a \<Rightarrow> Some (LaneSem a (''agent:'' @ as_name agent)) | None \<Rightarrow> Some (AgentSem (as_name agent)),
                        case route_id of Some a \<Rightarrow> Some (LaneSem a (''route:'' @ ar_route_tag run)) | None \<Rightarrow> Some (RouteSem (ar_route_tag run))]
                        @ (if caller_exempt then [] else [Some (CallerSem (ar_caller run))])\<rparr>)))"

section \<open>Tasks and their steps\<close>

datatype phase = Queueing | Running | Gone

record task =
  tk_run :: agent_run
  tk_agent :: agent_spec
  tk_admission :: admission
  tk_plan :: "sem_key option list"
  tk_wait :: "nat option"
  tk_held :: "nat list"
  tk_phase :: phase

record system =
  sy_sched :: scheduler
  sy_tasks :: "task list"
  sy_logs :: "log_event list"

text \<open>
  \<open>Arrive\<close> is the head of \<^verbatim>\<open>run_with_limits\<close>; \<open>Look\<close> evaluates the next semaphore and starts to wait
  for it, \<open>Grab\<close> gets it, \<open>Admit\<close> registers the holder and enters \<^verbatim>\<open>_run_admitted\<close>, \<open>Finish\<close> is the
  end of the call with both \<^verbatim>\<open>finally\<close> blocks, \<open>Abort\<close> an exception or a cancellation while queueing.
\<close>

datatype sched_event =
    Arrive agent_run agent_spec
  | Look nat
  | Grab nat
  | Admit nat datetime
  | Finish nat
  | Abort nat
  | Reconfigure queue_settings

definition bump :: "int \<Rightarrow> string \<Rightarrow> (string \<times> int) list \<Rightarrow> (string \<times> int) list" where
  "bump n k m = AList.update k ((case map_of m k of Some v \<Rightarrow> v | None \<Rightarrow> 0) + n) m"

definition count_running :: "int \<Rightarrow> task \<Rightarrow> scheduler \<Rightarrow> scheduler" where
  "count_running n t sc =
     sc\<lparr>sc_by_agent := bump n (as_name (tk_agent t)) (sc_by_agent sc),
        sc_by_route_tag := bump n (ar_route_tag (tk_run t)) (sc_by_route_tag sc),
        sc_by_caller := bump n (ar_caller (tk_run t)) (sc_by_caller sc)\<rparr>"

definition drop_lanes :: "string \<Rightarrow> scheduler \<Rightarrow> scheduler" where
  "drop_lanes run_id sc = sc\<lparr>sc_sems := filter (\<lambda>(k, _). case k of LaneSem r _ \<Rightarrow> r \<noteq> run_id | _ \<Rightarrow> True) (sc_sems sc)\<rparr>"

definition release_object :: "nat \<Rightarrow> scheduler \<Rightarrow> scheduler" where
  "release_object i sc = sc\<lparr>sc_objects := (sc_objects sc)[i := (fst (sc_objects sc ! i), snd (sc_objects sc ! i) + 1)]\<rparr>"

definition take_object :: "nat \<Rightarrow> scheduler \<Rightarrow> scheduler" where
  "take_object i sc = sc\<lparr>sc_objects := (sc_objects sc)[i := (fst (sc_objects sc ! i), snd (sc_objects sc ! i) - 1)]\<rparr>"

definition gone :: "task \<Rightarrow> task" where
  "gone t = t\<lparr>tk_phase := Gone, tk_held := [], tk_wait := None, tk_plan := []\<rparr>"

definition give_back :: "nat \<Rightarrow> system \<Rightarrow> system" where
  "give_back i sy = sy\<lparr>sy_sched := fold release_object (tk_held (sy_tasks sy ! i)) (sy_sched sy),
     sy_tasks := (sy_tasks sy)[i := gone (sy_tasks sy ! i)]\<rparr>"

definition holder_of :: "task \<Rightarrow> holder" where
  "holder_of t = \<lparr>ho_agent = as_name (tk_agent t), ho_route_tag = ar_route_tag (tk_run t), ho_caller = ar_caller (tk_run t),
     ho_parent = map_of (ar_metadata (tk_run t)) ''parent_run_id'', ho_root = ad_root (tk_admission t)\<rparr>"

definition admitted_log :: "datetime \<Rightarrow> task \<Rightarrow> log_event" where
  "admitted_log now t = \<lparr>le_run_id = Some (ar_run_id (tk_run t)), le_trace_id = ar_trace_id (tk_run t),
     le_component = ''scheduler'', le_event_type = ''run_dequeued'', le_level = ''INFO'',
     le_message = ''Task admitted by scheduler'',
     le_data = [(''agent'', JStr (as_name (tk_agent t))), (''route_tag'', JStr (ar_route_tag (tk_run t))),
       (''caller'', JStr (ar_caller (tk_run t)))], le_create_time = now\<rparr>"

definition finish_running :: "task \<Rightarrow> scheduler \<Rightarrow> scheduler" where
  "finish_running t sc =
     (let run_id = ar_run_id (tk_run t); root = ad_root (tk_admission t); sc1 = count_running (- 1) t sc;
          sc2 = (if \<not> ad_child (tk_admission t) \<and> root \<noteq> []
            then drop_lanes root (sc1\<lparr>sc_sems := AList.delete (NestedSem root) (sc_sems sc1)\<rparr>) else sc1)
      in drop_lanes run_id (sc2\<lparr>sc_holders := AList.delete run_id (sc_holders sc2)\<rparr>))"

definition next_semaphore :: "task \<Rightarrow> sem_key option \<Rightarrow> scheduler \<Rightarrow> py_exc + scheduler \<times> nat" where
  "next_semaphore t k sc = (case k of None \<Rightarrow> Inr (sc, sc_global sc)
     | Some key \<Rightarrow> semaphore_for (as_max_concurrency (tk_agent t)) key sc)"

text \<open>An event that is not enabled leaves the system alone.\<close>

fun sched_step :: "(json \<Rightarrow> string) \<Rightarrow> sched_event \<Rightarrow> system \<Rightarrow> system" where
  "sched_step str_of (Arrive run agent) sy =
     (case plan_admission str_of run agent (sy_sched sy) of
        Some (Inr ad) \<Rightarrow> sy\<lparr>sy_tasks := sy_tasks sy @ [\<lparr>tk_run = run, tk_agent = agent, tk_admission = ad,
            tk_plan = ad_plan ad, tk_wait = None, tk_held = [], tk_phase = Queueing\<rparr>]\<rparr>
      | _ \<Rightarrow> sy)"
| "sched_step str_of (Look i) sy =
     (if i < length (sy_tasks sy) then
        let t = sy_tasks sy ! i in
        (if tk_phase t = Queueing \<and> tk_wait t = None then
           (case tk_plan t of [] \<Rightarrow> sy
            | k # ks \<Rightarrow> (case next_semaphore t k (sy_sched sy) of
                Inl e \<Rightarrow> give_back i sy
              | Inr (sc, j) \<Rightarrow> sy\<lparr>sy_sched := sc, sy_tasks := (sy_tasks sy)[i := t\<lparr>tk_plan := ks, tk_wait := Some j\<rparr>]\<rparr>))
         else sy)
      else sy)"
| "sched_step str_of (Grab i) sy =
     (if i < length (sy_tasks sy) then
        let t = sy_tasks sy ! i in
        (case tk_wait t of
           Some j \<Rightarrow> if tk_phase t = Queueing \<and> 0 < snd (sc_objects (sy_sched sy) ! j)
             then sy\<lparr>sy_sched := take_object j (sy_sched sy),
                     sy_tasks := (sy_tasks sy)[i := t\<lparr>tk_wait := None, tk_held := j # tk_held t\<rparr>]\<rparr> else sy
         | None \<Rightarrow> sy)
      else sy)"
| "sched_step str_of (Admit i now) sy =
     (if i < length (sy_tasks sy) then
        let t = sy_tasks sy ! i in
        (if tk_phase t = Queueing \<and> tk_wait t = None \<and> tk_plan t = [] then
           sy\<lparr>sy_sched := count_running 1 t ((sy_sched sy)\<lparr>sc_holders := AList.update (ar_run_id (tk_run t)) (holder_of t) (sc_holders (sy_sched sy))\<rparr>),
              sy_tasks := (sy_tasks sy)[i := t\<lparr>tk_phase := Running\<rparr>],
              sy_logs := logs_add (admitted_log now t) (sy_logs sy)\<rparr>
         else sy)
      else sy)"
| "sched_step str_of (Finish i) sy =
     (if i < length (sy_tasks sy) \<and> tk_phase (sy_tasks sy ! i) = Running
      then give_back i (sy\<lparr>sy_sched := finish_running (sy_tasks sy ! i) (sy_sched sy)\<rparr>) else sy)"
| "sched_step str_of (Abort i) sy =
     (if i < length (sy_tasks sy) \<and> tk_phase (sy_tasks sy ! i) = Queueing then give_back i sy else sy)"
| "sched_step str_of (Reconfigure s) sy = sy\<lparr>sy_sched := fst (reconfigure_queue s (sy_sched sy))\<rparr>"

definition sched_run :: "(json \<Rightarrow> string) \<Rightarrow> sched_event list \<Rightarrow> system \<Rightarrow> system" where
  "sched_run str_of es sy = fold (sched_step str_of) es sy"

definition initial_system :: "scheduler \<Rightarrow> system" where
  "initial_system sc = \<lparr>sy_sched = sc, sy_tasks = [], sy_logs = []\<rparr>"

section \<open>The distributed path and the metrics\<close>

definition distributed_slots :: "limits \<Rightarrow> agent_run \<Rightarrow> agent_spec \<Rightarrow> admission \<Rightarrow> (string \<times> int) list" where
  "distributed_slots lm run agent ad =
     [if \<not> ad_child ad then (''scheduler:global'', lm_global lm)
      else (''scheduler:nested_children:'' @ ad_root ad, lm_children lm)]
     @ (if ad_agent_held ad then [] else [(''scheduler:agent:'' @ as_name agent, as_max_concurrency agent)])
     @ (if ad_route_held ad then [] else [(''scheduler:route_tag:'' @ ar_route_tag run,
          case map_of (lm_route_tags lm) (ar_route_tag run) of Some n \<Rightarrow> n | None \<Rightarrow> 10000)])
     @ (if ad_caller_held ad then [] else [(''scheduler:caller:'' @ ar_caller run,
          case map_of (lm_callers lm) (ar_caller run) of Some n \<Rightarrow> n | None \<Rightarrow> 10000)])"

fun with_slots ::
    "(string \<Rightarrow> 's \<Rightarrow> 's \<times> bool) \<Rightarrow> (string \<Rightarrow> 's \<Rightarrow> 's) \<Rightarrow> (string \<Rightarrow> ('s \<Rightarrow> 's) list) \<Rightarrow> (string \<times> int) list
     \<Rightarrow> ('s \<Rightarrow> 's \<times> (py_exc + 'a)) \<Rightarrow> 's \<Rightarrow> 's \<times> (py_exc + 'a)" where
  "with_slots try_acquire release waits [] body s = body s"
| "with_slots try_acquire release waits ((key, limit) # slots) body s =
     coordination_limited_slot try_acquire release key (max 1 limit) (waits key)
       (\<lambda>acquired s'. if acquired then with_slots try_acquire release waits slots body s'
          else (s', Inl (RuntimeError (''Scheduler coordination slot unavailable for '' @ key)))) s"

definition run_with_distributed_limits ::
    "(string \<Rightarrow> 's \<Rightarrow> 's \<times> bool) \<Rightarrow> (string \<Rightarrow> 's \<Rightarrow> 's) \<Rightarrow> (string \<Rightarrow> ('s \<Rightarrow> 's) list) \<Rightarrow> limits \<Rightarrow> agent_run \<Rightarrow> agent_spec
     \<Rightarrow> admission \<Rightarrow> ('s \<Rightarrow> 's \<times> (py_exc + 'a)) \<Rightarrow> 's \<Rightarrow> 's \<times> (py_exc + 'a)" where
  "run_with_distributed_limits try_acquire release waits lm run agent ad body s =
     with_slots try_acquire release waits (distributed_slots lm run agent ad) body s"

definition scheduler_metrics :: "string \<Rightarrow> string \<Rightarrow> scheduler \<Rightarrow> dict" where
  "scheduler_metrics backend scope sc =
     (let counts = (\<lambda>m. JObj (map (\<lambda>(k, n). (k, JNum (of_int n))) m)) in
      [(''global_available'', JNum (of_nat (snd (sc_objects sc ! sc_global sc)))), (''coordination_backend'', JStr backend),
       (''coordination_scope'', JStr scope), (''running_by_agent'', counts (sc_by_agent sc)),
       (''running_by_route_tag'', counts (sc_by_route_tag sc)), (''running_by_caller'', counts (sc_by_caller sc))])"

section \<open>No semaphore is over-committed\<close>

definition taken :: "nat \<Rightarrow> task list \<Rightarrow> nat" where
  "taken o' ts = sum_list (map (\<lambda>t. count_list (tk_held t) o') ts)"

definition ledger_ok :: "(nat \<times> nat) list \<Rightarrow> task list \<Rightarrow> bool" where
  "ledger_ok objs ts \<longleftrightarrow>
     (\<forall>o' < length objs. snd (objs ! o') + taken o' ts = fst (objs ! o'))
     \<and> (\<forall>t \<in> set ts. (\<forall>j \<in> set (tk_held t). j < length objs) \<and> (\<forall>j. tk_wait t = Some j \<longrightarrow> j < length objs))"

definition names_ok :: "scheduler \<Rightarrow> bool" where
  "names_ok sc \<longleftrightarrow> (\<forall>j \<in> snd ` set (sc_sems sc). j < length (sc_objects sc)) \<and> sc_global sc < length (sc_objects sc)"

definition conserved :: "system \<Rightarrow> bool" where
  "conserved sy \<longleftrightarrow> ledger_ok (sc_objects (sy_sched sy)) (sy_tasks sy) \<and> names_ok (sy_sched sy)"

lemma taken_update:
  "i < length ts \<Longrightarrow> taken o' (ts[i := t]) + count_list (tk_held (ts ! i)) o' = taken o' ts + count_list (tk_held t) o'"
proof -
  assume i: "i < length ts"
  let ?f = "\<lambda>t. count_list (tk_held t) o'"
  have "?f (ts ! i) \<le> sum_list (map ?f ts)" using i by (intro member_le_sum_list) auto
  then show ?thesis using i by (simp add: taken_def map_update sum_list_update)
qed

lemma ledger_ok_update_task:
  assumes "ledger_ok objs ts" and "i < length ts" and "tk_held t = tk_held (ts ! i)"
    and "\<forall>j. tk_wait t = Some j \<longrightarrow> j < length objs"
  shows "ledger_ok objs (ts[i := t])"
proof -
  have "taken o' (ts[i := t]) = taken o' ts" for o' using taken_update [OF assms(2), of o' t] assms(3) by simp
  moreover have "\<forall>x \<in> set (ts[i := t]). x \<in> set ts \<or> x = t" using set_update_subset_insert by fastforce
  ultimately show ?thesis using assms nth_mem [OF assms(2)] unfolding ledger_ok_def by metis
qed

lemma ledger_ok_new_object:
  assumes "ledger_ok objs ts"
  shows "ledger_ok (objs @ [(n, n)]) ts"
proof -
  have "taken (length objs) ts = 0" using assms
    by (auto simp: ledger_ok_def taken_def sum_list_eq_0_iff count_list_0_iff)
  then show ?thesis using assms by (auto simp: ledger_ok_def nth_append less_Suc_eq)
qed

lemma ledger_ok_take:
  assumes l: "ledger_ok objs ts" and i: "i < length ts" and w: "tk_wait (ts ! i) = Some j" and v: "0 < snd (objs ! j)"
  shows "ledger_ok (objs[j := (fst (objs ! j), snd (objs ! j) - 1)]) (ts[i := (ts ! i)\<lparr>tk_wait := None, tk_held := j # tk_held (ts ! i)\<rparr>])"
proof -
  let ?t = "(ts ! i)\<lparr>tk_wait := None, tk_held := j # tk_held (ts ! i)\<rparr>"
  have ti: "ts ! i \<in> set ts" using i by simp
  have j: "j < length objs" using l w ti by (auto simp: ledger_ok_def)
  have t: "taken o' (ts[i := ?t]) = taken o' ts + (if o' = j then 1 else 0)" for o'
    using taken_update [OF i, of o' ?t] by auto
  have old: "\<forall>x \<in> set ts. (\<forall>j \<in> set (tk_held x). j < length objs) \<and> (\<forall>j. tk_wait x = Some j \<longrightarrow> j < length objs)"
    using l by (simp add: ledger_ok_def)
  have "\<forall>x \<in> set (ts[i := ?t]). x \<in> set ts \<or> x = ?t" using set_update_subset_insert by fastforce
  moreover have "(\<forall>j \<in> set (tk_held ?t). j < length objs) \<and> (\<forall>j. tk_wait ?t = Some j \<longrightarrow> j < length objs)"
    using old ti j by simp
  ultimately have "\<forall>x \<in> set (ts[i := ?t]). (\<forall>j \<in> set (tk_held x). j < length objs) \<and> (\<forall>j. tk_wait x = Some j \<longrightarrow> j < length objs)"
    using old by metis
  moreover have "snd (objs ! o') + taken o' ts = fst (objs ! o')" if "o' < length objs" for o'
    using l that by (simp add: ledger_ok_def)
  moreover have "0 < fst (objs ! j)" using calculation(2) [OF j] v by linarith
  ultimately show ?thesis using j v unfolding ledger_ok_def t by (force simp: nth_list_update)
qed

lemma release_objects:
  "\<forall>j \<in> set js. j < length (sc_objects sc) \<Longrightarrow>
   length (sc_objects (fold release_object js sc)) = length (sc_objects sc)
   \<and> (\<forall>o' < length (sc_objects sc). fst (sc_objects (fold release_object js sc) ! o') = fst (sc_objects sc ! o')
        \<and> snd (sc_objects (fold release_object js sc) ! o') = snd (sc_objects sc ! o') + count_list js o')
   \<and> sc_sems (fold release_object js sc) = sc_sems sc \<and> sc_global (fold release_object js sc) = sc_global sc
   \<and> sc_holders (fold release_object js sc) = sc_holders sc"
proof (induction js arbitrary: sc)
  case (Cons j js)
  then show ?case by (simp add: release_object_def nth_list_update)
qed simp

lemma conserved_give_back:
  assumes c: "conserved sy" and i: "i < length (sy_tasks sy)"
  shows "conserved (give_back i sy)"
proof -
  let ?sc = "sy_sched sy" and ?ts = "sy_tasks sy"
  let ?js = "tk_held (?ts ! i)"
  have ti: "?ts ! i \<in> set ?ts" using i by simp
  have l: "ledger_ok (sc_objects ?sc) ?ts" using c by (simp add: conserved_def)
  then have js: "\<forall>j \<in> set ?js. j < length (sc_objects ?sc)" using ti by (simp add: ledger_ok_def)
  note r = release_objects [OF js]
  have t: "taken o' (?ts[i := gone (?ts ! i)]) + count_list ?js o' = taken o' ?ts" for o'
    using taken_update [OF i, of o' "gone (?ts ! i)"] by (simp add: gone_def)
  have "\<forall>x \<in> set (?ts[i := gone (?ts ! i)]). x \<in> set ?ts \<or> x = gone (?ts ! i)" using set_update_subset_insert by fastforce
  moreover have "snd (sc_objects (fold release_object ?js ?sc) ! o') + taken o' (?ts[i := gone (?ts ! i)])
      = fst (sc_objects (fold release_object ?js ?sc) ! o')" if o': "o' < length (sc_objects ?sc)" for o'
  proof -
    have "snd (sc_objects ?sc ! o') + taken o' ?ts = fst (sc_objects ?sc ! o')" using l o' by (simp add: ledger_ok_def)
    moreover have "fst (sc_objects (fold release_object ?js ?sc) ! o') = fst (sc_objects ?sc ! o')"
      "snd (sc_objects (fold release_object ?js ?sc) ! o') = snd (sc_objects ?sc ! o') + count_list ?js o'" using r o' by blast+
    ultimately show ?thesis using t [of o'] by linarith
  qed
  ultimately have "ledger_ok (sc_objects (fold release_object ?js ?sc)) (?ts[i := gone (?ts ! i)])"
    using l r unfolding ledger_ok_def by (auto simp: gone_def)
  then show ?thesis using c r by (simp add: conserved_def give_back_def names_ok_def)
qed

lemma semaphore_for_ok:
  assumes "semaphore_for n k sc = Inr (sc', j)" and "names_ok sc"
  shows "names_ok sc' \<and> j < length (sc_objects sc') \<and> sc_holders sc' = sc_holders sc \<and> sc_global sc' = sc_global sc
     \<and> (sc_objects sc' = sc_objects sc \<or> (\<exists>m. sc_objects sc' = sc_objects sc @ [(m, m)]))"
proof (cases "map_of (sc_sems sc) k")
  case None
  with assms show ?thesis by (fastforce simp: semaphore_for_def new_semaphore_def names_ok_def split: if_splits intro: less_SucI)
next
  case (Some i)
  then have "i \<in> snd ` set (sc_sems sc)" by (force dest: map_of_SomeD)
  with Some assms show ?thesis by (auto simp: semaphore_for_def new_semaphore_def names_ok_def split: if_splits)
qed

lemma next_semaphore_conserved:
  assumes c: "conserved sy" and n: "next_semaphore t k (sy_sched sy) = Inr (sc, j)"
  shows "ledger_ok (sc_objects sc) (sy_tasks sy) \<and> names_ok sc \<and> j < length (sc_objects sc)"
proof (cases k)
  case None
  then show ?thesis using c n by (auto simp: next_semaphore_def conserved_def names_ok_def)
next
  case (Some key)
  then have "semaphore_for (as_max_concurrency (tk_agent t)) key (sy_sched sy) = Inr (sc, j)"
    using n by (simp add: next_semaphore_def)
  from semaphore_for_ok [OF this] c show ?thesis
    by (auto simp: conserved_def intro: ledger_ok_new_object)
qed

lemma finish_running_objects [simp]: "sc_objects (finish_running t sc) = sc_objects sc"
  "sc_global (finish_running t sc) = sc_global sc" "sc_limits (finish_running t sc) = sc_limits sc"
  by (simp_all add: finish_running_def drop_lanes_def count_running_def Let_def)

lemma finish_running_sems: "set (sc_sems (finish_running t sc)) \<subseteq> set (sc_sems sc)"
  by (auto simp: finish_running_def drop_lanes_def count_running_def Let_def AList.delete_eq)

lemma reconfigure_queue_conserved:
  assumes "conserved sy"
  shows "conserved (sy\<lparr>sy_sched := fst (reconfigure_queue s (sy_sched sy))\<rparr>)"
proof -
  have n: "names_ok (sy_sched sy)" and l: "ledger_ok (sc_objects (sy_sched sy)) (sy_tasks sy)"
    using assms by (simp_all add: conserved_def)
  have "names_ok (fst (reconfigure_queue s (sy_sched sy)))"
    using n by (fastforce simp: reconfigure_queue_def new_semaphore_def names_ok_def intro: less_SucI split: sum.split)
  moreover have "ledger_ok (sc_objects (fst (reconfigure_queue s (sy_sched sy)))) (sy_tasks sy)"
    using l ledger_ok_new_object [OF l] by (auto simp: reconfigure_queue_def new_semaphore_def split: sum.split)
  ultimately show ?thesis by (simp add: conserved_def)
qed

lemma sched_step_conserved:
  assumes c: "conserved sy"
  shows "conserved (sched_step str_of e sy)"
proof (cases e)
  case (Arrive run agent)
  have "ledger_ok objs ts \<Longrightarrow> tk_held t = [] \<Longrightarrow> tk_wait t = None \<Longrightarrow> ledger_ok objs (ts @ [t])" for objs ts t
    by (auto simp: ledger_ok_def taken_def)
  then show ?thesis using c Arrive by (auto simp: conserved_def split: option.split sum.split)
next
  case (Look i)
  show ?thesis
  proof (cases "\<exists>k ks sc j. i < length (sy_tasks sy) \<and> tk_plan (sy_tasks sy ! i) = k # ks
      \<and> tk_phase (sy_tasks sy ! i) = Queueing \<and> tk_wait (sy_tasks sy ! i) = None
      \<and> next_semaphore (sy_tasks sy ! i) k (sy_sched sy) = Inr (sc, j)")
    case True
    then obtain k ks sc j where i: "i < length (sy_tasks sy)" "tk_plan (sy_tasks sy ! i) = k # ks"
      "tk_phase (sy_tasks sy ! i) = Queueing" "tk_wait (sy_tasks sy ! i) = None"
      and n: "next_semaphore (sy_tasks sy ! i) k (sy_sched sy) = Inr (sc, j)" by blast
    from next_semaphore_conserved [OF c n] show ?thesis using Look i n
      by (auto simp: conserved_def Let_def intro!: ledger_ok_update_task)
  next
    case False
    then show ?thesis using c Look conserved_give_back [OF c]
      by (auto simp: Let_def split: list.split sum.split)
  qed
next
  case (Grab i)
  show ?thesis
  proof (cases "\<exists>j. i < length (sy_tasks sy) \<and> tk_wait (sy_tasks sy ! i) = Some j
      \<and> tk_phase (sy_tasks sy ! i) = Queueing \<and> 0 < snd (sc_objects (sy_sched sy) ! j)")
    case True
    then obtain j where i: "i < length (sy_tasks sy)" "tk_wait (sy_tasks sy ! i) = Some j"
      "tk_phase (sy_tasks sy ! i) = Queueing" "0 < snd (sc_objects (sy_sched sy) ! j)" by blast
    have "ledger_ok (sc_objects (sy_sched sy)) (sy_tasks sy)" using c by (simp add: conserved_def)
    from ledger_ok_take [OF this i(1,2,4)] c i Grab show ?thesis
      by (simp add: conserved_def Let_def take_object_def names_ok_def)
  next
    case False
    then show ?thesis using c Grab by (auto simp: Let_def split: option.split)
  qed
next
  case (Admit i now)
  then show ?thesis using c
    by (auto simp: conserved_def Let_def count_running_def names_ok_def intro!: ledger_ok_update_task)
next
  case (Finish i)
  have "conserved (sy\<lparr>sy_sched := finish_running t (sy_sched sy)\<rparr>)" for t
    using c finish_running_sems [of t "sy_sched sy"] by (fastforce simp: conserved_def names_ok_def)
  then show ?thesis using c Finish by (simp add: conserved_give_back)
next
  case (Abort i)
  then show ?thesis using c by (simp add: conserved_give_back)
next
  case (Reconfigure s)
  then show ?thesis using reconfigure_queue_conserved [OF c] by simp
qed

lemma sched_run_conserved: "conserved sy \<Longrightarrow> conserved (sched_run str_of es sy)"
  unfolding sched_run_def by (induction es arbitrary: sy) (auto simp: sched_step_conserved)

lemma initial_system_conserved: "new_scheduler lm = Inr sc \<Longrightarrow> conserved (initial_system sc)"
  by (auto simp: new_scheduler_def new_semaphore_def conserved_def ledger_ok_def names_ok_def initial_system_def
        taken_def split: if_splits)

section \<open>The configured limits bound the running runs\<close>

definition sem_object :: "sem_key option \<Rightarrow> scheduler \<Rightarrow> nat option" where
  "sem_object k sc = (case k of None \<Rightarrow> Some (sc_global sc) | Some key \<Rightarrow> map_of (sc_sems sc) key)"

definition slot_limit :: "limits \<Rightarrow> int \<Rightarrow> sem_key option \<Rightarrow> int" where
  "slot_limit lm n k = (case k of None \<Rightarrow> lm_global lm | Some key \<Rightarrow> sem_limit lm n key)"

definition durable :: "sem_key option \<Rightarrow> bool" where
  "durable k = (case k of None \<Rightarrow> True | Some (NestedSem _) \<Rightarrow> False | Some (LaneSem _ _) \<Rightarrow> False | Some _ \<Rightarrow> True)"

text \<open>Events under which a limit is one number: no reconfiguration (except for agents, whose
  semaphores it leaves alone), and one specification per agent.\<close>

definition keeps_limit :: "sem_key option \<Rightarrow> int \<Rightarrow> sched_event \<Rightarrow> bool" where
  "keeps_limit k n e = (case e of
       Reconfigure _ \<Rightarrow> (\<exists>a. k = Some (AgentSem a))
     | Arrive _ agent \<Rightarrow> (k = Some (AgentSem (as_name agent)) \<longrightarrow> as_max_concurrency agent = n)
     | _ \<Rightarrow> True)"

definition wants :: "sem_key option \<Rightarrow> task \<Rightarrow> bool" where
  "wants k t \<longleftrightarrow> k \<in> set (ad_plan (tk_admission t))"

definition slotted :: "sem_key option \<Rightarrow> int \<Rightarrow> nat option \<Rightarrow> task \<Rightarrow> bool" where
  "slotted k n g t \<longleftrightarrow> (tk_phase t = Running \<longrightarrow> tk_plan t = [] \<and> tk_wait t = None)
     \<and> (wants k t \<longrightarrow> tk_phase t = Gone \<or> k \<in> set (tk_plan t) \<or> (\<exists>i. g = Some i \<and> (tk_wait t = Some i \<or> i \<in> set (tk_held t))))
     \<and> set (tk_plan t) \<subseteq> set (ad_plan (tk_admission t))
     \<and> (\<forall>a. Some (AgentSem a) \<in> set (ad_plan (tk_admission t)) \<longrightarrow> as_name (tk_agent t) = a)
     \<and> (k = Some (AgentSem (as_name (tk_agent t))) \<longrightarrow> as_max_concurrency (tk_agent t) = n)"

definition slot_inv :: "limits \<Rightarrow> sem_key option \<Rightarrow> int \<Rightarrow> system \<Rightarrow> bool" where
  "slot_inv lm k n sy \<longleftrightarrow>
     (\<forall>t \<in> set (sy_tasks sy). slotted k n (sem_object k (sy_sched sy)) t)
     \<and> (\<forall>g. sem_object k (sy_sched sy) = Some g \<longrightarrow> fst (sc_objects (sy_sched sy) ! g) = nat (slot_limit lm n k))
     \<and> ((\<exists>a. k = Some (AgentSem a)) \<or> sc_limits (sy_sched sy) = lm)"

lemma plan_admission_agent:
  assumes "plan_admission str_of run agent sc = Some (Inr ad)"
  shows "Some (AgentSem a) \<in> set (ad_plan ad) \<Longrightarrow> as_name agent = a"
    and "None \<in> set (ad_plan ad) \<longleftrightarrow> \<not> ad_child ad"
  using assms by (auto simp: plan_admission_def Let_def split: sum.splits if_splits option.splits)

lemma slotted_gone: "slotted k n g t \<Longrightarrow> slotted k n g' (gone t)"
  by (auto simp: slotted_def gone_def wants_def)

lemma slotted_mono: "slotted k n g t \<Longrightarrow> (\<And>i. g = Some i \<Longrightarrow> g' = Some i) \<Longrightarrow> slotted k n g' t"
  by (fastforce simp: slotted_def)

lemma set_list_update_ball: "\<forall>x \<in> set xs. P x \<Longrightarrow> P y \<Longrightarrow> \<forall>x \<in> set (xs[i := y]). P x"
  using set_update_subset_insert by fastforce

lemma resolve_bound: "names_ok sc \<Longrightarrow> sem_object k sc = Some i \<Longrightarrow> i < length (sc_objects sc)"
  by (auto simp: sem_object_def names_ok_def dest!: map_of_SomeD split: option.splits)

lemma next_semaphore_resolve:
  assumes s: "next_semaphore t k' sc = Inr (sc', j)" and n: "names_ok sc"
  shows "sem_object k' sc' = Some j"
    and "sem_object k sc = Some i \<Longrightarrow> sem_object k sc' = Some i \<and> sc_objects sc' ! i = sc_objects sc ! i"
    and "sc_limits sc' = sc_limits sc"
    and "sem_object k sc = None \<Longrightarrow> sem_object k sc' = Some i \<Longrightarrow>
      k' = k \<and> fst (sc_objects sc' ! i) = nat (slot_limit (sc_limits sc) (as_max_concurrency (tk_agent t)) k)"
  using s resolve_bound [OF n, of k i]
  by (auto simp: next_semaphore_def semaphore_for_def new_semaphore_def sem_object_def slot_limit_def nth_append map_add_def
      split: option.splits if_splits)

lemma drop_lanes_resolve: "durable k \<Longrightarrow> sem_object k (drop_lanes r sc) = sem_object k sc"
proof -
  have f: "P key \<Longrightarrow> map_of (filter (\<lambda>(k, _). P k) xs) key = map_of xs key" for P key and xs :: "(sem_key \<times> nat) list"
    by (induction xs) auto
  assume "durable k"
  then show ?thesis
    by (auto simp: durable_def sem_object_def drop_lanes_def f split: option.splits sem_key.splits)
qed

lemma finish_running_resolve: "durable k \<Longrightarrow> sem_object k (finish_running t sc) = sem_object k sc"
proof -
  assume d: "durable k"
  have "sem_object k (count_running n t sc) = sem_object k sc" "sem_object k (sc\<lparr>sc_holders := hs\<rparr>) = sem_object k sc" for n hs sc
    by (simp_all add: sem_object_def count_running_def split: option.split)
  moreover have "sem_object k (sc\<lparr>sc_sems := AList.delete (NestedSem r) (sc_sems sc)\<rparr>) = sem_object k sc" for r sc
    using d by (auto simp: durable_def sem_object_def AList.delete_conv' split: option.splits)
  ultimately show ?thesis by (simp add: finish_running_def Let_def drop_lanes_resolve [OF d])
qed

lemma reconfigure_queue_agent:
  assumes "names_ok sc"
  shows "sem_object (Some (AgentSem a)) (fst (reconfigure_queue s sc)) = sem_object (Some (AgentSem a)) sc"
    and "sem_object (Some (AgentSem a)) sc = Some g \<Longrightarrow> sc_objects (fst (reconfigure_queue s sc)) ! g = sc_objects sc ! g"
proof -
  have f: "map_of (filter (\<lambda>(k, _). is_agent_sem k) xs) (AgentSem a) = map_of xs (AgentSem a)" for xs :: "(sem_key \<times> nat) list"
    by (induction xs) (auto simp: is_agent_sem_def)
  show "sem_object (Some (AgentSem a)) (fst (reconfigure_queue s sc)) = sem_object (Some (AgentSem a)) sc"
    by (auto simp: reconfigure_queue_def new_semaphore_def sem_object_def f split: sum.split)
  show "sem_object (Some (AgentSem a)) sc = Some g \<Longrightarrow> sc_objects (fst (reconfigure_queue s sc)) ! g = sc_objects sc ! g"
    using resolve_bound [OF assms, of "Some (AgentSem a)" g]
    by (auto simp: reconfigure_queue_def new_semaphore_def nth_append split: sum.split)
qed

lemma slot_inv_give_back:
  assumes inv: "slot_inv lm k n sy" and c: "conserved sy" and i: "i < length (sy_tasks sy)"
  shows "slot_inv lm k n (give_back i sy)"
proof -
  let ?js = "tk_held (sy_tasks sy ! i)"
  have ti: "sy_tasks sy ! i \<in> set (sy_tasks sy)" using i by simp
  then have js: "\<forall>j \<in> set ?js. j < length (sc_objects (sy_sched sy))" using c by (simp add: conserved_def ledger_ok_def)
  note r = release_objects [OF js]
  have lim: "sc_limits (fold release_object js sc) = sc_limits sc" for js sc
    by (induction js arbitrary: sc) (auto simp: release_object_def)
  have re: "sem_object k (fold release_object ?js (sy_sched sy)) = sem_object k (sy_sched sy)" using r by (auto simp: sem_object_def split: option.split)
  have b: "sem_object k (sy_sched sy) = Some g \<Longrightarrow> g < length (sc_objects (sy_sched sy))" for g
    using c by (auto simp: conserved_def intro: resolve_bound)
  have "\<forall>t \<in> set ((sy_tasks sy)[i := gone (sy_tasks sy ! i)]). slotted k n (sem_object k (sy_sched sy)) t"
    using inv ti by (intro set_list_update_ball) (auto simp: slot_inv_def intro: slotted_gone)
  then show ?thesis using inv r b lim [of ?js "sy_sched sy"] by (simp add: slot_inv_def give_back_def re)
qed

lemma slot_inv_look:
  assumes inv: "slot_inv lm k n sy" and c: "conserved sy"
  shows "slot_inv lm k n (sched_step str_of (Look i) sy)"
proof (cases "\<exists>k' ks sc j. i < length (sy_tasks sy) \<and> tk_plan (sy_tasks sy ! i) = k' # ks
      \<and> tk_phase (sy_tasks sy ! i) = Queueing \<and> tk_wait (sy_tasks sy ! i) = None
      \<and> next_semaphore (sy_tasks sy ! i) k' (sy_sched sy) = Inr (sc, j)")
  case True
  then obtain k' ks sc j where i: "i < length (sy_tasks sy)" "tk_plan (sy_tasks sy ! i) = k' # ks"
    "tk_phase (sy_tasks sy ! i) = Queueing" "tk_wait (sy_tasks sy ! i) = None"
    and s: "next_semaphore (sy_tasks sy ! i) k' (sy_sched sy) = Inr (sc, j)" by blast
  let ?t = "sy_tasks sy ! i"
  have no: "names_ok (sy_sched sy)" using c by (simp add: conserved_def)
  note r = next_semaphore_resolve [OF s no]
  have st: "slotted k n (sem_object k (sy_sched sy)) ?t" using inv i by (simp add: slot_inv_def)
  have agree: "sc_limits (sy_sched sy) = lm \<or> (\<exists>a. k = Some (AgentSem a))" using inv by (auto simp: slot_inv_def)
  have "fst (sc_objects sc ! g) = nat (slot_limit lm n k)" if g: "sem_object k sc = Some g" for g
  proof (cases "sem_object k (sy_sched sy)")
    case None
    from r(4) [OF None g] have k: "k' = k"
      and v: "fst (sc_objects sc ! g) = nat (slot_limit (sc_limits (sy_sched sy)) (as_max_concurrency (tk_agent ?t)) k)" by auto
    have "\<forall>a. k = Some (AgentSem a) \<longrightarrow> as_max_concurrency (tk_agent ?t) = n" using st i k by (auto simp: slotted_def)
    then show ?thesis using agree v by (auto simp: slot_limit_def sem_limit_def split: option.splits sem_key.splits)
  next
    case (Some h)
    then show ?thesis using r(2) [OF Some] g inv by (auto simp: slot_inv_def)
  qed
  moreover have "slotted k n (sem_object k sc) (?t\<lparr>tk_plan := ks, tk_wait := Some j\<rparr>)"
  proof -
    have "slotted k n (sem_object k sc) ?t" by (rule slotted_mono [OF st]) (simp add: r(2))
    then show ?thesis using i r(1) by (auto simp: slotted_def wants_def)
  qed
  moreover have "\<forall>t \<in> set (sy_tasks sy). slotted k n (sem_object k sc) t"
    using inv r(2) by (fastforce simp: slot_inv_def intro: slotted_mono)
  ultimately have "\<forall>g. sem_object k sc = Some g \<longrightarrow> fst (sc_objects sc ! g) = nat (slot_limit lm n k)"
    "\<forall>t \<in> set ((sy_tasks sy)[i := ?t\<lparr>tk_plan := ks, tk_wait := Some j\<rparr>]). slotted k n (sem_object k sc) t"
    by (simp, intro set_list_update_ball)
  then have "slot_inv lm k n (sy\<lparr>sy_sched := sc, sy_tasks := (sy_tasks sy)[i := ?t\<lparr>tk_plan := ks, tk_wait := Some j\<rparr>]\<rparr>)"
    using agree r(3) by (auto simp: slot_inv_def)
  then show ?thesis using i s by (simp add: Let_def)
next
  case False
  then show ?thesis using inv slot_inv_give_back [OF inv c]
    by (auto simp: Let_def split: list.split sum.split)
qed

lemma slot_inv_logs [simp]: "slot_inv lm k n (sy\<lparr>sy_logs := l\<rparr>) = slot_inv lm k n sy"
  by (simp add: slot_inv_def)

lemma slot_inv_same:
  assumes "slot_inv lm k n sy" and "sem_object k sc = sem_object k (sy_sched sy)" and "sc_limits sc = sc_limits (sy_sched sy)"
    and "\<And>g. fst (sc_objects sc ! g) = fst (sc_objects (sy_sched sy) ! g)"
    and t: "slotted k n (sem_object k (sy_sched sy)) t"
  shows "slot_inv lm k n (sy\<lparr>sy_sched := sc, sy_tasks := (sy_tasks sy)[i := t]\<rparr>)"
proof -
  have "\<forall>t \<in> set ((sy_tasks sy)[i := t]). slotted k n (sem_object k (sy_sched sy)) t"
    using assms(1) t by (intro set_list_update_ball) (simp_all add: slot_inv_def)
  then show ?thesis using assms by (simp add: slot_inv_def)
qed

lemma slot_inv_step:
  assumes inv: "slot_inv lm k n sy" and c: "conserved sy" and d: "durable k" and kl: "keeps_limit k n e"
  shows "slot_inv lm k n (sched_step str_of e sy)"
proof (cases e)
  case (Arrive run agent)
  have "slotted k n g \<lparr>tk_run = run, tk_agent = agent, tk_admission = ad, tk_plan = ad_plan ad, tk_wait = None, tk_held = [], tk_phase = Queueing\<rparr>"
    if "plan_admission str_of run agent (sy_sched sy) = Some (Inr ad)" for ad g
    using plan_admission_agent(1) [OF that] kl Arrive by (auto simp: slotted_def wants_def keeps_limit_def)
  then show ?thesis using inv Arrive by (auto simp: slot_inv_def split: option.split sum.split)
next
  case (Look i)
  then show ?thesis using slot_inv_look [OF inv c] by simp
next
  case (Grab i)
  have "slotted k n g (t\<lparr>tk_wait := None, tk_held := j # tk_held t\<rparr>)" if "slotted k n g t" "tk_wait t = Some j" for g t j
    using that by (auto simp: slotted_def wants_def)
  then have "slotted k n (sem_object k (sy_sched sy)) ((sy_tasks sy ! i)\<lparr>tk_wait := None, tk_held := j # tk_held (sy_tasks sy ! i)\<rparr>)"
    if "i < length (sy_tasks sy)" "tk_wait (sy_tasks sy ! i) = Some j" for j using inv that by (simp add: slot_inv_def)
  moreover have "fst (sc_objects (take_object j sc) ! g) = fst (sc_objects sc ! g)" for j g sc
    by (cases "j < length (sc_objects sc)") (auto simp: take_object_def nth_list_update list_update_beyond not_less)
  moreover have "sem_object k (take_object j sc) = sem_object k sc" "sc_limits (take_object j sc) = sc_limits sc" for j sc
    by (auto simp: sem_object_def take_object_def split: option.split)
  ultimately show ?thesis using inv Grab by (auto simp: Let_def intro!: slot_inv_same split: option.split)
next
  case (Admit i now)
  have "slotted k n g (t\<lparr>tk_phase := Running\<rparr>)" if "slotted k n g t" "tk_phase t = Queueing" "tk_wait t = None" "tk_plan t = []" for g t
    using that by (auto simp: slotted_def wants_def)
  then have "slotted k n (sem_object k (sy_sched sy)) ((sy_tasks sy ! i)\<lparr>tk_phase := Running\<rparr>)"
    if "i < length (sy_tasks sy)" "tk_phase (sy_tasks sy ! i) = Queueing" "tk_wait (sy_tasks sy ! i) = None" "tk_plan (sy_tasks sy ! i) = []" using inv that by (simp add: slot_inv_def)
  moreover have "sem_object k (count_running m t (sc\<lparr>sc_holders := hs\<rparr>)) = sem_object k sc"
    "sc_objects (count_running m t (sc\<lparr>sc_holders := hs\<rparr>)) = sc_objects sc"
    "sc_limits (count_running m t (sc\<lparr>sc_holders := hs\<rparr>)) = sc_limits sc" for m t sc hs
    by (auto simp: sem_object_def count_running_def split: option.split)
  ultimately show ?thesis using inv Admit by (auto simp: Let_def intro!: slot_inv_same)
next
  case (Finish i)
  have "slot_inv lm k n (sy\<lparr>sy_sched := finish_running t (sy_sched sy)\<rparr>)" for t
    using inv by (simp add: slot_inv_def finish_running_resolve [OF d])
  moreover have "conserved (sy\<lparr>sy_sched := finish_running t (sy_sched sy)\<rparr>)" for t
    using c finish_running_sems [of t "sy_sched sy"] by (fastforce simp: conserved_def names_ok_def)
  ultimately show ?thesis using inv Finish by (simp add: slot_inv_give_back)
next
  case (Abort i)
  then show ?thesis using inv c by (simp add: slot_inv_give_back)
next
  case (Reconfigure s)
  then obtain a where k: "k = Some (AgentSem a)" using kl by (auto simp: keeps_limit_def)
  have "names_ok (sy_sched sy)" using c by (simp add: conserved_def)
  from reconfigure_queue_agent(1) [OF this, of a s] reconfigure_queue_agent(2) [OF this, of a _ s] show ?thesis using inv Reconfigure k by (simp add: slot_inv_def)
qed

lemma slot_inv_run:
  assumes "slot_inv lm k n sy" and "conserved sy" and "durable k" and "\<forall>e \<in> set es. keeps_limit k n e"
  shows "slot_inv lm k n (sched_run str_of es sy)"
  using assms unfolding sched_run_def
  by (induction es arbitrary: sy) (auto simp: slot_inv_step sched_step_conserved)

lemma slot_inv_initial: "new_scheduler lm = Inr sc \<Longrightarrow> slot_inv lm k n (initial_system sc)"
  by (auto simp: new_scheduler_def new_semaphore_def slot_inv_def initial_system_def sem_object_def slot_limit_def
      split: if_splits option.splits)

lemma holders_le_taken:
  "\<forall>t \<in> set ts. P t \<longrightarrow> g \<in> set (tk_held t) \<Longrightarrow> length (filter P ts) \<le> taken g ts"
proof (induction ts)
  case (Cons t ts)
  have "P t \<Longrightarrow> 0 < count_list (tk_held t) g" using Cons.prems by (simp add: count_list_0_iff flip: neq0_conv)
  then show ?case using Cons by (auto simp: taken_def)
qed (simp add: taken_def)


text \<open>The events of one root run that is admitted without waiting.\<close>

definition pass_through :: "nat \<Rightarrow> agent_run \<Rightarrow> agent_spec \<Rightarrow> sched_event list" where
  "pass_through i run agent = [Arrive run agent, Look i, Grab i, Look i, Grab i, Look i, Grab i, Look i, Grab i, Admit i 0]"

definition sample_limits :: "int \<Rightarrow> limits" where
  "sample_limits n = \<lparr>lm_global = n, lm_route_tags = [], lm_callers = [], lm_nested_depth = 3, lm_children = 5\<rparr>"

definition sample_scheduler :: "int \<Rightarrow> scheduler" where
  "sample_scheduler n = \<lparr>sc_limits = sample_limits n, sc_global = 0, sc_sems = [], sc_objects = [(nat n, nat n)], sc_holders = [],
     sc_by_agent = [], sc_by_route_tag = [], sc_by_caller = []\<rparr>"

definition root_run :: "string \<Rightarrow> agent_run" where
  "root_run i = new_agent_run i ''t'' 0 ''demo'' ''ops'' i"

lemma plan_admission_root:
  "ar_metadata run = [] \<Longrightarrow> 0 \<le> lm_nested_depth (sc_limits sc) \<Longrightarrow>
   plan_admission str_of run agent sc = Some (Inr \<lparr>ad_child = False, ad_root = ar_run_id run, ad_agent_held = False,
     ad_route_held = False, ad_caller_held = False,
     ad_plan = [None, Some (AgentSem (as_name agent)), Some (RouteSem (ar_route_tag run)), Some (CallerSem (ar_caller run))]\<rparr>)"
  by (simp add: plan_admission_def depth_of_def root_of_def find_ancestor_def)

lemmas sched_eval = sched_run_def initial_system_def pass_through_def sample_scheduler_def sample_limits_def plan_admission_root
  next_semaphore_def semaphore_for_def new_semaphore_def sem_limit_def take_object_def count_running_def give_back_def gone_def
  finish_running_def drop_lanes_def release_object_def bump_def holder_of_def Let_def wants_def nth_append


definition overlap_events :: "agent_run \<Rightarrow> agent_run \<Rightarrow> agent_run \<Rightarrow> agent_spec \<Rightarrow> agent_spec \<Rightarrow> sched_event list" where
  "overlap_events r0 r1 r2 a b = pass_through 0 r0 a @ [Arrive r1 a, Look 1, Grab 1, Look 1, Finish 0,
     Reconfigure \<lparr>qs_global = Some (JNum 1), qs_route_tags = None, qs_callers = None, qs_depth = None, qs_children = None\<rparr>,
     Grab 1, Look 1, Grab 1, Look 1, Grab 1, Admit 1 0] @ pass_through 2 r2 b"

lemma limits_of_global:
  "limits_of \<lparr>qs_global = Some (JNum (of_int n)), qs_route_tags = None, qs_callers = None, qs_depth = None, qs_children = None\<rparr>
     = Inr (sample_limits n)"
  by (simp add: limits_of_def setting_int_def trunc_rat_def sample_limits_def)

text \<open>
  \<^verbatim>\<open>reconfigure\<close> asks whether a run is registered as a holder, but a run registers only after its
  last semaphore. A run that has its global slot and is still queueing for its agent does not
  count: with a limit of 2, the second run waits for the agent of the first; when the first
  ends, the reconfiguration to a limit of 1 succeeds; then the second run goes on with the slot
  of the old semaphore, a third one takes the only new slot, and two root runs execute.
\<close>

theorem reconfigure_overcommits:
  assumes "ar_run_id r0 \<noteq> []" "ar_metadata r0 = []" "ar_metadata r1 = []" "ar_metadata r2 = []" "as_max_concurrency a = 1" "as_max_concurrency b = 1"
    "as_name a \<noteq> as_name b" "ar_route_tag r1 = ar_route_tag r0" "ar_route_tag r2 = ar_route_tag r0" "ar_caller r1 = ar_caller r0"
    "ar_caller r2 = ar_caller r0"
  shows "let sy = sched_run str_of (overlap_events r0 r1 r2 a b) (initial_system (sample_scheduler 2))
    in lm_global (sc_limits (sy_sched sy)) = 1 \<and> length (filter (\<lambda>t. tk_phase t = Running \<and> wants None t) (sy_tasks sy)) = 2"
  using assms by (simp add: sched_eval overlap_events_def reconfigure_queue_def limits_of_global [of 1, simplified] is_agent_sem_def)

theorem reconfigure_overcommits_witness:
  "let sy = sched_run (\<lambda>_. []) (overlap_events (root_run ''r0'') (root_run ''r1'') (root_run ''r2'')
       ((demo_agent ''a'' ''1'' [''demo''])\<lparr>as_max_concurrency := 1\<rparr>) ((demo_agent ''b'' ''1'' [''demo''])\<lparr>as_max_concurrency := 1\<rparr>))
       (initial_system (sample_scheduler 2))
   in lm_global (sc_limits (sy_sched sy)) = 1 \<and> length (filter (\<lambda>t. tk_phase t = Running \<and> wants None t) (sy_tasks sy)) = 2"
  by (rule reconfigure_overcommits) (simp_all add: root_run_def new_agent_run_def)

section \<open>The ancestor loop ends\<close>

lemma ancestors_terminate:
  fixes rank :: "string \<Rightarrow> nat"
  assumes rank: "\<And>p h q. map_of hs p = Some h \<Longrightarrow> ho_parent h = Some (JStr q) \<Longrightarrow> map_of hs q \<noteq> None \<Longrightarrow> rank q < rank p"
    and "\<And>p. j = Some (JStr p) \<Longrightarrow> map_of hs p \<noteq> None \<Longrightarrow> card {q \<in> dom (map_of hs). rank q \<le> rank p} \<le> fuel"
  shows "ancestors fuel j hs \<noteq> None"
  using assms(2)
proof (induction fuel arbitrary: j)
  case 0
  have "p \<in> dom (map_of hs) \<Longrightarrow> 0 < card {q \<in> dom (map_of hs). rank q \<le> rank p}" for p
    by (subst card_gt_0_iff) (auto simp: finite_dom_map_of)
  then have "j = Some (JStr p) \<Longrightarrow> map_of hs p = None" for p using 0 [of p] by fastforce
  then show ?case by (cases j) (auto split: json.split option.split)
next
  case (Suc n)
  have less: "card {q \<in> dom (map_of hs). rank q \<le> rank q'} < card {q \<in> dom (map_of hs). rank q \<le> rank p}"
    if "p \<in> dom (map_of hs)" "rank q' < rank p" for p q'
  proof (rule psubset_card_mono)
    have "p \<in> {q \<in> dom (map_of hs). rank q \<le> rank p} - {q \<in> dom (map_of hs). rank q \<le> rank q'}" using that by simp
    moreover have "{q \<in> dom (map_of hs). rank q \<le> rank q'} \<subseteq> {q \<in> dom (map_of hs). rank q \<le> rank p}" using that by auto
    ultimately show "{q \<in> dom (map_of hs). rank q \<le> rank q'} \<subset> {q \<in> dom (map_of hs). rank q \<le> rank p}" by blast
  qed (simp add: finite_dom_map_of)
  have "ancestors n (ho_parent h) hs \<noteq> None" if "j = Some (JStr p)" "map_of hs p = Some h" for p h
  proof (rule Suc.IH)
    fix q assume "ho_parent h = Some (JStr q)" "map_of hs q \<noteq> None"
    then have "rank q < rank p" using rank that by blast
    then show "card {x \<in> dom (map_of hs). rank x \<le> rank q} \<le> n"
      using less [of p q] Suc.prems [of p] that by fastforce
  qed
  then show ?case by (cases j) (fastforce split: json.split option.split sum.split)+
qed

text \<open>
  The loop over the active ancestors runs under the scheduler's lock. It ends, after at most as
  many steps as there are active runs, whenever parents are older than their children: then
  admission always gives a decision.
\<close>

theorem admission_decides:
  fixes rank :: "string \<Rightarrow> nat"
  assumes "\<And>p h q. map_of (sc_holders sc) p = Some h \<Longrightarrow> ho_parent h = Some (JStr q) \<Longrightarrow>
      map_of (sc_holders sc) q \<noteq> None \<Longrightarrow> rank q < rank p"
  shows "\<exists>r. plan_admission str_of run agent sc = Some r"
proof -
  have "card {q \<in> dom (map_of (sc_holders sc)). P q} \<le> length (sc_holders sc)" for P
  proof -
    have "card {q \<in> dom (map_of (sc_holders sc)). P q} \<le> card (dom (map_of (sc_holders sc)))"
      by (rule card_mono) (auto simp: finite_dom_map_of)
    also have "\<dots> \<le> length (sc_holders sc)" by (simp add: dom_map_of_conv_image_fst card_length flip: set_map)
        (metis card_length length_map)
    finally show ?thesis .
  qed
  then have "ancestors (length (sc_holders sc)) j (sc_holders sc) \<noteq> None" for j
    by (intro ancestors_terminate [of _ rank]) (use assms in blast)+
  then obtain as where "ancestors (length (sc_holders sc)) (map_of (ar_metadata run) ''parent_run_id'') (sc_holders sc) = Some as"
    by blast
  then show ?thesis by (auto simp: plan_admission_def Let_def simp del: ancestors.simps split: sum.split)
qed

theorem admission_decides_witness:
  "\<exists>r. plan_admission (\<lambda>_. []) (root_run ''c'') (demo_agent ''a'' ''1'' [])
     ((sample_scheduler 2)\<lparr>sc_holders := [(''b'', \<lparr>ho_agent = [], ho_route_tag = [], ho_caller = [], ho_parent = Some (JStr ''a''), ho_root = []\<rparr>),
        (''a'', \<lparr>ho_agent = [], ho_route_tag = [], ho_caller = [], ho_parent = None, ho_root = []\<rparr>)]\<rparr>) = Some r"
  by (rule admission_decides [of _ "\<lambda>p. if p = ''a'' then 0 else 1"]) (auto split: if_splits)

end
