(* ===== verification/Tool_Gateway.thy ===== *)
theory Tool_Gateway
  imports Stage_Runner Resilience
begin

text \<open>
  \<^verbatim>\<open>ToolGateway\<close> (\<^verbatim>\<open>src/framework/tool/tools.py\<close>), the one entry point for tool calls: permission
  and schema checks, circuit breaker, QPS gate, the \<^verbatim>\<open>WAITING_TOOL\<close> mark, guardrails
  (\<^verbatim>\<open>src/framework/tool/guardrails.py\<close>), concurrency slots, the retry loop, the durable record of
  a side effect, and the dispatch to the protocol backends.

  The state is the gateway (breakers, QPS windows, semaphores, registered handlers and
  guardrails) beside the \<open>world\<close> of the executor.  Python functions, MCP sessions, the HTTP client,
  hooks, guardrail functions, failure handlers, the waits for concurrency slots and SHA-256 are
  parameters that may change the world.

  The theorems: the external call of a side-effecting operation is made at most once,
  whatever the workers do; an open breaker keeps every call from its backend; a call is
  attempted at most as often as its policy says; and what two awkward paths of the code do (a
  failing end hook, and a tool call of a canceled run).
\<close>

section \<open>Guardrails\<close>

record hook_context =
  hk_run_id :: string
  hk_trace_id :: string
  hk_route_tag :: string
  hk_caller :: json
  hk_agent_name :: string
  hk_agent_version :: string
  hk_metadata :: dict

datatype guardrail_behavior = ALLOW | REJECT_CONTENT | RAISE_EXCEPTION

record guardrail_output =
  go_behavior :: guardrail_behavior
  go_message :: "string option"

type_synonym guardrail = "string \<times> (hook_context \<Rightarrow> dict \<Rightarrow> world \<Rightarrow> world \<times> (py_exc + guardrail_output))"

definition tripwire :: "string \<Rightarrow> guardrail_output \<Rightarrow> py_exc" where
  "tripwire nm out = OtherException ''ToolGuardrailTripwireTriggered''
     (''Tool guardrail '' @ [CHR 0x27] @ nm @ [CHR 0x27] @ '' halted: ''
      @ (case go_message out of Some m \<Rightarrow> m | None \<Rightarrow> ''None''))"

text \<open>\<^verbatim>\<open>run_tool_input_guardrails\<close> and \<^verbatim>\<open>run_tool_output_guardrails\<close> have the same body.\<close>

fun run_tool_guardrails ::
    "guardrail list \<Rightarrow> hook_context \<Rightarrow> dict \<Rightarrow> world \<Rightarrow> world \<times> (py_exc + guardrail_output list)" where
  "run_tool_guardrails [] ctx data w = (w, Inr [])"
| "run_tool_guardrails ((nm, f) # gs) ctx data w =
     (case f ctx data w of
        (w1, Inl e) \<Rightarrow> (w1, Inl e)
      | (w1, Inr out) \<Rightarrow>
          if go_behavior out = RAISE_EXCEPTION then (w1, Inl (tripwire nm out))
          else (case run_tool_guardrails gs ctx data w1 of
                  (w2, Inl e) \<Rightarrow> (w2, Inl e) | (w2, Inr outs) \<Rightarrow> (w2, Inr (out # outs))))"

definition rejection :: "string \<Rightarrow> guardrail_output list \<Rightarrow> dict option" where
  "rejection dflt outs =
     (case find (\<lambda>g. go_behavior g = REJECT_CONTENT) outs of None \<Rightarrow> None
      | Some g \<Rightarrow> Some [(''_guardrail_blocked'', JBool True),
          (''message'', JStr (case go_message g of Some m \<Rightarrow> if m = [] then dflt else m | None \<Rightarrow> dflt))])"

section \<open>Gateway state and parameters\<close>

text \<open>The content items of an MCP result, by the first attribute the gateway looks for.\<close>

datatype mcp_item = MText string | MData json | MTyped string json | MOther

type_synonym failure_handler = "py_exc \<Rightarrow> dict \<Rightarrow> world \<Rightarrow> world \<times> (py_exc + string)"

record gateway =
  gw_registry :: tool_registry
  gw_failure_handlers :: "(string \<times> failure_handler) list"
  gw_input_guardrails :: "(string \<times> guardrail list) list"
  gw_output_guardrails :: "(string \<times> guardrail list) list"
  gw_semaphores :: "(string \<times> int) list"
  gw_qps :: windows
  gw_breaker :: breakers
  gw_mcp_sessions :: "string list"

text \<open>
  \<open>te_run_slot\<close> is what happens while the call waits for the semaphore and, with a distributed
  backend, for a cluster slot; \<open>te_python\<close>, \<open>te_mcp\<close> and \<open>te_http\<close> are the backends
  (\<open>te_http\<close> gives the status check's outcome and the decoded body); \<open>te_interrupt\<close> says whether
  the attempt is cut off by its timeout or by a cancellation; \<open>te_policy\<close> is the outbound policy.
\<close>

record tool_env =
  te_clk :: "nat \<Rightarrow> datetime"
  te_monotonic :: "nat \<Rightarrow> rat"
  te_others :: "nat \<Rightarrow> world \<Rightarrow> world"
  te_validate :: json_validator
  te_qps_turns :: "(rat \<times> (windows \<Rightarrow> windows)) list"
  te_hook_start :: "(hook_context \<Rightarrow> string \<Rightarrow> dict \<Rightarrow> world \<Rightarrow> world \<times> py_exc option) option"
  te_hook_end :: "(hook_context \<Rightarrow> string \<Rightarrow> dict \<Rightarrow> py_exc option \<Rightarrow> world \<Rightarrow> world \<times> py_exc option) option"
  te_run_slot :: "tool_spec \<Rightarrow> world \<Rightarrow> world \<times> py_exc option"
  te_leave_slot :: "tool_spec \<Rightarrow> world \<Rightarrow> world"
  te_python :: "int \<Rightarrow> string \<Rightarrow> dict \<Rightarrow> world \<Rightarrow> world \<times> (py_exc + json)"
  te_mcp :: "int \<Rightarrow> string \<Rightarrow> string \<Rightarrow> dict \<Rightarrow> world \<Rightarrow> world \<times> (py_exc + mcp_item list \<times> bool)"
  te_http :: "int \<Rightarrow> string \<Rightarrow> string \<Rightarrow> dict \<Rightarrow> (string \<times> string) list \<Rightarrow> rat \<Rightarrow> world \<Rightarrow> world \<times> (py_exc + json option \<times> string)"
  te_policy :: "string \<Rightarrow> py_exc option"
  te_interrupt :: "int \<Rightarrow> py_exc option"
  te_sleep :: "int \<Rightarrow> rat \<Rightarrow> world \<Rightarrow> world \<times> py_exc option"
  te_text :: "json \<Rightarrow> string"
  te_digest :: "json \<Rightarrow> string"
  te_sha :: "string \<Rightarrow> string"
  te_b64 :: "string \<Rightarrow> string"
  te_stage_id :: string
  te_execution_id :: string

definition set_failure_handler :: "string \<Rightarrow> failure_handler \<Rightarrow> gateway \<Rightarrow> gateway" where
  "set_failure_handler nm h gw = gw\<lparr>gw_failure_handlers := AList.update nm h (gw_failure_handlers gw)\<rparr>"

definition append_guardrail :: "string \<Rightarrow> guardrail \<Rightarrow> (string \<times> guardrail list) list \<Rightarrow> (string \<times> guardrail list) list" where
  "append_guardrail nm g gs = AList.update nm ((case map_of gs nm of Some l \<Rightarrow> l | None \<Rightarrow> []) @ [g]) gs"

definition add_tool_input_guardrail :: "string \<Rightarrow> guardrail \<Rightarrow> gateway \<Rightarrow> gateway" where
  "add_tool_input_guardrail nm g gw = gw\<lparr>gw_input_guardrails := append_guardrail nm g (gw_input_guardrails gw)\<rparr>"

definition add_tool_output_guardrail :: "string \<Rightarrow> guardrail \<Rightarrow> gateway \<Rightarrow> gateway" where
  "add_tool_output_guardrail nm g gw = gw\<lparr>gw_output_guardrails := append_guardrail nm g (gw_output_guardrails gw)\<rparr>"

definition lookup_list :: "string \<Rightarrow> (string \<times> 'a list) list \<Rightarrow> 'a list" where
  "lookup_list nm m = (case map_of m nm of Some l \<Rightarrow> l | None \<Rightarrow> [])"

definition gateway_log :: "tool_env \<Rightarrow> agent_context \<Rightarrow> nat \<Rightarrow> string \<Rightarrow> string \<Rightarrow> dict \<Rightarrow> world \<Rightarrow> world" where
  "gateway_log env ctx i event_type message data w =
     w\<lparr>w_store := (w_store w)\<lparr>s_logs := logs_add
       \<lparr>le_run_id = Some (ac_run_id ctx), le_trace_id = ac_trace_id ctx, le_component = ''tool_gateway'',
        le_event_type = event_type, le_level = ''INFO'', le_message = message, le_data = data,
        le_create_time = te_clk env i\<rparr> (s_logs (w_store w))\<rparr>\<rparr>"

section \<open>Backends\<close>

definition echo_handler :: "dict \<Rightarrow> dict" where
  "echo_handler input_data = [(''echo'', JObj input_data)]"

definition lookup_handler :: "tool_env \<Rightarrow> dict \<Rightarrow> dict" where
  "lookup_handler env input_data =
     (let truthy = (\<lambda>k. case map_of input_data k of Some j \<Rightarrow> if json_truthy j then Some j else None | None \<Rightarrow> None);
          key = (case truthy ''key'' of Some j \<Rightarrow> j | None \<Rightarrow> (case truthy ''query'' of Some j \<Rightarrow> j | None \<Rightarrow> JStr ''default''))
      in [(''key'', key), (''value'', JStr (''mock-value-for-'' @ te_text env key)), (''source'', JStr ''builtin.lookup'')])"

text \<open>\<^verbatim>\<open>auth["token"]\<close> and the like raise \<^verbatim>\<open>KeyError\<close>; \<open>te_text\<close> is \<^verbatim>\<open>str\<close>.\<close>

definition json_repr :: "tool_env \<Rightarrow> json \<Rightarrow> string" where
  "json_repr env j = (case j of JStr s \<Rightarrow> py_repr s | _ \<Rightarrow> te_text env j)"

definition headers_for_endpoint :: "tool_env \<Rightarrow> dict \<Rightarrow> py_exc + (string \<times> string) list" where
  "headers_for_endpoint env endpoint =
     (case sub_dict ''headers'' False ''items'' endpoint of Inl e \<Rightarrow> Inl e
      | Inr hs \<Rightarrow> case sub_dict ''auth'' True ''get'' endpoint of Inl e \<Rightarrow> Inl e
      | Inr auth \<Rightarrow>
         let headers = map (\<lambda>(k, v). (k, te_text env v)) hs in
         case map_of auth ''type'' of
           None \<Rightarrow> Inr headers
         | Some auth_type \<Rightarrow>
             if \<not> json_truthy auth_type then Inr headers
             else if auth_type = JStr ''bearer''
             then (case subscript ''token'' auth of Inl e \<Rightarrow> Inl e
                   | Inr t \<Rightarrow> Inr (AList.update ''Authorization'' (''Bearer '' @ te_text env t) headers))
             else if auth_type = JStr ''api_key''
             then (case subscript ''value'' auth of Inl e \<Rightarrow> Inl e
                   | Inr v \<Rightarrow> Inr (AList.update (te_text env (dict_get_or ''header'' (JStr ''X-API-Key'') auth)) (te_text env v) headers))
             else if auth_type = JStr ''basic''
             then (case subscript ''username'' auth of Inl e \<Rightarrow> Inl e
                   | Inr u \<Rightarrow> (case subscript ''password'' auth of Inl e \<Rightarrow> Inl e
                       | Inr p \<Rightarrow> Inr (AList.update ''Authorization''
                           (''Basic '' @ te_b64 env (te_text env u @ '':'' @ te_text env p)) headers)))
             else Inl (RegistryError (''Unsupported HTTP tool auth type '' @ json_repr env auth_type)))"

definition as_output :: "json \<Rightarrow> dict" where
  "as_output j = (case j of JObj d \<Rightarrow> d | _ \<Rightarrow> [(''data'', j)])"

definition push :: "string \<Rightarrow> json \<Rightarrow> dict \<Rightarrow> dict" where
  "push k j d = AList.update k (JList ((case map_of d k of Some (JList xs) \<Rightarrow> xs | _ \<Rightarrow> []) @ [j])) d"

fun mcp_output :: "mcp_item list \<Rightarrow> dict \<Rightarrow> dict" where
  "mcp_output [] out = out"
| "mcp_output (MText t # xs) out = mcp_output xs (push ''text'' (JStr t) out)"
| "mcp_output (MData j # xs) out = mcp_output xs (push ''data'' j out)"
| "mcp_output (MTyped k j # xs) out = mcp_output xs (push k j out)"
| "mcp_output (MOther # xs) out = mcp_output xs out"

definition quoted :: "string \<Rightarrow> string" where
  "quoted s = [CHR 0x27] @ s @ [CHR 0x27]"

definition invoke_mcp :: "tool_env \<Rightarrow> gateway \<Rightarrow> int \<Rightarrow> dict \<Rightarrow> dict \<Rightarrow> world \<Rightarrow> world \<times> (py_exc + dict)" where
  "invoke_mcp env gw a endpoint input_data w =
     (case subscript ''server'' endpoint of Inl e \<Rightarrow> (w, Inl e)
      | Inr server \<Rightarrow> case subscript ''tool_name'' endpoint of Inl e \<Rightarrow> (w, Inl e)
      | Inr tool \<Rightarrow>
          let server_name = te_text env server; tool_name = te_text env tool in
          if server_name \<notin> set (gw_mcp_sessions gw)
          then (w, Inl (RegistryError (''MCP server '' @ quoted server_name
                 @ '' is not connected. Ensure the server is configured and reachable.'')))
          else (case te_mcp env a server_name tool_name input_data w of
                  (w1, Inl CancelledError) \<Rightarrow> (w1, Inl CancelledError)
                | (w1, Inl e) \<Rightarrow> (w1, Inl (OtherException ''MCPError''
                    (''MCP tool '' @ quoted tool_name @ '' on '' @ quoted server_name @ '' failed: '' @ exc_str e)))
                | (w1, Inr (content, is_error)) \<Rightarrow>
                    let out = mcp_output content []
                    in (w1, Inr (if is_error then AList.update ''_mcp_error'' (JBool True) out else out))))"

definition invoke_python :: "tool_env \<Rightarrow> int \<Rightarrow> dict \<Rightarrow> dict \<Rightarrow> world \<Rightarrow> world \<times> (py_exc + dict)" where
  "invoke_python env a endpoint input_data w =
     (case subscript ''target'' endpoint of Inl e \<Rightarrow> (w, Inl e)
      | Inr (JStr target) \<Rightarrow>
          if CHR '':'' \<notin> set target then (w, Inl (ValueError ''not enough values to unpack (expected 2, got 1)''))
          else (case map_of endpoint ''kwargs'' of
                  Some (JObj kwargs) \<Rightarrow>
                    (case te_python env a target (fold (\<lambda>(k, v) m. AList.update k v m) kwargs input_data) w of
                       (w1, Inl e) \<Rightarrow> (w1, Inl e) | (w1, Inr j) \<Rightarrow> (w1, Inr (as_output j)))
                | None \<Rightarrow> (case te_python env a target input_data w of
                       (w1, Inl e) \<Rightarrow> (w1, Inl e) | (w1, Inr j) \<Rightarrow> (w1, Inr (as_output j)))
                | Some _ \<Rightarrow> (w, Inl (RegistryError (''Python tool '' @ py_repr target @ '' endpoint.kwargs must be an object''))))
      | Inr j \<Rightarrow> (w, Inl (attribute_error j ''split'')))"

definition str_upper :: "string \<Rightarrow> string" where
  "str_upper = map (\<lambda>c. let n = (of_char c :: nat) in if 97 \<le> n \<and> n \<le> 122 then char_of (n - 32) else c)"

text \<open>A body that is no JSON comes back as text.\<close>

definition invoke_http ::
    "tool_env \<Rightarrow> int \<Rightarrow> dict \<Rightarrow> dict \<Rightarrow> rat \<Rightarrow> string option \<Rightarrow> string option \<Rightarrow> world \<Rightarrow> world \<times> (py_exc + dict)" where
  "invoke_http env a endpoint input_data timeout_seconds idempotency_key idempotency_key_header w =
     (case subscript ''url'' endpoint of Inl e \<Rightarrow> (w, Inl e)
      | Inr u \<Rightarrow>
          let url = te_text env u in
          case te_policy env url of
            Some e \<Rightarrow> (w, Inl (RegistryError (''HTTP Tool endpoint rejected by outbound policy: '' @ exc_str e)))
          | None \<Rightarrow>
              let meth = str_upper (te_text env (dict_get_or ''method'' (JStr ''POST'') endpoint)) in
              (case headers_for_endpoint env endpoint of Inl e \<Rightarrow> (w, Inl e)
               | Inr headers \<Rightarrow>
                   let headers' = (case (idempotency_key, idempotency_key_header) of
                         (Some k, Some h) \<Rightarrow> if k \<noteq> [] \<and> h \<noteq> [] then AList.update h k headers else headers
                       | _ \<Rightarrow> headers)
                   in (case te_http env a meth url input_data headers' timeout_seconds w of
                         (w1, Inl e) \<Rightarrow> (w1, Inl e)
                       | (w1, Inr (None, text)) \<Rightarrow> (w1, Inr [(''text'', JStr text)])
                       | (w1, Inr (Some body, text)) \<Rightarrow> (w1, Inr (as_output body)))))"

definition invoke ::
    "tool_env \<Rightarrow> gateway \<Rightarrow> int \<Rightarrow> dict \<Rightarrow> dict \<Rightarrow> rat \<Rightarrow> string option \<Rightarrow> string option \<Rightarrow> world \<Rightarrow> world \<times> (py_exc + dict)" where
  "invoke env gw a endpoint input_data timeout_seconds idempotency_key idempotency_key_header w =
     (let protocol = dict_get_or ''protocol'' (JStr ''builtin'') endpoint in
      if protocol = JStr ''builtin''
      then (let handler_name = dict_get_or ''handler'' (JStr ''builtin.echo'') endpoint in
            if handler_name = JStr ''builtin.echo'' then (w, Inr (echo_handler input_data))
            else if handler_name = JStr ''builtin.lookup'' then (w, Inr (lookup_handler env input_data))
            else (w, Inl (RegistryError (''Unknown builtin tool handler '' @ json_repr env handler_name))))
      else if protocol = JStr ''python'' then invoke_python env a endpoint input_data w
      else if protocol = JStr ''mcp'' then invoke_mcp env gw a endpoint input_data w
      else if protocol = JStr ''http''
      then invoke_http env a endpoint input_data timeout_seconds idempotency_key idempotency_key_header w
      else (w, Inl (RegistryError (''Unsupported tool protocol '' @ json_repr env protocol))))"

section \<open>The durable record of a side effect\<close>

definition hex_value :: "string \<Rightarrow> nat" where
  "hex_value s = foldl (\<lambda>acc c. acc * 16 + (let n = (of_char c :: nat) in if n \<le> 57 then n - 48 else n - 87)) 0 s"

definition side_effect_key :: "tool_env \<Rightarrow> tool_spec \<Rightarrow> dict \<Rightarrow> string option \<Rightarrow> string" where
  "side_effect_key env tool input_data idempotency_key =
     (case idempotency_key of Some k \<Rightarrow> if k = [] then ts_name tool @ '':'' @ te_digest env (json_canonical (JObj input_data)) else k
      | None \<Rightarrow> ts_name tool @ '':'' @ te_digest env (json_canonical (JObj input_data)))"

definition side_effect_stage :: "tool_env \<Rightarrow> agent_context \<Rightarrow> tool_spec \<Rightarrow> dict \<Rightarrow> string option \<Rightarrow> agent_stage" where
  "side_effect_stage env ctx tool input_data idempotency_key =
     (let operation_hash = te_sha env (side_effect_key env tool input_data idempotency_key);
          stage_key = ''tool:'' @ ts_name tool @ '':'' @ take 32 operation_hash
      in new_agent_stage (te_stage_id env) (te_clk env 0) (ac_run_id ctx) (ac_trace_id ctx) (as_name (ac_agent ctx))
           (as_version (ac_agent ctx)) stage_key (- (int (hex_value (take 7 operation_hash)) + 1)) ''1'' 1
           (ac_run_id ctx @ '':'' @ stage_key) (te_digest env (json_canonical (JObj input_data))))"

text \<open>The stage key, the durable key, the execution id, and the output of an earlier success.\<close>

definition prepare_side_effect_operation ::
    "tool_env \<Rightarrow> agent_context \<Rightarrow> tool_spec \<Rightarrow> dict \<Rightarrow> string option \<Rightarrow> world
     \<Rightarrow> world \<times> (py_exc + string \<times> string \<times> string \<times> json option)" where
  "prepare_side_effect_operation env ctx tool input_data idempotency_key w =
     (let new = side_effect_stage env ctx tool input_data idempotency_key;
          stage_key = st_stage_key new; durable_key = st_idempotency_key new; w0 = te_others env 0 w
      in case get_or_create new (stages_of w0) of
           Inl e \<Rightarrow> (w0, Inl e)
         | Inr (stage, rows) \<Rightarrow>
             let w1 = set_stages rows w0 in
             if st_status stage = S_SUCCEEDED
             then (w1, Inr (stage_key, durable_key, case st_execution_id stage of Some e \<Rightarrow> e | None \<Rightarrow> [],
                     if st_output stage = JNull then None else Some (st_output stage)))
             else if st_status stage \<in> {S_RUNNING, S_OUTCOME_UNKNOWN}
             then (w1, Inl (SideEffectOutcomeUnknownError (ts_name tool) ''a prior dispatch did not commit a confirmed response''))
             else
               let w2 = te_others env 5 w1;
                   claimed = SideEffectOutcomeUnknownError (ts_name tool) ''durable side-effect operation was already claimed''
               in (case begin_side_effect_once (te_clk env 12) (ac_run_id ctx) stage_key (te_execution_id env) (stages_of w2) of
                     (None, rows2) \<Rightarrow> (set_stages rows2 w2, Inl claimed)
                   | (Some active, rows2) \<Rightarrow>
                       let w3 = te_others env 2 (set_stages rows2 w2) in
                       (case mark_side_effect_dispatched (te_clk env 2) (ac_run_id ctx) durable_key (te_execution_id env) (stages_of w3) of
                          (False, rows3) \<Rightarrow> (set_stages rows3 w3, Inl claimed)
                        | (True, rows3) \<Rightarrow> (set_stages rows3 w3, Inr (stage_key, durable_key, te_execution_id env, None)))))"

definition complete_side_effect_operation ::
    "tool_env \<Rightarrow> agent_context \<Rightarrow> tool_spec \<Rightarrow> (string \<times> string \<times> string) option \<Rightarrow> dict \<Rightarrow> world \<Rightarrow> world \<times> py_exc option" where
  "complete_side_effect_operation env ctx tool identity output w =
     (if ts_operation_type tool \<noteq> SIDE_EFFECTING then (w, None)
      else case identity of
        None \<Rightarrow> (w, Some (SideEffectOutcomeUnknownError (ts_name tool) ''durable operation identity is missing''))
      | Some (stage_key, durable_key, execution_id) \<Rightarrow>
          if stage_key = [] \<or> durable_key = [] \<or> execution_id = []
          then (w, Some (SideEffectOutcomeUnknownError (ts_name tool) ''durable operation identity is missing''))
          else
            let changed = SideEffectOutcomeUnknownError (ts_name tool)
                  ''durable operation ownership changed before its response was committed''
            in (case mark_side_effect_returned (te_clk env 3) (ac_run_id ctx) durable_key execution_id (stages_of w) of
                  (False, rows) \<Rightarrow> (set_stages rows w, Some changed)
                | (True, rows) \<Rightarrow>
                    let w1 = te_others env 3 (set_stages rows w) in
                    (case mark_succeeded (te_clk env 4) (ac_run_id ctx) stage_key execution_id (JObj output) (stages_of w1) of
                       (True, rows1) \<Rightarrow> (set_stages rows1 w1, None)
                     | (False, rows1) \<Rightarrow> (set_stages rows1 w1, Some changed))))"

section \<open>The retry loop\<close>

definition business_field :: "tool_env \<Rightarrow> string \<Rightarrow> dict \<Rightarrow> string option" where
  "business_field env k output =
     (case map_of output ''header'' of
        Some (JObj header) \<Rightarrow> (case map_of header k of None \<Rightarrow> None | Some JNull \<Rightarrow> None | Some j \<Rightarrow> Some (te_text env j))
      | _ \<Rightarrow> None)"

definition is_business_success :: "string option \<Rightarrow> bool" where
  "is_business_success code = (code \<in> {None, Some ''000000''})"

definition end_hook :: "tool_env \<Rightarrow> hook_context \<Rightarrow> string \<Rightarrow> dict \<Rightarrow> py_exc option \<Rightarrow> world \<Rightarrow> world \<times> py_exc option" where
  "end_hook env hk nm output error w = (case te_hook_end env of None \<Rightarrow> (w, None) | Some f \<Rightarrow> f hk nm output error w)"

type_synonym effect_identity = "(string \<times> string \<times> string) option"

text \<open>What the \<^verbatim>\<open>try\<close> block does once the backend has answered.\<close>

definition accept_output ::
    "tool_env \<Rightarrow> agent_context \<Rightarrow> hook_context \<Rightarrow> tool_spec \<Rightarrow> effect_identity \<Rightarrow> int \<Rightarrow> dict \<Rightarrow> gateway \<times> world
     \<Rightarrow> (gateway \<times> world) \<times> (py_exc + dict)" where
  "accept_output env ctx hk tool ident a output gww =
     (case gww of (gw, w) \<Rightarrow>
        let code = business_field env ''code'' output; ok = is_business_success code in
        case complete_side_effect_operation env ctx tool ident output w of
          (w1, Some e) \<Rightarrow> ((gw, w1), Inl e)
        | (w1, None) \<Rightarrow>
            let w2 = gateway_log env ctx 5 (if ok then ''tool_call_succeeded'' else ''tool_call_business_failed'')
                  (if ok then ''Tool '' @ ts_name tool @ '' succeeded''
                   else ''Tool '' @ ts_name tool @ '' returned business code '' @ (case code of Some c \<Rightarrow> c | None \<Rightarrow> ''None''))
                  [(''tool'', JStr (ts_name tool)), (''attempt'', JNum (of_int a)), (''output'', JObj output),
                   (''business_code'', jopt code), (''business_message'', jopt (business_field env ''message'' output))] w1;
                gw1 = gw\<lparr>gw_breaker := record_success (ts_name tool) (gw_breaker gw)\<rparr>
            in (case end_hook env hk (ts_name tool) output None w2 of
                  (w3, Some e) \<Rightarrow> ((gw1, w3), Inl e) | (w3, None) \<Rightarrow> ((gw1, w3), Inr output)))"

definition reject_output ::
    "tool_env \<Rightarrow> agent_context \<Rightarrow> hook_context \<Rightarrow> tool_spec \<Rightarrow> effect_identity \<Rightarrow> int \<Rightarrow> dict \<Rightarrow> gateway \<times> world
     \<Rightarrow> (gateway \<times> world) \<times> (py_exc + dict)" where
  "reject_output env ctx hk tool ident a guarded gww =
     (case gww of (gw, w) \<Rightarrow>
        case complete_side_effect_operation env ctx tool ident guarded w of
          (w1, Some e) \<Rightarrow> ((gw, w1), Inl e)
        | (w1, None) \<Rightarrow>
            let gw1 = gw\<lparr>gw_breaker := record_success (ts_name tool) (gw_breaker gw)\<rparr>;
                w2 = gateway_log env ctx 5 ''tool_output_rejected'' (''Tool '' @ ts_name tool @ '' output rejected by guardrail'')
                  [(''tool'', JStr (ts_name tool)), (''attempt'', JNum (of_int a)),
                   (''message'', dict_get_or ''message'' JNull guarded)] w1
            in (case end_hook env hk (ts_name tool) guarded None w2 of
                  (w3, Some e) \<Rightarrow> ((gw1, w3), Inl e) | (w3, None) \<Rightarrow> ((gw1, w3), Inr guarded)))"

definition try_tool ::
    "tool_env \<Rightarrow> agent_context \<Rightarrow> hook_context \<Rightarrow> tool_spec \<Rightarrow> dict \<Rightarrow> string option \<Rightarrow> effect_identity \<Rightarrow> int \<Rightarrow> gateway \<times> world
     \<Rightarrow> (gateway \<times> world) \<times> (py_exc + dict)" where
  "try_tool env ctx hk tool input_data idempotency_key ident a gww =
     (case gww of (gw, w) \<Rightarrow>
        case invoke env gw a (ts_endpoint tool) input_data (ts_timeout_seconds tool) idempotency_key
               (ts_idempotency_key_header tool) w of
          (w1, r) \<Rightarrow>
            case (case te_interrupt env a of Some e \<Rightarrow> Inl e | None \<Rightarrow> r) of
              Inl e \<Rightarrow> ((gw, w1), Inl e)
            | Inr output \<Rightarrow>
            case tool_validate_output (te_validate env) tool (JObj output) of
              Inl e \<Rightarrow> ((gw, w1), Inl e)
            | Inr _ \<Rightarrow>
            case run_tool_guardrails (lookup_list (ts_name tool) (gw_output_guardrails gw)) hk output w1 of
              (w2, Inl e) \<Rightarrow> ((gw, w2), Inl e)
            | (w2, Inr outs) \<Rightarrow>
                (case rejection ''Tool output rejected by guardrail'' outs of
                   Some guarded \<Rightarrow> reject_output env ctx hk tool ident a guarded (gw, w2)
                 | None \<Rightarrow> accept_output env ctx hk tool ident a output (gw, w2)))"

text \<open>
  The \<^verbatim>\<open>except\<close> clauses: \<^const>\<open>Inl\<close> leaves the loop with an exception, \<^const>\<open>Inr\<close> is the error to
  go on with.
\<close>

definition tool_failed ::
    "tool_env \<Rightarrow> agent_context \<Rightarrow> tool_spec \<Rightarrow> int \<Rightarrow> int \<Rightarrow> py_exc \<Rightarrow> gateway \<times> world \<Rightarrow> (gateway \<times> world) \<times> (py_exc + py_exc)" where
  "tool_failed env ctx tool attempts a e gww =
     (case gww of (gw, w) \<Rightarrow>
        if e = CancelledError
        then ((gw, w), Inl (if ts_operation_type tool = SIDE_EFFECTING
                then SideEffectOutcomeUnknownError (ts_name tool) (exc_str e) else e))
        else (case record_failure (te_monotonic env 1) (ts_name tool) (ts_circuit_breaker tool) (gw_breaker gw) of
                (bs, Inl e') \<Rightarrow> ((gw\<lparr>gw_breaker := bs\<rparr>, w), Inl e')
              | (bs, Inr opened_until) \<Rightarrow>
                  let gw1 = gw\<lparr>gw_breaker := bs\<rparr>;
                      w1 = gateway_log env ctx 6 ''tool_call_failed'' (''Tool '' @ ts_name tool @ '' failed'')
                        [(''tool'', JStr (ts_name tool)), (''attempt'', JNum (of_int a)), (''error'', JStr (exc_text e)),
                         (''circuit_open_until'', case opened_until of None \<Rightarrow> JNull | Some t \<Rightarrow> JNum t)] w
                  in if a < attempts
                     then (case te_sleep env a (rp_backoff_seconds (ts_retry_policy tool) * of_int a) w1 of
                             (w2, Some e') \<Rightarrow> ((gw1, w2), Inl e') | (w2, None) \<Rightarrow> ((gw1, w2), Inr e))
                     else ((gw1, w1), Inr e)))"

definition tool_exhausted ::
    "tool_env \<Rightarrow> hook_context \<Rightarrow> tool_spec \<Rightarrow> dict \<Rightarrow> py_exc \<Rightarrow> gateway \<times> world \<Rightarrow> (gateway \<times> world) \<times> (py_exc + dict)" where
  "tool_exhausted env hk tool input_data last_error gww =
     (case gww of (gw, w) \<Rightarrow>
        if ts_operation_type tool = SIDE_EFFECTING
        then ((gw, w), Inl (SideEffectOutcomeUnknownError (ts_name tool) (exc_str last_error)))
        else case map_of (gw_failure_handlers gw) (ts_name tool) of
          None \<Rightarrow> ((gw, w), Inl (ToolExecutionError (ts_name tool) (exc_str last_error)))
        | Some handler \<Rightarrow>
            (case handler last_error input_data w of
               (w1, Inl e) \<Rightarrow> ((gw, w1), Inl e)
             | (w1, Inr error_msg) \<Rightarrow>
                 let error_output = [(''_tool_error'', JBool True), (''error'', JStr error_msg)]
                 in (case end_hook env hk (ts_name tool) error_output (Some last_error) w1 of
                       (w2, Some e) \<Rightarrow> ((gw, w2), Inl e) | (w2, None) \<Rightarrow> ((gw, w2), Inr error_output))))"

fun tool_attempts ::
    "tool_env \<Rightarrow> agent_context \<Rightarrow> hook_context \<Rightarrow> tool_spec \<Rightarrow> dict \<Rightarrow> string option \<Rightarrow> effect_identity \<Rightarrow> int \<Rightarrow> int list
     \<Rightarrow> py_exc \<Rightarrow> gateway \<times> world \<Rightarrow> (gateway \<times> world) \<times> (py_exc + dict)" where
  "tool_attempts env ctx hk tool input_data key ident attempts [] last_error gww =
     tool_exhausted env hk tool input_data last_error gww"
| "tool_attempts env ctx hk tool input_data key ident attempts (a # as) last_error gww =
     (case try_tool env ctx hk tool input_data key ident a gww of
        (gww1, Inr output) \<Rightarrow> (gww1, Inr output)
      | (gww1, Inl e) \<Rightarrow>
          (case tool_failed env ctx tool attempts a e gww1 of
             (gww2, Inl e') \<Rightarrow> (gww2, Inl e')
           | (gww2, Inr e') \<Rightarrow> tool_attempts env ctx hk tool input_data key ident attempts as e' gww2))"

text \<open>The loop runs at least once, so that the last error it starts with is never used.\<close>

definition tool_loop ::
    "tool_env \<Rightarrow> agent_context \<Rightarrow> hook_context \<Rightarrow> tool_spec \<Rightarrow> dict \<Rightarrow> string option \<Rightarrow> effect_identity \<Rightarrow> int \<Rightarrow> gateway \<times> world
     \<Rightarrow> (gateway \<times> world) \<times> (py_exc + dict)" where
  "tool_loop env ctx hk tool input_data key ident attempts gww =
     tool_attempts env ctx hk tool input_data key ident attempts [1 .. attempts] CancelledError gww"

definition call_with_retries ::
    "tool_env \<Rightarrow> agent_context \<Rightarrow> hook_context \<Rightarrow> tool_spec \<Rightarrow> dict \<Rightarrow> string option \<Rightarrow> gateway \<times> world
     \<Rightarrow> (gateway \<times> world) \<times> (py_exc + json)" where
  "call_with_retries env ctx hk tool input_data idempotency_key gww =
     (case gww of (gw, w) \<Rightarrow>
        let wrap = (\<lambda>(s, r). (s, case r of Inl e \<Rightarrow> Inl e | Inr d \<Rightarrow> Inr (JObj d))) in
        if ts_operation_type tool = SIDE_EFFECTING
        then (case prepare_side_effect_operation env ctx tool input_data idempotency_key w of
                (w1, Inl e) \<Rightarrow> ((gw, w1), Inl e)
              | (w1, Inr (stage_key, durable_key, execution_id, Some cached)) \<Rightarrow> ((gw, w1), Inr cached)
              | (w1, Inr (stage_key, durable_key, execution_id, None)) \<Rightarrow>
                  wrap (tool_loop env ctx hk tool input_data (Some durable_key)
                    (Some (stage_key, durable_key, execution_id)) 1 (gw, w1)))
        else if ts_operation_type tool = IDEMPOTENT
             \<and> (case ts_idempotency_key_header tool of Some h \<Rightarrow> h \<noteq> [] | None \<Rightarrow> False)
             \<and> (case idempotency_key of Some k \<Rightarrow> k = [] | None \<Rightarrow> True)
        then ((gw, w), Inl (RegistryError (''Tool '' @ py_repr (ts_name tool) @ '' requires an idempotency key for safe retries'')))
        else wrap (tool_loop env ctx hk tool input_data idempotency_key None
               (max 1 (rp_max_attempts (ts_retry_policy tool))) (gw, w)))"

section \<open>The entry point\<close>

definition fallback_if_breaker_open ::
    "tool_env \<Rightarrow> agent_context \<Rightarrow> string \<Rightarrow> dict \<Rightarrow> gateway \<times> world \<Rightarrow> (gateway \<times> world) \<times> (py_exc + json option)" where
  "fallback_if_breaker_open env ctx tool_name config gww =
     (case gww of (gw, w) \<Rightarrow>
        case open_until tool_name (gw_breaker gw) of (bs, until) \<Rightarrow>
          let gw1 = gw\<lparr>gw_breaker := bs\<rparr>; now = te_monotonic env 0 in
          if until \<le> now then ((gw1, w), Inr None)
          else
            let fallback = (case map_of config ''fallback_output'' of None \<Rightarrow> None | Some JNull \<Rightarrow> None | Some j \<Rightarrow> Some j);
                w1 = gateway_log env ctx 7 ''tool_circuit_open'' (''Tool '' @ tool_name @ '' circuit breaker is open'')
                  [(''tool'', JStr tool_name), (''retry_after_seconds'', JNum (until - now)), (''config'', JObj config),
                   (''fallback'', JBool (fallback \<noteq> None))] w
            in (case fallback of
                  Some out \<Rightarrow> ((gw1, gateway_log env ctx 8 ''tool_fallback_used'' (''Tool '' @ tool_name @ '' fallback output used'')
                      [(''tool'', JStr tool_name), (''output'', out)] w1), Inr (Some out))
                | None \<Rightarrow> ((gw1, w1), Inl (RuntimeError (''Tool '' @ py_repr tool_name @ '' circuit breaker is open'')))))"

definition mark_waiting_tool :: "tool_env \<Rightarrow> agent_context \<Rightarrow> string \<Rightarrow> world \<Rightarrow> world \<times> py_exc option" where
  "mark_waiting_tool env ctx tool_name w =
     (case world_row (ac_run_id ctx) w of
        None \<Rightarrow> (w, None)
      | Some run \<Rightarrow>
          (case update_owned (te_clk env 9) (run\<lparr>ar_status := WAITING_TOOL, ar_current_step := Some (''tool:'' @ tool_name)\<rparr>)
                  {ar_status run} (ac_worker_id ctx) (te_others env 9 w) of
             (w1, True) \<Rightarrow> (w1, None)
           | (w1, False) \<Rightarrow> (w1, Some (RunCancelledError (''Run '' @ py_repr (ac_run_id ctx)
               @ '' was canceled or is owned by another worker'')))))"

definition hook_context_of :: "agent_context \<Rightarrow> hook_context" where
  "hook_context_of ctx =
     \<lparr>hk_run_id = ac_run_id ctx, hk_trace_id = ac_trace_id ctx, hk_route_tag = ac_route_tag ctx,
      hk_caller = (case map_of (ac_metadata ctx) ''caller'' of Some j \<Rightarrow> if json_truthy j then j else JStr [] | None \<Rightarrow> JStr []),
      hk_agent_name = as_name (ac_agent ctx), hk_agent_version = as_version (ac_agent ctx), hk_metadata = ac_metadata ctx\<rparr>"

text \<open>From the input guardrails on.\<close>

definition guarded_call ::
    "tool_env \<Rightarrow> agent_context \<Rightarrow> hook_context \<Rightarrow> tool_spec \<Rightarrow> dict \<Rightarrow> string option \<Rightarrow> gateway \<times> world
     \<Rightarrow> (gateway \<times> world) \<times> (py_exc + json)" where
  "guarded_call env ctx hk tool input_data idempotency_key gww =
     (case gww of (gw, w) \<Rightarrow>
        case run_tool_guardrails (lookup_list (ts_name tool) (gw_input_guardrails gw)) hk input_data w of
          (w1, Inl e) \<Rightarrow> ((gw, w1), Inl e)
        | (w1, Inr outs) \<Rightarrow>
            (case rejection ''Tool input rejected by guardrail'' outs of
               Some rejected \<Rightarrow>
                 (case end_hook env hk (ts_name tool) rejected None w1 of
                    (w2, Some e) \<Rightarrow> ((gw, w2), Inl e) | (w2, None) \<Rightarrow> ((gw, w2), Inr (JObj rejected)))
             | None \<Rightarrow>
                 (case te_run_slot env tool w1 of
                    (w2, Some e) \<Rightarrow> ((gw, w2), Inl e)
                  | (w2, None) \<Rightarrow>
                      (case call_with_retries env ctx hk tool input_data idempotency_key (gw, w2) of
                         ((gw3, w3), r) \<Rightarrow> ((gw3, te_leave_slot env tool w3), r)))))"

text \<open>\<^const>\<open>None\<close>: the call is still waiting at the QPS gate when the given clock readings end.\<close>

definition tool_call ::
    "tool_env \<Rightarrow> agent_context \<Rightarrow> string \<Rightarrow> dict \<Rightarrow> string option \<Rightarrow> gateway \<times> world
     \<Rightarrow> (gateway \<times> world) \<times> (py_exc + json) option" where
  "tool_call env ctx tool_name input_data idempotency_key gww =
     (case gww of (gw, w) \<Rightarrow>
        case tools_get tool_name (gw_registry gw) of Inl e \<Rightarrow> ((gw, w), Some (Inl e))
        | Inr tool \<Rightarrow>
        case validate_allowed tool (as_name (ac_agent ctx)) of Inl e \<Rightarrow> ((gw, w), Some (Inl e))
        | Inr _ \<Rightarrow>
        case tool_validate_input (te_validate env) tool (JObj input_data) of Inl e \<Rightarrow> ((gw, w), Some (Inl e))
        | Inr _ \<Rightarrow>
            let gw0 = gw\<lparr>gw_semaphores := dict_setdefault (ts_name tool) (ts_max_concurrency tool) (gw_semaphores gw)\<rparr> in
            case fallback_if_breaker_open env ctx (ts_name tool) (ts_circuit_breaker tool) (gw0, w) of
              (gww1, Inl e) \<Rightarrow> (gww1, Some (Inl e))
            | (gww1, Inr (Some fallback)) \<Rightarrow>
                (case tool_validate_output (te_validate env) tool fallback of
                   Inl e \<Rightarrow> (gww1, Some (Inl e)) | Inr _ \<Rightarrow> (gww1, Some (Inr fallback)))
            | ((gw1, w1), Inr None) \<Rightarrow>
                (case qps_acquire (te_qps_turns env) (ts_name tool) (ts_qps tool) (gw_qps gw1) of
                   (ws, None) \<Rightarrow> ((gw1\<lparr>gw_qps := ws\<rparr>, w1), None)
                 | (ws, Some (Inl e)) \<Rightarrow> ((gw1\<lparr>gw_qps := ws\<rparr>, w1), Some (Inl e))
                 | (ws, Some (Inr _)) \<Rightarrow>
                     let gw2 = gw1\<lparr>gw_qps := ws\<rparr> in
                     (case mark_waiting_tool env ctx (ts_name tool) w1 of
                        (w2, Some e) \<Rightarrow> ((gw2, w2), Some (Inl e))
                      | (w2, None) \<Rightarrow>
                          let hk = hook_context_of ctx;
                              w3 = gateway_log env ctx 10 ''tool_call_started'' (''Calling tool '' @ ts_name tool)
                                [(''tool'', JStr (ts_name tool)), (''input'', JObj input_data)] w2
                          in (case (case te_hook_start env of None \<Rightarrow> (w3, None) | Some f \<Rightarrow> f hk (ts_name tool) input_data w3) of
                                (w4, Some e) \<Rightarrow> ((gw2, w4), Some (Inl e))
                              | (w4, None) \<Rightarrow>
                                  (case guarded_call env ctx hk tool input_data idempotency_key (gw2, w4) of
                                     (s, r) \<Rightarrow> (s, Some r))))))"

definition circuit_breaker_metrics :: "rat \<Rightarrow> string \<Rightarrow> string \<Rightarrow> gateway \<Rightarrow> gateway \<times> (string \<times> dict) list" where
  "circuit_breaker_metrics now backend scope gw =
     fold (\<lambda>tool (g, ms). case breaker_snapshot (ts_name tool) (gw_breaker g) of (bs, (failures, until)) \<Rightarrow>
         let retry_after = max 0 (until - now) in
         (g\<lparr>gw_breaker := bs\<rparr>, AList.update (ts_name tool)
            [(''enabled'', JBool (ts_circuit_breaker tool \<noteq> [] \<and> map_of (ts_circuit_breaker tool) ''enabled'' \<noteq> Some (JBool False))),
             (''state'', JStr (if 0 < retry_after then ''OPEN'' else ''CLOSED'')), (''failures'', JNum (of_int failures)),
             (''retry_after_seconds'', JNum retry_after), (''coordination_backend'', JStr backend),
             (''coordination_scope'', JStr scope), (''config'', JObj (ts_circuit_breaker tool))] ms))
       (sort_key (\<lambda>t. map (of_char :: char \<Rightarrow> nat) (ts_name t)) (map snd (gw_registry gw))) (gw, [])"

section \<open>The durable record is claimed once\<close>

lemma side_effect_stage_keys:
  "st_run_id (side_effect_stage env ctx tool inp key) = ac_run_id ctx"
  "st_stage_key (side_effect_stage env ctx tool inp key) =
     ''tool:'' @ ts_name tool @ '':'' @ take 32 (te_sha env (side_effect_key env tool inp key))"
  by (simp_all add: side_effect_stage_def Let_def new_agent_stage_def)

lemma dispatched_row:
  assumes dist: "keys_distinct stage_uk rows"
    and hit: "mark_side_effect_dispatched now r dk eid rows = (True, rows')"
    and own: "\<forall>s \<in> set rows'. st_run_id s = r \<and> st_idempotency_key s = dk \<longrightarrow> st_stage_key s = sk"
  shows "\<exists>s. stages_get r sk rows' = Some s \<and> st_status s = S_OUTCOME_UNKNOWN"
proof -
  let ?f = "\<lambda>s. if dispatch_row r dk eid S_RUNNING s
      then s\<lparr>st_status := S_OUTCOME_UNKNOWN, st_error_type := Some ''SIDE_EFFECT_OUTCOME_UNKNOWN'',
             st_error_message := Some ''External side effect dispatched; completion not yet committed'', st_update_time := now\<rparr>
      else s"
  from hit have rows': "rows' = map ?f rows" and one: "length (filter (dispatch_row r dk eid S_RUNNING) rows) = 1"
    by (simp_all add: mark_side_effect_dispatched_def update_where_def)
  from one obtain s where s: "s \<in> set rows" "dispatch_row r dk eid S_RUNNING s"
    by (metis One_nat_def filter_eq_Cons_iff in_set_conv_decomp length_0_conv length_Suc_conv)
  have uk: "stage_uk (?f x) = stage_uk x" for x by (simp add: stage_uk_def)
  have d: "keys_distinct stage_uk rows'" unfolding rows' using dist by (simp add: keys_distinct_map uk)
  have m: "?f s \<in> set rows'" unfolding rows' using s(1) by simp
  have fs: "st_run_id (?f s) = r" "st_idempotency_key (?f s) = dk" "st_status (?f s) = S_OUTCOME_UNKNOWN"
    using s(2) by (simp_all add: dispatch_row_def)
  have k: "st_stage_key (?f s) = sk" using own m fs(1,2) by blast
  have "stages_get r sk rows' = Some (?f s)" using stages_get_mem [OF d m] unfolding fs(1) k .
  then show ?thesis using fs(3) by blast
qed

definition orderly_tool_env :: "string \<Rightarrow> tool_env \<Rightarrow> bool" where
  "orderly_tool_env r env \<longleftrightarrow> (\<forall>i. orderly r (te_others env i))"

lemma evolves_unknown:
  assumes "evolves r t t'" and "stages_get r k t = Some s" and "st_status s \<in> {S_OUTCOME_UNKNOWN, S_SUCCEEDED}"
  shows "\<exists>s'. stages_get r k t' = Some s' \<and> st_status s' \<in> {S_OUTCOME_UNKNOWN, S_SUCCEEDED}"
  using assms(1) unfolding evolves_def using unknown_stays [OF _ assms(2,3)] by blast

text \<open>After a granted or replayed operation the row says that it was sent.\<close>

lemma prepared_row:
  assumes p: "prepare_side_effect_operation env ctx tool inp key w = (w1, Inr (sk, dk, eid, c))"
    and dist: "keys_distinct stage_uk (stages_of w)" and env: "orderly_tool_env (ac_run_id ctx) env"
    and own: "\<forall>s \<in> set (stages_of w1). st_run_id s = ac_run_id ctx \<and> st_idempotency_key s = dk \<longrightarrow> st_stage_key s = sk"
  shows "sk = st_stage_key (side_effect_stage env ctx tool inp key)
     \<and> (\<exists>s. stages_get (ac_run_id ctx) sk (stages_of w1) = Some s \<and> st_status s \<in> {S_OUTCOME_UNKNOWN, S_SUCCEEDED})"
proof -
  define new where "new = side_effect_stage env ctx tool inp key"
  define w0 where "w0 = te_others env 0 w"
  let ?r = "ac_run_id ctx"
  have ev: "evolves ?r (stages_of x) (stages_of (te_others env i x))" for i x
    using env by (simp add: orderly_tool_env_def orderly_def)
  have new: "st_run_id new = ?r" by (simp add: new_def side_effect_stage_keys)
  from p obtain stage rows where g: "get_or_create new (stages_of w0) = Inr (stage, rows)"
    by (auto simp: prepare_side_effect_operation_def Let_def new_def w0_def split: sum.splits prod.splits)
  have row: "stages_get ?r (st_stage_key new) rows = Some stage"
    using g new by (auto simp: get_or_create_def stages_get_def row_get_append stage_uk_def split: option.splits if_splits)
  have "rows = apply_op (Op_Create new) (stages_of w0)" using g by simp
  then have dist1: "keys_distinct stage_uk rows"
    using keys_distinct_op evolves_distinct [OF ev dist] unfolding w0_def by metis
  show ?thesis
  proof (cases "st_status stage = S_SUCCEEDED")
    case True
    with p g row show ?thesis
      by (auto simp: prepare_side_effect_operation_def Let_def new_def [symmetric] w0_def [symmetric])
  next
    case False
    define w2 where "w2 = te_others env 5 (set_stages rows w0)"
    obtain a rows2 where b: "begin_side_effect_once (te_clk env 12) ?r (st_stage_key new) (te_execution_id env) (stages_of w2) = (a, rows2)"
      by fastforce
    define w3 where "w3 = te_others env 2 (set_stages rows2 w2)"
    obtain ok rows3 where m: "mark_side_effect_dispatched (te_clk env 2) ?r (st_idempotency_key new) (te_execution_id env)
        (stages_of w3) = (ok, rows3)" by fastforce
    from p g b m False have res: "ok" "w1 = set_stages rows3 w3" "sk = st_stage_key new" "dk = st_idempotency_key new"
      by (auto simp: prepare_side_effect_operation_def Let_def new_def [symmetric] w0_def [symmetric] w2_def [symmetric]
          w3_def [symmetric] split: if_splits option.splits bool.splits)
    have "rows2 = apply_op (Op_Begin_Once (te_clk env 12) ?r (st_stage_key new) (te_execution_id env)) (stages_of w2)"
      using b by simp
    then have "keys_distinct stage_uk (stages_of w3)" unfolding w3_def
      using evolves_distinct [OF ev] keys_distinct_op dist1 unfolding w2_def by (metis stages_of_set)
    from dispatched_row [OF this m [unfolded eqTrueI [OF res(1)]]] own res show ?thesis
      by (auto simp: new_def)
  qed
qed

section \<open>Properties\<close>

text \<open>
  C10: The external call of a side-effecting operation is made at most once. Once an
  operation has been granted (or replayed), every later call of the same tool with the same
  identity in the same run, by any worker, after any repository calls on the stage table that
  do not delete the stages of the run, changes nothing and reaches no backend: it reports
  that the outcome is unknown, or returns the recorded output.
\<close>

theorem side_effect_is_sent_once:
  assumes "prepare_side_effect_operation env ctx tool inp key w = (w1, Inr (sk, dk, eid, c))"
    and "keys_distinct stage_uk (stages_of w)" and "orderly_tool_env (ac_run_id ctx) env"
    and "\<forall>s \<in> set (stages_of w1). st_run_id s = ac_run_id ctx \<and> st_idempotency_key s = dk \<longrightarrow> st_stage_key s = sk"
    and "evolves (ac_run_id ctx) (stages_of w1) (stages_of w2)" and "orderly_tool_env (ac_run_id ctx) env2"
    and "te_sha env2 = te_sha env" and "te_digest env2 = te_digest env" and "ac_run_id ctx2 = ac_run_id ctx"
    and "ts_operation_type tool = SIDE_EFFECTING"
    and "\<forall>s. stages_get (ac_run_id ctx) sk (stages_of (te_others env2 0 w2)) = Some s \<longrightarrow> st_output s \<noteq> JNull \<or> st_status s \<noteq> S_SUCCEEDED"
  shows "\<exists>s. stages_get (ac_run_id ctx) sk (stages_of (te_others env2 0 w2)) = Some s \<and>
     call_with_retries env2 ctx2 hk tool inp key (gw, w2) =
       ((gw, te_others env2 0 w2),
        if st_status s = S_SUCCEEDED then Inr (st_output s)
        else Inl (SideEffectOutcomeUnknownError (ts_name tool) ''a prior dispatch did not commit a confirmed response''))"
proof -
  let ?r = "ac_run_id ctx" and ?w = "te_others env2 0 w2"
  from prepared_row [OF assms(1-4)] obtain s0 where sk: "sk = st_stage_key (side_effect_stage env ctx tool inp key)"
    and s0: "stages_get ?r sk (stages_of w1) = Some s0" "st_status s0 \<in> {S_OUTCOME_UNKNOWN, S_SUCCEEDED}" by blast
  have "evolves ?r (stages_of w1) (stages_of ?w)"
    using assms(5,6) evolves_trans by (metis orderly_tool_env_def orderly_def)
  from evolves_unknown [OF this s0] obtain s where
    s: "stages_get ?r sk (stages_of ?w) = Some s" "st_status s \<in> {S_OUTCOME_UNKNOWN, S_SUCCEEDED}" by blast
  define new where "new = side_effect_stage env2 ctx2 tool inp key"
  have key: "side_effect_key env2 tool inp key = side_effect_key env tool inp key"
    using assms(8) by (cases key) (simp_all add: side_effect_key_def)
  have new: "st_run_id new = ?r" "st_stage_key new = sk"
    using assms(7,9) by (simp_all add: new_def sk side_effect_stage_keys key)
  have same: "set_stages (stages_of ?w) ?w = ?w" by (simp add: set_stages_def stages_of_def)
  have "get_or_create new (stages_of ?w) = Inr (s, stages_of ?w)" using s(1) new by (simp add: get_or_create_def)
  then have "prepare_side_effect_operation env2 ctx2 tool inp key w2 =
      (?w, if st_status s = S_SUCCEEDED
           then Inr (sk, st_idempotency_key new, case st_execution_id s of Some e \<Rightarrow> e | None \<Rightarrow> [], Some (st_output s))
           else Inl (SideEffectOutcomeUnknownError (ts_name tool) ''a prior dispatch did not commit a confirmed response''))"
    using s(2) assms(11) s(1) new(2) same
    by (auto simp: prepare_side_effect_operation_def Let_def new_def [symmetric])
  then show ?thesis using s(1) assms(10) by (auto simp: call_with_retries_def Let_def)
qed

lemma gateway_log_simps [simp]:
  "s_runs (w_store (gateway_log env ctx i et m d w)) = s_runs (w_store w)"
  "stages_of (gateway_log env ctx i et m d w) = stages_of w"
  by (simp_all add: gateway_log_def stages_of_def)

text \<open>
  C27: An open circuit breaker protects the backend. While the breaker of a tool is open,
  an admissible call reaches no backend, no hook and no guardrail and changes neither runs nor stages: it
  returns the configured fallback output if that satisfies the output schema, and raises
  otherwise.
\<close>

theorem open_breaker_blocks_calls:
  assumes "tools_get nm (gw_registry gw) = Inr tool" and "validate_allowed tool (as_name (ac_agent ctx)) = Inr u1"
    and "tool_validate_input (te_validate env) tool (JObj inp) = Inr u2"
    and "te_monotonic env 0 < br_open_until (breaker_of (ts_name tool) (gw_breaker gw))"
  shows "\<exists>gw' w'. tool_call env ctx nm inp key (gw, w) = ((gw', w'), Some (
       case map_of (ts_circuit_breaker tool) ''fallback_output'' of
         None \<Rightarrow> Inl (RuntimeError (''Tool '' @ py_repr (ts_name tool) @ '' circuit breaker is open''))
       | Some out \<Rightarrow> if out = JNull then Inl (RuntimeError (''Tool '' @ py_repr (ts_name tool) @ '' circuit breaker is open''))
           else (case tool_validate_output (te_validate env) tool out of Inl e \<Rightarrow> Inl e | Inr _ \<Rightarrow> Inr out)))
     \<and> s_runs (w_store w') = s_runs (w_store w) \<and> stages_of w' = stages_of w"
proof -
  define gw0 where "gw0 = gw\<lparr>gw_semaphores := dict_setdefault (ts_name tool) (ts_max_concurrency tool) (gw_semaphores gw)\<rparr>"
  define fb where "fb = (case map_of (ts_circuit_breaker tool) ''fallback_output'' of None \<Rightarrow> None | Some JNull \<Rightarrow> None | Some j \<Rightarrow> Some j)"
  have closed: "\<not> br_open_until (breaker_of (ts_name tool) (gw_breaker gw0)) \<le> te_monotonic env 0"
    using assms(4) by (simp add: gw0_def)
  have "\<exists>gw' w'. fallback_if_breaker_open env ctx (ts_name tool) (ts_circuit_breaker tool) (gw0, w) = ((gw', w'),
      case fb of Some out \<Rightarrow> Inr (Some out) | None \<Rightarrow> Inl (RuntimeError (''Tool '' @ py_repr (ts_name tool) @ '' circuit breaker is open'')))
      \<and> s_runs (w_store w') = s_runs (w_store w) \<and> stages_of w' = stages_of w"
    using closed by (cases fb) (simp_all add: fallback_if_breaker_open_def open_until_def Let_def fb_def [symmetric])
  then obtain gw' w' where f: "fallback_if_breaker_open env ctx (ts_name tool) (ts_circuit_breaker tool) (gw0, w) = ((gw', w'),
      case fb of Some out \<Rightarrow> Inr (Some out) | None \<Rightarrow> Inl (RuntimeError (''Tool '' @ py_repr (ts_name tool) @ '' circuit breaker is open'')))"
    "s_runs (w_store w') = s_runs (w_store w)" "stages_of w' = stages_of w" by blast
  have "tool_call env ctx nm inp key (gw, w) = ((gw', w'), Some (
      case fb of None \<Rightarrow> Inl (RuntimeError (''Tool '' @ py_repr (ts_name tool) @ '' circuit breaker is open''))
      | Some out \<Rightarrow> (case tool_validate_output (te_validate env) tool out of Inl e \<Rightarrow> Inl e | Inr _ \<Rightarrow> Inr out)))"
    using assms(1-3) f(1) by (cases fb) (simp_all add: tool_call_def Let_def gw0_def [symmetric] split: sum.splits)
  moreover have "(case fb of None \<Rightarrow> a | Some out \<Rightarrow> g out) =
      (case map_of (ts_circuit_breaker tool) ''fallback_output'' of None \<Rightarrow> a | Some out \<Rightarrow> if out = JNull then a else g out)"
    for a :: "py_exc + json" and g by (auto simp: fb_def split: option.splits json.splits)
  ultimately show ?thesis using f(2,3) by simp
qed

definition with_backends ::
    "(int \<Rightarrow> string \<Rightarrow> dict \<Rightarrow> world \<Rightarrow> world \<times> (py_exc + json)) \<Rightarrow>
     (int \<Rightarrow> string \<Rightarrow> string \<Rightarrow> dict \<Rightarrow> world \<Rightarrow> world \<times> (py_exc + mcp_item list \<times> bool)) \<Rightarrow>
     (int \<Rightarrow> string \<Rightarrow> string \<Rightarrow> dict \<Rightarrow> (string \<times> string) list \<Rightarrow> rat \<Rightarrow> world \<Rightarrow> world \<times> (py_exc + json option \<times> string)) \<Rightarrow>
     tool_env \<Rightarrow> tool_env" where
  "with_backends py mcp http env = env\<lparr>te_python := py, te_mcp := mcp, te_http := http\<rparr>"

lemma with_backends_simps [simp]:
  "te_others (with_backends p m h env) = te_others env" "te_clk (with_backends p m h env) = te_clk env"
  "te_monotonic (with_backends p m h env) = te_monotonic env" "te_validate (with_backends p m h env) = te_validate env"
  "te_hook_end (with_backends p m h env) = te_hook_end env" "te_policy (with_backends p m h env) = te_policy env"
  "te_interrupt (with_backends p m h env) = te_interrupt env" "te_sleep (with_backends p m h env) = te_sleep env"
  "te_text (with_backends p m h env) = te_text env" "te_b64 (with_backends p m h env) = te_b64 env"
  "te_python (with_backends p m h env) = p" "te_mcp (with_backends p m h env) = m" "te_http (with_backends p m h env) = h"
  by (simp_all add: with_backends_def)

lemma with_backends_frame [simp]:
  "gateway_log (with_backends p m h env) = gateway_log env" "end_hook (with_backends p m h env) = end_hook env"
  "complete_side_effect_operation (with_backends p m h env) = complete_side_effect_operation env"
  "business_field (with_backends p m h env) = business_field env"
  "headers_for_endpoint (with_backends p m h env) = headers_for_endpoint env"
  "json_repr (with_backends p m h env) = json_repr env" "lookup_handler (with_backends p m h env) = lookup_handler env"
  "tool_failed (with_backends p m h env) = tool_failed env" "tool_exhausted (with_backends p m h env) = tool_exhausted env"
proof -
  show a: "gateway_log (with_backends p m h env) = gateway_log env" "end_hook (with_backends p m h env) = end_hook env"
    "json_repr (with_backends p m h env) = json_repr env"
    by (unfold gateway_log_def end_hook_def json_repr_def with_backends_simps) (rule refl)+
  show "complete_side_effect_operation (with_backends p m h env) = complete_side_effect_operation env"
    "business_field (with_backends p m h env) = business_field env"
    "headers_for_endpoint (with_backends p m h env) = headers_for_endpoint env"
    "lookup_handler (with_backends p m h env) = lookup_handler env"
    "tool_failed (with_backends p m h env) = tool_failed env" "tool_exhausted (with_backends p m h env) = tool_exhausted env"
    by (unfold complete_side_effect_operation_def business_field_def headers_for_endpoint_def
        lookup_handler_def tool_failed_def tool_exhausted_def with_backends_simps a) (rule refl)+
qed

lemma invoke_with_backends:
  assumes "p a = te_python env a" "m a = te_mcp env a" "h a = te_http env a"
  shows "invoke (with_backends p m h env) gw a = invoke env gw a"
  unfolding invoke_def invoke_python_def invoke_mcp_def invoke_http_def with_backends_simps with_backends_frame assms
  by (rule refl)

lemma try_tool_with_backends:
  assumes "p a = te_python env a" "m a = te_mcp env a" "h a = te_http env a"
  shows "try_tool (with_backends p m h env) ctx hk tool inp key ident a gww = try_tool env ctx hk tool inp key ident a gww"
  unfolding try_tool_def accept_output_def reject_output_def with_backends_simps with_backends_frame
    invoke_with_backends [of p a env m h, OF assms] by (rule refl)

lemma tool_attempts_with_backends:
  "(\<forall>a \<in> set as. p a = te_python env a \<and> m a = te_mcp env a \<and> h a = te_http env a) \<Longrightarrow>
   tool_attempts (with_backends p m h env) ctx hk tool inp key ident n as e gww =
   tool_attempts env ctx hk tool inp key ident n as e gww"
proof (induction as arbitrary: e gww)
  case Nil
  show ?case unfolding tool_attempts.simps with_backends_frame by (rule refl)
next
  case (Cons a as)
  have t: "try_tool (with_backends p m h env) ctx hk tool inp key ident a gww = try_tool env ctx hk tool inp key ident a gww"
    by (rule try_tool_with_backends) (use Cons.prems in auto)
  have IH: "tool_attempts (with_backends p m h env) ctx hk tool inp key ident n as e' g = tool_attempts env ctx hk tool inp key ident n as e' g"
    for e' g using Cons by simp
  show ?case unfolding tool_attempts.simps t IH with_backends_frame by (rule refl)
qed

text \<open>
  A tool is called at most as often as its retry policy allows. The result of the loop
  depends only on what the backends do in the attempts 1 to \<open>attempts\<close>.
\<close>

theorem tool_attempts_bounded:
  assumes "\<forall>a. 1 \<le> a \<and> a \<le> attempts \<longrightarrow> p a = te_python env a \<and> m a = te_mcp env a \<and> h a = te_http env a"
  shows "tool_loop (with_backends p m h env) ctx hk tool inp key ident attempts gww
     = tool_loop env ctx hk tool inp key ident attempts gww"
  unfolding tool_loop_def by (rule tool_attempts_with_backends) (use assms in simp)

text \<open>
  A tool call revives a canceled run. The gateway takes whatever status it reads as
  the expected one and replaces it by \<^verbatim>\<open>WAITING_TOOL\<close>: a run that is executed without a worker
  id and was canceled meanwhile is put back into an executing status, in which the executor's
  completion is accepted again.
\<close>

theorem tool_call_revives_canceled_run:
  assumes "world_wf w" and "world_row (ac_run_id ctx) w = Some run" and "ar_status run = CANCELED"
    and "ar_worker run = None" and "ac_worker_id ctx = None" and "te_others env 9 w = w"
  shows "\<exists>w' row. mark_waiting_tool env ctx nm w = (w', None) \<and> world_row (ac_run_id ctx) w' = Some row
     \<and> ar_status row = WAITING_TOOL
     \<and> (\<forall>now out. \<exists>w''. update_owned now (row\<lparr>ar_status := AGENT_SUCCEEDED, ar_output := out\<rparr>) EXECUTING_RUN_STATUSES None w' = (w'', True))"
proof -
  define new where "new = run\<lparr>ar_status := WAITING_TOOL, ar_current_step := Some (''tool:'' @ nm)\<rparr>"
  have id: "ar_run_id run = ac_run_id ctx" using assms(2) by (auto simp: world_row_def dest: runs_get_SomeD)
  have "owned new {CANCELED} None w" using assms(2-4) id by (simp add: owned_def new_def)
  then obtain w' where u: "update_owned (te_clk env 9) new {CANCELED} None w = (w', True)" and wf: "world_wf w'"
    and row: "world_row (ac_run_id ctx) w' = Some (new\<lparr>ar_update_time := te_clk env 9\<rparr>)"
    using update_owned_won [OF assms(1), of new "{CANCELED}" None "te_clk env 9"] id by (auto simp: new_def)
  let ?row = "new\<lparr>ar_update_time := te_clk env 9\<rparr>"
  have "mark_waiting_tool env ctx nm w = (w', None)"
    using assms(2,3,5,6) u by (simp add: mark_waiting_tool_def new_def)
  moreover have "\<exists>w''. update_owned now (?row\<lparr>ar_status := AGENT_SUCCEEDED, ar_output := out\<rparr>) EXECUTING_RUN_STATUSES None w' = (w'', True)"
    for now out
  proof -
    have "owned (?row\<lparr>ar_status := AGENT_SUCCEEDED, ar_output := out\<rparr>) EXECUTING_RUN_STATUSES None w'"
      using row assms(4) id by (simp add: owned_def new_def status_defs)
    then show ?thesis using update_owned_won [OF wf] by metis
  qed
  ultimately show ?thesis using row by (auto simp: new_def)
qed

section \<open>Witnesses\<close>

definition demo_tool :: "operation_type \<Rightarrow> dict \<Rightarrow> tool_spec" where
  "demo_tool op breaker_config = \<lparr>ts_name = ''pay'', ts_description = [], ts_version = ''1'', ts_input_schema = [],
     ts_output_schema = [], ts_endpoint = [(''protocol'', JStr ''python''), (''target'', JStr ''m:f'')], ts_timeout_seconds = 30,
     ts_max_concurrency = 1, ts_qps = None,
     ts_retry_policy = \<lparr>rp_max_attempts = 2, rp_backoff_seconds = 0, rp_backoff_type = ''fixed''\<rparr>,
     ts_operation_type = op, ts_idempotency_key_header = None, ts_allowed_agents = [], ts_enabled = True, ts_owner = None,
     ts_circuit_breaker = breaker_config, ts_managed_by = ''yaml'', ts_updated_by = None\<rparr>"

definition demo_tool_env :: tool_env where
  "demo_tool_env = \<lparr>te_clk = int, te_monotonic = of_nat, te_others = (\<lambda>_ w. w), te_validate = (\<lambda>_ _. Inr None),
     te_qps_turns = [], te_hook_start = None, te_hook_end = None, te_run_slot = (\<lambda>_ w. (w, None)), te_leave_slot = (\<lambda>_ w. w),
     te_python = (\<lambda>a target d w. (w, Inr (JStr ''paid''))), te_mcp = (\<lambda>a s t d w. (w, Inr ([], False))),
     te_http = (\<lambda>a me u d h t w. (w, Inr (None, []))), te_policy = (\<lambda>_. None), te_interrupt = (\<lambda>_. None),
     te_sleep = (\<lambda>a s w. (w, None)), te_text = (\<lambda>_. ''x''), te_digest = (\<lambda>_. ''d''), te_sha = (\<lambda>_. ''abcdef0123''),
     te_b64 = (\<lambda>s. s), te_stage_id = ''S9'', te_execution_id = ''E9''\<rparr>"

definition demo_gateway :: "tool_spec \<Rightarrow> breakers \<Rightarrow> gateway" where
  "demo_gateway tool bs = \<lparr>gw_registry = [(ts_name tool, tool)], gw_failure_handlers = [], gw_input_guardrails = [],
     gw_output_guardrails = [], gw_semaphores = [], gw_qps = [], gw_breaker = bs, gw_mcp_sessions = []\<rparr>"

abbreviation demo_prepared :: "world \<times> (py_exc + string \<times> string \<times> string \<times> json option)" where
  "demo_prepared \<equiv> prepare_side_effect_operation demo_tool_env demo_actx (demo_tool SIDE_EFFECTING []) [] None demo_stage_world"

lemmas demo_prep_defs = prepare_side_effect_operation_def Let_def side_effect_stage_def side_effect_key_def new_agent_stage_def
  get_or_create_def stages_get_def begin_side_effect_once_def update_returning_def mark_side_effect_dispatched_def update_where_def
  dispatch_row_def stage_uk_def demo_tool_env_def demo_actx_def demo_tool_def demo_stage_world_def demo_world_def demo_store_def
  stages_of_def set_stages_def

lemma demo_prepared_result:
  "snd demo_prepared = Inr (''tool:pay:abcdef0123'', ''R:tool:pay:abcdef0123'', ''E9'', None)"
  "map (\<lambda>s. (st_run_id s, st_stage_key s, st_idempotency_key s, st_status s)) (stages_of (fst demo_prepared))
     = [(''R'', ''tool:pay:abcdef0123'', ''R:tool:pay:abcdef0123'', S_OUTCOME_UNKNOWN)]"
  by (simp_all add: demo_prep_defs)

lemma orderly_demo_tool [simp]: "orderly_tool_env r demo_tool_env" "te_others demo_tool_env i w = w"
  by (simp_all add: orderly_tool_env_def orderly_def demo_tool_env_def)

theorem side_effect_is_sent_once_witness:
  "snd (call_with_retries demo_tool_env demo_actx (hook_context_of demo_actx) (demo_tool SIDE_EFFECTING []) [] None
      (demo_gateway (demo_tool SIDE_EFFECTING []) [], fst demo_prepared))
     = Inl (SideEffectOutcomeUnknownError ''pay'' ''a prior dispatch did not commit a confirmed response'')"
proof -
  let ?tool = "demo_tool SIDE_EFFECTING []" and ?sk = "''tool:pay:abcdef0123''" and ?dk = "''R:tool:pay:abcdef0123''"
  obtain w1 r where p0: "demo_prepared = (w1, r)" by fastforce
  then have p: "demo_prepared = (w1, Inr (?sk, ?dk, ''E9'', None))" using demo_prepared_result(1) by simp
  have run: "ac_run_id demo_actx = ''R''" by (simp add: demo_actx_def)
  have rows: "map (\<lambda>s. (st_run_id s, st_stage_key s, st_idempotency_key s, st_status s)) (stages_of w1) = [(''R'', ?sk, ?dk, S_OUTCOME_UNKNOWN)]"
    using demo_prepared_result(2) p0 by simp
  then obtain row where row: "stages_of w1 = [row]" "st_run_id row = ''R''" "st_stage_key row = ?sk" "st_status row = S_OUTCOME_UNKNOWN"
    by auto
  have d: "keys_distinct stage_uk (stages_of demo_stage_world)"
    by (simp add: demo_stage_world_def demo_world_def demo_store_def stages_of_def keys_distinct_def)
  have get: "stages_get ''R'' ?sk (stages_of (te_others demo_tool_env 0 w1)) = Some row"
    using row by (simp add: stages_get_def stage_uk_def)
  have "\<exists>s. stages_get (ac_run_id demo_actx) ?sk (stages_of (te_others demo_tool_env 0 w1)) = Some s \<and>
      call_with_retries demo_tool_env demo_actx (hook_context_of demo_actx) ?tool [] None (demo_gateway ?tool [], w1) =
      ((demo_gateway ?tool [], te_others demo_tool_env 0 w1), if st_status s = S_SUCCEEDED then Inr (st_output s)
        else Inl (SideEffectOutcomeUnknownError (ts_name ?tool) ''a prior dispatch did not commit a confirmed response''))"
  proof (rule side_effect_is_sent_once [OF p d _ _ evolves_refl _ refl refl refl])
    show "ts_operation_type ?tool = SIDE_EFFECTING" by (simp add: demo_tool_def)
    show "\<forall>s. stages_get (ac_run_id demo_actx) ?sk (stages_of (te_others demo_tool_env 0 w1)) = Some s \<longrightarrow>
        st_output s \<noteq> JNull \<or> st_status s \<noteq> S_SUCCEEDED" using get row(4) by (simp add: run)
  qed (use row in simp_all)
  then show ?thesis using p0 get row(4) run by (simp add: demo_tool_def)
qed

theorem open_breaker_blocks_calls_witness:
  "\<exists>gw' w'. tool_call demo_tool_env demo_actx ''pay'' [] None
       (demo_gateway (demo_tool READ_ONLY [(''fallback_output'', JObj [])]) [(''pay'', \<lparr>br_failures = 3, br_open_until = 60\<rparr>)], demo_stage_world)
     = ((gw', w'), Some (Inr (JObj [])))"
proof -
  let ?tool = "demo_tool READ_ONLY [(''fallback_output'', JObj [])]"
  let ?gw = "demo_gateway ?tool [(''pay'', \<lparr>br_failures = 3, br_open_until = 60\<rparr>)]"
  have t: "tools_get ''pay'' (gw_registry ?gw) = Inr ?tool" by (simp add: tools_get_def demo_gateway_def demo_tool_def)
  have a: "validate_allowed ?tool (as_name (ac_agent demo_actx)) = Inr ()" by (simp add: validate_allowed_def demo_tool_def)
  have i: "tool_validate_input (te_validate demo_tool_env) ?tool (JObj []) = Inr ()"
    by (simp add: tool_validate_input_def demo_tool_env_def)
  have o': "te_monotonic demo_tool_env 0 < br_open_until (breaker_of (ts_name ?tool) (gw_breaker ?gw))"
    by (simp add: demo_tool_env_def breaker_of_def demo_gateway_def demo_tool_def)
  show ?thesis
    using open_breaker_blocks_calls [OF t a i o', of None demo_stage_world]
    by (auto simp: demo_tool_def tool_validate_output_def demo_tool_env_def)
qed

theorem tool_attempts_bounded_witness:
  "tool_loop (with_backends (\<lambda>a. if a \<le> 2 then te_python demo_tool_env a else (\<lambda>t d w. (w, Inl CancelledError)))
       (te_mcp demo_tool_env) (te_http demo_tool_env) demo_tool_env) demo_actx (hook_context_of demo_actx) (demo_tool READ_ONLY []) [] None None 2
       (demo_gateway (demo_tool READ_ONLY []) [], demo_stage_world)
   = tool_loop demo_tool_env demo_actx (hook_context_of demo_actx) (demo_tool READ_ONLY []) [] None None 2
       (demo_gateway (demo_tool READ_ONLY []) [], demo_stage_world)"
  by (rule tool_attempts_bounded) simp

theorem tool_call_revives_canceled_run_witness:
  "\<exists>w' row. mark_waiting_tool demo_tool_env (demo_actx\<lparr>ac_worker_id := None\<rparr>) ''pay'' (demo_world (demo_run None CANCELED)) = (w', None)
     \<and> world_row ''R'' w' = Some row \<and> ar_status row = WAITING_TOOL"
  using tool_call_revives_canceled_run [of "demo_world (demo_run None CANCELED)" "demo_actx\<lparr>ac_worker_id := None\<rparr>"
      "demo_run None CANCELED" demo_tool_env "''pay''"]
  by (auto simp: demo_actx_def)

end
