(* ===== verification/Skill_Artifact.thy ===== *)
theory Skill_Artifact
  imports Codec "HOL-Library.List_Lexorder"
begin

text \<open>
  Skill artifacts (\<^verbatim>\<open>src/domain/skill_spec.py\<close>, \<^verbatim>\<open>src/framework/skill/loader.py\<close>): base64 file contents,
  the validators of the models, \<^verbatim>\<open>SKILL.md\<close>, the manifest, resource paths and the content hash.

  A \<^verbatim>\<open>bytes\<close> value is the list of its bytes, so that decoding UTF-8 is a check.  YAML, SHA-256
  and the MIME table are parameters of the loader, and so is what the file system holds for
  a Skill that is not stored in the database.

  The theorems: the accepted contents are exactly the base64 encodings and decode to what was
  encoded; an artifact that passes verification has the files that were hashed; a resource
  that is read lies under \<^verbatim>\<open>references/\<close> or \<^verbatim>\<open>assets/\<close>; and a binary resource named without its
  directory cannot be opened.
\<close>

section \<open>Bytes and text\<close>

text \<open>What \<^verbatim>\<open>bytes.decode("utf-8")\<close> accepts: no overlong forms, no surrogates, nothing above U+10FFFF.\<close>

fun valid_utf8 :: "string \<Rightarrow> bool" where
  "valid_utf8 [] = True"
| "valid_utf8 (a # s) =
     (let n = byte a in
      if n < 128 then valid_utf8 s
      else if 194 \<le> n \<and> n < 224 then (case s of b # s' \<Rightarrow> tail_byte b \<and> valid_utf8 s' | _ \<Rightarrow> False)
      else if 224 \<le> n \<and> n < 240 then (case s of b # c # s' \<Rightarrow> tail_byte b \<and> tail_byte c
          \<and> (n = 224 \<longrightarrow> 160 \<le> byte b) \<and> (n = 237 \<longrightarrow> byte b < 160) \<and> valid_utf8 s' | _ \<Rightarrow> False)
      else if 240 \<le> n \<and> n < 245 then (case s of b # c # d # s' \<Rightarrow> tail_byte b \<and> tail_byte c \<and> tail_byte d
          \<and> (n = 240 \<longrightarrow> 144 \<le> byte b) \<and> (n = 244 \<longrightarrow> byte b < 144) \<and> valid_utf8 s' | _ \<Rightarrow> False)
      else False)"

section \<open>Base64\<close>

text \<open>The digits are \<^verbatim>\<open>A-Z\<close>, \<^verbatim>\<open>a-z\<close>, \<^verbatim>\<open>0-9\<close>, \<^verbatim>\<open>+\<close> and \<^verbatim>\<open>/\<close>.\<close>

definition b64_digit :: "nat \<Rightarrow> char" where
  "b64_digit n = char_of (if n < 26 then n + 65 else if n < 52 then n + 71 else if n < 62 then n - 4 else if n = 62 then 43 else 47 :: nat)"

definition b64_value :: "char \<Rightarrow> nat option" where
  "b64_value c = (let n = byte c in
     if 65 \<le> n \<and> n \<le> 90 then Some (n - 65)
     else if 97 \<le> n \<and> n \<le> 122 then Some (n - 71)
     else if 48 \<le> n \<and> n \<le> 57 then Some (n + 4)
     else if n = 43 then Some 62 else if n = 47 then Some 63 else None)"

fun b64encode :: "string \<Rightarrow> string" where
  "b64encode [] = []"
| "b64encode [a] = [b64_digit (byte a div 4), b64_digit (byte a mod 4 * 16), CHR ''='', CHR ''='']"
| "b64encode [a, b] = (let n = byte a * 256 + byte b in
     [b64_digit (n div 16 div 64), b64_digit (n div 16 mod 64), b64_digit (n mod 16 * 4), CHR ''=''])"
| "b64encode (a # b # c # s) = (let n = (byte a * 256 + byte b) * 256 + byte c in
     b64_digit (n div 64 div 64 div 64) # b64_digit (n div 64 div 64 mod 64) # b64_digit (n div 64 mod 64) # b64_digit (n mod 64)
     # b64encode s)"

text \<open>\<^verbatim>\<open>base64.b64decode(value, validate=True)\<close>; bits that no byte uses are dropped.\<close>

fun b64decode :: "string \<Rightarrow> string option" where
  "b64decode [] = Some []"
| "b64decode (a # b # c # d # s) =
     (case (b64_value a, b64_value b) of
        (Some x, Some y) \<Rightarrow>
          if c = CHR ''='' \<and> d = CHR ''='' then (if s = [] then Some [char_of (x * 4 + y div 16)] else None)
          else (case b64_value c of None \<Rightarrow> None
            | Some z \<Rightarrow>
                if d = CHR ''='' then
                  (if s = [] then let n = (x * 64 + y) * 16 + z div 4 in Some [char_of (n div 256), char_of (n mod 256)] else None)
                else (case (b64_value d, b64decode s) of
                    (Some w, Some r) \<Rightarrow> let n = ((x * 64 + y) * 64 + z) * 64 + w in
                      Some (char_of (n div 256 div 256) # char_of (n div 256 mod 256) # char_of (n mod 256) # r)
                  | _ \<Rightarrow> None))
      | _ \<Rightarrow> None)"
| "b64decode _ = None"

lemma byte_less [simp]: "byte c < 256"
  by (simp add: byte_def)

lemma char_of_byte [simp]: "char_of (byte c) = c"
  by (simp add: byte_def)

lemma byte_char_of [simp]: "byte (char_of n) = n mod 256"
  by (simp add: byte_def)

lemma char_of_low [simp]: "char_of (k * 256 + byte b) = b"
proof -
  have "char_of (k * 256 + byte b) = (char_of ((k * 256 + byte b) mod 256) :: char)" by (simp only: char_of_mod_256)
  then show ?thesis by simp
qed

lemma b64_value_digit [simp]: "n < 64 \<Longrightarrow> b64_value (b64_digit n) = Some n"
  by (auto simp: b64_value_def b64_digit_def Let_def)

lemma b64_value_pad: "b64_value CHR ''='' = None"
  by (simp add: b64_value_def byte_def Let_def)

lemma b64_digit_pad [simp]: "n < 64 \<Longrightarrow> b64_digit n \<noteq> CHR ''=''"
  using b64_value_digit [of n] by (metis b64_value_pad option.distinct(1))

lemma b64_regroup:
  fixes n :: nat
  shows "((n div 64 div 64 div 64 * 64 + n div 64 div 64 mod 64) * 64 + n div 64 mod 64) * 64 + n mod 64 = n"
  by (simp add: div_mult_mod_eq)

lemma b64_roundtrip: "b64decode (b64encode s) = Some s"
proof (induction s rule: b64encode.induct)
  case (2 a)
  have "byte a div 4 < 64" "byte a mod 4 * 16 < 64" using byte_less [of a] by linarith+
  then show ?case by (simp add: div_mult_mod_eq)
next
  case (3 a b)
  let ?n = "byte a * 256 + byte b"
  have n: "?n < 65536" using byte_less [of a] byte_less [of b] by linarith
  have d: "?n div 16 div 64 < 64" "?n mod 16 * 4 < 64" using n by (simp_all add: div_mult2_eq [symmetric])
  have "?n div 256 = byte a" "?n mod 256 = byte b" by simp_all
  then show ?case using d by (simp add: Let_def div_mult_mod_eq)
next
  case (4 a b c s)
  define m where "m = byte a * 256 + byte b"
  let ?n = "m * 256 + byte c"
  have m: "m div 256 = byte a" "char_of m = b" by (simp_all add: m_def)
  have "m \<le> 65535" using byte_less [of a] byte_less [of b] unfolding m_def by linarith
  then have "m * 256 + byte c < 16777216" using byte_less [of c] by linarith
  then have d: "?n div 64 div 64 div 64 < 64" by (simp add: div_mult2_eq [symmetric])
  have n: "?n div 256 = m" by simp
  have e: "b64encode (a # b # c # s) = b64_digit (?n div 64 div 64 div 64) # b64_digit (?n div 64 div 64 mod 64) # b64_digit (?n div 64 mod 64)
      # b64_digit (?n mod 64) # b64encode s"
    by (simp only: b64encode.simps Let_def m_def)
  show ?case unfolding e using d 4 m by (simp add: Let_def b64_regroup n)
qed simp

section \<open>Paths\<close>

text \<open>\<^verbatim>\<open>pathlib.Path\<close> on relative paths: empty components and single dots disappear.\<close>

definition path_absolute :: "string \<Rightarrow> bool" where
  "path_absolute s = prefix ''/'' s"

definition path_parts :: "string \<Rightarrow> string list" where
  "path_parts s = filter (\<lambda>p. p \<noteq> [] \<and> p \<noteq> ''.'') (split_on CHR ''/'' s)"

fun join_slash :: "string list \<Rightarrow> string" where
  "join_slash [] = []"
| "join_slash [p] = p"
| "join_slash (p # ps) = p @ ''/'' @ join_slash ps"

definition as_posix :: "string \<Rightarrow> string" where
  "as_posix s = (if path_parts s = [] then ''.'' else join_slash (path_parts s))"

section \<open>Models\<close>

text \<open>What \<^verbatim>\<open>yaml.safe_load\<close> returns; \<open>YOther\<close> stands for dates, binary data and sets.\<close>

datatype yaml = YNull | YBool bool | YNum rat | YStr string | YList "yaml list" | YMap "(yaml \<times> yaml) list" | YOther string

fun yaml_truthy :: "yaml \<Rightarrow> bool" where
  "yaml_truthy YNull = False"
| "yaml_truthy (YBool b) = b"
| "yaml_truthy (YNum x) = (x \<noteq> 0)"
| "yaml_truthy (YStr s) = (s \<noteq> [])"
| "yaml_truthy (YList xs) = (xs \<noteq> [])"
| "yaml_truthy (YMap m) = (m \<noteq> [])"
| "yaml_truthy (YOther _) = True"

definition yaml_get :: "string \<Rightarrow> (yaml \<times> yaml) list \<Rightarrow> yaml option" where
  "yaml_get k m = map_of m (YStr k)"

record script_spec =
  sp_name :: string
  sp_path :: string
  sp_interpreter :: string
  sp_description :: string
  sp_input_schema :: "(string \<times> yaml) list"
  sp_output_schema :: "(string \<times> yaml) list"
  sp_timeout_seconds :: int
  sp_max_output_bytes :: int
  sp_operation_type :: string
  sp_idempotency_key_required :: bool
  sp_network :: bool
  sp_writable_paths :: "string list"

record artifact_file =
  fl_path :: string
  fl_content_base64 :: string
  fl_mime_type :: "string option"

record skill_spec =
  sk_name :: string
  sk_version :: string
  sk_description :: string
  sk_source_path :: string
  sk_content_hash :: string
  sk_enabled :: bool
  sk_compatibility :: "string option"
  sk_allowed_tools :: "string list"
  sk_scripts :: "script_spec list"
  sk_artifact :: "artifact_file list"
  sk_metadata :: "(string \<times> string) list"
  sk_owner :: "string option"
  sk_managed_by :: string
  sk_updated_by :: "string option"

definition validate_content_base64 :: "string \<Rightarrow> py_exc + string" where
  "validate_content_base64 v =
     (case b64decode v of
        None \<Rightarrow> Inl (ValueError ''Skill artifact file content must be valid base64'')
      | Some content \<Rightarrow> if b64encode content \<noteq> v then Inl (ValueError ''Skill artifact file content must use canonical base64'')
          else Inr v)"

text \<open>
  \<^verbatim>\<open>content()\<close> decodes without validation; files are instances that passed the validators, for
  which both decodings agree and the default does not arise.
\<close>

definition file_content :: "artifact_file \<Rightarrow> string" where
  "file_content f = (case b64decode (fl_content_base64 f) of Some c \<Rightarrow> c | None \<Rightarrow> [])"

definition artifact_file_ok :: "artifact_file \<Rightarrow> bool" where
  "artifact_file_ok f = (validate_artifact_path (fl_path f) = Inr (fl_path f)
     \<and> validate_content_base64 (fl_content_base64 f) = Inr (fl_content_base64 f))"

definition skill_spec_ok :: "skill_spec \<Rightarrow> bool" where
  "skill_spec_ok s = (valid_skill_name (sk_name s)
     \<and> 1 \<le> char_count (sk_description s) \<and> char_count (sk_description s) \<le> 1024
     \<and> (case sk_compatibility s of None \<Rightarrow> True | Some c \<Rightarrow> 1 \<le> char_count c \<and> char_count c \<le> 500)
     \<and> distinct (map fl_path (sk_artifact s)))"

definition yaml_scalar :: "yaml \<Rightarrow> json option" where
  "yaml_scalar y = (case y of YNull \<Rightarrow> Some JNull | YBool b \<Rightarrow> Some (JBool b) | YNum x \<Rightarrow> Some (JNum x) | YStr s \<Rightarrow> Some (JStr s) | _ \<Rightarrow> None)"

definition yaml_field :: "(json \<Rightarrow> 'a option) \<Rightarrow> yaml \<Rightarrow> 'a option" where
  "yaml_field f y = Option.bind (yaml_scalar y) f"

definition yaml_strings :: "scalars \<Rightarrow> yaml \<Rightarrow> string list option" where
  "yaml_strings v y = (case y of YList xs \<Rightarrow> those (map (yaml_field (sc_str v)) xs) | _ \<Rightarrow> None)"

definition yaml_str_dict :: "yaml \<Rightarrow> (string \<times> yaml) list option" where
  "yaml_str_dict y = (case y of YMap m \<Rightarrow> those (map (\<lambda>(k, x). case k of YStr s \<Rightarrow> Some (s, x) | _ \<Rightarrow> None) m) | _ \<Rightarrow> None)"

definition yaml_or :: "(yaml \<times> yaml) list \<Rightarrow> string \<Rightarrow> 'a \<Rightarrow> (yaml \<Rightarrow> 'a option) \<Rightarrow> 'a option" where
  "yaml_or m k dflt f = (case yaml_get k m of None \<Rightarrow> Some dflt | Some y \<Rightarrow> f y)"

definition literal :: "string list \<Rightarrow> yaml \<Rightarrow> string option" where
  "literal xs y = (case y of YStr s \<Rightarrow> if s \<in> set xs then Some s else None | _ \<Rightarrow> None)"

definition script_validate :: "scalars \<Rightarrow> yaml \<Rightarrow> script_spec option" where
  "script_validate v y = (case y of YMap m \<Rightarrow> do {
     name \<leftarrow> Option.bind (yaml_get ''name'' m) (yaml_field (sc_str v));
     path \<leftarrow> Option.bind (yaml_get ''path'' m) (yaml_field (sc_str v));
     interpreter \<leftarrow> Option.bind (yaml_get ''interpreter'' m) (literal [''python'', ''bash'']);
     description \<leftarrow> yaml_or m ''description'' [] (yaml_field (sc_str v));
     input_schema \<leftarrow> yaml_or m ''input_schema'' [(''type'', YStr ''object'')] yaml_str_dict;
     output_schema \<leftarrow> yaml_or m ''output_schema'' [(''type'', YStr ''object'')] yaml_str_dict;
     timeout_seconds \<leftarrow> yaml_or m ''timeout_seconds'' 30 (yaml_field (sc_int v));
     max_output_bytes \<leftarrow> yaml_or m ''max_output_bytes'' 1048576 (yaml_field (sc_int v));
     operation_type \<leftarrow> yaml_or m ''operation_type'' ''read_only'' (literal [''read_only'', ''idempotent'', ''side_effecting'']);
     key_required \<leftarrow> yaml_or m ''idempotency_key_required'' False (yaml_field (sc_bool v));
     network \<leftarrow> yaml_or m ''network'' False (yaml_field (sc_bool v));
     writable_paths \<leftarrow> yaml_or m ''writable_paths'' [] (yaml_strings v);
     Some \<lparr>sp_name = name, sp_path = path, sp_interpreter = interpreter, sp_description = description,
       sp_input_schema = input_schema, sp_output_schema = output_schema, sp_timeout_seconds = timeout_seconds,
       sp_max_output_bytes = max_output_bytes, sp_operation_type = operation_type, sp_idempotency_key_required = key_required,
       sp_network = network, sp_writable_paths = writable_paths\<rparr> }
   | _ \<Rightarrow> None)"

section \<open>The loader\<close>

record loader =
  ld_max_resource_bytes :: nat
  ld_sha :: "string \<Rightarrow> string"
  ld_yaml :: "string \<Rightarrow> yaml option"
  ld_scalars :: scalars
  ld_mime :: "string \<Rightarrow> string option"
  ld_read_root :: "string \<Rightarrow> py_exc + string \<times> string \<times> artifact_file list"
  ld_local_instructions :: "skill_spec \<Rightarrow> py_exc + string"
  ld_local_resource :: "skill_spec \<Rightarrow> string \<Rightarrow> py_exc + string \<times> string"

definition invalid_skill :: "string \<Rightarrow> py_exc" where
  "invalid_skill m = SkillError ''SkillValidationError'' m"

definition resource_error :: "string \<Rightarrow> py_exc" where
  "resource_error m = SkillError ''SkillResourceError'' m"

definition artifact_mapping :: "artifact_file list \<Rightarrow> (string \<times> string) list" where
  "artifact_mapping fs = fold (\<lambda>f m. AList.update (fl_path f) (file_content f) m) fs []"

subsection \<open>The content hash\<close>

fun be_bytes :: "nat \<Rightarrow> nat \<Rightarrow> string" where
  "be_bytes 0 n = []"
| "be_bytes (Suc k) n = be_bytes k (n div 256) @ [char_of (n mod 256)]"

definition to_bytes :: "nat \<Rightarrow> nat \<Rightarrow> py_exc + string" where
  "to_bytes k n = (if n < 256 ^ k then Inr (be_bytes k n) else Inl (OtherException ''OverflowError'' ''int too big to convert''))"

text \<open>The bytes that the digest is fed with, file by file.\<close>

fun hash_input :: "(string \<times> string) list \<Rightarrow> py_exc + string" where
  "hash_input [] = Inr []"
| "hash_input ((name, content) # fs) =
     (case to_bytes 4 (length name) of Inl e \<Rightarrow> Inl e
      | Inr a \<Rightarrow> (case to_bytes 8 (length content) of Inl e \<Rightarrow> Inl e
          | Inr b \<Rightarrow> (case hash_input fs of Inl e \<Rightarrow> Inl e | Inr s \<Rightarrow> Inr (a @ name @ b @ content @ s))))"

definition sorted_files :: "(string \<times> string) list \<Rightarrow> (string \<times> string) list" where
  "sorted_files files = sort_key (\<lambda>f. map byte (fst f)) files"

definition artifact_content_hash :: "(string \<Rightarrow> string) \<Rightarrow> (string \<times> string) list \<Rightarrow> py_exc + string" where
  "artifact_content_hash sha files = (case hash_input (sorted_files files) of Inl e \<Rightarrow> Inl e | Inr s \<Rightarrow> Inr (sha s))"

subsection \<open>SKILL.md and the manifest\<close>

fun replace_crlf :: "string \<Rightarrow> string" where
  "replace_crlf (a # b # s) = (if byte a = 13 \<and> byte b = 10 then b # replace_crlf s else a # replace_crlf (b # s))"
| "replace_crlf s = s"

fun split_first :: "string \<Rightarrow> string \<Rightarrow> (string \<times> string) option" where
  "split_first sep [] = (if sep = [] then Some ([], []) else None)"
| "split_first sep (c # cs) = (if prefix sep (c # cs) then Some ([], drop (length sep) (c # cs))
     else map_option (\<lambda>(a, b). (c # a, b)) (split_first sep cs))"

definition newline :: string where
  "newline = [char_of (10 :: nat)]"

definition parse_skill_markdown_text :: "loader \<Rightarrow> string \<Rightarrow> string \<Rightarrow> py_exc + (yaml \<times> yaml) list \<times> string" where
  "parse_skill_markdown_text ld source content =
     (if \<not> valid_utf8 content then Inl (invalid_skill (source @ '' must be UTF-8 text''))
      else let text = replace_crlf content in
        if \<not> prefix (''---'' @ newline) text then Inl (invalid_skill ''SKILL.md must start with YAML frontmatter'')
        else (case split_first (newline @ ''---'' @ newline) (drop 4 text) of
            None \<Rightarrow> Inl (invalid_skill ''SKILL.md frontmatter is not closed'')
          | Some (front, body) \<Rightarrow>
              (case ld_yaml ld front of
                 None \<Rightarrow> Inl (invalid_skill ''SKILL.md frontmatter is not valid YAML'')
               | Some y \<Rightarrow> (case (if yaml_truthy y then y else YMap []) of
                     YMap m \<Rightarrow> Inr (m, str_strip body)
                   | _ \<Rightarrow> Inl (invalid_skill ''SKILL.md frontmatter must be a mapping'')))))"

text \<open>\<^verbatim>\<open>value.split()\<close>.\<close>

fun split_words :: "string \<Rightarrow> string \<Rightarrow> string list" where
  "split_words w [] = (if w = [] then [] else [w])"
| "split_words w (c # s) = (if ascii_space c then (if w = [] then split_words [] s else w # split_words [] s)
     else split_words (w @ [c]) s)"

definition parse_allowed_tools :: "yaml option \<Rightarrow> py_exc + string list" where
  "parse_allowed_tools y = (case y of None \<Rightarrow> Inr [] | Some YNull \<Rightarrow> Inr [] | Some (YStr s) \<Rightarrow> Inr (split_words [] s)
     | _ \<Rightarrow> Inl (invalid_skill ''SKILL.md allowed-tools must be a space-separated string''))"

definition unsafe_path :: "string \<Rightarrow> bool" where
  "unsafe_path p = (path_absolute p \<or> ''..'' \<in> set (path_parts p))"

fun check_scripts :: "string list \<Rightarrow> (string \<times> string) list \<Rightarrow> script_spec list \<Rightarrow> py_exc option" where
  "check_scripts seen files [] = None"
| "check_scripts seen files (s # ss) =
     (if sp_name s \<in> set seen then Some (invalid_skill (''Skill script '' @ py_repr (sp_name s) @ '' is declared more than once''))
      else if unsafe_path (sp_path s) \<or> path_parts (sp_path s) = [] \<or> hd (path_parts (sp_path s)) \<noteq> ''scripts''
        then Some (invalid_skill (''Skill script '' @ py_repr (sp_name s) @ '' must be under scripts/''))
      else if map_of files (as_posix (sp_path s)) = None
        then Some (invalid_skill (''Skill script '' @ py_repr (sp_name s) @ '' does not exist''))
      else check_scripts (sp_name s # seen) files ss)"

text \<open>In place of Pydantic's report, the error names the model.\<close>

definition load_manifest_scripts_from_files :: "loader \<Rightarrow> (string \<times> string) list \<Rightarrow> py_exc + script_spec list" where
  "load_manifest_scripts_from_files ld files =
     (case map_of files ''agents/platform.yaml'' of
        None \<Rightarrow> Inr []
      | Some content \<Rightarrow>
          (case (if valid_utf8 content then ld_yaml ld content else None) of
             None \<Rightarrow> Inl (invalid_skill ''agents/platform.yaml is not valid YAML'')
           | Some y \<Rightarrow>
               (case (if yaml_truthy y then y else YMap []) of
                  YMap m \<Rightarrow>
                    if yaml_get ''schema_version'' m \<notin> {Some (YNum 1), Some (YBool True)}
                    then Inl (invalid_skill ''agents/platform.yaml requires schema_version: 1'')
                    else (case yaml_or m ''scripts'' (YList []) Some of
                        Some (YList items) \<Rightarrow>
                          (case those (map (script_validate (ld_scalars ld)) items) of
                             None \<Rightarrow> Inl (invalid_skill ''Invalid Skill script declaration: SkillScriptSpec'')
                           | Some scripts \<Rightarrow> (case check_scripts [] files scripts of Some e \<Rightarrow> Inl e | None \<Rightarrow> Inr scripts))
                      | _ \<Rightarrow> Inl (invalid_skill ''agents/platform.yaml scripts must be a list''))
                | _ \<Rightarrow> Inl (invalid_skill ''agents/platform.yaml requires schema_version: 1''))))"

subsection \<open>Inspection and verification\<close>

definition string_field :: "string \<Rightarrow> (yaml \<times> yaml) list \<Rightarrow> string option" where
  "string_field k m = (case yaml_get k m of Some (YStr s) \<Rightarrow> if s = [] then None else Some s | _ \<Rightarrow> None)"

definition string_map :: "yaml \<Rightarrow> (string \<times> string) list option" where
  "string_map y = (case y of YMap m \<Rightarrow> those (map (\<lambda>(k, x). case (k, x) of (YStr a, YStr b) \<Rightarrow> Some (a, b) | _ \<Rightarrow> None) m) | _ \<Rightarrow> None)"

definition inspect_artifact :: "loader \<Rightarrow> artifact_file list \<Rightarrow> string \<Rightarrow> py_exc + skill_spec" where
  "inspect_artifact ld artifact source_path =
     (let files = artifact_mapping artifact in
      case map_of files ''SKILL.md'' of
        None \<Rightarrow> Inl (invalid_skill ''Skill artifact is missing SKILL.md'')
      | Some skill_md \<Rightarrow>
     (case parse_skill_markdown_text ld ''SKILL.md'' skill_md of Inl e \<Rightarrow> Inl e
      | Inr (frontmatter, _) \<Rightarrow>
     (case string_field ''name'' frontmatter of None \<Rightarrow> Inl (invalid_skill ''SKILL.md frontmatter requires a non-empty name'')
      | Some name \<Rightarrow>
     (case string_field ''description'' frontmatter of None \<Rightarrow> Inl (invalid_skill ''SKILL.md frontmatter requires a non-empty description'')
      | Some description \<Rightarrow>
     (case string_map (case yaml_get ''metadata'' frontmatter of None \<Rightarrow> YMap [] | Some y \<Rightarrow> if yaml_truthy y then y else YMap []) of
        None \<Rightarrow> Inl (invalid_skill ''SKILL.md metadata must be a string-to-string mapping'')
      | Some metadata \<Rightarrow>
     (case (case yaml_get ''compatibility'' frontmatter of None \<Rightarrow> Some None | Some YNull \<Rightarrow> Some None | Some (YStr c) \<Rightarrow> Some (Some c) | _ \<Rightarrow> None) of
        None \<Rightarrow> Inl (invalid_skill ''SKILL.md compatibility must be a string'')
      | Some compatibility \<Rightarrow>
     (case parse_allowed_tools (yaml_get ''allowed-tools'' frontmatter) of Inl e \<Rightarrow> Inl e
      | Inr allowed_tools \<Rightarrow>
     (case load_manifest_scripts_from_files ld files of Inl e \<Rightarrow> Inl e
      | Inr scripts \<Rightarrow>
     (case artifact_content_hash (ld_sha ld) files of Inl e \<Rightarrow> Inl e
      | Inr content_hash \<Rightarrow>
          let spec = \<lparr>sk_name = name, sk_version = (case map_of metadata ''version'' of Some v \<Rightarrow> v | None \<Rightarrow> ''1.0.0''),
                sk_description = description, sk_source_path = source_path, sk_content_hash = content_hash, sk_enabled = True,
                sk_compatibility = compatibility, sk_allowed_tools = allowed_tools, sk_scripts = scripts, sk_artifact = artifact,
                sk_metadata = metadata, sk_owner = None, sk_managed_by = ''yaml'', sk_updated_by = None\<rparr>
          in if skill_spec_ok spec then Inr spec else Inl (invalid_skill ''SkillSpec''))))))))))"

text \<open>
  A Skill that is not stored in the database: the checks of the path come first, then the
  directory (its relative path, its name and its files) is read.
\<close>

definition inspect_source :: "loader \<Rightarrow> string \<Rightarrow> py_exc + skill_spec" where
  "inspect_source ld source_path =
     (if path_absolute source_path then Inl (invalid_skill ''Skill source_path must be relative to the trusted root'')
      else if ''..'' \<in> set (path_parts source_path) then Inl (invalid_skill (''Skill source_path must not contain '' @ py_repr ''..''))
      else case ld_read_root ld source_path of Inl e \<Rightarrow> Inl e
        | Inr (relative, directory, files) \<Rightarrow>
            (case inspect_artifact ld files relative of Inl e \<Rightarrow> Inl e
             | Inr spec \<Rightarrow> if directory \<noteq> sk_name spec
                 then Inl (invalid_skill (''Skill directory '' @ py_repr directory @ '' does not match name '' @ py_repr (sk_name spec)))
                 else Inr spec))"

definition skill_verify :: "loader \<Rightarrow> skill_spec \<Rightarrow> py_exc + unit" where
  "skill_verify ld spec =
     (case (if sk_artifact spec \<noteq> [] then inspect_artifact ld (sk_artifact spec) (sk_source_path spec)
            else inspect_source ld (sk_source_path spec)) of
        Inl e \<Rightarrow> Inl e
      | Inr inspected \<Rightarrow>
          if sk_name inspected \<noteq> sk_name spec \<or> sk_version inspected \<noteq> sk_version spec
          then Inl (invalid_skill (''Skill artifact identity does not match '' @ sk_name spec @ ''@'' @ sk_version spec))
          else if sk_content_hash inspected \<noteq> sk_content_hash spec
          then Inl (invalid_skill (''Skill artifact hash does not match '' @ sk_name spec @ ''@'' @ sk_version spec))
          else Inr ())"

definition load_instructions :: "loader \<Rightarrow> skill_spec \<Rightarrow> py_exc + string" where
  "load_instructions ld spec =
     (if sk_artifact spec \<noteq> [] then
        (case map_of (artifact_mapping (sk_artifact spec)) ''SKILL.md'' of
           None \<Rightarrow> Inl (invalid_skill ''Skill artifact is missing SKILL.md'')
         | Some skill_md \<Rightarrow> (case parse_skill_markdown_text ld ''SKILL.md'' skill_md of Inl e \<Rightarrow> Inl e | Inr (_, body) \<Rightarrow> Inr body))
      else ld_local_instructions ld spec)"

subsection \<open>Resources\<close>

definition normalize_resource_path :: "string \<Rightarrow> string set \<Rightarrow> py_exc + string" where
  "normalize_resource_path relative_path available =
     (if unsafe_path relative_path then Inl (resource_error ''Skill resource path must be a safe relative path'')
      else let posix = as_posix relative_path in
        Inr (if prefix ''references/'' posix \<or> prefix ''assets/'' posix then posix
             else if ''references/'' @ posix \<in> available then ''references/'' @ posix
             else if ''assets/'' @ posix \<in> available then ''assets/'' @ posix
             else posix))"

definition validate_resource_path :: "string \<Rightarrow> py_exc + unit" where
  "validate_resource_path relative_path =
     (if unsafe_path relative_path then Inl (resource_error ''Skill resource path must be a safe relative path'')
      else if path_parts relative_path = [] \<or> hd (path_parts relative_path) \<notin> {''references'', ''assets''}
      then Inl (resource_error ''Skill resources must be under references/ or assets/'')
      else Inr ())"

definition artifact_resource :: "loader \<Rightarrow> skill_spec \<Rightarrow> string \<Rightarrow> py_exc + string" where
  "artifact_resource ld spec relative_path =
     (let files = artifact_mapping (sk_artifact spec) in
      case normalize_resource_path relative_path (fst ` set files) of Inl e \<Rightarrow> Inl e
      | Inr normalized \<Rightarrow>
          (case validate_resource_path normalized of Inl e \<Rightarrow> Inl e
           | Inr _ \<Rightarrow> (case map_of files normalized of
               None \<Rightarrow> Inl (resource_error (''Skill resource '' @ py_repr relative_path @ '' does not exist''))
             | Some content \<Rightarrow>
                 if ld_max_resource_bytes ld < length content
                 then Inl (resource_error (''Skill resource '' @ py_repr relative_path @ '' exceeds the configured size limit''))
                 else Inr content)))"

definition read_text_resource :: "loader \<Rightarrow> skill_spec \<Rightarrow> string \<Rightarrow> py_exc + string" where
  "read_text_resource ld spec relative_path =
     (case (if sk_artifact spec \<noteq> [] then artifact_resource ld spec relative_path
            else map_sum id snd (ld_local_resource ld spec relative_path)) of
        Inl e \<Rightarrow> Inl e
      | Inr content \<Rightarrow> if valid_utf8 content then Inr content
          else Inl (resource_error (''Skill resource '' @ py_repr relative_path @ '' is not UTF-8 text'')))"

record resource_handle =
  rh_name :: string
  rh_path :: string
  rh_mime_type :: string
  rh_content :: string

definition mime_or_default :: "loader \<Rightarrow> string \<Rightarrow> string" where
  "mime_or_default ld path = (case ld_mime ld path of Some m \<Rightarrow> if m = [] then ''application/octet-stream'' else m | None \<Rightarrow> ''application/octet-stream'')"

definition open_binary_resource :: "loader \<Rightarrow> skill_spec \<Rightarrow> string \<Rightarrow> py_exc + resource_handle" where
  "open_binary_resource ld spec relative_path =
     (if sk_artifact spec \<noteq> [] then
        (case artifact_resource ld spec relative_path of Inl e \<Rightarrow> Inl e
         | Inr content \<Rightarrow>
             (case find (\<lambda>f. fl_path f = relative_path) (sk_artifact spec) of
                None \<Rightarrow> Inl (OtherException ''StopIteration'' [])
              | Some f \<Rightarrow> Inr \<lparr>rh_name = sk_name spec, rh_path = relative_path,
                  rh_mime_type = (case fl_mime_type f of Some m \<Rightarrow> if m \<noteq> [] then m else mime_or_default ld relative_path
                    | None \<Rightarrow> mime_or_default ld relative_path),
                  rh_content = content\<rparr>))
      else (case ld_local_resource ld spec relative_path of Inl e \<Rightarrow> Inl e
        | Inr (file_name, content) \<Rightarrow> Inr \<lparr>rh_name = sk_name spec, rh_path = relative_path,
            rh_mime_type = mime_or_default ld file_name, rh_content = content\<rparr>))"

section \<open>Lemmas\<close>

lemma validate_content_base64_iff: "validate_content_base64 v = Inr v \<longleftrightarrow> (\<exists>s. v = b64encode s)"
  by (auto simp: validate_content_base64_def b64_roundtrip split: option.splits)

lemma file_content_encoded: "fl_content_base64 f = b64encode s \<Longrightarrow> file_content f = s"
  by (simp add: file_content_def b64_roundtrip)

lemma be_bytes_length [simp]: "length (be_bytes k n) = k"
  by (induction k arbitrary: n) auto

lemma be_bytes_Nil [simp]: "be_bytes k n = [] \<longleftrightarrow> k = 0"
  by (metis be_bytes_length length_0_conv)

lemma be_bytes_inj: "n < 256 ^ k \<Longrightarrow> m < 256 ^ k \<Longrightarrow> be_bytes k n = be_bytes k m \<Longrightarrow> n = m"
proof (induction k arbitrary: n m)
  case (Suc k)
  have "(char_of (n mod 256) :: char) = char_of (m mod 256)" "be_bytes k (n div 256) = be_bytes k (m div 256)"
    using Suc.prems(3) by simp_all
  moreover have "n div 256 < 256 ^ k" "m div 256 < 256 ^ k" using Suc.prems(1,2) by (simp_all add: less_mult_imp_div_less mult.commute)
  ultimately have "n div 256 = m div 256" "n mod 256 = m mod 256"
    using Suc.IH byte_char_of [of "n mod 256"] byte_char_of [of "m mod 256"] by (auto simp del: byte_char_of char_of_mod_256)
  then show ?case by (metis div_mult_mod_eq)
qed simp

text \<open>Lengths make the digest's input unambiguous: it determines the names and contents.\<close>

lemma hash_input_inj: "hash_input fs = Inr s \<Longrightarrow> hash_input gs = Inr s \<Longrightarrow> fs = gs"
proof (induction fs arbitrary: gs s)
  case Nil
  then show ?case by (cases gs rule: hash_input.cases) (auto simp: to_bytes_def split: if_splits sum.splits)
next
  case (Cons f fs)
  obtain n c where f: "f = (n, c)" by fastforce
  from Cons.prems(1) obtain r where n: "length n < 256 ^ 4" "length c < 256 ^ 8" and r: "hash_input fs = Inr r"
    and s: "s = be_bytes 4 (length n) @ n @ be_bytes 8 (length c) @ c @ r"
    by (auto simp: f to_bytes_def split: if_splits sum.splits)
  obtain n' c' gs' where g: "gs = (n', c') # gs'"
    using Cons.prems(2) s by (cases gs rule: hash_input.cases) (auto simp: to_bytes_def)
  from Cons.prems(2) obtain r' where n': "length n' < 256 ^ 4" "length c' < 256 ^ 8" and r': "hash_input gs' = Inr r'"
    and s': "s = be_bytes 4 (length n') @ n' @ be_bytes 8 (length c') @ c' @ r'"
    by (auto simp: g to_bytes_def split: if_splits sum.splits)
  have e: "be_bytes 4 (length n) = be_bytes 4 (length n')" "n @ be_bytes 8 (length c) @ c @ r = n' @ be_bytes 8 (length c') @ c' @ r'"
    using s s' by (simp_all add: append_eq_append_conv)
  from e(1) have "length n = length n'" by (rule be_bytes_inj [OF n(1) n'(1)])
  then have e2: "n = n'" "be_bytes 8 (length c) = be_bytes 8 (length c')" "c @ r = c' @ r'"
    using e(2) by (simp_all add: append_eq_append_conv)
  from e2(2) have "length c = length c'" by (rule be_bytes_inj [OF n(2) n'(2)])
  then have "c = c'" "r = r'" using e2(3) by (simp_all add: append_eq_append_conv)
  then show ?case using Cons.IH [OF r] r' f g e2(1) by simp
qed

lemma artifact_mapping_distinct: "distinct (map fst (artifact_mapping fs))"
proof -
  have "distinct (map fst m) \<Longrightarrow> distinct (map fst (fold (\<lambda>f m. AList.update (fl_path f) (file_content f) m) fs m))" for m
    by (induction fs arbitrary: m) (auto simp: distinct_update)
  then show ?thesis by (simp add: artifact_mapping_def)
qed

lemma sorted_files_inj:
  assumes "distinct (map fst m)" and "distinct (map fst m')" and "sorted_files m = sorted_files m'"
  shows "map_of m = map_of m'"
proof -
  have "set m = set m'" using arg_cong [OF assms(3), of set] by (simp add: sorted_files_def)
  then show ?thesis using map_of_inject_set [OF assms(1,2)] by simp
qed

lemma skill_verify_hash:
  assumes "skill_verify ld spec = Inr ()" and "sk_artifact spec \<noteq> []"
  shows "\<exists>s. hash_input (sorted_files (artifact_mapping (sk_artifact spec))) = Inr s \<and> sk_content_hash spec = ld_sha ld s"
proof -
  from assms obtain i where i: "inspect_artifact ld (sk_artifact spec) (sk_source_path spec) = Inr i" "sk_content_hash i = sk_content_hash spec"
    by (auto simp: skill_verify_def split: sum.splits if_splits)
  from i(1) have "artifact_content_hash (ld_sha ld) (artifact_mapping (sk_artifact spec)) = Inr (sk_content_hash i)"
    unfolding inspect_artifact_def Let_def by (auto split: option.splits sum.splits prod.splits if_splits)
  then show ?thesis using i(2) by (auto simp: artifact_content_hash_def split: sum.splits)
qed

section \<open>Properties\<close>

text \<open>
  The file contents that a Skill artifact accepts are exactly the base64 encodings of byte
  strings, and decoding one gives back the bytes that were encoded: two stored texts never
  stand for the same content.
\<close>

theorem content_base64_canonical:
  "(validate_content_base64 v = Inr v \<longleftrightarrow> (\<exists>s. v = b64encode s))
   \<and> file_content \<lparr>fl_path = p, fl_content_base64 = b64encode s, fl_mime_type = m\<rparr> = s"
  by (simp add: validate_content_base64_iff file_content_encoded)

text \<open>
  C13: Verification pins the files. Two artifacts that verify against the same content hash have the
  same files with the same contents, and hence the same instructions, unless SHA-256 collides
  on the two inputs it was given.
\<close>

theorem verified_artifact_is_pinned:
  assumes "skill_verify ld a = Inr ()" "skill_verify ld b = Inr ()" "sk_artifact a \<noteq> []" "sk_artifact b \<noteq> []"
    and hash: "sk_content_hash a = sk_content_hash b"
    and sha: "\<And>s t. hash_input (sorted_files (artifact_mapping (sk_artifact a))) = Inr s \<Longrightarrow>
       hash_input (sorted_files (artifact_mapping (sk_artifact b))) = Inr t \<Longrightarrow> ld_sha ld s = ld_sha ld t \<Longrightarrow> s = t"
  shows "map_of (artifact_mapping (sk_artifact a)) = map_of (artifact_mapping (sk_artifact b))
     \<and> load_instructions ld a = load_instructions ld b"
proof -
  obtain s t where st: "hash_input (sorted_files (artifact_mapping (sk_artifact a))) = Inr s" "sk_content_hash a = ld_sha ld s"
    "hash_input (sorted_files (artifact_mapping (sk_artifact b))) = Inr t" "sk_content_hash b = ld_sha ld t"
    using skill_verify_hash [OF assms(1,3)] skill_verify_hash [OF assms(2,4)] by blast
  then have "s = t" using sha hash by simp
  then have "sorted_files (artifact_mapping (sk_artifact a)) = sorted_files (artifact_mapping (sk_artifact b))"
    using st hash_input_inj by blast
  then have m: "map_of (artifact_mapping (sk_artifact a)) = map_of (artifact_mapping (sk_artifact b))"
    by (rule sorted_files_inj [OF artifact_mapping_distinct artifact_mapping_distinct])
  then show ?thesis using assms(3,4) by (simp add: load_instructions_def)
qed

text \<open>
  Reading a resource never leaves the resource directories: what is returned is the content
  of a file of the artifact whose path starts with \<^verbatim>\<open>references\<close> or \<^verbatim>\<open>assets\<close> and has no parent
  component, and it is not larger than the limit.
\<close>

theorem resource_is_confined:
  assumes "artifact_resource ld spec p = Inr c"
  shows "\<exists>path. map_of (artifact_mapping (sk_artifact spec)) path = Some c \<and> length c \<le> ld_max_resource_bytes ld
     \<and> hd (path_parts path) \<in> {''references'', ''assets''} \<and> ''..'' \<notin> set (path_parts path) \<and> \<not> path_absolute path
     \<and> (path = as_posix p \<or> path = ''references/'' @ as_posix p \<or> path = ''assets/'' @ as_posix p)"
  using assms
  by (auto simp: artifact_resource_def normalize_resource_path_def validate_resource_path_def unsafe_path_def Let_def
      split: sum.splits if_splits option.splits)

text \<open>
  A binary resource can be named without its directory only as long as nobody opens it: the
  content is found under the completed path, the file's entry is then looked up under the path
  as given, and a path that is not literally a file of the artifact ends in \<^verbatim>\<open>StopIteration\<close>.
\<close>

theorem bare_binary_resource_fails:
  assumes "sk_artifact spec \<noteq> []" and "artifact_resource ld spec p = Inr c" and "p \<notin> fl_path ` set (sk_artifact spec)"
  shows "open_binary_resource ld spec p = Inl (OtherException ''StopIteration'' [])"
  using assms by (auto simp: open_binary_resource_def find_None_iff split: option.split dest!: find_SomeD)

text \<open>An artifact with instructions and one binary resource.\<close>

definition demo_files :: "artifact_file list" where
  "demo_files = [\<lparr>fl_path = ''SKILL.md'', fl_content_base64 = b64encode (''---'' @ newline @ ''x'' @ newline @ ''---'' @ newline @ ''hi''), fl_mime_type = None\<rparr>,
     \<lparr>fl_path = ''assets/logo'', fl_content_base64 = b64encode ''PNG'', fl_mime_type = None\<rparr>]"

definition demo_loader :: loader where
  "demo_loader = \<lparr>ld_max_resource_bytes = 100, ld_sha = id,
     ld_yaml = (\<lambda>_. Some (YMap [(YStr ''name'', YStr ''demo''), (YStr ''description'', YStr ''d'')])), ld_scalars = strict_scalars,
     ld_mime = (\<lambda>_. None), ld_read_root = (\<lambda>_. Inl (invalid_skill [])), ld_local_instructions = (\<lambda>_. Inl (invalid_skill [])),
     ld_local_resource = (\<lambda>_ _. Inl (resource_error []))\<rparr>"

definition demo_skill :: skill_spec where
  "demo_skill = \<lparr>sk_name = ''demo'', sk_version = ''1.0.0'', sk_description = ''d'', sk_source_path = ''db'',
     sk_content_hash = (case hash_input (sorted_files (artifact_mapping demo_files)) of Inr s \<Rightarrow> s | Inl _ \<Rightarrow> []), sk_enabled = True,
     sk_compatibility = None, sk_allowed_tools = [], sk_scripts = [], sk_artifact = demo_files, sk_metadata = [], sk_owner = None,
     sk_managed_by = ''yaml'', sk_updated_by = None\<rparr>"

lemma demo_mapping: "artifact_mapping demo_files =
   [(''SKILL.md'', ''---'' @ newline @ ''x'' @ newline @ ''---'' @ newline @ ''hi''), (''assets/logo'', ''PNG'')]"
  by (simp add: demo_files_def artifact_mapping_def file_content_def b64_roundtrip del: b64encode.simps append.simps)

lemma demo_hash: "\<exists>s. hash_input (sorted_files (artifact_mapping demo_files)) = Inr s"
proof -
  have "sorted_files (artifact_mapping demo_files) = artifact_mapping demo_files"
    by (simp add: demo_mapping sorted_files_def byte_def)
  then show ?thesis by (simp add: demo_mapping to_bytes_def newline_def)
qed

lemma demo_parse: "parse_skill_markdown_text demo_loader ''SKILL.md'' (''---'' @ newline @ ''x'' @ newline @ ''---'' @ newline @ ''hi'')
   = Inr ([(YStr ''name'', YStr ''demo''), (YStr ''description'', YStr ''d'')], ''hi'')"
  by (simp add: parse_skill_markdown_text_def newline_def demo_loader_def byte_def str_strip_def ascii_space_def Let_def)

lemma demo_verified: "skill_verify demo_loader demo_skill = Inr ()"
proof -
  obtain s where s: "hash_input (sorted_files (artifact_mapping demo_files)) = Inr s" using demo_hash by blast
  have f: "map_of (artifact_mapping demo_files) ''SKILL.md'' = Some (''---'' @ newline @ ''x'' @ newline @ ''---'' @ newline @ ''hi'')"
    "map_of (artifact_mapping demo_files) ''agents/platform.yaml'' = None" by (simp_all add: demo_mapping)
  have "inspect_artifact demo_loader demo_files ''db'' = Inr (demo_skill\<lparr>sk_content_hash := s\<rparr>)"
    unfolding inspect_artifact_def Let_def f option.case demo_parse sum.case prod.case
    by (simp add: load_manifest_scripts_from_files_def f artifact_content_hash_def s string_field_def yaml_get_def string_map_def
        parse_allowed_tools_def skill_spec_ok_def valid_skill_name_def lower_alnum_def char_count_def tail_byte_def byte_def
        demo_loader_def demo_skill_def) (simp add: demo_files_def)
  then show ?thesis by (simp add: skill_verify_def demo_skill_def s) (simp add: demo_files_def)
qed

theorem verified_artifact_is_pinned_witness:
  "let other = demo_skill\<lparr>sk_description := ''other'', sk_enabled := False\<rparr> in
   map_of (artifact_mapping (sk_artifact demo_skill)) = map_of (artifact_mapping (sk_artifact other))
     \<and> load_instructions demo_loader demo_skill = load_instructions demo_loader other"
proof -
  have "skill_verify demo_loader (demo_skill\<lparr>sk_description := ''other'', sk_enabled := False\<rparr>) = Inr ()"
    using demo_verified by (auto simp: skill_verify_def split: sum.splits if_splits)
  from verified_artifact_is_pinned [OF demo_verified this] show ?thesis
    by (simp add: Let_def) (simp add: demo_skill_def demo_files_def demo_loader_def)
qed

lemma demo_logo: "artifact_resource demo_loader demo_skill ''logo'' = Inr ''PNG''"
  by (simp add: artifact_resource_def demo_skill_def demo_mapping normalize_resource_path_def validate_resource_path_def
      unsafe_path_def path_absolute_def path_parts_def as_posix_def demo_loader_def)

theorem resource_is_confined_witness:
  "\<exists>path. map_of (artifact_mapping (sk_artifact demo_skill)) path = Some ''PNG''
     \<and> (path = as_posix ''logo'' \<or> path = ''references/'' @ as_posix ''logo'' \<or> path = ''assets/'' @ as_posix ''logo'')"
  using resource_is_confined [OF demo_logo] by blast

theorem bare_binary_resource_fails_witness:
  "open_binary_resource demo_loader demo_skill ''logo'' = Inl (OtherException ''StopIteration'' [])"
  by (rule bare_binary_resource_fails [OF _ demo_logo]) (simp_all add: demo_skill_def demo_files_def)

end
