(* ===== verification/Skill_Session.thy ===== *)
theory Skill_Session
  imports Skill_Artifact Registry
begin

text \<open>
  Skills at run time: \<^verbatim>\<open>SkillRegistry\<close> (\<^verbatim>\<open>src/framework/registry.py\<close>), \<^verbatim>\<open>SkillSession\<close>
  (\<^verbatim>\<open>src/framework/skill/session.py\<close>), \<^verbatim>\<open>SkillRuntime\<close> (\<^verbatim>\<open>src/framework/skill/runtime.py\<close>) and the
  composition of instructions (\<^verbatim>\<open>src/framework/skill/catalog.py\<close>).  The audit callback is the list
  of the events it was called with.

  The theorems: the default version of a Skill is always an enabled registered one, and there
  is one whenever an enabled version exists; a session never holds more active Skills or
  instruction characters than it may; the catalog prompt fits its budget; and the snapshots
  taken when a run is submitted lead back to exactly the Skills that were resolved, whatever
  happens to other versions in between.
\<close>

section \<open>The registry of Skills\<close>

record skill_registry =
  kr_skills :: "((string \<times> string) \<times> skill_spec) list"
  kr_defaults :: "(string \<times> string) list"

definition enabled_versions :: "string \<Rightarrow> ((string \<times> string) \<times> skill_spec) list \<Rightarrow> string list" where
  "enabled_versions name skills = map (\<lambda>((n, v), s). v) (filter (\<lambda>((n, v), s). n = name \<and> sk_enabled s) skills)"

definition select_default :: "(string \<Rightarrow> 'k::linorder) \<Rightarrow> string \<Rightarrow> skill_registry \<Rightarrow> skill_registry" where
  "select_default vk name reg =
     (case max_by vk (enabled_versions name (kr_skills reg)) of
        None \<Rightarrow> reg
      | Some v \<Rightarrow> reg\<lparr>kr_defaults := AList.update name v (kr_defaults reg)\<rparr>)"

definition reselect_default :: "(string \<Rightarrow> 'k::linorder) \<Rightarrow> string \<Rightarrow> skill_registry \<Rightarrow> skill_registry" where
  "reselect_default vk name reg = select_default vk name (reg\<lparr>kr_defaults := AList.delete name (kr_defaults reg)\<rparr>)"

definition skill_register :: "(string \<Rightarrow> 'k::linorder) \<Rightarrow> skill_spec \<Rightarrow> bool \<Rightarrow> skill_registry \<Rightarrow> skill_registry" where
  "skill_register vk skill make_default reg =
     (let name = sk_name skill; version = sk_version skill;
          reg1 = reg\<lparr>kr_skills := AList.update (name, version) skill (kr_skills reg)\<rparr>
      in if \<not> sk_enabled skill
         then (if map_of (kr_defaults reg1) name = Some version then reselect_default vk name reg1 else reg1)
         else if make_default then reg1\<lparr>kr_defaults := AList.update name version (kr_defaults reg1)\<rparr>
         else if map_of (kr_defaults reg1) name = None then select_default vk name reg1
         else reg1)"

text \<open>The names are visited in the order of a set; the choices for different names do not interact.\<close>

definition new_skill_registry :: "(string \<Rightarrow> 'k::linorder) \<Rightarrow> skill_spec list \<Rightarrow> skill_registry" where
  "new_skill_registry vk skills =
     fold (\<lambda>name reg. select_default vk name reg) (remdups (map sk_name skills))
       (fold (\<lambda>s reg. skill_register vk s False reg) skills \<lparr>kr_skills = [], kr_defaults = []\<rparr>)"

definition skill_disabled :: "string \<Rightarrow> py_exc" where
  "skill_disabled m = SkillError ''SkillDisabledError'' m"

definition skill_not_found :: "string \<Rightarrow> py_exc" where
  "skill_not_found m = SkillError ''SkillNotFoundError'' m"

definition skill_get :: "string \<Rightarrow> string option \<Rightarrow> skill_registry \<Rightarrow> py_exc + skill_spec" where
  "skill_get name version reg =
     (case (if given version then version else map_of (kr_defaults reg) name) of
        None \<Rightarrow> if name \<in> fst ` fst ` set (kr_skills reg)
          then Inl (skill_disabled (''No enabled default version for Skill '' @ py_repr name))
          else Inl (skill_not_found (''Unknown Skill '' @ py_repr name))
      | Some v \<Rightarrow>
          (case map_of (kr_skills reg) (name, v) of
             None \<Rightarrow> Inl (skill_not_found (''Unknown Skill '' @ py_repr name @ ''@'' @ v))
           | Some skill \<Rightarrow> if \<not> sk_enabled skill then Inl (skill_disabled (''Skill '' @ py_repr name @ ''@'' @ v @ '' is disabled''))
               else Inr skill))"

definition skill_get_optional :: "string \<Rightarrow> string \<Rightarrow> skill_registry \<Rightarrow> skill_spec option" where
  "skill_get_optional name version reg = map_of (kr_skills reg) (name, version)"

definition skill_list :: "(string \<Rightarrow> 'k::linorder) \<Rightarrow> skill_registry \<Rightarrow> skill_spec list" where
  "skill_list vk reg = map snd (sort_key (\<lambda>((n, v), s). (map byte n, vk v)) (kr_skills reg))"

definition concerns :: "string \<Rightarrow> string option \<Rightarrow> string \<times> string \<Rightarrow> bool" where
  "concerns name version key = (fst key = name \<and> (version = None \<or> version = Some (snd key)))"

definition skill_disable :: "(string \<Rightarrow> 'k::linorder) \<Rightarrow> string \<Rightarrow> string option \<Rightarrow> skill_registry \<Rightarrow> skill_registry \<times> (py_exc + skill_spec list)" where
  "skill_disable vk name version reg =
     (let off = (\<lambda>s. s\<lparr>sk_enabled := False\<rparr>);
          changed = map (\<lambda>(k, s). off s) (filter (\<lambda>(k, s). concerns name version k) (kr_skills reg));
          reg1 = reg\<lparr>kr_skills := map (\<lambda>(k, s). (k, if concerns name version k then off s else s)) (kr_skills reg)\<rparr>
      in if changed = [] then (reg, Inl (skill_not_found (''Unknown Skill '' @ py_repr name)))
         else (case map_of (kr_defaults reg) name of
             Some v \<Rightarrow> if v \<in> sk_version ` set changed then reselect_default vk name reg1 else reg1
           | None \<Rightarrow> reg1, Inr changed))"

definition skill_deregister :: "(string \<Rightarrow> 'k::linorder) \<Rightarrow> string \<Rightarrow> string option \<Rightarrow> skill_registry \<Rightarrow> skill_registry \<times> (py_exc + skill_spec list)" where
  "skill_deregister vk name version reg =
     (let gone = (\<lambda>(k, s). sk_name s = name \<and> (version = None \<or> version = Some (sk_version s)));
          removed = map snd (filter gone (kr_skills reg));
          reg1 = reg\<lparr>kr_skills := filter (\<lambda>p. \<not> gone p) (kr_skills reg)\<rparr>
      in if removed = [] then (reg, Inl (skill_not_found (''Unknown Skill '' @ py_repr name)))
         else (case map_of (kr_defaults reg) name of
             Some v \<Rightarrow> if v \<in> sk_version ` set removed then reselect_default vk name reg1 else reg1
           | None \<Rightarrow> reg1, Inr removed))"

fun resolve_refs :: "string list \<Rightarrow> agent_skill_ref list \<Rightarrow> skill_registry \<Rightarrow> py_exc + skill_spec list" where
  "resolve_refs seen [] reg = Inr []"
| "resolve_refs seen (r # rs) reg =
     (if sr_name r \<in> set seen then Inl (RegistryError (''Agent declares Skill '' @ py_repr (sr_name r) @ '' more than once''))
      else case skill_get (sr_name r) (sr_version r) reg of Inl e \<Rightarrow> Inl e
        | Inr s \<Rightarrow> (case resolve_refs (sr_name r # seen) rs reg of Inl e \<Rightarrow> Inl e | Inr ss \<Rightarrow> Inr (s # ss)))"

definition resolve_for_agent :: "agent_skill_ref list \<Rightarrow> skill_registry \<Rightarrow> py_exc + skill_spec list" where
  "resolve_for_agent refs reg = resolve_refs [] refs reg"

section \<open>Sessions\<close>

record skill_activation =
  sa_name :: string
  sa_version :: string
  sa_content_hash :: string
  sa_instructions :: string
  sa_activation :: string

record skill_session =
  se_run_id :: string
  se_assignments :: "(string \<times> agent_skill_ref \<times> skill_spec) list"
  se_order :: "string list"
  se_active :: "(string \<times> skill_activation) list"
  se_max_active :: int
  se_max_chars :: int
  se_audit :: "(string \<times> dict) list"
  se_last_truncated :: "(nat \<times> string list \<times> int) option"

definition not_assigned :: "string \<Rightarrow> py_exc" where
  "not_assigned m = SkillError ''SkillNotAssignedError'' m"

definition activation_denied :: "string \<Rightarrow> py_exc" where
  "activation_denied m = SkillError ''SkillActivationDeniedError'' m"

fun assign_all :: "(agent_skill_ref \<times> skill_spec) list \<Rightarrow> skill_session \<Rightarrow> py_exc + skill_session" where
  "assign_all [] se = Inr se"
| "assign_all ((ref, spec) # rest) se =
     (if map_of (se_assignments se) (sr_name ref) \<noteq> None
      then Inl (not_assigned (''Skill '' @ py_repr (sr_name ref) @ '' is assigned more than once''))
      else if sr_name ref \<noteq> sk_name spec \<or> (sr_version ref \<noteq> None \<and> sr_version ref \<noteq> Some (sk_version spec))
      then Inl (not_assigned (''Skill assignment does not match resolved artifact '' @ py_repr (sr_name ref)))
      else assign_all rest (se\<lparr>se_assignments := se_assignments se @ [(sr_name ref, ref, spec)], se_order := se_order se @ [sr_name ref]\<rparr>))"

definition new_session :: "string \<Rightarrow> (agent_skill_ref \<times> skill_spec) list \<Rightarrow> int \<Rightarrow> int \<Rightarrow> py_exc + skill_session" where
  "new_session run_id assignments max_active max_chars =
     assign_all assignments \<lparr>se_run_id = run_id, se_assignments = [], se_order = [], se_active = [], se_max_active = max_active,
       se_max_chars = max_chars, se_audit = [], se_last_truncated = None\<rparr>"

definition audit :: "string \<Rightarrow> dict \<Rightarrow> skill_session \<Rightarrow> skill_session" where
  "audit event_type data se = se\<lparr>se_audit := se_audit se @ [(event_type, data)]\<rparr>"

definition deny :: "string \<Rightarrow> dict \<Rightarrow> string \<Rightarrow> skill_session \<Rightarrow> skill_session" where
  "deny name version reason se =
     audit ''skill_activation_denied'' ((''name'', JStr name) # version @ [(''reason'', JStr reason)]) se"

definition instruction_chars :: "skill_session \<Rightarrow> int" where
  "instruction_chars se = sum_list (map (\<lambda>(n, a). int (char_count (sa_instructions a))) (se_active se))"

definition activate :: "loader \<Rightarrow> string \<Rightarrow> string \<Rightarrow> bool \<Rightarrow> skill_session \<Rightarrow> skill_session \<times> (py_exc + skill_activation)" where
  "activate ld name reason explicit se =
     (case map_of (se_assignments se) name of
        None \<Rightarrow> (deny name [] ''not_assigned'' se, Inl (not_assigned (''Skill '' @ py_repr name @ '' is not assigned to this Agent'')))
      | Some (ref, spec) \<Rightarrow>
          let version = [(''version'', JStr (sk_version spec))] in
          if sr_activation ref = ACT_EXPLICIT \<and> \<not> explicit
          then (deny name version ''explicit_required'' se, Inl (activation_denied (''Skill '' @ py_repr name @ '' requires explicit activation'')))
          else (case map_of (se_active se) name of
              Some active \<Rightarrow> (se, Inr active)
            | None \<Rightarrow>
                if se_max_active se \<le> int (length (se_active se))
                then (deny name version ''activation_limit'' se, Inl (activation_denied ''Skill activation limit reached for this Run''))
                else (case load_instructions ld spec of
                    Inl e \<Rightarrow> (se, Inl e)
                  | Inr instructions \<Rightarrow>
                      if se_max_chars se < instruction_chars se + int (char_count instructions)
                      then (deny name version ''instruction_budget'' se, Inl (activation_denied ''Skill instruction budget exceeded for this Run''))
                      else
                        let activation = \<lparr>sa_name = name, sa_version = sk_version spec, sa_content_hash = sk_content_hash spec,
                              sa_instructions = instructions,
                              sa_activation = (if sr_activation ref = ACT_ALWAYS then ''always'' else if explicit then ''explicit'' else ''implicit'')\<rparr>
                        in (audit ''skill_activated'' [(''name'', JStr name), (''version'', JStr (sk_version spec)),
                              (''content_hash'', JStr (sk_content_hash spec)), (''activation'', JStr (sa_activation activation)),
                              (''reason'', JStr reason), (''instruction_chars'', JNum (of_nat (char_count instructions)))]
                              (se\<lparr>se_active := se_active se @ [(name, activation)]\<rparr>), Inr activation))))"

fun preload :: "loader \<Rightarrow> string list \<Rightarrow> skill_session \<Rightarrow> skill_session \<times> py_exc option" where
  "preload ld [] se = (se, None)"
| "preload ld (name # names) se =
     (case map_of (se_assignments se) name of
        Some (ref, _) \<Rightarrow>
          if sr_activation ref = ACT_ALWAYS
          then (case activate ld name ''activation policy is always'' True se of
              (se1, Inl e) \<Rightarrow> (se1, Some e) | (se1, Inr _) \<Rightarrow> preload ld names se1)
          else preload ld names se
      | None \<Rightarrow> (se, Some (KeyError name)))"

definition preload_always :: "loader \<Rightarrow> skill_session \<Rightarrow> skill_session \<times> py_exc option" where
  "preload_always ld se = preload ld (se_order se) se"

definition active_spec :: "string \<Rightarrow> skill_session \<Rightarrow> py_exc + skill_spec" where
  "active_spec name se =
     (case map_of (se_assignments se) name of
        None \<Rightarrow> Inl (not_assigned (''Skill '' @ py_repr name @ '' is not assigned to this Agent''))
      | Some (ref, spec) \<Rightarrow> if map_of (se_active se) name = None
          then Inl (resource_error (''Skill '' @ py_repr name @ '' must be activated before its resources can be read''))
          else Inr spec)"

definition resource_data :: "loader \<Rightarrow> string \<Rightarrow> skill_spec \<Rightarrow> string \<Rightarrow> string \<Rightarrow> dict" where
  "resource_data ld name spec path content =
     [(''name'', JStr name), (''version'', JStr (sk_version spec)), (''path'', JStr path),
      (''bytes'', JNum (of_nat (length content))), (''content_hash'', JStr (ld_sha ld content))]"

definition session_read_text :: "loader \<Rightarrow> string \<Rightarrow> string \<Rightarrow> skill_session \<Rightarrow> skill_session \<times> (py_exc + string)" where
  "session_read_text ld name path se =
     (case active_spec name se of Inl e \<Rightarrow> (se, Inl e)
      | Inr spec \<Rightarrow> (case read_text_resource ld spec path of Inl e \<Rightarrow> (se, Inl e)
          | Inr text \<Rightarrow> (audit ''skill_resource_read'' (resource_data ld name spec path text) se, Inr text)))"

text \<open>A \<^verbatim>\<open>StopIteration\<close> that leaves a coroutine becomes a \<^verbatim>\<open>RuntimeError\<close>.\<close>

definition session_open_binary :: "loader \<Rightarrow> string \<Rightarrow> string \<Rightarrow> skill_session \<Rightarrow> skill_session \<times> (py_exc + resource_handle)" where
  "session_open_binary ld name path se =
     (case active_spec name se of Inl e \<Rightarrow> (se, Inl e)
      | Inr spec \<Rightarrow> (case open_binary_resource ld spec path of
            Inl e \<Rightarrow> (se, Inl (if exc_name e = ''StopIteration'' then RuntimeError ''coroutine raised StopIteration'' else e))
          | Inr handle \<Rightarrow> (audit ''skill_resource_read'' (resource_data ld name spec path (rh_content handle)) se, Inr handle)))"

section \<open>The catalog\<close>

definition catalog :: "skill_session \<Rightarrow> (string \<times> string \<times> string \<times> activation) list" where
  "catalog se = List.map_filter (\<lambda>name. map_option (\<lambda>(ref, spec). (name, sk_version spec, sk_description spec, sr_activation ref))
     (map_of (se_assignments se) name)) (se_order se)"

definition catalog_header :: string where
  "catalog_header = ''Available skills are listed below. Load a skill only when the task matches its description.'' @ newline
     @ ''Use skill_load with the exact name before following that skill's workflow.'' @ newline @ newline"

definition line_prefix :: "string \<times> string \<times> string \<times> activation \<Rightarrow> string" where
  "line_prefix m = (case m of (name, version, _, _) \<Rightarrow> ''- '' @ name @ ''@'' @ version @ '': '')"

text \<open>The lines that fit, and whether the loop was left early.\<close>

fun catalog_lines :: "int \<Rightarrow> (string \<times> string \<times> string \<times> activation) list \<Rightarrow> string list \<times> bool" where
  "catalog_lines remaining [] = ([], False)"
| "catalog_lines remaining (m # ms) =
     (case m of (name, version, description, _) \<Rightarrow>
        let line = line_prefix m @ description @ newline;
            available = remaining - int (char_count (line_prefix m)) - 4
        in if int (char_count line) \<le> remaining
           then (case catalog_lines (remaining - int (char_count line)) ms of (lines, broken) \<Rightarrow> (line # lines, broken))
           else if 0 < available then ([line_prefix m @ char_take (nat available) description @ ''...'' @ newline], True)
           else ([], True))"

definition sorted_names :: "string list \<Rightarrow> string list" where
  "sorted_names xs = sort_key (map byte) (remdups xs)"

definition catalog_prompt :: "int \<Rightarrow> skill_session \<Rightarrow> skill_session \<times> string" where
  "catalog_prompt max_chars se =
     (if catalog se = [] then (se, [])
      else if max_chars \<le> int (char_count catalog_header) then (se, [])
      else case catalog_lines (max_chars - int (char_count catalog_header)) (catalog se) of
        (lines, broken) \<Rightarrow>
          let omitted = (if broken then map fst (drop (length lines) (catalog se)) else []);
              audit_key = (length lines, sorted_names omitted, max_chars);
              se' = (if omitted \<noteq> [] \<and> se_last_truncated se \<noteq> Some audit_key
                then audit ''skill_catalog_truncated'' [(''included'', JNum (of_nat (length lines))),
                       (''omitted'', JList (map JStr (sorted_names omitted))), (''budget'', JNum (of_int max_chars))]
                       (se\<lparr>se_last_truncated := Some audit_key\<rparr>)
                else se)
          in (se', catalog_header @ concat lines))"

definition active_instructions :: "skill_session \<Rightarrow> string list" where
  "active_instructions se = List.map_filter (\<lambda>name. map_option sa_instructions (map_of (se_active se) name)) (se_order se)"

definition provenance :: "skill_session \<Rightarrow> (string \<times> string) list list" where
  "provenance se = List.map_filter (\<lambda>name. map_option (\<lambda>a. [(''name'', sa_name a), (''version'', sa_version a),
     (''content_hash'', sa_content_hash a), (''activation'', sa_activation a)]) (map_of (se_active se) name)) (se_order se)"

definition activation_text :: "activation \<Rightarrow> string" where
  "activation_text a = (case a of ACT_AUTO \<Rightarrow> ''auto'' | ACT_EXPLICIT \<Rightarrow> ''explicit'' | ACT_ALWAYS \<Rightarrow> ''always'')"

definition resolved_provenance :: "skill_session \<Rightarrow> (string \<times> string) list list" where
  "resolved_provenance se = List.map_filter (\<lambda>name. map_option (\<lambda>(ref, spec). [(''name'', sk_name spec), (''version'', sk_version spec),
     (''content_hash'', sk_content_hash spec), (''activation'', activation_text (sr_activation ref))]) (map_of (se_assignments se) name)) (se_order se)"

text \<open>\<open>dumps\<close> stands for \<^verbatim>\<open>json.dumps\<close> with sorted keys.\<close>

definition snapshot_hash :: "loader \<Rightarrow> ((string \<times> string) list list \<Rightarrow> string) \<Rightarrow> skill_session \<Rightarrow> string" where
  "snapshot_hash ld dumps se = ld_sha ld (dumps (resolved_provenance se))"

record composed_instructions =
  ci_instructions :: string
  ci_fingerprint_content :: string
  ci_provenance :: "(string \<times> string) list list"
  ci_catalog_hash :: string

definition compose_instructions ::
    "loader \<Rightarrow> (string \<times> (string \<times> string) list list \<Rightarrow> string) \<Rightarrow> string \<Rightarrow> bool \<Rightarrow> int \<Rightarrow> skill_session \<Rightarrow> skill_session \<times> composed_instructions" where
  "compose_instructions ld dumps base_instructions include_catalog catalog_max_chars se =
     (let blank = newline @ newline;
          active = active_instructions se;
          (se1, cat) = (if include_catalog then catalog_prompt catalog_max_chars se else (se, []));
          sections = (if str_strip base_instructions \<noteq> [] then [base_instructions] else [])
            @ (if active \<noteq> [] then [''## Active skill instructions'' @ blank @ join_with blank active] else [])
            @ (if cat \<noteq> [] then [str_strip cat] else []);
          instructions = join_with blank sections;
          prov = provenance se
      in (se1, \<lparr>ci_instructions = instructions,
            ci_fingerprint_content = (if prov = [] \<and> cat = [] then base_instructions else dumps (instructions, prov)),
            ci_provenance = prov, ci_catalog_hash = ld_sha ld cat\<rparr>))"

section \<open>The runtime\<close>

fun verify_all :: "loader \<Rightarrow> skill_spec list \<Rightarrow> py_exc + unit" where
  "verify_all ld [] = Inr ()"
| "verify_all ld (s # ss) = (case skill_verify ld s of Inl e \<Rightarrow> Inl e | Inr _ \<Rightarrow> verify_all ld ss)"

definition snapshot_of :: "agent_skill_ref \<times> skill_spec \<Rightarrow> skill_snapshot" where
  "snapshot_of rs = (case rs of (ref, spec) \<Rightarrow> \<lparr>ss_name = sk_name spec, ss_version = sk_version spec, ss_content_hash = sk_content_hash spec,
     ss_activation = sr_activation ref, ss_artifact_id = sk_source_path spec\<rparr>)"

definition snapshots_for_agent :: "loader \<Rightarrow> skill_registry \<Rightarrow> agent_spec \<Rightarrow> py_exc + skill_snapshot list" where
  "snapshots_for_agent ld reg agent =
     (case resolve_for_agent (as_skills agent) reg of Inl e \<Rightarrow> Inl e
      | Inr specs \<Rightarrow> (case verify_all ld specs of Inl e \<Rightarrow> Inl e | Inr _ \<Rightarrow> Inr (map snapshot_of (zip (as_skills agent) specs))))"

definition resolve_snapshot :: "loader \<Rightarrow> skill_registry \<Rightarrow> skill_snapshot \<Rightarrow> py_exc + agent_skill_ref \<times> skill_spec" where
  "resolve_snapshot ld reg s =
     (let who = ss_name s @ ''@'' @ ss_version s in
      case skill_get_optional (ss_name s) (ss_version s) reg of
        None \<Rightarrow> Inl (invalid_skill (''Pinned Skill '' @ who @ '' is no longer registered''))
      | Some spec \<Rightarrow>
          if sk_source_path spec \<noteq> ss_artifact_id s \<or> sk_content_hash spec \<noteq> ss_content_hash s
          then Inl (invalid_skill (''Pinned Skill '' @ who @ '' no longer matches its run snapshot''))
          else (case skill_verify ld spec of Inl e \<Rightarrow> Inl e
            | Inr _ \<Rightarrow> (case validate_skill_name (ss_name s) of Inl e \<Rightarrow> Inl e
                | Inr n \<Rightarrow> Inr (\<lparr>sr_name = n, sr_version = Some (ss_version s), sr_activation = ss_activation s, sr_config = []\<rparr>, spec))))"

fun resolve_each :: "loader \<Rightarrow> skill_registry \<Rightarrow> skill_snapshot list \<Rightarrow> py_exc + (agent_skill_ref \<times> skill_spec) list" where
  "resolve_each ld reg [] = Inr []"
| "resolve_each ld reg (s # ss) = (case resolve_snapshot ld reg s of Inl e \<Rightarrow> Inl e
     | Inr a \<Rightarrow> (case resolve_each ld reg ss of Inl e \<Rightarrow> Inl e | Inr as \<Rightarrow> Inr (a # as)))"

definition resolve_snapshots :: "loader \<Rightarrow> skill_registry \<Rightarrow> agent_spec \<Rightarrow> skill_snapshot list \<Rightarrow> py_exc + (agent_skill_ref \<times> skill_spec) list" where
  "resolve_snapshots ld reg agent snapshots =
     (if snapshots = [] then
        (if as_skills agent \<noteq> [] then Inl (invalid_skill (''Run is missing the required Skill snapshot for '' @ as_name agent @ ''@'' @ as_version agent))
         else Inr [])
      else if \<not> distinct (map ss_name snapshots) then Inl (invalid_skill ''Run Skill snapshot contains duplicate Skill names'')
      else resolve_each ld reg snapshots)"

text \<open>The audit events of a session that is created are reported as they occur, also when it fails.\<close>

definition open_session ::
    "loader \<Rightarrow> skill_registry \<Rightarrow> string \<Rightarrow> agent_spec \<Rightarrow> skill_snapshot list \<Rightarrow> int \<Rightarrow> int \<Rightarrow> (string \<times> dict) list \<times> (py_exc + skill_session)" where
  "open_session ld reg run_id agent snapshots max_active max_chars =
     (case resolve_snapshots ld reg agent snapshots of Inl e \<Rightarrow> ([], Inl e)
      | Inr assignments \<Rightarrow>
          (case verify_all ld (map snd assignments) of Inl e \<Rightarrow> ([], Inl e)
           | Inr _ \<Rightarrow> (case new_session run_id assignments max_active max_chars of Inl e \<Rightarrow> ([], Inl e)
               | Inr se \<Rightarrow> (case preload_always ld se of
                    (se1, Some e) \<Rightarrow> (se_audit se1, Inl e) | (se1, None) \<Rightarrow> (se_audit se1, Inr se1)))))"

definition create_session ::
    "loader \<Rightarrow> skill_registry \<Rightarrow> string \<Rightarrow> agent_spec \<Rightarrow> skill_snapshot list \<Rightarrow> int \<Rightarrow> int \<Rightarrow> py_exc + skill_session" where
  "create_session ld reg run_id agent snapshots max_active max_chars = snd (open_session ld reg run_id agent snapshots max_active max_chars)"

section \<open>The default version\<close>

definition live_skill :: "skill_registry \<Rightarrow> string \<Rightarrow> string \<Rightarrow> bool" where
  "live_skill reg n v = (\<exists>s. map_of (kr_skills reg) (n, v) = Some s \<and> sk_enabled s)"

definition sound_default :: "skill_registry \<Rightarrow> string \<Rightarrow> bool" where
  "sound_default reg n = (\<forall>v. map_of (kr_defaults reg) n = Some v \<longrightarrow> live_skill reg n v)"

definition has_default :: "skill_registry \<Rightarrow> string \<Rightarrow> bool" where
  "has_default reg n = ((\<exists>v. live_skill reg n v) \<longrightarrow> map_of (kr_defaults reg) n \<noteq> None)"

definition skill_keys_ok :: "skill_registry \<Rightarrow> bool" where
  "skill_keys_ok reg = (distinct (map fst (kr_skills reg)) \<and> (\<forall>k s. map_of (kr_skills reg) k = Some s \<longrightarrow> k = (sk_name s, sk_version s)))"

definition skills_ok :: "skill_registry \<Rightarrow> bool" where
  "skills_ok reg = (skill_keys_ok reg \<and> (\<forall>n. sound_default reg n \<and> has_default reg n))"

lemma skill_keys_ok_defaults [simp]: "skill_keys_ok (reg\<lparr>kr_defaults := d\<rparr>) = skill_keys_ok reg"
  by (simp add: skill_keys_ok_def)

lemma live_skill_defaults [simp]: "live_skill (reg\<lparr>kr_defaults := d\<rparr>) = live_skill reg"
  by (intro ext) (simp add: live_skill_def)

lemma live_skill_registered: "live_skill reg n v \<Longrightarrow> map_of (kr_skills reg) (n, v) \<noteq> None"
  by (auto simp: live_skill_def)

lemma skills_okD:
  assumes "skills_ok reg"
  shows "distinct (map fst (kr_skills reg))" "map_of (kr_skills reg) k = Some s \<Longrightarrow> k = (sk_name s, sk_version s)"
    "sound_default reg n" "has_default reg n"
  using assms unfolding skills_ok_def skill_keys_ok_def by blast+

lemma skills_okI:
  assumes "skill_keys_ok reg" and "sound_default reg name \<and> has_default reg name"
    and "\<And>n. n \<noteq> name \<Longrightarrow> sound_default reg n \<and> has_default reg n"
  shows "skills_ok reg"
proof -
  have "sound_default reg n \<and> has_default reg n" for n by (cases "n = name") (use assms in blast)+
  then show ?thesis using assms(1) by (simp add: skills_ok_def)
qed

lemma enabled_versions_iff:
  "distinct (map fst (kr_skills reg)) \<Longrightarrow> v \<in> set (enabled_versions n (kr_skills reg)) \<longleftrightarrow> live_skill reg n v"
  by (force simp: enabled_versions_def live_skill_def map_of_eq_Some_iff image_iff)

lemma select_default_skills [simp]: "kr_skills (select_default vk name reg) = kr_skills reg"
  by (simp add: select_default_def split: option.split)

lemma live_select [simp]: "live_skill (select_default vk name reg) = live_skill reg"
  by (intro ext) (simp add: live_skill_def)

text \<open>Selecting the default of one name repairs that name, if the others are in order.\<close>

lemma select_default_ok:
  assumes k: "skill_keys_ok reg" and s: "\<And>n. sound_default reg n" and h: "\<And>n. n \<noteq> name \<Longrightarrow> has_default reg n"
  shows "skills_ok (select_default vk name reg)"
proof -
  have d: "distinct (map fst (kr_skills reg))" using k by (simp add: skill_keys_ok_def)
  have def_eq: "map_of (kr_defaults (select_default vk name reg)) n =
      (case max_by vk (enabled_versions name (kr_skills reg)) of None \<Rightarrow> map_of (kr_defaults reg) n
       | Some v \<Rightarrow> if n = name then Some v else map_of (kr_defaults reg) n)" for n
    by (simp add: select_default_def update_conv' split: option.split)
  show ?thesis
  proof (cases "max_by vk (enabled_versions name (kr_skills reg))")
    case None
    then have "enabled_versions name (kr_skills reg) = []" by simp
    then have "\<not> live_skill reg name v" for v using enabled_versions_iff [OF d, of v name] by simp
    then have "has_default reg n" for n using h by (cases "n = name") (auto simp: has_default_def)
    then show ?thesis using None k s by (simp add: skills_ok_def select_default_def)
  next
    case (Some v)
    from max_by_mem [OF Some] have lv: "live_skill reg name v" by (simp only: enabled_versions_iff [OF d])
    have "sound_default (select_default vk name reg) n \<and> has_default (select_default vk name reg) n" for n
    proof (cases "n = name")
      case True
      then show ?thesis using lv by (simp add: sound_default_def has_default_def def_eq Some)
    next
      case False
      then have "map_of (kr_defaults (select_default vk name reg)) n = map_of (kr_defaults reg) n" by (simp add: def_eq Some)
      then show ?thesis using s [of n] h [OF False] by (simp add: sound_default_def has_default_def)
    qed
    moreover have "skill_keys_ok (select_default vk name reg)" using k by (simp add: select_default_def Some)
    ultimately show ?thesis by (simp add: skills_ok_def)
  qed
qed

lemma reselect_default_ok:
  assumes "skill_keys_ok reg" and "\<And>n. n \<noteq> name \<Longrightarrow> sound_default reg n \<and> has_default reg n"
  shows "skills_ok (reselect_default vk name reg)"
  unfolding reselect_default_def
proof (rule select_default_ok)
  let ?r = "reg\<lparr>kr_defaults := AList.delete name (kr_defaults reg)\<rparr>"
  have l: "live_skill ?r = live_skill reg" by (intro ext) (simp add: live_skill_def)
  show "skill_keys_ok ?r" using assms(1) by (simp add: skill_keys_ok_def)
  show "sound_default ?r n" for n using assms(2) [of n] by (auto simp: sound_default_def l delete_conv')
  show "has_default ?r n" if "n \<noteq> name" for n using assms(2) [OF that] that by (auto simp: has_default_def l delete_conv')
qed

lemma skill_register_ok:
  assumes ok: "skills_ok reg"
  shows "skills_ok (skill_register vk skill make_default reg)"
proof -
  let ?n = "sk_name skill" and ?v = "sk_version skill"
  let ?r = "reg\<lparr>kr_skills := AList.update (?n, ?v) skill (kr_skills reg)\<rparr>"
  have k: "skill_keys_ok ?r"
    using ok by (auto simp: skills_ok_def skill_keys_ok_def distinct_update update_conv' split: if_splits)
  have live: "live_skill ?r n v = (if n = ?n \<and> v = ?v then sk_enabled skill else live_skill reg n v)" for n v
    by (auto simp: live_skill_def update_conv')
  have other: "sound_default ?r n \<and> has_default ?r n" if "n \<noteq> ?n" for n
    using ok that by (auto simp: skills_ok_def sound_default_def has_default_def live)
  consider (off) "\<not> sk_enabled skill" "map_of (kr_defaults reg) ?n = Some ?v"
    | (off') "\<not> sk_enabled skill" "map_of (kr_defaults reg) ?n \<noteq> Some ?v"
    | (def) "sk_enabled skill" "make_default"
    | (sel) "sk_enabled skill" "\<not> make_default" "map_of (kr_defaults reg) ?n = None"
    | (keep) "sk_enabled skill" "\<not> make_default" "map_of (kr_defaults reg) ?n \<noteq> None" by blast
  then show ?thesis
  proof cases
    case off
    then show ?thesis using reselect_default_ok [OF k other] by (simp add: skill_register_def Let_def)
  next
    case off'
    have "sound_default reg ?n \<and> has_default reg ?n" using ok by (simp add: skills_ok_def)
    with off' have "sound_default ?r ?n \<and> has_default ?r ?n" by (auto simp: sound_default_def has_default_def live split: if_splits)
    then have "skills_ok ?r" by (rule skills_okI [OF k]) (rule other)
    then show ?thesis using off' by (simp add: skill_register_def Let_def)
  next
    case def
    have "skills_ok (?r\<lparr>kr_defaults := AList.update ?n ?v (kr_defaults reg)\<rparr>)" (is "skills_ok ?q")
    proof -
      have "sound_default ?q n \<and> has_default ?q n" for n
        using other [of n] def by (cases "n = ?n") (auto simp: sound_default_def has_default_def update_conv' live)
      then show ?thesis using k by (simp add: skills_ok_def)
    qed
    then show ?thesis using def by (simp add: skill_register_def Let_def)
  next
    case sel
    have "sound_default ?r n" for n using other [of n] sel by (cases "n = ?n") (auto simp: sound_default_def)
    then have "skills_ok (select_default vk ?n ?r)" using k other by (intro select_default_ok) auto
    then show ?thesis using sel by (simp add: skill_register_def Let_def)
  next
    case keep
    have "sound_default reg ?n" using ok by (simp add: skills_ok_def)
    with keep have "sound_default ?r ?n \<and> has_default ?r ?n" by (auto simp: sound_default_def has_default_def live)
    then have "skills_ok ?r" by (rule skills_okI [OF k]) (rule other)
    then show ?thesis using keep by (auto simp: skill_register_def Let_def)
  qed
qed

lemma skill_disable_ok:
  assumes ok: "skills_ok reg"
  shows "skills_ok (fst (skill_disable vk name version reg))"
proof -
  let ?off = "\<lambda>s :: skill_spec. s\<lparr>sk_enabled := False\<rparr>"
  let ?f = "\<lambda>(k, s). (k, if concerns name version k then ?off s else s)"
  let ?r = "reg\<lparr>kr_skills := map ?f (kr_skills reg)\<rparr>"
  let ?hit = "filter (\<lambda>(k, s). concerns name version k) (kr_skills reg)"
  have m: "map_of (map ?f xs) k = map_option (\<lambda>s. if concerns name version k then ?off s else s) (map_of xs k)" for xs k
    by (induction xs) auto
  have fst_eq: "map fst (map ?f xs) = map fst xs" for xs by (induction xs) auto
  have k: "skill_keys_ok ?r" using ok by (auto simp: skills_ok_def skill_keys_ok_def m fst_eq simp del: map_map)
  have live: "live_skill ?r n v \<longleftrightarrow> live_skill reg n v \<and> \<not> concerns name version (n, v)" for n v
    by (cases "map_of (kr_skills reg) (n, v)") (simp_all add: live_skill_def m)
  have other: "sound_default ?r n \<and> has_default ?r n" if "n \<noteq> name" for n
  proof -
    have "\<not> concerns name version (n, v)" for v using that by (simp add: concerns_def)
    then show ?thesis using skills_okD(3,4) [OF ok, of n] by (auto simp: sound_default_def has_default_def live)
  qed
  have hit: "sk_version ` set (map (\<lambda>(k, s). ?off s) ?hit) = {v. concerns name version (name, v) \<and> map_of (kr_skills reg) (name, v) \<noteq> None}"
  proof -
    have key: "(k, s) \<in> set (kr_skills reg) \<longleftrightarrow> map_of (kr_skills reg) k = Some s" for k s
      using skills_okD(1) [OF ok] by simp
    have "map_of (kr_skills reg) (n, v) = Some s \<Longrightarrow> sk_version s = v" for n v s
      using skills_okD(2) [OF ok, of "(n, v)" s] by simp
    then show ?thesis by (fastforce simp: key concerns_def image_iff)
  qed
  have keep: "skills_ok ?r" if miss: "\<And>v. map_of (kr_defaults reg) name = Some v \<Longrightarrow> v \<notin> sk_version ` set (map (\<lambda>(k, s). ?off s) ?hit)"
  proof -
    have "live_skill ?r name v" if v: "map_of (kr_defaults reg) name = Some v" for v
    proof -
      have l: "live_skill reg name v" using skills_okD(3) [OF ok, of name] v by (simp add: sound_default_def)
      with miss [OF v] show ?thesis using live_skill_registered [OF l] unfolding hit by (simp add: live)
    qed
    moreover have "has_default ?r name" using skills_okD(4) [OF ok, of name] unfolding has_default_def live by auto
    ultimately have "sound_default ?r name \<and> has_default ?r name" by (simp add: sound_default_def)
    then show ?thesis by (rule skills_okI [OF k]) (rule other)
  qed
  show ?thesis using ok keep reselect_default_ok [OF k other]
    by (auto simp: skill_disable_def Let_def split: option.split)
qed

lemma skill_deregister_ok:
  assumes ok: "skills_ok reg"
  shows "skills_ok (fst (skill_deregister vk name version reg))"
proof -
  let ?gone = "\<lambda>(k, s). sk_name s = name \<and> (version = None \<or> version = Some (sk_version s))"
  let ?r = "reg\<lparr>kr_skills := filter (\<lambda>p. \<not> ?gone p) (kr_skills reg)\<rparr>"
  note d = skills_okD(1) [OF ok] and id = skills_okD(2) [OF ok]
  have d': "distinct (map fst (filter (\<lambda>p. \<not> ?gone p) (kr_skills reg)))" using d by (simp add: distinct_map_filter)
  have m: "map_of (filter (\<lambda>p. \<not> ?gone p) (kr_skills reg)) k = Some s \<longleftrightarrow> map_of (kr_skills reg) k = Some s \<and> \<not> ?gone (k, s)" for k s
    using d d' by (simp add: map_of_eq_Some_iff)
  have k: "skill_keys_ok ?r" using d' id m by (simp add: skill_keys_ok_def)
  have live: "live_skill ?r n v \<longleftrightarrow> live_skill reg n v \<and> \<not> (n = name \<and> (version = None \<or> version = Some v))" for n v
    using id [of "(n, v)"] by (auto simp: live_skill_def m)
  have other: "sound_default ?r n \<and> has_default ?r n" if "n \<noteq> name" for n
    using skills_okD(3,4) [OF ok, of n] that by (auto simp: sound_default_def has_default_def live)
  have hit: "v \<in> sk_version ` set (map snd (filter ?gone (kr_skills reg)))
      \<longleftrightarrow> map_of (kr_skills reg) (name, v) \<noteq> None \<and> (version = None \<or> version = Some v)" for v
  proof -
    have "(k, s) \<in> set (kr_skills reg) \<longleftrightarrow> map_of (kr_skills reg) k = Some s" for k s using d by simp
    then show ?thesis using id by (fastforce simp: image_iff)
  qed
  have keep: "skills_ok ?r" if miss: "\<And>v. map_of (kr_defaults reg) name = Some v \<Longrightarrow> v \<notin> sk_version ` set (map snd (filter ?gone (kr_skills reg)))"
  proof -
    have "live_skill ?r name v" if v: "map_of (kr_defaults reg) name = Some v" for v
    proof -
      have l: "live_skill reg name v" using skills_okD(3) [OF ok, of name] v by (simp add: sound_default_def)
      with miss [OF v] show ?thesis using live_skill_registered [OF l] unfolding hit by (simp add: live)
    qed
    moreover have "has_default ?r name" using skills_okD(4) [OF ok, of name] unfolding has_default_def live by auto
    ultimately have "sound_default ?r name \<and> has_default ?r name" by (simp add: sound_default_def)
    then show ?thesis by (rule skills_okI [OF k]) (rule other)
  qed
  show ?thesis using ok keep reselect_default_ok [OF k other]
    by (auto simp: skill_deregister_def Let_def split: option.split)
qed

datatype skill_op = Skill_Register skill_spec bool | Skill_Disable string "string option" | Skill_Deregister string "string option"

fun skill_step :: "(string \<Rightarrow> 'k::linorder) \<Rightarrow> skill_op \<Rightarrow> skill_registry \<Rightarrow> skill_registry" where
  "skill_step vk (Skill_Register s d) reg = skill_register vk s d reg"
| "skill_step vk (Skill_Disable n v) reg = fst (skill_disable vk n v reg)"
| "skill_step vk (Skill_Deregister n v) reg = fst (skill_deregister vk n v reg)"

lemma skill_history_ok: "skills_ok (fold (skill_step vk) ops (new_skill_registry vk skills))"
proof -
  have step: "skills_ok reg \<Longrightarrow> skills_ok (skill_step vk op reg)" for op reg
    by (cases op) (simp_all add: skill_register_ok skill_disable_ok skill_deregister_ok)
  have hist: "skills_ok reg \<Longrightarrow> skills_ok (fold (skill_step vk) ops reg)" for reg
    by (induction ops arbitrary: reg) (simp_all add: step)
  have "skills_ok \<lparr>kr_skills = [], kr_defaults = []\<rparr>"
    by (simp add: skills_ok_def skill_keys_ok_def sound_default_def has_default_def live_skill_def)
  moreover have "skills_ok reg \<Longrightarrow> skills_ok (fold (\<lambda>s reg. skill_register vk s False reg) skills reg)" for reg
    by (induction skills arbitrary: reg) (simp_all add: skill_register_ok)
  ultimately have reg: "skills_ok (fold (\<lambda>s reg. skill_register vk s False reg) skills \<lparr>kr_skills = [], kr_defaults = []\<rparr>)" by blast
  have "skills_ok reg \<Longrightarrow> skills_ok (select_default vk name reg)" for name reg
    by (rule select_default_ok) (auto simp: skills_ok_def)
  then have "skills_ok reg \<Longrightarrow> skills_ok (fold (\<lambda>name reg. select_default vk name reg) names reg)" for names reg
    by (induction names arbitrary: reg) simp_all
  then show ?thesis using hist reg unfolding new_skill_registry_def by blast
qed

text \<open>
  A Skill without a requested version resolves to an enabled, registered version whenever the
  name has one, after any history of registrations, replacements, disabling and removals; only
  a name without enabled version is refused.
\<close>

theorem default_skill_is_enabled:
  "let reg = fold (skill_step vk) ops (new_skill_registry vk skills) in
   case skill_get name None reg of
     Inr s \<Rightarrow> sk_enabled s \<and> sk_name s = name \<and> skill_get_optional name (sk_version s) reg = Some s
   | Inl e \<Rightarrow> (\<forall>v s. skill_get_optional name v reg = Some s \<longrightarrow> \<not> sk_enabled s)"
proof -
  let ?reg = "fold (skill_step vk) ops (new_skill_registry vk skills)"
  note ok = skill_history_ok [of vk ops skills]
  show ?thesis
  proof (cases "map_of (kr_defaults ?reg) name")
    case None
    then have "\<not> live_skill ?reg name v" for v using skills_okD(4) [OF ok, of name] by (auto simp: has_default_def)
    then show ?thesis using None by (auto simp: skill_get_def given_def Let_def skill_get_optional_def live_skill_def)
  next
    case (Some v)
    then obtain s where s: "map_of (kr_skills ?reg) (name, v) = Some s" "sk_enabled s"
      using skills_okD(3) [OF ok, of name] by (auto simp: sound_default_def live_skill_def)
    then show ?thesis using Some skills_okD(2) [OF ok s(1)]
      by (simp add: skill_get_def given_def Let_def skill_get_optional_def)
  qed
qed

theorem default_skill_is_enabled_witness:
  "skill_get ''demo'' None (fold (skill_step length) [Skill_Register (demo_skill\<lparr>sk_version := ''2''\<rparr>) True, Skill_Disable ''demo'' (Some ''2'')]
     (new_skill_registry length [demo_skill])) = Inr demo_skill
   \<and> sk_enabled demo_skill"
proof -
  let ?ops = "[Skill_Register (demo_skill\<lparr>sk_version := ''2''\<rparr>) True, Skill_Disable ''demo'' (Some ''2'')]"
  have f: "sk_name demo_skill = ''demo''" "sk_version demo_skill = ''1.0.0''" "sk_enabled demo_skill" by (simp_all add: demo_skill_def)
  have g: "skill_get ''demo'' None (fold (skill_step length) ?ops (new_skill_registry length [demo_skill])) = Inr demo_skill"
    by (simp add: skill_get_def new_skill_registry_def skill_register_def skill_disable_def select_default_def reselect_default_def
        enabled_versions_def concerns_def given_def Let_def f)
  then show ?thesis using default_skill_is_enabled [where vk = length and ops = ?ops and skills = "[demo_skill]" and name = "''demo''"]
    by (simp only: Let_def sum.case f simp_thms)
qed

section \<open>Session limits\<close>

definition session_ok :: "skill_session \<Rightarrow> bool" where
  "session_ok se \<longleftrightarrow> distinct (map fst (se_active se)) \<and> (\<forall>n \<in> set (map fst (se_active se)). map_of (se_assignments se) n \<noteq> None)
     \<and> (se_active se = [] \<or> int (length (se_active se)) \<le> se_max_active se \<and> instruction_chars se \<le> se_max_chars se)"

lemma audit_fields [simp]:
  "se_active (audit t d se) = se_active se" "se_assignments (audit t d se) = se_assignments se" "se_order (audit t d se) = se_order se"
  "se_max_active (audit t d se) = se_max_active se" "se_max_chars (audit t d se) = se_max_chars se"
  "instruction_chars (audit t d se) = instruction_chars se" "session_ok (audit t d se) = session_ok se"
  by (simp_all add: audit_def instruction_chars_def session_ok_def)

lemma activate_frame:
  "se_assignments (fst (activate ld name reason explicit se)) = se_assignments se \<and> se_order (fst (activate ld name reason explicit se)) = se_order se
   \<and> se_max_active (fst (activate ld name reason explicit se)) = se_max_active se \<and> se_max_chars (fst (activate ld name reason explicit se)) = se_max_chars se"
  by (simp add: activate_def deny_def Let_def split: option.split prod.split sum.split)

lemma activate_ok:
  assumes "session_ok se"
  shows "session_ok (fst (activate ld name reason explicit se))"
proof -
  have new: "session_ok (se\<lparr>se_active := se_active se @ [(name, a)]\<rparr>)"
    if "map_of (se_active se) name = None" "map_of (se_assignments se) name \<noteq> None" "int (length (se_active se)) < se_max_active se"
      "instruction_chars se + int (char_count (sa_instructions a)) \<le> se_max_chars se" for a
    using assms that by (auto simp: session_ok_def instruction_chars_def map_of_eq_None_iff)
  show ?thesis using assms
    by (auto simp: activate_def deny_def Let_def not_le not_less intro!: new split: option.split prod.split sum.split)
qed

lemma preload_ok: "session_ok se \<Longrightarrow> session_ok (fst (preload ld names se))"
proof (induction names arbitrary: se)
  case (Cons n ns)
  show ?case
  proof (cases "activate ld n ''activation policy is always'' True se")
    case (Pair se1 r)
    then have "session_ok se1" using activate_ok [OF Cons.prems, of ld n "''activation policy is always''" True] by simp
    then show ?thesis using Cons Pair by (auto split: option.split sum.split)
  qed
qed simp

lemma assign_all_active: "assign_all as se = Inr se' \<Longrightarrow> se_active se' = se_active se \<and> se_max_active se' = se_max_active se \<and> se_max_chars se' = se_max_chars se"
  by (induction as se rule: assign_all.induct) (auto split: if_splits)

fun activations :: "loader \<Rightarrow> (string \<times> string \<times> bool) list \<Rightarrow> skill_session \<Rightarrow> skill_session" where
  "activations ld [] se = se"
| "activations ld ((name, reason, explicit) # rs) se = activations ld rs (fst (activate ld name reason explicit se))"

lemma activations_ok: "session_ok se \<Longrightarrow> session_ok (activations ld rs se)
   \<and> se_max_active (activations ld rs se) = se_max_active se \<and> se_max_chars (activations ld rs se) = se_max_chars se"
proof (induction rs arbitrary: se)
  case (Cons r rs)
  obtain n t x where r: "r = (n, t, x)" by (cases r)
  show ?case using Cons.IH [OF activate_ok [OF Cons.prems, of ld n t x]] activate_frame [of ld n t x se] by (simp add: r)
qed simp

lemma create_session_ok:
  assumes "create_session ld reg run_id agent snaps max_active max_chars = Inr se"
  shows "session_ok se \<and> se_max_active se = max_active \<and> se_max_chars se = max_chars"
proof -
  obtain as se0 se1 where new: "new_session run_id as max_active max_chars = Inr se0" and p: "preload_always ld se0 = (se1, None)" "se = se1"
    using assms by (auto simp: create_session_def open_session_def split: sum.splits prod.splits option.splits)
  from assign_all_active [OF new [unfolded new_session_def]] have f: "se_active se0 = []" "se_max_active se0 = max_active" "se_max_chars se0 = max_chars"
    by simp_all
  have frame: "se_max_active (fst (preload ld ns x)) = se_max_active x \<and> se_max_chars (fst (preload ld ns x)) = se_max_chars x" for ns x
  proof (induction ns arbitrary: x)
    case (Cons n ns)
    obtain y r where y: "activate ld n ''activation policy is always'' True x = (y, r)" by fastforce
    then show ?case using Cons.IH [of y] Cons.IH [of x] activate_frame [of ld n "''activation policy is always''" True x]
      by (auto split: option.split sum.split)
  qed simp
  have "session_ok se0" by (simp add: session_ok_def f)
  then show ?thesis using preload_ok [of se0 ld "se_order se0"] frame [of "se_order se0" se0] p f by (simp add: preload_always_def)
qed

text \<open>
  Whatever Skills a run asks for, its session stays within its limits: no Skill is active
  twice or without being assigned, the number of active Skills is at most the limit, and so is
  the total length of their instructions.
\<close>

theorem session_within_limits:
  assumes "create_session ld reg run_id agent snaps max_active max_chars = Inr se" and "se' = activations ld rs se"
  shows "distinct (map fst (se_active se')) \<and> (\<forall>n \<in> set (map fst (se_active se')). map_of (se_assignments se') n \<noteq> None)
     \<and> (se_active se' \<noteq> [] \<longrightarrow> int (length (se_active se')) \<le> max_active \<and> instruction_chars se' \<le> max_chars)"
  using activations_ok [of se ld rs] create_session_ok [OF assms(1)] by (auto simp: session_ok_def assms(2))

section \<open>The catalog fits its budget\<close>

lemma catalog_lines_fit:
  "0 \<le> remaining \<Longrightarrow> int (char_count (concat (fst (catalog_lines remaining ms)))) \<le> remaining"
proof (induction ms arbitrary: remaining)
  case (Cons m ms)
  obtain n v d a where m: "m = (n, v, d, a)" by (cases m)
  let ?line = "line_prefix m @ d @ newline"
  let ?av = "remaining - int (char_count (line_prefix m)) - 4"
  have dots: "char_count (''...'' @ newline) = 4" by (simp add: char_count_def tail_byte_def byte_def newline_def)
  show ?case
  proof (cases "int (char_count ?line) \<le> remaining")
    case True
    obtain ls b where l: "catalog_lines (remaining - int (char_count ?line)) ms = (ls, b)" by fastforce
    then have "int (char_count (concat ls)) \<le> remaining - int (char_count ?line)" using Cons.IH [of "remaining - int (char_count ?line)"] True by simp
    then show ?thesis using True l by (simp add: m Let_def)
  next
    case False
    have "char_count (char_take (nat ?av) d) \<le> nat ?av" by (rule char_count_char_take)
    then have "int (char_count (line_prefix m @ char_take (nat ?av) d @ ''...'' @ newline)) \<le> remaining" if "0 < ?av"
      using that dots unfolding char_count_append by linarith
    then show ?thesis using False Cons.prems by (simp add: m Let_def char_count_def)
  qed
qed (simp add: char_count_def)

text \<open>
  The catalog that a model is shown never exceeds its character budget, also when the
  description of a Skill has to be cut to fit.
\<close>

theorem catalog_within_budget:
  assumes "0 \<le> max_chars" and "catalog_prompt max_chars se = (se', prompt)"
  shows "int (char_count prompt) \<le> max_chars"
proof (cases "catalog se = [] \<or> max_chars \<le> int (char_count catalog_header)")
  case True
  then show ?thesis using assms by (auto simp: catalog_prompt_def char_count_def split: if_splits)
next
  case False
  then have "int (char_count (concat (fst (catalog_lines (max_chars - int (char_count catalog_header)) (catalog se)))))
      \<le> max_chars - int (char_count catalog_header)" by (intro catalog_lines_fit) simp
  then show ?thesis using False assms by (auto simp: catalog_prompt_def Let_def split: prod.splits)
qed

section \<open>Snapshots pin Skills\<close>

lemma verify_all_iff: "verify_all ld ss = Inr () \<longleftrightarrow> (\<forall>s \<in> set ss. skill_verify ld s = Inr ())"
  by (induction ss) (auto split: sum.splits)

lemma resolve_refs_specs:
  assumes "skills_ok reg" and "resolve_refs seen refs reg = Inr specs"
  shows "length specs = length refs \<and> map sk_name specs = map sr_name refs \<and> distinct (map sr_name refs) \<and> set (map sr_name refs) \<inter> set seen = {}
     \<and> (\<forall>s \<in> set specs. skill_get_optional (sk_name s) (sk_version s) reg = Some s)"
  using assms(2)
proof (induction refs arbitrary: seen specs)
  case (Cons r rs)
  from Cons.prems obtain s ss where s: "skill_get (sr_name r) (sr_version r) reg = Inr s"
    and ss: "resolve_refs (sr_name r # seen) rs reg = Inr ss" and e: "specs = s # ss" "sr_name r \<notin> set seen"
    by (auto split: sum.splits if_splits)
  from s obtain v where "map_of (kr_skills reg) (sr_name r, v) = Some s" by (auto simp: skill_get_def split: option.splits if_splits)
  with skills_okD(2) [OF assms(1) this] have "sk_name s = sr_name r" "skill_get_optional (sk_name s) (sk_version s) reg = Some s"
    by (auto simp: skill_get_optional_def)
  then show ?case using Cons.IH [OF ss] e by auto
qed simp

lemma resolve_each_snapshots:
  assumes "\<forall>(r, s) \<in> set rs. skill_get_optional (sk_name s) (sk_version s) reg = Some s \<and> skill_verify ld s = Inr () \<and> valid_skill_name (sk_name s)"
  shows "\<exists>as. resolve_each ld reg (map snapshot_of rs) = Inr as \<and> map snd as = map snd rs
     \<and> map (\<lambda>(r, s). (sr_name r, sr_version r, sr_activation r)) as = map (\<lambda>(r, s). (sk_name s, Some (sk_version s), sr_activation r)) rs"
  using assms
  by (induction rs) (auto simp: resolve_snapshot_def snapshot_of_def validate_skill_name_def Let_def)

text \<open>
  C24: The Skills of a run are pinned when it is submitted. Whatever happens to the registry
  afterwards - new versions, new defaults, disabled versions of other Skills - as long as the
  pinned entries are unchanged, the run resolves exactly the Skills, in the order and with the
  activation policy, that were resolved for its agent at submission.
\<close>

theorem snapshots_pin_skills:
  assumes reg: "skills_ok reg" and snaps: "snapshots_for_agent ld reg agent = Inr snaps"
    and names: "\<forall>r \<in> set (as_skills agent). valid_skill_name (sr_name r)"
    and same: "\<forall>s \<in> set snaps. skill_get_optional (ss_name s) (ss_version s) reg' = skill_get_optional (ss_name s) (ss_version s) reg"
  shows "\<exists>specs as. resolve_for_agent (as_skills agent) reg = Inr specs \<and> resolve_snapshots ld reg' agent snaps = Inr as
     \<and> map snd as = specs
     \<and> map (\<lambda>(r, s). (sr_name r, sr_version r, sr_activation r)) as
         = map (\<lambda>(r, s). (sr_name r, Some (sk_version s), sr_activation r)) (zip (as_skills agent) specs)"
proof -
  let ?refs = "as_skills agent"
  from snaps obtain specs where specs: "resolve_for_agent ?refs reg = Inr specs" and v: "verify_all ld specs = Inr ()"
    and sn: "snaps = map snapshot_of (zip ?refs specs)"
    by (auto simp: snapshots_for_agent_def split: sum.splits)
  note r = resolve_refs_specs [OF reg specs [unfolded resolve_for_agent_def]]
  have len: "length specs = length ?refs" using r by blast
  have nm: "map sk_name specs = map sr_name ?refs" using r by blast
  have zs: "sk_name s = sr_name q" if z: "(q, s) \<in> set (zip ?refs specs)" for q s
  proof -
    obtain i where i: "i < length specs" "s = specs ! i" "q = ?refs ! i" using z len by (auto simp: in_set_zip)
    then show ?thesis using arg_cong [OF nm, of "\<lambda>l. l ! i"] len by simp
  qed
  have mem: "\<forall>(q, s) \<in> set (zip ?refs specs). skill_get_optional (sk_name s) (sk_version s) reg' = Some s \<and> skill_verify ld s = Inr ()
      \<and> valid_skill_name (sk_name s)"
  proof clarify
    fix q s assume z: "(q, s) \<in> set (zip ?refs specs)"
    then have s: "s \<in> set specs" "q \<in> set ?refs" by (auto dest: set_zip_leftD set_zip_rightD)
    have "snapshot_of (q, s) \<in> set snaps" using z sn by auto
    then have "skill_get_optional (sk_name s) (sk_version s) reg' = skill_get_optional (sk_name s) (sk_version s) reg"
      using same by (fastforce simp: snapshot_of_def)
    moreover have "skill_get_optional (sk_name s) (sk_version s) reg = Some s" using r s by blast
    moreover have "skill_verify ld s = Inr ()" using v s by (simp add: verify_all_iff)
    moreover have "valid_skill_name (sk_name s)" using names s zs [OF z] by simp
    ultimately show "skill_get_optional (sk_name s) (sk_version s) reg' = Some s \<and> skill_verify ld s = Inr () \<and> valid_skill_name (sk_name s)"
      by simp
  qed
  obtain as where as: "resolve_each ld reg' snaps = Inr as" "map snd as = map snd (zip ?refs specs)"
    "map (\<lambda>(r, s). (sr_name r, sr_version r, sr_activation r)) as = map (\<lambda>(r, s). (sk_name s, Some (sk_version s), sr_activation r)) (zip ?refs specs)"
    using resolve_each_snapshots [OF mem] sn by blast
  have "map ss_name snaps = map sk_name (map snd (zip ?refs specs))" unfolding sn by (simp add: snapshot_of_def split_beta comp_def)
  then have "distinct (map ss_name snaps)" using r len nm by simp
  then have "resolve_snapshots ld reg' agent snaps = Inr as"
    using as(1) len sn by (cases "?refs") (auto simp: resolve_snapshots_def)
  moreover have "map (\<lambda>(r, s). (sk_name s, Some (sk_version s), sr_activation r)) (zip ?refs specs)
      = map (\<lambda>(r, s). (sr_name r, Some (sk_version s), sr_activation r)) (zip ?refs specs)" using zs by auto
  ultimately show ?thesis using specs as len by auto
qed

definition demo_ref :: agent_skill_ref where
  "demo_ref = \<lparr>sr_name = ''demo'', sr_version = None, sr_activation = ACT_AUTO, sr_config = []\<rparr>"

definition demo_skilled_agent :: agent_spec where
  "demo_skilled_agent = (demo_agent ''a'' ''1'' [''t''])\<lparr>as_skills := [demo_ref]\<rparr>"

definition demo_skills :: skill_registry where
  "demo_skills = \<lparr>kr_skills = [((''demo'', ''1.0.0''), demo_skill)], kr_defaults = [(''demo'', ''1.0.0'')]\<rparr>"

lemma demo_skill_fields:
  "sk_name demo_skill = ''demo''" "sk_version demo_skill = ''1.0.0''" "sk_enabled demo_skill" "sk_source_path demo_skill = ''db''"
  "sk_description demo_skill = ''d''"
  by (simp_all add: demo_skill_def)

lemma demo_skills_ok: "skills_ok demo_skills"
  by (auto simp: skills_ok_def skill_keys_ok_def sound_default_def has_default_def live_skill_def demo_skills_def demo_skill_fields)

lemma demo_snapshots: "snapshots_for_agent demo_loader demo_skills demo_skilled_agent = Inr [snapshot_of (demo_ref, demo_skill)]"
  by (simp add: snapshots_for_agent_def resolve_for_agent_def skill_get_def demo_skilled_agent_def demo_skills_def demo_ref_def given_def
      demo_skill_fields demo_verified)

lemma demo_name_valid: "valid_skill_name ''demo''"
  by (simp add: valid_skill_name_def lower_alnum_def)

theorem snapshots_pin_skills_witness:
  "\<exists>as. resolve_snapshots demo_loader (skill_register length (demo_skill\<lparr>sk_version := ''2''\<rparr>) True demo_skills)
       demo_skilled_agent [snapshot_of (demo_ref, demo_skill)] = Inr as
     \<and> resolve_for_agent (as_skills demo_skilled_agent) demo_skills = Inr (map snd as)"
proof -
  let ?reg = "skill_register length (demo_skill\<lparr>sk_version := ''2''\<rparr>) True demo_skills"
  have "\<forall>r \<in> set (as_skills demo_skilled_agent). valid_skill_name (sr_name r)"
    by (simp add: demo_skilled_agent_def demo_ref_def demo_name_valid)
  moreover have "\<forall>s \<in> set [snapshot_of (demo_ref, demo_skill)].
      skill_get_optional (ss_name s) (ss_version s) ?reg = skill_get_optional (ss_name s) (ss_version s) demo_skills"
    by (simp add: snapshot_of_def skill_get_optional_def skill_register_def demo_skills_def demo_skill_fields Let_def)
  ultimately show ?thesis using snapshots_pin_skills [OF demo_skills_ok demo_snapshots, of ?reg] by blast
qed

lemma demo_session:
  "\<exists>se. create_session demo_loader demo_skills ''R'' demo_skilled_agent [snapshot_of (demo_ref, demo_skill)] 8 20000 = Inr se"
  by (simp add: create_session_def open_session_def resolve_snapshots_def resolve_snapshot_def snapshot_of_def skill_get_optional_def demo_skills_def
      demo_skill_fields demo_verified validate_skill_name_def demo_name_valid new_session_def preload_always_def demo_ref_def Let_def)

theorem session_within_limits_witness:
  "\<exists>se. create_session demo_loader demo_skills ''R'' demo_skilled_agent [snapshot_of (demo_ref, demo_skill)] 8 20000 = Inr se
     \<and> (\<forall>n \<in> set (map fst (se_active (activations demo_loader [(''demo'', ''task'', False), (''other'', ''task'', True)] se))).
          map_of (se_assignments (activations demo_loader [(''demo'', ''task'', False), (''other'', ''task'', True)] se)) n \<noteq> None)"
  using demo_session session_within_limits [OF _ refl, of demo_loader demo_skills "''R''" demo_skilled_agent] by blast

theorem catalog_within_budget_witness:
  "int (char_count (snd (catalog_prompt 200 \<lparr>se_run_id = ''R'', se_assignments = [(''demo'', demo_ref, demo_skill)], se_order = [''demo''],
       se_active = [], se_max_active = 8, se_max_chars = 20000, se_audit = [], se_last_truncated = None\<rparr>))) \<le> 200"
  by (rule catalog_within_budget [OF _ prod.collapse [symmetric]]) simp

end
