(* ===== verification/Config_Watcher.thy ===== *)
theory Config_Watcher
  imports Skill_Session Store "HOL-Library.Multiset"
begin

text \<open>
  \<^verbatim>\<open>ConfigWatcher\<close> (\<^verbatim>\<open>src/orchestration/config_watcher.py\<close>): the registries of a process are brought in
  line with the configuration tables, at every tick of a polling loop or on request.  The
  database content is an argument: the lists that the repositories return, ordered by name and
  version.  \<open>same\<close> stands for the comparison of two JSON dumps, \<open>reload_platform\<close> for the function
  that applies platform settings.

  The theorems: a reload that succeeds leaves exactly the agents, tools and Skills of the
  database in the registries, a second one changes nothing, no Skill enters the registry
  unverified, and a route tag that moves from one agent to an earlier one blocks every further
  reload.
\<close>

section \<open>Reloading the registries\<close>

definition registry_list :: "(string \<Rightarrow> 'k::linorder) \<Rightarrow> agent_registry \<Rightarrow> agent_spec list" where
  "registry_list vk reg = sort_key (\<lambda>a. (map byte (as_name a), vk (as_version a))) (map snd (reg_agents reg))"

definition by_key :: "('a \<Rightarrow> 'k) \<Rightarrow> 'a list \<Rightarrow> ('k \<times> 'a) list" where
  "by_key key xs = fold (\<lambda>x m. AList.update (key x) x m) xs []"

text \<open>
  The three reloads have the same two loops: entries of the registry that the database lacks
  are removed first, then new and changed rows are registered; an exception ends the reload.
\<close>

definition drop_missing ::
    "('k \<Rightarrow> 'v \<Rightarrow> 'r \<Rightarrow> 'r \<times> (py_exc + 'a)) \<Rightarrow> ('k \<times> 'v) list \<Rightarrow> 'k \<times> 'v \<Rightarrow> 'r \<times> (py_exc + int) \<Rightarrow> 'r \<times> (py_exc + int)" where
  "drop_missing remove db item acc =
     (case acc of (reg, Inl e) \<Rightarrow> (reg, Inl e)
      | (reg, Inr n) \<Rightarrow>
          if map_of db (fst item) \<noteq> None then (reg, Inr n)
          else (case remove (fst item) (snd item) reg of (reg', Inl e) \<Rightarrow> (reg', Inl e) | (reg', Inr _) \<Rightarrow> (reg', Inr (n + 1))))"

definition unchanged :: "('v \<Rightarrow> 'v \<Rightarrow> bool) \<Rightarrow> 'v option \<Rightarrow> 'v \<Rightarrow> bool" where
  "unchanged same old spec = (case old of None \<Rightarrow> False | Some a \<Rightarrow> same a spec)"

definition put_changed ::
    "('k \<Rightarrow> 'v \<Rightarrow> 'r \<Rightarrow> 'r \<times> (py_exc + 'b)) \<Rightarrow> ('v \<Rightarrow> 'v \<Rightarrow> bool) \<Rightarrow> ('k \<times> 'v) list \<Rightarrow> 'k \<times> 'v
     \<Rightarrow> 'r \<times> (py_exc + int) \<Rightarrow> 'r \<times> (py_exc + int)" where
  "put_changed put same regs item acc =
     (case acc of (reg, Inl e) \<Rightarrow> (reg, Inl e)
      | (reg, Inr n) \<Rightarrow>
          if unchanged same (map_of regs (fst item)) (snd item) then (reg, Inr n)
          else (case put (fst item) (snd item) reg of (reg', Inl e) \<Rightarrow> (reg', Inl e) | (reg', Inr _) \<Rightarrow> (reg', Inr (n + 1))))"

definition sync_registry ::
    "('k \<Rightarrow> 'v \<Rightarrow> 'r \<Rightarrow> 'r \<times> (py_exc + 'a)) \<Rightarrow> ('k \<Rightarrow> 'v \<Rightarrow> 'r \<Rightarrow> 'r \<times> (py_exc + 'b)) \<Rightarrow> ('v \<Rightarrow> 'v \<Rightarrow> bool)
     \<Rightarrow> ('k \<times> 'v) list \<Rightarrow> ('k \<times> 'v) list \<Rightarrow> 'r \<Rightarrow> 'r \<times> (py_exc + int)" where
  "sync_registry remove put same db regs reg =
     fold (put_changed put same regs) db (fold (drop_missing remove db) regs (reg, Inr 0))"

definition remove_agent :: "(string \<Rightarrow> 'k::linorder) \<Rightarrow> string \<times> string \<Rightarrow> agent_spec \<Rightarrow> agent_registry \<Rightarrow> agent_registry \<times> (py_exc + agent_spec list)" where
  "remove_agent vk key spec reg = deregister vk (as_name spec) (Some (as_version spec)) reg"

definition put_agent :: "(string \<Rightarrow> 'k::linorder) \<Rightarrow> string \<times> string \<Rightarrow> agent_spec \<Rightarrow> agent_registry \<Rightarrow> agent_registry \<times> (py_exc + unit)" where
  "put_agent vk key spec reg = register vk spec True reg"

definition reload_agents ::
    "(string \<Rightarrow> 'k::linorder) \<Rightarrow> (agent_spec \<Rightarrow> agent_spec \<Rightarrow> bool) \<Rightarrow> agent_spec list \<Rightarrow> agent_registry \<Rightarrow> agent_registry \<times> (py_exc + int)" where
  "reload_agents vk same db_list reg =
     sync_registry (remove_agent vk) (put_agent vk) same (by_key agent_key db_list) (by_key agent_key (registry_list vk reg)) reg"

definition tool_list :: "tool_registry \<Rightarrow> tool_spec list" where
  "tool_list reg = sort_key (\<lambda>t. map byte (ts_name t)) (map snd reg)"

definition remove_tool :: "string \<Rightarrow> tool_spec \<Rightarrow> tool_registry \<Rightarrow> tool_registry \<times> (py_exc + tool_spec)" where
  "remove_tool name spec reg = tools_deregister name reg"

definition put_tool :: "string \<Rightarrow> tool_spec \<Rightarrow> tool_registry \<Rightarrow> tool_registry \<times> (py_exc + tool_spec)" where
  "put_tool name spec reg = (tools_register spec reg, Inr spec)"

definition reload_tools :: "(tool_spec \<Rightarrow> tool_spec \<Rightarrow> bool) \<Rightarrow> tool_spec list \<Rightarrow> tool_registry \<Rightarrow> tool_registry \<times> (py_exc + int)" where
  "reload_tools same db_list reg = sync_registry remove_tool put_tool same (by_key ts_name db_list) (by_key ts_name (tool_list reg)) reg"

definition skill_key :: "skill_spec \<Rightarrow> string \<times> string" where
  "skill_key s = (sk_name s, sk_version s)"

definition remove_skill :: "(string \<Rightarrow> 'k::linorder) \<Rightarrow> string \<times> string \<Rightarrow> skill_spec \<Rightarrow> skill_registry \<Rightarrow> skill_registry \<times> (py_exc + skill_spec list)" where
  "remove_skill vk key spec reg = skill_deregister vk (fst key) (Some (snd key)) reg"

definition put_skill :: "(string \<Rightarrow> 'k::linorder) \<Rightarrow> string \<times> string \<Rightarrow> skill_spec \<Rightarrow> skill_registry \<Rightarrow> skill_registry \<times> (py_exc + skill_spec)" where
  "put_skill vk key spec reg = (skill_register vk spec (fst key \<notin> sk_name ` set (skill_list vk reg)) reg, Inr spec)"

text \<open>Without registry or loader nothing happens; the removals run in the order of a set.\<close>

definition reload_skills ::
    "loader option \<Rightarrow> (string \<Rightarrow> 'k::linorder) \<Rightarrow> (skill_spec \<Rightarrow> skill_spec \<Rightarrow> bool) \<Rightarrow> skill_spec list
     \<Rightarrow> skill_registry \<Rightarrow> skill_registry \<times> (py_exc + int)" where
  "reload_skills ld vk same db_list reg =
     (case ld of None \<Rightarrow> (reg, Inr 0)
      | Some l \<Rightarrow>
          let db = by_key skill_key db_list in
          (case verify_all l (map snd db) of Inl e \<Rightarrow> (reg, Inl e)
           | Inr _ \<Rightarrow> sync_registry (remove_skill vk) (put_skill vk) same db (by_key skill_key (skill_list vk reg)) reg))"

section \<open>The loop\<close>

record watcher =
  cw_agents :: agent_registry
  cw_tools :: tool_registry
  cw_skills :: skill_registry
  cw_mtimes :: "(string \<times> rat) list"
  cw_last_error :: "string option"
  cw_last_counts :: "(string \<times> int) list"
  cw_logs :: "log_event list"

text \<open>
  What a tick sees of its surroundings: the tables, the configuration files with their
  modification times, the settings file that exists (name and path), fresh trace ids and the
  clock, and the outcome of applying platform settings.
\<close>

record watch_env =
  we_agents :: "agent_spec list"
  we_tools :: "tool_spec list"
  we_skills :: "skill_spec list"
  we_loader :: "loader option"
  we_platform :: "(py_exc + int) option"
  we_mtimes :: "(string \<times> rat) list"
  we_settings_file :: "(string \<times> string) option"
  we_trace :: string
  we_now :: datetime
  we_fields :: "py_exc \<Rightarrow> string list"

definition watcher_log :: "watch_env \<Rightarrow> string \<Rightarrow> string \<Rightarrow> string \<Rightarrow> dict \<Rightarrow> watcher \<Rightarrow> watcher" where
  "watcher_log env event_type level message data cw =
     cw\<lparr>cw_logs := logs_add \<lparr>le_run_id = None, le_trace_id = we_trace env, le_component = ''config_watcher'', le_event_type = event_type,
        le_level = level, le_message = message, le_data = data, le_create_time = we_now env\<rparr> (cw_logs cw)\<rparr>"

definition reload_settings :: "watch_env \<Rightarrow> watcher \<Rightarrow> watcher \<times> (py_exc + int)" where
  "reload_settings env cw =
     (case we_settings_file env of None \<Rightarrow> (cw, Inr 0)
      | Some (name, path) \<Rightarrow> (watcher_log env ''settings_reload_skipped'' ''WARNING''
           (name @ '' is cold config; restart the server for settings changes to take effect'') [(''file'', JStr path)] cw, Inr 0))"

definition reload_platform_configs :: "watch_env \<Rightarrow> watcher \<Rightarrow> watcher \<times> (py_exc + int)" where
  "reload_platform_configs env cw = (cw, case we_platform env of None \<Rightarrow> Inr 0 | Some r \<Rightarrow> r)"

definition watch_agents where
  "watch_agents vk same env cw = (case reload_agents vk same (we_agents env) (cw_agents cw) of (r, n) \<Rightarrow> (cw\<lparr>cw_agents := r\<rparr>, n))"

definition watch_tools where
  "watch_tools same env cw = (case reload_tools same (we_tools env) (cw_tools cw) of (r, n) \<Rightarrow> (cw\<lparr>cw_tools := r\<rparr>, n))"

definition watch_skills where
  "watch_skills vk same env cw = (case reload_skills (we_loader env) vk same (we_skills env) (cw_skills cw) of (r, n) \<Rightarrow> (cw\<lparr>cw_skills := r\<rparr>, n))"

text \<open>Steps that count their changes, until one raises.\<close>

fun in_turn :: "('w \<Rightarrow> 'w \<times> (py_exc + int)) list \<Rightarrow> 'w \<Rightarrow> 'w \<times> (py_exc + int list)" where
  "in_turn [] w = (w, Inr [])"
| "in_turn (f # fs) w = (case f w of (w1, Inl e) \<Rightarrow> (w1, Inl e)
     | (w1, Inr n) \<Rightarrow> (case in_turn fs w1 of (w2, Inl e) \<Rightarrow> (w2, Inl e) | (w2, Inr ns) \<Rightarrow> (w2, Inr (n # ns))))"

definition warn_changed :: "watch_env \<Rightarrow> watcher \<Rightarrow> watcher \<times> (py_exc + int)" where
  "warn_changed env cw =
     (case in_turn (map (\<lambda>_. reload_settings env) (filter (\<lambda>(f, t). map_of (cw_mtimes cw) f \<noteq> Some t) (we_mtimes env))) cw of
        (cw1, Inl e) \<Rightarrow> (cw1, Inl e) | (cw1, Inr _) \<Rightarrow> (cw1\<lparr>cw_mtimes := we_mtimes env\<rparr>, Inr 0))"

fun failure_text :: "watch_env \<Rightarrow> py_exc \<Rightarrow> string" where
  "failure_text env e = (if exc_name e = ''ValidationError'' then ''ValidationError in: '' @ join_with '', '' (sorted_names (we_fields env e))
     else exc_name e @ '': '' @ exc_str e)"

text \<open>The body of the loop. A cancellation is not an \<^verbatim>\<open>Exception\<close> and leaves the loop.\<close>

definition watch_tick ::
    "(string \<Rightarrow> 'k::linorder) \<Rightarrow> (agent_spec \<Rightarrow> agent_spec \<Rightarrow> bool) \<Rightarrow> (tool_spec \<Rightarrow> tool_spec \<Rightarrow> bool) \<Rightarrow> (skill_spec \<Rightarrow> skill_spec \<Rightarrow> bool)
     \<Rightarrow> watch_env \<Rightarrow> watcher \<Rightarrow> watcher \<times> py_exc option" where
  "watch_tick vk same_a same_t same_s env cw =
     (case in_turn [watch_agents vk same_a env, watch_tools same_t env, watch_skills vk same_s env, reload_platform_configs env, warn_changed env] cw of
        (cw1, Inr _) \<Rightarrow> (cw1, None)
      | (cw1, Inl e) \<Rightarrow>
          if e = CancelledError then (cw1, Some e)
          else (watcher_log env ''config_reload_failed'' ''ERROR'' ''Config hot reload failed'' [(''error'', JStr (failure_text env e))]
                 (cw1\<lparr>cw_last_error := Some (failure_text env e)\<rparr>), None))"

definition reload_all ::
    "(string \<Rightarrow> 'k::linorder) \<Rightarrow> (agent_spec \<Rightarrow> agent_spec \<Rightarrow> bool) \<Rightarrow> (tool_spec \<Rightarrow> tool_spec \<Rightarrow> bool) \<Rightarrow> (skill_spec \<Rightarrow> skill_spec \<Rightarrow> bool)
     \<Rightarrow> watch_env \<Rightarrow> watcher \<Rightarrow> watcher \<times> (py_exc + (string \<times> int) list)" where
  "reload_all vk same_a same_t same_s env cw =
     (case in_turn [watch_agents vk same_a env, watch_tools same_t env, watch_skills vk same_s env, reload_platform_configs env, reload_settings env]
        (cw\<lparr>cw_last_error := None\<rparr>) of
        (cw1, Inl e) \<Rightarrow> (cw1, Inl e)
      | (cw1, Inr ns) \<Rightarrow>
          let counts = zip [''agents'', ''tools'', ''skills'', ''platform_configs'', ''settings''] ns
          in (cw1\<lparr>cw_last_counts := counts\<rparr>, Inr counts))"

section \<open>The contract of a synchronised registry\<close>

lemma drop_missing_step:
  "drop_missing remove db (k, v) (reg, Inr n) = (if map_of db k \<noteq> None then (reg, Inr n)
     else (case remove k v reg of (reg', Inl e) \<Rightarrow> (reg', Inl e) | (reg', Inr _) \<Rightarrow> (reg', Inr (n + 1))))"
  by (simp add: drop_missing_def)

lemma put_changed_step:
  "put_changed put same regs item (reg, Inl e) = (reg, Inl e)"
  "put_changed put same regs (k, v) (reg, Inr n) = (if unchanged same (map_of regs k) v then (reg, Inr n)
     else (case put k v reg of (reg', Inl e) \<Rightarrow> (reg', Inl e) | (reg', Inr _) \<Rightarrow> (reg', Inr (n + 1))))"
  by (simp_all add: put_changed_def)

locale synced_registry =
  fixes content :: "'r \<Rightarrow> 'k \<Rightarrow> 'v option" and invar :: "'r \<Rightarrow> bool" and key :: "'v \<Rightarrow> 'k"
    and remove :: "'k \<Rightarrow> 'v \<Rightarrow> 'r \<Rightarrow> 'r \<times> (py_exc + 'a)" and put :: "'k \<Rightarrow> 'v \<Rightarrow> 'r \<Rightarrow> 'r \<times> (py_exc + 'b)"
  assumes remove_ok: "invar r \<Longrightarrow> content r k = Some v \<Longrightarrow> \<exists>r' x. remove k v r = (r', Inr x) \<and> invar r' \<and> content r' = (content r)(k := None)"
    and put_ok: "invar r \<Longrightarrow> put (key v) v r = (r', Inr x) \<Longrightarrow> invar r' \<and> content r' = (content r)(key v \<mapsto> v)"
    and put_refused: "invar r \<Longrightarrow> put (key v) v r = (r', Inl e) \<Longrightarrow> r' = r"
begin

lemma removals:
  assumes "invar r" and "distinct (map fst ls)" and "\<forall>(k, v) \<in> set ls. content r k = Some v"
  shows "\<exists>r' n. fold (drop_missing remove db) ls (r, Inr m) = (r', Inr n) \<and> invar r'
     \<and> (\<forall>k. content r' k = (if k \<in> fst ` set ls \<and> map_of db k = None then None else content r k))"
  using assms
proof (induction ls arbitrary: r m)
  case (Cons p ls)
  obtain k v where p: "p = (k, v)" by fastforce
  show ?case
  proof (cases "map_of db k")
    case None
    obtain r1 x where r1: "remove k v r = (r1, Inr x)" "invar r1" "content r1 = (content r)(k := None)"
      using remove_ok [OF Cons.prems(1), of k v] Cons.prems(3) p by auto
    have "\<forall>(k', v') \<in> set ls. content r1 k' = Some v'"
    proof clarify
      fix k' v' assume m: "(k', v') \<in> set ls"
      then have "k' \<noteq> k" using Cons.prems(2) p by (force simp: image_iff)
      then show "content r1 k' = Some v'" using Cons.prems(3) r1(3) m by auto
    qed
    from Cons.IH [OF r1(2) _ this, of "m + 1"] Cons.prems(2) p obtain r' n where
      "fold (drop_missing remove db) ls (r1, Inr (m + 1)) = (r', Inr n)" "invar r'"
      "\<forall>k. content r' k = (if k \<in> fst ` set ls \<and> map_of db k = None then None else content r1 k)" by auto
    then show ?thesis using None r1 p by (intro exI [of _ r'] exI [of _ n]) (simp add: drop_missing_step)
  next
    case (Some w)
    have "\<forall>(k', v') \<in> set ls. content r k' = Some v'" using Cons.prems(3) by auto
    from Cons.IH [OF Cons.prems(1) _ this, of m] Cons.prems(2) p obtain r' n where
      "fold (drop_missing remove db) ls (r, Inr m) = (r', Inr n)" "invar r'"
      "\<forall>k. content r' k = (if k \<in> fst ` set ls \<and> map_of db k = None then None else content r k)" by auto
    then show ?thesis using Some p by (intro exI [of _ r'] exI [of _ n]) (auto simp: drop_missing_step)
  qed
qed simp

lemma no_removals: "\<forall>k \<in> fst ` set ls. map_of db k \<noteq> None \<Longrightarrow> fold (drop_missing remove db) ls (r, Inr m) = (r, Inr m)"
  by (induction ls) (auto simp: drop_missing_step)

lemma put_stops: "fold (put_changed put same regs) ls (r, Inl e) = (r, Inl e)"
  by (induction ls) (simp_all add: put_changed_step)

lemma puts_invar:
  assumes "invar r" and "\<forall>(k, v) \<in> set ls. k = key v"
  shows "invar (fst (fold (put_changed put same regs) ls (r, Inr m)))"
  using assms
proof (induction ls arbitrary: r m)
  case (Cons p ls)
  obtain k v where p: "p = (k, v)" "k = key v" using Cons.prems(2) by (cases p) auto
  obtain r1 x where r1: "put k v r = (r1, x)" by fastforce
  show ?case
  proof (cases x)
    case (Inl e)
    then have "r1 = r" using put_refused [OF Cons.prems(1), of v] r1 p by simp
    then show ?thesis using Cons p r1 Inl by (simp add: put_changed_step put_stops)
  next
    case (Inr y)
    then have "invar r1" using put_ok [OF Cons.prems(1), of v] r1 p by simp
    then show ?thesis using Cons p r1 Inr by (simp add: put_changed_step)
  qed
qed simp

lemma puts:
  assumes "invar r" and "distinct (map fst ls)" and "\<forall>(k, v) \<in> set ls. k = key v"
    and "fold (put_changed put same regs) ls (r, Inr m) = (r', Inr n)"
  shows "content r' x = (case map_of ls x of None \<Rightarrow> content r x
      | Some v \<Rightarrow> if unchanged same (map_of regs x) v then content r x else Some v)"
  using assms
proof (induction ls arbitrary: r m)
  case (Cons p ls)
  obtain k v where p: "p = (k, v)" "k = key v" using Cons.prems(3) by (cases p) auto
  have nk: "map_of ls k = None" using Cons.prems(2) p by (simp add: map_of_eq_None_iff)
  show ?case
  proof (cases "unchanged same (map_of regs k) v")
    case True
    then have "fold (put_changed put same regs) ls (r, Inr m) = (r', Inr n)" using Cons.prems(4) p by (simp add: put_changed_step)
    from Cons.IH [OF Cons.prems(1) _ _ this] Cons.prems(2,3) p nk True show ?thesis by (simp split: option.split)
  next
    case False
    obtain r1 z where r1: "put k v r = (r1, z)" by fastforce
    with Cons.prems(4) False p obtain y where y: "z = Inr y" "fold (put_changed put same regs) ls (r1, Inr (m + 1)) = (r', Inr n)"
      by (cases z) (auto simp: put_changed_step put_stops)
    then have c: "invar r1" "content r1 = (content r)(k \<mapsto> v)" using put_ok [OF Cons.prems(1), of v] r1 p by auto
    from Cons.IH [OF c(1) _ _ y(2)] Cons.prems(2,3) have "content r' x = (case map_of ls x of None \<Rightarrow> content r1 x
      | Some v \<Rightarrow> if unchanged same (map_of regs x) v then content r1 x else Some v)" by simp
    then show ?thesis using p nk False c(2) by (cases "x = k") (simp_all split: option.split)
  qed
qed simp

lemma sync_content:
  assumes r: "invar r" and regs: "distinct (map fst regs)" "map_of regs = content r"
    and db: "distinct (map fst db)" "\<forall>(k, v) \<in> set db. k = key v"
    and s: "sync_registry remove put same db regs r = (r', Inr n)"
  shows "content r' k = (case map_of db k of None \<Rightarrow> None
     | Some v \<Rightarrow> if unchanged same (content r k) v then content r k else Some v)"
proof -
  have "\<forall>(k, v) \<in> set regs. content r k = Some v" using regs by (auto simp flip: regs(2))
  from removals [OF r regs(1) this, of db 0] obtain r1 n1 where r1: "fold (drop_missing remove db) regs (r, Inr 0) = (r1, Inr n1)"
    "invar r1" "\<forall>k. content r1 k = (if k \<in> fst ` set regs \<and> map_of db k = None then None else content r k)" by blast
  have dom: "k \<in> fst ` set regs \<longleftrightarrow> content r k \<noteq> None" for k using map_of_eq_None_iff [of regs k] regs(2) by auto
  from puts [OF r1(2) db, of same regs n1 r' n] s r1(1) have
    "content r' k = (case map_of db k of None \<Rightarrow> content r1 k | Some v \<Rightarrow> if unchanged same (map_of regs k) v then content r1 k else Some v)"
    by (simp add: sync_registry_def)
  then show ?thesis using r1(3) dom [of k] regs(2) by (auto split: option.split)
qed

lemma sync_invar:
  assumes "invar r" and "distinct (map fst regs)" "map_of regs = content r" and "\<forall>(k, v) \<in> set db. k = key v"
  shows "invar (fst (sync_registry remove put same db regs r))"
proof -
  have "\<forall>(k, v) \<in> set regs. content r k = Some v" using assms(2) by (auto simp flip: assms(3))
  from removals [OF assms(1,2) this, of db 0] obtain r1 n1 where "fold (drop_missing remove db) regs (r, Inr 0) = (r1, Inr n1)" "invar r1" by blast
  then show ?thesis using puts_invar [OF _ assms(4)] by (simp add: sync_registry_def)
qed

lemma sync_total:
  assumes "invar r" and "distinct (map fst regs)" "map_of regs = content r" and total: "\<And>k v s. \<exists>s' x. put k v s = (s', Inr x)"
  shows "\<exists>r' n. sync_registry remove put same db regs r = (r', Inr n)"
proof -
  have "\<forall>(k, v) \<in> set regs. content r k = Some v" using assms(2) by (auto simp flip: assms(3))
  from removals [OF assms(1,2) this, of db 0] obtain r1 n1 where 1: "fold (drop_missing remove db) regs (r, Inr 0) = (r1, Inr n1)" by blast
  have "\<exists>r' n. fold (put_changed put same regs) ls (s, Inr m) = (r', Inr n)" for ls s m
  proof (induction ls arbitrary: s m)
    case (Cons p ls)
    obtain s' x where "put (fst p) (snd p) s = (s', Inr x)" using total by blast
    then show ?case using Cons.IH by (cases p) (simp add: put_changed_step)
  qed simp
  then show ?thesis by (simp add: sync_registry_def 1)
qed

lemma sync_settled:
  assumes r: "invar r" and regs: "distinct (map fst regs)" "map_of regs = content r"
    and same: "\<And>k. pred_option (\<lambda>v. unchanged same (content r k) v) (map_of db k)" "\<And>k. map_of db k = None \<Longrightarrow> content r k = None"
    and db: "distinct (map fst db)"
  shows "sync_registry remove put same db regs r = (r, Inr 0)"
proof -
  have c: "\<forall>(k, v) \<in> set regs. content r k = Some v" using regs by (auto simp flip: regs(2))
  then have "\<forall>k \<in> fst ` set regs. map_of db k \<noteq> None" using same(2) by fastforce
  then have 1: "fold (drop_missing remove db) regs (r, Inr 0) = (r, Inr 0)" by (rule no_removals)
  have "\<forall>(k, v) \<in> set db. unchanged same (map_of regs k) v" using same(1) regs(2) db by (force simp: pred_option_def)
  then have "fold (put_changed put same regs) db (r, Inr m) = (r, Inr m)" for m by (induction db) (auto simp: put_changed_step)
  then show ?thesis using 1 by (simp add: sync_registry_def)
qed

end

section \<open>The three registries keep the contract\<close>

lemma update_new: "k \<notin> fst ` set m \<Longrightarrow> AList.update k v m = m @ [(k, v)]"
  by (induction m) auto

lemma set_update_new: "set (AList.update k v m) \<subseteq> insert (k, v) (set m)"
  by (induction m) auto

lemma by_key_distinct: "distinct (map key xs) \<Longrightarrow> by_key key xs = map (\<lambda>x. (key x, x)) xs"
proof -
  have "distinct (map key xs) \<Longrightarrow> key ` set xs \<inter> fst ` set m = {} \<Longrightarrow>
      fold (\<lambda>x m. AList.update (key x) x m) xs m = m @ map (\<lambda>x. (key x, x)) xs" for m
  proof (induction xs arbitrary: m)
    case (Cons x xs)
    then have "AList.update (key x) x m = m @ [(key x, x)]" by (intro update_new) auto
    then show ?case using Cons by auto
  qed simp
  then show "distinct (map key xs) \<Longrightarrow> by_key key xs = map (\<lambda>x. (key x, x)) xs" by (simp add: by_key_def)
qed

lemma by_key_keys: "distinct (map fst (by_key key xs)) \<and> (\<forall>(k, x) \<in> set (by_key key xs). k = key x)"
proof -
  let ?P = "\<lambda>m. distinct (map fst m) \<and> (\<forall>p \<in> set m. fst p = key (snd p))"
  have step: "?P (AList.update (key x) x m)" if "?P m" for x m
    using that set_update_new [of "key x" x m] by (auto simp: distinct_update)
  have "?P (fold (\<lambda>x m. AList.update (key x) x m) xs m)" if "?P m" for m using that
  proof (induction xs arbitrary: m)
    case (Cons x xs)
    show ?case using Cons.IH [OF step [OF Cons.prems]] by simp
  qed simp
  from this [of "[]"] have "?P (by_key key xs)" by (simp add: by_key_def)
  then show ?thesis by fastforce
qed

lemma by_key_listing:
  assumes d: "distinct (map fst ags)" and k: "\<forall>(k, a) \<in> set ags. k = key a" and m: "mset xs = mset (map snd ags)"
  shows "map_of (by_key key xs) = map_of ags"
proof -
  have ags: "ags = map (\<lambda>a. (key a, a)) (map snd ags)" using k by (induction ags) auto
  then have "map fst ags = map key (map snd ags)" by (metis (no_types, lifting) comp_apply fst_conv map_eq_conv map_map)
  then have "mset (map key xs) = mset (map fst ags)" using m by (metis mset_map)
  then have "distinct (map key xs)" using d by (metis mset_eq_imp_distinct_iff)
  then have b: "by_key key xs = map (\<lambda>x. (key x, x)) xs" by (rule by_key_distinct)
  have "set xs = set (map snd ags)" using m by (metis set_mset_mset)
  then have "set (map (\<lambda>x. (key x, x)) xs) = set (map (\<lambda>x. (key x, x)) (map snd ags))" by (simp only: set_map)
  then have "set (by_key key xs) = set ags" unfolding b ags [symmetric] .
  then show ?thesis using map_of_inject_set [of "by_key key xs" ags] by_key_keys [of key xs] d by simp
qed

lemma distinct_singleton_set:
  assumes "distinct xs" and "set xs = {x}"
  shows "xs = [x]"
proof (cases xs)
  case (Cons y ys)
  then have y: "y = x" "x \<notin> set ys" "set ys \<subseteq> {x}" using assms by auto
  then have "set ys = {}" using subset_singletonD [OF y(3)] by auto
  with Cons y show ?thesis by simp
qed (use assms in simp)

lemma deregister_version:
  assumes ok: "registry_ok reg" and a: "map_of (reg_agents reg) (agent_key a) = Some a"
  shows "\<exists>reg' x. deregister vk (as_name a) (Some (as_version a)) reg = (reg', Inr x) \<and> registry_ok reg'
     \<and> map_of (reg_agents reg') = (map_of (reg_agents reg))(agent_key a := None)"
proof -
  let ?items = "filter (\<lambda>(k, b). as_name b = as_name a \<and> (case Some (as_version a) of None \<Rightarrow> True | Some v \<Rightarrow> as_version b = v)) (reg_agents reg)"
  have items: "(k, b) \<in> set ?items \<longleftrightarrow> k = agent_key a \<and> b = a" for k b
    using registry_ok_items [OF ok, of "(k, b)"] a registry_okD(1) [OF ok]
    by (auto simp: agent_key_def map_of_eq_Some_iff intro: eq_key_imp_eq_value)
  have "distinct ?items" using registry_okD(1) [OF ok] by (simp add: distinct_map)
  moreover have "set ?items = {(agent_key a, a)}" using items by auto
  ultimately have e: "?items = [(agent_key a, a)]" by (rule distinct_singleton_set)
  let ?ags = "AList.delete (agent_key a) (reg_agents reg)"
  have d: "deregister vk (as_name a) (Some (as_version a)) reg = (\<lparr>reg_agents = ?ags, reg_routes = reroute vk ?ags a (reg_routes reg)\<rparr>, Inr [a])"
    unfolding deregister_def e by (simp add: deregister_step_def Let_def)
  then show ?thesis using deregister_ok [OF ok, of vk "as_name a" "Some (as_version a)"] by (simp add: delete_conv')
qed

interpretation agents_sync: synced_registry "\<lambda>reg. map_of (reg_agents reg)" registry_ok agent_key "remove_agent vk" "put_agent vk" for vk
proof
  fix r k and v :: agent_spec
  assume ok: "registry_ok r" and c: "map_of (reg_agents r) k = Some v"
  then have "k = agent_key v" by (simp add: registry_okD(3))
  then show "\<exists>r' x. remove_agent vk k v r = (r', Inr x) \<and> registry_ok r' \<and> map_of (reg_agents r') = (map_of (reg_agents r))(k := None)"
    using deregister_version [OF ok, of v vk] c by (simp add: remove_agent_def)
next
  fix r r' and v :: agent_spec and x
  assume ok: "registry_ok r" and p: "put_agent vk (agent_key v) v r = (r', Inr x)"
  then have "reg_agents r' = AList.update (agent_key v) v (reg_agents r)"
    by (auto simp: put_agent_def register_def Let_def split: option.splits if_splits)
  then show "registry_ok r' \<and> map_of (reg_agents r') = (map_of (reg_agents r))(agent_key v \<mapsto> v)"
    using register_ok [OF ok, of vk v True] p by (simp add: put_agent_def update_conv')
next
  fix r r' and v :: agent_spec and e
  assume "put_agent vk (agent_key v) v r = (r', Inl e)"
  then show "r' = r" by (auto simp: put_agent_def register_def Let_def split: option.splits if_splits)
qed

definition tools_ok :: "tool_registry \<Rightarrow> bool" where
  "tools_ok reg \<longleftrightarrow> distinct (map fst reg) \<and> (\<forall>(n, t) \<in> set reg. n = ts_name t)"

interpretation tools_sync: synced_registry map_of tools_ok ts_name remove_tool put_tool
proof
  fix r k and v :: tool_spec
  assume "tools_ok r" "map_of r k = Some v"
  then show "\<exists>r' x. remove_tool k v r = (r', Inr x) \<and> tools_ok r' \<and> map_of r' = (map_of r)(k := None)"
    by (auto simp: remove_tool_def tools_deregister_def tools_ok_def distinct_delete delete_conv') (auto simp: AList.delete_eq)
next
  fix r r' and v :: tool_spec and x
  assume "tools_ok r" "put_tool (ts_name v) v r = (r', Inr x)"
  then show "tools_ok r' \<and> map_of r' = (map_of r)(ts_name v \<mapsto> v)"
    using set_update_new [of "ts_name v" v r] by (fastforce simp: put_tool_def tools_register_def tools_ok_def distinct_update update_conv')
qed (simp add: put_tool_def)

lemma skill_register_skills [simp]:
  "kr_skills (skill_register vk s d reg) = AList.update (sk_name s, sk_version s) s (kr_skills reg)"
  by (simp add: skill_register_def Let_def reselect_default_def)

lemma reselect_default_skills [simp]: "kr_skills (reselect_default vk n reg) = kr_skills reg"
  by (simp add: reselect_default_def)

lemma skill_deregister_version:
  assumes ok: "skills_ok reg" and s: "map_of (kr_skills reg) k = Some s"
  shows "\<exists>reg' x. skill_deregister vk (fst k) (Some (snd k)) reg = (reg', Inr x) \<and> skills_ok reg'
     \<and> map_of (kr_skills reg') = (map_of (kr_skills reg))(k := None)"
proof -
  let ?gone = "\<lambda>(k', s). sk_name s = fst k \<and> (Some (snd k) = None \<or> Some (snd k) = Some (sk_version s))"
  obtain reg' x where r: "skill_deregister vk (fst k) (Some (snd k)) reg = (reg', x)" by fastforce
  have id: "(k', t) \<in> set (kr_skills reg) \<Longrightarrow> k' = (sk_name t, sk_version t)" for k' t
    using skills_okD(1,2) [OF ok] by (meson map_of_is_SomeI)
  have "(k, s) \<in> set (kr_skills reg)" using s by (rule map_of_SomeD)
  then have hit: "(k, s) \<in> set (filter ?gone (kr_skills reg))" using id [of k s] by auto
  then have "filter ?gone (kr_skills reg) \<noteq> []" by (metis empty_iff list.set(1))
  then have "kr_skills reg' = filter (\<lambda>p. \<not> ?gone p) (kr_skills reg)" "\<exists>y. x = Inr y"
    using r by (auto simp: skill_deregister_def Let_def split: option.splits if_splits)
  moreover have "filter (\<lambda>p. \<not> ?gone p) (kr_skills reg) = filter (\<lambda>p. fst p \<noteq> k) (kr_skills reg)"
    using id by (intro filter_cong) auto
  moreover have "map_of (filter (\<lambda>p. fst p \<noteq> k) m) = (map_of m)(k := None)" for m :: "((string \<times> string) \<times> skill_spec) list"
    by (induction m) auto
  ultimately show ?thesis using r skill_deregister_ok [OF ok, of vk "fst k" "Some (snd k)"] by auto
qed

interpretation skills_sync: synced_registry "\<lambda>reg. map_of (kr_skills reg)" skills_ok skill_key "remove_skill vk" "put_skill vk" for vk
proof
  fix r k and v :: skill_spec
  assume "skills_ok r" "map_of (kr_skills r) k = Some v"
  then show "\<exists>r' x. remove_skill vk k v r = (r', Inr x) \<and> skills_ok r' \<and> map_of (kr_skills r') = (map_of (kr_skills r))(k := None)"
    using skill_deregister_version [of r k v vk] by (simp add: remove_skill_def)
next
  fix r r' and v :: skill_spec and x
  assume "skills_ok r" "put_skill vk (skill_key v) v r = (r', Inr x)"
  then show "skills_ok r' \<and> map_of (kr_skills r') = (map_of (kr_skills r))(skill_key v \<mapsto> v)"
    by (auto simp: put_skill_def skill_key_def skill_register_ok update_conv')
qed (simp add: put_skill_def)

section \<open>Properties\<close>

lemma agents_listing:
  assumes ok: "registry_ok reg"
  shows "map_of (by_key agent_key (registry_list vk reg)) = map_of (reg_agents reg)"
proof (rule by_key_listing [OF registry_okD(1) [OF ok]])
  show "\<forall>(k, a) \<in> set (reg_agents reg). k = agent_key a" using registry_ok_items [OF ok] by fastforce
qed (simp add: registry_list_def)

lemma tools_listing: "tools_ok reg \<Longrightarrow> map_of (by_key ts_name (tool_list reg)) = map_of reg"
  by (rule by_key_listing) (auto simp: tools_ok_def tool_list_def)

lemma skills_listing:
  assumes ok: "skills_ok reg"
  shows "map_of (by_key skill_key (skill_list vk reg)) = map_of (kr_skills reg)"
proof (rule by_key_listing [OF skills_okD(1) [OF ok]])
  show "\<forall>(k, a) \<in> set (kr_skills reg). k = skill_key a"
    using skills_okD(1,2) [OF ok] by (auto simp: skill_key_def dest!: map_of_is_SomeI)
  show "mset (skill_list vk reg) = mset (map snd (kr_skills reg))" by (simp add: skill_list_def)
qed

text \<open>
  C20: A reload that succeeds makes the agent registry agree with the table: an agent version is
  registered if and only if it has a row, with the content of the row (or an old content that
  dumps to the same JSON), routing is still sound, and reloading again changes nothing.
\<close>

theorem agent_reload_converges:
  assumes ok: "registry_ok reg" and same: "\<And>a. same a a" and r: "reload_agents vk same db reg = (reg', Inr n)"
  shows "registry_ok reg'
     \<and> (\<forall>k. case map_of (by_key agent_key db) k of
          None \<Rightarrow> map_of (reg_agents reg') k = None
        | Some s \<Rightarrow> (\<exists>a. map_of (reg_agents reg') k = Some a \<and> (a = s \<or> same a s)))
     \<and> reload_agents vk same db reg' = (reg', Inr 0)"
proof -
  let ?db = "by_key agent_key db"
  note kd = by_key_keys [of agent_key db] and kr = by_key_keys [of agent_key "registry_list vk reg"] agents_listing [OF ok, of vk]
  have c: "map_of (reg_agents reg') k = (case map_of ?db k of None \<Rightarrow> None
     | Some v \<Rightarrow> if unchanged same (map_of (reg_agents reg) k) v then map_of (reg_agents reg) k else Some v)" for k
    using agents_sync.sync_content [OF ok conjunct1 [OF kr(1)] kr(2) conjunct1 [OF kd] conjunct2 [OF kd] r [unfolded reload_agents_def]] .
  have ok': "registry_ok reg'"
    using agents_sync.sync_invar [OF ok conjunct1 [OF kr(1)] kr(2) conjunct2 [OF kd], of vk same] r by (simp add: reload_agents_def)
  have u: "pred_option (\<lambda>v. unchanged same (map_of (reg_agents reg') k) v) (map_of ?db k)" for k
    by (auto simp: c unchanged_def same pred_option_def split: option.splits if_splits)
  have none: "map_of ?db k = None \<Longrightarrow> map_of (reg_agents reg') k = None" for k by (simp add: c)
  have "reload_agents vk same db reg' = (reg', Inr 0)"
    unfolding reload_agents_def
    using agents_sync.sync_settled [OF ok' _ agents_listing [OF ok', of vk] u none] by_key_keys [of agent_key "registry_list vk reg'"] kd by blast
  moreover have "\<forall>k. case map_of ?db k of None \<Rightarrow> map_of (reg_agents reg') k = None
        | Some s \<Rightarrow> (\<exists>a. map_of (reg_agents reg') k = Some a \<and> (a = s \<or> same a s))"
    by (auto simp: c unchanged_def split: option.splits)
  ultimately show ?thesis using ok' by blast
qed

theorem agent_reload_converges_witness:
  "let a = demo_agent ''a'' ''1'' [''t'']; b = demo_agent ''b'' ''1'' [''t''];
       reg = fst (register length a True empty_registry)
   in case reload_agents length (=) [b] reg of
        (reg', Inr n) \<Rightarrow> n = 2 \<and> map_of (reg_agents reg') (''b'', ''1'') = Some b \<and> reload_agents length (=) [b] reg' = (reg', Inr 0)
      | _ \<Rightarrow> False"
proof -
  let ?a = "demo_agent ''a'' ''1'' [''t'']" and ?b = "demo_agent ''b'' ''1'' [''t'']"
  let ?reg = "fst (register length ?a True empty_registry)"
  have "registry_ok ?reg" using register_ok [of empty_registry] by (simp add: registry_ok_def empty_registry_def)
  moreover have "\<exists>reg'. reload_agents length (=) [?b] ?reg = (reg', Inr 2) \<and> map_of (reg_agents reg') (''b'', ''1'') = Some ?b"
    by (simp add: reload_agents_def sync_registry_def by_key_def registry_list_def drop_missing_step put_changed_step unchanged_def
        remove_agent_def put_agent_def deregister_def deregister_step_def demo_simps)
  ultimately show ?thesis using agent_reload_converges [of ?reg "(=)" length "[?b]"] by (auto simp: Let_def)
qed

text \<open>
  A route tag cannot be handed over to an agent that comes earlier in the table. Removals run
  before registrations, but an agent that keeps its row and only gives up the tag still holds
  it when the new owner is registered: the reload fails, leaves the registry as it was, and
  fails again at every later tick, so that no change of the agents is picked up any more.
\<close>

theorem route_handover_blocks_reload:
  assumes ok: "registry_ok reg" and d: "distinct (map agent_key (b # rest))"
    and rows: "fst ` set (reg_agents reg) \<subseteq> agent_key ` set (b # rest)"
    and new: "\<not> unchanged same (map_of (reg_agents reg) (agent_key b)) b" "as_enabled b"
    and tag: "t \<in> set (as_route_tags b)" "map_of (reg_routes reg) t = Some a" "as_name a \<noteq> as_name b"
  shows "\<exists>e. reload_agents vk same (b # rest) reg = (reg, Inl e)"
proof -
  let ?db = "by_key agent_key (b # rest)" and ?regs = "by_key agent_key (registry_list vk reg)"
  have db: "?db = (agent_key b, b) # map (\<lambda>x. (agent_key x, x)) rest" using by_key_distinct [OF d] by simp
  have "dom (map_of ?regs) = dom (map_of (reg_agents reg))" using agents_listing [OF ok, of vk] by simp
  then have fr: "fst ` set ?regs = fst ` set (reg_agents reg)" by (simp add: dom_map_of_conv_image_fst)
  have dd: "dom (map_of ?db) = agent_key ` set (b # rest)" unfolding db by (simp add: dom_map_of_conv_image_fst image_image)
  have "\<forall>k \<in> fst ` set ?regs. map_of ?db k \<noteq> None"
  proof
    fix k assume "k \<in> fst ` set ?regs"
    then have "k \<in> dom (map_of ?db)" unfolding fr dd using rows by (rule set_rev_mp)
    then show "map_of ?db k \<noteq> None" by (simp add: domIff)
  qed
  then have 1: "fold (drop_missing (remove_agent vk) ?db) ?regs (reg, Inr 0) = (reg, Inr 0)" by (rule agents_sync.no_removals)
  let ?taken = "\<lambda>t. case map_of (reg_routes reg) t of None \<Rightarrow> False | Some e \<Rightarrow> as_name e \<noteq> as_name b"
  have "?taken t" by (simp add: tag)
  then have "find ?taken (as_route_tags b) \<noteq> None" using tag(1) unfolding find_None_iff by blast
  then obtain u where u: "find ?taken (as_route_tags b) = Some u" by blast
  then obtain e where "route_conflict b (reg_routes reg) = Some e" unfolding route_conflict_def u option.case by blast
  then have "put_agent vk (agent_key b) b reg = (reg, Inl e)" using new(2) by (simp add: put_agent_def register_def)
  then have "put_changed (put_agent vk) same ?regs (agent_key b, b) (reg, Inr 0) = (reg, Inl e)"
    unfolding put_changed_step agents_listing [OF ok, of vk] using new(1) by simp
  then have "sync_registry (remove_agent vk) (put_agent vk) same ?db ?regs reg = (reg, Inl e)"
    unfolding sync_registry_def 1 by (simp add: db agents_sync.put_stops)
  then show ?thesis unfolding reload_agents_def by blast
qed

theorem route_handover_blocks_reload_witness:
  "let old = demo_agent ''old'' ''1'' [''t'']; new = demo_agent ''new'' ''1'' [''t''];
       reg = fst (register length old True empty_registry)
   in \<exists>e. reload_agents length (=) [new, old\<lparr>as_route_tags := []\<rparr>] reg = (reg, Inl e)"
proof -
  let ?old = "demo_agent ''old'' ''1'' [''t'']"
  let ?reg = "fst (register length ?old True empty_registry)"
  have "registry_ok ?reg" using register_ok [of empty_registry] by (simp add: registry_ok_def empty_registry_def)
  then show ?thesis unfolding Let_def
    by (rule route_handover_blocks_reload [where t = "''t''" and a = ?old]) (simp_all add: demo_simps unchanged_def)
qed

text \<open>
  No Skill enters the registry unverified, and a bad row does no harm. When an artifact of the
  table fails verification, the registry is left as it was; otherwise the registry holds
  exactly the rows, all of them verified, and the default versions are still enabled ones.
\<close>

theorem skill_reload_is_verified:
  assumes ok: "skills_ok reg" and r: "reload_skills (Some ld) vk same db reg = (reg', res)"
  shows "skills_ok reg' \<and> (case res of
       Inl e \<Rightarrow> reg' = reg \<and> (\<exists>s \<in> set db. skill_verify ld s = Inl e)
     | Inr n \<Rightarrow> (\<forall>k. case map_of (by_key skill_key db) k of
           None \<Rightarrow> map_of (kr_skills reg') k = None
         | Some s \<Rightarrow> skill_verify ld s = Inr () \<and> (\<exists>a. map_of (kr_skills reg') k = Some a \<and> (a = s \<or> same a s))))"
proof -
  let ?db = "by_key skill_key db" and ?regs = "by_key skill_key (skill_list vk reg)"
  note kd = by_key_keys [of skill_key db] and kr = by_key_keys [of skill_key "skill_list vk reg"] skills_listing [OF ok, of vk]
  have mem: "snd ` set (fold (\<lambda>x m. AList.update (skill_key x) x m) xs m) \<subseteq> set xs \<union> snd ` set m" for xs m
  proof (induction xs arbitrary: m)
    case (Cons x xs)
    show ?case using Cons.IH [of "AList.update (skill_key x) x m"] set_update_new [of "skill_key x" x m] by force
  qed simp
  show ?thesis
  proof (cases "verify_all ld (map snd ?db)")
    case (Inl e)
    have "verify_all ld ss = Inl e \<Longrightarrow> \<exists>s \<in> set ss. skill_verify ld s = Inl e" for ss by (induction ss) (auto split: sum.splits)
    then have "\<exists>s \<in> set db. skill_verify ld s = Inl e" using Inl mem [of db "[]"] by (force simp: by_key_def)
    then show ?thesis using r ok Inl by (auto simp: reload_skills_def Let_def)
  next
    case (Inr u)
    then have v: "\<forall>s \<in> set (map snd ?db). skill_verify ld s = Inr ()" by (simp add: verify_all_iff)
    have s: "sync_registry (remove_skill vk) (put_skill vk) same ?db ?regs reg = (reg', res)"
      using r Inr by (simp add: reload_skills_def Let_def)
    obtain n where n: "res = Inr n"
      using skills_sync.sync_total [OF ok conjunct1 [OF kr(1)] kr(2), of vk same ?db] s by (auto simp: put_skill_def)
    have c: "map_of (kr_skills reg') k = (case map_of ?db k of None \<Rightarrow> None
       | Some v \<Rightarrow> if unchanged same (map_of (kr_skills reg) k) v then map_of (kr_skills reg) k else Some v)" for k
      using skills_sync.sync_content [OF ok conjunct1 [OF kr(1)] kr(2) conjunct1 [OF kd] conjunct2 [OF kd] s [unfolded n]] .
    have "skills_ok reg'" using skills_sync.sync_invar [OF ok conjunct1 [OF kr(1)] kr(2) conjunct2 [OF kd], of vk same] s by simp
    moreover have "map_of ?db k = Some x \<Longrightarrow> skill_verify ld x = Inr ()" for k x using v by (force dest: map_of_SomeD)
    ultimately show ?thesis by (auto simp: n c unchanged_def split: option.split)
  qed
qed

theorem skill_reload_is_verified_witness:
  "case reload_skills (Some demo_loader) length (=) [demo_skill] \<lparr>kr_skills = [], kr_defaults = []\<rparr> of
     (reg', Inr n) \<Rightarrow> map_of (kr_skills reg') (''demo'', ''1.0.0'') = Some demo_skill \<and> skills_ok reg'
   | _ \<Rightarrow> False"
proof -
  obtain reg' res where r: "reload_skills (Some demo_loader) length (=) [demo_skill] \<lparr>kr_skills = [], kr_defaults = []\<rparr> = (reg', res)" by fastforce
  have db: "by_key skill_key [demo_skill] = [((''demo'', ''1.0.0''), demo_skill)]" by (simp add: by_key_def skill_key_def demo_skill_fields)
  have ok: "skills_ok \<lparr>kr_skills = [], kr_defaults = []\<rparr>"
    by (simp add: skills_ok_def skill_keys_ok_def sound_default_def has_default_def live_skill_def)
  note v = skill_reload_is_verified [OF ok r]
  obtain n where n: "res = Inr n" using v demo_verified by (cases res) auto
  have "case map_of (by_key skill_key [demo_skill]) (''demo'', ''1.0.0'') of
      None \<Rightarrow> map_of (kr_skills reg') (''demo'', ''1.0.0'') = None
    | Some s \<Rightarrow> skill_verify demo_loader s = Inr () \<and> (\<exists>a. map_of (kr_skills reg') (''demo'', ''1.0.0'') = Some a \<and> (a = s \<or> a = s))"
    using v unfolding n sum.case by blast
  then show ?thesis using v r n by (simp add: db)
qed

text \<open>Tools: registering never fails, so every reload brings the registry to the content of the table.\<close>

theorem tool_reload_converges:
  assumes ok: "tools_ok reg"
  shows "\<exists>reg' n. reload_tools same db reg = (reg', Inr n) \<and> tools_ok reg'
     \<and> (\<forall>k. case map_of (by_key ts_name db) k of None \<Rightarrow> map_of reg' k = None
          | Some t \<Rightarrow> (\<exists>a. map_of reg' k = Some a \<and> (a = t \<or> same a t)))"
proof -
  note kd = by_key_keys [of ts_name db] and kr = by_key_keys [of ts_name "tool_list reg"] tools_listing [OF ok]
  obtain reg' n where s: "sync_registry remove_tool put_tool same (by_key ts_name db) (by_key ts_name (tool_list reg)) reg = (reg', Inr n)"
    using tools_sync.sync_total [OF ok conjunct1 [OF kr(1)] kr(2), of same "by_key ts_name db"] by (auto simp: put_tool_def)
  have c: "map_of reg' k = (case map_of (by_key ts_name db) k of None \<Rightarrow> None
       | Some v \<Rightarrow> if unchanged same (map_of reg k) v then map_of reg k else Some v)" for k
    using tools_sync.sync_content [OF ok conjunct1 [OF kr(1)] kr(2) conjunct1 [OF kd] conjunct2 [OF kd] s] .
  have "tools_ok reg'" using tools_sync.sync_invar [OF ok conjunct1 [OF kr(1)] kr(2) conjunct2 [OF kd], of same] s by simp
  then show ?thesis using s by (auto simp: reload_tools_def c unchanged_def split: option.split)
qed

end
