(* ===== verification/Worker.thy ===== *)
theory Worker
  imports Run_Manager
begin

text \<open>
  \<^verbatim>\<open>RunWorker\<close> (\<^verbatim>\<open>src/orchestration/worker.py\<close>): the polling loop of a worker process. A turn
  dispatches ready runs, sends pending callbacks, reclaims expired leases and sleeps. What can
  happen in a turn is an argument: database failures in the calls of the run manager, the
  background tasks that run while the loop awaits, and a request to stop.

  The theorems: the loop outlives failures of dispatch and of callback delivery and counts them,
  a failing reclamation ends it, and undisturbed turns start every waiting run after as many
  turns as the batch size needs.
\<close>

section \<open>State\<close>

record worker_stats =
  ws_polls :: int
  ws_dispatched :: int
  ws_errors :: int
  ws_callbacks_dispatched :: int
  ws_expired_leases_reclaimed :: int

record worker =
  wk_poll_interval_seconds :: rat
  wk_batch_size :: int
  wk_lease_seconds :: rat
  wk_worker_id :: string
  wk_stats :: worker_stats
  wk_running :: bool

definition new_worker :: "rat \<Rightarrow> int \<Rightarrow> rat \<Rightarrow> string option \<Rightarrow> string \<Rightarrow> worker" where
  "new_worker poll_interval_seconds batch_size lease_seconds worker_id hex =
     \<lparr>wk_poll_interval_seconds = poll_interval_seconds, wk_batch_size = batch_size, wk_lease_seconds = lease_seconds,
      wk_worker_id = (case worker_id of Some i \<Rightarrow> if i = [] then ''worker-'' @ hex else i | None \<Rightarrow> ''worker-'' @ hex),
      wk_stats = \<lparr>ws_polls = 0, ws_dispatched = 0, ws_errors = 0, ws_callbacks_dispatched = 0, ws_expired_leases_reclaimed = 0\<rparr>,
      wk_running = False\<rparr>"

text \<open>The controls are assigned one by one: a bad value leaves the ones before it in force.\<close>

definition worker_reconfigure :: "dict \<Rightarrow> worker \<Rightarrow> worker \<times> py_exc option" where
  "worker_reconfigure settings wk =
     (case py_float (dict_get_or ''poll_interval_seconds'' (JNum 1) settings) of Inl e \<Rightarrow> (wk, Some e)
      | Inr p \<Rightarrow> let wk1 = wk\<lparr>wk_poll_interval_seconds := p\<rparr> in
          (case py_int (dict_get_or ''batch_size'' (JNum 20) settings) of Inl e \<Rightarrow> (wk1, Some e)
           | Inr b \<Rightarrow> let wk2 = wk1\<lparr>wk_batch_size := b\<rparr> in
               (case py_float (dict_get_or ''lease_seconds'' (JNum 60) settings) of Inl e \<Rightarrow> (wk2, Some e)
                | Inr l \<Rightarrow> (wk2\<lparr>wk_lease_seconds := l\<rparr>, None))))"

text \<open>
  A turn's surroundings. \<open>tn_fault i\<close> is an exception of the \<open>i\<close>-th call of the turn (0 dispatch,
  1 callbacks, 2 reclamation) together with the world it leaves; \<open>tn_others i\<close> is what other
  tasks do while the loop awaits the callbacks (1) and while it sleeps (2).
\<close>

record turn =
  tn_manager :: manager_env
  tn_delivery :: "string \<Rightarrow> delivery_env"
  tn_callbacks :: callback_service
  tn_now :: "nat \<Rightarrow> datetime"
  tn_fault :: "nat \<Rightarrow> world \<Rightarrow> (world \<times> py_exc) option"
  tn_others :: "nat \<Rightarrow> world \<Rightarrow> world"
  tn_stop :: bool

definition or_fault :: "(world \<Rightarrow> (world \<times> py_exc) option) \<Rightarrow> (world \<Rightarrow> world \<times> (py_exc + int)) \<Rightarrow> world \<Rightarrow> world \<times> (py_exc + int)" where
  "or_fault fault call w = (case fault w of Some (w', e) \<Rightarrow> (w', Inl e) | None \<Rightarrow> call w)"

definition call_dispatch :: "turn \<Rightarrow> worker \<Rightarrow> world \<Rightarrow> world \<times> (py_exc + int)" where
  "call_dispatch t wk = or_fault (tn_fault t 0) (\<lambda>w.
     case dispatch_ready (tn_manager t) (tn_now t 0) (wk_worker_id wk) (wk_lease_seconds wk) (wk_batch_size wk) w of (w', n) \<Rightarrow> (w', Inr n))"

definition call_callbacks :: "turn \<Rightarrow> worker \<Rightarrow> world \<Rightarrow> world \<times> (py_exc + int)" where
  "call_callbacks t wk = or_fault (tn_fault t 1) (\<lambda>w.
     let w1 = tn_others t 1 w in
     case dispatch_pending (tn_delivery t) (tn_callbacks t) (tn_now t 1) (wk_batch_size wk) (Some (wk_worker_id wk))
            (Some (wk_lease_seconds wk)) (w_store w1) of (st, r) \<Rightarrow> (w1\<lparr>w_store := st\<rparr>, r))"

definition call_reclaim :: "turn \<Rightarrow> worker \<Rightarrow> world \<Rightarrow> world \<times> (py_exc + int)" where
  "call_reclaim t wk = or_fault (tn_fault t 2) (\<lambda>w.
     case reclaim_expired_leases (tn_manager t) (tn_now t 2) (wk_batch_size wk) w of (w', n) \<Rightarrow> (w', Inr n))"

section \<open>The loop\<close>

definition bump_stats :: "(worker_stats \<Rightarrow> worker_stats) \<Rightarrow> worker \<Rightarrow> worker" where
  "bump_stats f wk = wk\<lparr>wk_stats := f (wk_stats wk)\<rparr>"

definition count_error :: "worker \<Rightarrow> worker" where
  "count_error = bump_stats (ws_errors_update (\<lambda>n. n + 1))"

text \<open>\<^verbatim>\<open>except Exception\<close> lets a cancellation through.\<close>

definition run_once :: "turn \<Rightarrow> worker \<times> world \<Rightarrow> (worker \<times> world) \<times> (py_exc + int)" where
  "run_once t wkw =
     (case wkw of (wk, w) \<Rightarrow>
        let wk1 = bump_stats (ws_polls_update (\<lambda>n. n + 1)) wk in
        (case call_dispatch t wk1 w of
           (w', Inr n) \<Rightarrow> ((bump_stats (ws_dispatched_update (\<lambda>m. m + n)) wk1, w'), Inr n)
         | (w', Inl e) \<Rightarrow> if e = CancelledError then ((wk1, w'), Inl e)
             else ((bump_stats (ws_dispatched_update (\<lambda>m. m + 0)) (count_error wk1), w'), Inr 0)))"

definition maybe_dispatch_callbacks :: "turn \<Rightarrow> worker \<times> world \<Rightarrow> (worker \<times> world) \<times> (py_exc + int)" where
  "maybe_dispatch_callbacks t wkw =
     (case wkw of (wk, w) \<Rightarrow>
        (case call_callbacks t wk w of
           (w', Inr n) \<Rightarrow> ((bump_stats (ws_callbacks_dispatched_update (\<lambda>m. m + n)) wk, w'), Inr n)
         | (w', Inl e) \<Rightarrow> if e = CancelledError then ((wk, w'), Inl e) else ((count_error wk, w'), Inr 0)))"

definition maybe_reclaim_expired_leases :: "turn \<Rightarrow> worker \<times> world \<Rightarrow> (worker \<times> world) \<times> (py_exc + int)" where
  "maybe_reclaim_expired_leases t wkw =
     (case wkw of (wk, w) \<Rightarrow>
        (case call_reclaim t wk w of
           (w', Inr n) \<Rightarrow> ((bump_stats (ws_expired_leases_reclaimed_update (\<lambda>m. m + n)) wk, w'), Inr n)
         | (w', Inl e) \<Rightarrow> ((wk, w'), Inl e)))"

definition worker_turn :: "turn \<Rightarrow> worker \<times> world \<Rightarrow> (worker \<times> world) \<times> py_exc option" where
  "worker_turn t wkw =
     (case run_once t wkw of (s1, Inl e) \<Rightarrow> (s1, Some e)
      | (s1, Inr _) \<Rightarrow> (case maybe_dispatch_callbacks t s1 of (s2, Inl e) \<Rightarrow> (s2, Some e)
      | (s2, Inr _) \<Rightarrow> (case maybe_reclaim_expired_leases t s2 of (s3, Inl e) \<Rightarrow> (s3, Some e)
      | ((wk, w), Inr _) \<Rightarrow> ((wk\<lparr>wk_running := wk_running wk \<and> \<not> tn_stop t\<rparr>, tn_others t 2 w), None))))"

text \<open>The loop over the given turns: an exception or a request to stop ends it.\<close>

fun worker_loop :: "turn list \<Rightarrow> worker \<times> world \<Rightarrow> (worker \<times> world) \<times> py_exc option" where
  "worker_loop [] s = (s, None)"
| "worker_loop (t # ts) s =
     (if \<not> wk_running (fst s) then (s, None)
      else case worker_turn t s of (s', Some e) \<Rightarrow> (s', Some e) | (s', None) \<Rightarrow> worker_loop ts s')"

definition run_forever :: "turn list \<Rightarrow> worker \<times> world \<Rightarrow> (worker \<times> world) \<times> py_exc option" where
  "run_forever ts wkw = worker_loop ts ((fst wkw)\<lparr>wk_running := True\<rparr>, snd wkw)"

definition stop :: "worker \<Rightarrow> worker" where
  "stop wk = wk\<lparr>wk_running := False\<rparr>"

section \<open>Turns\<close>

text \<open>The turns that are executed: all up to the first one that asks to stop.\<close>

fun executed_turns :: "turn list \<Rightarrow> turn list" where
  "executed_turns [] = []"
| "executed_turns (t # ts) = (if tn_stop t then [t] else t # executed_turns ts)"

lemma bump_stats_simps [simp]:
  "wk_running (bump_stats f wk) = wk_running wk" "wk_batch_size (bump_stats f wk) = wk_batch_size wk"
  "wk_worker_id (bump_stats f wk) = wk_worker_id wk" "wk_lease_seconds (bump_stats f wk) = wk_lease_seconds wk"
  "wk_stats (bump_stats f wk) = f (wk_stats wk)"
  by (simp_all add: bump_stats_def)

lemma count_error_simps [simp]:
  "wk_running (count_error wk) = wk_running wk" "wk_batch_size (count_error wk) = wk_batch_size wk"
  "wk_worker_id (count_error wk) = wk_worker_id wk" "wk_lease_seconds (count_error wk) = wk_lease_seconds wk"
  "wk_stats (count_error wk) = ws_errors_update (\<lambda>n. n + 1) (wk_stats wk)"
  by (simp_all add: count_error_def)

text \<open>A turn without cancellation whose reclamation works.\<close>

definition sturdy_turn :: "turn \<Rightarrow> bool" where
  "sturdy_turn t = ((\<forall>wk w. snd (call_dispatch t wk w) \<noteq> Inl CancelledError) \<and> (\<forall>wk w. snd (call_callbacks t wk w) \<noteq> Inl CancelledError)
     \<and> (\<forall>w. tn_fault t 2 w = None))"

lemma run_once_survives:
  assumes "sturdy_turn t"
  shows "\<exists>wk' w' n. run_once t (wk, w) = ((wk', w'), Inr n) \<and> wk_running wk' = wk_running wk
     \<and> ws_polls (wk_stats wk') = ws_polls (wk_stats wk) + 1
     \<and> ws_errors (wk_stats wk') = ws_errors (wk_stats wk) + (if isl (snd (call_dispatch t (bump_stats (ws_polls_update (\<lambda>n. n + 1)) wk) w)) then 1 else 0)"
  using assms unfolding sturdy_turn_def run_once_def Let_def prod.case
  by (cases "call_dispatch t (bump_stats (ws_polls_update (\<lambda>n. n + 1)) wk) w") (auto split: sum.splits; metis snd_conv)

lemma maybe_dispatch_callbacks_survives:
  assumes "sturdy_turn t"
  shows "\<exists>wk' w' n. maybe_dispatch_callbacks t (wk, w) = ((wk', w'), Inr n) \<and> wk_running wk' = wk_running wk
     \<and> ws_polls (wk_stats wk') = ws_polls (wk_stats wk)
     \<and> ws_errors (wk_stats wk') = ws_errors (wk_stats wk) + (if isl (snd (call_callbacks t wk w)) then 1 else 0)"
  using assms unfolding sturdy_turn_def maybe_dispatch_callbacks_def Let_def prod.case
  by (cases "call_callbacks t wk w") (auto split: sum.splits; metis snd_conv)

lemma maybe_reclaim_survives:
  assumes "sturdy_turn t"
  shows "\<exists>wk' w' n. maybe_reclaim_expired_leases t (wk, w) = ((wk', w'), Inr n) \<and> wk_running wk' = wk_running wk
     \<and> ws_polls (wk_stats wk') = ws_polls (wk_stats wk) \<and> ws_errors (wk_stats wk') = ws_errors (wk_stats wk)"
  using assms unfolding sturdy_turn_def maybe_reclaim_expired_leases_def call_reclaim_def or_fault_def prod.case
  by (auto split: prod.splits)

lemma worker_turn_survives:
  assumes "sturdy_turn t"
  shows "\<exists>wk' w'. worker_turn t (wk, w) = ((wk', w'), None) \<and> wk_running wk' = (wk_running wk \<and> \<not> tn_stop t)
     \<and> ws_polls (wk_stats wk') = ws_polls (wk_stats wk) + 1
     \<and> ws_errors (wk_stats wk) \<le> ws_errors (wk_stats wk') \<and> ws_errors (wk_stats wk') \<le> ws_errors (wk_stats wk) + 2"
proof -
  obtain wk1 w1 n1 where 1: "run_once t (wk, w) = ((wk1, w1), Inr n1)" "wk_running wk1 = wk_running wk"
    "ws_polls (wk_stats wk1) = ws_polls (wk_stats wk) + 1"
    "ws_errors (wk_stats wk) \<le> ws_errors (wk_stats wk1)" "ws_errors (wk_stats wk1) \<le> ws_errors (wk_stats wk) + 1"
    using run_once_survives [OF assms, of wk w] by (auto split: if_splits)
  obtain wk2 w2 n2 where 2: "maybe_dispatch_callbacks t (wk1, w1) = ((wk2, w2), Inr n2)" "wk_running wk2 = wk_running wk1"
    "ws_polls (wk_stats wk2) = ws_polls (wk_stats wk1)"
    "ws_errors (wk_stats wk1) \<le> ws_errors (wk_stats wk2)" "ws_errors (wk_stats wk2) \<le> ws_errors (wk_stats wk1) + 1"
    using maybe_dispatch_callbacks_survives [OF assms, of wk1 w1] by (auto split: if_splits)
  obtain wk3 w3 n3 where 3: "maybe_reclaim_expired_leases t (wk2, w2) = ((wk3, w3), Inr n3)" "wk_running wk3 = wk_running wk2"
    "ws_polls (wk_stats wk3) = ws_polls (wk_stats wk2)" "ws_errors (wk_stats wk3) = ws_errors (wk_stats wk2)"
    using maybe_reclaim_survives [OF assms, of wk2 w2] by auto
  show ?thesis using 1 2 3 by (simp add: worker_turn_def)
qed

lemma worker_loop_survives:
  assumes "\<forall>t \<in> set ts. sturdy_turn t" and "wk_running wk"
  shows "\<exists>wk' w'. worker_loop ts (wk, w) = ((wk', w'), None) \<and> wk_running wk' = (\<forall>t \<in> set ts. \<not> tn_stop t)
     \<and> ws_polls (wk_stats wk') = ws_polls (wk_stats wk) + int (length (executed_turns ts))
     \<and> ws_errors (wk_stats wk') \<le> ws_errors (wk_stats wk) + 2 * int (length (executed_turns ts))"
  using assms
proof (induction ts arbitrary: wk w)
  case (Cons t ts)
  obtain wk1 w1 where 1: "worker_turn t (wk, w) = ((wk1, w1), None)" "wk_running wk1 = (\<not> tn_stop t)"
     "ws_polls (wk_stats wk1) = ws_polls (wk_stats wk) + 1" "ws_errors (wk_stats wk1) \<le> ws_errors (wk_stats wk) + 2"
    using worker_turn_survives [of t wk w] Cons.prems by auto
  show ?case
  proof (cases "tn_stop t")
    case True
    then have "worker_loop ts (wk1, w1) = ((wk1, w1), None)" using 1(2) by (cases ts) auto
    then show ?thesis using 1 Cons.prems(2) True by auto
  next
    case False
    then show ?thesis using Cons.IH [of wk1 w1] 1 Cons.prems by auto
  qed
qed simp

section \<open>Undisturbed turns\<close>

definition waiting :: "world \<Rightarrow> agent_run list" where
  "waiting w = filter (\<lambda>r. ar_status r = QUEUED) (s_runs (w_store w))"

text \<open>
  The process is the only one that works on the queue: what executes are its own tasks, queued
  runs have none and are due.
\<close>

definition sole_worker :: "datetime \<Rightarrow> world \<Rightarrow> bool" where
  "sole_worker t0 w = (world_wf w \<and> s_callbacks (w_store w) = [] \<and> (\<forall>r \<in> set (s_runs (w_store w)).
     (ar_status r \<in> EXECUTING_RUN_STATUSES \<longrightarrow> ar_run_id r \<in> set (w_tasks w))
     \<and> (ar_status r = QUEUED \<longrightarrow> ar_run_id r \<notin> set (w_tasks w) \<and> (case ar_run_after r of None \<Rightarrow> True | Some a \<Rightarrow> a \<le> t0))))"

definition undisturbed_turn :: "datetime \<Rightarrow> turn \<Rightarrow> bool" where
  "undisturbed_turn t0 t = ((\<forall>i w. tn_fault t i w = None) \<and> (\<forall>i w. tn_others t i w = w) \<and> t0 \<le> tn_now t 0 \<and> \<not> tn_stop t)"

lemma sole_worker_ready:
  assumes "sole_worker t0 w" and "t0 \<le> now"
  shows "filter (\<lambda>r. claimable now r \<and> ar_run_id r \<notin> set (w_tasks w)) (s_runs (w_store w)) = waiting w"
  unfolding waiting_def
proof (rule filter_cong [OF refl])
  fix r assume r: "r \<in> set (s_runs (w_store w))"
  show "(claimable now r \<and> ar_run_id r \<notin> set (w_tasks w)) = (ar_status r = QUEUED)"
    using assms bspec [OF conjunct2 [OF conjunct2 [OF assms(1) [unfolded sole_worker_def]]] r]
    by (auto simp: claimable_def EXECUTING_RUN_STATUSES_def split: option.splits)
qed

lemma length_unselected:
  assumes d: "distinct (map f xs)" and s: "set ys \<subseteq> set xs" and e: "distinct (map f ys)"
  shows "length (filter (\<lambda>x. f x \<notin> f ` set ys) xs) = length xs - length ys"
proof -
  have inj: "inj_on f (set xs)" and dx: "distinct xs" and dy: "distinct ys" using d e by (auto simp: distinct_map)
  have "set (filter (\<lambda>x. f x \<notin> f ` set ys) xs) = set xs - set ys" using s inj by (auto simp: inj_on_def)
  moreover have "length (filter (\<lambda>x. f x \<notin> f ` set ys) xs) = card (set (filter (\<lambda>x. f x \<notin> f ` set ys) xs))"
    by (rule distinct_card [symmetric]) (rule distinct_filter [OF dx])
  ultimately show ?thesis using s dx dy by (simp add: card_Diff_subset distinct_card)
qed

lemma filter_claimed:
  "(\<And>x. ar_status (g x) \<noteq> QUEUED) \<Longrightarrow> filter (\<lambda>r. ar_status r = QUEUED) (map (\<lambda>r. if P r then g r else r) rows)
     = filter (\<lambda>r. \<not> P r) (filter (\<lambda>r. ar_status r = QUEUED) rows)"
  by (induction rows) auto

lemma dispatch_one_callbacks: "dispatch_one env r (w, n) = (w', n') \<Longrightarrow> s_callbacks (w_store w') = s_callbacks (w_store w)"
  by (auto simp: dispatch_one_def start_background_def world_log_def split: if_splits)

lemma dispatch_fold_callbacks:
  "fold (dispatch_one env) ls (w, n) = (w', n') \<Longrightarrow> s_callbacks (w_store w') = s_callbacks (w_store w)"
proof (induction ls arbitrary: w n)
  case (Cons r ls)
  obtain w1 n1 where "dispatch_one env r (w, n) = (w1, n1)" by fastforce
  with Cons dispatch_one_callbacks [OF this] show ?case by simp
qed simp

lemma dispatch_ready_callbacks:
  "dispatch_ready env now wid ls limit w = (w', n) \<Longrightarrow> s_callbacks (w_store w') = s_callbacks (w_store w)"
  unfolding dispatch_ready_def Let_def split_beta by (drule dispatch_fold_callbacks) simp

lemma dispatch_drains:
  assumes sw: "sole_worker t0 w" and now: "t0 \<le> now" and r: "dispatch_ready env now wid ls limit w = (w', n)"
  shows "sole_worker t0 w' \<and> length (waiting w') = length (waiting w) - nat limit
     \<and> n = int (min (nat limit) (length (waiting w))) \<and> length (w_tasks w') = length (w_tasks w) + nat n
     \<and> set (w_tasks w') \<union> ar_run_id ` set (waiting w') = set (w_tasks w) \<union> ar_run_id ` set (waiting w)"
proof -
  let ?rows = "s_runs (w_store w)"
  let ?sel = "claim_selection now limit (set (w_tasks w)) ?rows"
  let ?cl = "claim_ready now wid ls limit (set (w_tasks w)) ?rows"
  let ?w1 = "w\<lparr>w_store := (w_store w)\<lparr>s_runs := snd ?cl\<rparr>\<rparr>"
  let ?c = "claim_row now wid (now + timedelta_seconds ls)"
  have wf: "keys_distinct ar_run_id ?rows" using sw by (simp add: sole_worker_def world_wf_def)
  have ids: "map ar_run_id (fst ?cl) = map ar_run_id ?sel" by (simp add: claim_ready_fst)
  have dist: "distinct (map ar_run_id ?sel)" using claim_selection_distinct [OF wf] .
  have idset: "ar_run_id ` set (fst ?cl) = ar_run_id ` set ?sel" using ids by (metis set_map)
  have sel: "set ?sel \<subseteq> set (waiting w)"
    using claim_selection_subset [of now limit "set (w_tasks w)" ?rows] sole_worker_ready [OF sw now]
    by (metis (no_types, lifting) mem_Collect_eq set_filter subset_eq)
  have len: "length ?sel = min (nat limit) (length (waiting w))"
    by (simp add: claim_selection_length sole_worker_ready [OF sw now])
  have dis: "ar_run_id ` set (fst ?cl) \<inter> set (w_tasks ?w1) = {}"
    unfolding idset using claim_selection_subset [of now limit "set (w_tasks w)" ?rows] by auto
  have cb: "s_callbacks (w_store w') = s_callbacks (w_store w)" using r by (rule dispatch_ready_callbacks)
  have fo: "fold (dispatch_one env) (fst ?cl) (?w1, 0) = (w', n)" using r by (simp add: dispatch_ready_def Let_def split_beta)
  have dcl: "distinct (map ar_run_id (fst ?cl))" unfolding ids by (rule dist)
  have lcl: "length (fst ?cl) = length ?sel" by (simp add: claim_ready_fst)
  note df = dispatch_fold [OF dcl dis fo]
  have f: "n = int (length ?sel)" "w_tasks w' = w_tasks w @ map ar_run_id ?sel"
    "s_runs (w_store w') = map (\<lambda>r. if ar_run_id r \<in> ar_run_id ` set ?sel then ?c r else r) ?rows"
    using df unfolding lcl ids by (simp_all add: claim_ready_snd)
  have st: "ar_status (?c x) = RUNNING" for x by (simp add: claim_row_def Let_def)
  have wait: "waiting w' = filter (\<lambda>r. ar_run_id r \<notin> ar_run_id ` set ?sel) (waiting w)"
    unfolding waiting_def f(3) by (rule filter_claimed) (simp add: st)
  have dw: "distinct (map ar_run_id (waiting w))" using wf by (simp add: keys_distinct_def waiting_def distinct_map_filter)
  have "length (waiting w') = length (waiting w) - nat limit" unfolding wait length_unselected [OF dw sel dist] len by simp
  moreover have "sole_worker t0 w'"
    unfolding sole_worker_def world_wf_def cb
  proof (rule conjI [OF _ conjI [OF _ ballI]])
    have "keys_distinct ar_run_id (map (\<lambda>r. if ar_run_id r \<in> ar_run_id ` set ?sel then ?c r else r) ?rows) = keys_distinct ar_run_id ?rows"
      by (rule keys_distinct_map) simp
    then show "keys_distinct ar_run_id (s_runs (w_store w'))" unfolding f(3) using wf by simp
    show "s_callbacks (w_store w) = []" using sw by (simp add: sole_worker_def)
    fix r assume "r \<in> set (s_runs (w_store w'))"
    then obtain x where x: "x \<in> set ?rows" "r = (if ar_run_id x \<in> ar_run_id ` set ?sel then ?c x else x)" unfolding f(3) by auto
    note old = bspec [OF conjunct2 [OF conjunct2 [OF sw [unfolded sole_worker_def]]] x(1)]
    have t: "ar_run_id r = ar_run_id x" using x(2) by simp
    show "(ar_status r \<in> EXECUTING_RUN_STATUSES \<longrightarrow> ar_run_id r \<in> set (w_tasks w'))
       \<and> (ar_status r = QUEUED \<longrightarrow> ar_run_id r \<notin> set (w_tasks w') \<and> (case ar_run_after r of None \<Rightarrow> True | Some a \<Rightarrow> a \<le> t0))"
    proof (cases "ar_run_id x \<in> ar_run_id ` set ?sel")
      case True
      then have "r = ?c x" "ar_run_id r \<in> set (w_tasks w')" using x(2) t by (simp_all add: f(2))
      then show ?thesis by (simp add: st)
    next
      case False
      then have "r = x" using x(2) by simp
      then show ?thesis using old False by (simp add: f(2))
    qed
  qed
  moreover have "set (w_tasks w') \<union> ar_run_id ` set (waiting w') = set (w_tasks w) \<union> ar_run_id ` set (waiting w)"
    unfolding wait f(2) using sel by auto
  ultimately show ?thesis using f len by simp
qed

lemma reclaim_idle:
  assumes "\<forall>x \<in> set ls. ar_run_id x \<in> set (w_tasks w)" and "fold (reclaim_one env now) ls (w, n) = (w', n')"
  shows "n' = n \<and> w_tasks w' = w_tasks w \<and> s_runs (w_store w') = s_runs (w_store w) \<and> s_callbacks (w_store w') = s_callbacks (w_store w)"
  using assms
proof (induction ls arbitrary: w n)
  case (Cons x ls)
  obtain w1 n1 where o: "reclaim_one env now x (w, n) = (w1, n1)" by fastforce
  have s: "n1 = n" "w_tasks w1 = w_tasks w" "s_runs (w_store w1) = s_runs (w_store w)" "s_callbacks (w_store w1) = s_callbacks (w_store w)"
    using o Cons.prems(1) by (auto simp: reclaim_one_def is_running_def reclaim_log_def world_log_def split: if_splits)
  show ?case using Cons.IH [of w1 n1] Cons.prems o s by simp
qed simp

lemma sole_worker_cong:
  "w_tasks w' = w_tasks w \<Longrightarrow> s_runs (w_store w') = s_runs (w_store w) \<Longrightarrow> s_callbacks (w_store w') = s_callbacks (w_store w)
     \<Longrightarrow> sole_worker t0 w' = sole_worker t0 w \<and> waiting w' = waiting w"
  by (simp add: sole_worker_def world_wf_def waiting_def)

lemma reclaim_spares_tasks:
  assumes sw: "sole_worker t0 w" and r: "reclaim_expired_leases env now limit w = (w', n)"
  shows "sole_worker t0 w' \<and> waiting w' = waiting w \<and> w_tasks w' = w_tasks w \<and> n = 0"
proof -
  have "\<forall>x \<in> set (list_by_status [RUNNING, WAITING_TOOL, RETRYING] limit (s_runs (w_store w))). ar_run_id x \<in> set (w_tasks w)"
    using sw by (auto simp: sole_worker_def list_by_status_def EXECUTING_RUN_STATUSES_def dest!: in_set_takeD)
  from reclaim_idle [OF this r [unfolded reclaim_expired_leases_def]] sole_worker_cong [of w' w t0] sw show ?thesis by simp
qed

lemma callbacks_idle:
  assumes sw: "sole_worker t0 w" and r: "dispatch_pending denv cs now limit wid ls (w_store w) = (st, res)"
  shows "res = Inr 0 \<and> sole_worker t0 (w\<lparr>w_store := st\<rparr>) \<and> waiting (w\<lparr>w_store := st\<rparr>) = waiting w"
proof -
  have "s_callbacks (w_store w) = []" using sw by (simp add: sole_worker_def)
  with r have s: "res = Inr 0" "s_runs st = s_runs (w_store w)" "s_callbacks st = s_callbacks (w_store w)"
    by (auto simp: dispatch_pending_def claim_pending_def pending_selection_def Let_def)
  then show ?thesis using sole_worker_cong [of "w\<lparr>w_store := st\<rparr>" w t0] sw by simp
qed

lemma turn_drains:
  assumes sw: "sole_worker t0 w" and u: "undisturbed_turn t0 t"
  shows "\<exists>wk' w'. worker_turn t (wk, w) = ((wk', w'), None) \<and> wk_running wk' = wk_running wk \<and> wk_batch_size wk' = wk_batch_size wk
     \<and> sole_worker t0 w' \<and> length (waiting w') = length (waiting w) - nat (wk_batch_size wk)
     \<and> ws_dispatched (wk_stats wk') = ws_dispatched (wk_stats wk) + int (length (waiting w)) - int (length (waiting w'))
     \<and> set (w_tasks w') \<union> ar_run_id ` set (waiting w') = set (w_tasks w) \<union> ar_run_id ` set (waiting w)"
proof -
  obtain w1 n where d: "dispatch_ready (tn_manager t) (tn_now t 0) (wk_worker_id wk) (wk_lease_seconds wk) (wk_batch_size wk) w = (w1, n)"
    by fastforce
  note dd = dispatch_drains [OF sw _ d]
  have now: "t0 \<le> tn_now t 0" using u by (simp add: undisturbed_turn_def)
  obtain st r where c: "dispatch_pending (tn_delivery t) (tn_callbacks t) (tn_now t 1) (wk_batch_size wk) (Some (wk_worker_id wk))
            (Some (wk_lease_seconds wk)) (w_store w1) = (st, r)" by fastforce
  note cc = callbacks_idle [OF conjunct1 [OF dd [OF now]] c]
  obtain w2 m where e: "reclaim_expired_leases (tn_manager t) (tn_now t 2) (wk_batch_size wk) (w1\<lparr>w_store := st\<rparr>) = (w2, m)" by fastforce
  have "sole_worker t0 (w1\<lparr>w_store := st\<rparr>)" using cc by simp
  note ee = reclaim_spares_tasks [OF this e]
  have calls: "call_dispatch t k = (\<lambda>w. case dispatch_ready (tn_manager t) (tn_now t 0) (wk_worker_id k) (wk_lease_seconds k) (wk_batch_size k) w of (w', n) \<Rightarrow> (w', Inr n))"
    "call_callbacks t k = (\<lambda>w. case dispatch_pending (tn_delivery t) (tn_callbacks t) (tn_now t 1) (wk_batch_size k) (Some (wk_worker_id k))
            (Some (wk_lease_seconds k)) (w_store w) of (st, r) \<Rightarrow> (w\<lparr>w_store := st\<rparr>, r))"
    "call_reclaim t k = (\<lambda>w. case reclaim_expired_leases (tn_manager t) (tn_now t 2) (wk_batch_size k) w of (w', n) \<Rightarrow> (w', Inr n))" for k
    using u by (auto simp: undisturbed_turn_def call_dispatch_def call_callbacks_def call_reclaim_def or_fault_def fun_eq_iff Let_def)
  have oth: "tn_others t i x = x" "\<not> tn_stop t" for i x using u by (simp_all add: undisturbed_turn_def)
  show ?thesis
    using d c e cc dd [OF now] ee
    by (simp add: worker_turn_def run_once_def maybe_dispatch_callbacks_def maybe_reclaim_expired_leases_def calls oth Let_def)
qed

section \<open>Properties\<close>

text \<open>
  The worker outlives every failure of dispatch and callback delivery. As long as reclamation works
  and nobody cancels the loop, no exception leaves it, it makes one poll per turn up to the first
  request to stop, and it counts at most two errors per turn.
\<close>

theorem worker_outlives_failures:
  assumes "\<forall>t \<in> set ts. sturdy_turn t"
  shows "\<exists>wk' w'. run_forever ts (wk, w) = ((wk', w'), None) \<and> wk_running wk' = (\<forall>t \<in> set ts. \<not> tn_stop t)
     \<and> ws_polls (wk_stats wk') = ws_polls (wk_stats wk) + int (length (executed_turns ts))
     \<and> ws_errors (wk_stats wk') \<le> ws_errors (wk_stats wk) + 2 * int (length (executed_turns ts))"
  using worker_loop_survives [OF assms, of "wk\<lparr>wk_running := True\<rparr>" w] by (simp add: run_forever_def)

text \<open>
  One failing reclamation ends the worker: the call is not guarded, and whatever turns were to
  follow, the exception leaves the loop with the world as the failed call left it.
\<close>

theorem reclaim_failure_stops_worker:
  assumes "run_once t (wk\<lparr>wk_running := True\<rparr>, w) = (s1, Inr n)" and "maybe_dispatch_callbacks t s1 = ((wk2, w2), Inr m)"
    and "tn_fault t 2 w2 = Some (w3, e)"
  shows "run_forever (t # ts) (wk, w) = ((wk2, w3), Some e)"
  using assms
  by (simp add: run_forever_def worker_turn_def maybe_reclaim_expired_leases_def call_reclaim_def or_fault_def)

text \<open>
  C16: The queue drains. A worker that is alone with its queue and is not disturbed starts, in each
  turn, as many of the waiting runs as its batch size allows; after enough turns none is
  waiting, and every run that was waiting has a background task.
\<close>

theorem worker_drains_queue:
  assumes "sole_worker t0 w" and "\<forall>t \<in> set ts. undisturbed_turn t0 t" and "length (waiting w) \<le> length ts * nat (wk_batch_size wk)"
  shows "\<exists>wk' w'. run_forever ts (wk, w) = ((wk', w'), None) \<and> waiting w' = []
     \<and> ws_dispatched (wk_stats wk') = ws_dispatched (wk_stats wk) + int (length (waiting w))
     \<and> set (w_tasks w') = set (w_tasks w) \<union> ar_run_id ` set (waiting w)"
proof -
  have "\<exists>wk' w'. worker_loop ts (wk, w) = ((wk', w'), None) \<and> waiting w' = []
     \<and> ws_dispatched (wk_stats wk') = ws_dispatched (wk_stats wk) + int (length (waiting w))
     \<and> set (w_tasks w') = set (w_tasks w) \<union> ar_run_id ` set (waiting w)"
    if "sole_worker t0 w" "length (waiting w) \<le> length ts * nat (wk_batch_size wk)" "wk_running wk" for wk w
    using assms(2) that
  proof (induction ts arbitrary: wk w)
    case (Cons t ts)
    obtain wk1 w1 where 1: "worker_turn t (wk, w) = ((wk1, w1), None)" "wk_running wk1 = wk_running wk" "wk_batch_size wk1 = wk_batch_size wk"
       "sole_worker t0 w1" "length (waiting w1) = length (waiting w) - nat (wk_batch_size wk)"
       "ws_dispatched (wk_stats wk1) = ws_dispatched (wk_stats wk) + int (length (waiting w)) - int (length (waiting w1))"
       "set (w_tasks w1) \<union> ar_run_id ` set (waiting w1) = set (w_tasks w) \<union> ar_run_id ` set (waiting w)"
      using turn_drains [OF Cons.prems(2), of t wk] Cons.prems(1) by auto
    have "length (waiting w1) \<le> length ts * nat (wk_batch_size wk1)" using Cons.prems(3) 1(3,5) by simp
    then show ?case using Cons.IH [of w1 wk1] Cons.prems(1,4) 1 by auto
  qed simp
  from this [of w "wk\<lparr>wk_running := True\<rparr>"] assms show ?thesis by (simp add: run_forever_def)
qed

definition demo_worker :: worker where
  "demo_worker = new_worker 1 20 60 (Some ''w1'') []"

definition demo_turn :: turn where
  "demo_turn = \<lparr>tn_manager = \<lparr>mg_clk = \<lambda>_ i. int i, mg_others = \<lambda>_ _ w. w\<rparr>, tn_delivery = \<lambda>_. demo_env True, tn_callbacks = demo_service,
     tn_now = \<lambda>_. 10, tn_fault = \<lambda>_ _. None, tn_others = \<lambda>_ w. w, tn_stop = False\<rparr>"

lemma demo_turn_undisturbed: "undisturbed_turn 10 demo_turn"
  by (simp add: undisturbed_turn_def demo_turn_def)

theorem worker_outlives_failures_witness:
  "let t = demo_turn\<lparr>tn_fault := \<lambda>i w. if i = 2 then None else Some (w, RuntimeError ''database'')\<rparr>
   in \<exists>wk' w'. run_forever [t, t, t] (demo_worker, demo_world (demo_run None QUEUED)) = ((wk', w'), None)
     \<and> ws_polls (wk_stats wk') = 3 \<and> ws_errors (wk_stats wk') \<le> 6"
proof -
  let ?t = "demo_turn\<lparr>tn_fault := \<lambda>i w. if i = 2 then None else Some (w, RuntimeError ''database'')\<rparr>"
  have "sturdy_turn ?t" by (simp add: sturdy_turn_def call_dispatch_def call_callbacks_def or_fault_def)
  then obtain wk' w' where "run_forever [?t, ?t, ?t] (demo_worker, demo_world (demo_run None QUEUED)) = ((wk', w'), None)"
      "ws_polls (wk_stats wk') = 3 \<and> ws_errors (wk_stats wk') \<le> 6"
    using worker_outlives_failures [of "[?t, ?t, ?t]" demo_worker "demo_world (demo_run None QUEUED)"]
    by (auto simp: demo_worker_def new_worker_def demo_turn_def)
  then show ?thesis unfolding Let_def by blast
qed

theorem reclaim_failure_stops_worker_witness:
  "let t = demo_turn\<lparr>tn_fault := \<lambda>i w. Some (w, RuntimeError ''database'')\<rparr>
   in \<exists>wk'. run_forever [t, demo_turn] (demo_worker, demo_world (demo_run None QUEUED))
        = ((wk', demo_world (demo_run None QUEUED)), Some (RuntimeError ''database''))"
proof -
  let ?t = "demo_turn\<lparr>tn_fault := \<lambda>i w. Some (w, RuntimeError ''database'')\<rparr>" and ?w = "demo_world (demo_run None QUEUED)"
  obtain s1 n where 1: "run_once ?t (demo_worker\<lparr>wk_running := True\<rparr>, ?w) = (s1, Inr n)" "snd s1 = ?w"
    by (simp add: run_once_def call_dispatch_def or_fault_def Let_def)
  obtain wk2 m where 2: "maybe_dispatch_callbacks ?t s1 = ((wk2, ?w), Inr m)"
    using 1(2) by (cases s1) (simp add: maybe_dispatch_callbacks_def call_callbacks_def or_fault_def)
  show ?thesis using reclaim_failure_stops_worker [OF 1(1) 2] by simp
qed

theorem worker_drains_queue_witness:
  "\<exists>wk' w'. run_forever [demo_turn] (demo_worker, demo_world (demo_run None QUEUED)) = ((wk', w'), None)
     \<and> waiting w' = [] \<and> ws_dispatched (wk_stats wk') = 1 \<and> set (w_tasks w') = {''R''}"
proof -
  have "sole_worker 10 (demo_world (demo_run None QUEUED))"
    by (simp add: sole_worker_def world_wf_def keys_distinct_def demo_world_def demo_store_def demo_run_def new_agent_run_def EXECUTING_RUN_STATUSES_def)
  from worker_drains_queue [OF this, of "[demo_turn]" demo_worker] show ?thesis
    by (simp add: demo_turn_undisturbed demo_worker_def new_worker_def waiting_def demo_world_def demo_store_def demo_run_def new_agent_run_def)
qed

end
