(* ===== verification/Url.thy ===== *)
theory Url
  imports Resilience "HOL-Library.Word"
begin

text \<open>
  What the platform uses of Python's \<^verbatim>\<open>urllib.parse\<close> and \<^verbatim>\<open>ipaddress\<close> (Python 3.12, the version of the
  Docker image): splitting a URL into its parts, percent-decoding, and parsing and classifying
  IP addresses.  Addresses are machine words of 32 and 128 bits.  Unicode normalisation
  (\<^verbatim>\<open>NFKC\<close>) is a parameter.

  The lemmas: percent-decoding keeps every path separator and works segment by segment, and
  never changes a text without percent signs.
\<close>

section \<open>Characters\<close>

definition ascii_alpha :: "char \<Rightarrow> bool" where
  "ascii_alpha c = (let n = (of_char c :: nat) in (65 \<le> n \<and> n \<le> 90) \<or> (97 \<le> n \<and> n \<le> 122))"

definition ascii_digit :: "char \<Rightarrow> bool" where
  "ascii_digit c = (let n = (of_char c :: nat) in 48 \<le> n \<and> n \<le> 57)"

definition is_ascii :: "char \<Rightarrow> bool" where
  "is_ascii c = ((of_char c :: nat) < 128)"

definition hex_nibble :: "char \<Rightarrow> nat option" where
  "hex_nibble c = (let n = (of_char c :: nat) in
     if 48 \<le> n \<and> n \<le> 57 then Some (n - 48)
     else if 97 \<le> n \<and> n \<le> 102 then Some (n - 87)
     else if 65 \<le> n \<and> n \<le> 70 then Some (n - 55) else None)"

text \<open>\<^verbatim>\<open>str.partition\<close>: the part up to the first separator and, when there is one, the part after it.\<close>

definition partition_at :: "char \<Rightarrow> string \<Rightarrow> string \<times> string option" where
  "partition_at d s = (takeWhile (\<lambda>c. c \<noteq> d) s, case dropWhile (\<lambda>c. c \<noteq> d) s of [] \<Rightarrow> None | _ # r \<Rightarrow> Some r)"

text \<open>\<^verbatim>\<open>s.rpartition(d)[2]\<close>: what follows the last separator.\<close>

definition after_last :: "char \<Rightarrow> string \<Rightarrow> string" where
  "after_last d s = rev (takeWhile (\<lambda>c. c \<noteq> d) (rev s))"

section \<open>IP addresses\<close>

datatype ip_address = IPv4 "32 word" | IPv6 "128 word" "string option"

definition parse_octet :: "string \<Rightarrow> nat option" where
  "parse_octet s =
     (if s = [] \<or> \<not> list_all ascii_digit s \<or> 3 < length s \<or> (s \<noteq> ''0'' \<and> hd s = CHR ''0'') then None
      else case parse_digits 0 s of None \<Rightarrow> None | Some n \<Rightarrow> if 255 < n then None else Some n)"

definition ipv4_of_string :: "string \<Rightarrow> 32 word option" where
  "ipv4_of_string s =
     (if CHR ''/'' \<in> set s then None else
      case map parse_octet (split_on CHR ''.'' s) of
        [Some a, Some b, Some c, Some d] \<Rightarrow> Some (of_nat (((a * 256 + b) * 256 + c) * 256 + d))
      | _ \<Rightarrow> None)"

definition parse_hextet :: "string \<Rightarrow> nat option" where
  "parse_hextet s = (if s = [] \<or> 4 < length s then None
     else foldl (\<lambda>acc c. case (acc, hex_nibble c) of (Some n, Some d) \<Rightarrow> Some (n * 16 + d) | _ \<Rightarrow> None) (Some 0) s)"

fun show_hex :: "nat \<Rightarrow> string" where
  "show_hex n = (if n < 16 then [hex_digit n] else show_hex (n div 16) @ [hex_digit (n mod 16)])"

declare show_hex.simps [simp del]

text \<open>An IPv4-style last part becomes two hextets.\<close>

definition expand_ipv4_suffix :: "string list \<Rightarrow> string list option" where
  "expand_ipv4_suffix parts =
     (if CHR ''.'' \<in> set (last parts)
      then map_option (\<lambda>w. butlast parts @ [show_hex (unat w div 65536), show_hex (unat w mod 65536)]) (ipv4_of_string (last parts))
      else Some parts)"

definition skip_indices :: "string list \<Rightarrow> nat list" where
  "skip_indices parts = filter (\<lambda>i. parts ! i = []) [1..<length parts - 1]"

definition join_hextets :: "string list \<Rightarrow> nat \<Rightarrow> string list \<Rightarrow> 128 word option" where
  "join_hextets hi skipped lo =
     (case (those (map parse_hextet hi), those (map parse_hextet lo)) of
        (Some hs, Some ls) \<Rightarrow> Some (of_nat (foldl (\<lambda>acc h. acc * 65536 + h) (foldl (\<lambda>acc h. acc * 65536 + h) 0 hs * 65536 ^ skipped) ls))
      | _ \<Rightarrow> None)"

definition hextets_to_word :: "string list \<Rightarrow> 128 word option" where
  "hextets_to_word parts =
     (case skip_indices parts of
        [] \<Rightarrow> if length parts \<noteq> 8 \<or> hd parts = [] \<or> last parts = [] then None else join_hextets parts 0 []
      | [i] \<Rightarrow>
          let hi = (if hd parts = [] then i - 1 else i); rest = length parts - i - 1;
              lo = (if last parts = [] then rest - 1 else rest)
          in if (hd parts = [] \<and> hi \<noteq> 0) \<or> (last parts = [] \<and> lo \<noteq> 0) \<or> 8 < hi + lo + 1 then None
             else join_hextets (take hi parts) (8 - (hi + lo)) (drop (length parts - lo) parts)
      | _ \<Rightarrow> None)"

definition ipv6_of_string :: "string \<Rightarrow> (128 word \<times> string option) option" where
  "ipv6_of_string s =
     (if CHR ''/'' \<in> set s then None else
      case partition_at CHR ''%'' s of
        (a, scope) \<Rightarrow>
          if (case scope of None \<Rightarrow> False | Some z \<Rightarrow> z = [] \<or> CHR ''%'' \<in> set z) \<or> a = [] then None
          else let parts = split_on CHR '':'' a in
            if length parts < 3 then None
            else (case expand_ipv4_suffix parts of None \<Rightarrow> None
              | Some ps \<Rightarrow> if 9 < length ps then None else map_option (\<lambda>w. (w, scope)) (hextets_to_word ps)))"

definition ip_of_string :: "string \<Rightarrow> ip_address option" where
  "ip_of_string s = (case ipv4_of_string s of Some w \<Rightarrow> Some (IPv4 w)
     | None \<Rightarrow> map_option (\<lambda>(w, z). IPv6 w z) (ipv6_of_string s))"

definition in_net :: "'a::len word \<Rightarrow> nat \<Rightarrow> 'a word \<Rightarrow> bool" where
  "in_net base len a = (drop_bit (LENGTH('a) - len) a = drop_bit (LENGTH('a) - len) base)"

definition in_any :: "('a::len word \<times> nat) list \<Rightarrow> 'a word \<Rightarrow> bool" where
  "in_any nets a = list_ex (\<lambda>(b, n). in_net b n a) nets"

text \<open>The registry tables of \<^verbatim>\<open>ipaddress\<close>.\<close>

definition private4 :: "32 word \<Rightarrow> bool" where
  "private4 a =
     (in_any [(0, 8), (0x0A000000, 8), (0x7F000000, 8), (0xA9FE0000, 16), (0xAC100000, 12), (0xC0000000, 24), (0xC00000AA, 31),
              (0xC0000200, 24), (0xC0A80000, 16), (0xC6120000, 15), (0xC6336400, 24), (0xCB007100, 24), (0xF0000000, 4), (0xFFFFFFFF, 32)] a
      \<and> a \<noteq> 0xC0000009 \<and> a \<noteq> 0xC000000A)"

definition private6 :: "128 word \<Rightarrow> bool" where
  "private6 a =
     (if drop_bit 32 a = 0xFFFF then private4 (ucast a)
      else in_any [(1, 128), (0, 128), (0xFFFF00000000, 96), (0x0064FF9B000100000000000000000000, 48), (0x01000000000000000000000000000000, 64),
              (0x20010000000000000000000000000000, 23), (0x20010DB8000000000000000000000000, 32), (0x20020000000000000000000000000000, 16),
              (0xFC000000000000000000000000000000, 7), (0xFE800000000000000000000000000000, 10)] a
        \<and> \<not> in_any [(0x20010001000000000000000000000001, 128), (0x20010001000000000000000000000002, 128), (0x20010003000000000000000000000000, 32),
              (0x20010004011200000000000000000000, 48), (0x20010020000000000000000000000000, 28), (0x20010030000000000000000000000000, 28)] a)"

definition reserved6 :: "128 word \<Rightarrow> bool" where
  "reserved6 = in_any [(0, 8), (0x01000000000000000000000000000000, 8), (0x02000000000000000000000000000000, 7), (0x04000000000000000000000000000000, 6),
     (0x08000000000000000000000000000000, 5), (0x10000000000000000000000000000000, 4), (0x40000000000000000000000000000000, 3),
     (0x60000000000000000000000000000000, 3), (0x80000000000000000000000000000000, 3), (0xA0000000000000000000000000000000, 3),
     (0xC0000000000000000000000000000000, 3), (0xE0000000000000000000000000000000, 4), (0xF0000000000000000000000000000000, 5),
     (0xF8000000000000000000000000000000, 6), (0xFE000000000000000000000000000000, 9)]"

fun is_private :: "ip_address \<Rightarrow> bool" where
  "is_private (IPv4 a) = private4 a" | "is_private (IPv6 a z) = private6 a"

fun is_loopback :: "ip_address \<Rightarrow> bool" where
  "is_loopback (IPv4 a) = in_net 0x7F000000 8 a" | "is_loopback (IPv6 a z) = (a = 1)"

fun is_link_local :: "ip_address \<Rightarrow> bool" where
  "is_link_local (IPv4 a) = in_net 0xA9FE0000 16 a" | "is_link_local (IPv6 a z) = in_net 0xFE800000000000000000000000000000 10 a"

fun is_reserved :: "ip_address \<Rightarrow> bool" where
  "is_reserved (IPv4 a) = in_net 0xF0000000 4 a" | "is_reserved (IPv6 a z) = reserved6 a"

fun is_multicast :: "ip_address \<Rightarrow> bool" where
  "is_multicast (IPv4 a) = in_net 0xE0000000 4 a" | "is_multicast (IPv6 a z) = in_net 0xFF000000000000000000000000000000 8 a"

fun is_unspecified :: "ip_address \<Rightarrow> bool" where
  "is_unspecified (IPv4 a) = (a = 0)" | "is_unspecified (IPv6 a z) = (a = 0)"

text \<open>\<^verbatim>\<open>str(address)\<close>: the longest run of at least two zero hextets, the first one of that length, is left out.\<close>

definition hextets :: "128 word \<Rightarrow> string list" where
  "hextets a = map (\<lambda>i. show_hex (unat (drop_bit (112 - 16 * i) a) mod 65536)) [0..<8]"

fun best_run :: "nat \<Rightarrow> nat \<Rightarrow> nat \<times> nat \<Rightarrow> string list \<Rightarrow> nat \<times> nat" where
  "best_run i run best [] = best"
| "best_run i run best (h # hs) =
     (if h = ''0'' then best_run (i + 1) (run + 1) (if snd best < run + 1 then (i - run, run + 1) else best) hs
      else best_run (i + 1) 0 best hs)"

definition show_ipv6 :: "128 word \<Rightarrow> string" where
  "show_ipv6 a =
     (let hs = hextets a; (start, len) = best_run 0 0 (0, 0) hs
      in join_with '':'' (if len \<le> 1 then hs
           else (if start = 0 then [''''] else []) @ take start hs @ [''''] @ drop (start + len) hs @ (if start + len = length hs then [''''] else [])))"

fun show_ip :: "ip_address \<Rightarrow> string" where
  "show_ip (IPv4 a) = join_with ''.'' (map (\<lambda>i. show_nat (unat (drop_bit (24 - 8 * i) a) mod 256)) [0..<4])"
| "show_ip (IPv6 a z) = show_ipv6 a @ (case z of None \<Rightarrow> [] | Some s \<Rightarrow> if s = [] then [] else ''%'' @ s)"

section \<open>Splitting a URL\<close>

record url_parts =
  up_scheme :: string
  up_netloc :: string
  up_path :: string
  up_params :: string
  up_query :: string
  up_fragment :: string

definition clean_url :: "string \<Rightarrow> string" where
  "clean_url s = filter (\<lambda>c. c \<notin> {CHR 0x09, CHR 0x0D, CHR 0x0A}) (dropWhile (\<lambda>c. (of_char c :: nat) \<le> 32) s)"

definition scheme_char :: "char \<Rightarrow> bool" where
  "scheme_char c = (ascii_alpha c \<or> ascii_digit c \<or> c \<in> set ''+-.'')"

definition split_scheme :: "string \<Rightarrow> string \<times> string" where
  "split_scheme s = (case partition_at CHR '':'' s of
       (pre, Some rest) \<Rightarrow> if pre \<noteq> [] \<and> ascii_alpha (hd pre) \<and> list_all scheme_char pre then (str_lower pre, rest) else ([], s)
     | (_, None) \<Rightarrow> ([], s))"

definition ip_future :: "string \<Rightarrow> bool" where
  "ip_future s = (case s of [] \<Rightarrow> False | v # r \<Rightarrow>
     takeWhile (\<lambda>c. hex_nibble c \<noteq> None) r \<noteq> [] \<and>
     (case dropWhile (\<lambda>c. hex_nibble c \<noteq> None) r of d # t \<Rightarrow> d = CHR ''.'' \<and> t \<noteq> [] | [] \<Rightarrow> False))"

definition bracketed_host_error :: "string \<Rightarrow> py_exc option" where
  "bracketed_host_error host =
     (if prefix ''v'' host then (if ip_future host then None else Some (ValueError ''IPvFuture address is invalid''))
      else case ip_of_string host of
        None \<Rightarrow> Some (ValueError (py_repr host @ '' does not appear to be an IPv4 or IPv6 address''))
      | Some (IPv4 _) \<Rightarrow> Some (ValueError ''An IPv4 address cannot be in brackets'')
      | Some (IPv6 _ _) \<Rightarrow> None)"

definition netloc_error :: "string \<Rightarrow> py_exc option" where
  "netloc_error netloc =
     (let opening = CHR ''['' \<in> set netloc; closing = CHR '']'' \<in> set netloc in
      if opening \<noteq> closing then Some (ValueError ''Invalid IPv6 URL'')
      else if \<not> opening then None
      else case partition_at CHR ''['' (after_last CHR ''@'' netloc) of
        (lead, Some bracketed) \<Rightarrow>
          if lead \<noteq> [] then Some (ValueError ''Invalid IPv6 URL'')
          else (case partition_at CHR '']'' bracketed of
              (host, Some port) \<Rightarrow> if port \<noteq> [] \<and> \<not> prefix '':'' port then Some (ValueError ''Invalid IPv6 URL'') else bracketed_host_error host
            | (host, None) \<Rightarrow> bracketed_host_error host)
      | (lead, None) \<Rightarrow> bracketed_host_error (fst (partition_at CHR '':'' lead)))"

definition nfkc_error :: "(string \<Rightarrow> string) \<Rightarrow> string \<Rightarrow> py_exc option" where
  "nfkc_error nfkc netloc =
     (let n = filter (\<lambda>c. c \<notin> set ''@:#?'') netloc in
      if list_all is_ascii netloc \<or> nfkc n = n \<or> \<not> (\<exists>c \<in> set ''/?#@:''. c \<in> set (nfkc n)) then None
      else Some (ValueError (''netloc '' @ netloc @ '' contains invalid characters under NFKC normalization'')))"

definition uses_params :: "string list" where
  "uses_params = ['''', ''ftp'', ''hdl'', ''prospero'', ''http'', ''imap'', ''https'', ''shttp'', ''rtsp'', ''rtsps'', ''rtspu'', ''sip'', ''sips'',
     ''mms'', ''sftp'', ''tel'']"

text \<open>The parameters are those of the last path segment.\<close>

definition split_params :: "string \<Rightarrow> string \<times> string" where
  "split_params path =
     (let seg = after_last CHR ''/'' path; dir = take (length path - length seg) path
      in case partition_at CHR '';'' seg of (s, None) \<Rightarrow> (path, []) | (s, Some params) \<Rightarrow> (dir @ s, params))"

definition urlparse :: "(string \<Rightarrow> string) \<Rightarrow> string \<Rightarrow> py_exc + url_parts" where
  "urlparse nfkc url =
     (let (scheme, s) = split_scheme (clean_url url);
          netloc = (if prefix ''//'' s then takeWhile (\<lambda>c. c \<notin> set ''/?#'') (drop 2 s) else []);
          s1 = (if prefix ''//'' s then dropWhile (\<lambda>c. c \<notin> set ''/?#'') (drop 2 s) else s);
          (s2, fragment) = partition_at CHR ''#'' s1;
          (path, query) = partition_at CHR ''?'' s2;
          (path', params) = (if scheme \<in> set uses_params then split_params path else (path, []))
      in case netloc_error netloc of Some e \<Rightarrow> Inl e
         | None \<Rightarrow> (case nfkc_error nfkc netloc of Some e \<Rightarrow> Inl e
         | None \<Rightarrow> Inr \<lparr>up_scheme = scheme, up_netloc = netloc, up_path = path', up_params = params,
              up_query = (case query of None \<Rightarrow> [] | Some q \<Rightarrow> q), up_fragment = (case fragment of None \<Rightarrow> [] | Some f \<Rightarrow> f)\<rparr>))"

definition hostinfo :: "string \<Rightarrow> string \<times> string option" where
  "hostinfo netloc =
     (let h = after_last CHR ''@'' netloc in
      case partition_at CHR ''['' h of
        (_, Some bracketed) \<Rightarrow>
          (case partition_at CHR '']'' bracketed of (host, port) \<Rightarrow>
             (host, case port of None \<Rightarrow> None | Some p \<Rightarrow> (case snd (partition_at CHR '':'' p) of Some q \<Rightarrow> if q = [] then None else Some q | None \<Rightarrow> None)))
      | (_, None) \<Rightarrow> (case partition_at CHR '':'' h of (host, port) \<Rightarrow> (host, case port of Some q \<Rightarrow> if q = [] then None else Some q | None \<Rightarrow> None)))"

definition hostname :: "url_parts \<Rightarrow> string option" where
  "hostname u = (let h = fst (hostinfo (up_netloc u)) in
     if h = [] then None
     else Some (case partition_at CHR ''%'' h of (a, None) \<Rightarrow> str_lower a | (a, Some zone) \<Rightarrow> str_lower a @ ''%'' @ zone))"

definition port_number :: "url_parts \<Rightarrow> py_exc + nat option" where
  "port_number u = (case snd (hostinfo (up_netloc u)) of None \<Rightarrow> Inr None
     | Some p \<Rightarrow>
         (case (if list_all ascii_digit p then parse_digits 0 p else None) of
            None \<Rightarrow> Inl (ValueError (''Port could not be cast to integer value as '' @ py_repr p))
          | Some n \<Rightarrow> if 65535 < n then Inl (ValueError ''Port out of range 0-65535'') else Inr (Some n)))"

section \<open>Percent-decoding\<close>

fun pct_bytes :: "string \<Rightarrow> string" where
  "pct_bytes (c # x # y # r) =
     (case (hex_nibble x, hex_nibble y) of
        (Some a, Some b) \<Rightarrow> if c = CHR ''%'' then char_of (16 * a + b) # pct_bytes r else c # pct_bytes (x # y # r)
      | _ \<Rightarrow> c # pct_bytes (x # y # r))"
| "pct_bytes s = s"

text \<open>
  Decoding UTF-8 with \<^verbatim>\<open>errors="replace"\<close>: a maximal part of an ill-formed sequence becomes the
  replacement character U+FFFD.  The first argument of \<open>take_tail\<close> lists what the continuation
  bytes must satisfy.
\<close>

definition between :: "nat \<Rightarrow> nat \<Rightarrow> char \<Rightarrow> bool" where
  "between a b c = (let n = (of_char c :: nat) in a \<le> n \<and> n \<le> b)"

definition tail_tests :: "char \<Rightarrow> (char \<Rightarrow> bool) list option" where
  "tail_tests c =
     (let n = (of_char c :: nat); t = between 128 191 in
      if n < 128 then Some []
      else if 194 \<le> n \<and> n \<le> 223 then Some [t]
      else if n = 224 then Some [between 160 191, t]
      else if n = 237 then Some [between 128 159, t]
      else if 225 \<le> n \<and> n \<le> 239 then Some [t, t]
      else if n = 240 then Some [between 144 191, t, t]
      else if 241 \<le> n \<and> n \<le> 243 then Some [t, t, t]
      else if n = 244 then Some [between 128 143, t, t]
      else None)"

fun take_tail :: "(char \<Rightarrow> bool) list \<Rightarrow> string \<Rightarrow> (string \<times> bool) \<times> string" where
  "take_tail [] s = (([], True), s)"
| "take_tail (t # ts) [] = (([], False), [])"
| "take_tail (t # ts) (c # s) = (if t c then (case take_tail ts s of ((cs, ok), r) \<Rightarrow> ((c # cs, ok), r)) else (([], False), c # s))"

lemma take_tail_rest: "take_tail ts s = ((cs, ok), r) \<Longrightarrow> s = cs @ r"
  by (induction ts s arbitrary: cs ok r rule: take_tail.induct) (auto split: if_splits prod.splits)

lemma take_tail_length: "(p, r) = take_tail ts s \<Longrightarrow> length r \<le> length s"
  by (cases p) (metis length_append le_add2 take_tail_rest)

definition replacement :: string where
  "replacement = [CHR 0xEF, CHR 0xBF, CHR 0xBD]"

function utf8_replace :: "string \<Rightarrow> string" where
  "utf8_replace [] = []"
| "utf8_replace (c # s) =
     (case tail_tests c of None \<Rightarrow> replacement @ utf8_replace s
      | Some ts \<Rightarrow> (case take_tail ts s of ((cs, ok), r) \<Rightarrow> (if ok then c # cs else replacement) @ utf8_replace r))"
  by pat_completeness auto
termination
  by (relation "measure length") (auto dest!: take_tail_length)

text \<open>\<^verbatim>\<open>unquote\<close> decodes the runs of ASCII characters one by one.\<close>

function unquote :: "string \<Rightarrow> string" where
  "unquote [] = []"
| "unquote (c # s) =
     (if is_ascii c then utf8_replace (pct_bytes (takeWhile is_ascii (c # s))) @ unquote (dropWhile is_ascii (c # s))
      else c # unquote s)"
  by pat_completeness auto
termination
  by (relation "measure length") (auto simp: le_imp_less_Suc length_dropWhile_le)

section \<open>Decoding works segment by segment\<close>

lemma slash_char: "hex_nibble CHR ''/'' = None" "is_ascii CHR ''/''" "CHR ''/'' \<noteq> CHR ''%''" "tail_tests CHR ''/'' = Some []"
  by (simp_all add: hex_nibble_def is_ascii_def tail_tests_def Let_def)

lemma pct_bytes_slash: "pct_bytes (a @ CHR ''/'' # b) = pct_bytes a @ CHR ''/'' # pct_bytes b"
proof (induction a rule: pct_bytes.induct)
  case (1 c x y r)
  then show ?case by (auto split: option.splits)
next
  case "2_1"
  have "pct_bytes (CHR ''/'' # b) = CHR ''/'' # pct_bytes b"
    by (cases b rule: pct_bytes.cases) (auto split: option.splits)
  then show ?case by simp
next
  case "2_2"
  have "pct_bytes (CHR ''/'' # b) = CHR ''/'' # pct_bytes b"
    by (cases b rule: pct_bytes.cases) (auto split: option.splits)
  then show ?case by (cases b) (auto simp: slash_char split: option.splits)
next
  case "2_3"
  have "pct_bytes (CHR ''/'' # b) = CHR ''/'' # pct_bytes b"
    by (cases b rule: pct_bytes.cases) (auto split: option.splits)
  then show ?case by (cases b) (auto simp: slash_char split: option.splits)
qed

lemma tail_tests_ascii: "tail_tests c = Some ts \<Longrightarrow> t \<in> set ts \<Longrightarrow> \<not> t CHR ''/''"
  by (auto simp: tail_tests_def between_def Let_def split: if_splits)

lemma take_tail_slash:
  assumes "\<forall>t \<in> set ts. \<not> t CHR ''/''"
  shows "take_tail ts (a @ CHR ''/'' # b) = (case take_tail ts a of (p, r) \<Rightarrow> (p, r @ CHR ''/'' # b))"
  using assms
proof (induction ts a rule: take_tail.induct)
  case (3 t ts c s)
  obtain cs ok r where s: "take_tail ts s = ((cs, ok), r)" by (metis prod.exhaust)
  show ?case
  proof (cases "t c")
    case True
    have "\<forall>t \<in> set ts. \<not> t CHR ''/''" using "3.prems" by auto
    from "3.IH" [OF True this] have "take_tail ts (s @ CHR ''/'' # b) = ((cs, ok), r @ CHR ''/'' # b)" by (simp add: s)
    then show ?thesis using True s by simp
  qed simp
qed simp_all

lemma utf8_replace_slash: "utf8_replace (a @ CHR ''/'' # b) = utf8_replace a @ CHR ''/'' # utf8_replace b"
proof (induction a rule: utf8_replace.induct)
  case 1
  then show ?case by (simp add: slash_char)
next
  case (2 c s)
  show ?case
  proof (cases "tail_tests c")
    case None
    then show ?thesis using 2(1) by simp
  next
    case (Some ts)
    obtain cs ok r where t: "take_tail ts s = ((cs, ok), r)" by (metis prod.exhaust)
    have "take_tail ts (s @ CHR ''/'' # b) = ((cs, ok), r @ CHR ''/'' # b)"
      using take_tail_slash [of ts s b] tail_tests_ascii [OF Some] t by auto
    then show ?thesis using 2(2) [OF Some t [symmetric] refl] Some t by simp
  qed
qed

lemma unquote_run:
  assumes "list_all is_ascii r" and "s = [] \<or> \<not> is_ascii (hd s)"
  shows "unquote (r @ s) = utf8_replace (pct_bytes r) @ unquote s"
proof (cases r)
  case (Cons c r')
  have "takeWhile is_ascii (r @ s) = r" "dropWhile is_ascii (r @ s) = s"
    using assms by (auto simp: list_all_iff takeWhile_append2 dropWhile_append2) (cases s; simp)+
  then show ?thesis using assms(1) Cons by simp
qed simp

lemma unquote_split: "unquote b = utf8_replace (pct_bytes (takeWhile is_ascii b)) @ unquote (dropWhile is_ascii b)"
proof -
  have "list_all is_ascii (takeWhile is_ascii b)" by (auto simp: list_all_iff dest: set_takeWhileD)
  moreover have "dropWhile is_ascii b = [] \<or> \<not> is_ascii (hd (dropWhile is_ascii b))" using hd_dropWhile by blast
  ultimately show ?thesis using unquote_run [of "takeWhile is_ascii b" "dropWhile is_ascii b"] by simp
qed

lemma unquote_slash: "unquote (a @ CHR ''/'' # b) = unquote a @ CHR ''/'' # unquote b"
proof (induction a rule: length_induct)
  case (1 a)
  let ?r = "takeWhile is_ascii a" and ?d = "dropWhile is_ascii a"
  have r: "list_all is_ascii ?r" by (auto simp: list_all_iff dest: set_takeWhileD)
  show ?case
  proof (cases ?d)
    case Nil
    then have a: "list_all is_ascii a" "?r = a" by (auto simp: dropWhile_eq_Nil_conv list_all_iff takeWhile_eq_all_conv)
    let ?rb = "takeWhile is_ascii b" and ?db = "dropWhile is_ascii b"
    have "list_all is_ascii (a @ CHR ''/'' # ?rb)" using a slash_char(2) by (auto simp: list_all_iff dest: set_takeWhileD)
    moreover have "?db = [] \<or> \<not> is_ascii (hd ?db)" using hd_dropWhile by blast
    ultimately have "unquote ((a @ CHR ''/'' # ?rb) @ ?db) = utf8_replace (pct_bytes (a @ CHR ''/'' # ?rb)) @ unquote ?db" by (rule unquote_run)
    then have "unquote (a @ CHR ''/'' # b) = utf8_replace (pct_bytes a) @ CHR ''/'' # utf8_replace (pct_bytes ?rb) @ unquote ?db"
      by (simp add: pct_bytes_slash utf8_replace_slash)
    moreover have "unquote a = utf8_replace (pct_bytes a)" using unquote_run [OF a(1), of "[]"] by simp
    moreover have "unquote b = utf8_replace (pct_bytes ?rb) @ unquote ?db" by (rule unquote_split)
    ultimately show ?thesis by simp
  next
    case (Cons c d)
    then have c: "\<not> is_ascii c" by (metis hd_dropWhile list.distinct(1) list.sel(1))
    have a: "a = ?r @ c # d" using Cons by (metis takeWhile_dropWhile_id)
    have "length d < length a" using a by (metis add_Suc_right le_add2 length_Cons length_append less_Suc_eq_le)
    then have IH: "unquote (d @ CHR ''/'' # b) = unquote d @ CHR ''/'' # unquote b" using 1 by blast
    have "unquote (?r @ (c # d) @ CHR ''/'' # b) = utf8_replace (pct_bytes ?r) @ unquote ((c # d) @ CHR ''/'' # b)"
      by (rule unquote_run [OF r]) (simp add: c)
    moreover have "unquote (?r @ c # d) = utf8_replace (pct_bytes ?r) @ unquote (c # d)" by (rule unquote_run [OF r]) (simp add: c)
    ultimately show ?thesis using IH c by (subst (1 2) a) simp
  qed
qed

lemma unquote_keeps_slashes: "count_list s CHR ''/'' \<le> count_list (unquote s) CHR ''/''"
proof (induction s rule: length_induct)
  case (1 s)
  show ?case
  proof (cases "CHR ''/'' \<in> set s")
    case True
    then obtain a b where s: "s = a @ CHR ''/'' # b" "CHR ''/'' \<notin> set a" by (metis split_list_first)
    have "count_list b CHR ''/'' \<le> count_list (unquote b) CHR ''/''" using 1 s(1) by simp
    then show ?thesis using s by (simp add: unquote_slash trans_le_add2)
  qed (simp add: count_list_0_iff)
qed

lemma unquote_pow_slash: "(unquote ^^ k) (a @ CHR ''/'' # b) = (unquote ^^ k) a @ CHR ''/'' # (unquote ^^ k) b"
  by (induction k) (simp_all add: unquote_slash)

end
