(* ===== verification/Outbound_Policy.thy ===== *)
theory Outbound_Policy
  imports Url Callback_Service "HOL-Library.List_Lexorder"
begin

text \<open>
  \<^verbatim>\<open>OutboundPolicy\<close> (\<^verbatim>\<open>src/infra/outbound_policy.py\<close>), the check that every outgoing request passes, and
  its clients: callback delivery (\<^verbatim>\<open>CallbackService._validate_url\<close>) and \<^verbatim>\<open>FileClient\<close>
  (\<^verbatim>\<open>src/framework/runtime/files.py\<close>).  Name resolution and Unicode normalisation are parameters.

  The theorems: a path that passes the check stays inside its directory however often it is
  percent-decoded, an accepted URL resolves to public addresses unless it was exempted, a fetched
  file respects the policy and the size limit, and callbacks go to accepted URLs only; the
  denylist does not see an explicit port, and the shared address space 100.64.0.0/10 counts as public.
\<close>

section \<open>The policy\<close>

record outbound_policy =
  op_allowed_schemes :: "string list"
  op_block_private_networks :: bool
  op_allowlist :: "string list"
  op_private_network_allowlist :: "string list"
  op_denylist :: "string list"

definition default_policy :: outbound_policy where
  "default_policy = \<lparr>op_allowed_schemes = [''http'', ''https''], op_block_private_networks = True, op_allowlist = [],
     op_private_network_allowlist = [], op_denylist = []\<rparr>"

text \<open>\<open>ne_getaddrinfo\<close> gives the textual addresses of a host; a resolver error is the exception \<^verbatim>\<open>gaierror\<close>.\<close>

record net_env =
  ne_nfkc :: "string \<Rightarrow> string"
  ne_getaddrinfo :: "string \<Rightarrow> py_exc + string list"

definition dot_segment :: "string \<Rightarrow> bool" where
  "dot_segment path = (\<exists>part \<in> set (split_on CHR ''/'' path). part = ''.'' \<or> part = ''..'')"

fun reject_ambiguous_path_rounds :: "nat \<Rightarrow> string \<Rightarrow> py_exc + unit" where
  "reject_ambiguous_path_rounds 0 candidate = Inl (OutboundPolicyError ''Outbound URL path contains excessive nested encoding'')"
| "reject_ambiguous_path_rounds (Suc n) candidate =
     (if CHR 0x5C \<in> set candidate \<or> dot_segment candidate
      then Inl (OutboundPolicyError ''Outbound URL path contains ambiguous traversal segments'')
      else let decoded = unquote candidate in
        if count_list candidate CHR ''/'' < count_list decoded CHR ''/''
        then Inl (OutboundPolicyError ''Outbound URL path contains an encoded path separator'')
        else if decoded = candidate then Inr () else reject_ambiguous_path_rounds n decoded)"

definition reject_ambiguous_path :: "string \<Rightarrow> py_exc + unit" where
  "reject_ambiguous_path path = reject_ambiguous_path_rounds 5 (if path = [] then ''/'' else path)"

definition list_repr :: "string list \<Rightarrow> string" where
  "list_repr xs = ''['' @ join_with '', '' (map py_repr xs) @ '']''"

definition canonical_url :: "url_parts \<Rightarrow> py_exc + string \<times> string \<times> nat option \<times> string" where
  "canonical_url u = (case port_number u of Inl e \<Rightarrow> Inl e
     | Inr port \<Rightarrow> Inr (str_lower (up_scheme u), (case hostname u of None \<Rightarrow> [] | Some h \<Rightarrow> str_lower h), port,
                        if up_path u = [] then ''/'' else up_path u))"

fun matches_any_prefix :: "net_env \<Rightarrow> string \<times> string \<times> nat option \<times> string \<Rightarrow> string list \<Rightarrow> py_exc + bool" where
  "matches_any_prefix env canonical [] = Inr False"
| "matches_any_prefix env canonical (p # ps) =
     (case urlparse (ne_nfkc env) p of Inl e \<Rightarrow> Inl e
      | Inr u \<Rightarrow> (case canonical_url u of Inl e \<Rightarrow> Inl e
      | Inr (p_scheme, p_host, p_port, p_path) \<Rightarrow>
        (case reject_ambiguous_path p_path of Inl e \<Rightarrow> Inl e
         | Inr _ \<Rightarrow>
            (case canonical of (scheme, host, port, path) \<Rightarrow>
              if scheme = p_scheme \<and> host = p_host \<and> port = p_port \<and> prefix p_path path then Inr True
              else matches_any_prefix env canonical ps))))"

definition matches_prefix :: "net_env \<Rightarrow> string \<Rightarrow> string list \<Rightarrow> py_exc + bool" where
  "matches_prefix env url ps =
     (case urlparse (ne_nfkc env) url of Inl e \<Rightarrow> Inl e
      | Inr u \<Rightarrow> (case canonical_url u of Inl e \<Rightarrow> Inl e | Inr c \<Rightarrow> matches_any_prefix env c ps))"

definition non_public :: "ip_address \<Rightarrow> bool" where
  "non_public a = (is_private a \<or> is_loopback a \<or> is_link_local a \<or> is_reserved a \<or> is_multicast a \<or> is_unspecified a)"

text \<open>Each distinct text that is an address.\<close>

definition usable_addresses :: "string list \<Rightarrow> ip_address list" where
  "usable_addresses infos = List.map_filter ip_of_string (rev (remdups (rev infos)))"

definition resolve_dns :: "net_env \<Rightarrow> string \<Rightarrow> py_exc + ip_address list" where
  "resolve_dns env host =
     (case ne_getaddrinfo env host of
        Inl e \<Rightarrow> if exc_name e = ''gaierror''
                then Inl (OutboundPolicyError (''Outbound URL host '' @ py_repr host @ '' could not be resolved: '' @ exc_str e)) else Inl e
      | Inr infos \<Rightarrow> if usable_addresses infos = []
          then Inl (OutboundPolicyError (''Outbound URL host '' @ py_repr host @ '' resolved to no usable addresses''))
          else Inr (usable_addresses infos))"

definition target_addresses :: "net_env \<Rightarrow> string \<Rightarrow> py_exc + ip_address list" where
  "target_addresses env host = (case ip_of_string host of Some a \<Rightarrow> Inr [a] | None \<Rightarrow> resolve_dns env host)"

definition reject_private_target :: "net_env \<Rightarrow> string option \<Rightarrow> py_exc + unit" where
  "reject_private_target env host =
     (case host of None \<Rightarrow> Inl (OutboundPolicyError ''Outbound URL host is required'')
      | Some h \<Rightarrow>
         (case target_addresses env h of Inl e \<Rightarrow> Inl e
          | Inr addresses \<Rightarrow> (case find non_public addresses of None \<Rightarrow> Inr ()
              | Some a \<Rightarrow> Inl (OutboundPolicyError (''Outbound URL host '' @ py_repr h @ '' resolves to non-public address '' @ show_ip a)))))"

definition scheme_error :: "outbound_policy \<Rightarrow> string \<Rightarrow> py_exc" where
  "scheme_error policy scheme = OutboundPolicyError (''Outbound URL scheme '' @ py_repr scheme @ '' is not allowed (allowed: ''
     @ list_repr (sort_key (map (of_char :: char \<Rightarrow> nat)) (remdups (op_allowed_schemes policy))) @ '')'')"

definition policy_validate :: "outbound_policy \<Rightarrow> net_env \<Rightarrow> string \<Rightarrow> py_exc + unit" where
  "policy_validate policy env url =
     (case urlparse (ne_nfkc env) url of Inl e \<Rightarrow> Inl e
      | Inr parsed \<Rightarrow>
        if up_scheme parsed \<notin> set (op_allowed_schemes policy) then Inl (scheme_error policy (up_scheme parsed))
        else if hostname parsed = None then Inl (OutboundPolicyError ''Outbound URL host is required'')
        else (case reject_ambiguous_path (up_path parsed) of Inl e \<Rightarrow> Inl e
        | Inr _ \<Rightarrow> (case matches_prefix env url (op_denylist policy) of Inl e \<Rightarrow> Inl e
        | Inr True \<Rightarrow> Inl (OutboundPolicyError ''Outbound URL is denylisted'')
        | Inr False \<Rightarrow> (case (if op_allowlist policy = [] then Inr True else matches_prefix env url (op_allowlist policy)) of Inl e \<Rightarrow> Inl e
        | Inr False \<Rightarrow> Inl (OutboundPolicyError ''Outbound URL is not allowlisted'')
        | Inr True \<Rightarrow> if \<not> op_block_private_networks policy then Inr ()
            else (case matches_prefix env url (op_private_network_allowlist policy) of Inl e \<Rightarrow> Inl e
              | Inr True \<Rightarrow> Inr ()
              | Inr False \<Rightarrow> reject_private_target env (hostname parsed))))))"

text \<open>\<^verbatim>\<open>is_allowed\<close> turns policy errors into \<^verbatim>\<open>False\<close>; any other exception passes.\<close>

definition policy_is_allowed :: "outbound_policy \<Rightarrow> net_env \<Rightarrow> string \<Rightarrow> py_exc + bool" where
  "policy_is_allowed policy env url = (case policy_validate policy env url of Inr _ \<Rightarrow> Inr True
     | Inl (OutboundPolicyError m) \<Rightarrow> Inr False | Inl e \<Rightarrow> Inl e)"

definition reject_ip_literal :: "outbound_policy \<Rightarrow> net_env \<Rightarrow> string \<Rightarrow> py_exc + unit" where
  "reject_ip_literal policy env url =
     (case urlparse (ne_nfkc env) url of Inl e \<Rightarrow> Inl e
      | Inr parsed \<Rightarrow>
        if up_scheme parsed \<notin> set (op_allowed_schemes policy) then Inl (scheme_error policy (up_scheme parsed))
        else (case hostname parsed of None \<Rightarrow> Inl (OutboundPolicyError ''Outbound URL host is required'')
        | Some host \<Rightarrow> (case ip_of_string host of None \<Rightarrow> Inr ()
            | Some a \<Rightarrow> if non_public a then Inl (OutboundPolicyError (''Outbound URL points to a non-public IP address '' @ show_ip a)) else Inr ())))"

definition validate_outbound_url :: "net_env \<Rightarrow> string \<Rightarrow> string list option \<Rightarrow> bool \<Rightarrow> py_exc + unit" where
  "validate_outbound_url env url allowed_prefixes block_private_ip_literals =
     (let policy = default_policy\<lparr>op_block_private_networks := False, op_allowlist := (case allowed_prefixes of None \<Rightarrow> [] | Some ps \<Rightarrow> ps)\<rparr>
      in case urlparse (ne_nfkc env) url of Inl e \<Rightarrow> Inl e
       | Inr parsed \<Rightarrow>
          if up_scheme parsed \<notin> set (op_allowed_schemes policy) then Inl (scheme_error policy (up_scheme parsed))
          else if hostname parsed = None then Inl (OutboundPolicyError ''Outbound URL host is required'')
          else (case (if op_allowlist policy = [] then Inr True else matches_prefix env url (op_allowlist policy)) of Inl e \<Rightarrow> Inl e
            | Inr False \<Rightarrow> Inl (OutboundPolicyError ''Outbound URL is not allowlisted'')
            | Inr True \<Rightarrow> if block_private_ip_literals then reject_ip_literal policy env url else Inr ()))"

section \<open>The clients\<close>

text \<open>The callback service refuses private networks unless it has an allowlist.\<close>

definition callback_policy :: "callback_service \<Rightarrow> outbound_policy" where
  "callback_policy cs = default_policy\<lparr>op_allowlist := cs_url_allowlist cs, op_block_private_networks := (cs_url_allowlist cs = [])\<rparr>"

definition guarded_delivery :: "callback_service \<Rightarrow> net_env \<Rightarrow> delivery_env \<Rightarrow> delivery_env" where
  "guarded_delivery cs net env = env\<lparr>de_validate_url := policy_validate (callback_policy cs) net\<rparr>"

record file_client =
  fc_files :: "run_file list"
  fc_run_id :: string
  fc_trace_id :: string
  fc_url_allowlist :: "string list"
  fc_max_file_size :: int
  fc_fetch_timeout :: rat
  fc_allowed_mime_types :: "string list option"

definition file_policy :: "file_client \<Rightarrow> outbound_policy" where
  "file_policy fc = default_policy\<lparr>op_allowlist := fc_url_allowlist fc, op_block_private_networks := True\<rparr>"

definition DEFAULT_ALLOWED_MIME_TYPES :: "string list" where
  "DEFAULT_ALLOWED_MIME_TYPES = [''image/png'', ''image/jpeg'', ''image/gif'', ''image/webp'', ''image/tiff'', ''image/bmp'', ''application/pdf'',
     ''application/json'', ''text/plain'', ''text/csv'', ''application/octet-stream'']"

definition file_fetch_error :: "string \<Rightarrow> py_exc" where
  "file_fetch_error m = OtherException ''FileFetchError'' m"

text \<open>
  A streamed answer: the status, \<open>hr_raise\<close> what \<^verbatim>\<open>raise_for_status\<close> raises, two headers, the
  chunks and, possibly, an exception after the last of them.
\<close>

record http_stream =
  hr_status :: int
  hr_raise :: "py_exc option"
  hr_content_length :: "string option"
  hr_content_type :: "string option"
  hr_chunks :: "string list"
  hr_broken :: "py_exc option"

record file_env =
  fe_net :: net_env
  fe_get :: "string \<Rightarrow> rat \<Rightarrow> py_exc + http_stream"
  fe_clk :: "nat \<Rightarrow> datetime"

definition file_log :: "file_env \<Rightarrow> file_client \<Rightarrow> nat \<Rightarrow> string \<Rightarrow> dict \<Rightarrow> log_event list \<Rightarrow> log_event list" where
  "file_log env fc i event_type data logs = logs_add \<lparr>le_run_id = Some (fc_run_id fc), le_trace_id = fc_trace_id fc, le_component = ''file_client'',
     le_event_type = event_type, le_level = ''INFO'', le_message = ''Task file reference accessed'', le_data = data, le_create_time = fe_clk env i\<rparr> logs"

definition validate_size :: "file_client \<Rightarrow> string \<Rightarrow> int \<Rightarrow> py_exc + unit" where
  "validate_size fc source n = (if fc_max_file_size fc < n
     then Inl (file_fetch_error (source @ '' size '' @ show_int n @ '' bytes exceeds max '' @ show_int (fc_max_file_size fc) @ '' bytes'')) else Inr ())"

definition media_type :: "string \<Rightarrow> string" where
  "media_type v = str_lower (str_strip (fst (partition_at CHR '';'' v)))"

definition validate_mime_type :: "file_client \<Rightarrow> string \<Rightarrow> py_exc + unit" where
  "validate_mime_type fc mime_type =
     (case fc_allowed_mime_types fc of None \<Rightarrow> Inr ()
      | Some allowed \<Rightarrow> if allowed \<noteq> [] \<and> media_type mime_type \<notin> set allowed
          then Inl (file_fetch_error (''Content-Type '' @ py_repr (media_type mime_type) @ '' is not allowed'')) else Inr ())"

definition file_list :: "file_env \<Rightarrow> file_client \<Rightarrow> log_event list \<Rightarrow> log_event list \<times> run_file list" where
  "file_list env fc logs = (file_log env fc 0 ''file_references_listed'' [(''count'', JNum (of_nat (length (fc_files fc))))] logs, fc_files fc)"

definition file_get :: "file_env \<Rightarrow> file_client \<Rightarrow> string \<Rightarrow> log_event list \<Rightarrow> log_event list \<times> run_file option" where
  "file_get env fc file_id logs =
     (let found = find (\<lambda>f. rf_file_id f = Some file_id) (fc_files fc)
      in (file_log env fc 0 ''file_reference_accessed'' [(''file_id'', JStr file_id), (''found'', JBool (found \<noteq> None))] logs, found))"

definition file_require :: "file_env \<Rightarrow> file_client \<Rightarrow> string \<Rightarrow> log_event list \<Rightarrow> log_event list \<times> (py_exc + run_file)" where
  "file_require env fc file_id logs =
     (case file_get env fc file_id logs of (logs', Some f) \<Rightarrow> (logs', Inr f)
      | (logs', None) \<Rightarrow> (logs', Inl (KeyError (''Unknown run file_id '' @ py_repr file_id))))"

definition file_primary :: "file_env \<Rightarrow> file_client \<Rightarrow> log_event list \<Rightarrow> log_event list \<times> run_file option" where
  "file_primary env fc logs =
     (let f = (case fc_files fc of [] \<Rightarrow> None | x # _ \<Rightarrow> Some x)
      in (file_log env fc 0 ''file_reference_primary_accessed''
            [(''file_id'', jopt (case f of None \<Rightarrow> None | Some x \<Rightarrow> rf_file_id x)), (''found'', JBool (f \<noteq> None))] logs, f))"

text \<open>The download stops at the first chunk that exceeds the limit.\<close>

fun stream_chunks :: "file_client \<Rightarrow> int \<Rightarrow> string list \<Rightarrow> py_exc + string list" where
  "stream_chunks fc got [] = Inr []"
| "stream_chunks fc got (c # cs) =
     (let got' = got + int (length c) in
      if fc_max_file_size fc < got'
      then Inl (file_fetch_error (''Download exceeded max size '' @ show_int (fc_max_file_size fc) @ '' bytes (received '' @ show_int got' @ '' bytes)''))
      else (case stream_chunks fc got' cs of Inl e \<Rightarrow> Inl e | Inr ds \<Rightarrow> Inr (c # ds)))"

definition check_headers :: "file_client \<Rightarrow> string option \<Rightarrow> http_stream \<Rightarrow> py_exc + string" where
  "check_headers fc file_mime r =
     (if 300 \<le> hr_status r \<and> hr_status r < 400 then Inl (file_fetch_error ''File fetch redirects are not allowed'')
      else case hr_raise r of Some e \<Rightarrow> Inl e
      | None \<Rightarrow>
        (case (case hr_content_length r of None \<Rightarrow> Inr () | Some l \<Rightarrow> if l = [] then Inr ()
                 else (case py_int (JStr l) of Inl _ \<Rightarrow> Inr () | Inr n \<Rightarrow> validate_size fc ''file'' n)) of Inl e \<Rightarrow> Inl e
         | Inr _ \<Rightarrow>
           (let ct = media_type (case hr_content_type r of None \<Rightarrow> [] | Some t \<Rightarrow> t);
                mime = (case file_mime of None \<Rightarrow> [] | Some m \<Rightarrow> m) in
            if mime \<noteq> [] \<and> ct \<noteq> [] \<and> ct \<noteq> ''application/octet-stream'' \<and> ct \<noteq> str_lower mime
            then Inl (file_fetch_error (''Content-Type mismatch: expected '' @ mime @ '', got '' @ ct))
            else if ct = [] then Inr ct
            else (case validate_mime_type fc ct of Inl e \<Rightarrow> Inl e | Inr _ \<Rightarrow> Inr ct))))"

definition file_target :: "file_env \<Rightarrow> file_client \<Rightarrow> string option \<Rightarrow> string option \<Rightarrow> log_event list
    \<Rightarrow> log_event list \<times> (py_exc + string option \<times> string option)" where
  "file_target env fc file_id url logs =
     (case file_id of None \<Rightarrow> (logs, Inr (url, None))
      | Some i \<Rightarrow> if i = [] then (logs, Inr (url, None))
          else (case file_require env fc i logs of (logs', Inl e) \<Rightarrow> (logs', Inl e) | (logs', Inr f) \<Rightarrow> (logs', Inr (rf_url f, rf_mime_type f))))"

definition file_fetch :: "file_env \<Rightarrow> file_client \<Rightarrow> string option \<Rightarrow> string option \<Rightarrow> rat option \<Rightarrow> log_event list
    \<Rightarrow> log_event list \<times> (py_exc + string)" where
  "file_fetch env fc file_id url timeout_seconds logs =
     (case file_target env fc file_id url logs of
        (logs1, Inl e) \<Rightarrow> (logs1, Inl e)
      | (logs1, Inr (target, file_mime)) \<Rightarrow>
         (case target of None \<Rightarrow> (logs1, Inl (ValueError ''File fetch requires a URL or a run file with url''))
          | Some u \<Rightarrow>
            if u = [] then (logs1, Inl (ValueError ''File fetch requires a URL or a run file with url''))
            else (case policy_validate (file_policy fc) (fe_net env) u of Inl e \<Rightarrow> (logs1, Inl e)
              | Inr _ \<Rightarrow>
                (case fe_get env u (case timeout_seconds of None \<Rightarrow> fc_fetch_timeout fc | Some t \<Rightarrow> if t = 0 then fc_fetch_timeout fc else t) of
                   Inl e \<Rightarrow> (logs1, Inl e)
                 | Inr r \<Rightarrow>
                   (case check_headers fc file_mime r of Inl e \<Rightarrow> (logs1, Inl e)
                    | Inr ct \<Rightarrow>
                      (case stream_chunks fc 0 (hr_chunks r) of Inl e \<Rightarrow> (logs1, Inl e)
                       | Inr chunks \<Rightarrow>
                         (case hr_broken r of Some e \<Rightarrow> (logs1, Inl e)
                          | None \<Rightarrow>
                            (file_log env fc 1 ''file_reference_fetched''
                               [(''file_id'', jopt file_id), (''url'', JStr u), (''bytes'', JNum (of_nat (length (concat chunks)))),
                                (''content_type'', jopt (if ct = [] then None else Some ct))] logs1, Inr (concat chunks)))))))))"

section \<open>Paths\<close>

lemma reject_rounds_sound:
  "reject_ambiguous_path_rounds n c = Inr () \<Longrightarrow>
     CHR 0x5C \<notin> set ((unquote ^^ k) c) \<and> \<not> dot_segment ((unquote ^^ k) c) \<and> count_list ((unquote ^^ k) c) CHR ''/'' = count_list c CHR ''/''"
proof (induction n arbitrary: c k)
  case (Suc n)
  have c: "CHR 0x5C \<notin> set c" "\<not> dot_segment c" "\<not> count_list c CHR ''/'' < count_list (unquote c) CHR ''/''"
    "unquote c = c \<or> reject_ambiguous_path_rounds n (unquote c) = Inr ()"
    using Suc.prems by (auto simp: Let_def split: if_splits)
  have eq: "count_list (unquote c) CHR ''/'' = count_list c CHR ''/''" using c(3) unquote_keeps_slashes [of c] by simp
  show ?case
  proof (cases k)
    case 0
    then show ?thesis using c by simp
  next
    case (Suc j)
    have p: "(unquote ^^ k) c = (unquote ^^ j) (unquote c)" by (simp add: Suc funpow_swap1)
    show ?thesis
    proof (cases "unquote c = c")
      case True
      then have "(unquote ^^ i) c = c" for i by (induction i) simp_all
      then show ?thesis using c by simp
    next
      case False
      then show ?thesis using c(4) Suc.IH [of "unquote c" j] unfolding p eq by blast
    qed
  qed
qed simp

lemma split_on_nonempty: "split_on d s \<noteq> []"
  by (induction s) (auto split: list.split)

lemma split_on_append: "split_on d (a @ d # b) = split_on d a @ split_on d b"
proof (induction a)
  case (Cons x a)
  then show ?case using split_on_nonempty [of d a] by (cases "split_on d a") simp_all
qed simp

lemma dot_segment_append: "dot_segment (a @ CHR ''/'' # b) \<longleftrightarrow> dot_segment a \<or> dot_segment b"
  by (auto simp: dot_segment_def split_on_append)

text \<open>Behind a directory prefix an accepted path stays in the directory, at every level of decoding.\<close>

lemma accepted_path_below:
  assumes "reject_ambiguous_path_rounds n (dir @ CHR ''/'' # rest) = Inr ()"
  shows "(unquote ^^ k) (dir @ CHR ''/'' # rest) = (unquote ^^ k) dir @ CHR ''/'' # (unquote ^^ k) rest
     \<and> \<not> dot_segment ((unquote ^^ k) rest) \<and> CHR 0x5C \<notin> set ((unquote ^^ k) rest)
     \<and> count_list ((unquote ^^ k) rest) CHR ''/'' = count_list rest CHR ''/''"
proof -
  have le: "count_list s CHR ''/'' \<le> count_list ((unquote ^^ k) s) CHR ''/''" for s
    by (induction k) (auto intro: order.trans unquote_keeps_slashes)
  show ?thesis
    using reject_rounds_sound [OF assms, of k] le [of dir] le [of rest] by (auto simp: unquote_pow_slash dot_segment_append)
qed

section \<open>What acceptance means\<close>

lemma sum_unit_cases: "(case r of Inl e \<Rightarrow> Inl e | Inr (u :: unit) \<Rightarrow> f u) = Inr y \<longleftrightarrow> r = Inr () \<and> f () = Inr y"
  by (cases r) auto

lemma policy_validate_accepts:
  assumes "policy_validate policy env url = Inr ()"
  shows "\<exists>u h. urlparse (ne_nfkc env) url = Inr u \<and> hostname u = Some h \<and> up_scheme u \<in> set (op_allowed_schemes policy)
     \<and> reject_ambiguous_path (up_path u) = Inr () \<and> matches_prefix env url (op_denylist policy) = Inr False
     \<and> (op_allowlist policy \<noteq> [] \<longrightarrow> matches_prefix env url (op_allowlist policy) = Inr True)
     \<and> (op_block_private_networks policy \<longrightarrow> matches_prefix env url (op_private_network_allowlist policy) = Inr True
          \<or> reject_private_target env (Some h) = Inr ())"
  using assms unfolding policy_validate_def
  by (auto simp: sum_unit_cases split: sum.splits if_splits bool.splits)

lemma matches_any_prefix_found:
  assumes "matches_any_prefix env c ps = Inr True"
  shows "\<exists>q v p. q \<in> set ps \<and> urlparse (ne_nfkc env) q = Inr v
     \<and> canonical_url v = Inr (fst c, fst (snd c), fst (snd (snd c)), p) \<and> prefix p (snd (snd (snd c)))"
  using assms
proof (induction ps)
  case (Cons q ps)
  obtain v where v: "urlparse (ne_nfkc env) q = Inr v" using Cons.prems by (cases "urlparse (ne_nfkc env) q") auto
  then obtain s h n p where p: "canonical_url v = Inr (s, h, n, p)" using Cons.prems by (cases "canonical_url v") auto
  obtain sc ho po pa where c: "c = (sc, ho, po, pa)" by (metis prod.exhaust)
  show ?case
  proof (cases "sc = s \<and> ho = h \<and> po = n \<and> prefix p pa")
    case True
    then show ?thesis using v p c by auto
  next
    case False
    then have "matches_any_prefix env c ps = Inr True" using Cons.prems v p c by (auto split: sum.splits)
    then show ?thesis using Cons.IH by auto
  qed
qed simp

lemma reject_private_target_ok:
  assumes "reject_private_target env (Some h) = Inr ()"
  shows "\<exists>as. target_addresses env h = Inr as \<and> as \<noteq> [] \<and> (\<forall>a \<in> set as. \<not> non_public a)"
proof -
  obtain as where as: "target_addresses env h = Inr as" "find non_public as = None"
    using assms by (auto simp: reject_private_target_def split: sum.splits option.splits)
  moreover have "as \<noteq> []"
    using as(1) by (auto simp: target_addresses_def resolve_dns_def split: option.splits sum.splits if_splits)
  ultimately show ?thesis by (auto simp: find_None_iff)
qed

lemma canonical_url_path: "canonical_url u = Inr (s, h, p, path) \<Longrightarrow> path = (if up_path u = [] then ''/'' else up_path u)"
  by (auto simp: canonical_url_def split: sum.splits)

lemma stream_chunks_bound:
  "stream_chunks fc got cs = Inr ds \<Longrightarrow> ds = cs \<and> (cs \<noteq> [] \<longrightarrow> got + int (length (concat cs)) \<le> fc_max_file_size fc)"
proof (induction cs arbitrary: got ds)
  case (Cons c cs)
  from Cons.prems obtain es where es: "stream_chunks fc (got + int (length c)) cs = Inr es" "ds = c # es"
    "\<not> fc_max_file_size fc < got + int (length c)" by (auto simp: Let_def split: if_splits sum.splits)
  from Cons.IH [OF es(1)] es(2,3) show ?case by (cases "cs = []") (simp_all add: add.assoc)
qed simp

lemma file_fetch_ok:
  assumes "file_fetch env fc file_id url tmo logs = (logs', Inr content)"
  shows "\<exists>u r mime ct tm. policy_validate (file_policy fc) (fe_net env) u = Inr () \<and> fe_get env u tm = Inr r
     \<and> check_headers fc mime r = Inr ct \<and> stream_chunks fc 0 (hr_chunks r) = Inr (hr_chunks r) \<and> content = concat (hr_chunks r)"
  using assms unfolding file_fetch_def
  by (auto split: prod.splits sum.splits option.splits if_splits dest: stream_chunks_bound)

lemma check_headers_ok:
  assumes "check_headers fc mime r = Inr ct"
  shows "\<not> (300 \<le> hr_status r \<and> hr_status r < 400) \<and> hr_raise r = None
     \<and> ct = media_type (case hr_content_type r of None \<Rightarrow> [] | Some t \<Rightarrow> t)
     \<and> (ct = [] \<or> fc_allowed_mime_types fc = None \<or> fc_allowed_mime_types fc = Some [] \<or> media_type ct \<in> set (the (fc_allowed_mime_types fc)))"
  using assms unfolding check_headers_def Let_def
  by (auto simp: validate_mime_type_def split: if_splits option.splits sum.splits)

section \<open>The shared address space\<close>

lemma in_net_coarser:
  fixes a b :: "32 word"
  assumes "in_net b n a" and "10 \<le> n" and "n \<le> 32"
  shows "drop_bit 22 a = drop_bit 22 b"
proof -
  have "drop_bit (22 - (32 - n)) (drop_bit (32 - n) a) = drop_bit (22 - (32 - n)) (drop_bit (32 - n) b)"
    using assms(1) by (simp add: in_net_def)
  then show ?thesis using assms(2,3) by (simp add: drop_bit_drop_bit)
qed

lemma in_net_finer:
  fixes a b :: "32 word"
  assumes "in_net b n a" and "n \<le> 10"
  shows "drop_bit (10 - n) (drop_bit 22 a) = drop_bit (32 - n) b"
  using assms by (simp add: in_net_def drop_bit_drop_bit)

lemma shared_space_public:
  fixes a :: "32 word"
  assumes "in_net 0x64400000 10 a"
  shows "\<not> non_public (IPv4 a)"
proof -
  have d: "drop_bit 22 a = 0x191" using assms by (simp add: in_net_def drop_bit_eq_div)
  have coarse: "in_net b n a \<Longrightarrow> n \<le> 10 \<Longrightarrow> drop_bit (32 - n) b = drop_bit (10 - n) (0x191 :: 32 word)" for b n
    using in_net_finer [of b n a] d by simp
  have fine: "in_net b n a \<Longrightarrow> 10 \<le> n \<Longrightarrow> n \<le> 32 \<Longrightarrow> drop_bit 22 b = (0x191 :: 32 word)" for b n
    using in_net_coarser [of b n a] d by simp
  have no: "\<not> in_net 0 8 a" "\<not> in_net 0x0A000000 8 a" "\<not> in_net 0x7F000000 8 a" "\<not> in_net 0xA9FE0000 16 a" "\<not> in_net 0xAC100000 12 a"
    "\<not> in_net 0xC0000000 24 a" "\<not> in_net 0xC00000AA 31 a" "\<not> in_net 0xC0000200 24 a" "\<not> in_net 0xC0A80000 16 a" "\<not> in_net 0xC6120000 15 a"
    "\<not> in_net 0xC6336400 24 a" "\<not> in_net 0xCB007100 24 a" "\<not> in_net 0xF0000000 4 a" "\<not> in_net 0xFFFFFFFF 32 a" "\<not> in_net 0xE0000000 4 a"
    using coarse [of 0 8] coarse [of "0x0A000000" 8] coarse [of "0x7F000000" 8] fine [of "0xA9FE0000" 16] fine [of "0xAC100000" 12]
      fine [of "0xC0000000" 24] fine [of "0xC00000AA" 31] fine [of "0xC0000200" 24] fine [of "0xC0A80000" 16] fine [of "0xC6120000" 15]
      fine [of "0xC6336400" 24] fine [of "0xCB007100" 24] coarse [of "0xF0000000" 4] fine [of "0xFFFFFFFF" 32] coarse [of "0xE0000000" 4]
    by (auto simp: drop_bit_eq_div)
  have "a \<noteq> 0" using d by auto
  then show ?thesis using no by (simp add: non_public_def private4_def in_any_def)
qed

section \<open>Properties\<close>

text \<open>
  C23: An accepted URL cannot leave the directory it was allowed for. With an allowlist, an accepted URL
  has the scheme, host and port of one of its entries and continues the entry's path; when
  that path is a directory, then however often a server percent-decodes the rest of the path, the
  rest has no dot segment, no backslash and no separator that was not there before.
\<close>

theorem allowlisted_url_is_confined:
  assumes "policy_validate policy env url = Inr ()" and "op_allowlist policy \<noteq> []"
  shows "\<exists>u q v s h p base rest. urlparse (ne_nfkc env) url = Inr u \<and> q \<in> set (op_allowlist policy) \<and> urlparse (ne_nfkc env) q = Inr v
     \<and> canonical_url u = Inr (s, h, p, base @ rest) \<and> canonical_url v = Inr (s, h, p, base)
     \<and> (\<forall>dir k. base = dir @ ''/'' \<longrightarrow> (unquote ^^ k) (base @ rest) = (unquote ^^ k) dir @ ''/'' @ (unquote ^^ k) rest
          \<and> \<not> dot_segment ((unquote ^^ k) rest) \<and> CHR 0x5C \<notin> set ((unquote ^^ k) rest)
          \<and> count_list ((unquote ^^ k) rest) CHR ''/'' = count_list rest CHR ''/'')"
proof -
  obtain u h where u: "urlparse (ne_nfkc env) url = Inr u" "reject_ambiguous_path (up_path u) = Inr ()"
    "matches_prefix env url (op_allowlist policy) = Inr True"
    using policy_validate_accepts [OF assms(1)] assms(2) by blast
  obtain c where c: "canonical_url u = Inr c" "matches_any_prefix env c (op_allowlist policy) = Inr True"
    using u(1,3) by (auto simp: matches_prefix_def split: sum.splits)
  obtain s h p path where c4: "c = (s, h, p, path)" by (metis prod.exhaust)
  obtain q v base where q: "q \<in> set (op_allowlist policy)" "urlparse (ne_nfkc env) q = Inr v" "canonical_url v = Inr (s, h, p, base)" "prefix base path"
    using matches_any_prefix_found [OF c(2)] c4 by auto
  then obtain rest where path: "path = base @ rest" by (auto simp: prefix_def)
  have "reject_ambiguous_path_rounds 5 path = Inr ()"
    using u(2) canonical_url_path [OF c(1) [unfolded c4]] by (simp add: reject_ambiguous_path_def)
  then have "\<forall>dir k. base = dir @ ''/'' \<longrightarrow> (unquote ^^ k) (base @ rest) = (unquote ^^ k) dir @ ''/'' @ (unquote ^^ k) rest
          \<and> \<not> dot_segment ((unquote ^^ k) rest) \<and> CHR 0x5C \<notin> set ((unquote ^^ k) rest)
          \<and> count_list ((unquote ^^ k) rest) CHR ''/'' = count_list rest CHR ''/''"
    using accepted_path_below [of 5 _ rest] unfolding path by (metis append.assoc append_Cons append_Nil)
  then show ?thesis using u(1) q c(1) c4 path by blast
qed



text \<open>
  Callbacks go to accepted URLs only. An attempt to deliver to a URL that the policy refuses
  sends nothing and changes nothing, whatever the network would answer.
\<close>

theorem callback_to_refused_url_is_not_sent:
  assumes "policy_validate (callback_policy cs) net (cd_url delivery) = Inl e"
  shows "\<exists>e'. deliver_once (guarded_delivery cs net env) cs payload attempt (st, run, delivery) = ((st, run, delivery), Inl e')"
  using assms by (cases e) (simp_all add: deliver_once_def validate_url_def guarded_delivery_def)

text \<open>
  An explicit port hides a URL from the denylist. Ports are compared as written: no entry without
  a port matches a URL that names one, also when it is the default port of its scheme and the
  request goes to the very server that is denied.
\<close>

theorem denylist_misses_explicit_port:
  assumes "urlparse (ne_nfkc env) url = Inr u" and "port_number u = Inr (Some p)"
    and "\<forall>d \<in> set denied. \<exists>v. urlparse (ne_nfkc env) d = Inr v \<and> port_number v = Inr None \<and> reject_ambiguous_path (up_path v) = Inr ()"
  shows "matches_prefix env url denied = Inr False"
proof -
  obtain s h path where c: "canonical_url u = Inr (s, h, Some p, path)" using assms(2) by (simp add: canonical_url_def)
  have "matches_any_prefix env (s, h, Some p, path) denied = Inr False" using assms(3)
  proof (induction denied)
    case (Cons d ds)
    then obtain v where v: "urlparse (ne_nfkc env) d = Inr v" "port_number v = Inr None" "reject_ambiguous_path (up_path v) = Inr ()" by auto
    then show ?case using Cons by (auto simp: canonical_url_def reject_ambiguous_path_def)
  qed simp
  then show ?thesis using assms(1) c by (simp add: matches_prefix_def)
qed

text \<open>
  The parameters of the last segment are not checked. Acceptance does not depend on what follows
  a semicolon in the last segment, although it is part of the path that is requested: neither
  encoded separators nor dot segments are refused there.
\<close>

theorem path_parameters_unchecked:
  assumes "urlparse (ne_nfkc env) url = Inr u" and "urlparse (ne_nfkc env) url' = Inr (u\<lparr>up_params := params\<rparr>)"
  shows "policy_validate policy env url' = policy_validate policy env url"
proof -
  let ?v = "u\<lparr>up_params := params\<rparr>"
  have f: "up_scheme ?v = up_scheme u" "up_path ?v = up_path u" "hostname ?v = hostname u" "port_number ?v = port_number u"
    by (simp_all add: hostname_def port_number_def)
  have c: "canonical_url ?v = canonical_url u" unfolding canonical_url_def f ..
  note eq = f(1-3) c
  have m: "matches_prefix env url' ps = matches_prefix env url ps" for ps
    unfolding matches_prefix_def assms sum.case eq ..
  show ?thesis unfolding policy_validate_def assms sum.case eq m ..
qed

text \<open>
  Addresses of the shared address space 100.64.0.0/10, which some clouds use for internal
  services, count as public: a URL with such a host passes the check for private networks.
\<close>

theorem shared_address_space_is_reachable:
  assumes "ip_of_string host = Some (IPv4 a)" and "in_net 0x64400000 10 a"
  shows "reject_private_target env (Some host) = Inr ()"
  using assms by (simp add: reject_private_target_def target_addresses_def shared_space_public)

definition demo_net :: net_env where
  "demo_net = \<lparr>ne_nfkc = id, ne_getaddrinfo = (\<lambda>host. Inr [''8.8.8.8''])\<rparr>"

definition demo_url :: "string \<Rightarrow> string \<Rightarrow> string \<Rightarrow> url_parts" where
  "demo_url netloc path params = \<lparr>up_scheme = ''https'', up_netloc = netloc, up_path = path, up_params = params, up_query = [], up_fragment = []\<rparr>"

lemma demo_url_fields [simp]:
  "up_scheme (demo_url netloc path params) = ''https''" "up_netloc (demo_url netloc path params) = netloc"
  "up_path (demo_url netloc path params) = path"
  by (simp_all add: demo_url_def)

lemma demo_parses:
  "urlparse id ''https://ex.org/pub/a%25b'' = Inr (demo_url ''ex.org'' ''/pub/a%25b'' [])"
  "urlparse id ''https://ex.org/pub/'' = Inr (demo_url ''ex.org'' ''/pub/'' [])"
  "urlparse id ''https://ex.org/pub/a'' = Inr (demo_url ''ex.org'' ''/pub/a'' [])"
  "urlparse id ''https://ex.org/pub/a;%2f..%2f..%2fsecret'' = Inr (demo_url ''ex.org'' ''/pub/a'' ''%2f..%2f..%2fsecret'')"
  "urlparse id ''https://ex.org/'' = Inr (demo_url ''ex.org'' ''/'' [])"
  "urlparse id ''https://ex.org:443/x'' = Inr (demo_url ''ex.org:443'' ''/x'' [])"
  by code_simp+

lemma demo_paths:
  "reject_ambiguous_path ''/pub/a%25b'' = Inr ()" "reject_ambiguous_path ''/pub/'' = Inr ()" "reject_ambiguous_path ''/pub/a'' = Inr ()"
  "reject_ambiguous_path ''/'' = Inr ()" "reject_ambiguous_path ''/x'' = Inr ()"
  by code_simp+

lemma demo_digits:
  "hostinfo ''ex.org:443'' = (''ex.org'', Some ''443'')" "hostinfo ''ex.org'' = (''ex.org'', None)"
  "ip_of_string ''8.8.8.8'' = Some (IPv4 0x08080808)" "ip_of_string ''100.100.100.200'' = Some (IPv4 0x646464C8)"
  "parse_digits 0 ''443'' = Some 443" "list_all ascii_digit ''443''"
  by (simp_all add: hostinfo_def partition_at_def after_last_def ip_of_string_def ipv4_of_string_def parse_octet_def parse_digits.simps
      digit_value_def ascii_digit_def Let_def)

lemma demo_hosts:
  "hostname (demo_url ''ex.org:443'' path params) = Some ''ex.org''" "hostname (demo_url ''ex.org'' path params) = Some ''ex.org''"
  "port_number (demo_url ''ex.org:443'' path params) = Inr (Some 443)" "port_number (demo_url ''ex.org'' path params) = Inr None"
  by (simp_all add: hostname_def port_number_def demo_digits(1,2) partition_at_def str_lower_def char_lower_def digit_value_def
      ascii_digit_def Let_def)

lemma demo_canonical:
  "canonical_url (demo_url ''ex.org:443'' path params) = Inr (''https'', ''ex.org'', Some 443, if path = [] then ''/'' else path)"
  "canonical_url (demo_url ''ex.org'' path params) = Inr (''https'', ''ex.org'', None, if path = [] then ''/'' else path)"
  unfolding canonical_url_def demo_hosts by (simp_all add: demo_url_def str_lower_def char_lower_def)

lemma demo_target: "reject_private_target demo_net (Some ''ex.org'') = Inr ()"
proof -
  have "ip_of_string ''ex.org'' = None" and p: "\<not> non_public (IPv4 0x08080808)" by code_simp+
  then have "target_addresses demo_net ''ex.org'' = Inr [IPv4 0x08080808]"
    by (simp add: target_addresses_def resolve_dns_def demo_net_def usable_addresses_def List.map_filter_def demo_digits)
  then show ?thesis using p by (simp add: reject_private_target_def)
qed

lemma demo_net_nfkc: "ne_nfkc demo_net = id"
  by (simp add: demo_net_def)

lemmas demo_policy = policy_validate_def matches_prefix_def demo_net_nfkc demo_parses demo_hosts demo_canonical demo_paths demo_target default_policy_def

lemma demo_urls:
  "policy_validate (default_policy\<lparr>op_allowlist := [''https://ex.org/pub/'']\<rparr>) demo_net ''https://ex.org/pub/a%25b'' = Inr ()"
  "policy_validate default_policy demo_net ''https://ex.org:443/x'' = Inr ()"
  "policy_validate (default_policy\<lparr>op_denylist := [''https://ex.org/'']\<rparr>) demo_net ''https://ex.org:443/x'' = Inr ()"
  "policy_validate default_policy demo_net ''https://ex.org/pub/a'' = Inr ()"
  "matches_prefix demo_net ''https://ex.org:443/x'' [] = Inr False"
  by (simp_all add: demo_policy)

theorem allowlisted_url_is_confined_witness:
  "\<exists>u s h p base rest. urlparse id ''https://ex.org/pub/a%25b'' = Inr u \<and> canonical_url u = Inr (s, h, p, base @ rest) \<and> base = ''/pub/''
     \<and> \<not> dot_segment (unquote (unquote rest)) \<and> count_list (unquote (unquote rest)) CHR ''/'' = count_list rest CHR ''/''"
proof -
  let ?policy = "default_policy\<lparr>op_allowlist := [''https://ex.org/pub/'']\<rparr>"
  have "op_allowlist ?policy \<noteq> []" by simp
  from allowlisted_url_is_confined [OF demo_urls(1) this] obtain u q v s h p base rest where
    c: "urlparse (ne_nfkc demo_net) ''https://ex.org/pub/a%25b'' = Inr u" "q \<in> set (op_allowlist ?policy)" "urlparse (ne_nfkc demo_net) q = Inr v"
     "canonical_url u = Inr (s, h, p, base @ rest)" "canonical_url v = Inr (s, h, p, base)"
    and d: "\<forall>dir k. base = dir @ ''/'' \<longrightarrow> (unquote ^^ k) (base @ rest) = (unquote ^^ k) dir @ ''/'' @ (unquote ^^ k) rest
          \<and> \<not> dot_segment ((unquote ^^ k) rest) \<and> CHR 0x5C \<notin> set ((unquote ^^ k) rest)
          \<and> count_list ((unquote ^^ k) rest) CHR ''/'' = count_list rest CHR ''/''" by blast
  have "v = demo_url ''ex.org'' ''/pub/'' []" using c(2,3) by (simp add: demo_net_nfkc demo_parses)
  then have b: "base = ''/pub/''" using c(5) by (simp add: demo_canonical)
  have "base = ''/pub'' @ ''/''" by (simp add: b)
  then have "\<not> dot_segment ((unquote ^^ 2) rest) \<and> count_list ((unquote ^^ 2) rest) CHR ''/'' = count_list rest CHR ''/''" using d by blast
  moreover have "(unquote ^^ 2) rest = unquote (unquote rest)" by (simp add: numeral_2_eq_2)
  ultimately show ?thesis using c(1,4) b unfolding demo_net_nfkc by (metis (no_types))
qed


definition demo_file_client :: file_client where
  "demo_file_client = \<lparr>fc_files = [], fc_run_id = ''R'', fc_trace_id = ''T'', fc_url_allowlist = [], fc_max_file_size = 5, fc_fetch_timeout = 30,
     fc_allowed_mime_types = Some DEFAULT_ALLOWED_MIME_TYPES\<rparr>"

definition demo_file_env :: file_env where
  "demo_file_env = \<lparr>fe_net = demo_net, fe_get = (\<lambda>u t. Inr \<lparr>hr_status = 200, hr_raise = None, hr_content_length = None,
     hr_content_type = Some ''text/plain; charset=utf-8'', hr_chunks = [''abc'', ''d''], hr_broken = None\<rparr>), fe_clk = int\<rparr>"

lemma demo_fetch: "\<exists>logs'. file_fetch demo_file_env demo_file_client None (Some ''https://ex.org/pub/a'') None [] = (logs', Inr ''abcd'')"
proof -
  have p: "file_policy demo_file_client = default_policy" by (simp add: file_policy_def demo_file_client_def default_policy_def)
  have "media_type ''text/plain; charset=utf-8'' = ''text/plain''" "media_type ''text/plain'' = ''text/plain''" by code_simp+
  then have "check_headers demo_file_client None \<lparr>hr_status = 200, hr_raise = None, hr_content_length = None,
     hr_content_type = Some ''text/plain; charset=utf-8'', hr_chunks = [''abc'', ''d''], hr_broken = None\<rparr> = Inr ''text/plain''"
    by (simp add: check_headers_def validate_mime_type_def demo_file_client_def DEFAULT_ALLOWED_MIME_TYPES_def)
  then show ?thesis
    using demo_urls(4) by (simp add: file_fetch_def file_target_def p demo_file_env_def Let_def) (simp add: demo_file_client_def)
qed


theorem callback_to_refused_url_is_not_sent_witness:
  "let r = new_agent_run ''R'' ''T'' 0 ''t'' ''me'' ''q''; d = demo_delivery\<lparr>cd_url := ''http:///x''\<rparr>
   in \<exists>e. deliver_once (guarded_delivery demo_service demo_net (demo_env True)) demo_service [] 1 (demo_store r [d], r, d)
        = ((demo_store r [d], r, d), Inl e)"
proof -
  have "callback_policy demo_service = default_policy" by (simp add: callback_policy_def demo_service_def default_policy_def)
  moreover have "policy_validate default_policy demo_net ''http:///x'' = Inl (OutboundPolicyError ''Outbound URL host is required'')" by code_simp
  ultimately show ?thesis unfolding Let_def
    by (intro callback_to_refused_url_is_not_sent [where e = "OutboundPolicyError ''Outbound URL host is required''"]) simp
qed

theorem denylist_misses_explicit_port_witness:
  "matches_prefix demo_net ''https://ex.org:443/x'' [''https://ex.org/''] = Inr False
   \<and> policy_validate (default_policy\<lparr>op_denylist := [''https://ex.org/'']\<rparr>) demo_net ''https://ex.org:443/x'' = Inr ()"
proof -
  have "up_path (demo_url ''ex.org'' ''/'' []) = ''/''" by (simp add: demo_url_def)
  then show ?thesis
    using denylist_misses_explicit_port [of demo_net "''https://ex.org:443/x''" "demo_url ''ex.org:443'' ''/x'' []" 443 "[''https://ex.org/'']"]
    by (simp add: demo_net_nfkc demo_parses demo_hosts demo_paths demo_urls(3))
qed

theorem path_parameters_unchecked_witness:
  "policy_validate default_policy demo_net ''https://ex.org/pub/a;%2f..%2f..%2fsecret'' = Inr ()"
proof -
  have "demo_url ''ex.org'' ''/pub/a'' ''%2f..%2f..%2fsecret'' = (demo_url ''ex.org'' ''/pub/a'' [])\<lparr>up_params := ''%2f..%2f..%2fsecret''\<rparr>"
    by (simp add: demo_url_def)
  then show ?thesis
    using path_parameters_unchecked [of demo_net "''https://ex.org/pub/a''" "demo_url ''ex.org'' ''/pub/a'' []"] demo_parses(3,4) demo_urls(4)
    by (metis demo_net_nfkc)
qed

theorem shared_address_space_is_reachable_witness:
  "reject_private_target demo_net (Some ''100.100.100.200'') = Inr ()"
  by (rule shared_address_space_is_reachable [OF demo_digits(4)]) (simp add: in_net_def drop_bit_eq_div)

end
