(* ===== verification/Access_Control.thy ===== *)
theory Access_Control
  imports Resilience "HOL-Library.List_Lexorder"
begin

text \<open>
  Access to the HTTP interface: the API keys with their scopes (\<^verbatim>\<open>src/interfaces/http/auth.py\<close>) and
  the dependencies that guard the routers (\<^verbatim>\<open>src/interfaces/http/dependencies.py\<close>).

  The configuration is what \<^verbatim>\<open>AuthSection\<close> of \<^verbatim>\<open>src/interfaces/settings.py\<close> lets through: a key is a text
  or an object whose fields, when present, have the declared types. A set of scopes is a
  list without repetitions.

  The theorems: the last item of the configuration that names a key decides what the key may
  do; a guarded request passes only with such a grant and within the caller's rate, and a
  refused one changes nothing; an object with an empty list of scopes grants every scope.
\<close>

section \<open>API keys\<close>

record api_key_entry =
  ke_key :: string
  ke_name :: string
  ke_scopes :: "string list"
  ke_enabled :: bool

definition has_scope :: "string \<Rightarrow> api_key_entry \<Rightarrow> bool" where
  "has_scope required_scope e =
     (if \<not> ke_enabled e then False
      else if ''*'' \<in> set (ke_scopes e) then True
      else required_scope \<in> set (ke_scopes e))"

datatype key_scopes = ScopeText string | ScopeList "string list"

record key_object =
  ko_key :: "string option"
  ko_name :: "string option"
  ko_scopes :: "key_scopes option"
  ko_enabled :: "bool option"

datatype key_item = KeyText string | KeyObject key_object | OtherItem

datatype raw_keys = NoKeys | SingleKey string | KeyItems "key_item list" | OtherConfig

type_synonym api_keys = "(string \<times> api_key_entry) list"

definition object_scopes :: "key_object \<Rightarrow> string list" where
  "object_scopes ko =
     (let scopes = remdups (case ko_scopes ko of None \<Rightarrow> [''*'']
        | Some (ScopeText t) \<Rightarrow> filter (\<lambda>s. s \<noteq> []) (map str_strip (split_on CHR '','' t))
        | Some (ScopeList ss) \<Rightarrow> ss)
      in if scopes = [] then [''*''] else scopes)"

definition load_item :: "key_item \<Rightarrow> api_keys \<Rightarrow> api_keys" where
  "load_item item entries =
     (case item of
        KeyText k \<Rightarrow> AList.update k \<lparr>ke_key = k, ke_name = char_take 8 k, ke_scopes = [''*''], ke_enabled = True\<rparr> entries
      | KeyObject ko \<Rightarrow>
          (let key = (case ko_key ko of None \<Rightarrow> [] | Some k \<Rightarrow> k) in
           if key = [] then entries
           else AList.update key
             \<lparr>ke_key = key, ke_name = (case ko_name ko of None \<Rightarrow> char_take 8 key | Some n \<Rightarrow> n),
              ke_scopes = object_scopes ko, ke_enabled = (case ko_enabled ko of None \<Rightarrow> True | Some b \<Rightarrow> b)\<rparr> entries)
      | OtherItem \<Rightarrow> entries)"

definition load_keys :: "raw_keys \<Rightarrow> api_keys" where
  "load_keys raw_config =
     (case raw_config of
        NoKeys \<Rightarrow> []
      | SingleKey k \<Rightarrow> if k = [] then [] else fold load_item [KeyText k] []
      | KeyItems items \<Rightarrow> fold load_item items []
      | OtherConfig \<Rightarrow> [])"

definition reconfigure_keys :: "raw_keys \<Rightarrow> api_keys \<Rightarrow> api_keys" where
  "reconfigure_keys raw_config entries = load_keys raw_config"

definition authenticate :: "string option \<Rightarrow> api_keys \<Rightarrow> api_key_entry option" where
  "authenticate api_key entries =
     (case api_key of None \<Rightarrow> None
      | Some k \<Rightarrow> if k = [] then None
          else (case map_of entries k of None \<Rightarrow> None | Some e \<Rightarrow> if ke_enabled e then Some e else None))"

definition authorize :: "string option \<Rightarrow> string \<Rightarrow> api_keys \<Rightarrow> api_key_entry option" where
  "authorize api_key required_scope entries =
     (case authenticate api_key entries of None \<Rightarrow> None
      | Some e \<Rightarrow> if has_scope required_scope e then Some e else None)"

definition enabled_keys :: "api_keys \<Rightarrow> string list" where
  "enabled_keys entries = map fst (filter (\<lambda>(k, e). ke_enabled e) entries)"

definition is_configured :: "api_keys \<Rightarrow> bool" where
  "is_configured entries = (entries \<noteq> [])"

definition list_entries :: "api_keys \<Rightarrow> (string \<times> string list \<times> bool) list" where
  "list_entries entries = map (\<lambda>(k, e).
     (ke_name e, sort_key (map (of_char :: char \<Rightarrow> nat)) (ke_scopes e), ke_enabled e)) entries"

section \<open>Guards of the routers\<close>

text \<open>
  The part of \<^verbatim>\<open>app.state\<close> the guards read; \<open>gs_api_keys\<close> is the plain set of keys from which an
  application without a registry builds one, in its order of iteration.
\<close>

record guard_state =
  gs_registry :: "api_keys option"
  gs_api_keys :: "string list"
  gs_limiter :: rate_limiter
  gs_kanban_auth :: "bool option"

type_synonym http_error = "nat \<times> string"

definition guard_registry :: "guard_state \<Rightarrow> guard_state \<times> api_keys" where
  "guard_registry st =
     (case gs_registry st of Some reg \<Rightarrow> (st, reg)
      | None \<Rightarrow> let reg = load_keys (KeyItems (map KeyText (gs_api_keys st))) in (st\<lparr>gs_registry := Some reg\<rparr>, reg))"

definition rate_limited :: "rat \<Rightarrow> string option \<Rightarrow> guard_state \<Rightarrow> guard_state \<times> bool" where
  "rate_limited now x_api_key st =
     (if \<not> rl_enabled (gs_limiter st) then (st, False)
      else case is_allowed now (case x_api_key of None \<Rightarrow> ''anonymous'' | Some k \<Rightarrow> if k = [] then ''anonymous'' else k) (gs_limiter st) of
        (limiter, ok) \<Rightarrow> (st\<lparr>gs_limiter := limiter\<rparr>, \<not> ok))"

definition check_rate :: "rat \<Rightarrow> string option \<Rightarrow> guard_state \<Rightarrow> guard_state \<times> (http_error + unit)" where
  "check_rate now x_api_key st =
     (case rate_limited now x_api_key st of (st', limited) \<Rightarrow>
        (st', if limited then Inl (429, ''rate limit exceeded'') else Inr ()))"

definition scope_error :: "string \<Rightarrow> http_error" where
  "scope_error scope = (403, ''insufficient scope: requires '' @ [CHR 0x27] @ scope @ [CHR 0x27])"

definition require_api_key :: "rat \<Rightarrow> string option \<Rightarrow> guard_state \<Rightarrow> guard_state \<times> (http_error + unit)" where
  "require_api_key now x_api_key st0 =
     (case guard_registry st0 of (st, reg) \<Rightarrow>
        if \<not> is_configured reg \<or> authenticate x_api_key reg = None then (st, Inl (401, ''invalid API key''))
        else check_rate now x_api_key st)"

definition require_scope :: "string \<Rightarrow> rat \<Rightarrow> string option \<Rightarrow> guard_state \<Rightarrow> guard_state \<times> (http_error + unit)" where
  "require_scope scope now x_api_key st0 =
     (case guard_registry st0 of (st, reg) \<Rightarrow>
        if \<not> is_configured reg \<or> authorize x_api_key scope reg = None then (st, Inl (scope_error scope))
        else check_rate now x_api_key st)"

definition require_kanban_scope :: "string \<Rightarrow> rat \<Rightarrow> string option \<Rightarrow> guard_state \<Rightarrow> guard_state \<times> (http_error + unit)" where
  "require_kanban_scope scope now x_api_key st0 =
     (if gs_kanban_auth st0 = Some False then (st0, Inr ())
      else case guard_registry st0 of (st, reg) \<Rightarrow>
        if authorize x_api_key scope reg = None then (st, Inl (scope_error scope))
        else check_rate now x_api_key st)"

section \<open>What a configuration grants\<close>

fun item_key :: "key_item \<Rightarrow> string option" where
  "item_key (KeyText k) = Some k"
| "item_key (KeyObject ko) = (case ko_key ko of None \<Rightarrow> None | Some k \<Rightarrow> if k = [] then None else Some k)"
| "item_key OtherItem = None"

fun item_grants :: "string \<Rightarrow> key_item \<Rightarrow> bool" where
  "item_grants scope (KeyText k) = True"
| "item_grants scope (KeyObject ko) =
     (ko_enabled ko \<noteq> Some False \<and> (''*'' \<in> set (object_scopes ko) \<or> scope \<in> set (object_scopes ko)))"
| "item_grants scope OtherItem = False"

definition config_grants :: "string \<Rightarrow> string \<Rightarrow> key_item list \<Rightarrow> bool" where
  "config_grants k scope items =
     (k \<noteq> [] \<and> (case find (\<lambda>i. item_key i = Some k) (rev items) of None \<Rightarrow> False | Some i \<Rightarrow> item_grants scope i))"

lemma load_item_entry:
  "map_of (load_item item entries) k =
     (if item_key item = Some k then map_of (load_item item []) k else map_of entries k)"
  by (cases item) (auto simp: load_item_def Let_def update_conv' split: option.splits)

lemma load_item_grants:
  assumes "item_key item = Some k"
  shows "\<exists>e. map_of (load_item item []) k = Some e \<and> has_scope scope e = item_grants scope item"
proof (cases item)
  case (KeyObject ko)
  with assms have k: "ko_key ko = Some k" "k \<noteq> []" by (auto split: option.splits if_splits)
  let ?e = "\<lparr>ke_key = k, ke_name = (case ko_name ko of None \<Rightarrow> char_take 8 k | Some n \<Rightarrow> n),
     ke_scopes = object_scopes ko, ke_enabled = (case ko_enabled ko of None \<Rightarrow> True | Some b \<Rightarrow> b)\<rparr>"
  have "map_of (load_item item []) k = Some ?e" using k by (simp add: KeyObject load_item_def Let_def)
  moreover have "has_scope scope ?e = item_grants scope item"
    by (cases "ko_enabled ko") (auto simp: KeyObject has_scope_def)
  ultimately show ?thesis by blast
qed (use assms in \<open>auto simp: load_item_def has_scope_def\<close>)

lemma load_keys_entry:
  "map_of (fold load_item items []) k =
     (case find (\<lambda>i. item_key i = Some k) (rev items) of None \<Rightarrow> None | Some i \<Rightarrow> map_of (load_item i []) k)"
proof (induction items rule: rev_induct)
  case (snoc i items)
  show ?case
    using load_item_entry [of i "fold load_item items []" k] snoc by simp
qed simp

lemma authorize_iff:
  "authorize (Some k) scope (load_keys (KeyItems items)) \<noteq> None \<longleftrightarrow> config_grants k scope items"
proof (cases "find (\<lambda>i. item_key i = Some k) (rev items)")
  case None
  then show ?thesis
    by (simp add: authorize_def authenticate_def load_keys_def load_keys_entry config_grants_def)
next
  case (Some i)
  then have "item_key i = Some k" by (auto dest: find_SomeD)
  from load_item_grants [OF this, of scope] obtain e where
    e: "map_of (load_item i []) k = Some e" "has_scope scope e = item_grants scope i" by blast
  have "map_of (load_keys (KeyItems items)) k = Some e"
    using Some e(1) by (simp add: load_keys_def load_keys_entry)
  moreover have "has_scope scope e \<Longrightarrow> ke_enabled e" by (simp add: has_scope_def split: if_splits)
  ultimately show ?thesis
    using Some e(2) by (auto simp: authorize_def authenticate_def config_grants_def)
qed

lemma authorize_configured: "authorize key scope reg \<noteq> None \<Longrightarrow> is_configured reg"
  by (auto simp: authorize_def authenticate_def is_configured_def split: option.splits)

section \<open>Properties\<close>

text \<open>
  Requests pass by configured scope. A router guarded with a scope lets a request on to its rate
  check exactly when the last configured item of its key is enabled and grants the scope or
  every scope; any other request is answered 403 and changes nothing.
\<close>

theorem request_needs_scope:
  assumes "gs_registry st = Some (load_keys (KeyItems items))"
  shows "require_scope scope now key st =
    (if \<exists>k. key = Some k \<and> config_grants k scope items then check_rate now key st else (st, Inl (scope_error scope)))"
proof -
  let ?reg = "load_keys (KeyItems items)"
  have "authorize key scope ?reg \<noteq> None \<longleftrightarrow> (\<exists>k. key = Some k \<and> config_grants k scope items)"
    using authorize_iff [of _ scope items] by (cases key) (auto simp: authorize_def authenticate_def)
  then show ?thesis
    using authorize_configured [of key scope ?reg] assms by (auto simp: require_scope_def guard_registry_def)
qed

text \<open>
  An empty list of scopes is read as every scope. A key object that lists no scope, as an operator
  who revokes all rights of a key would write it, authorizes its key for each scope.
\<close>

theorem empty_scopes_grant_everything:
  assumes "ko_key ko = Some k" and "k \<noteq> []" and "ko_scopes ko = Some (ScopeList [])" and "ko_enabled ko \<noteq> Some False"
  shows "authorize (Some k) scope (load_keys (KeyItems (items @ [KeyObject ko]))) \<noteq> None"
  unfolding authorize_iff using assms by (simp add: config_grants_def object_scopes_def)

section \<open>Scope and rate together\<close>

text \<open>The number of requests with a key that pass the guard, in a sequence of requests of any callers.\<close>

fun guard_passes :: "string \<Rightarrow> string \<Rightarrow> (rat \<times> string option) list \<Rightarrow> guard_state \<Rightarrow> nat" where
  "guard_passes scope k [] st = 0"
| "guard_passes scope k ((now, key) # requests) st =
     (case require_scope scope now key st of (st', r) \<Rightarrow>
        (if key = Some k \<and> r = Inr () then 1 else 0) + guard_passes scope k requests st')"

definition limits_for :: "string \<Rightarrow> rate_limiter \<Rightarrow> rat \<times> rat" where
  "limits_for k rl = (let l = (case map_of (rl_callers rl) k of None \<Rightarrow> rl_default rl | Some l \<Rightarrow> l) in
     (case cl_capacity l of None \<Rightarrow> 100 | Some c \<Rightarrow> c, case cl_fill_rate l of None \<Rightarrow> 10 | Some f \<Rightarrow> f))"

definition bucket_at :: "rat \<Rightarrow> string \<Rightarrow> rate_limiter \<Rightarrow> token_bucket" where
  "bucket_at t k rl = (case map_of (rl_buckets rl) k of Some b \<Rightarrow> b | None \<Rightarrow> new_bucket t (fst (limits_for k rl)) (snd (limits_for k rl)))"

definition limiter_ready :: "rat \<Rightarrow> string \<Rightarrow> rate_limiter \<Rightarrow> bool" where
  "limiter_ready t k rl = (rl_enabled rl \<and> 0 \<le> fst (limits_for k rl) \<and> 0 \<le> snd (limits_for k rl)
     \<and> bucket_ok (bucket_at t k rl) \<and> tb_last_refill (bucket_at t k rl) \<le> t)"

definition budget :: "rat \<Rightarrow> token_bucket \<Rightarrow> rat" where
  "budget T b = tb_tokens b + (T - tb_last_refill b) * tb_fill_rate b"

lemma get_bucket_at:
  assumes "get_bucket now k rl = (b, rl1)"
  shows "b = bucket_at now k rl" and "\<And>k'. k' \<noteq> k \<Longrightarrow> map_of (rl_buckets rl1) k' = map_of (rl_buckets rl) k'"
    and "rl_enabled rl1 = rl_enabled rl" and "rl_callers rl1 = rl_callers rl" and "rl_default rl1 = rl_default rl"
proof -
  have "b = bucket_at now k rl \<and> (\<forall>k'. k' \<noteq> k \<longrightarrow> map_of (rl_buckets rl1) k' = map_of (rl_buckets rl) k')
     \<and> rl_enabled rl1 = rl_enabled rl \<and> rl_callers rl1 = rl_callers rl \<and> rl_default rl1 = rl_default rl"
  proof (cases "map_of (rl_buckets rl) k")
    case None
    then show ?thesis using assms by (auto simp: get_bucket_def bucket_at_def limits_for_def Let_def update_conv')
  next
    case (Some b')
    then show ?thesis using assms by (simp add: get_bucket_def bucket_at_def)
  qed
  then show "b = bucket_at now k rl" "\<And>k'. k' \<noteq> k \<Longrightarrow> map_of (rl_buckets rl1) k' = map_of (rl_buckets rl) k'"
    "rl_enabled rl1 = rl_enabled rl" "rl_callers rl1 = rl_callers rl" "rl_default rl1 = rl_default rl" by blast+
qed

lemma is_allowed_bucket:
  assumes "rl_enabled rl" and "is_allowed now k rl = (rl', ok)"
  shows "consume now 1 (bucket_at now k rl) = (bucket_at now k rl', ok)"
    and "rl_enabled rl'" and "\<And>k'. limits_for k' rl' = limits_for k' rl" and "\<And>k' t. k' \<noteq> k \<Longrightarrow> bucket_at t k' rl' = bucket_at t k' rl"
proof -
  obtain b rl1 where g: "get_bucket now k rl = (b, rl1)" by fastforce
  obtain b' ok' where c: "consume now 1 b = (b', ok')" by fastforce
  have rl': "rl' = rl1\<lparr>rl_buckets := AList.update k b' (rl_buckets rl1)\<rparr>" "ok = ok'"
    using assms by (auto simp: is_allowed_def g c)
  note f = get_bucket_at [OF g]
  show "consume now 1 (bucket_at now k rl) = (bucket_at now k rl', ok)"
    using c by (simp add: f(1) rl' bucket_at_def update_conv')
  show "rl_enabled rl'" using assms(1) by (simp add: rl' f(3))
  have fields: "rl_callers rl' = rl_callers rl" "rl_default rl' = rl_default rl" using f(4,5) by (simp_all add: rl')
  show lim: "limits_for k' rl' = limits_for k' rl" for k' unfolding limits_for_def fields ..
  show "bucket_at t k' rl' = bucket_at t k' rl" if "k' \<noteq> k" for k' t
    using that f(2) [OF that] unfolding bucket_at_def lim by (simp add: rl' update_conv')
qed

lemma bucket_at_later:
  assumes "limiter_ready t k rl" and "t \<le> now"
  shows "limiter_ready now k rl" and "now \<le> T \<Longrightarrow> budget T (bucket_at now k rl) \<le> budget T (bucket_at t k rl)"
proof -
  have "limiter_ready now k rl \<and> (now \<le> T \<longrightarrow> budget T (bucket_at now k rl) \<le> budget T (bucket_at t k rl))"
  proof (cases "map_of (rl_buckets rl) k")
    case None
    then show ?thesis
      using assms by (simp add: limiter_ready_def bucket_at_def budget_def new_bucket_def bucket_ok_def mult_right_mono)
  next
    case (Some b)
    then show ?thesis using assms by (simp add: limiter_ready_def bucket_at_def)
  qed
  then show "limiter_ready now k rl" "now \<le> T \<Longrightarrow> budget T (bucket_at now k rl) \<le> budget T (bucket_at t k rl)" by blast+
qed

lemma budget_nonneg: "limiter_ready t k rl \<Longrightarrow> t \<le> T \<Longrightarrow> 0 \<le> budget T (bucket_at t k rl)"
  by (simp add: limiter_ready_def budget_def bucket_ok_def)

lemma limiter_ready_step:
  assumes "limiter_ready now k rl" and "is_allowed now k' rl = (rl', ok)" and "now \<le> T"
  shows "limiter_ready now k rl'"
    and "budget T (bucket_at now k rl') + (if k' = k \<and> ok then 1 else 0) \<le> budget T (bucket_at now k rl)"
proof -
  have e: "rl_enabled rl" using assms(1) by (simp add: limiter_ready_def)
  note b = is_allowed_bucket [OF e assms(2)]
  have "limiter_ready now k rl' \<and> budget T (bucket_at now k rl') + (if k' = k \<and> ok then 1 else 0) \<le> budget T (bucket_at now k rl)"
  proof (cases "k' = k")
    case True
    let ?b = "bucket_at now k rl"
    have c: "consume now 1 ?b = (bucket_at now k rl', ok)" using b(1) True by simp
    have f: "tb_fill_rate (bucket_at now k rl') = tb_fill_rate ?b" "tb_last_refill (bucket_at now k rl') = now"
      using consume_fields [of now 1 ?b] c by simp_all
    have "bucket_ok (bucket_at now k rl')"
      using consume_ok [of ?b now 1] assms(1) c by (simp add: limiter_ready_def)
    moreover have "tb_tokens (bucket_at now k rl') + (if ok then 1 else 0) \<le> tb_tokens ?b + (now - tb_last_refill ?b) * tb_fill_rate ?b"
      using consume_spends [of now 1 ?b] c by simp
    ultimately show ?thesis
      using b(2,3) f assms(1) True by (simp add: limiter_ready_def budget_def algebra_simps)
  next
    case False
    then have "bucket_at now k rl' = bucket_at now k rl" using b(4) [of k now] by simp
    then show ?thesis using False b(2,3) assms(1) by (simp add: limiter_ready_def)
  qed
  then show "limiter_ready now k rl'"
    "budget T (bucket_at now k rl') + (if k' = k \<and> ok then 1 else 0) \<le> budget T (bucket_at now k rl)" by blast+
qed

lemma require_scope_step:
  assumes "gs_registry st = Some reg" and "rl_enabled (gs_limiter st)" and "require_scope scope now key st = (st', r)"
  obtains (refused) "authorize key scope reg = None" and "st' = st" and "r = Inl (scope_error scope)"
    | (checked) k ok where "key = Some k" and "authorize key scope reg \<noteq> None" and "gs_registry st' = Some reg"
        and "is_allowed now k (gs_limiter st) = (gs_limiter st', ok)" and "r = (if ok then Inr () else Inl (429, ''rate limit exceeded''))"
proof (cases "authorize key scope reg = None")
  case True
  then show ?thesis using refused assms by (auto simp: require_scope_def guard_registry_def)
next
  case False
  then obtain k where k: "key = Some k" "k \<noteq> []" by (auto simp: authorize_def authenticate_def split: option.splits if_splits)
  obtain limiter ok where a: "is_allowed now k (gs_limiter st) = (limiter, ok)" by fastforce
  have "require_scope scope now key st
      = (st\<lparr>gs_limiter := limiter\<rparr>, if ok then Inr () else Inl (429, ''rate limit exceeded''))"
    using assms(1,2) False authorize_configured [OF False] a k
    by (cases ok) (auto simp: require_scope_def guard_registry_def check_rate_def rate_limited_def)
  then show ?thesis using checked [OF k(1) False, of ok] assms(1,3) a by auto
qed


section \<open>Witnesses\<close>

definition demo_keys :: "key_item list" where
  "demo_keys = [KeyText ''k'', KeyObject \<lparr>ko_key = Some ''k'', ko_name = None, ko_scopes = Some (ScopeText ''runs, operations''), ko_enabled = None\<rparr>]"

definition demo_guard :: guard_state where
  "demo_guard = \<lparr>gs_registry = Some (load_keys (KeyItems demo_keys)), gs_api_keys = [],
     gs_limiter = \<lparr>rl_enabled = True, rl_callers = [], rl_default = \<lparr>cl_capacity = Some 1, cl_fill_rate = Some 1\<rparr>, rl_buckets = []\<rparr>,
     gs_kanban_auth = None\<rparr>"

lemma demo_grants: "config_grants ''k'' ''runs'' demo_keys" "\<not> config_grants ''k'' ''admin'' demo_keys"
  by code_simp+

theorem request_needs_scope_witness:
  "require_scope ''runs'' 0 (Some ''k'') demo_guard = check_rate 0 (Some ''k'') demo_guard
   \<and> require_scope ''admin'' 0 (Some ''k'') demo_guard = (demo_guard, Inl (scope_error ''admin''))"
proof -
  have "gs_registry demo_guard = Some (load_keys (KeyItems demo_keys))" by (simp add: demo_guard_def)
  then show ?thesis using request_needs_scope [of demo_guard demo_keys] demo_grants by simp
qed

theorem empty_scopes_grant_everything_witness:
  "authorize (Some ''k'') ''admin'' (load_keys (KeyItems [KeyObject \<lparr>ko_key = Some ''k'', ko_name = None, ko_scopes = Some (ScopeList []), ko_enabled = None\<rparr>])) \<noteq> None"
  using empty_scopes_grant_everything
    [of "\<lparr>ko_key = Some ''k'', ko_name = None, ko_scopes = Some (ScopeList []), ko_enabled = None\<rparr>" "''k''" "''admin''" "[]"] by simp


end
