(* ===== verification/Hooks.thy ===== *)
theory Hooks
  imports Tool_Gateway Codec
begin

text \<open>
  Lifecycle hooks (\<^verbatim>\<open>src/framework/tool/hooks.py\<close>). A call of a hook method is an event with its
  arguments, so that a hooks object is one function: \<^verbatim>\<open>RunHooks\<close> does nothing, \<^verbatim>\<open>CompositeHooks\<close> passes an
  event to its hooks in order until one raises, \<^verbatim>\<open>LoggingHooks\<close> writes one log event.

  The locale \<open>observing_hooks\<close> is the contract of hooks that only observe: they append to the run log and
  raise nothing. It is interpreted for the logging hooks and for every composition of them.
\<close>

section \<open>Events\<close>

datatype hook_event =
    Run_Enqueued hook_context
  | Run_Dequeued hook_context
  | Run_End hook_context "dict option" "py_exc option"
  | Agent_Start hook_context dict
  | Agent_End hook_context json
  | Agent_Error hook_context py_exc
  | Stage_Start stage_context
  | Stage_End stage_context "json option" "py_exc option"
  | Tool_Start hook_context string dict
  | Tool_End hook_context string "dict option" "py_exc option"
  | Llm_Start hook_context string string
  | Llm_End hook_context string string "(string \<times> int) list"
  | Callback_Start hook_context string
  | Callback_End hook_context string bool "py_exc option"

type_synonym run_hooks = "hook_event \<Rightarrow> world \<Rightarrow> world \<times> py_exc option"

definition no_op_hooks :: run_hooks where
  "no_op_hooks ev w = (w, None)"

section \<open>Composition\<close>

fun composite_hooks :: "run_hooks list \<Rightarrow> run_hooks" where
  "composite_hooks [] ev w = (w, None)"
| "composite_hooks (h # hs) ev w =
     (case h ev w of (w1, Some e) \<Rightarrow> (w1, Some e) | (w1, None) \<Rightarrow> composite_hooks hs ev w1)"

definition add_hook :: "run_hooks \<Rightarrow> run_hooks list \<Rightarrow> run_hooks list" where
  "add_hook h hs = hs @ [h]"

section \<open>Logging\<close>

record hook_env =
  he_now :: datetime
  he_text :: "json \<Rightarrow> string"

definition hook_log :: "hook_env \<Rightarrow> hook_context \<Rightarrow> string \<Rightarrow> string \<Rightarrow> string \<Rightarrow> dict \<Rightarrow> world \<Rightarrow> world \<times> py_exc option" where
  "hook_log env ctx component event_type message data w =
     (w\<lparr>w_store := (w_store w)\<lparr>s_logs := logs_add
        \<lparr>le_run_id = Some (hk_run_id ctx), le_trace_id = hk_trace_id ctx, le_component = component, le_event_type = event_type,
         le_level = ''INFO'', le_message = message, le_data = data, le_create_time = he_now env\<rparr> (s_logs (w_store w))\<rparr>\<rparr>, None)"

definition agent_label :: "hook_context \<Rightarrow> string" where
  "agent_label ctx = hk_agent_name ctx @ ''@'' @ hk_agent_version ctx"

definition summary200 :: "hook_env \<Rightarrow> json \<Rightarrow> json" where
  "summary200 env j = JStr (char_take 200 (str_with (he_text env) j))"

fun logging_hooks :: "hook_env \<Rightarrow> run_hooks" where
  "logging_hooks env (Run_Enqueued ctx) w = hook_log env ctx ''run_api'' ''run_enqueued'' ''Task enqueued''
     [(''route_tag'', JStr (hk_route_tag ctx)), (''agent'', JStr (hk_agent_name ctx)), (''status'', JStr ''QUEUED'')] w"
| "logging_hooks env (Run_Dequeued ctx) w = hook_log env ctx ''scheduler'' ''run_dequeued'' ''Task admitted by scheduler''
     [(''agent'', JStr (hk_agent_name ctx)), (''route_tag'', JStr (hk_route_tag ctx)), (''caller'', hk_caller ctx)] w"
| "logging_hooks env (Run_End ctx result (Some e)) w = hook_log env ctx ''run_manager'' ''run_failed'' ''Task failed''
     [(''error'', JStr (exc_text e))] w"
| "logging_hooks env (Run_End ctx result None) w = hook_log env ctx ''run_manager'' ''run_finished'' ''Task finished''
     [(''result_summary'', case result of None \<Rightarrow> JNull | Some d \<Rightarrow> if d = [] then JNull else summary200 env (JObj d))] w"
| "logging_hooks env (Agent_Start ctx input_data) w = hook_log env ctx ''agent_runtime'' ''agent_started'' (''Agent '' @ agent_label ctx @ '' started'')
     [(''agent'', JStr (hk_agent_name ctx)), (''version'', JStr (hk_agent_version ctx))] w"
| "logging_hooks env (Agent_End ctx out) w = hook_log env ctx ''agent_runtime'' ''agent_succeeded'' (''Agent '' @ agent_label ctx @ '' succeeded'')
     [(''output_summary'', summary200 env out)] w"
| "logging_hooks env (Agent_Error ctx e) w = (w, None)"
| "logging_hooks env (Stage_Start ctx) w = (w, None)"
| "logging_hooks env (Stage_End ctx out e) w = (w, None)"
| "logging_hooks env (Tool_Start ctx tool input_data) w = hook_log env ctx ''tool_gateway'' ''tool_call_started'' (''Calling tool '' @ tool)
     [(''tool'', JStr tool), (''input'', JObj input_data)] w"
| "logging_hooks env (Tool_End ctx tool out (Some e)) w = hook_log env ctx ''tool_gateway'' ''tool_call_failed'' (''Tool '' @ tool @ '' failed'')
     [(''tool'', JStr tool), (''error'', JStr (exc_text e))] w"
| "logging_hooks env (Tool_End ctx tool out None) w = hook_log env ctx ''tool_gateway'' ''tool_call_succeeded'' (''Tool '' @ tool @ '' succeeded'')
     [(''tool'', JStr tool), (''output'', jnullable JObj out)] w"
| "logging_hooks env (Llm_Start ctx model prompt_summary) w = hook_log env ctx ''model_gateway'' ''llm_call_started'' ''LLM call started''
     [(''model'', JStr model)] w"
| "logging_hooks env (Llm_End ctx model output_summary usage) w = hook_log env ctx ''model_gateway'' ''llm_call_succeeded'' ''LLM call succeeded''
     [(''model'', JStr model), (''usage'', JObj (map (\<lambda>(k, n). (k, jint n)) usage))] w"
| "logging_hooks env (Callback_Start ctx url) w = hook_log env ctx ''callback_service'' ''callback_started'' ''Dispatching callback'' [(''url'', JStr url)] w"
| "logging_hooks env (Callback_End ctx url success (Some e)) w = hook_log env ctx ''callback_service'' ''callback_failed'' ''Callback dispatch failed''
     [(''url'', JStr url), (''error'', JStr (exc_text e))] w"
| "logging_hooks env (Callback_End ctx url success None) w = hook_log env ctx ''callback_service'' ''callback_succeeded'' ''Callback delivered''
     [(''url'', JStr url)] w"

section \<open>The order of a composition\<close>

lemma composite_append:
  "composite_hooks (hs @ gs) ev w =
     (case composite_hooks hs ev w of (w1, Some e) \<Rightarrow> (w1, Some e) | (w1, None) \<Rightarrow> composite_hooks gs ev w1)"
  by (induction hs arbitrary: w) (auto split: prod.split option.split)

lemma composite_no_op: "composite_hooks (hs @ no_op_hooks # gs) = composite_hooks (hs @ gs)"
  by (intro ext) (simp add: composite_append no_op_hooks_def split: prod.split option.split)

text \<open>The hooks after one that raises do not see the event.\<close>

lemma composite_raises_iff:
  "composite_hooks hs ev w = (w', Some e) \<longleftrightarrow>
     (\<exists>before h after w1. hs = before @ h # after \<and> composite_hooks before ev w = (w1, None) \<and> h ev w1 = (w', Some e))"
proof
  show "composite_hooks hs ev w = (w', Some e) \<Longrightarrow>
     \<exists>before h after w1. hs = before @ h # after \<and> composite_hooks before ev w = (w1, None) \<and> h ev w1 = (w', Some e)"
  proof (induction hs arbitrary: w)
    case (Cons h hs)
    obtain w1 r where h: "h ev w = (w1, r)" by fastforce
    show ?case
    proof (cases r)
      case None
      with Cons.prems h have "composite_hooks hs ev w1 = (w', Some e)" by simp
      from Cons.IH [OF this] obtain bs g as w2 where "hs = bs @ g # as" "composite_hooks bs ev w1 = (w2, None)" "g ev w2 = (w', Some e)"
        by blast
      then have "h # hs = (h # bs) @ g # as \<and> composite_hooks (h # bs) ev w = (w2, None) \<and> g ev w2 = (w', Some e)"
        using h None by simp
      then show ?thesis by blast
    next
      case (Some e')
      then have "h # hs = [] @ h # hs \<and> composite_hooks [] ev w = (w, None) \<and> h ev w = (w', Some e)" using Cons.prems h by simp
      then show ?thesis by blast
    qed
  qed simp
qed (auto simp: composite_append)

section \<open>Hooks that only observe\<close>

definition with_logs :: "log_event list \<Rightarrow> world \<Rightarrow> world" where
  "with_logs es w = w\<lparr>w_store := (w_store w)\<lparr>s_logs := s_logs (w_store w) @ es\<rparr>\<rparr>"

lemma with_logs_nil [simp]: "with_logs [] w = w"
  by (simp add: with_logs_def)

lemma with_logs_append [simp]: "with_logs es (with_logs ds w) = with_logs (ds @ es) w"
  by (simp add: with_logs_def)

locale observing_hooks =
  fixes hooks :: run_hooks
  assumes observes: "\<exists>es. hooks ev w = (with_logs es w, None)"
begin

lemma raises_nothing: "snd (hooks ev w) = None"
  using observes [of ev w] by auto

lemma keeps_runs: "s_runs (w_store (fst (hooks ev w))) = s_runs (w_store w)"
  using observes [of ev w] by (auto simp: with_logs_def)

lemma keeps_stages: "stages_of (fst (hooks ev w)) = stages_of w"
  using observes [of ev w] by (auto simp: with_logs_def stages_of_def)

text \<open>In a composition it delays nobody: the hooks around it see the event as without it, but for the log.\<close>

lemma next_hooks_see: "\<exists>es. composite_hooks (hooks # hs) ev w = composite_hooks hs ev (with_logs es w)"
proof -
  obtain es where "hooks ev w = (with_logs es w, None)" using observes by blast
  then show ?thesis by auto
qed

end

lemma hook_log_observes: "\<exists>es. hook_log env ctx c t m d w = (with_logs es w, None)"
  unfolding hook_log_def with_logs_def logs_add_def by blast

interpretation logging: observing_hooks "logging_hooks env" for env
proof
  have idle: "\<exists>es. (w, None) = (with_logs es w, None :: py_exc option)" for w by (intro exI [of _ "[]"]) simp
  show "\<exists>es. logging_hooks env ev w = (with_logs es w, None)" for ev w
    using hook_log_observes idle by (cases ev; (rename_tac e, case_tac e)?) simp_all
qed

lemma composite_observes:
  assumes "\<forall>h \<in> set hs. observing_hooks h"
  shows "observing_hooks (composite_hooks hs)"
proof
  show "\<exists>es. composite_hooks hs ev w = (with_logs es w, None)" for ev w
    using assms
  proof (induction hs arbitrary: w)
    case Nil
    show ?case by (intro exI [of _ "[]"]) simp
  next
    case (Cons h hs)
    obtain es where "h ev w = (with_logs es w, None)" using Cons.prems observing_hooks.observes [of h ev w] by auto
    moreover obtain ds where "composite_hooks hs ev (with_logs es w) = (with_logs ds (with_logs es w), None)"
      using Cons.IH [of "with_logs es w"] Cons.prems by auto
    ultimately have "composite_hooks (h # hs) ev w = (with_logs (es @ ds) w, None)" by simp
    then show ?case by blast
  qed
qed

interpretation logging_composite: observing_hooks "composite_hooks (map logging_hooks envs)" for envs
  by (rule composite_observes) (use logging.observing_hooks_axioms in auto)

end
