(* ===== verification/Agent_Runtime.thy ===== *)
theory Agent_Runtime
  imports Hooks Skill_Session Outbound_Policy
begin

text \<open>
  The engine that runs an agent (\<^verbatim>\<open>src/framework/runtime/agent_runtime.py\<close>): the adapter chosen by the agent's
  runtime configuration, the Skill session with its audit log, the context with the file client,
  the lifecycle hooks around the adapter and the log events of the run.

  What an adapter does is a parameter on its class, the context and the world; so is what importing
  a Python agent raises. The theorems: hooks that fail change nothing about the outcome of
  an agent; beside the adapter the runtime only appends to the run log, which tells how the
  agent ended; and what it logs of an output depends on the names of its fields only.
\<close>

section \<open>Choosing the adapter\<close>

datatype agent_impl =
    Echo_Agent
  | Failing_Agent
  | Pi_Agent dict
  | Model_Gateway_Agent dict
  | Http_Agent dict "rat option"
  | Python_Agent string string
  | Subprocess_Agent dict

record runtime_env =
  ru_clk :: "nat \<Rightarrow> datetime"
  ru_loader :: loader
  ru_skills :: "skill_registry option"
  ru_dumps :: "(string \<times> string) list list \<Rightarrow> string"
  ru_hooks :: "run_hooks option"
  ru_http_client :: bool
  ru_import :: "string \<Rightarrow> string \<Rightarrow> py_exc option"
  ru_text :: "json \<Rightarrow> string"
  ru_adapter :: "agent_impl \<Rightarrow> agent_context \<Rightarrow> file_client \<Rightarrow> skill_session option \<Rightarrow> dict \<Rightarrow> world \<Rightarrow> world \<times> (py_exc + json)"

definition agent_title :: "agent_spec \<Rightarrow> string" where
  "agent_title agent = as_name agent @ ''@'' @ as_version agent"

text \<open>\<open>clients\<close> are the timeouts for which the runtime has made an HTTP client of its own.\<close>

definition http_client_for_runtime :: "runtime_env \<Rightarrow> dict \<Rightarrow> rat list \<Rightarrow> rat list \<times> (py_exc + rat option)" where
  "http_client_for_runtime env runtime clients =
     (if ru_http_client env then (clients, Inr None)
      else case py_float (dict_get_or ''timeout_seconds'' (JNum 60) runtime) of Inl e \<Rightarrow> (clients, Inl e)
      | Inr timeout \<Rightarrow> (if timeout \<in> set clients then clients else clients @ [timeout], Inr (Some timeout)))"

definition load_python :: "runtime_env \<Rightarrow> json \<Rightarrow> py_exc + agent_impl" where
  "load_python env target =
     (case target of
        JStr s \<Rightarrow> (case partition_at CHR '':'' s of
            (_, None) \<Rightarrow> Inl (ValueError ''not enough values to unpack (expected 2, got 1)'')
          | (module_name, Some factory_name) \<Rightarrow>
              (case ru_import env module_name factory_name of Some e \<Rightarrow> Inl e | None \<Rightarrow> Inr (Python_Agent module_name factory_name)))
      | _ \<Rightarrow> Inl (attribute_error target ''split''))"

definition load_agent :: "runtime_env \<Rightarrow> agent_spec \<Rightarrow> rat list \<Rightarrow> rat list \<times> (py_exc + agent_impl)" where
  "load_agent env agent clients =
     (let runtime = as_runtime agent;
          type_of = dict_get_or ''type'' JNull runtime;
          runtime_type = json_or type_of (dict_get_or ''protocol'' JNull runtime)
      in if runtime = [] then (clients, Inl (ValueError (''Agent '' @ agent_title agent @ '' is missing runtime configuration'')))
         else if type_of = JStr ''echo'' then (clients, Inr Echo_Agent)
         else if runtime_type = JStr ''fail'' then (clients, Inr Failing_Agent)
         else if runtime_type = JStr ''pi'' then (clients, Inr (Pi_Agent runtime))
         else if runtime_type = JStr ''openai_agents''
         then (clients, Inl (ValueError
           ''openai_agents was replaced by pi; migrate the Agent registration using docs/guides/pi-runtime.md''))
         else if runtime_type = JStr ''model_gateway'' then (clients, Inr (Model_Gateway_Agent runtime))
         else if runtime_type = JStr ''http''
         then (case http_client_for_runtime env runtime clients of
             (clients', Inl e) \<Rightarrow> (clients', Inl e) | (clients', Inr client) \<Rightarrow> (clients', Inr (Http_Agent runtime client)))
         else if runtime_type = JStr ''python''
         then (clients, case subscript ''target'' runtime of Inl e \<Rightarrow> Inl e | Inr target \<Rightarrow> load_python env target)
         else (case runtime_type of
             JList _ \<Rightarrow> (clients, Inl (TypeError (''unhashable type: '' @ py_repr ''list'')))
           | JObj _ \<Rightarrow> (clients, Inl (TypeError (''unhashable type: '' @ py_repr ''dict'')))
           | _ \<Rightarrow> (clients,
               if runtime_type \<in> {JStr ''python_subprocess'', JStr ''python_isolated''} then Inr (Subprocess_Agent runtime)
               else Inl (ValueError (''Unsupported agent runtime '' @ ru_text env (JObj runtime))))))"

section \<open>Log, audit and hooks\<close>

definition runtime_log ::
    "runtime_env \<Rightarrow> string \<Rightarrow> string \<Rightarrow> nat \<Rightarrow> string \<Rightarrow> string \<Rightarrow> string \<Rightarrow> string \<Rightarrow> dict \<Rightarrow> world \<Rightarrow> world" where
  "runtime_log env run_id trace_id t component event_type level message data w =
     w\<lparr>w_store := (w_store w)\<lparr>s_logs := logs_add
        \<lparr>le_run_id = Some run_id, le_trace_id = trace_id, le_component = component, le_event_type = event_type,
         le_level = level, le_message = message, le_data = data, le_create_time = ru_clk env t\<rparr> (s_logs (w_store w))\<rparr>\<rparr>"

definition agent_log :: "runtime_env \<Rightarrow> agent_run \<Rightarrow> nat \<Rightarrow> string \<Rightarrow> string \<Rightarrow> dict \<Rightarrow> world \<Rightarrow> world" where
  "agent_log env run t event_type message data w =
     runtime_log env (ar_run_id run) (ar_trace_id run) t ''agent_runtime'' event_type ''INFO'' message data w"

definition json_name :: "runtime_env \<Rightarrow> dict \<Rightarrow> string \<Rightarrow> string \<Rightarrow> string" where
  "json_name env data k dflt = str_with (ru_text env) (json_or (dict_get_or k JNull data) (JStr dflt))"

definition audit_message :: "runtime_env \<Rightarrow> string \<Rightarrow> dict \<Rightarrow> string" where
  "audit_message env event_type data =
     (let skill_name = json_name env data ''name'' ''skill'';
          script_name = (case dict_get_or ''script'' JNull data of JNull \<Rightarrow> ''None'' | j \<Rightarrow> str_with (ru_text env) j)
      in if event_type = ''skill_activated'' then ''Skill '' @ skill_name @ '' activated''
         else if event_type = ''skill_activation_denied'' then ''Skill '' @ skill_name @ '' activation denied''
         else if event_type = ''skill_resource_read'' then ''Skill '' @ skill_name @ '' resource read''
         else if event_type = ''skill_catalog_truncated'' then ''Skill catalog truncated''
         else if event_type = ''skill_script_started'' then ''Skill script '' @ script_name @ '' started''
         else if event_type = ''skill_script_succeeded'' then ''Skill script '' @ script_name @ '' succeeded''
         else if event_type = ''skill_script_failed'' then ''Skill script '' @ script_name @ '' failed''
         else ''Skill event '' @ event_type)"

definition skill_audit :: "runtime_env \<Rightarrow> agent_run \<Rightarrow> string \<times> dict \<Rightarrow> world \<Rightarrow> world" where
  "skill_audit env run ev w =
     (case ev of (event_type, data) \<Rightarrow>
        runtime_log env (ar_run_id run) (ar_trace_id run) 0 ''skill_session'' event_type
          (if event_type \<in> {''skill_catalog_truncated'', ''skill_activation_denied'', ''skill_script_failed''} then ''WARNING'' else ''INFO'')
          (audit_message env event_type data) data w)"

text \<open>\<^const>\<open>None\<close> is the session of a runtime without Skills.\<close>

definition create_skill_session ::
    "runtime_env \<Rightarrow> agent_spec \<Rightarrow> agent_run \<Rightarrow> world \<Rightarrow> world \<times> (py_exc + skill_session option)" where
  "create_skill_session env agent run w =
     (case ru_skills env of None \<Rightarrow> (w, Inr None)
      | Some reg \<Rightarrow>
          (case open_session (ru_loader env) reg (ar_run_id run) agent (ar_skill_snapshots run) 8 20000 of
             (events, r) \<Rightarrow> (fold (skill_audit env run) events w, case r of Inl e \<Rightarrow> Inl e | Inr se \<Rightarrow> Inr (Some se))))"

definition session_provenance :: "skill_session option \<Rightarrow> (string \<times> string) list list" where
  "session_provenance so = (case so of None \<Rightarrow> [] | Some se \<Rightarrow> resolved_provenance se)"

definition session_hash :: "runtime_env \<Rightarrow> skill_session option \<Rightarrow> string" where
  "session_hash env so = (case so of None \<Rightarrow> ld_sha (ru_loader env) ''[]'' | Some se \<Rightarrow> snapshot_hash (ru_loader env) (ru_dumps env) se)"

text \<open>A hook that raises an \<^verbatim>\<open>Exception\<close> is logged; \<^verbatim>\<open>asyncio.CancelledError\<close> passes.\<close>

definition safe_hook :: "runtime_env \<Rightarrow> hook_context \<Rightarrow> nat \<Rightarrow> string \<Rightarrow> hook_event \<Rightarrow> world \<Rightarrow> world \<times> py_exc option" where
  "safe_hook env hk t nm ev w =
     (case ru_hooks env of None \<Rightarrow> (w, None)
      | Some hooks \<Rightarrow>
          (case hooks ev w of
             (w1, None) \<Rightarrow> (w1, None)
           | (w1, Some e) \<Rightarrow> if e = CancelledError then (w1, Some e)
               else (runtime_log env (hk_run_id hk) (hk_trace_id hk) t ''agent_runtime'' ''lifecycle_hook_failed'' ''INFO''
                       (''Lifecycle hook '' @ nm @ '' failed'') [(''hook'', JStr nm), (''error_type'', JStr (exc_name e))] w1, None)))"

section \<open>Running an agent\<close>

definition texts_in :: "json \<Rightarrow> string list" where
  "texts_in j = (case j of JList xs \<Rightarrow> List.map_filter (\<lambda>x. case x of JStr s \<Rightarrow> Some s | _ \<Rightarrow> None) xs | _ \<Rightarrow> [])"

definition file_client_for :: "agent_spec \<Rightarrow> agent_run \<Rightarrow> py_exc + file_client" where
  "file_client_for agent run =
     (let runtime = as_runtime agent in
      case py_int (dict_get_or ''max_file_size'' (jint 52428800) runtime) of Inl e \<Rightarrow> Inl e
      | Inr max_file_size \<Rightarrow> (case py_float (dict_get_or ''fetch_timeout_seconds'' (JNum 30) runtime) of Inl e \<Rightarrow> Inl e
         | Inr fetch_timeout \<Rightarrow> Inr \<lparr>fc_files = ar_files run, fc_run_id = ar_run_id run, fc_trace_id = ar_trace_id run,
             fc_url_allowlist = texts_in (dict_get_or ''file_url_allowlist'' (JList []) runtime), fc_max_file_size = max_file_size,
             fc_fetch_timeout = fetch_timeout, fc_allowed_mime_types = Some DEFAULT_ALLOWED_MIME_TYPES\<rparr>))"

definition run_context :: "agent_spec \<Rightarrow> agent_run \<Rightarrow> nat option \<Rightarrow> agent_context" where
  "run_context agent run signal =
     \<lparr>ac_run_id = ar_run_id run, ac_route_tag = ar_route_tag run, ac_trace_id = ar_trace_id run, ac_metadata = ar_metadata run,
      ac_files = ar_files run, ac_agent = agent, ac_worker_id = ar_worker run, ac_cancellation_signal = signal,
      ac_start_time = ar_start_time run\<rparr>"

definition run_hook_context :: "agent_spec \<Rightarrow> agent_run \<Rightarrow> hook_context" where
  "run_hook_context agent run =
     \<lparr>hk_run_id = ar_run_id run, hk_trace_id = ar_trace_id run, hk_route_tag = ar_route_tag run, hk_caller = JStr (ar_caller run),
      hk_agent_name = as_name agent, hk_agent_version = as_version agent, hk_metadata = ar_metadata run\<rparr>"

definition provenance_data :: "runtime_env \<Rightarrow> skill_session option \<Rightarrow> dict" where
  "provenance_data env so = [(''skills'', JList (map jstr_map (session_provenance so))), (''skill_snapshot_hash'', JStr (session_hash env so))]"

definition log_started :: "runtime_env \<Rightarrow> agent_spec \<Rightarrow> agent_run \<Rightarrow> skill_session option \<Rightarrow> world \<Rightarrow> world" where
  "log_started env agent run so w =
     agent_log env run 3 ''agent_started'' (''Agent '' @ agent_title agent @ '' started'')
       ([(''agent_name'', JStr (as_name agent)), (''agent_version'', JStr (as_version agent))] @ provenance_data env so)
     (agent_log env run 2 ''skills_resolved''
       (''Resolved '' @ show_nat (length (session_provenance so)) @ '' Skills for '' @ agent_title agent) (provenance_data env so) w)"

definition output_data :: "agent_impl \<Rightarrow> json \<Rightarrow> py_exc + dict" where
  "output_data impl out =
     (case impl of
        Pi_Agent _ \<Rightarrow>
          (case out of
             JObj d \<Rightarrow> Inr [(''output_type'', JStr ''dict''), (''output_field_count'', jint (int (length d)))]
           | JList xs \<Rightarrow> Inr [(''output_type'', JStr ''list''), (''output_field_count'', jint (int (length xs)))]
           | JStr s \<Rightarrow> Inr [(''output_type'', JStr ''str''), (''output_field_count'', jint (int (char_count s)))]
           | _ \<Rightarrow> Inl (TypeError (''object of type '' @ py_repr (json_type_name out) @ '' has no len()'')))
      | _ \<Rightarrow> Inr [(''output_type'', JStr (json_type_name out)),
          (''output_keys'', case out of JObj d \<Rightarrow> jstrs (sort_key (map (of_char :: char \<Rightarrow> nat)) (map fst d)) | _ \<Rightarrow> JNull)])"

definition interruption :: "py_exc \<Rightarrow> bool" where
  "interruption e = (case e of CancelledError \<Rightarrow> True | RunCancelledError _ \<Rightarrow> True | _ \<Rightarrow> False)"

definition log_error :: "runtime_env \<Rightarrow> agent_spec \<Rightarrow> agent_run \<Rightarrow> py_exc \<Rightarrow> world \<Rightarrow> world" where
  "log_error env agent run e w =
     (if interruption e
      then agent_log env run 4 ''agent_canceled'' (''Agent '' @ agent_title agent @ '' was interrupted'')
        [(''error_type'', JStr (exc_name e))] w
      else agent_log env run 4 ''agent_failed'' (''Agent '' @ agent_title agent @ '' failed'')
        [(''error_type'', JStr (exc_name e)), (''error_message'', JStr (exc_str e))] w)"

text \<open>A hook that is cancelled replaces the result.\<close>

definition after_hook :: "world \<times> py_exc option \<Rightarrow> py_exc + json \<Rightarrow> world \<times> (py_exc + json)" where
  "after_hook hooked r = (fst hooked, case snd hooked of Some e \<Rightarrow> Inl e | None \<Rightarrow> r)"

definition agent_ended :: "runtime_env \<Rightarrow> agent_spec \<Rightarrow> agent_run \<Rightarrow> agent_impl \<Rightarrow> py_exc + json \<Rightarrow> world \<Rightarrow> world \<times> (py_exc + json)" where
  "agent_ended env agent run impl r w =
     (let hk = run_hook_context agent run in
      case r of
        Inl e \<Rightarrow> after_hook (safe_hook env hk 5 ''on_agent_error'' (Agent_Error hk e) (log_error env agent run e w)) r
      | Inr out \<Rightarrow>
          (case output_data impl out of Inl e \<Rightarrow> (w, Inl e)
           | Inr data \<Rightarrow>
              after_hook (safe_hook env hk 5 ''on_agent_end'' (Agent_End hk out)
                (agent_log env run 4 ''agent_succeeded'' (''Agent '' @ agent_title agent @ '' succeeded'') data w)) r))"

definition log_skill_failure :: "runtime_env \<Rightarrow> agent_spec \<Rightarrow> agent_run \<Rightarrow> py_exc \<Rightarrow> world \<Rightarrow> world" where
  "log_skill_failure env agent run e w =
     runtime_log env (ar_run_id run) (ar_trace_id run) 1 ''agent_runtime'' ''skill_resolution_failed'' ''ERROR''
       (''Skill resolution failed for '' @ agent_title agent)
       [(''error_type'', JStr (exc_name e)), (''error_message'', JStr (exc_str e))] w"

definition runtime_run :: "runtime_env \<Rightarrow> agent_spec \<Rightarrow> agent_run \<Rightarrow> rat list \<Rightarrow> world \<Rightarrow> rat list \<times> world \<times> (py_exc + json)" where
  "runtime_run env agent run clients w =
     (case load_agent env agent clients of
        (clients', Inl e) \<Rightarrow> (clients', w, Inl e)
      | (clients', Inr impl) \<Rightarrow> (clients',
          (let signal = map_of (w_events w) (ar_run_id run); hk = run_hook_context agent run in
           case create_skill_session env agent run w of
             (w1, Inl e) \<Rightarrow>
               (if e = CancelledError then w1 else log_skill_failure env agent run e w1, Inl e)
           | (w1, Inr so) \<Rightarrow>
             (case file_client_for agent run of Inl e \<Rightarrow> (w1, Inl e)
              | Inr fc \<Rightarrow>
                (case safe_hook env hk 1 ''on_agent_start'' (Agent_Start hk (ar_input run)) w1 of
                   (w2, Some e) \<Rightarrow> (w2, Inl e)
                 | (w2, None) \<Rightarrow>
                    (case ru_adapter env impl (run_context agent run signal) fc so (ar_input run) (log_started env agent run so w2) of
                       (w3, r) \<Rightarrow> agent_ended env agent run impl r w3))))))"

section \<open>Hooks and the log\<close>

lemma runtime_log_with: "\<exists>e. runtime_log env r tr t c et lv m d w = with_logs [e] w \<and> le_event_type e = et \<and> le_run_id e = Some r \<and> le_component e = c"
  unfolding runtime_log_def with_logs_def logs_add_def by (intro exI conjI) (rule refl, simp_all)

lemma runtime_log_observes: "\<exists>e. runtime_log env r tr t c et lv m d w = with_logs [e] w"
  unfolding runtime_log_def with_logs_def logs_add_def by (intro exI) (rule refl)

lemma agent_log_with: "\<exists>e. agent_log env run t et m d w = with_logs [e] w \<and> le_event_type e = et \<and> le_run_id e = Some (ar_run_id run)"
  using runtime_log_with unfolding agent_log_def by metis

lemma audits_with: "\<exists>es. fold (skill_audit env run) events w = with_logs es w"
proof (induction events arbitrary: w)
  case Nil
  show ?case by (intro exI [of _ "[]"]) simp
next
  case (Cons ev events)
  have "\<exists>e. skill_audit env run ev w = with_logs [e] w"
    by (cases ev) (simp add: skill_audit_def runtime_log_observes)
  then obtain e where "skill_audit env run ev w = with_logs [e] w" ..
  with Cons.IH [of "with_logs [e] w"] show ?case by auto
qed

lemma create_skill_session_with:
  assumes "create_skill_session env agent run w = (w1, r)"
  shows "\<exists>es. w1 = with_logs es w"
proof (cases "ru_skills env")
  case None
  with assms show ?thesis by (intro exI [of _ "[]"]) (simp add: create_skill_session_def)
next
  case (Some reg)
  obtain events x where "open_session (ru_loader env) reg (ar_run_id run) agent (ar_skill_snapshots run) 8 20000 = (events, x)" by fastforce
  with assms Some have "w1 = fold (skill_audit env run) events w" by (simp add: create_skill_session_def)
  with audits_with show ?thesis by metis
qed

definition polite_hooks :: "runtime_env \<Rightarrow> bool" where
  "polite_hooks env = (\<forall>hooks ev w. ru_hooks env = Some hooks \<longrightarrow> snd (hooks ev w) \<noteq> Some CancelledError)"

definition observing :: "runtime_env \<Rightarrow> bool" where
  "observing env = (\<forall>hooks. ru_hooks env = Some hooks \<longrightarrow> observing_hooks hooks)"

lemma safe_hook_polite: "polite_hooks env \<Longrightarrow> safe_hook env hk t nm ev w = (w', r) \<Longrightarrow> r = None"
  by (auto simp: safe_hook_def polite_hooks_def split: option.splits prod.splits if_splits) (metis snd_conv)

lemma safe_hook_observing:
  assumes "observing env" and "safe_hook env hk t nm ev w = (w', r)"
  shows "r = None" and "\<exists>es. w' = with_logs es w"
proof -
  have "r = None \<and> (\<exists>es. w' = with_logs es w)"
  proof (cases "ru_hooks env")
    case None
    with assms(2) show ?thesis by (auto simp: safe_hook_def intro: exI [of _ "[]"])
  next
    case (Some hooks)
    then have "observing_hooks hooks" using assms(1) by (simp add: observing_def)
    then obtain es where "hooks ev w = (with_logs es w, None)" using observing_hooks.observes by blast
    with assms(2) Some show ?thesis by (auto simp: safe_hook_def)
  qed
  then show "r = None" "\<exists>es. w' = with_logs es w" by blast+
qed

lemma observing_polite: "observing env \<Longrightarrow> polite_hooks env"
  unfolding observing_def polite_hooks_def using observing_hooks.raises_nothing by fastforce

text \<open>What an adapter's result becomes: the length of a Pi agent's output may be undefined.\<close>

definition adapter_outcome :: "agent_impl \<Rightarrow> py_exc + json \<Rightarrow> py_exc + json" where
  "adapter_outcome impl r = (case r of Inl e \<Rightarrow> Inl e
     | Inr out \<Rightarrow> (case output_data impl out of Inl e \<Rightarrow> Inl e | Inr _ \<Rightarrow> Inr out))"

lemma agent_ended_outcome:
  assumes "polite_hooks env"
  shows "snd (agent_ended env agent run impl r w) = adapter_outcome impl r"
proof -
  have "snd (safe_hook env hk t nm ev w') = None" for hk t nm ev w'
    using safe_hook_polite [OF assms] by (metis prod.collapse)
  then show ?thesis by (simp add: agent_ended_def adapter_outcome_def after_hook_def Let_def split: sum.split)
qed

definition end_event :: "py_exc + json \<Rightarrow> string" where
  "end_event r = (case r of Inr out \<Rightarrow> ''agent_succeeded'' | Inl e \<Rightarrow> if interruption e then ''agent_canceled'' else ''agent_failed'')"

definition ends_with :: "agent_run \<Rightarrow> py_exc + json \<Rightarrow> log_event \<Rightarrow> bool" where
  "ends_with run r e = (le_event_type e = end_event r \<and> le_run_id e = Some (ar_run_id run))"

lemma log_error_with: "\<exists>ev. log_error env agent run e w = with_logs [ev] w \<and> ends_with run (Inl e) ev"
proof (cases "interruption e")
  case True
  then show ?thesis using agent_log_with unfolding log_error_def ends_with_def end_event_def by auto
next
  case False
  then show ?thesis using agent_log_with unfolding log_error_def ends_with_def end_event_def by auto
qed

lemma agent_ended_logs:
  assumes "observing env" and "adapter_outcome impl r = r"
  shows "\<exists>e es. fst (agent_ended env agent run impl r w) = with_logs (e # es) w \<and> ends_with run r e"
proof -
  have hook: "\<exists>es. fst (safe_hook env hk t nm ev (with_logs [e] w)) = with_logs (e # es) w" for hk t nm ev e
  proof -
    obtain w' x where s: "safe_hook env hk t nm ev (with_logs [e] w) = (w', x)" by fastforce
    from safe_hook_observing(2) [OF assms(1) this] show ?thesis by (auto simp: s)
  qed
  show ?thesis
  proof (cases r)
    case (Inl e)
    obtain ev where "log_error env agent run e w = with_logs [ev] w" "ends_with run (Inl e) ev" using log_error_with by blast
    with hook [of "run_hook_context agent run" 5 "''on_agent_error''" "Agent_Error (run_hook_context agent run) e" ev] show ?thesis
      unfolding Inl agent_ended_def after_hook_def Let_def by auto
  next
    case (Inr out)
    then obtain data where d: "output_data impl out = Inr data" using assms(2) by (auto simp: adapter_outcome_def split: sum.splits)
    obtain ev where "agent_log env run 4 ''agent_succeeded'' (''Agent '' @ agent_title agent @ '' succeeded'') data w = with_logs [ev] w"
      "ends_with run (Inr out) ev"
      using agent_log_with unfolding ends_with_def end_event_def by fastforce
    with d hook [of "run_hook_context agent run" 5 "''on_agent_end''" "Agent_End (run_hook_context agent run) out" ev] show ?thesis
      unfolding Inr agent_ended_def after_hook_def Let_def by auto
  qed
qed

section \<open>Properties\<close>

lemma log_started_with: "\<exists>es. log_started env agent run so w = with_logs es w"
proof -
  have "\<exists>e. agent_log env run t et m d w = with_logs [e] w" for t et m d w using agent_log_with by blast
  then show ?thesis unfolding log_started_def by (metis with_logs_append)
qed

lemma runtime_run_cases:
  assumes "runtime_run env agent run clients w = (clients', w', r)"
  obtains (refused) e es where "r = Inl e" and "w' = with_logs es w"
    | (cut) e w1 es where "r = Inl e" and "w1 = with_logs es w"
        and "safe_hook env (run_hook_context agent run) 1 ''on_agent_start'' (Agent_Start (run_hook_context agent run) (ar_input run)) w1 = (w', Some e)"
    | (ran) impl fc so w1 w2 w3 es r0 where "w1 = with_logs es w"
        and "safe_hook env (run_hook_context agent run) 1 ''on_agent_start'' (Agent_Start (run_hook_context agent run) (ar_input run)) w1 = (w2, None)"
        and "load_agent env agent clients = (clients', Inr impl)" and "file_client_for agent run = Inr fc"
        and "create_skill_session env agent run w = (w1, Inr so)"
        and "ru_adapter env impl (run_context agent run (map_of (w_events w) (ar_run_id run))) fc so (ar_input run) (log_started env agent run so w2) = (w3, r0)"
        and "agent_ended env agent run impl r0 w3 = (w', r)"
proof -
  obtain cs x where l: "load_agent env agent clients = (cs, x)" by fastforce
  show ?thesis
  proof (cases x)
    case (Inl e)
    then have "w' = with_logs [] w" "r = Inl e" using assms l by (simp_all add: runtime_run_def)
    then show ?thesis using refused by blast
  next
    case impl: (Inr impl)
    obtain w1 s where s: "create_skill_session env agent run w = (w1, s)" by fastforce
    obtain es where es: "w1 = with_logs es w" using create_skill_session_with [OF s] by blast
    show ?thesis
    proof (cases s)
      case (Inl e)
      obtain ev where ev: "log_skill_failure env agent run e w1 = with_logs [ev] w1"
        unfolding log_skill_failure_def
        using runtime_log_observes by blast
      have "w' = (if e = CancelledError then w1 else with_logs [ev] w1)" "r = Inl e"
        using assms l impl s Inl ev by (auto simp: runtime_run_def Let_def)
      then have "w' = with_logs (es @ (if e = CancelledError then [] else [ev])) w" "r = Inl e" using es by simp_all
      then show ?thesis using refused by blast
    next
      case so: (Inr so)
      show ?thesis
      proof (cases "file_client_for agent run")
        case (Inl e)
        then have "w' = w1" "r = Inl e" using assms l impl s so by (simp_all add: runtime_run_def Let_def)
        then show ?thesis using refused es by blast
      next
        case fc: (Inr fc)
        let ?hk = "run_hook_context agent run"
        obtain w2 h where h: "safe_hook env ?hk 1 ''on_agent_start'' (Agent_Start ?hk (ar_input run)) w1 = (w2, h)" by fastforce
        show ?thesis
        proof (cases h)
          case None
          obtain w3 r0 where "ru_adapter env impl (run_context agent run (map_of (w_events w) (ar_run_id run))) fc so (ar_input run)
              (log_started env agent run so w2) = (w3, r0)" by fastforce
          then show ?thesis using ran [OF es, of w2 impl fc so w3 r0] assms l impl s so fc h None by (simp add: runtime_run_def Let_def)
        next
          case (Some e)
          then show ?thesis using cut [OF _ es] assms l impl s so fc h by (auto simp: runtime_run_def Let_def)
        qed
      qed
    qed
  qed
qed

text \<open>
  Failing hooks keep the outcome. Whatever lifecycle hooks raise, short of a cancellation, and
  whatever else they do, an agent whose adapter was started returns what its adapter returned, or
  raises what it raised; otherwise the run ends before with an error and only log events are added.
\<close>

theorem failing_hooks_keep_outcome:
  assumes "polite_hooks env" and "runtime_run env agent run clients w = (clients', w', r)"
  shows "(\<exists>impl fc so w2 w3 r0. load_agent env agent clients = (clients', Inr impl)
       \<and> ru_adapter env impl (run_context agent run (map_of (w_events w) (ar_run_id run))) fc so (ar_input run) w2 = (w3, r0)
       \<and> r = adapter_outcome impl r0)
     \<or> (\<exists>e es. r = Inl e \<and> w' = with_logs es w)"
  using assms(2)
proof (cases rule: runtime_run_cases)
  case (ran impl fc so w1 w2 w3 es r0)
  have "r = adapter_outcome impl r0" using agent_ended_outcome [OF assms(1)] ran(7) by (metis snd_conv)
  with ran(3,6) show ?thesis by blast
next
  case (cut e w1 es)
  then show ?thesis using safe_hook_polite [OF assms(1)] by blast
qed blast

text \<open>
  The runtime only logs. With hooks that only observe, all a run does beside its adapter is to
  append events to the run log: those before the adapter is started, and after it one event that
  names how the agent ended (succeeded, failed or canceled), first of all.
\<close>

theorem runtime_only_logs:
  assumes "observing env" and "runtime_run env agent run clients w = (clients', w', r)"
  shows "(\<exists>e es. r = Inl e \<and> w' = with_logs es w)
     \<or> (\<exists>impl fc so es w3 r0. load_agent env agent clients = (clients', Inr impl)
         \<and> ru_adapter env impl (run_context agent run (map_of (w_events w) (ar_run_id run))) fc so (ar_input run)
           (with_logs es w) = (w3, r0)
         \<and> (adapter_outcome impl r0 = r0 \<longrightarrow> r = r0 \<and> (\<exists>e es'. w' = with_logs (e # es') w3 \<and> ends_with run r e)))"
  using assms(2)
proof (cases rule: runtime_run_cases)
  case (cut e w1 es)
  then show ?thesis using safe_hook_observing(1) [OF assms(1)] by blast
next
  case (ran impl fc so w1 w2 w3 es r0)
  obtain es2 where "w2 = with_logs es2 w1" using safe_hook_observing(2) [OF assms(1) ran(2)] by blast
  moreover obtain es3 where "log_started env agent run so w2 = with_logs es3 w2" using log_started_with by blast
  ultimately have "log_started env agent run so w2 = with_logs (es @ es2 @ es3) w" using ran(1) by simp
  moreover have "r = adapter_outcome impl r0"
    using agent_ended_outcome [OF observing_polite [OF assms(1)]] ran(7) by (metis snd_conv)
  moreover have "\<exists>e es'. w' = with_logs (e # es') w3 \<and> ends_with run r0 e" if "adapter_outcome impl r0 = r0"
    using agent_ended_logs [OF assms(1) that, of agent run w3] ran(7) by simp
  ultimately show ?thesis using ran(3,6) by metis
qed blast

text \<open>
  Outputs stay out of the runtime's log. Two outputs with the same field names in the same order leave
  the same log, whatever their values; for a Pi agent, whose field names may be business data,
  two outputs with the same number of fields do.
\<close>

theorem output_values_are_not_logged:
  assumes "ru_hooks env = None"
    and "map fst d = map fst d' \<or> (\<exists>rt. impl = Pi_Agent rt) \<and> length d = length d'"
  shows "fst (agent_ended env agent run impl (Inr (JObj d)) w) = fst (agent_ended env agent run impl (Inr (JObj d')) w)"
proof -
  have len: "length d = length d'" using assms(2) by (metis length_map)
  have "output_data impl (JObj d) = output_data impl (JObj d')"
    using assms(2) len by (cases impl) (auto simp: output_data_def)
  then show ?thesis by (simp add: agent_ended_def after_hook_def safe_hook_def assms(1) Let_def split: sum.split)
qed

text \<open>
  The default hooks write the output. The event that the logging hooks store when an agent ends holds the first
  200 characters of the text of its output: values under sensitive keys are part of that text, which
  redaction leaves as it is.
\<close>

theorem default_hooks_log_output:
  "\<exists>e. logging_hooks env (Agent_End ctx (JObj d)) w = (with_logs [e] w, None)
     \<and> le_data e = [(''output_summary'', JStr (char_take 200 (he_text env (JObj d))))]"
proof -
  have s: "\<not> is_sensitive_key ''output_summary''" by code_simp
  then show ?thesis
    by (auto simp: hook_log_def with_logs_def logs_add_def redact_dict_def summary200_def str_with_def)
qed

section \<open>Witnesses\<close>

definition demo_runtime :: "run_hooks option \<Rightarrow> runtime_env" where
  "demo_runtime hooks = \<lparr>ru_clk = int, ru_loader = demo_loader, ru_skills = None, ru_dumps = (\<lambda>_. []), ru_hooks = hooks, ru_http_client = True,
     ru_import = (\<lambda>m f. None), ru_text = (\<lambda>j. []), ru_adapter = (\<lambda>impl ctx fc so input w. (w, Inr (JObj input)))\<rparr>"

definition echo_agent :: agent_spec where
  "echo_agent = (demo_agent ''a'' ''1'' [''t''])\<lparr>as_runtime := [(''type'', JStr ''echo'')]\<rparr>"

lemma demo_runtime_simps [simp]:
  "ru_clk (demo_runtime hooks) = int" "ru_loader (demo_runtime hooks) = demo_loader" "ru_skills (demo_runtime hooks) = None"
  "ru_hooks (demo_runtime hooks) = hooks" "ru_adapter (demo_runtime hooks) impl ctx fc so input w = (w, Inr (JObj input))"
  by (simp_all add: demo_runtime_def)

lemma demo_load: "load_agent (demo_runtime hooks) echo_agent [] = ([], Inr Echo_Agent)"
  by (simp add: load_agent_def echo_agent_def dict_get_or_def Let_def)

lemma demo_file_client_for: "\<exists>fc. file_client_for echo_agent run = Inr fc"
  by (simp add: file_client_for_def echo_agent_def dict_get_or_def jint_def Let_def)

definition failing_hooks :: run_hooks where
  "failing_hooks ev w = (w, Some (RuntimeError ''hook''))"

lemma demo_adapter_outcome: "adapter_outcome impl (Inr (JObj d)) = Inr (JObj d)"
  by (cases impl) (simp_all add: adapter_outcome_def output_data_def)

text \<open>A run of the echo agent reaches its adapter when no hook stops it.\<close>

lemma demo_runs:
  assumes "runtime_run (demo_runtime hooks) echo_agent (demo_run None QUEUED) [] w = (c, w', r)"
    and "polite_hooks (demo_runtime hooks)"
  shows "r = Inr (JObj [])"
proof -
  obtain fc where fc: "file_client_for echo_agent (demo_run None QUEUED) = Inr fc" using demo_file_client_for by blast
  have s: "create_skill_session (demo_runtime hooks) echo_agent (demo_run None QUEUED) w = (w, Inr None)"
    by (simp add: create_skill_session_def)
  have i: "ar_input (demo_run None QUEUED) = []" by (simp add: demo_run_def new_agent_run_def)
  let ?hk = "run_hook_context echo_agent (demo_run None QUEUED)"
  obtain w2 where h: "safe_hook (demo_runtime hooks) ?hk 1 ''on_agent_start'' (Agent_Start ?hk []) w = (w2, None)"
    using safe_hook_polite [OF assms(2)] by (metis prod.exhaust)
  have "runtime_run (demo_runtime hooks) echo_agent (demo_run None QUEUED) [] w
      = ([], agent_ended (demo_runtime hooks) echo_agent (demo_run None QUEUED) Echo_Agent (Inr (JObj []))
          (log_started (demo_runtime hooks) echo_agent (demo_run None QUEUED) None w2))"
    by (simp add: runtime_run_def demo_load s fc i h [unfolded One_nat_def] Let_def)
  then have "r = snd (agent_ended (demo_runtime hooks) echo_agent (demo_run None QUEUED) Echo_Agent (Inr (JObj []))
      (log_started (demo_runtime hooks) echo_agent (demo_run None QUEUED) None w2))"
    using assms(1) by (metis snd_conv)
  then show ?thesis using agent_ended_outcome [OF assms(2)] demo_adapter_outcome by simp
qed

theorem failing_hooks_keep_outcome_witness:
  "\<exists>clients w'. runtime_run (demo_runtime (Some failing_hooks)) echo_agent (demo_run None QUEUED) [] (demo_world (demo_run None QUEUED)) = (clients, w', Inr (JObj []))
     \<and> ((\<exists>impl fc so w2 w3 r0. load_agent (demo_runtime (Some failing_hooks)) echo_agent [] = (clients, Inr impl)
          \<and> adapter_outcome impl r0 = Inr (JObj [])) \<or> False)"
proof -
  let ?env = "demo_runtime (Some failing_hooks)" and ?run = "demo_run None QUEUED" and ?w = "demo_world (demo_run None QUEUED)"
  have p: "polite_hooks ?env" by (simp add: polite_hooks_def failing_hooks_def)
  obtain c w' r where r: "runtime_run ?env echo_agent ?run [] ?w = (c, w', r)" by (metis prod_cases3)
  have o: "r = Inr (JObj [])" using demo_runs [OF r p] .
  with failing_hooks_keep_outcome [OF p r] r show ?thesis by (metis Inl_Inr_False)
qed

theorem runtime_only_logs_witness:
  "\<exists>clients w' e es. runtime_run (demo_runtime (Some (logging_hooks \<lparr>he_now = 0, he_text = (\<lambda>j. [])\<rparr>))) echo_agent (demo_run None QUEUED) []
     (demo_world (demo_run None QUEUED)) = (clients, w', Inr (JObj []))
     \<and> w' = with_logs es (demo_world (demo_run None QUEUED)) \<and> e \<in> set es \<and> le_event_type e = ''agent_succeeded''"
proof -
  let ?env = "demo_runtime (Some (logging_hooks \<lparr>he_now = 0, he_text = (\<lambda>j. [])\<rparr>))"
  let ?run = "demo_run None QUEUED" and ?w = "demo_world (demo_run None QUEUED)"
  have o: "observing ?env" by (simp add: observing_def logging.observing_hooks_axioms)
  obtain c w' r where r: "runtime_run ?env echo_agent ?run [] ?w = (c, w', r)" by (metis prod_cases3)
  have rr: "r = Inr (JObj [])" using demo_runs [OF r observing_polite [OF o]] .
  have i: "ar_input ?run = []" by (simp add: demo_run_def new_agent_run_def)
  have "\<exists>es e es'. w' = with_logs (e # es') (with_logs es ?w) \<and> ends_with ?run r e"
    using runtime_only_logs [OF o r] rr i demo_adapter_outcome by fastforce
  then obtain es e es' where "w' = with_logs (es @ e # es') ?w" "le_event_type e = ''agent_succeeded''"
    by (auto simp: ends_with_def end_event_def rr)
  then show ?thesis using r rr by (metis in_set_conv_decomp)
qed

theorem output_values_are_not_logged_witness:
  "fst (agent_ended (demo_runtime None) echo_agent (demo_run None QUEUED) Echo_Agent (Inr (JObj [(''a'', JStr ''secret'')])) (demo_world (demo_run None QUEUED)))
     = fst (agent_ended (demo_runtime None) echo_agent (demo_run None QUEUED) Echo_Agent (Inr (JObj [(''a'', JNull)])) (demo_world (demo_run None QUEUED)))"
  by (rule output_values_are_not_logged) (simp_all add: demo_runtime_def)

end
