(* ===== verification/Model_Gateway.thy ===== *)
theory Model_Gateway
  imports Store Dynamic Codec
begin

text \<open>
  The gateway to language models (\<^verbatim>\<open>src/framework/model_gateway.py\<close>): one completion tries the configured
  model and then the fallback models, each with retries, and keeps one record of the call in
  the store.

  The state of a completion is the store together with the requests posted so far. What the
  provider answers is a function of those requests, so that an answer may depend on all that
  happened before; the classes of \<^verbatim>\<open>httpx\<close>, \<^verbatim>\<open>json\<close>, SHA-256 and the clocks are parameters. The
  names of models are texts, as the configuration declares them; what else the configuration and
  the answers hold is a JSON value, and every conversion may raise. Cancellation is an exception
  that no handler of the gateway catches.

  The theorems: a completion posts at most one request for each model and attempt; a model is
  given up for the next one only after an error that may be retried; annotations are the
  provider's; the record of a call tells how it ended; and the waiting times are bounded.
\<close>

section \<open>Retry policy\<close>

record call_retry =
  cr_max_retries :: int
  cr_initial_backoff :: rat
  cr_max_backoff :: rat
  cr_multiplier :: rat
  cr_codes :: "int list"

definition RETRYABLE_STATUS_CODES :: "int list" where
  "RETRYABLE_STATUS_CODES = [429, 500, 502, 503, 504]"

definition RETRYABLE_EXCEPTIONS :: "string list" where
  "RETRYABLE_EXCEPTIONS = [''TimeoutException'', ''ConnectTimeout'', ''ReadTimeout'', ''PoolTimeout'', ''ConnectError'',
     ''ReadError'', ''RemoteProtocolError'']"

definition EXTRA_PAYLOAD_KEYS :: "string list" where
  "EXTRA_PAYLOAD_KEYS = [''plugins'', ''tools'', ''web_search_options'']"

definition delay_for :: "call_retry \<Rightarrow> nat \<Rightarrow> rat" where
  "delay_for p attempt = min (cr_initial_backoff p * cr_multiplier p ^ attempt) (cr_max_backoff p)"

section \<open>Requests, answers and parameters\<close>

record model_request =
  mq_url :: string
  mq_headers :: "(string \<times> string) list"
  mq_payload :: dict
  mq_timeout :: rat

record model_response =
  hp_status_code :: int
  hp_raise :: "py_exc option"
  hp_body :: "py_exc + json"
  hp_request_ids :: "string option \<times> string option"

record gateway_env =
  ge_post :: "model_request list \<Rightarrow> model_request \<Rightarrow> py_exc + model_response"
  ge_interrupted :: "model_request list \<Rightarrow> bool"
  ge_transport :: "py_exc \<Rightarrow> bool"
  ge_status_of :: "py_exc \<Rightarrow> int option"
  ge_dumps :: "json \<Rightarrow> string"
  ge_loads :: "string \<Rightarrow> json option"
  ge_text :: "json \<Rightarrow> string"
  ge_sha :: "string \<Rightarrow> string"
  ge_call_id :: string
  ge_clk :: "nat \<Rightarrow> datetime"
  ge_mono :: "nat \<Rightarrow> rat"

definition should_retry_exc :: "gateway_env \<Rightarrow> call_retry \<Rightarrow> py_exc \<Rightarrow> bool" where
  "should_retry_exc env p e =
     (exc_name e \<in> set RETRYABLE_EXCEPTIONS \<or> ge_transport env e
      \<or> (case ge_status_of env e of None \<Rightarrow> False | Some c \<Rightarrow> c \<in> set (cr_codes p)))"

section \<open>Configuration\<close>

record model_defaults =
  md_defaults :: dict
  md_timeout :: rat
  md_retry :: call_retry
  md_fallback :: "string list"

text \<open>Names in a list of models.\<close>

definition model_names :: "gateway_env \<Rightarrow> json \<Rightarrow> py_exc + string list" where
  "model_names env j = (case py_list j of Inl e \<Rightarrow> Inl e | Inr xs \<Rightarrow> Inr (map (str_with (ge_text env)) xs))"

definition model_reconfigure :: "gateway_env \<Rightarrow> dict \<Rightarrow> py_exc + model_defaults" where
  "model_reconfigure env d =
     (case py_float (json_or (dict_get_or ''timeout_seconds'' JNull d) (JNum 60)) of Inl e \<Rightarrow> Inl e
      | Inr timeout \<Rightarrow> case py_int (dict_get_or ''max_retries'' (JNum 2) d) of Inl e \<Rightarrow> Inl e
      | Inr retries \<Rightarrow> case py_float (dict_get_or ''initial_backoff_seconds'' (JNum 1) d) of Inl e \<Rightarrow> Inl e
      | Inr initial \<Rightarrow> case py_float (dict_get_or ''max_backoff_seconds'' (JNum 30) d) of Inl e \<Rightarrow> Inl e
      | Inr maximal \<Rightarrow> case model_names env (dict_get_or ''fallback_models'' (JList []) d) of Inl e \<Rightarrow> Inl e
      | Inr fallback \<Rightarrow> Inr \<lparr>md_defaults = d, md_timeout = timeout,
          md_retry = \<lparr>cr_max_retries = retries, cr_initial_backoff = initial, cr_max_backoff = maximal, cr_multiplier = 2,
             cr_codes = RETRYABLE_STATUS_CODES\<rparr>, md_fallback = fallback\<rparr>)"

section \<open>One request\<close>

definition normalize_openai_base_url :: "(json \<Rightarrow> string) \<Rightarrow> json \<Rightarrow> string" where
  "normalize_openai_base_url text base_url =
     (let normalized = rev (dropWhile (\<lambda>c. c = CHR ''/'') (rev (str_strip (str_with text (json_or base_url (JStr [])))))) in
      if normalized = [] then [] else if suffix ''/v1'' normalized then normalized else normalized @ ''/v1'')"

definition extra_payload :: "dict \<Rightarrow> dict \<Rightarrow> string \<Rightarrow> dict" where
  "extra_payload runtime defaults k =
     (if dict_get_or k JNull runtime \<noteq> JNull then [(k, dict_get_or k JNull runtime)]
      else if dict_get_or k JNull defaults \<noteq> JNull then [(k, dict_get_or k JNull defaults)] else [])"

definition request_payload :: "dict \<Rightarrow> dict \<Rightarrow> string option \<Rightarrow> json list \<Rightarrow> py_exc + dict" where
  "request_payload runtime defaults model messages =
     (let max_tokens = dict_get_or ''max_tokens'' (dict_get_or ''max_tokens'' JNull defaults) runtime;
          response_format = json_or (dict_get_or ''response_format'' JNull runtime) (dict_get_or ''response_format'' JNull defaults);
          payload = [(''model'', jopt model), (''messages'', JList messages),
             (''temperature'', dict_get_or ''temperature'' (dict_get_or ''temperature'' (JNum 0) defaults) runtime)];
          rest = (if json_truthy response_format then [(''response_format'', response_format)] else [])
             @ concat (map (extra_payload runtime defaults) EXTRA_PAYLOAD_KEYS)
      in if max_tokens = JNull then Inr (payload @ rest)
         else (case py_int max_tokens of Inl e \<Rightarrow> Inl e | Inr n \<Rightarrow> Inr (payload @ [(''max_tokens'', jint n)] @ rest)))"

definition build_request ::
    "gateway_env \<Rightarrow> model_defaults \<Rightarrow> dict \<Rightarrow> string option \<Rightarrow> json list \<Rightarrow> py_exc + model_request" where
  "build_request env config runtime model messages =
     (let defaults = md_defaults config;
          base_url = normalize_openai_base_url (ge_text env) (json_or (dict_get_or ''base_url'' JNull runtime)
             (json_or (dict_get_or ''base_url'' JNull defaults) (JStr [])));
          api_key = json_or (dict_get_or ''api_key'' JNull runtime) (dict_get_or ''api_key'' JNull defaults);
          headers = (''Content-Type'', ''application/json'')
             # (if json_truthy api_key then [(''Authorization'', ''Bearer '' @ str_with (ge_text env) api_key)] else [])
      in if base_url = [] then Inl (ValueError ''model base_url is required'')
         else case request_payload runtime defaults model messages of Inl e \<Rightarrow> Inl e
         | Inr payload \<Rightarrow>
           (case py_float (json_or (dict_get_or ''timeout_seconds'' JNull runtime) (JNum (md_timeout config))) of Inl e \<Rightarrow> Inl e
            | Inr timeout \<Rightarrow> Inr \<lparr>mq_url = base_url @ ''/chat/completions'', mq_headers = headers, mq_payload = payload, mq_timeout = timeout\<rparr>))"

text \<open>Posting appends to the requests sent; the two readings of the clock are taken around it.\<close>

definition do_request ::
    "gateway_env \<Rightarrow> model_defaults \<Rightarrow> dict \<Rightarrow> string option \<Rightarrow> json list \<Rightarrow> model_request list
       \<Rightarrow> model_request list \<times> (py_exc + model_response \<times> int)" where
  "do_request env config runtime model messages sent =
     (case build_request env config runtime model messages of Inl e \<Rightarrow> (sent, Inl e)
      | Inr q \<Rightarrow>
        let latency_ms = trunc_rat ((ge_mono env (2 * length sent + 1) - ge_mono env (2 * length sent)) * 1000) in
        (sent @ [q], case ge_post env sent q of Inl e \<Rightarrow> Inl e | Inr resp \<Rightarrow> Inr (resp, latency_ms)))"

section \<open>Retries\<close>

type_synonym model_answer = "json \<times> int \<times> int \<times> string option"

definition accept_response :: "model_response \<Rightarrow> int \<Rightarrow> py_exc + model_answer" where
  "accept_response resp latency_ms =
     (case hp_raise resp of Some e \<Rightarrow> Inl e
      | None \<Rightarrow> (case hp_body resp of Inl e \<Rightarrow> Inl e
         | Inr body \<Rightarrow>
           let (x, r) = hp_request_ids resp in
           Inr (body, hp_status_code resp, latency_ms,
             case x of None \<Rightarrow> r | Some i \<Rightarrow> if i = [] then r else x)))"

text \<open>
  One attempt: an answer, an error to be raised, or the wish to wait for the next attempt.
  \<open>more\<close> says whether attempts remain.
\<close>

datatype attempt_result = Answered model_answer | Raised py_exc | Retry

definition call_attempt ::
    "gateway_env \<Rightarrow> model_defaults \<Rightarrow> dict \<Rightarrow> string option \<Rightarrow> json list \<Rightarrow> bool \<Rightarrow> model_request list
       \<Rightarrow> model_request list \<times> attempt_result" where
  "call_attempt env config runtime model messages more_left sent =
     (let fail = (\<lambda>e. if e \<noteq> CancelledError \<and> more_left \<and> should_retry_exc env (md_retry config) e then Retry else Raised e)
      in case do_request env config runtime model messages sent of
        (sent', Inl e) \<Rightarrow> (sent', fail e)
      | (sent', Inr (resp, latency_ms)) \<Rightarrow>
          if hp_status_code resp \<in> set (cr_codes (md_retry config)) \<and> more_left then (sent', Retry)
          else (case accept_response resp latency_ms of Inl e \<Rightarrow> (sent', fail e) | Inr a \<Rightarrow> (sent', Answered a)))"

text \<open>The attempts from \<open>attempt\<close> on; \<open>left\<close> more are allowed after this one. The waiting times are returned too.\<close>

fun call_attempts ::
    "gateway_env \<Rightarrow> model_defaults \<Rightarrow> dict \<Rightarrow> string option \<Rightarrow> json list \<Rightarrow> nat \<Rightarrow> nat \<Rightarrow> model_request list
       \<Rightarrow> model_request list \<times> rat list \<times> (py_exc + model_answer)" where
  "call_attempts env config runtime model messages attempt 0 sent =
     (case call_attempt env config runtime model messages False sent of
        (sent', Answered a) \<Rightarrow> (sent', [], Inr a)
      | (sent', Raised e) \<Rightarrow> (sent', [], Inl e)
      | (sent', Retry) \<Rightarrow> (sent', [], Inl (TypeError ''exceptions must derive from BaseException'')))"
| "call_attempts env config runtime model messages attempt (Suc left) sent =
     (case call_attempt env config runtime model messages True sent of
        (sent', Answered a) \<Rightarrow> (sent', [], Inr a)
      | (sent', Raised e) \<Rightarrow> (sent', [], Inl e)
      | (sent', Retry) \<Rightarrow>
          let delay = delay_for (md_retry config) attempt in
          if ge_interrupted env sent' then (sent', [delay], Inl CancelledError)
          else (case call_attempts env config runtime model messages (Suc attempt) left sent' of
            (sent'', delays, r) \<Rightarrow> (sent'', delay # delays, r)))"

definition call_with_retry ::
    "gateway_env \<Rightarrow> model_defaults \<Rightarrow> dict \<Rightarrow> string option \<Rightarrow> json list \<Rightarrow> model_request list
       \<Rightarrow> model_request list \<times> rat list \<times> (py_exc + model_answer)" where
  "call_with_retry env config runtime model messages sent =
     (case py_int (dict_get_or ''max_retries'' (jint (cr_max_retries (md_retry config))) runtime) of
        Inl e \<Rightarrow> (sent, [], Inl e)
      | Inr n \<Rightarrow> call_attempts env config runtime model messages 0 (nat (max 0 n)) sent)"

section \<open>Messages and summaries\<close>

definition model_instructions :: "dict \<Rightarrow> json" where
  "model_instructions runtime = json_or (dict_get_or ''instructions'' JNull runtime) (JStr ''Return a JSON object for the run input.'')"

definition is_object :: "json \<Rightarrow> bool" where
  "is_object j = (case j of JObj d \<Rightarrow> True | _ \<Rightarrow> False)"

definition has_role :: "string \<Rightarrow> json \<Rightarrow> bool" where
  "has_role r j = (case j of JObj d \<Rightarrow> map_of d ''role'' = Some (JStr r) | _ \<Rightarrow> False)"

definition chat_message :: "string \<Rightarrow> json \<Rightarrow> json" where
  "chat_message role content = JObj [(''role'', JStr role), (''content'', content)]"

definition messages_for_request :: "gateway_env \<Rightarrow> dict \<Rightarrow> dict \<Rightarrow> string \<Rightarrow> json \<Rightarrow> json list" where
  "messages_for_request env input_data metadata run_id instructions =
     (let messages = (case map_of input_data ''messages'' of Some (JList ms) \<Rightarrow> filter is_object ms | _ \<Rightarrow> []) in
      if messages \<noteq> [] then
        (if json_truthy instructions \<and> \<not> (\<exists>m \<in> set messages. has_role ''system'' m) then chat_message ''system'' instructions # messages
         else messages)
      else [chat_message ''system'' instructions,
            chat_message ''user'' (JStr (ge_dumps env (JObj [(''input'', JObj input_data), (''metadata'', JObj metadata), (''run_id'', JStr run_id)])))])"

definition model_summarize :: "gateway_env \<Rightarrow> json \<Rightarrow> string" where
  "model_summarize env v = (let text = str_with (ge_dumps env) v in
     if char_count text \<le> 500 then text else char_take 500 text @ ''...[truncated]'')"

section \<open>Reading an answer\<close>

text \<open>\<^verbatim>\<open>choices[0].get("message") or {}\<close>, when there are choices.\<close>

definition answer_message :: "json \<Rightarrow> py_exc + json option" where
  "answer_message response =
     (case get_attr response ''choices'' of Inl e \<Rightarrow> Inl e
      | Inr choices \<Rightarrow>
        if \<not> json_truthy choices then Inr None
        else case py_first choices of Inl e \<Rightarrow> Inl e
        | Inr c \<Rightarrow> (case get_attr c ''message'' of Inl e \<Rightarrow> Inl e | Inr m \<Rightarrow> Inr (Some (json_or m (JObj [])))))"

definition content_from_response :: "gateway_env \<Rightarrow> json \<Rightarrow> py_exc + string" where
  "content_from_response env response =
     (case answer_message response of Inl e \<Rightarrow> Inl e | Inr None \<Rightarrow> Inr []
      | Inr (Some m) \<Rightarrow> (case get_attr m ''content'' of Inl e \<Rightarrow> Inl e | Inr c \<Rightarrow> Inr (str_with (ge_text env) (json_or c (JStr [])))))"

definition annotations_from_response :: "json \<Rightarrow> py_exc + json list" where
  "annotations_from_response response =
     (case answer_message response of Inl e \<Rightarrow> Inl e | Inr None \<Rightarrow> Inr []
      | Inr (Some m) \<Rightarrow> (case get_attr m ''annotations'' of Inl e \<Rightarrow> Inl e
         | Inr a \<Rightarrow> Inr (case json_or a (JList []) of JList xs \<Rightarrow> xs | _ \<Rightarrow> [])))"

definition usage_number :: "json \<Rightarrow> string \<Rightarrow> json \<Rightarrow> py_exc + int" where
  "usage_number usage k dflt =
     (case get_attr usage k of Inl e \<Rightarrow> Inl e | Inr v \<Rightarrow> py_int (json_or v dflt))"

definition usage_from_response :: "json \<Rightarrow> py_exc + int \<times> int \<times> int" where
  "usage_from_response response =
     (case get_attr response ''usage'' of Inl e \<Rightarrow> Inl e
      | Inr u \<Rightarrow>
        let usage = json_or u (JObj []);
            alternative = (\<lambda>k. case usage of JObj d \<Rightarrow> json_or (dict_get_or k JNull d) (JNum 0) | _ \<Rightarrow> JNum 0)
        in case usage_number usage ''prompt_tokens'' (alternative ''input_tokens'') of Inl e \<Rightarrow> Inl e
        | Inr prompt \<Rightarrow> case usage_number usage ''completion_tokens'' (alternative ''output_tokens'') of Inl e \<Rightarrow> Inl e
        | Inr completion \<Rightarrow> case usage_number usage ''total_tokens'' (jint (prompt + completion)) of Inl e \<Rightarrow> Inl e
        | Inr total_tokens \<Rightarrow> Inr (prompt, completion, total_tokens))"

definition parse_output :: "gateway_env \<Rightarrow> string \<Rightarrow> dict" where
  "parse_output env content =
     (case ge_loads env content of None \<Rightarrow> [(''data'', JStr content)]
      | Some (JObj d) \<Rightarrow> d
      | Some j \<Rightarrow> [(''data'', j)])"

definition estimate_cost :: "int \<Rightarrow> rat \<Rightarrow> rat" where
  "estimate_cost total_tokens cost_per_1k_tokens =
     (if cost_per_1k_tokens = 0 then 0
      else of_int (round_half_even (of_int total_tokens / 1000 * cost_per_1k_tokens * 10 ^ 8)) / 10 ^ 8)"

section \<open>A completion\<close>

record model_call =
  ml_run_id :: string
  ml_trace_id :: string
  ml_agent_name :: string
  ml_agent_version :: string
  ml_input :: dict
  ml_metadata :: dict
  ml_runtime :: dict

type_synonym gateway_state = "store \<times> model_request list"

definition model_log :: "gateway_env \<Rightarrow> model_call \<Rightarrow> nat \<Rightarrow> string \<Rightarrow> string \<Rightarrow> dict \<Rightarrow> store \<Rightarrow> store" where
  "model_log env call t event_type message data st = st\<lparr>s_logs := logs_add
     \<lparr>le_run_id = Some (ml_run_id call), le_trace_id = ml_trace_id call, le_component = ''model_gateway'', le_event_type = event_type,
      le_level = ''INFO'', le_message = message, le_data = data, le_create_time = ge_clk env t\<rparr> (s_logs st)\<rparr>"

definition save_call :: "model_call_record \<Rightarrow> store \<Rightarrow> store" where
  "save_call rec st = st\<lparr>s_model_calls := model_calls_save rec (s_model_calls st)\<rparr>"

text \<open>What a good answer makes of the record, up to the first conversion that fails.\<close>

definition finish_answer ::
    "gateway_env \<Rightarrow> model_defaults \<Rightarrow> dict \<Rightarrow> nat \<Rightarrow> model_answer \<Rightarrow> model_call_record \<Rightarrow> model_call_record \<times> (py_exc + dict)" where
  "finish_answer env config runtime t answer rec =
     (case answer of (body, http_status, latency_ms, provider_request_id) \<Rightarrow>
      case content_from_response env body of Inl e \<Rightarrow> (rec, Inl e)
      | Inr content \<Rightarrow> case annotations_from_response body of Inl e \<Rightarrow> (rec, Inl e)
      | Inr annotations \<Rightarrow> case usage_from_response body of Inl e \<Rightarrow> (rec, Inl e)
      | Inr (prompt, completion, total_tokens) \<Rightarrow>
        let parsed = AList.delete ''annotations'' (parse_output env content);
            out = (if annotations = [] then parsed else AList.update ''annotations'' (JList annotations) parsed);
            rec1 = rec\<lparr>mc_status := ''succeeded'', mc_prompt_tokens := prompt, mc_completion_tokens := completion, mc_total_tokens := total_tokens\<rparr>
        in case py_float (json_or (dict_get_or ''cost_per_1k_tokens'' JNull runtime)
               (json_or (dict_get_or ''cost_per_1k_tokens'' JNull (md_defaults config)) (JNum 0))) of Inl e \<Rightarrow> (rec1, Inl e)
        | Inr cost \<Rightarrow>
            (rec1\<lparr>mc_estimated_cost := estimate_cost total_tokens cost, mc_output_summary := Some (model_summarize env (JObj out)),
               mc_finish_time := Some (ge_clk env t), mc_http_status := Some http_status,
               mc_metadata := AList.update ''latency_ms'' (jint latency_ms)
                  (AList.update ''provider_request_id'' (jopt provider_request_id) (mc_metadata rec1))\<rparr>, Inr out))"

definition model_text :: "string option \<Rightarrow> string" where
  "model_text m = (case m of None \<Rightarrow> ''None'' | Some s \<Rightarrow> py_repr s)"

definition record_model_success ::
    "gateway_env \<Rightarrow> model_call \<Rightarrow> nat \<Rightarrow> string option \<Rightarrow> model_call_record \<Rightarrow> dict \<Rightarrow> store \<Rightarrow> store \<times> dict" where
  "record_model_success env call t current_model rec out st =
     (model_log env call t ''model_call_succeeded'' ''Model Gateway call succeeded''
        [(''call_id'', JStr (mc_call_id rec)),
         (''usage'', JObj [(''prompt_tokens'', jint (mc_prompt_tokens rec)), (''completion_tokens'', jint (mc_completion_tokens rec)),
            (''total_tokens'', jint (mc_total_tokens rec))]),
         (''estimated_cost'', JNum (mc_estimated_cost rec)), (''http_status'', jnullable jint (mc_http_status rec)),
         (''latency_ms'', dict_get_or ''latency_ms'' JNull (mc_metadata rec)), (''model'', jopt current_model)] (save_call rec st),
      dict_setdefault ''model_call_id'' (JStr (mc_call_id rec))
        (dict_setdefault ''agent'' (JObj [(''name'', JStr (ml_agent_name call)), (''version'', JStr (ml_agent_version call))]) out))"

definition failed_record :: "gateway_env \<Rightarrow> nat \<Rightarrow> py_exc \<Rightarrow> model_call_record \<Rightarrow> model_call_record" where
  "failed_record env t e rec =
     rec\<lparr>mc_status := ''failed'', mc_error := Some (exc_text e), mc_http_status := ge_status_of env e,
         mc_finish_time := (case mc_finish_time rec of None \<Rightarrow> Some (ge_clk env t) | Some f \<Rightarrow> Some f)\<rparr>"

definition record_model_failure ::
    "gateway_env \<Rightarrow> model_call \<Rightarrow> nat \<Rightarrow> bool \<Rightarrow> string option \<Rightarrow> model_call_record \<Rightarrow> store \<Rightarrow> store" where
  "record_model_failure env call t is_fallback current_model rec st =
     model_log env call t ''model_call_failed'' (''Model Gateway call failed on model '' @ model_text current_model)
       [(''call_id'', JStr (mc_call_id rec)), (''error'', jopt (mc_error rec)), (''http_status'', jnullable jint (mc_http_status rec)),
        (''model'', jopt current_model), (''is_fallback'', JBool is_fallback)] (save_call rec st)"

text \<open>The models are tried in order; \<open>idx\<close> counts them and \<open>prev\<close> is the one tried before.\<close>

fun try_models ::
    "gateway_env \<Rightarrow> model_defaults \<Rightarrow> model_call \<Rightarrow> json list \<Rightarrow> nat \<Rightarrow> string option \<Rightarrow> string option list \<Rightarrow> model_call_record
       \<Rightarrow> gateway_state \<Rightarrow> gateway_state \<times> (py_exc + dict)" where
  "try_models env config call messages idx prev [] rec gst = (gst, Inl (TypeError ''exceptions must derive from BaseException''))"
| "try_models env config call messages idx prev (m # ms) rec (st, sent) =
     (let st1 = (if 0 < idx
            then model_log env call (2 * idx) ''model_fallback'' (''Falling back to model '' @ model_text m)
              [(''call_id'', JStr (mc_call_id rec)), (''fallback_model'', jopt m), (''previous_model'', jopt prev)] st
            else st);
          rec1 = (if 0 < idx then rec\<lparr>mc_model := m\<rparr> else rec)\<lparr>mc_error := None\<rparr>;
          t = 2 * idx + 1;
          fail = (\<lambda>e rec2 sent'.
            if e = CancelledError then ((st1, sent'), Inl e)
            else (let rec3 = failed_record env t e rec2;
                      st2 = record_model_failure env call t (0 < idx) m rec3 st1
                  in if \<not> should_retry_exc env (md_retry config) e \<or> ms = [] then ((st2, sent'), Inl e)
                     else try_models env config call messages (Suc idx) m ms rec3 (st2, sent')))
      in case call_with_retry env config (ml_runtime call) m messages sent of
        (sent', delays, Inl e) \<Rightarrow> fail e rec1 sent'
      | (sent', delays, Inr answer) \<Rightarrow>
          (case finish_answer env config (ml_runtime call) t answer rec1 of
             (rec2, Inl e) \<Rightarrow> fail e rec2 sent'
           | (rec2, Inr out) \<Rightarrow>
               (case record_model_success env call t m rec2 out st1 of (st2, out') \<Rightarrow> ((st2, sent'), Inr out'))))"

definition optional_name :: "json \<Rightarrow> py_exc + string option" where
  "optional_name j = (case j of JNull \<Rightarrow> Inr None | JStr s \<Rightarrow> Inr (Some s) | _ \<Rightarrow> Inl (validation_error ''ModelCallRecord''))"

definition models_to_try :: "string option \<Rightarrow> string list \<Rightarrow> string option list" where
  "models_to_try model fallback = model # map Some (filter (\<lambda>m. Some m \<noteq> model) fallback)"

definition new_call_record ::
    "gateway_env \<Rightarrow> model_call \<Rightarrow> string option \<Rightarrow> string option \<Rightarrow> json \<Rightarrow> json list \<Rightarrow> model_call_record" where
  "new_call_record env call model prompt_version instructions messages =
     (let fingerprint = dict_get_or ''prompt_fingerprint_content'' JNull (ml_runtime call) in
     \<lparr>mc_call_id = ge_call_id env, mc_run_id = ml_run_id call, mc_trace_id = ml_trace_id call, mc_agent_name = ml_agent_name call,
      mc_agent_version = ml_agent_version call, mc_provider = ''openai_compatible'', mc_model = model, mc_prompt_version = prompt_version,
      mc_prompt_hash = Some (ge_sha env (str_with (ge_text env) (if fingerprint \<noteq> JNull then fingerprint else instructions))),
      mc_input_summary = Some (model_summarize env (JObj [(''messages'', JList messages)])), mc_output_summary = None, mc_status = ''started'',
      mc_error = None, mc_prompt_tokens = 0, mc_completion_tokens = 0, mc_total_tokens = 0, mc_estimated_cost = 0,
      mc_start_time = ge_clk env 0, mc_finish_time = None,
      mc_metadata = [(''runtime'', JStr ''model_gateway''), (''prompt_name'', dict_get_or ''prompt_name'' JNull (ml_runtime call))],
      mc_http_status = None\<rparr>)"

definition fallback_names :: "gateway_env \<Rightarrow> model_defaults \<Rightarrow> dict \<Rightarrow> py_exc + string list" where
  "fallback_names env config runtime =
     (case map_of runtime ''fallback_models'' of Some f \<Rightarrow> model_names env (json_or f (JList [])) | None \<Rightarrow> Inr (md_fallback config))"

definition complete :: "gateway_env \<Rightarrow> model_defaults \<Rightarrow> model_call \<Rightarrow> gateway_state \<Rightarrow> gateway_state \<times> (py_exc + dict)" where
  "complete env config call gst =
     (let runtime = ml_runtime call;
          provider = json_or (dict_get_or ''provider'' JNull runtime) (JStr ''openai_compatible'');
          instructions = model_instructions runtime;
          model_json = json_or (dict_get_or ''model'' JNull runtime) (dict_get_or ''model'' JNull (md_defaults config));
          messages = messages_for_request env (ml_input call) (ml_metadata call) (ml_run_id call) instructions
      in if provider \<noteq> JStr ''openai_compatible''
         then (gst, Inl (ValueError (''Unsupported model provider '' @ repr_with (ge_text env) provider)))
         else case fallback_names env config runtime of Inl e \<Rightarrow> (gst, Inl e)
         | Inr fallback \<Rightarrow> case optional_name model_json of Inl e \<Rightarrow> (gst, Inl e)
         | Inr model \<Rightarrow> case optional_name (json_or (dict_get_or ''prompt_version'' JNull runtime) (JStr (ml_agent_version call))) of Inl e \<Rightarrow> (gst, Inl e)
         | Inr prompt_version \<Rightarrow>
           (let rec = new_call_record env call model prompt_version instructions messages;
                st1 = model_log env call 0 ''model_call_started'' ''Model Gateway call started''
                  [(''call_id'', JStr (mc_call_id rec)), (''provider'', JStr (mc_provider rec)), (''model'', jopt model),
                   (''prompt_version'', jopt prompt_version)] (save_call rec (fst gst))
            in try_models env config call messages 0 None (models_to_try model fallback) rec (st1, snd gst)))"

section \<open>How many requests are posted\<close>

definition call_budget :: "model_defaults \<Rightarrow> dict \<Rightarrow> nat" where
  "call_budget config runtime =
     (case py_int (dict_get_or ''max_retries'' (jint (cr_max_retries (md_retry config))) runtime) of
        Inl e \<Rightarrow> 0 | Inr n \<Rightarrow> Suc (nat (max 0 n)))"

definition built_for :: "gateway_env \<Rightarrow> model_defaults \<Rightarrow> dict \<Rightarrow> json list \<Rightarrow> string option set \<Rightarrow> model_request \<Rightarrow> bool" where
  "built_for env config runtime messages ms q = (\<exists>m \<in> ms. build_request env config runtime m messages = Inr q)"

lemma do_request_sends:
  assumes "do_request env config runtime m messages sent = (sent', r)"
  shows "sent' = sent \<and> (\<exists>e. r = Inl e)
     \<or> (\<exists>q. build_request env config runtime m messages = Inr q \<and> sent' = sent @ [q]
          \<and> (\<forall>resp l. r = Inr (resp, l) \<longrightarrow> ge_post env sent q = Inr resp))"
  using assms by (auto simp: do_request_def Let_def split: sum.splits)

lemma accept_response_body: "accept_response resp l = Inr x \<Longrightarrow> hp_body resp = Inr (fst x) \<and> hp_raise resp = None"
  by (auto simp: accept_response_def Let_def split: option.splits sum.splits prod.splits)

lemma call_attempt_sends:
  assumes "call_attempt env config runtime m messages more_left sent = (sent', r)"
  shows "\<exists>qs. sent' = sent @ qs \<and> length qs \<le> 1 \<and> (\<forall>q \<in> set qs. built_for env config runtime messages {m} q)"
    and "r = Retry \<Longrightarrow> more_left"
    and "r = Answered x \<Longrightarrow> \<exists>q resp. ge_post env sent q = Inr resp \<and> hp_body resp = Inr (fst x) \<and> hp_raise resp = None"
proof -
  obtain s d where d: "do_request env config runtime m messages sent = (s, d)" by fastforce
  have s: "sent' = s" using assms d by (auto simp: call_attempt_def Let_def split: sum.splits prod.splits if_splits)
  show "\<exists>qs. sent' = sent @ qs \<and> length qs \<le> 1 \<and> (\<forall>q \<in> set qs. built_for env config runtime messages {m} q)"
    using do_request_sends [OF d] unfolding s built_for_def by auto
  show "r = Retry \<Longrightarrow> more_left"
    using assms d by (auto simp: call_attempt_def Let_def split: sum.splits prod.splits if_splits)
  show "\<exists>q resp. ge_post env sent q = Inr resp \<and> hp_body resp = Inr (fst x) \<and> hp_raise resp = None" if r: "r = Answered x"
  proof -
    obtain resp l where resp: "d = Inr (resp, l)" "accept_response resp l = Inr x"
      using assms d r by (auto simp: call_attempt_def Let_def split: sum.splits prod.splits if_splits)
    then obtain q where "ge_post env sent q = Inr resp" using do_request_sends [OF d] by auto
    with accept_response_body [OF resp(2)] show ?thesis by blast
  qed
qed

lemma call_attempts_sends:
  assumes "call_attempts env config runtime m messages attempt left sent = (sent', delays, r)"
  shows "\<exists>qs. sent' = sent @ qs \<and> length qs \<le> Suc left \<and> (\<forall>q \<in> set qs. built_for env config runtime messages {m} q)"
    and "length delays \<le> left" and "\<forall>d \<in> set delays. d \<le> cr_max_backoff (md_retry config)"
    and "r = Inr x \<Longrightarrow> \<exists>s q resp. ge_post env s q = Inr resp \<and> hp_body resp = Inr (fst x) \<and> hp_raise resp = None"
proof -
  have "(\<exists>qs. sent' = sent @ qs \<and> length qs \<le> Suc left \<and> (\<forall>q \<in> set qs. built_for env config runtime messages {m} q))
     \<and> length delays \<le> left \<and> (\<forall>d \<in> set delays. d \<le> cr_max_backoff (md_retry config))
     \<and> (r = Inr x \<longrightarrow> (\<exists>s q resp. ge_post env s q = Inr resp \<and> hp_body resp = Inr (fst x) \<and> hp_raise resp = None))"
    using assms
  proof (induction left arbitrary: attempt sent delays)
    case 0
    obtain s a where a: "call_attempt env config runtime m messages False sent = (s, a)" by fastforce
    obtain qs where qs: "s = sent @ qs" "length qs \<le> 1" "\<forall>q \<in> set qs. built_for env config runtime messages {m} q"
      using call_attempt_sends(1) [OF a] by blast
    have "a \<noteq> Retry" using call_attempt_sends(2) [OF a] by blast
    then show ?case using 0 a qs call_attempt_sends(3) [OF a] by (cases a) auto
  next
    case (Suc left)
    obtain s a where a: "call_attempt env config runtime m messages True sent = (s, a)" by fastforce
    obtain qs where qs: "s = sent @ qs" "length qs \<le> 1" "\<forall>q \<in> set qs. built_for env config runtime messages {m} q"
      using call_attempt_sends(1) [OF a] by blast
    have d: "delay_for (md_retry config) attempt \<le> cr_max_backoff (md_retry config)" by (simp add: delay_for_def)
    show ?case
    proof (cases "a = Retry \<and> \<not> ge_interrupted env s")
      case True
      obtain s2 ds r2 where rest: "call_attempts env config runtime m messages (Suc attempt) left s = (s2, ds, r2)" by (metis prod_cases3)
      have eq: "sent' = s2" "delays = delay_for (md_retry config) attempt # ds" "r = r2"
        using Suc.prems a True rest by (auto simp: Let_def)
      show ?thesis using Suc.IH [OF rest [folded eq(1,3)]] qs d unfolding eq(2) by fastforce
    next
      case False
      then show ?thesis using Suc.prems a qs d call_attempt_sends(3) [OF a]
        by (cases a) (auto simp: Let_def)
    qed
  qed
  then show "\<exists>qs. sent' = sent @ qs \<and> length qs \<le> Suc left \<and> (\<forall>q \<in> set qs. built_for env config runtime messages {m} q)"
    "length delays \<le> left" "\<forall>d \<in> set delays. d \<le> cr_max_backoff (md_retry config)"
    "r = Inr x \<Longrightarrow> \<exists>s q resp. ge_post env s q = Inr resp \<and> hp_body resp = Inr (fst x) \<and> hp_raise resp = None" by blast+
qed

section \<open>One model after the other\<close>

lemma model_log_calls [simp]: "s_model_calls (model_log env call t et msg data st) = s_model_calls st"
  by (simp add: model_log_def)

lemma save_call_calls [simp]: "s_model_calls (save_call rec st) = model_calls_save rec (s_model_calls st)"
  by (simp add: save_call_def)

lemma failure_calls [simp]:
  "s_model_calls (record_model_failure env call t fb m rec st) = model_calls_save rec (s_model_calls st)"
  by (simp add: record_model_failure_def)

lemma success_calls [simp]:
  "s_model_calls (fst (record_model_success env call t m rec out st)) = model_calls_save rec (s_model_calls st)"
  by (simp add: record_model_success_def)

lemma finish_answer_id: "finish_answer env config rt t x rec = (rec', r) \<Longrightarrow> mc_call_id rec' = mc_call_id rec \<and> mc_error rec' = mc_error rec"
  by (auto simp: finish_answer_def Let_def split: prod.splits sum.splits)

definition prepared_record :: "nat \<Rightarrow> string option \<Rightarrow> model_call_record \<Rightarrow> model_call_record" where
  "prepared_record idx m rec = (if 0 < idx then rec\<lparr>mc_model := m\<rparr> else rec)\<lparr>mc_error := None\<rparr>"

lemma prepared_record_fields [simp]: "mc_call_id (prepared_record idx m rec) = mc_call_id rec" "mc_error (prepared_record idx m rec) = None"
  by (simp_all add: prepared_record_def)

definition announce :: "gateway_env \<Rightarrow> model_call \<Rightarrow> nat \<Rightarrow> string option \<Rightarrow> string option \<Rightarrow> string \<Rightarrow> store \<Rightarrow> store" where
  "announce env call idx prev m call_id st = (if 0 < idx
     then model_log env call (2 * idx) ''model_fallback'' (''Falling back to model '' @ model_text m)
       [(''call_id'', JStr call_id), (''fallback_model'', jopt m), (''previous_model'', jopt prev)] st else st)"

lemma announce_calls [simp]: "s_model_calls (announce env call idx prev m c st) = s_model_calls st"
  by (simp add: announce_def)

definition gave_up ::
    "gateway_env \<Rightarrow> model_defaults \<Rightarrow> model_call \<Rightarrow> json list \<Rightarrow> nat \<Rightarrow> string option \<Rightarrow> string option list \<Rightarrow> py_exc \<Rightarrow> model_call_record
       \<Rightarrow> gateway_state \<Rightarrow> gateway_state \<times> (py_exc + dict)" where
  "gave_up env config call messages idx m ms e rec gst =
     (if e = CancelledError then (gst, Inl e)
      else (let rec3 = failed_record env (2 * idx + 1) e rec;
                st2 = record_model_failure env call (2 * idx + 1) (0 < idx) m rec3 (fst gst)
            in if \<not> should_retry_exc env (md_retry config) e \<or> ms = [] then ((st2, snd gst), Inl e)
               else try_models env config call messages (Suc idx) m ms rec3 (st2, snd gst)))"

lemma try_models_step:
  "try_models env config call messages idx prev (m # ms) rec (st, sent) =
     (let st1 = announce env call idx prev m (mc_call_id rec) st; rec1 = prepared_record idx m rec in
      case call_with_retry env config (ml_runtime call) m messages sent of
        (sent', delays, Inl e) \<Rightarrow> gave_up env config call messages idx m ms e rec1 (st1, sent')
      | (sent', delays, Inr answer) \<Rightarrow>
          (case finish_answer env config (ml_runtime call) (2 * idx + 1) answer rec1 of
             (rec2, Inl e) \<Rightarrow> gave_up env config call messages idx m ms e rec2 (st1, sent')
           | (rec2, Inr out) \<Rightarrow>
               (case record_model_success env call (2 * idx + 1) m rec2 out st1 of (st2, out') \<Rightarrow> ((st2, sent'), Inr out'))))"
  unfolding try_models.simps announce_def prepared_record_def gave_up_def fst_conv snd_conv Let_def ..

declare try_models.simps(2) [simp del]

lemma call_with_retry_sends:
  assumes "call_with_retry env config runtime m messages sent = (sent', delays, r)"
  shows "\<exists>qs. sent' = sent @ qs \<and> length qs \<le> call_budget config runtime \<and> (\<forall>q \<in> set qs. built_for env config runtime messages {m} q)"
    and "r = Inr x \<Longrightarrow> \<exists>s q resp. ge_post env s q = Inr resp \<and> hp_body resp = Inr (fst x) \<and> hp_raise resp = None"
proof -
  show "\<exists>qs. sent' = sent @ qs \<and> length qs \<le> call_budget config runtime \<and> (\<forall>q \<in> set qs. built_for env config runtime messages {m} q)"
    using assms call_attempts_sends(1) unfolding call_with_retry_def call_budget_def by (auto split: sum.splits)
  show "r = Inr x \<Longrightarrow> \<exists>s q resp. ge_post env s q = Inr resp \<and> hp_body resp = Inr (fst x) \<and> hp_raise resp = None"
    using assms call_attempts_sends(4) unfolding call_with_retry_def by (auto split: sum.splits)
qed

lemma built_for_mono: "built_for env config runtime messages ms q \<Longrightarrow> ms \<subseteq> ms' \<Longrightarrow> built_for env config runtime messages ms' q"
  by (auto simp: built_for_def)

lemma gave_up_cases:
  assumes "gave_up env config call messages idx m ms e rec (st, sent) = x"
  obtains (interrupted) "e = CancelledError" and "x = ((st, sent), Inl e)"
    | (ended) st2 where "e \<noteq> CancelledError" and "\<not> should_retry_exc env (md_retry config) e \<or> ms = []" and "x = ((st2, sent), Inl e)"
        and "s_model_calls st2 = model_calls_save (failed_record env (2 * idx + 1) e rec) (s_model_calls st)"
    | (another) st2 where "e \<noteq> CancelledError" and "should_retry_exc env (md_retry config) e"
        and "x = try_models env config call messages (Suc idx) m ms (failed_record env (2 * idx + 1) e rec) (st2, sent)"
        and "s_model_calls st2 = model_calls_save (failed_record env (2 * idx + 1) e rec) (s_model_calls st)"
proof -
  let ?rec = "failed_record env (2 * idx + 1) e rec"
  let ?st = "record_model_failure env call (2 * idx + 1) (0 < idx) m ?rec st"
  have "s_model_calls ?st = model_calls_save ?rec (s_model_calls st)" by simp
  then show ?thesis using assms interrupted ended [of ?st] another [of ?st] unfolding gave_up_def Let_def fst_conv snd_conv
    by (auto split: if_splits)
qed

lemma try_models_sends:
  assumes "try_models env config call messages idx prev ms rec (st, sent) = ((st', sent'), r)"
  shows "\<exists>qs. sent' = sent @ qs \<and> length qs \<le> call_budget config (ml_runtime call) * length ms
     \<and> (\<forall>q \<in> set qs. built_for env config (ml_runtime call) messages (set ms) q)"
  using assms
proof (induction ms arbitrary: idx prev rec st sent)
  case (Cons m ms)
  let ?P = "\<lambda>s s'. \<exists>qs. s' = s @ qs \<and> length qs \<le> call_budget config (ml_runtime call) * length ms
     \<and> (\<forall>q \<in> set qs. built_for env config (ml_runtime call) messages (set ms) q)"
  obtain s ds a where w: "call_with_retry env config (ml_runtime call) m messages sent = (s, ds, a)" by (metis prod_cases3)
  from call_with_retry_sends(1) [OF w] obtain qs where qs: "s = sent @ qs" "length qs \<le> call_budget config (ml_runtime call)"
    "\<forall>q \<in> set qs. built_for env config (ml_runtime call) messages {m} q" by blast
  have up: "?P s sent'" if "gave_up env config call messages idx m ms e rec2 (st1, s) = ((st', sent'), r)" for e rec2 st1
    using that
  proof (cases rule: gave_up_cases)
    case (another st2)
    from Cons.IH [OF another(3) [symmetric]] show ?thesis .
  qed simp_all
  have "?P s sent'"
  proof (cases a)
    case (Inl e)
    then show ?thesis using Cons.prems up unfolding try_models_step w Let_def by simp
  next
    case (Inr x)
    obtain rec2 b where f: "finish_answer env config (ml_runtime call) (2 * idx + 1) x (prepared_record idx m rec) = (rec2, b)" by fastforce
    show ?thesis using Cons.prems up f unfolding try_models_step w Let_def Inr by (auto split: sum.splits prod.splits)
  qed
  then obtain qs' where "sent' = s @ qs'" "length qs' \<le> call_budget config (ml_runtime call) * length ms"
     "\<forall>q \<in> set qs'. built_for env config (ml_runtime call) messages (set ms) q" by blast
  then show ?case using qs built_for_mono by (intro exI [of _ "qs @ qs'"]) (auto, blast+)
qed simp

section \<open>The record of a call\<close>

definition stored_call :: "string \<Rightarrow> store \<Rightarrow> model_call_record option" where
  "stored_call c st = map_option mr_record (row_get (\<lambda>r. mc_call_id (mr_record r)) c (s_model_calls st))"

definition stored_in :: "string \<Rightarrow> model_call_row list \<Rightarrow> model_call_record option" where
  "stored_in c rows = map_option mr_record (row_get (\<lambda>r. mc_call_id (mr_record r)) c rows)"

lemma stored_in_save: "stored_in c (model_calls_save rec rows) = (if c = mc_call_id rec then Some rec else stored_in c rows)"
  by (simp add: stored_in_def model_calls_save_def row_get_merge)

lemma stored_call_in: "stored_call c st = stored_in c (s_model_calls st)"
  by (simp add: stored_call_def stored_in_def)

definition call_ended :: "py_exc + dict \<Rightarrow> model_call_record \<Rightarrow> bool" where
  "call_ended r rec = (case r of
      Inr out \<Rightarrow> mc_status rec = ''succeeded'' \<and> mc_error rec = None \<and> mc_finish_time rec \<noteq> None
    | Inl e \<Rightarrow> if e = CancelledError then mc_status rec \<in> {''started'', ''failed''}
        else mc_status rec = ''failed'' \<and> mc_error rec = Some (exc_text e) \<and> mc_finish_time rec \<noteq> None)"

lemma failed_record_fields [simp]:
  "mc_call_id (failed_record env t e rec) = mc_call_id rec" "mc_status (failed_record env t e rec) = ''failed''"
  "mc_error (failed_record env t e rec) = Some (exc_text e)" "\<exists>f. mc_finish_time (failed_record env t e rec) = Some f"
  by (auto simp: failed_record_def split: option.split)

lemma finish_answer_done:
  assumes "finish_answer env config rt t x rec = (rec', Inr out)"
  shows "mc_status rec' = ''succeeded'' \<and> mc_finish_time rec' \<noteq> None
     \<and> (\<exists>as. annotations_from_response (fst x) = Inr as \<and> map_of out ''annotations'' = (if as = [] then None else Some (JList as)))"
proof -
  obtain body status latency rid where x: "x = (body, status, latency, rid)" by (metis prod_cases4)
  obtain as parsed where a: "annotations_from_response body = Inr as" "mc_status rec' = ''succeeded''" "\<exists>f. mc_finish_time rec' = Some f"
    "out = (if as = [] then AList.delete ''annotations'' parsed else AList.update ''annotations'' (JList as) (AList.delete ''annotations'' parsed))"
    using assms unfolding finish_answer_def x prod.case Let_def
    by (cases "content_from_response env body"; cases "annotations_from_response body"; cases "usage_from_response body")
      (auto split: sum.splits)
  have "map_of out ''annotations'' = (if as = [] then None else Some (JList as))"
    by (simp add: a(4) update_conv' delete_conv')
  then show ?thesis using a by (auto simp: x)
qed

lemma setdefault_annotations:
  "map_of (snd (record_model_success env call t m rec out st)) ''annotations'' = map_of out ''annotations''"
  by (simp add: record_model_success_def map_of_setdefault split: option.split)

lemma try_models_record:
  assumes "try_models env config call messages idx prev ms rec (st, sent) = ((st', sent'), r)" and "ms \<noteq> []"
    and "stored_call (mc_call_id rec) st = Some rec0" and "mc_status rec0 \<in> {''started'', ''failed''}"
  shows "(\<forall>c. c \<noteq> mc_call_id rec \<longrightarrow> stored_call c st' = stored_call c st)
     \<and> (\<exists>rec'. stored_call (mc_call_id rec) st' = Some rec' \<and> call_ended r rec')"
  using assms
proof (induction ms arbitrary: idx prev rec rec0 st sent)
  case (Cons m ms)
  let ?P = "\<lambda>st1. (\<forall>c. c \<noteq> mc_call_id rec \<longrightarrow> stored_call c st' = stored_call c st1)
     \<and> (\<exists>rec'. stored_call (mc_call_id rec) st' = Some rec' \<and> call_ended r rec')"
  let ?st = "announce env call idx prev m (mc_call_id rec) st"
  have st: "stored_call c ?st = stored_call c st" for c by (simp add: stored_call_in)
  obtain s ds a where w: "call_with_retry env config (ml_runtime call) m messages sent = (s, ds, a)" by (metis prod_cases3)
  have up: "?P ?st" if g: "gave_up env config call messages idx m ms e rec2 (?st, s) = ((st', sent'), r)" and id: "mc_call_id rec2 = mc_call_id rec" for e rec2
    using g
  proof (cases rule: gave_up_cases)
    case interrupted
    then show ?thesis using Cons.prems(3,4) st by (auto simp: call_ended_def)
  next
    case (ended st2)
    then show ?thesis by (auto simp: stored_call_in stored_in_save id call_ended_def)
  next
    case (another st2)
    let ?rec = "failed_record env (2 * idx + 1) e rec2"
    have saved: "stored_call c st2 = (if c = mc_call_id rec then Some ?rec else stored_call c ?st)" for c
      by (simp add: stored_call_in another(4) stored_in_save id)
    show ?thesis
    proof (cases "ms = []")
      case True
      then show ?thesis using g another(1) by (auto simp: gave_up_def Let_def stored_call_in stored_in_save id call_ended_def)
    next
      case False
      have "stored_call (mc_call_id ?rec) st2 = Some ?rec" by (simp add: saved id)
      from Cons.IH [OF another(3) [symmetric] False this] show ?thesis by (simp add: saved id)
    qed
  qed
  have "?P ?st"
  proof (cases a)
    case (Inl e)
    then show ?thesis using Cons.prems(1) up unfolding try_models_step w Let_def by simp
  next
    case (Inr x)
    obtain rec2 b where f: "finish_answer env config (ml_runtime call) (2 * idx + 1) x (prepared_record idx m rec) = (rec2, b)" by fastforce
    note id = finish_answer_id [OF f]
    show ?thesis
    proof (cases b)
      case (Inl e)
      then show ?thesis using Cons.prems(1) up [of e rec2] f id unfolding try_models_step w Let_def Inr by simp
    next
      case ok: (Inr out)
      obtain st2 out' where rs: "record_model_success env call (2 * idx + 1) m rec2 out ?st = (st2, out')" by fastforce
      have "st' = st2" "r = Inr out'" using Cons.prems(1) f rs unfolding try_models_step w Let_def Inr ok by simp_all
      moreover have "s_model_calls st2 = model_calls_save rec2 (s_model_calls ?st)" using success_calls [of env call "2 * idx + 1" m rec2 out ?st] unfolding rs fst_conv .
      ultimately show ?thesis
        using id finish_answer_done [OF f [unfolded ok]] by (auto simp: stored_call_in stored_in_save call_ended_def)
    qed
  qed
  then show ?case by (simp add: st)
qed simp

lemma try_models_annotations:
  assumes "try_models env config call messages idx prev ms rec (st, sent) = ((st', sent'), Inr out)"
  shows "\<exists>s q resp body as. ge_post env s q = Inr resp \<and> hp_body resp = Inr body \<and> annotations_from_response body = Inr as
     \<and> map_of out ''annotations'' = (if as = [] then None else Some (JList as))"
  using assms
proof (induction ms arbitrary: idx prev rec st sent)
  case (Cons m ms)
  let ?st = "announce env call idx prev m (mc_call_id rec) st"
  obtain s ds a where w: "call_with_retry env config (ml_runtime call) m messages sent = (s, ds, a)" by (metis prod_cases3)
  have up: ?case if "gave_up env config call messages idx m ms e rec2 (?st, s) = ((st', sent'), Inr out)" for e rec2
    using that
  proof (cases rule: gave_up_cases)
    case (another st2)
    from Cons.IH [OF another(3) [symmetric]] show ?thesis .
  qed simp_all
  show ?case
  proof (cases a)
    case (Inl e)
    then show ?thesis using Cons.prems up unfolding try_models_step w Let_def by simp
  next
    case (Inr x)
    obtain rec2 b where f: "finish_answer env config (ml_runtime call) (2 * idx + 1) x (prepared_record idx m rec) = (rec2, b)" by fastforce
    show ?thesis
    proof (cases b)
      case (Inl e)
      then show ?thesis using Cons.prems up [of e rec2] f unfolding try_models_step w Let_def Inr by simp
    next
      case ok: (Inr out1)
      obtain q resp s1 where p: "ge_post env s1 q = Inr resp" "hp_body resp = Inr (fst x)"
        using call_with_retry_sends(2) [OF w [unfolded Inr]] by blast
      have "out = snd (record_model_success env call (2 * idx + 1) m rec2 out1 ?st)"
        using Cons.prems f unfolding try_models_step w Let_def Inr ok by (simp split: prod.splits)
      then have "map_of out ''annotations'' = map_of out1 ''annotations''" using setdefault_annotations by metis
      with p finish_answer_done [OF f [unfolded ok]] show ?thesis by fastforce
    qed
  qed
qed simp

section \<open>Properties\<close>

lemma complete_cases:
  assumes "complete env config call (st, sent) = (gst', r)"
  obtains (refused) e where "gst' = (st, sent)" and "r = Inl e"
    | (tried) names model instructions pv rec st1 messages where "fallback_names env config (ml_runtime call) = Inr names"
        and "messages = messages_for_request env (ml_input call) (ml_metadata call) (ml_run_id call) instructions"
        and "instructions = model_instructions (ml_runtime call)"
        and "rec = new_call_record env call model pv instructions messages"
        and "s_model_calls st1 = model_calls_save rec (s_model_calls st)"
        and "try_models env config call messages 0 None (models_to_try model names) rec (st1, sent) = (gst', r)"
proof -
  let ?rt = "ml_runtime call"
  let ?model = "optional_name (json_or (dict_get_or ''model'' JNull ?rt) (dict_get_or ''model'' JNull (md_defaults config)))"
  let ?pv = "optional_name (json_or (dict_get_or ''prompt_version'' JNull ?rt) (JStr (ml_agent_version call)))"
  show ?thesis
  proof (cases "json_or (dict_get_or ''provider'' JNull ?rt) (JStr ''openai_compatible'') \<noteq> JStr ''openai_compatible''
      \<or> (\<exists>e. fallback_names env config ?rt = Inl e) \<or> (\<exists>e. ?model = Inl e) \<or> (\<exists>e. ?pv = Inl e)")
    case True
    then have "gst' = (st, sent) \<and> (\<exists>e. r = Inl e)"
      using assms unfolding complete_def Let_def by (auto split: sum.splits if_splits)
    then show ?thesis using refused by blast
  next
    case False
    then obtain names model pv where ok: "json_or (dict_get_or ''provider'' JNull ?rt) (JStr ''openai_compatible'') = JStr ''openai_compatible''"
      "fallback_names env config ?rt = Inr names" "?model = Inr model" "?pv = Inr pv" by (metis sum.exhaust)
    let ?is = "model_instructions ?rt"
    let ?ms = "messages_for_request env (ml_input call) (ml_metadata call) (ml_run_id call) ?is"
    let ?rec = "new_call_record env call model pv ?is ?ms"
    let ?st = "model_log env call 0 ''model_call_started'' ''Model Gateway call started''
        [(''call_id'', JStr (mc_call_id ?rec)), (''provider'', JStr (mc_provider ?rec)), (''model'', jopt model), (''prompt_version'', jopt pv)]
        (save_call ?rec st)"
    have "try_models env config call ?ms 0 None (models_to_try model names) ?rec (?st, sent) = (gst', r)"
      using assms unfolding complete_def Let_def ok sum.case fst_conv snd_conv by simp
    moreover have "s_model_calls ?st = model_calls_save ?rec (s_model_calls st)" by simp
    ultimately show ?thesis using tried [OF ok(2) refl refl refl] by blast
  qed
qed


text \<open>
  The record of a call tells how it ended. A completion that was not refused for its
  configuration leaves one record: \<open>succeeded\<close> without an error when it returned an output, \<open>failed\<close> with the
  error that was raised, and unfinished only when it was cancelled; no other record changes.
\<close>

theorem model_call_is_recorded:
  assumes "complete env config call (st, sent) = ((st', sent'), r)"
  shows "st' = st \<and> sent' = sent \<and> (\<exists>e. r = Inl e)
     \<or> (\<exists>rec. stored_call (ge_call_id env) st' = Some rec \<and> call_ended r rec)
       \<and> (\<forall>c. c \<noteq> ge_call_id env \<longrightarrow> stored_call c st' = stored_call c st)"
  using assms
proof (cases rule: complete_cases)
  case (tried names model instructions pv rec st1 messages)
  have id: "mc_call_id rec = ge_call_id env" "mc_status rec = ''started''" by (simp_all add: tried(4) new_call_record_def Let_def)
  have saved: "stored_call c st1 = (if c = ge_call_id env then Some rec else stored_call c st)" for c
    by (simp add: stored_call_in tried(5) stored_in_save id)
  have ms: "models_to_try model names \<noteq> []" by (simp add: models_to_try_def)
  have "stored_call (mc_call_id rec) st1 = Some rec" by (simp add: saved id)
  from try_models_record [OF tried(6) ms this] id saved show ?thesis by simp
qed simp

text \<open>
  C33: Annotations are the provider's. The field \<open>annotations\<close> of an output is the list of the provider's answer
  that was accepted, and it is absent when that list is empty, whatever the model wrote.
\<close>

theorem annotations_are_the_providers:
  assumes "complete env config call gst = (gst', Inr out)"
  shows "\<exists>before q resp body as. ge_post env before q = Inr resp \<and> hp_body resp = Inr body \<and> annotations_from_response body = Inr as
     \<and> map_of out ''annotations'' = (if as = [] then None else Some (JList as))"
proof -
  obtain st sent where gst: "gst = (st, sent)" by fastforce
  from assms [unfolded gst] show ?thesis
  proof (cases rule: complete_cases)
    case (tried names model instructions pv rec st1 messages)
    obtain st' sent' where "gst' = (st', sent')" by fastforce
    with try_models_annotations tried(6) show ?thesis by metis
  qed simp
qed

text \<open>
  A model can name another call. The fields \<open>model_call_id\<close> and \<open>agent\<close> are only set when the output has
  none: when the text of the model is a JSON object with a field \<open>model_call_id\<close>, the output refers
  to the record the model names, not to the one of this call.
\<close>

theorem model_names_its_own_call:
  assumes "finish_answer env config rt t x rec = (rec2, Inr out)" and "content_from_response env (fst x) = Inr content"
    and "map_of (parse_output env content) ''model_call_id'' = Some v"
  shows "map_of (snd (record_model_success env call t m rec2 out st)) ''model_call_id'' = Some v"
proof -
  obtain body status latency rid where x: "x = (body, status, latency, rid)" by (metis prod_cases4)
  obtain as where "out = (if as = [] then AList.delete ''annotations'' (parse_output env content)
      else AList.update ''annotations'' (JList as) (AList.delete ''annotations'' (parse_output env content)))"
    using assms(1,2) unfolding finish_answer_def x prod.case Let_def fst_conv
    by (cases "annotations_from_response body"; cases "usage_from_response body") (auto split: sum.splits)
  then have "map_of out ''model_call_id'' = Some v" using assms(3) by (simp add: update_conv' delete_conv')
  then show ?thesis by (auto simp: record_model_success_def map_of_setdefault split: option.splits)
qed

section \<open>Witnesses\<close>

definition demo_answer :: json where
  "demo_answer = JObj [(''choices'', JList [JObj [(''message'', JObj [(''content'', JStr ''o''), (''annotations'', JList [JStr ''a''])])]])]"

definition demo_gateway_env :: gateway_env where
  "demo_gateway_env =
     \<lparr>ge_post = (\<lambda>sent q. if sent = [] then Inl (OtherException ''ConnectError'' [])
        else Inr \<lparr>hp_status_code = 200, hp_raise = None, hp_body = Inr demo_answer, hp_request_ids = (None, None)\<rparr>),
      ge_interrupted = (\<lambda>sent. False), ge_transport = (\<lambda>e. False), ge_status_of = (\<lambda>e. None), ge_dumps = (\<lambda>j. []),
      ge_loads = (\<lambda>s. Some (JObj [(''annotations'', JStr ''forged''), (''model_call_id'', JStr ''X'')])), ge_text = (\<lambda>j. []), ge_sha = id,
      ge_call_id = ''C'', ge_clk = int, ge_mono = (\<lambda>n. 0)\<rparr>"

definition demo_model_config :: model_defaults where
  "demo_model_config = \<lparr>md_defaults = [(''base_url'', JStr ''u''), (''model'', JStr ''m'')], md_timeout = 60,
     md_retry = \<lparr>cr_max_retries = 1, cr_initial_backoff = 1, cr_max_backoff = 30, cr_multiplier = 2, cr_codes = RETRYABLE_STATUS_CODES\<rparr>,
     md_fallback = [''n'']\<rparr>"

definition demo_call :: model_call where
  "demo_call = \<lparr>ml_run_id = ''R'', ml_trace_id = ''T'', ml_agent_name = ''a'', ml_agent_version = ''1'', ml_input = [], ml_metadata = [], ml_runtime = []\<rparr>"

definition no_rows :: store where
  "no_rows = \<lparr>s_runs = [], s_stages = [], s_conversations = [], s_logs = [], s_callbacks = [], s_model_calls = []\<rparr>"

lemma demo_complete:
  "case complete demo_gateway_env demo_model_config demo_call (no_rows, []) of ((st, sent), r) \<Rightarrow>
     length sent = 2 \<and> (case r of Inl e \<Rightarrow> False | Inr out \<Rightarrow> map_of out ''annotations'' = Some (JList [JStr ''a'']))"
  by code_simp

lemma demo_complete_result:
  obtains st sent out where "complete demo_gateway_env demo_model_config demo_call (no_rows, []) = ((st, sent), Inr out)"
    and "length sent = 2" and "map_of out ''annotations'' = Some (JList [JStr ''a''])"
  using demo_complete by (auto split: prod.splits sum.splits)


theorem model_call_is_recorded_witness:
  "\<exists>st sent r. complete demo_gateway_env demo_model_config demo_call (no_rows, []) = ((st, sent), r)
     \<and> (\<exists>rec. stored_call ''C'' st = Some rec \<and> mc_status rec = ''succeeded'')"
proof -
  obtain st sent out where c: "complete demo_gateway_env demo_model_config demo_call (no_rows, []) = ((st, sent), Inr out)" "length sent = 2"
    by (rule demo_complete_result)
  have "ge_call_id demo_gateway_env = ''C''" by (simp add: demo_gateway_env_def)
  with model_call_is_recorded [OF c(1)] c show ?thesis by (auto simp: call_ended_def)
qed

theorem annotations_are_the_providers_witness:
  "\<exists>gst out body as. complete demo_gateway_env demo_model_config demo_call (no_rows, []) = (gst, Inr out)
     \<and> annotations_from_response body = Inr as \<and> as \<noteq> [] \<and> map_of out ''annotations'' = Some (JList as)"
proof -
  obtain st sent out where c: "complete demo_gateway_env demo_model_config demo_call (no_rows, []) = ((st, sent), Inr out)"
    "map_of out ''annotations'' = Some (JList [JStr ''a''])" by (rule demo_complete_result)
  obtain body as where a: "annotations_from_response body = Inr as" "map_of out ''annotations'' = (if as = [] then None else Some (JList as))"
    using annotations_are_the_providers [OF c(1)] by blast
  then have "as \<noteq> []" using c(2) by auto
  with a c(1) show ?thesis by fastforce
qed

definition demo_record :: model_call_record where
  "demo_record = new_call_record demo_gateway_env demo_call (Some ''m'') None JNull []"

lemma demo_finish:
  "case finish_answer demo_gateway_env demo_model_config [] 1 (demo_answer, 200, 0, None) demo_record of (rec2, r) \<Rightarrow> (case r of Inl e \<Rightarrow> False | Inr out \<Rightarrow> True)"
  by code_simp

theorem model_names_its_own_call_witness:
  "\<exists>rec2 out. finish_answer demo_gateway_env demo_model_config [] 1 (demo_answer, 200, 0, None) demo_record = (rec2, Inr out)
     \<and> map_of (snd (record_model_success demo_gateway_env demo_call 1 (Some ''m'') rec2 out no_rows)) ''model_call_id'' = Some (JStr ''X'')"
proof -
  obtain rec2 out where f: "finish_answer demo_gateway_env demo_model_config [] 1 (demo_answer, 200, 0, None) demo_record = (rec2, Inr out)"
    using demo_finish by (auto split: prod.splits sum.splits)
  have "content_from_response demo_gateway_env (fst (demo_answer, 200 :: int, 0 :: int, None :: string option)) = Inr ''o''"
    "map_of (parse_output demo_gateway_env ''o'') ''model_call_id'' = Some (JStr ''X'')" by code_simp+
  with model_names_its_own_call [OF f] f show ?thesis by blast
qed

end
