(* ===== verification/Schema.thy ===== *)
theory Schema
  imports Codec Dynamic
begin

text \<open>
  Models that are declared field by field (the Pydantic classes of settings and configuration): a declaration is a
  value of \<open>field_type\<close>, and \<open>validate\<close> is \<^verbatim>\<open>model_validate\<close> followed by \<^verbatim>\<open>model_dump\<close>. An
  instance is the dictionary it is dumped to, with its fields in the order of the declaration.

  How a scalar is coerced is the parameter of \<^verbatim>\<open>Codec\<close>. A declaration is stable when a validated value is
  accepted again without change, which is what lets configuration be written to its table and read back; the rules
  \<open>stable_rules\<close> prove it for a declaration from its parts.
\<close>

section \<open>Dictionaries\<close>

text \<open>\<^verbatim>\<open>d | e\<close> and \<^verbatim>\<open>d.update(e)\<close>\<close>

definition dict_update :: "dict \<Rightarrow> dict \<Rightarrow> dict" where
  "dict_update d e = fold (\<lambda>(k, v). AList.update k v) e d"

lemma dict_update_simps [simp]:
  "dict_update d [] = d" "dict_update d ((k, v) # e) = dict_update (AList.update k v d) e"
  by (simp_all add: dict_update_def)

lemma map_of_dict_update: "map_of (dict_update d e) k = (case map_of (rev e) k of None \<Rightarrow> map_of d k | Some x \<Rightarrow> Some x)"
  by (induction e arbitrary: d) (auto simp: update_conv' map_add_def split: option.splits)

lemma AList_update_keys: "fst ` set (AList.update k x d) = insert k (fst ` set d)"
  by (induction d) auto

lemma dict_update_keys: "fst ` set (dict_update d e) = fst ` set d \<union> fst ` set e"
proof (induction e arbitrary: d)
  case (Cons kx e)
  then show ?case by (cases kx) (simp add: AList_update_keys)
qed simp

section \<open>Declarations\<close>

datatype extra_fields = Forbid | Allow | Ignore

datatype field_type =
    Str_of "string \<Rightarrow> bool"
  | Int_of "int \<Rightarrow> bool"
  | Float_of "rat \<Rightarrow> bool"
  | Bool_of
  | Any_of
  | Literal_of "string list"
  | Nullable field_type
  | List_of field_type
  | Dict_of field_type
  | Prepared "json \<Rightarrow> json" field_type
  | Checked field_type "json \<Rightarrow> json option"
  | Model_of "(string \<times> field_type \<times> json option) list" extra_fields
  | Union_of field_type field_type

text \<open>The instance without arguments; defaults are not validated.\<close>

definition defaults_of :: "(string \<times> field_type \<times> json option) list \<Rightarrow> json" where
  "defaults_of fs = JObj (map (\<lambda>(k, t, dflt). (k, case dflt of None \<Rightarrow> JNull | Some x \<Rightarrow> x)) fs)"

definition field_value :: "(json \<Rightarrow> json option) \<Rightarrow> string \<Rightarrow> json option \<Rightarrow> dict \<Rightarrow> (string \<times> json) option" where
  "field_value f k dflt d = map_option (Pair k) (case map_of d k of None \<Rightarrow> dflt | Some x \<Rightarrow> f x)"

definition extra_values :: "extra_fields \<Rightarrow> string list \<Rightarrow> dict \<Rightarrow> dict option" where
  "extra_values extra names d =
     (let rest = filter (\<lambda>kv. fst kv \<notin> set names) d in
      case extra of Forbid \<Rightarrow> if rest = [] then Some [] else None | Allow \<Rightarrow> Some rest | Ignore \<Rightarrow> Some [])"

fun validate :: "scalars \<Rightarrow> field_type \<Rightarrow> json \<Rightarrow> json option" where
  "validate v (Str_of p) j = do { s \<leftarrow> sc_str v j; if p s then Some (JStr s) else None }"
| "validate v (Int_of p) j = do { i \<leftarrow> sc_int v j; if p i then Some (jint i) else None }"
| "validate v (Float_of p) j = do { x \<leftarrow> sc_float v j; if p x then Some (JNum x) else None }"
| "validate v Bool_of j = map_option JBool (sc_bool v j)"
| "validate v Any_of j = Some j"
| "validate v (Literal_of ws) j = (case j of JStr s \<Rightarrow> if s \<in> set ws then Some j else None | _ \<Rightarrow> None)"
| "validate v (Nullable t) j = (if j = JNull then Some JNull else validate v t j)"
| "validate v (List_of t) j = map_option JList (as_list (\<lambda>x. validate v t x) j)"
| "validate v (Dict_of t) j = map_option JObj (as_map (\<lambda>x. validate v t x) j)"
| "validate v (Prepared g t) j = validate v t (g j)"
| "validate v (Checked t g) j = do { x \<leftarrow> validate v t j; g x }"
| "validate v (Model_of fs extra) j = do {
     d \<leftarrow> as_dict j;
     vals \<leftarrow> those (map (\<lambda>(k, t, dflt). field_value (\<lambda>x. validate v t x) k dflt d) fs);
     rest \<leftarrow> extra_values extra (map fst fs) d;
     Some (JObj (vals @ rest)) }"
| "validate v (Union_of t u) j = (case validate v t j of None \<Rightarrow> validate v u j | Some x \<Rightarrow> Some x)"

section \<open>Stable declarations\<close>

named_theorems stable_rules \<open>declarations whose values are accepted again unchanged\<close>

definition stable :: "scalars \<Rightarrow> field_type \<Rightarrow> bool" where
  "stable v t \<longleftrightarrow> (\<forall>j x. validate v t j = Some x \<longrightarrow> validate v t x = Some x)"

lemma stableD: "stable v t \<Longrightarrow> validate v t j = Some x \<Longrightarrow> validate v t x = Some x"
  by (auto simp: stable_def)

interpretation instances: json_codec "\<lambda>x. x" "validate v t" "\<lambda>x. stable v t \<and> (\<exists>j. validate v t j = Some x)" for v t
  by unfold_locales (auto dest: stableD)

lemma those_SomeD: "those xs = Some ys \<Longrightarrow> xs = map Some ys"
  by (induction xs arbitrary: ys) (auto split: option.splits)

lemma those_map_Some [simp]: "those (map Some xs) = Some xs"
  by (induction xs) simp_all

lemma those_map_iff: "those (map f xs) = Some ys \<longleftrightarrow> map f xs = map Some ys"
  using those_SomeD [of "map f xs"] by auto

lemma as_list_Some: "as_list f j = Some ys \<longleftrightarrow> (\<exists>xs. j = JList xs \<and> map f xs = map Some ys)"
  by (cases j) (auto simp: as_list_def those_map_iff)

lemma as_map_Some: "as_map f j = Some e \<longleftrightarrow> (\<exists>d. j = JObj d \<and> map (\<lambda>(k, x). map_option (Pair k) (f x)) d = map Some e)"
  by (cases j) (auto simp: as_map_def those_map_iff)

lemma stable_scalars [stable_rules]:
  assumes "faithful_scalars v"
  shows "stable v (Str_of p)" "stable v (Int_of q)" "stable v (Float_of r)" "stable v Bool_of" "stable v Any_of" "stable v (Literal_of ws)"
  using faithful_scalarsD [OF assms] by (auto simp: stable_def bind_eq_Some_conv split: if_splits json.splits)

lemma stable_Nullable [stable_rules]: "stable v t \<Longrightarrow> stable v (Nullable t)"
  by (auto simp: stable_def split: if_splits)

lemma map_eq_Some_fixed:
  assumes "map f xs = map Some ys" and "\<And>x y. x \<in> set xs \<Longrightarrow> f x = Some y \<Longrightarrow> f y = Some y"
  shows "map f ys = map Some ys"
  using assms
proof (induction xs arbitrary: ys)
  case (Cons x xs)
  from Cons.prems(1) obtain z zs where ys: "ys = z # zs" "f x = Some z" "map f xs = map Some zs" by (cases ys) auto
  have "map f zs = map Some zs" using ys(3) by (rule Cons.IH) (rule Cons.prems(2), simp_all)
  moreover have "f z = Some z" using ys(2) by (rule Cons.prems(2) [rotated]) simp
  ultimately show ?case using ys(1) by simp
qed simp

lemma stable_List [stable_rules]:
  assumes "stable v t"
  shows "stable v (List_of t)"
  unfolding stable_def
proof (intro allI impI)
  fix j x
  assume "validate v (List_of t) j = Some x"
  then obtain d e where "x = JList e" and "map (\<lambda>x. validate v t x) d = map Some e" by (auto simp: as_list_Some)
  moreover from this(2) have "map (\<lambda>x. validate v t x) e = map Some e"
    by (rule map_eq_Some_fixed) (use stableD [OF assms] in auto)
  ultimately show "validate v (List_of t) x = Some x" by (simp add: as_list_Some)
qed

lemma stable_Dict [stable_rules]:
  assumes "stable v t"
  shows "stable v (Dict_of t)"
  unfolding stable_def
proof (intro allI impI)
  fix j x
  assume "validate v (Dict_of t) j = Some x"
  then obtain d e where "x = JObj e" and "map (\<lambda>(k, x). map_option (Pair k) (validate v t x)) d = map Some e"
    by (auto simp: as_map_Some)
  moreover from this(2) have "map (\<lambda>(k, x). map_option (Pair k) (validate v t x)) e = map Some e"
    by (rule map_eq_Some_fixed) (use stableD [OF assms] in auto)
  ultimately show "validate v (Dict_of t) x = Some x" by (simp add: as_map_Some)
qed

lemma stable_Prepared:
  assumes "stable v t" and "\<And>j x. validate v t j = Some x \<Longrightarrow> g x = x"
  shows "stable v (Prepared g t)"
  using assms unfolding stable_def by (metis validate.simps(10))

lemma stable_Checked:
  assumes "stable v t" and "\<And>j x y. validate v t j = Some x \<Longrightarrow> g x = Some y \<Longrightarrow> y = x"
  shows "stable v (Checked t g)"
  using assms unfolding stable_def by (auto simp: bind_eq_Some_conv) (metis stable_def)

text \<open>A field keeps its place and its value when the instance is validated again.\<close>

definition field_ok :: "scalars \<Rightarrow> string \<times> field_type \<times> json option \<Rightarrow> bool" where
  "field_ok v f = (case f of (k, t, dflt) \<Rightarrow> stable v t \<and> (case dflt of None \<Rightarrow> True | Some x \<Rightarrow> validate v t x = Some x))"

lemma field_values_keys:
  assumes "map (\<lambda>(k, t, dflt). field_value (\<lambda>x. validate v t x) k dflt d) fs = map Some vals"
  shows "map fst vals = map fst fs"
  using assms by (induction fs arbitrary: vals) (auto simp: field_value_def Cons_eq_map_conv split: option.splits)

lemma field_values_valid:
  assumes "map (\<lambda>(k, t, dflt). field_value (\<lambda>x. validate v t x) k dflt d) fs = map Some vals" and "list_all (field_ok v) fs"
  shows "list_all2 (\<lambda>(k, t, dflt) (k', x). k' = k \<and> validate v t x = Some x) fs vals"
  using assms
proof (induction fs arbitrary: vals)
  case (Cons f fs)
  obtain k t dflt where f: "f = (k, t, dflt)" by (cases f)
  obtain kx vs where vs: "vals = kx # vs" "field_value (\<lambda>x. validate v t x) k dflt d = Some kx"
    "map (\<lambda>(k, t, dflt). field_value (\<lambda>x. validate v t x) k dflt d) fs = map Some vs"
    using Cons.prems(1) f by (cases "vals") auto
  have "fst kx = k \<and> validate v t (snd kx) = Some (snd kx)"
  proof (cases "map_of d k")
    case None
    then show ?thesis using vs(2) Cons.prems(2) f by (auto simp: field_value_def field_ok_def)
  next
    case (Some x)
    then obtain y where y: "validate v t x = Some y" "kx = (k, y)" using vs(2) by (auto simp: field_value_def)
    have "stable v t" using Cons.prems(2) f by (simp add: field_ok_def)
    from stableD [OF this y(1)] y(2) show ?thesis by simp
  qed
  then show ?case using Cons.IH [OF vs(3)] Cons.prems(2) f vs(1) by (cases kx) simp
qed simp

lemma field_values_again:
  assumes "list_all2 (\<lambda>(k, t, dflt) (k', x). k' = k \<and> validate v t x = Some x) fs vals" and "distinct (map fst fs)"
    and "\<forall>kx \<in> set vals. map_of d (fst kx) = Some (snd kx)"
  shows "map (\<lambda>(k, t, dflt). field_value (\<lambda>x. validate v t x) k dflt d) fs = map Some vals"
  using assms by (induction fs "vals" rule: list_all2_induct) (auto simp: field_value_def)

lemma stable_Model [stable_rules]:
  assumes "list_all (field_ok v) fs" and "distinct (map fst fs)"
  shows "stable v (Model_of fs extra)"
  unfolding stable_def
proof (intro allI impI)
  fix j x
  assume "validate v (Model_of fs extra) j = Some x"
  then obtain d vs rest where x: "x = JObj (vs @ rest)"
    and vs: "map (\<lambda>(k, t, dflt). field_value (\<lambda>x. validate v t x) k dflt d) fs = map Some vs"
    and rest: "extra_values extra (map fst fs) d = Some rest"
    by (auto simp: bind_eq_Some_conv those_map_iff)
  note keys = field_values_keys [OF vs]
  have "\<forall>kx \<in> set vs. map_of (vs @ rest) (fst kx) = Some (snd kx)"
  proof
    fix kx assume "kx \<in> set vs"
    moreover have "distinct (map fst vs)" using keys assms(2) by simp
    ultimately show "map_of (vs @ rest) (fst kx) = Some (snd kx)" by (simp add: map_of_append map_add_Some_iff) 
  qed
  then have again: "map (\<lambda>(k, t, dflt). field_value (\<lambda>x. validate v t x) k dflt (vs @ rest)) fs = map Some vs"
    by (rule field_values_again [OF field_values_valid [OF vs assms(1)] assms(2)])
  have out: "filter (\<lambda>kv. fst kv \<notin> set (map fst fs)) vs = []"
    using keys by (metis (no_types, lifting) filter_False imageI list.set_map)
  have "filter (\<lambda>kv. fst kv \<notin> set (map fst fs)) rest = rest"
    using rest by (auto simp: extra_values_def Let_def split: extra_fields.splits if_splits)
  then have "extra_values extra (map fst fs) (vs @ rest) = Some rest"
    using rest out by (auto simp: extra_values_def Let_def split: extra_fields.splits if_splits)
  with again show "validate v (Model_of fs extra) x = Some x" by (simp add: x those_map_iff)
qed

lemma field_ok_simps [simp]:
  "field_ok v (k, t, None) \<longleftrightarrow> stable v t"
  "field_ok v (k, t, Some x) \<longleftrightarrow> stable v t \<and> validate v t x = Some x"
  by (simp_all add: field_ok_def)

section \<open>Fields of an instance\<close>

text \<open>The value of a field of an instance.\<close>

definition field :: "string \<Rightarrow> json \<Rightarrow> json" where
  "field k j = (case j of JObj d \<Rightarrow> dict_get_or k JNull d | _ \<Rightarrow> JNull)"

lemma validate_Model_Some:
  "validate v (Model_of fs extra) j = Some x \<longleftrightarrow>
     (\<exists>d vs rest. j = JObj d \<and> x = JObj (vs @ rest) \<and> map (\<lambda>(k, t, dflt). field_value (\<lambda>x. validate v t x) k dflt d) fs = map Some vs
        \<and> extra_values extra (map fst fs) d = Some rest)"
  by (cases j) (auto simp: bind_eq_Some_conv those_map_iff as_dict_def)

text \<open>A field holds the validated value that was given for it, or its default.\<close>

lemma model_field:
  assumes "validate v (Model_of fs extra) (JObj d) = Some x" and "(k, t, dflt) \<in> set fs" and "distinct (map fst fs)"
  shows "(case map_of d k of None \<Rightarrow> dflt | Some y \<Rightarrow> validate v t y) = Some (field k x)"
proof -
  obtain vs rest where x: "x = JObj (vs @ rest)"
    and vs: "map (\<lambda>(k, t, dflt). field_value (\<lambda>x. validate v t x) k dflt d) fs = map Some vs"
    using assms(1) unfolding validate_Model_Some by auto
  have "field_value (\<lambda>x. validate v t x) k dflt d \<in> set (map (\<lambda>(k, t, dflt). field_value (\<lambda>x. validate v t x) k dflt d) fs)"
    using assms(2) by force
  then obtain y where y: "(k, y) \<in> set vs" "(case map_of d k of None \<Rightarrow> dflt | Some y \<Rightarrow> validate v t y) = Some y"
    unfolding vs by (auto simp: field_value_def)
  have "distinct (map fst vs)" using field_values_keys [OF vs] assms(3) by simp
  then have "map_of (vs @ rest) k = Some y" using y(1) by (simp add: map_of_append map_add_Some_iff)
  then show ?thesis using y(2) x by (simp add: field_def dict_get_or_def)
qed

lemma model_instance:
  assumes "validate v (Model_of fs Forbid) j = Some x" and "distinct (map fst fs)"
  shows "x = JObj (map (\<lambda>f. (fst f, field (fst f) x)) fs)"
proof -
  obtain d vs where x: "x = JObj vs"
    and vs: "map (\<lambda>(k, t, dflt). field_value (\<lambda>x. validate v t x) k dflt d) fs = map Some vs"
    using assms(1) unfolding validate_Model_Some by (auto simp: extra_values_def Let_def split: if_splits)
  have keys: "map fst vs = map fst fs" using vs by (rule field_values_keys)
  have "distinct (map fst vs)" using keys assms(2) by simp
  then have "kv \<in> set vs \<Longrightarrow> field (fst kv) x = snd kv" for kv by (cases kv) (simp add: x field_def dict_get_or_def)
  then have "vs = map (\<lambda>k. (k, field k x)) (map fst vs)" by (simp add: map_idI)
  then show ?thesis unfolding keys by (simp add: x comp_def)
qed

lemma model_eqI:
  assumes "validate v (Model_of fs Forbid) j = Some x" and "validate v (Model_of fs Forbid) j' = Some y" and "distinct (map fst fs)"
    and "\<And>k. k \<in> set (map fst fs) \<Longrightarrow> field k x = field k y"
  shows "x = y"
  by (subst model_instance [OF assms(1,3)], subst model_instance [OF assms(2,3)]) (use assms(4) in auto)

lemma model_keys_allowed:
  assumes "validate v (Model_of fs Forbid) (JObj d) = Some x"
  shows "fst ` set d \<subseteq> set (map fst fs)"
  using assms unfolding validate_Model_Some by (auto simp: extra_values_def Let_def filter_empty_conv split: if_splits)

lemma defaults_valid:
  assumes "list_all (field_ok v) fs" and "distinct (map fst fs)" and "list_all (\<lambda>(k, t, dflt). dflt \<noteq> None) fs"
  shows "validate v (Model_of fs extra) (defaults_of fs) = Some (defaults_of fs)"
proof -
  let ?vs = "map (\<lambda>(k, t, dflt). (k, case dflt of None \<Rightarrow> JNull | Some x \<Rightarrow> x)) fs"
  have keys: "map fst ?vs = map fst fs" by (simp add: comp_def case_prod_beta)
  have "list_all2 (\<lambda>(k, t, dflt) (k', x). k' = k \<and> validate v t x = Some x) fs ?vs"
    using assms(1,3) by (induction fs) (auto simp: field_ok_def)
  then have "map (\<lambda>(k, t, dflt). field_value (\<lambda>x. validate v t x) k dflt ?vs) fs = map Some ?vs"
    using assms(2)
  proof (rule field_values_again)
    have "distinct (map fst ?vs)" using assms(2) unfolding keys .
    then show "\<forall>kx \<in> set ?vs. map_of ?vs (fst kx) = Some (snd kx)" by (metis map_of_eq_Some_iff prod.collapse)
  qed
  moreover have "extra_values extra (map fst fs) ?vs = Some []"
    using keys by (auto simp: extra_values_def Let_def filter_empty_conv split: extra_fields.splits)
  ultimately show ?thesis unfolding validate_Model_Some by (simp add: defaults_of_def)
qed

text \<open>An instance is made of accepted values.\<close>

lemma model_accepts:
  assumes "\<And>k t dflt. (k, t, dflt) \<in> set fs \<Longrightarrow> \<exists>y. map_of d k = Some y \<and> validate v t y = Some y"
    and "fst ` set d \<subseteq> set (map fst fs)"
  shows "validate v (Model_of fs Forbid) (JObj d) = Some (JObj (map (\<lambda>f. (fst f, the (map_of d (fst f)))) fs))"
proof -
  have "map (\<lambda>(k, t, dflt). field_value (\<lambda>x. validate v t x) k dflt d) fs = map Some (map (\<lambda>f. (fst f, the (map_of d (fst f)))) fs)"
    using assms(1) by (fastforce simp: field_value_def)
  moreover have "extra_values Forbid (map fst fs) d = Some []"
    using assms(2) by (auto simp: extra_values_def Let_def filter_empty_conv)
  ultimately show ?thesis unfolding validate_Model_Some by simp
qed

lemma field_of_instance: "k \<in> set (map fst fs) \<Longrightarrow> field k (JObj (map (\<lambda>f. (fst f, g (fst f))) fs)) = g k"
  by (induction fs) (auto simp: field_def dict_get_or_def)

lemma model_lookup:
  assumes "validate v (Model_of fs Forbid) j = Some c" and "distinct (map fst fs)"
  obtains d where "c = JObj d" and "map fst d = map fst fs" and "\<And>f. f \<in> set (map fst fs) \<Longrightarrow> map_of d f = Some (field f c)"
proof
  let ?d = "map (\<lambda>f. (fst f, field (fst f) c)) fs"
  show c: "c = JObj ?d" using assms by (rule model_instance)
  show "map fst ?d = map fst fs" by (simp add: comp_def)
  fix f
  assume f: "f \<in> set (map fst fs)"
  have "distinct (map fst ?d)" using assms(2) by (simp add: comp_def)
  moreover have "(f, field f c) \<in> set ?d" using f by auto
  ultimately show "map_of ?d f = Some (field f c)" by (rule map_of_is_SomeI)
qed

lemma model_value:
  assumes "validate v (Model_of fs Forbid) c = Some c" and "distinct (map fst fs)" and "(f, t, dflt) \<in> set fs"
  shows "validate v t (field f c) = Some (field f c)"
proof -
  obtain d where d: "c = JObj d" "f \<in> set (map fst fs) \<Longrightarrow> map_of d f = Some (field f c)"
    using model_lookup [OF assms(1,2)] by metis
  have "f \<in> set (map fst fs)" using assms(3) by force
  moreover have "validate v (Model_of fs Forbid) (JObj d) = Some c" using assms(1) d by simp
  ultimately show ?thesis using model_field [OF _ assms(3,2)] d(2) by fastforce
qed

text \<open>A dictionary that holds the fields of an instance is validated to it.\<close>

lemma model_rebuilt:
  assumes "validate v (Model_of fs Forbid) c = Some c" and "distinct (map fst fs)"
    and "\<And>f. f \<in> set (map fst fs) \<Longrightarrow> map_of d f = Some (field f c)" and "fst ` set d \<subseteq> set (map fst fs)"
  shows "validate v (Model_of fs Forbid) (JObj d) = Some c"
proof -
  have "validate v (Model_of fs Forbid) (JObj d) = Some (JObj (map (\<lambda>f. (fst f, the (map_of d (fst f)))) fs))"
  proof (rule model_accepts [OF _ assms(4)])
    fix k t dflt
    assume k: "(k, t, dflt) \<in> set fs"
    then have "map_of d k = Some (field k c)" by (intro assms(3)) force
    then show "\<exists>y. map_of d k = Some y \<and> validate v t y = Some y" using model_value [OF assms(1,2) k] by simp
  qed
  also have "map (\<lambda>f. (fst f, the (map_of d (fst f)))) fs = map (\<lambda>f. (fst f, field (fst f) c)) fs"
    using assms(3) by auto
  finally show ?thesis using model_instance [OF assms(1,2)] by simp
qed

lemma text_value:
  assumes "validate v (Str_of p) x = Some x"
  obtains s where "x = JStr s" and "p s"
  using assms by (cases "sc_str v x") (auto split: if_splits)

lemma map_of_rev_distinct: "distinct (map fst d) \<Longrightarrow> map_of (rev d) = map_of d"
  by (rule map_of_inject_set [THEN iffD2]) (simp_all flip: rev_map)

lemma map_of_filter_other: "map_of (filter (\<lambda>kv. fst kv \<noteq> k) d) f = (if f = k then None else map_of d f)"
  by (induction d) auto

end
