(* ===== verification/Pi_Setup.thy ===== *)
theory Pi_Setup
  imports Agent_Runtime Model_Gateway Schema
begin

text \<open>
  How a Pi agent prepares an attempt (\<^verbatim>\<open>src/framework/runtime/adapters/pi_agent.py\<close>) and the capabilities it
  exposes to the worker process (\<^verbatim>\<open>src/framework/runtime/pi/tools.py\<close>): the checked model configuration,
  limits and instructions, the names of the tools, the call of one tool and what the model sees
  of its failure, and the reading of the final output.

  JSON texts, output types, \<^verbatim>\<open>str.format\<close>, subprocesses of Skill scripts and the causes of an exception are parameters. Numbers
  are exact: a JSON number without fraction is an \<^verbatim>\<open>int\<close>, and no product overflows.
\<close>

section \<open>Parameters and checked values\<close>

text \<open>
  \<open>pv_json\<close> is \<^verbatim>\<open>json.dumps\<close> without NaN, \<^const>\<open>None\<close> when it raises or the text cannot be encoded; \<open>pv_loads\<close> is
  \<^verbatim>\<open>json.loads\<close>, whose errors are \<^verbatim>\<open>JSONDecodeError\<close> or others; \<open>pv_chain\<close> lists an exception and its
  causes, \<open>pv_sqlalchemy\<close> recognises the errors of the database layer.
\<close>

datatype output_check = Valid_Output "json option" | Invalid_Output "(json list \<times> string) list" | Crashed_Output

record output_adapter =
  oa_schema :: json
  oa_schema_text :: string
  oa_check :: "string \<Rightarrow> output_check"

record pi_env =
  pv_runtime :: runtime_env
  pv_agent :: agent_spec
  pv_run :: agent_run
  pv_clk :: "nat \<Rightarrow> datetime"
  pv_mono :: "nat \<Rightarrow> rat"
  pv_defaults :: dict
  pv_registry :: "tool_registry option"
  pv_prompt_spec :: "json \<Rightarrow> json \<Rightarrow> (string \<times> string) option"
  pv_compose_dumps :: "string \<times> (string \<times> string) list list \<Rightarrow> string"
  pv_json :: "json \<Rightarrow> string option"
  pv_loads :: "string \<Rightarrow> py_exc + json"
  pv_format :: "json \<Rightarrow> (string \<times> string) list \<Rightarrow> py_exc + string"
  pv_adapter :: "json \<Rightarrow> py_exc + output_adapter"
  pv_error_types :: "string list"
  pv_nfkc :: "string \<Rightarrow> string"
  pv_chain :: "py_exc \<Rightarrow> py_exc list"
  pv_sqlalchemy :: "py_exc \<Rightarrow> bool"
  pv_script :: "string \<Rightarrow> string \<Rightarrow> dict \<Rightarrow> skill_session \<Rightarrow> skill_session \<times> (py_exc + json)"
  pv_call_id :: "int \<Rightarrow> string"

definition json_int :: "json \<Rightarrow> int option" where
  "json_int j = (case j of JNum x \<Rightarrow> if of_int \<lfloor>x\<rfloor> = x then Some \<lfloor>x\<rfloor> else None | _ \<Rightarrow> None)"

lemma json_int_jint [simp]: "json_int (jint n) = Some n"
  by (simp add: json_int_def jint_def)

definition int_within :: "int \<Rightarrow> string \<Rightarrow> json \<Rightarrow> py_exc + int" where
  "int_within lo message v = (case json_int v of None \<Rightarrow> Inl (ValueError message)
     | Some n \<Rightarrow> if lo \<le> n \<and> n \<le> 2147483647 then Inr n else Inl (ValueError message))"

definition positive_int :: "json \<Rightarrow> string \<Rightarrow> py_exc + int" where
  "positive_int v name = int_within 1 (''Pi '' @ name @ '' must be a positive integer within the 32-bit range'') v"

definition metric :: "json \<Rightarrow> string \<Rightarrow> py_exc + int" where
  "metric v name = int_within 0 (''Invalid Pi '' @ name @ '' metadata'') v"

lemma int_within_Inr: "int_within lo m v = Inr n \<Longrightarrow> lo \<le> n \<and> n \<le> 2147483647"
  by (auto simp: int_within_def split: option.splits if_splits)

lemma metric_bounds: "metric v f = Inr n \<Longrightarrow> 0 \<le> n \<and> n \<le> 2147483647"
  by (simp add: metric_def int_within_Inr)

section \<open>Model configuration\<close>

record pi_model =
  pm_model :: string
  pm_base_url :: string
  pm_api_key :: json
  pm_temperature :: rat
  pm_timeout_seconds :: rat
  pm_max_retries :: int
  pm_max_tokens :: int
  pm_context_window :: int
  pm_response_format :: json
  pm_cost_per_1k_tokens :: rat

text \<open>The white space outside ASCII.\<close>

definition wide_spaces :: "string list" where
  "wide_spaces = [[CHR 0xC2, CHR 0x85], [CHR 0xC2, CHR 0xA0], [CHR 0xE1, CHR 0x9A, CHR 0x80],
     [CHR 0xE2, CHR 0x80, CHR 0xA8], [CHR 0xE2, CHR 0x80, CHR 0xA9], [CHR 0xE2, CHR 0x80, CHR 0xAF], [CHR 0xE2, CHR 0x81, CHR 0x9F],
     [CHR 0xE3, CHR 0x80, CHR 0x80]] @ map (\<lambda>n. [CHR 0xE2, CHR 0x80, char_of (128 + n)]) [0..<11]"

definition url_forbidden :: "string \<Rightarrow> bool" where
  "url_forbidden p = (case p of [c] \<Rightarrow> byte c \<le> 32 \<or> byte c = 127 \<or> c = CHR 0x5C | _ \<Rightarrow> p \<in> set wide_spaces)"

definition pi_base_url_ok :: "(string \<Rightarrow> string) \<Rightarrow> json \<Rightarrow> bool" where
  "pi_base_url_ok nfkc base_url =
     (case base_url of JStr s \<Rightarrow>
        (case urlparse nfkc s of Inl e \<Rightarrow> False
         | Inr u \<Rightarrow> up_scheme u \<in> {''http'', ''https''} \<and> hostname u \<noteq> None \<and> CHR ''@'' \<notin> set (up_netloc u)
             \<and> up_query u = [] \<and> up_fragment u = [] \<and> \<not> list_ex url_forbidden (py_chars s)
             \<and> (case port_number u of Inl e \<Rightarrow> False | Inr p \<Rightarrow> True))
      | _ \<Rightarrow> False)"

text \<open>Only the parts are tested: a question mark or a number sign with nothing behind it passes.\<close>

lemma pi_base_url_allows_empty_query:
  "pi_base_url_ok id (JStr ''http://m?'')" "pi_base_url_ok id (JStr ''http://m#'')"
  by code_simp+

definition given_or :: "string \<Rightarrow> json \<Rightarrow> dict \<Rightarrow> json" where
  "given_or k dflt d = (if dict_get_or k JNull d = JNull then dflt else dict_get_or k JNull d)"

definition pi_numbers :: "dict \<Rightarrow> py_exc + rat \<times> rat \<times> rat" where
  "pi_numbers config =
     (case (py_float (given_or ''timeout_seconds'' (JNum 60) config), py_float (dict_get_or ''temperature'' (JNum 0) config),
            py_float (dict_get_or ''cost_per_1k_tokens'' (JNum 0) config)) of
        (Inr timeout, Inr temperature, Inr price) \<Rightarrow>
          if \<not> (0 < timeout \<and> timeout \<le> 2147483647 / 1000) \<or> \<not> (0 \<le> temperature \<and> temperature \<le> 2) \<or> price < 0
          then Inl (ValueError ''Pi model timeout, temperature and cost must be finite and valid'')
          else Inr (timeout, temperature, price)
      | _ \<Rightarrow> Inl (ValueError ''Pi model timeout, temperature and cost must be numeric''))"

definition pi_retries :: "dict \<Rightarrow> py_exc + int" where
  "pi_retries config = (case json_int (dict_get_or ''max_retries'' (JNum 2) config) of
      Some n \<Rightarrow> if n < 0 then Inl (ValueError ''Pi max_retries must be a nonnegative integer'') else Inr n
    | None \<Rightarrow> Inl (ValueError ''Pi max_retries must be a nonnegative integer''))"

definition pi_tokens :: "dict \<Rightarrow> py_exc + int \<times> int" where
  "pi_tokens config =
     (case positive_int (given_or ''max_tokens'' (JNum 4096) config) ''max_tokens'' of Inl e \<Rightarrow> Inl e
      | Inr max_tokens \<Rightarrow> case positive_int (given_or ''context_window'' (JNum 128000) config) ''context_window'' of Inl e \<Rightarrow> Inl e
      | Inr context_window \<Rightarrow>
          if context_window < max_tokens then Inl (ValueError ''Pi max_tokens must not exceed context_window'')
          else Inr (max_tokens, context_window))"

definition pi_platform_support :: "pi_env \<Rightarrow> dict \<Rightarrow> py_exc + string \<times> string" where
  "pi_platform_support env config =
     (if dict_get_or ''provider'' (JStr ''openai_compatible'') config \<noteq> JStr ''openai_compatible''
      then Inl (ValueError ''Pi currently supports the platform openai_compatible provider only'')
      else let base_url = json_or (dict_get_or ''base_url'' JNull config) (JStr []) in
      if \<not> pi_base_url_ok (pv_nfkc env) base_url
      then Inl (ValueError ''Pi requires a valid HTTP(S) base_url without userinfo, query or fragment'')
      else let url = normalize_openai_base_url (ru_text (pv_runtime env)) base_url in
      case dict_get_or ''model'' JNull config of
        JStr m \<Rightarrow>
          if url = [] \<or> str_strip m = [] then Inl (ValueError ''Pi requires a model and base_url from Agent or platform configuration'')
          else if json_truthy (dict_get_or ''fallback_models'' JNull config)
          then Inl (ValueError ''Pi model fallback is not implemented yet; set model_config.fallback_models=[]'')
          else if json_truthy (dict_get_or ''tools'' JNull config) \<or> json_truthy (dict_get_or ''plugins'' JNull config)
            \<or> json_truthy (dict_get_or ''web_search_options'' JNull config)
          then Inl (ValueError ''Provider-native tools/search are not supported by this Pi adapter yet'')
          else Inr (m, url)
      | _ \<Rightarrow> Inl (ValueError ''Pi requires a model and base_url from Agent or platform configuration''))"

definition pi_model_config :: "pi_env \<Rightarrow> dict \<Rightarrow> py_exc + pi_model" where
  "pi_model_config env runtime =
     (case dict_get_or ''model_config'' (JObj []) runtime of
        JObj overrides \<Rightarrow>
          (let config = dict_update (dict_update (pv_defaults env) (filter (\<lambda>(k, v). k \<noteq> ''model_config'') runtime)) overrides in
           case pi_platform_support env config of Inl e \<Rightarrow> Inl e
           | Inr (m, url) \<Rightarrow> case pi_numbers config of Inl e \<Rightarrow> Inl e
           | Inr (timeout, temperature, price) \<Rightarrow> case pi_retries config of Inl e \<Rightarrow> Inl e
           | Inr retries \<Rightarrow>
             (let api_key = dict_get_or ''api_key'' JNull config; response_format = dict_get_or ''response_format'' JNull config in
              if api_key \<noteq> JNull \<and> json_type_name api_key \<noteq> ''str'' then Inl (ValueError ''Pi api_key must be a string'')
              else if response_format \<noteq> JNull \<and> \<not> is_object response_format then Inl (ValueError ''Pi response_format must be an object'')
              else case pi_tokens config of Inl e \<Rightarrow> Inl e
              | Inr (max_tokens, context_window) \<Rightarrow>
                  Inr \<lparr>pm_model = m, pm_base_url = url, pm_api_key = api_key, pm_temperature = temperature, pm_timeout_seconds = timeout,
                    pm_max_retries = retries, pm_max_tokens = max_tokens, pm_context_window = context_window,
                    pm_response_format = response_format, pm_cost_per_1k_tokens = price\<rparr>))
      | _ \<Rightarrow> Inl (ValueError ''Pi model_config must be an object''))"

section \<open>Capabilities\<close>

record pi_tools =
  tl_platform :: "string list"
  tl_skills :: "string list"
  tl_definitions :: "json list"

definition tool_definition :: "string \<Rightarrow> tool_spec \<Rightarrow> json" where
  "tool_definition name spec = JObj [(''name'', JStr name),
     (''description'', JStr (if ts_description spec = [] then ''Platform tool '' @ name else ts_description spec)),
     (''parameters'', JObj (if ts_input_schema spec = [] then [(''type'', JStr ''object'')] else ts_input_schema spec))]"

fun tool_definitions :: "tool_registry \<Rightarrow> string list \<Rightarrow> py_exc + json list" where
  "tool_definitions reg [] = Inr []"
| "tool_definitions reg (n # ns) = (case tools_get n reg of Inl e \<Rightarrow> Inl e
     | Inr spec \<Rightarrow> (case tool_definitions reg ns of Inl e \<Rightarrow> Inl e | Inr ds \<Rightarrow> Inr (tool_definition n spec # ds)))"

definition add_skill :: "string \<Rightarrow> string \<Rightarrow> dict \<Rightarrow> string list \<Rightarrow> pi_tools \<Rightarrow> py_exc + pi_tools" where
  "add_skill name description properties required_names tools =
     (if name \<in> set (tl_platform tools) then Inl (ValueError (''Platform tool '' @ py_repr name @ '' conflicts with a Skill bridge tool''))
      else Inr (tools\<lparr>tl_skills := tl_skills tools @ [name], tl_definitions := tl_definitions tools @
        [JObj [(''name'', JStr name), (''description'', JStr description),
           (''parameters'', JObj [(''type'', JStr ''object''), (''properties'', JObj properties), (''required'', jstrs required_names),
              (''additionalProperties'', JBool False)])]]\<rparr>))"

definition text_property :: json where
  "text_property = JObj [(''type'', JStr ''string'')]"

definition add_skill_bridge :: "bool \<Rightarrow> pi_tools \<Rightarrow> py_exc + pi_tools" where
  "add_skill_bridge allow_scripts tools =
     (case add_skill ''skill_load'' ''Load an assigned Skill before following its workflow.''
             [(''name'', text_property), (''reason'', text_property)] [''name'', ''reason''] tools of Inl e \<Rightarrow> Inl e
      | Inr t1 \<Rightarrow> case add_skill ''skill_read_resource'' ''Read a reference or asset from a loaded Skill.''
             [(''name'', text_property), (''path'', text_property)] [''name'', ''path''] t1 of Inl e \<Rightarrow> Inl e
      | Inr t2 \<Rightarrow> if \<not> allow_scripts then Inr t2
          else add_skill ''skill_run_script'' ''Run a declared script from a loaded Skill.''
             [(''name'', text_property), (''script'', text_property),
              (''arguments'', JObj [(''type'', JStr ''object''), (''additionalProperties'', JBool True)])] [''name'', ''script''] t2)"

definition pi_tools_init :: "pi_env \<Rightarrow> bool \<Rightarrow> skill_session \<Rightarrow> py_exc + pi_tools" where
  "pi_tools_init env allow_scripts se =
     (let names = as_tools (pv_agent env) in
      if \<not> distinct names then Inl (ValueError ''Pi tools must not contain duplicate names'')
      else if names \<noteq> [] \<and> pv_registry env = None then Inl (ValueError ''Pi tools require a ToolGateway with a registry'')
      else case (case pv_registry env of None \<Rightarrow> Inr [] | Some reg \<Rightarrow> tool_definitions reg names) of Inl e \<Rightarrow> Inl e
      | Inr definitions \<Rightarrow>
        let tools = \<lparr>tl_platform = names, tl_skills = [], tl_definitions = definitions\<rparr> in
        if catalog se = [] then Inr tools else add_skill_bridge allow_scripts tools)"

section \<open>Calling a capability\<close>

definition required_text :: "dict \<Rightarrow> string \<Rightarrow> py_exc + string" where
  "required_text arguments k = (case dict_get_or k JNull arguments of
      JStr s \<Rightarrow> if str_strip s = [] then Inl (ValueError (k @ '' must be a non-empty string'')) else Inr s
    | _ \<Rightarrow> Inl (ValueError (k @ '' must be a non-empty string'')))"

text \<open>A catalog entry may be named with its version.\<close>

definition unversioned :: "skill_session \<Rightarrow> string \<Rightarrow> string" where
  "unversioned se skill_name = (case partition_at CHR ''@'' skill_name of
      (assigned_name, Some version) \<Rightarrow>
        if \<exists>(n, v, d, a) \<in> set (catalog se). n = assigned_name \<and> v = version then assigned_name else skill_name
    | (_, None) \<Rightarrow> skill_name)"

definition call_skill :: "pi_env \<Rightarrow> string \<Rightarrow> dict \<Rightarrow> skill_session \<Rightarrow> skill_session \<times> (py_exc + json)" where
  "call_skill env name arguments se =
     (case required_text arguments ''name'' of Inl e \<Rightarrow> (se, Inl e)
      | Inr given_name \<Rightarrow>
        let ld = ru_loader (pv_runtime env); skill_name = unversioned se given_name in
        if name = ''skill_load''
        then (case required_text arguments ''reason'' of Inl e \<Rightarrow> (se, Inl e)
          | Inr reason \<Rightarrow> (case activate ld skill_name reason False se of
              (se1, Inl e) \<Rightarrow> (se1, Inl e) | (se1, Inr a) \<Rightarrow> (se1, Inr (JStr (sa_instructions a)))))
        else if name = ''skill_read_resource''
        then (case required_text arguments ''path'' of Inl e \<Rightarrow> (se, Inl e)
          | Inr path \<Rightarrow> (case session_read_text ld skill_name path se of
              (se1, Inl e) \<Rightarrow> (se1, Inl e)
            | (se1, Inr text) \<Rightarrow> (se1, Inr (JStr (''Untrusted Skill resource '' @ skill_name @ ''/'' @ path @ '':'' @ newline @ text)))))
        else (case dict_get_or ''arguments'' (JObj []) arguments of
            JObj data \<Rightarrow> (case required_text arguments ''script'' of Inl e \<Rightarrow> (se, Inl e)
              | Inr script \<Rightarrow> pv_script env skill_name script data se)
          | _ \<Rightarrow> (se, Inl (ValueError ''Skill script arguments must be an object''))))"

definition pi_process_error :: "string \<Rightarrow> py_exc" where
  "pi_process_error m = OtherException ''PiProcessError'' m"

definition infrastructure_failure :: "pi_env \<Rightarrow> py_exc \<Rightarrow> bool" where
  "infrastructure_failure env e = (\<exists>x \<in> set (pv_chain env e). pv_sqlalchemy env x
     \<or> exc_name x \<in> {''PiProcessError'', ''MemoryError'', ''RecursionError''})"

definition platform_guarantee :: "py_exc \<Rightarrow> bool" where
  "platform_guarantee e = (case e of RunCancelledError _ \<Rightarrow> True | ExternalSideEffectOutcomeUnknownError _ \<Rightarrow> True
     | SideEffectOutcomeUnknownError _ _ \<Rightarrow> True | CancelledError \<Rightarrow> True | _ \<Rightarrow> False)"

definition tool_error :: "string \<Rightarrow> dict" where
  "tool_error text = [(''is_error'', JBool True), (''text'', JStr text)]"

definition model_facing_error :: "json \<Rightarrow> bool" where
  "model_facing_error r = (case r of
      JObj d \<Rightarrow> (\<exists>flag \<in> {''_tool_error'', ''_guardrail_blocked'', ''_mcp_error''}. map_of d flag = Some (JBool True))
    | _ \<Rightarrow> False)"

text \<open>What the worker is told of a tool's outcome; \<^const>\<open>Inl\<close> ends the attempt.\<close>

definition tool_reply :: "pi_env \<Rightarrow> string \<Rightarrow> py_exc + json \<Rightarrow> py_exc + dict" where
  "tool_reply env name r =
     (case r of
        Inl e \<Rightarrow>
          if platform_guarantee e then Inl e
          else if infrastructure_failure env e then Inl (pi_process_error ''Pi tool infrastructure failure'')
          else Inr (tool_error (''Tool '' @ name @ '' failed ('' @ exc_name e @ '')''))
      | Inr result \<Rightarrow>
          if model_facing_error result
          then (case pv_json env result of None \<Rightarrow> Inl (pi_process_error ''Pi tool error result must contain finite JSON data'')
            | Some text \<Rightarrow> Inr (tool_error text))
          else Inr [(''is_error'', JBool False), (''value'', result)])"

text \<open>\<open>raw\<close> is what the tool gateway gives for a platform tool.\<close>

definition tools_call ::
    "pi_env \<Rightarrow> pi_tools \<Rightarrow> string \<Rightarrow> json \<Rightarrow> py_exc + json \<Rightarrow> skill_session \<Rightarrow> skill_session \<times> (py_exc + dict)" where
  "tools_call env tools name arguments raw se =
     (case arguments of
        JObj args \<Rightarrow>
          if name \<in> set (tl_platform tools) then (se, tool_reply env name raw)
          else if name \<in> set (tl_skills tools) then (case call_skill env name args se of (se1, r) \<Rightarrow> (se1, tool_reply env name r))
          else (se, tool_reply env name (Inl (ValueError (''Tool '' @ py_repr name @ '' is not assigned to this Agent''))))
      | _ \<Rightarrow> (se, Inr (tool_error ''Tool arguments must be a JSON object'')))"

section \<open>The attempt's settings\<close>

record pi_limits =
  pl_max_turns :: int
  pl_max_tool_calls :: int
  pl_max_parallel_tools :: int
  pl_catalog_max_chars :: int
  pl_tool_execution :: string
  pl_thinking_level :: string
  pl_allow_scripts :: bool

definition one_of :: "string list \<Rightarrow> string \<Rightarrow> json \<Rightarrow> py_exc + string" where
  "one_of options message v = (case v of JStr s \<Rightarrow> if s \<in> set options then Inr s else Inl (ValueError message) | _ \<Rightarrow> Inl (ValueError message))"

definition pi_limits_of :: "dict \<Rightarrow> py_exc + pi_limits" where
  "pi_limits_of runtime =
     (case positive_int (dict_get_or ''max_turns'' (JNum 10) runtime) ''max_turns'' of Inl e \<Rightarrow> Inl e
      | Inr turns \<Rightarrow> case positive_int (dict_get_or ''max_tool_calls'' (JNum 100) runtime) ''max_tool_calls'' of Inl e \<Rightarrow> Inl e
      | Inr calls \<Rightarrow> case positive_int (dict_get_or ''max_parallel_tools'' (JNum 8) runtime) ''max_parallel_tools'' of Inl e \<Rightarrow> Inl e
      | Inr parallel_tools \<Rightarrow>
        if 64 < parallel_tools then Inl (ValueError ''Pi max_parallel_tools must not exceed 64'')
        else case positive_int (dict_get_or ''skill_catalog_max_chars'' (JNum 8000) runtime) ''skill_catalog_max_chars'' of Inl e \<Rightarrow> Inl e
      | Inr chars \<Rightarrow> case one_of [''parallel'', ''sequential''] ''Pi tool_execution must be parallel or sequential''
            (dict_get_or ''tool_execution'' (JStr ''parallel'') runtime) of Inl e \<Rightarrow> Inl e
      | Inr execution \<Rightarrow> case one_of [''off'', ''minimal'', ''low'', ''medium'', ''high'', ''xhigh'', ''max''] ''Invalid Pi thinking_level''
            (dict_get_or ''thinking_level'' (JStr ''off'') runtime) of Inl e \<Rightarrow> Inl e
      | Inr thinking \<Rightarrow> (case dict_get_or ''allow_skill_scripts'' (JBool False) runtime of
            JBool scripts \<Rightarrow> Inr \<lparr>pl_max_turns = turns, pl_max_tool_calls = calls, pl_max_parallel_tools = parallel_tools, pl_catalog_max_chars = chars,
              pl_tool_execution = execution, pl_thinking_level = thinking, pl_allow_scripts = scripts\<rparr>
          | _ \<Rightarrow> Inl (ValueError ''Pi allow_skill_scripts must be a boolean'')))"

text \<open>Names declared anywhere in a schema; \<^verbatim>\<open>set(...)\<close> refuses what cannot be iterated or hashed.\<close>

definition hashable :: "json \<Rightarrow> bool" where
  "hashable j = (case j of JList _ \<Rightarrow> False | JObj _ \<Rightarrow> False | _ \<Rightarrow> True)"

definition declared_names :: "dict \<Rightarrow> py_exc + string list" where
  "declared_names d =
     (case py_list (dict_get_or ''properties'' (JObj []) d) of Inl e \<Rightarrow> Inl e
      | Inr xs \<Rightarrow> if list_all hashable xs then Inr (texts_in (JList xs)) else Inl (TypeError ''unhashable type''))"

definition union_names :: "py_exc + string list \<Rightarrow> py_exc + string list \<Rightarrow> py_exc + string list" where
  "union_names a b = (case a of Inl e \<Rightarrow> Inl e | Inr xs \<Rightarrow> (case b of Inl e \<Rightarrow> Inl e | Inr ys \<Rightarrow> Inr (xs @ ys)))"

fun schema_fields :: "json \<Rightarrow> py_exc + string list" where
  "schema_fields (JObj d) = foldl union_names (declared_names d) (map (\<lambda>(k, v). schema_fields v) d)"
| "schema_fields (JList xs) = foldl union_names (Inr []) (map schema_fields xs)"
| "schema_fields v = Inr []"

text \<open>The adapter of an output type and the fields that may be named in logs.\<close>

definition output_type_of :: "pi_env \<Rightarrow> json \<Rightarrow> py_exc + (output_adapter \<times> string list) option" where
  "output_type_of env target =
     (let adapter = (case target of
          JNull \<Rightarrow> Inr None
        | JStr s \<Rightarrow> (case partition_at CHR '':'' s of
              (m, Some n) \<Rightarrow> if m = [] \<or> n = [] then Inl (ValueError ''output_type must use module:attribute syntax'')
                else map_sum id Some (pv_adapter env target)
            | (_, None) \<Rightarrow> Inl (ValueError ''output_type must use module:attribute syntax''))
        | _ \<Rightarrow> map_sum id Some (pv_adapter env target))
      in case adapter of Inl e \<Rightarrow> Inl e | Inr None \<Rightarrow> Inr None
      | Inr (Some oa) \<Rightarrow> (case schema_fields (oa_schema oa) of Inl e \<Rightarrow> Inl e | Inr known \<Rightarrow> Inr (Some (oa, known))))"

definition input_json :: "pi_env \<Rightarrow> dict \<Rightarrow> py_exc + string" where
  "input_json env d = (case pv_json env (JObj d) of None \<Rightarrow> Inl (ValueError ''Pi input must contain finite JSON data'') | Some s \<Rightarrow> Inr s)"

definition render_prompt :: "pi_env \<Rightarrow> dict \<Rightarrow> dict \<Rightarrow> py_exc + string" where
  "render_prompt env runtime input_data =
     (let run = pv_run env; template = dict_get_or ''input_template'' JNull runtime in
      if json_truthy template
      then (case template of
          JStr _ \<Rightarrow>
            (case input_json env input_data of Inl e \<Rightarrow> Inl e
             | Inr inp \<Rightarrow> case input_json env (ar_metadata run) of Inl e \<Rightarrow> Inl e
             | Inr meta \<Rightarrow> pv_format env template [(''run_id'', ar_run_id run), (''route_tag'', ar_route_tag run), (''input'', inp), (''metadata'', meta)])
        | _ \<Rightarrow> Inl (attribute_error template ''format''))
      else input_json env [(''run_id'', JStr (ar_run_id run)), (''route_tag'', JStr (ar_route_tag run)), (''input'', JObj input_data),
             (''metadata'', JObj (ar_metadata run))])"

record pi_setup =
  pu_model :: pi_model
  pu_limits :: pi_limits
  pu_tools :: pi_tools
  pu_base :: string
  pu_output :: "(output_adapter \<times> string list) option"
  pu_prompt_name :: json
  pu_prompt_version :: json
  pu_rendered :: string

definition base_instructions :: "pi_env \<Rightarrow> dict \<Rightarrow> (string \<times> string) option \<Rightarrow> string" where
  "base_instructions env runtime spec =
     (case spec of Some (content, version) \<Rightarrow> content
      | None \<Rightarrow> str_with (ru_text (pv_runtime env)) (json_or (dict_get_or ''instructions'' JNull runtime)
          (json_or (dict_get_or ''prompt'' JNull runtime)
             (json_or (JStr (as_description (pv_agent env))) (JStr ''Complete the task using the available tools.'')))))"

definition pi_prepare :: "pi_env \<Rightarrow> dict \<Rightarrow> dict \<Rightarrow> skill_session \<Rightarrow> py_exc + pi_setup" where
  "pi_prepare env runtime input_data se =
     (case pi_model_config env runtime of Inl e \<Rightarrow> Inl e
      | Inr model \<Rightarrow> case pi_limits_of runtime of Inl e \<Rightarrow> Inl e
      | Inr limits \<Rightarrow> case pi_tools_init env (pl_allow_scripts limits) se of Inl e \<Rightarrow> Inl e
      | Inr tools \<Rightarrow>
        let prompt_name = dict_get_or ''prompt_name'' JNull runtime;
            spec = (if json_truthy prompt_name then pv_prompt_spec env prompt_name (dict_get_or ''prompt_version'' JNull runtime) else None);
            base = base_instructions env runtime spec
        in case output_type_of env (dict_get_or ''output_type'' JNull runtime) of Inl e \<Rightarrow> Inl e
        | Inr out \<Rightarrow> case render_prompt env runtime input_data of Inl e \<Rightarrow> Inl e
        | Inr rendered \<Rightarrow>
            Inr \<lparr>pu_model = model, pu_limits = limits, pu_tools = tools,
              pu_base = (case out of None \<Rightarrow> base | Some (oa, _) \<Rightarrow>
                 base @ newline @ ''Return a final JSON answer matching this schema:'' @ newline @ oa_schema_text oa),
              pu_output = out, pu_prompt_name = prompt_name,
              pu_prompt_version = (case spec of Some (_, version) \<Rightarrow> JStr version
                 | None \<Rightarrow> json_or (dict_get_or ''prompt_version'' JNull runtime) (JStr (as_version (pv_agent env)))),
              pu_rendered = rendered\<rparr>)"

section \<open>The final output\<close>

fun has_nul :: "json \<Rightarrow> bool" where
  "has_nul (JStr s) = (CHR 0x00 \<in> set s)"
| "has_nul (JList xs) = (\<exists>x \<in> set xs. has_nul x)"
| "has_nul (JObj d) = (\<exists>kv \<in> set d. CHR 0x00 \<in> set (fst kv) \<or> has_nul (snd kv))"
| "has_nul v = False"

definition validate_output_json :: "pi_env \<Rightarrow> dict \<Rightarrow> py_exc + unit" where
  "validate_output_json env out =
     (if pv_json env (JObj out) = None \<or> has_nul (JObj out)
      then Inl (ValueError ''Pi output must contain finite JSON data with valid PostgreSQL text'') else Inr ())"

text \<open>What the log says of a validation error: only declared field names and known error types.\<close>

definition error_report :: "pi_env \<Rightarrow> string list \<Rightarrow> (json list \<times> string) list \<Rightarrow> json" where
  "error_report env known errors =
     JList (map (\<lambda>(loc, type). JObj
       [(''field'', JList (map (\<lambda>part. case part of JStr s \<Rightarrow> if s \<in> set known then part else JStr ''<field>'' | _ \<Rightarrow> part) loc)),
        (''type'', JStr (if type \<in> set (pv_error_types env) then type else ''custom_validation_error''))]) (take 20 errors))"

text \<open>The value of the final text, with the event that is logged when it breaks its schema.\<close>

definition output_value :: "pi_env \<Rightarrow> pi_setup \<Rightarrow> string \<Rightarrow> dict option \<times> (py_exc + json)" where
  "output_value env setup text =
     (case pu_output setup of
        Some (oa, known) \<Rightarrow>
          (case oa_check oa text of
             Invalid_Output errors \<Rightarrow>
               (Some [(''error_count'', jint (int (length errors))), (''errors'', error_report env known errors)],
                Inl (ValueError ''Pi output schema validation failed''))
           | Crashed_Output \<Rightarrow> (None, Inl (ValueError ''Pi output validation failed''))
           | Valid_Output None \<Rightarrow> (None, Inl (ValueError ''Pi output serialization failed''))
           | Valid_Output (Some v) \<Rightarrow> (None, Inr v))
      | None \<Rightarrow>
          (case pv_loads env text of
             Inr v \<Rightarrow> (None, Inr v)
           | Inl e \<Rightarrow>
               if exc_name e = ''JSONDecodeError'' then (None, Inr (JStr text))
               else if exc_name e \<in> {''ValueError'', ''RecursionError''} then (None, Inl (ValueError ''Pi output JSON decoding failed''))
               else (None, Inl e)))"

definition pi_output :: "pi_env \<Rightarrow> json \<Rightarrow> py_exc + dict" where
  "pi_output env v =
     (let out = dict_setdefault ''agent'' (JObj [(''name'', JStr (as_name (pv_agent env))), (''version'', JStr (as_version (pv_agent env)))])
            (case v of JObj d \<Rightarrow> d | _ \<Rightarrow> [(''data'', v)])
      in case validate_output_json env out of Inl e \<Rightarrow> Inl e | Inr _ \<Rightarrow> Inr out)"

section \<open>Properties\<close>

text \<open>
  A model configuration that is accepted is usable: the provider is addressed at an HTTP(S) URL without userinfo, query or fragment,
  the name of the model is not blank, and timeout, temperature, price, retries and token limits are in range.
\<close>

theorem pi_model_is_checked:
  assumes "pi_model_config env runtime = Inr m"
  shows "0 < pm_timeout_seconds m \<and> pm_timeout_seconds m \<le> 2147483647 / 1000 \<and> 0 \<le> pm_temperature m \<and> pm_temperature m \<le> 2
     \<and> 0 \<le> pm_cost_per_1k_tokens m \<and> 0 \<le> pm_max_retries m
     \<and> 1 \<le> pm_max_tokens m \<and> pm_max_tokens m \<le> pm_context_window m \<and> pm_context_window m \<le> 2147483647
     \<and> str_strip (pm_model m) \<noteq> []
     \<and> (\<exists>base_url. pi_base_url_ok (pv_nfkc env) base_url \<and> pm_base_url m = normalize_openai_base_url (ru_text (pv_runtime env)) base_url)"
proof -
  obtain overrides where o: "dict_get_or ''model_config'' (JObj []) runtime = JObj overrides"
    using assms by (cases "dict_get_or ''model_config'' (JObj []) runtime") (simp_all add: pi_model_config_def)
  define config where "config = dict_update (dict_update (pv_defaults env) (filter (\<lambda>(k, v). k \<noteq> ''model_config'') runtime)) overrides"
  obtain name url where p1: "pi_platform_support env config = Inr (name, url)"
    using assms o by (cases "pi_platform_support env config") (auto simp: pi_model_config_def config_def Let_def)
  obtain timeout temperature price where p2: "pi_numbers config = Inr (timeout, temperature, price)"
    using assms o p1 by (cases "pi_numbers config") (auto simp: pi_model_config_def config_def Let_def)
  obtain retries where p3: "pi_retries config = Inr retries"
    using assms o p1 p2 by (cases "pi_retries config") (auto simp: pi_model_config_def config_def Let_def)
  obtain tokens window where p4: "pi_tokens config = Inr (tokens, window)"
    using assms o p1 p2 p3 by (cases "pi_tokens config") (auto simp: pi_model_config_def config_def Let_def split: if_splits)
  have p: "pi_platform_support env config = Inr (pm_model m, url)"
    "pi_numbers config = Inr (timeout, temperature, price)" "pi_retries config = Inr (pm_max_retries m)"
    "pi_tokens config = Inr (pm_max_tokens m, pm_context_window m)"
    "pm_base_url m = url" "pm_timeout_seconds m = timeout" "pm_temperature m = temperature" "pm_cost_per_1k_tokens m = price"
    using assms o p1 p2 p3 p4 by (auto simp: pi_model_config_def config_def Let_def split: if_splits)
  have "0 < timeout \<and> timeout \<le> 2147483647 / 1000 \<and> 0 \<le> temperature \<and> temperature \<le> 2 \<and> 0 \<le> price"
    using p(2) by (auto simp: pi_numbers_def split: sum.splits if_splits)
  moreover have "0 \<le> pm_max_retries m" using p(3) by (auto simp: pi_retries_def split: option.splits if_splits)
  moreover have "1 \<le> pm_max_tokens m \<and> pm_max_tokens m \<le> pm_context_window m \<and> pm_context_window m \<le> 2147483647"
    using p(4) int_within_Inr by (fastforce simp: pi_tokens_def positive_int_def split: sum.splits if_splits)
  moreover have "str_strip (pm_model m) \<noteq> [] \<and> (\<exists>b. pi_base_url_ok (pv_nfkc env) b \<and> url = normalize_openai_base_url (ru_text (pv_runtime env)) b)"
    using p(1) by (auto simp: pi_platform_support_def Let_def split: json.splits if_splits)
  ultimately show ?thesis using p by simp
qed

text \<open>
  A failing tool tells the model the class of its error only: two errors of the same class, neither a failure of the infrastructure nor
  one of the platform's own guarantees, are answered alike, whatever their messages hold.
\<close>

theorem tool_failure_hides_its_message:
  assumes "exc_name e = exc_name e'" and "\<not> platform_guarantee e" and "\<not> platform_guarantee e'"
    and "\<not> infrastructure_failure env e" and "\<not> infrastructure_failure env e'"
  shows "tools_call env tools name arguments (Inl e) se = tools_call env tools name arguments (Inl e') se"
  using assms by (simp add: tools_call_def tool_reply_def split: json.split)

text \<open>
  A rejected output does not reach the log. The texts in the report of a schema violation are declared field names, known
  error types and two fixed words.
\<close>

fun texts_of :: "json \<Rightarrow> string set" where
  "texts_of (JStr s) = {s}"
| "texts_of (JList xs) = (\<Union>x \<in> set xs. texts_of x)"
| "texts_of (JObj d) = (\<Union>kv \<in> set d. texts_of (snd kv))"
| "texts_of v = {}"

theorem output_report_hides_values:
  assumes "\<forall>(loc, type) \<in> set errors. \<forall>part \<in> set loc. \<not> is_object part \<and> (\<nexists>xs. part = JList xs)"
  shows "texts_of (error_report env known errors) \<subseteq> set known \<union> set (pv_error_types env) \<union> {''<field>'', ''custom_validation_error''}"
proof -
  have part: "texts_of (case part of JStr s \<Rightarrow> if s \<in> set known then part else JStr ''<field>'' | _ \<Rightarrow> part) \<subseteq> set known \<union> {''<field>''}"
    if "(loc, type) \<in> set errors" "part \<in> set loc" for loc type part
  proof -
    have "\<not> is_object part \<and> (\<nexists>xs. part = JList xs)" using assms that by blast
    then show ?thesis by (cases part) (simp_all add: is_object_def)
  qed
  have "e \<in> set (take 20 errors) \<Longrightarrow> e \<in> set errors" for e by (rule in_set_takeD)
  then show ?thesis using part unfolding error_report_def texts_of.simps set_map by (force split: if_splits)
qed

end
