(* ===== verification/Pi_Protocol.thy ===== *)
theory Pi_Protocol
  imports Pi_Setup
begin

text \<open>
  One attempt of a Pi agent: the dialogue between the platform and the worker process that runs Pi's loop of model
  calls and tools (\<^verbatim>\<open>PiAgent._run_once\<close> in \<^verbatim>\<open>src/framework/runtime/adapters/pi_agent.py\<close>, \<^verbatim>\<open>PiProcess\<close> in
  \<^verbatim>\<open>src/framework/runtime/pi/transport.py\<close>).

  The worker is not trusted: it is a sequence of lines, and every line is checked. An attempt is a
  sequence of events, each of which is what happens between two points where the event loop may switch
  tasks: a line is read, a tool gets its slot, a tool has returned, an answer is written, the
  run is cancelled, or another task changes the world. A tool's own work is part of
  what other tasks do; its result comes with the event. The records of model calls are objects that the handler
  changes in place and saves only when a call ends: what an incomplete report leaves in them is
  part of the model.

  The invariant: turns are numbered one by one and at most one model call is open; no tool runs while a
  model call is open; tools run only after a model call that asked for tools, each request
  once, within the limits. The theorems about whole attempts follow from it: every model call has been
  closed in the store when the attempt is over, however it ended.
\<close>

section \<open>State\<close>

datatype pi_phase = Waiting | Calling | Replying

record pi_handler =
  ph_id :: int
  ph_key :: "(int \<times> string) option"
  ph_name :: string
  ph_arguments :: json
  ph_started :: nat
  ph_reply :: dict
  ph_phase :: pi_phase

record pi_state =
  ps_world :: world
  ps_session :: skill_session
  ps_active :: "(int \<times> model_call_record) list"
  ps_unfinished :: "int list"
  ps_identities :: "(int \<times> string) list"
  ps_handlers :: "pi_handler list"
  ps_sequence :: int
  ps_failure :: "py_exc option"
  ps_replies :: "(int \<times> dict) list"
  ps_now :: nat

definition initial_state :: "world \<Rightarrow> skill_session \<Rightarrow> pi_state" where
  "initial_state w se = \<lparr>ps_world = w, ps_session = se, ps_active = [], ps_unfinished = [], ps_identities = [], ps_handlers = [],
     ps_sequence = 0, ps_failure = None, ps_replies = [], ps_now = 0\<rparr>"

text \<open>\<^verbatim>\<open>running_tools\<close>, and the calls that hold a slot.\<close>

definition in_tool :: "pi_handler \<Rightarrow> bool" where
  "in_tool h = (ph_key h \<noteq> None \<and> ph_phase h \<noteq> Replying)"

definition running_tools :: "pi_state \<Rightarrow> (int \<times> string) list" where
  "running_tools st = List.map_filter ph_key (filter in_tool (ps_handlers st))"

definition tool_slots :: "pi_state \<Rightarrow> pi_handler list" where
  "tool_slots st = filter (\<lambda>h. ph_phase h = Calling) (ps_handlers st)"

section \<open>Effects\<close>

definition pi_log :: "pi_env \<Rightarrow> string \<Rightarrow> dict \<Rightarrow> pi_state \<Rightarrow> pi_state" where
  "pi_log env event_type data st =
     st\<lparr>ps_world := (ps_world st)\<lparr>w_store := (w_store (ps_world st))\<lparr>s_logs := logs_add
        \<lparr>le_run_id = Some (ar_run_id (pv_run env)), le_trace_id = ar_trace_id (pv_run env), le_component = ''pi_runtime'',
         le_event_type = event_type, le_level = ''INFO'', le_message = map (\<lambda>c. if c = CHR ''_'' then CHR '' '' else c) event_type,
         le_data = data, le_create_time = pv_clk env (ps_now st)\<rparr> (s_logs (w_store (ps_world st)))\<rparr>\<rparr>\<rparr>"

definition pi_save :: "model_call_record \<Rightarrow> pi_state \<Rightarrow> pi_state" where
  "pi_save call st = st\<lparr>ps_world := (ps_world st)\<lparr>w_store := save_call call (w_store (ps_world st))\<rparr>\<rparr>"

text \<open>The Skill session reports through the audit callback of the runtime.\<close>

definition set_session :: "pi_env \<Rightarrow> skill_session \<Rightarrow> pi_state \<Rightarrow> pi_state" where
  "set_session env se st =
     st\<lparr>ps_session := se,
        ps_world := fold (skill_audit ((pv_runtime env)\<lparr>ru_clk := \<lambda>_. pv_clk env (ps_now st)\<rparr>) (pv_run env))
          (drop (length (se_audit (ps_session st))) (se_audit se)) (ps_world st)\<rparr>"

definition pi_compose :: "pi_env \<Rightarrow> pi_setup \<Rightarrow> pi_state \<Rightarrow> pi_state \<times> composed_instructions" where
  "pi_compose env setup st =
     (case compose_instructions (ru_loader (pv_runtime env)) (pv_compose_dumps env) (pu_base setup) True
             (pl_catalog_max_chars (pu_limits setup)) (ps_session st) of
        (se, composed) \<Rightarrow> (set_session env se st, composed))"

section \<open>Requests of the worker\<close>

datatype pi_reply = Reply dict | Tool_Admitted "int \<times> string" string

definition new_pi_call ::
    "pi_env \<Rightarrow> pi_setup \<Rightarrow> int \<Rightarrow> int \<Rightarrow> composed_instructions \<Rightarrow> string option \<Rightarrow> nat \<Rightarrow> model_call_record" where
  "new_pi_call env setup turn message_count composed prompt_version now =
     \<lparr>mc_call_id = pv_call_id env turn, mc_run_id = ar_run_id (pv_run env), mc_trace_id = ar_trace_id (pv_run env),
      mc_agent_name = as_name (pv_agent env), mc_agent_version = as_version (pv_agent env), mc_provider = ''openai_compatible'',
      mc_model = Some (pm_model (pu_model setup)), mc_prompt_version = prompt_version,
      mc_prompt_hash = Some (ld_sha (ru_loader (pv_runtime env)) (ci_fingerprint_content composed)),
      mc_input_summary = None, mc_output_summary = None, mc_status = ''started'', mc_error = None,
      mc_prompt_tokens = 0, mc_completion_tokens = 0, mc_total_tokens = 0, mc_estimated_cost = 0,
      mc_start_time = pv_clk env now, mc_finish_time = None,
      mc_metadata = [(''runtime'', JStr ''pi''), (''turn'', jint turn), (''prompt_name'', pu_prompt_name setup),
        (''message_count'', jint message_count), (''skills'', JList (map jstr_map (ci_provenance composed))),
        (''skill_catalog_hash'', JStr (ci_catalog_hash composed))],
      mc_http_status = None\<rparr>"

definition prepare_request :: "pi_env \<Rightarrow> pi_setup \<Rightarrow> int \<Rightarrow> dict \<Rightarrow> pi_state \<Rightarrow> pi_state \<times> (py_exc + pi_reply)" where
  "prepare_request env setup turn rec st =
     (if turn \<noteq> int (length (ps_active st)) + 1 \<or> ps_unfinished st \<noteq> [] \<or> running_tools st \<noteq> []
      then (st, Inl (ValueError ''Duplicate or out-of-order Pi turn''))
      else case metric (dict_get_or ''message_count'' JNull rec) ''message count'' of Inl e \<Rightarrow> (st, Inl e)
      | Inr message_count \<Rightarrow>
          (case pi_compose env setup st of (st1, composed) \<Rightarrow>
            (case optional_name (pu_prompt_version setup) of Inl e \<Rightarrow> (st1, Inl e)
             | Inr prompt_version \<Rightarrow>
               let call = new_pi_call env setup turn message_count composed prompt_version (ps_now st)
               in (pi_log env ''pi_model_started'' [(''turn'', jint turn), (''call_id'', JStr (mc_call_id call))]
                     (pi_save call (st1\<lparr>ps_active := AList.update turn call (ps_active st1), ps_unfinished := ps_unfinished st1 @ [turn]\<rparr>)),
                   Inr (Reply [(''instructions'', JStr (ci_instructions composed))])))))"

text \<open>The numbers of a report, checked before the record is touched.\<close>

definition report_usage :: "pi_setup \<Rightarrow> dict \<Rightarrow> py_exc + int \<times> int \<times> int" where
  "report_usage setup rec =
     (case (case dict_get_or ''usage'' JNull rec of JNull \<Rightarrow> Inr [] | JObj d \<Rightarrow> Inr d
         | _ \<Rightarrow> Inl (ValueError ''Invalid Pi usage metadata'')) of Inl e \<Rightarrow> Inl e
      | Inr usage \<Rightarrow> case metric (dict_get_or ''input'' (JNum 0) usage) ''usage'' of Inl e \<Rightarrow> Inl e
      | Inr i \<Rightarrow> case metric (dict_get_or ''cacheRead'' (JNum 0) usage) ''usage'' of Inl e \<Rightarrow> Inl e
      | Inr r \<Rightarrow> case metric (dict_get_or ''cacheWrite'' (JNum 0) usage) ''usage'' of Inl e \<Rightarrow> Inl e
      | Inr w \<Rightarrow> case metric (jint (i + r + w)) ''usage'' of Inl e \<Rightarrow> Inl e
      | Inr prompt \<Rightarrow> case metric (dict_get_or ''output'' (JNum 0) usage) ''usage'' of Inl e \<Rightarrow> Inl e
      | Inr completion \<Rightarrow> case metric (dict_get_or ''totalTokens'' (JNum 0) usage) ''usage'' of Inl e \<Rightarrow> Inl e
      | Inr reported \<Rightarrow>
        let total_tokens = (if reported = 0 then prompt + completion else reported) in
        case metric (jint total_tokens) ''usage'' of Inl e \<Rightarrow> Inl e
      | Inr _ \<Rightarrow> if total_tokens < prompt + completion then Inl (ValueError ''Invalid Pi usage metadata'')
                else Inr (prompt, completion, total_tokens))"

definition stop_reasons :: "string list" where
  "stop_reasons = [''stop'', ''toolUse'', ''length'', ''error'', ''aborted'']"

definition request_id_char :: "char \<Rightarrow> bool" where
  "request_id_char c = (ascii_alpha c \<or> ascii_digit c \<or> c \<in> set ''_.:/=-'')"

definition provider_request_id :: "json \<Rightarrow> json" where
  "provider_request_id j = (case j of
      JStr s \<Rightarrow> if 1 \<le> length s \<and> length s \<le> 256 \<and> list_all request_id_char s then j else JNull
    | _ \<Rightarrow> JNull)"

definition reported_status :: "json \<Rightarrow> int option" where
  "reported_status j = (case json_int j of Some n \<Rightarrow> if 100 \<le> n \<and> n \<le> 599 then Some n else None | None \<Rightarrow> None)"

definition error_categories :: "string list" where
  "error_categories = [''timeout'', ''rate_limit'', ''authentication'', ''provider_unavailable'', ''invalid_request'', ''content_filter'',
     ''network'', ''unknown'']"

definition error_category :: "json \<Rightarrow> json" where
  "error_category j = (case j of JStr s \<Rightarrow> if s \<in> set error_categories then j else JNull | _ \<Rightarrow> JNull)"

definition report_metrics :: "(string \<times> string \<times> string \<times> json) list" where
  "report_metrics = [(''provider_latency_ms'', ''latency_ms'', ''latency'', JNull), (''http_attempts'', ''http_attempts'', ''http_attempts'', JNum 0),
     (''request_bytes'', ''request_bytes'', ''request_bytes'', JNum 0), (''response_bytes'', ''response_bytes'', ''response_bytes'', JNum 0)]"

fun set_metrics :: "(string \<times> string \<times> string \<times> json) list \<Rightarrow> dict \<Rightarrow> dict \<Rightarrow> dict \<times> py_exc option" where
  "set_metrics [] rec md = (md, None)"
| "set_metrics ((target, k, name, dflt) # rest) rec md =
     (case metric (dict_get_or k dflt rec) name of Inl e \<Rightarrow> (md, Some e)
      | Inr n \<Rightarrow> set_metrics rest rec (AList.update target (jint n) md))"

definition call_ended_by :: "string \<Rightarrow> string" where
  "call_ended_by reason = (if reason \<in> {''error'', ''aborted'', ''length''} then ''failed'' else ''succeeded'')"

text \<open>The record after a report, up to the first number that is refused.\<close>

definition reported_call ::
    "pi_env \<Rightarrow> pi_setup \<Rightarrow> nat \<Rightarrow> string \<Rightarrow> int \<times> int \<times> int \<Rightarrow> dict \<Rightarrow> model_call_record \<Rightarrow> model_call_record \<times> py_exc option" where
  "reported_call env setup now reason usage rec call =
     (case usage of (prompt, completion, total_tokens) \<Rightarrow>
        let call1 = call\<lparr>mc_prompt_tokens := prompt, mc_completion_tokens := completion, mc_total_tokens := total_tokens,
              mc_estimated_cost := of_int total_tokens * pm_cost_per_1k_tokens (pu_model setup) / 1000,
              mc_status := call_ended_by reason,
              mc_error := (if call_ended_by reason = ''failed'' then Some (''Pi model stopped: '' @ reason) else None),
              mc_finish_time := Some (pv_clk env now), mc_http_status := reported_status (dict_get_or ''http_status'' JNull rec)\<rparr>
        in case set_metrics report_metrics rec
               (AList.update ''stop_reason'' (JStr reason)
                  (AList.update ''provider_request_id'' (provider_request_id (dict_get_or ''provider_request_id'' JNull rec)) (mc_metadata call))) of
          (md, Some e) \<Rightarrow> (call1\<lparr>mc_metadata := md\<rparr>, Some e)
        | (md, None) \<Rightarrow> (call1\<lparr>mc_metadata := AList.update ''error_category'' (error_category (dict_get_or ''error_category'' JNull rec)) md\<rparr>, None))"

definition model_end :: "pi_env \<Rightarrow> pi_setup \<Rightarrow> int \<Rightarrow> dict \<Rightarrow> pi_state \<Rightarrow> pi_state \<times> (py_exc + pi_reply)" where
  "model_end env setup turn rec st =
     (case map_of (ps_active st) turn of None \<Rightarrow> (st, Inl (KeyError (show_int turn)))
      | Some call \<Rightarrow>
        if mc_status call \<noteq> ''started'' then (st, Inl (ValueError ''Duplicate Pi model completion''))
        else case report_usage setup rec of Inl e \<Rightarrow> (st, Inl e)
        | Inr usage \<Rightarrow>
          (case one_of stop_reasons ''Invalid Pi model stop reason'' (dict_get_or ''stop_reason'' JNull rec) of Inl e \<Rightarrow> (st, Inl e)
           | Inr reason \<Rightarrow>
             (case reported_call env setup (ps_now st) reason usage rec call of
                (call1, Some e) \<Rightarrow> (st\<lparr>ps_active := AList.update turn call1 (ps_active st)\<rparr>, Inl e)
              | (call1, None) \<Rightarrow>
                  (pi_log env ''pi_model_finished''
                     [(''turn'', jint turn), (''call_id'', JStr (mc_call_id call1)), (''status'', JStr (mc_status call1))]
                     (pi_save call1 (st\<lparr>ps_active := AList.update turn call1 (ps_active st),
                        ps_unfinished := remove1 turn (ps_unfinished st)\<rparr>)), Inr (Reply [])))))"

definition stopped_for :: "string \<Rightarrow> model_call_record \<Rightarrow> bool" where
  "stopped_for reason call = (mc_status call = ''succeeded'' \<and> map_of (mc_metadata call) ''stop_reason'' = Some (JStr reason))"

definition tool_allowed :: "pi_setup \<Rightarrow> string \<Rightarrow> bool" where
  "tool_allowed setup name = (name \<in> set (tl_platform (pu_tools setup)) \<or> name \<in> set (tl_skills (pu_tools setup)))"

definition admit_tool :: "pi_env \<Rightarrow> pi_setup \<Rightarrow> int \<Rightarrow> dict \<Rightarrow> pi_state \<Rightarrow> pi_state \<times> (py_exc + pi_reply)" where
  "admit_tool env setup turn rec st =
     (case (dict_get_or ''name'' JNull rec, dict_get_or ''tool_call_id'' JNull rec, map_of (ps_active st) turn) of
        (JStr name, JStr call_id, Some call) \<Rightarrow>
          if turn \<noteq> int (length (ps_active st)) \<or> turn \<in> set (ps_unfinished st) \<or> \<not> stopped_for ''toolUse'' call
             \<or> \<not> tool_allowed setup name \<or> call_id = []
          then (st, Inl (ValueError ''Invalid Pi tool request identity''))
          else if (turn, call_id) \<in> set (ps_identities st)
             \<or> pl_max_tool_calls (pu_limits setup) \<le> int (length (ps_identities st))
          then (st, Inl (ValueError ''Duplicate or over-budget Pi tool request''))
          else (st\<lparr>ps_identities := ps_identities st @ [(turn, call_id)]\<rparr>, Inr (Tool_Admitted (turn, call_id) name))
      | _ \<Rightarrow> (st, Inl (ValueError ''Invalid Pi tool request identity'')))"

definition handle_request :: "pi_env \<Rightarrow> pi_setup \<Rightarrow> dict \<Rightarrow> pi_state \<Rightarrow> pi_state \<times> (py_exc + pi_reply)" where
  "handle_request env setup rec st =
     (let kind = dict_get_or ''kind'' JNull rec in
      case json_int (dict_get_or ''turn'' JNull rec) of None \<Rightarrow> (st, Inl (ValueError ''Invalid Pi turn identity''))
      | Some turn \<Rightarrow>
        if turn < 1 \<or> pl_max_turns (pu_limits setup) < turn then (st, Inl (ValueError ''Invalid Pi turn identity''))
        else if kind = JStr ''tool_call'' then admit_tool env setup turn rec st
        else if kind = JStr ''prepare_request'' then prepare_request env setup turn rec st
        else if kind = JStr ''model_end'' \<and> turn \<in> set (ps_unfinished st) then model_end env setup turn rec st
        else (st, Inl (ValueError ''Unexpected Pi capability request'')))"

section \<open>Tools\<close>

definition tool_identity :: "pi_env \<Rightarrow> pi_handler \<Rightarrow> dict" where
  "tool_identity env h = (case ph_key h of None \<Rightarrow> []
     | Some (turn, call_id) \<Rightarrow> [(''tool'', JStr (ph_name h)), (''turn'', jint turn),
         (''tool_call_id_hash'', JStr (take 16 (ld_sha (ru_loader (pv_runtime env)) call_id)))])"

definition latency_of :: "pi_env \<Rightarrow> pi_handler \<Rightarrow> nat \<Rightarrow> json" where
  "latency_of env h now = jint (round_half_even ((pv_mono env now - pv_mono env (ph_started h)) * 1000))"

definition put_handler :: "pi_handler \<Rightarrow> pi_state \<Rightarrow> pi_state" where
  "put_handler h st = st\<lparr>ps_handlers := map (\<lambda>g. if ph_id g = ph_id h then h else g) (ps_handlers st)\<rparr>"

definition drop_handler :: "int \<Rightarrow> pi_state \<Rightarrow> pi_state" where
  "drop_handler i st = st\<lparr>ps_handlers := filter (\<lambda>g. ph_id g \<noteq> i) (ps_handlers st)\<rparr>"

text \<open>The first failure of a handler is the one that is reported.\<close>

definition note_failure :: "py_exc \<Rightarrow> pi_state \<Rightarrow> pi_state" where
  "note_failure e st = st\<lparr>ps_failure := (case ps_failure st of None \<Rightarrow> Some e | Some e' \<Rightarrow> Some e')\<rparr>"

definition find_handler :: "int \<Rightarrow> pi_phase \<Rightarrow> pi_state \<Rightarrow> pi_handler option" where
  "find_handler i phase st = find (\<lambda>h. ph_id h = i \<and> ph_phase h = phase) (ps_handlers st)"

text \<open>\<^verbatim>\<open>async with tool_slots\<close>: which of the waiting calls gets a free slot is up to the event loop.\<close>

definition start_tool :: "pi_env \<Rightarrow> pi_setup \<Rightarrow> int \<Rightarrow> pi_state \<Rightarrow> pi_state" where
  "start_tool env setup i st =
     (case find_handler i Waiting st of None \<Rightarrow> st
      | Some h \<Rightarrow>
        if int (length (tool_slots st)) < pl_max_parallel_tools (pu_limits setup)
        then put_handler (h\<lparr>ph_phase := Calling, ph_started := ps_now st\<rparr>) (pi_log env ''pi_tool_started'' (tool_identity env h) st)
        else st)"

definition tool_failed_log :: "pi_env \<Rightarrow> pi_handler \<Rightarrow> py_exc \<Rightarrow> pi_state \<Rightarrow> pi_state" where
  "tool_failed_log env h e st = pi_log env ''pi_tool_failed''
     (tool_identity env h @ [(''error_type'', JStr (exc_name e)), (''latency_ms'', latency_of env h (ps_now st))]) st"

definition end_tool :: "pi_env \<Rightarrow> pi_setup \<Rightarrow> int \<Rightarrow> py_exc + json \<Rightarrow> pi_state \<Rightarrow> pi_state" where
  "end_tool env setup i raw st =
     (case find_handler i Calling st of None \<Rightarrow> st
      | Some h \<Rightarrow>
          (case tools_call env (pu_tools setup) (ph_name h) (ph_arguments h) raw (ps_session st) of
             (se, Inl e) \<Rightarrow> note_failure e (drop_handler i (tool_failed_log env h e (set_session env se st)))
           | (se, Inr reply) \<Rightarrow>
               put_handler (h\<lparr>ph_phase := Replying, ph_reply := reply\<rparr>)
                 (pi_log env ''pi_tool_finished''
                    (tool_identity env h @ [(''is_error'', dict_get_or ''is_error'' JNull reply), (''latency_ms'', latency_of env h (ps_now st))])
                    (set_session env se st))))"

section \<open>The transport\<close>

datatype pi_line = Eof | Too_Long | Unterminated | Undecodable | Line json

definition MAX_PENDING_REQUESTS :: nat where
  "MAX_PENDING_REQUESTS = 128"

definition WORKER_ERROR_CODES :: "string list" where
  "WORKER_ERROR_CODES = [''worker_error'', ''max_turns_exceeded'', ''max_tool_calls_exceeded'', ''output_truncated'', ''empty_output'',
     ''model_error'', ''aborted'', ''response_too_large'', ''invalid_tool_calls'', ''context_too_large'']"

definition accept_result :: "dict \<Rightarrow> pi_state \<Rightarrow> py_exc + dict" where
  "accept_result rec st =
     (if ps_handlers st \<noteq> [] then Inl (pi_process_error ''Pi completed with pending capability requests'')
      else case dict_get_or ''text'' JNull rec of
        JStr text \<Rightarrow>
          if str_strip text = [] then Inl (pi_process_error ''Pi worker returned an invalid result'')
          else (case json_int (dict_get_or ''turns'' JNull rec) of
              Some n \<Rightarrow> if n < 0 then Inl (pi_process_error ''Pi worker returned an invalid turn count'') else Inr rec
            | None \<Rightarrow> Inl (pi_process_error ''Pi worker returned an invalid turn count''))
      | _ \<Rightarrow> Inl (pi_process_error ''Pi worker returned an invalid result''))"

definition worker_error :: "dict \<Rightarrow> py_exc" where
  "worker_error rec = pi_process_error (''Pi worker failed ('' @
     (case dict_get_or ''code'' JNull rec of JStr c \<Rightarrow> if c \<in> set WORKER_ERROR_CODES then c else ''worker_error'' | _ \<Rightarrow> ''worker_error'') @ '')'')"

text \<open>\<^verbatim>\<open>_respond\<close> up to its first wait: the answer of a request that needs no tool is ready to be written.\<close>

definition respond :: "pi_env \<Rightarrow> pi_setup \<Rightarrow> int \<Rightarrow> dict \<Rightarrow> pi_state \<Rightarrow> pi_state" where
  "respond env setup i rec st =
     (case handle_request env setup rec st of
        (st1, Inl e) \<Rightarrow> note_failure e st1
      | (st1, Inr (Reply d)) \<Rightarrow> st1\<lparr>ps_handlers := ps_handlers st1 @
          [\<lparr>ph_id = i, ph_key = None, ph_name = [], ph_arguments = JNull, ph_started = 0, ph_reply = d, ph_phase = Replying\<rparr>]\<rparr>
      | (st1, Inr (Tool_Admitted k name)) \<Rightarrow> st1\<lparr>ps_handlers := ps_handlers st1 @
          [\<lparr>ph_id = i, ph_key = Some k, ph_name = name, ph_arguments = dict_get_or ''arguments'' JNull rec, ph_started = 0, ph_reply = [],
            ph_phase = Waiting\<rparr>]\<rparr>)"

definition read_line :: "pi_env \<Rightarrow> pi_setup \<Rightarrow> pi_line \<Rightarrow> pi_state \<Rightarrow> pi_state \<times> (py_exc + dict) option" where
  "read_line env setup line st =
     (case line of
        Eof \<Rightarrow> (st, Some (Inl (pi_process_error ''Pi worker exited before producing a result; check Node and npm installation'')))
      | Too_Long \<Rightarrow> (st, Some (Inl (pi_process_error ''Pi protocol record exceeds the 8 MiB limit'')))
      | Unterminated \<Rightarrow> (st, Some (Inl (pi_process_error ''Pi worker returned an oversized or incomplete record'')))
      | Undecodable \<Rightarrow> (st, Some (Inl (pi_process_error ''Pi worker returned invalid JSON'')))
      | Line (JObj rec) \<Rightarrow>
          (let type = dict_get_or ''type'' JNull rec in
           if type = JStr ''result'' then (st, Some (accept_result rec st))
           else if type = JStr ''error'' then (st, Some (Inl (worker_error rec)))
           else if type \<noteq> JStr ''request'' \<or> dict_get_or ''id'' JNull rec \<noteq> JStr (show_int (ps_sequence st + 1))
           then (st, Some (Inl (pi_process_error ''Unexpected Pi worker record'')))
           else let st1 = st\<lparr>ps_sequence := ps_sequence st + 1\<rparr> in
             if MAX_PENDING_REQUESTS \<le> length (ps_handlers st1)
             then (st1, Some (Inl (pi_process_error ''Pi worker exceeded the pending capability request limit'')))
             else (respond env setup (ps_sequence st1) rec st1, None))
      | Line _ \<Rightarrow> (st, Some (Inl (pi_process_error ''Pi worker record must be an object''))))"

definition write_reply :: "int \<Rightarrow> py_exc option \<Rightarrow> pi_state \<Rightarrow> pi_state" where
  "write_reply i failure st =
     (case find_handler i Replying st of None \<Rightarrow> st
      | Some h \<Rightarrow> (case failure of Some e \<Rightarrow> note_failure e (drop_handler i st)
          | None \<Rightarrow> drop_handler i (st\<lparr>ps_replies := ps_replies st @ [(i, ph_reply h)]\<rparr>)))"

section \<open>An attempt\<close>

text \<open>
  \<open>Pi_Raise\<close> is an exception of the transport itself: the process cannot be started, the first record
  cannot be written, the task is cancelled.
\<close>

datatype pi_event =
    Pi_Line pi_line
  | Pi_Wake
  | Pi_Cancel
  | Pi_Raise py_exc
  | Pi_Slot int
  | Pi_Done int "py_exc + json"
  | Pi_Sent int "py_exc option"
  | Pi_Others "world \<Rightarrow> world"

text \<open>A failure of a handler is noticed before the next line is looked at.\<close>

definition if_failed :: "pi_state \<Rightarrow> pi_state \<times> (py_exc + dict) option \<Rightarrow> pi_state \<times> (py_exc + dict) option" where
  "if_failed st r = (case ps_failure st of Some e \<Rightarrow> (st, Some (Inl e)) | None \<Rightarrow> r)"

fun pi_step :: "pi_env \<Rightarrow> pi_setup \<Rightarrow> pi_event \<Rightarrow> pi_state \<Rightarrow> pi_state \<times> (py_exc + dict) option" where
  "pi_step env setup (Pi_Line l) st = if_failed st (read_line env setup l st)"
| "pi_step env setup Pi_Wake st = if_failed st (st, None)"
| "pi_step env setup Pi_Cancel st = (st, Some (Inl (RunCancelledError ''Pi Run was canceled'')))"
| "pi_step env setup (Pi_Raise e) st = (st, Some (Inl e))"
| "pi_step env setup (Pi_Slot i) st = (start_tool env setup i st, None)"
| "pi_step env setup (Pi_Done i raw) st = (end_tool env setup i raw st, None)"
| "pi_step env setup (Pi_Sent i failure) st = (write_reply i failure st, None)"
| "pi_step env setup (Pi_Others f) st = (st\<lparr>ps_world := f (ps_world st)\<rparr>, None)"

definition tick :: "pi_state \<Rightarrow> pi_state" where
  "tick st = st\<lparr>ps_now := Suc (ps_now st)\<rparr>"

text \<open>\<^const>\<open>None\<close>: the attempt goes on after the events.\<close>

fun pi_loop :: "pi_env \<Rightarrow> pi_setup \<Rightarrow> pi_event list \<Rightarrow> pi_state \<Rightarrow> pi_state \<times> (py_exc + dict) option" where
  "pi_loop env setup [] st = (st, None)"
| "pi_loop env setup (ev # evs) st =
     (case pi_step env setup ev (tick st) of (st1, Some r) \<Rightarrow> (st1, Some r) | (st1, None) \<Rightarrow> pi_loop env setup evs st1)"

text \<open>\<^verbatim>\<open>_cleanup\<close>: the calls in progress are cancelled, and all handlers are over before the attempt goes on.\<close>

definition cancel_handlers :: "pi_env \<Rightarrow> pi_state \<Rightarrow> pi_state" where
  "cancel_handlers env st = (fold (\<lambda>h. tool_failed_log env h CancelledError) (tool_slots st) st)\<lparr>ps_handlers := []\<rparr>"

definition check_result :: "dict \<Rightarrow> pi_state \<Rightarrow> py_exc + string" where
  "check_result rec st =
     (let n = int (length (ps_active st)) in
      if ps_active st = [] \<or> ps_unfinished st \<noteq> [] \<or> json_int (dict_get_or ''turns'' JNull rec) \<noteq> Some n
      then Inl (ValueError ''Pi worker result does not match the completed model turns'')
      else case map_of (ps_active st) n of None \<Rightarrow> Inl (KeyError (show_int n))
      | Some call \<Rightarrow>
          if \<not> stopped_for ''stop'' call then Inl (ValueError ''Pi worker result does not match the completed model turns'')
          else (case dict_get_or ''text'' JNull rec of JStr text \<Rightarrow> Inr text | j \<Rightarrow> Inl (KeyError ''text'')))"

definition conclude :: "pi_env \<Rightarrow> pi_setup \<Rightarrow> dict \<Rightarrow> pi_state \<Rightarrow> pi_state \<times> (py_exc + dict)" where
  "conclude env setup rec st =
     (case check_result rec st of Inl e \<Rightarrow> (st, Inl e)
      | Inr text \<Rightarrow>
          (case output_value env setup text of (report, r) \<Rightarrow>
             let st1 = (case report of None \<Rightarrow> st | Some data \<Rightarrow> pi_log env ''pi_output_invalid'' data st) in
             (case r of Inl e \<Rightarrow> (st1, Inl e)
              | Inr v \<Rightarrow> (case pi_output env v of Inl e \<Rightarrow> (st1, Inl e)
                  | Inr out \<Rightarrow> (pi_log env ''pi_run_succeeded''
                      [(''turns'', dict_get_or ''turns'' JNull rec), (''output_field_count'', jint (int (length out)))] st1, Inr out)))))"

definition interrupted_call :: "pi_env \<Rightarrow> nat \<Rightarrow> py_exc \<Rightarrow> model_call_record \<Rightarrow> model_call_record" where
  "interrupted_call env now e call =
     call\<lparr>mc_status := ''failed'', mc_error := Some (''Pi attempt interrupted ('' @ exc_name e @ '')''), mc_finish_time := Some (pv_clk env now)\<rparr>"

definition close_call :: "pi_env \<Rightarrow> py_exc \<Rightarrow> int \<Rightarrow> pi_state \<Rightarrow> pi_state" where
  "close_call env e turn st =
     (case map_of (ps_active st) turn of None \<Rightarrow> st
      | Some call \<Rightarrow> let call1 = interrupted_call env (ps_now st) e call in
          pi_save call1 (st\<lparr>ps_active := AList.update turn call1 (ps_active st)\<rparr>))"

definition close_attempt :: "pi_env \<Rightarrow> py_exc \<Rightarrow> pi_state \<Rightarrow> pi_state" where
  "close_attempt env e st =
     pi_log env ''pi_run_failed'' [(''error_type'', JStr (exc_name e))] (fold (close_call env e) (ps_unfinished st) st)"

definition finish_attempt :: "pi_env \<Rightarrow> pi_setup \<Rightarrow> py_exc + dict \<Rightarrow> pi_state \<Rightarrow> pi_state \<times> (py_exc + dict)" where
  "finish_attempt env setup r st =
     (case (case r of Inl e \<Rightarrow> (st, Inl e) | Inr rec \<Rightarrow> conclude env setup rec st) of
        (st1, Inr out) \<Rightarrow> (st1, Inr out) | (st1, Inl e) \<Rightarrow> (close_attempt env e st1, Inl e))"

definition model_json :: "pi_model \<Rightarrow> json" where
  "model_json m = JObj [(''model'', JStr (pm_model m)), (''base_url'', JStr (pm_base_url m)), (''api_key'', pm_api_key m),
     (''temperature'', JNum (pm_temperature m)), (''timeout_seconds'', JNum (pm_timeout_seconds m)), (''max_retries'', jint (pm_max_retries m)),
     (''max_tokens'', jint (pm_max_tokens m)), (''context_window'', jint (pm_context_window m)),
     (''response_format'', pm_response_format m), (''cost_per_1k_tokens'', JNum (pm_cost_per_1k_tokens m))]"

text \<open>The record the worker is started with.\<close>

definition start_record :: "pi_env \<Rightarrow> pi_setup \<Rightarrow> string \<Rightarrow> dict" where
  "start_record env setup instructions =
     (let l = pu_limits setup in
      [(''run_id'', JStr (ar_run_id (pv_run env))), (''model'', model_json (pu_model setup)), (''max_turns'', jint (pl_max_turns l)),
       (''max_tool_calls'', jint (pl_max_tool_calls l)), (''max_parallel_tools'', jint (pl_max_parallel_tools l)),
       (''tool_execution'', JStr (pl_tool_execution l)), (''thinking_level'', JStr (pl_thinking_level l)),
       (''tools'', JList (tl_definitions (pu_tools setup))), (''instructions'', JStr instructions), (''prompt'', JStr (pu_rendered setup)),
       (''type'', JStr ''start''), (''protocol'', JNum 1)])"

definition start_attempt :: "pi_env \<Rightarrow> pi_setup \<Rightarrow> pi_state \<Rightarrow> pi_state \<times> dict" where
  "start_attempt env setup st =
     (case pi_compose env setup (pi_log env ''pi_run_started''
          [(''model'', JStr (pm_model (pu_model setup))), (''max_turns'', jint (pl_max_turns (pu_limits setup)))] st) of
        (st1, composed) \<Rightarrow> (st1, start_record env setup (ci_instructions composed)))"

definition pi_attempt :: "pi_env \<Rightarrow> pi_setup \<Rightarrow> pi_event list \<Rightarrow> pi_state \<Rightarrow> pi_state \<times> (py_exc + dict) option" where
  "pi_attempt env setup evs st =
     (case pi_loop env setup evs (fst (start_attempt env setup st)) of
        (st1, None) \<Rightarrow> (st1, None)
      | (st1, Some r) \<Rightarrow> (case finish_attempt env setup r (cancel_handlers env st1) of (st2, out) \<Rightarrow> (st2, Some out)))"

text \<open>\<^verbatim>\<open>_run_once\<close>: the preparation may fail before anything is written.\<close>

definition run_once_pi ::
    "pi_env \<Rightarrow> dict \<Rightarrow> dict \<Rightarrow> pi_event list \<Rightarrow> world \<Rightarrow> skill_session \<Rightarrow> world \<times> (py_exc + dict) option" where
  "run_once_pi env runtime input_data evs w se =
     (case pi_prepare env runtime input_data se of Inl e \<Rightarrow> (w, Some (Inl e))
      | Inr setup \<Rightarrow> (case pi_attempt env setup evs (initial_state w se) of (st, r) \<Rightarrow> (ps_world st, r)))"

section \<open>The invariant of an attempt\<close>

named_theorems pi_frame \<open>what the effects of an attempt leave alone\<close>

lemma pi_log_frame [pi_frame]:
  "ps_active (pi_log env t d st) = ps_active st" "ps_unfinished (pi_log env t d st) = ps_unfinished st"
  "ps_identities (pi_log env t d st) = ps_identities st" "ps_handlers (pi_log env t d st) = ps_handlers st"
  "ps_sequence (pi_log env t d st) = ps_sequence st" "ps_failure (pi_log env t d st) = ps_failure st"
  "ps_replies (pi_log env t d st) = ps_replies st" "ps_session (pi_log env t d st) = ps_session st" "ps_now (pi_log env t d st) = ps_now st"
  by (simp_all add: pi_log_def)

lemma pi_save_frame [pi_frame]:
  "ps_active (pi_save c st) = ps_active st" "ps_unfinished (pi_save c st) = ps_unfinished st"
  "ps_identities (pi_save c st) = ps_identities st" "ps_handlers (pi_save c st) = ps_handlers st"
  "ps_sequence (pi_save c st) = ps_sequence st" "ps_failure (pi_save c st) = ps_failure st"
  "ps_replies (pi_save c st) = ps_replies st" "ps_session (pi_save c st) = ps_session st" "ps_now (pi_save c st) = ps_now st"
  by (simp_all add: pi_save_def)

lemma set_session_frame [pi_frame]:
  "ps_active (set_session env se st) = ps_active st" "ps_unfinished (set_session env se st) = ps_unfinished st"
  "ps_identities (set_session env se st) = ps_identities st" "ps_handlers (set_session env se st) = ps_handlers st"
  "ps_sequence (set_session env se st) = ps_sequence st" "ps_failure (set_session env se st) = ps_failure st"
  "ps_replies (set_session env se st) = ps_replies st" "ps_now (set_session env se st) = ps_now st"
  by (simp_all add: set_session_def)

definition calls_ok :: "pi_setup \<Rightarrow> pi_state \<Rightarrow> bool" where
  "calls_ok setup st \<longleftrightarrow>
     map fst (ps_active st) = [1 .. int (length (ps_active st))]
     \<and> int (length (ps_active st)) \<le> max 0 (pl_max_turns (pu_limits setup))
     \<and> (ps_unfinished st = [] \<or> ps_active st \<noteq> [] \<and> ps_unfinished st = [int (length (ps_active st))])
     \<and> (\<forall>(t, c) \<in> set (ps_active st). t \<notin> set (ps_unfinished st) \<longrightarrow> mc_status c \<in> {''succeeded'', ''failed''} \<and> mc_finish_time c \<noteq> None)"

definition tools_ok :: "pi_setup \<Rightarrow> pi_state \<Rightarrow> bool" where
  "tools_ok setup st \<longleftrightarrow>
     distinct (ps_identities st) \<and> int (length (ps_identities st)) \<le> max 0 (pl_max_tool_calls (pu_limits setup))
     \<and> (\<forall>(t, i) \<in> set (ps_identities st). t \<notin> set (ps_unfinished st)
          \<and> (\<exists>c. map_of (ps_active st) t = Some c \<and> stopped_for ''toolUse'' c))"

definition handler_keys :: "pi_state \<Rightarrow> (int \<times> string) list" where
  "handler_keys st = List.map_filter ph_key (ps_handlers st)"

definition handlers_ok :: "pi_setup \<Rightarrow> pi_state \<Rightarrow> bool" where
  "handlers_ok setup st \<longleftrightarrow>
     distinct (map ph_id (ps_handlers st) @ map fst (ps_replies st))
     \<and> (\<forall>i \<in> set (map ph_id (ps_handlers st) @ map fst (ps_replies st)). i \<le> ps_sequence st)
     \<and> length (ps_handlers st) \<le> MAX_PENDING_REQUESTS
     \<and> distinct (handler_keys st) \<and> set (handler_keys st) \<subseteq> set (ps_identities st)
     \<and> (\<forall>h \<in> set (ps_handlers st). ph_phase h \<noteq> Replying \<longrightarrow> ps_unfinished st = [] \<and> tool_allowed setup (ph_name h)
          \<and> (\<exists>i. ph_key h = Some (int (length (ps_active st)), i)))
     \<and> int (length (tool_slots st)) \<le> max 0 (pl_max_parallel_tools (pu_limits setup))"

definition pi_inv :: "pi_setup \<Rightarrow> pi_state \<Rightarrow> bool" where
  "pi_inv setup st \<longleftrightarrow> calls_ok setup st \<and> tools_ok setup st \<and> handlers_ok setup st"

lemma map_filter_Nil: "List.map_filter f xs = [] \<longleftrightarrow> (\<forall>x \<in> set xs. f x = None)"
  by (induction xs) (auto simp: List.map_filter_simps split: option.splits)

lemma running_tools_Nil:
  assumes "handlers_ok setup st"
  shows "running_tools st = [] \<longleftrightarrow> (\<forall>h \<in> set (ps_handlers st). ph_phase h = Replying)"
proof -
  have "running_tools st = [] \<longleftrightarrow> (\<forall>h \<in> set (ps_handlers st). \<not> in_tool h)"
    unfolding running_tools_def map_filter_Nil by (auto simp: in_tool_def)
  moreover have "in_tool h \<longleftrightarrow> ph_phase h \<noteq> Replying" if "h \<in> set (ps_handlers st)" for h
    using assms that by (fastforce simp: handlers_ok_def in_tool_def)
  ultimately show ?thesis by blast
qed

lemma AList_update_new: "k \<notin> set (map fst xs) \<Longrightarrow> AList.update k v xs = xs @ [(k, v)]"
  by (induction xs) auto

lemma AList_update_known:
  assumes "k \<in> set (map fst xs)" shows "map fst (AList.update k v xs) = map fst xs" "length (AList.update k v xs) = length xs"
proof -
  show "map fst (AList.update k v xs) = map fst xs" using assms by (induction xs) auto
  then show "length (AList.update k v xs) = length xs" by (metis length_map)
qed

lemma calls_okD:
  assumes "calls_ok setup st"
  shows "distinct (map fst (ps_active st))" "t \<in> set (map fst (ps_active st)) \<longleftrightarrow> 1 \<le> t \<and> t \<le> int (length (ps_active st))"
    "t \<in> set (ps_unfinished st) \<Longrightarrow> t = int (length (ps_active st)) \<and> t \<in> set (map fst (ps_active st))"
proof -
  have m: "map fst (ps_active st) = [1 .. int (length (ps_active st))]" using assms by (simp add: calls_ok_def)
  show "distinct (map fst (ps_active st))" unfolding m by simp
  show i: "t \<in> set (map fst (ps_active st)) \<longleftrightarrow> 1 \<le> t \<and> t \<le> int (length (ps_active st))" for t unfolding m by simp
  have u: "ps_unfinished st = [] \<or> ps_active st \<noteq> [] \<and> ps_unfinished st = [int (length (ps_active st))]"
    using assms by (simp add: calls_ok_def)
  show "t \<in> set (ps_unfinished st) \<Longrightarrow> t = int (length (ps_active st)) \<and> t \<in> set (map fst (ps_active st))"
    using u unfolding i by (auto simp: Suc_le_eq)
qed

lemma upto_snoc_int: "0 \<le> n \<Longrightarrow> [1 .. n + 1] = [1 .. n] @ [n + 1]" for n :: int
  using upto_rec2 [of 1 "n + 1"] by simp

text \<open>Opening a call.\<close>

lemma open_call_ok:
  assumes inv: "pi_inv setup st" and t: "turn = int (length (ps_active st)) + 1" and le: "turn \<le> pl_max_turns (pu_limits setup)"
    and u: "ps_unfinished st = []" and run: "running_tools st = []"
    and st': "ps_active st' = AList.update turn call (ps_active st)" "ps_unfinished st' = [turn]"
      "ps_identities st' = ps_identities st" "ps_handlers st' = ps_handlers st" "ps_sequence st' = ps_sequence st"
      "ps_replies st' = ps_replies st"
  shows "pi_inv setup st'"
proof -
  have c: "calls_ok setup st" "tools_ok setup st" "handlers_ok setup st" using inv by (simp_all add: pi_inv_def)
  have new: "turn \<notin> set (map fst (ps_active st))" using calls_okD(2) [OF c(1), of turn] t by simp
  then have a: "ps_active st' = ps_active st @ [(turn, call)]" unfolding st' by (rule AList_update_new)
  have m: "map fst (ps_active st') = [1 .. int (length (ps_active st'))]"
    using c(1) t upto_snoc_int [of "int (length (ps_active st))"] by (simp add: a calls_ok_def add.commute)
  have "calls_ok setup st'"
    using c(1) m le t u by (auto simp: calls_ok_def a st')
  moreover have "tools_ok setup st'"
  proof -
    have "t' \<noteq> turn \<and> map_of (ps_active st') t' = map_of (ps_active st) t'" if "map_of (ps_active st) t' = Some c'" for t' c'
      using new that by (auto simp: a map_add_def dest: map_of_SomeD split: option.splits) (metis fst_conv imageI map_of_SomeD)
    then show ?thesis using c(2) by (fastforce simp: tools_ok_def st')
  qed
  moreover have "handlers_ok setup st'"
    using c(3) running_tools_Nil [OF c(3)] run by (auto simp: handlers_ok_def st' handler_keys_def tool_slots_def)
  ultimately show ?thesis by (simp add: pi_inv_def)
qed

text \<open>Changing the record of the open call, with or without closing it.\<close>

lemma touch_call_ok:
  assumes inv: "pi_inv setup st" and t: "turn \<in> set (ps_unfinished st)"
    and st': "ps_active st' = AList.update turn call (ps_active st)"
      "ps_identities st' = ps_identities st" "ps_handlers st' = ps_handlers st" "ps_sequence st' = ps_sequence st"
      "ps_replies st' = ps_replies st"
    and fin: "ps_unfinished st' = ps_unfinished st
      \<or> ps_unfinished st' = [] \<and> mc_status call \<in> {''succeeded'', ''failed''} \<and> mc_finish_time call \<noteq> None"
  shows "pi_inv setup st'"
proof -
  have c: "calls_ok setup st" "tools_ok setup st" "handlers_ok setup st" using inv by (simp_all add: pi_inv_def)
  note d = calls_okD [OF c(1)]
  have k: "turn = int (length (ps_active st))" "turn \<in> set (map fst (ps_active st))" using d(3) t by blast+
  have u: "ps_unfinished st = [turn]" using c(1) t by (auto simp: calls_ok_def)
  have m: "map fst (ps_active st') = map fst (ps_active st)" "length (ps_active st') = length (ps_active st)"
    unfolding st' using AList_update_known [OF k(2)] by blast+
  have e: "(t', c') \<in> set (ps_active st') \<longleftrightarrow> (if t' = turn then c' = call else (t', c') \<in> set (ps_active st))" for t' c'
  proof -
    have "distinct (map fst (ps_active st'))" using d(1) m(1) by simp
    then have "(t', c') \<in> set (ps_active st') \<longleftrightarrow> map_of (ps_active st') t' = Some c'" by simp
    also have "\<dots> \<longleftrightarrow> (if t' = turn then c' = call else map_of (ps_active st) t' = Some c')" by (auto simp: st' update_conv')
    finally show ?thesis using d(1) by simp
  qed
  have "calls_ok setup st'" unfolding calls_ok_def
  proof (intro conjI)
    show "map fst (ps_active st') = [1 .. int (length (ps_active st'))]" using c(1) by (simp add: m calls_ok_def)
    show "int (length (ps_active st')) \<le> max 0 (pl_max_turns (pu_limits setup))" using c(1) by (simp add: m calls_ok_def)
    show "ps_unfinished st' = [] \<or> ps_active st' \<noteq> [] \<and> ps_unfinished st' = [int (length (ps_active st'))]"
    proof -
      have "ps_active st' \<noteq> []" using k(2) unfolding m(1) [symmetric] by auto
      then show ?thesis using fin unfolding u m(2) k(1) by auto
    qed
    show "\<forall>(t, c) \<in> set (ps_active st'). t \<notin> set (ps_unfinished st') \<longrightarrow> mc_status c \<in> {''succeeded'', ''failed''} \<and> mc_finish_time c \<noteq> None"
      using c(1) fin unfolding calls_ok_def by (auto simp: e u split: if_splits)
  qed
  moreover have "tools_ok setup st'"
  proof -
    have "t' \<notin> set (ps_unfinished st') \<and> (\<exists>c'. map_of (ps_active st') t' = Some c' \<and> stopped_for ''toolUse'' c')"
      if "(t', i) \<in> set (ps_identities st)" for t' i
    proof -
      have "t' \<noteq> turn" and "\<exists>c'. map_of (ps_active st) t' = Some c' \<and> stopped_for ''toolUse'' c'"
        using c(2) that u by (auto simp: tools_ok_def)
      then show ?thesis using fin u by (auto simp: st' update_conv')
    qed
    then show ?thesis using c(2) by (auto simp: tools_ok_def st')
  qed
  moreover have "handlers_ok setup st'"
    using c(3) fin u by (auto simp: handlers_ok_def st'(2-) m handler_keys_def tool_slots_def)
  ultimately show ?thesis by (simp add: pi_inv_def)
qed

definition same_control :: "pi_state \<Rightarrow> pi_state \<Rightarrow> bool" where
  "same_control st st' \<longleftrightarrow> ps_active st' = ps_active st \<and> ps_unfinished st' = ps_unfinished st \<and> ps_identities st' = ps_identities st
     \<and> ps_handlers st' = ps_handlers st \<and> ps_sequence st' = ps_sequence st \<and> ps_replies st' = ps_replies st"

lemma same_control_inv:
  assumes "same_control st st'" and "pi_inv setup st"
  shows "pi_inv setup st'"
proof -
  have e: "ps_active st' = ps_active st" "ps_unfinished st' = ps_unfinished st" "ps_identities st' = ps_identities st"
    "ps_handlers st' = ps_handlers st" "ps_sequence st' = ps_sequence st" "ps_replies st' = ps_replies st"
    using assms(1) by (simp_all add: same_control_def)
  show ?thesis using assms(2) unfolding pi_inv_def calls_ok_def tools_ok_def handlers_ok_def handler_keys_def tool_slots_def e .
qed

lemma same_control_simps [simp]:
  "same_control st st" "same_control st (pi_log env t d st') = same_control st st'" "same_control st (pi_save c st') = same_control st st'"
  "same_control st (set_session env se st') = same_control st st'" "same_control st (note_failure e st') = same_control st st'"
  "same_control st (tick st') = same_control st st'" "same_control st (st'\<lparr>ps_world := w\<rparr>) = same_control st st'"
  by (simp_all add: same_control_def pi_frame note_failure_def tick_def)

lemma same_control_trans: "same_control a b \<Longrightarrow> same_control b c \<Longrightarrow> same_control a c"
  by (simp add: same_control_def)

lemma pi_compose_control: "pi_compose env setup st = (st1, c) \<Longrightarrow> same_control st st1"
  by (auto simp: pi_compose_def split: prod.splits)

text \<open>What a request that is answered at once does; one that is refused is the end of the attempt.\<close>

definition served :: "pi_setup \<Rightarrow> pi_state \<Rightarrow> pi_state \<Rightarrow> bool" where
  "served setup st st' \<longleftrightarrow> pi_inv setup st' \<and> ps_handlers st' = ps_handlers st \<and> ps_sequence st' = ps_sequence st
     \<and> ps_replies st' = ps_replies st \<and> ps_identities st' = ps_identities st"

lemma served_same: "pi_inv setup st \<Longrightarrow> same_control st st' \<Longrightarrow> served setup st st'"
  by (auto simp: served_def same_control_def intro: same_control_inv)

lemma prepare_request_served:
  assumes inv: "pi_inv setup st" and p: "prepare_request env setup turn rec st = (st1, r)" and le: "turn \<le> pl_max_turns (pu_limits setup)"
  shows "served setup st st1 \<and> (\<forall>k name. r \<noteq> Inr (Tool_Admitted k name))"
proof (cases "turn \<noteq> int (length (ps_active st)) + 1 \<or> ps_unfinished st \<noteq> [] \<or> running_tools st \<noteq> []")
  case True
  then have "prepare_request env setup turn rec st = (st, Inl (ValueError ''Duplicate or out-of-order Pi turn''))"
    unfolding prepare_request_def by (rule if_P)
  then have "st1 = st" "\<exists>e. r = Inl e" using p by simp_all
  then show ?thesis using served_same [OF inv] by auto
next
  case ok: False
  show ?thesis
  proof (cases "metric (dict_get_or ''message_count'' JNull rec) ''message count''")
    case (Inl e)
    then have "st1 = st" "r = Inl e" using p ok by (simp_all add: prepare_request_def)
    then show ?thesis using served_same [OF inv] by auto
  next
    case n: (Inr n)
    obtain s c where c: "pi_compose env setup st = (s, c)" by fastforce
    note sc = pi_compose_control [OF c]
    show ?thesis
    proof (cases "optional_name (pu_prompt_version setup)")
      case (Inl e)
      then have "st1 = s" "r = Inl e" using p ok n c by (simp_all add: prepare_request_def)
      then show ?thesis using served_same [OF inv] sc by auto
    next
      case (Inr v)
      let ?call = "new_pi_call env setup turn n c v (ps_now st)"
      have st1: "st1 = pi_log env ''pi_model_started'' [(''turn'', jint turn), (''call_id'', JStr (mc_call_id ?call))]
          (pi_save ?call (s\<lparr>ps_active := AList.update turn ?call (ps_active s), ps_unfinished := ps_unfinished s @ [turn]\<rparr>))"
        and r: "r = Inr (Reply [(''instructions'', JStr (ci_instructions c))])"
        using p ok n c Inr by (simp_all add: prepare_request_def Let_def)
      have "pi_inv setup st1"
        by (rule open_call_ok [OF inv, of turn _ ?call]) (use ok le sc in \<open>simp_all add: st1 pi_frame same_control_def\<close>)
      then show ?thesis using r sc by (auto simp: served_def st1 pi_frame same_control_def)
    qed
  qed
qed

lemma reported_call_fields:
  assumes "reported_call env setup now reason usage rec call = (call1, x)"
  shows "mc_status call1 \<in> {''succeeded'', ''failed''}" "mc_finish_time call1 \<noteq> None" "mc_call_id call1 = mc_call_id call"
  using assms by (auto simp: reported_call_def call_ended_by_def Let_def split: prod.splits option.splits)

lemma model_end_cases:
  assumes m: "model_end env setup turn rec st = (st1, r)" and call: "map_of (ps_active st) turn = Some call"
  obtains (refused) e where "st1 = st" "r = Inl e"
    | (broken) call1 e usage reason where "reported_call env setup (ps_now st) reason usage rec call = (call1, Some e)"
        "st1 = st\<lparr>ps_active := AList.update turn call1 (ps_active st)\<rparr>" "r = Inl e"
    | (closed) call1 usage reason where "reported_call env setup (ps_now st) reason usage rec call = (call1, None)"
        "st1 = pi_log env ''pi_model_finished'' [(''turn'', jint turn), (''call_id'', JStr (mc_call_id call1)), (''status'', JStr (mc_status call1))]
          (pi_save call1 (st\<lparr>ps_active := AList.update turn call1 (ps_active st), ps_unfinished := remove1 turn (ps_unfinished st)\<rparr>))"
        "r = Inr (Reply [])"
proof (cases "mc_status call \<noteq> ''started''")
  case True
  then show ?thesis using m call refused by (auto simp: model_end_def)
next
  case started: False
  show ?thesis
  proof (cases "report_usage setup rec")
    case (Inl e)
    then show ?thesis using m call started refused by (auto simp: model_end_def)
  next
    case usage: (Inr usage)
    show ?thesis
    proof (cases "one_of stop_reasons ''Invalid Pi model stop reason'' (dict_get_or ''stop_reason'' JNull rec)")
      case (Inl e)
      then show ?thesis using m call started usage refused by (auto simp: model_end_def)
    next
      case reason: (Inr reason)
      obtain call1 x where rc: "reported_call env setup (ps_now st) reason usage rec call = (call1, x)" by fastforce
      show ?thesis
      proof (cases x)
        case (Some e)
        then show ?thesis using broken rc m call started usage reason by (simp add: model_end_def)
      next
        case None
        then show ?thesis using closed rc m call started usage reason by (simp add: model_end_def)
      qed
    qed
  qed
qed

lemma unfinished_call:
  assumes "pi_inv setup st" and "turn \<in> set (ps_unfinished st)"
  obtains call where "map_of (ps_active st) turn = Some call" and "(turn, call) \<in> set (ps_active st)" and "ps_unfinished st = [turn]"
proof -
  have c: "calls_ok setup st" using assms(1) by (simp add: pi_inv_def)
  have u: "ps_unfinished st = [turn]" using c assms(2) by (auto simp: calls_ok_def)
  obtain call where "map_of (ps_active st) turn = Some call"
    using calls_okD(3) [OF c assms(2)] by (metis map_of_eq_None_iff image_set option.exhaust)
  then show ?thesis using that u map_of_SomeD by fast
qed

lemma model_end_served:
  assumes inv: "pi_inv setup st" and m: "model_end env setup turn rec st = (st1, r)" and t: "turn \<in> set (ps_unfinished st)"
  shows "served setup st st1 \<and> (\<forall>k name. r \<noteq> Inr (Tool_Admitted k name))"
proof -
  obtain call where call: "map_of (ps_active st) turn = Some call" and u: "ps_unfinished st = [turn]" by (rule unfinished_call [OF inv t])
  show ?thesis
  proof (cases rule: model_end_cases [OF m call])
    case (1 e)
    then show ?thesis using served_same [OF inv] by simp
  next
    case (2 call1 e usage reason)
    have "pi_inv setup st1" by (rule touch_call_ok [OF inv t, of _ call1]) (simp_all add: 2)
    then show ?thesis by (simp add: served_def 2)
  next
    case (3 call1 usage reason)
    let ?st = "st\<lparr>ps_active := AList.update turn call1 (ps_active st), ps_unfinished := remove1 turn (ps_unfinished st)\<rparr>"
    have "pi_inv setup ?st" by (rule touch_call_ok [OF inv t, of _ call1]) (use reported_call_fields [OF 3(1)] u in auto)
    then have "pi_inv setup st1" using same_control_inv [of ?st st1] by (simp add: 3)
    then show ?thesis by (simp add: served_def 3 pi_frame)
  qed
qed

lemma admit_tool_result:
  assumes "admit_tool env setup turn rec st = (st1, r)"
  obtains (refused) e where "r = Inl e" and "st1 = st"
    | (admitted) i name call where "r = Inr (Tool_Admitted (turn, i) name)" and "st1 = st\<lparr>ps_identities := ps_identities st @ [(turn, i)]\<rparr>"
        and "turn = int (length (ps_active st))" and "turn \<notin> set (ps_unfinished st)" and "map_of (ps_active st) turn = Some call"
        and "stopped_for ''toolUse'' call" and "tool_allowed setup name" and "(turn, i) \<notin> set (ps_identities st)"
        and "int (length (ps_identities st)) < pl_max_tool_calls (pu_limits setup)"
  using assms by (fastforce simp: admit_tool_def split: json.splits option.splits if_splits)

text \<open>The handlers.\<close>

lemma map_filter_simps2 [simp]:
  "List.map_filter f [] = []" "List.map_filter f (xs @ ys) = List.map_filter f xs @ List.map_filter f ys"
  "List.map_filter f [x] = (case f x of None \<Rightarrow> [] | Some y \<Rightarrow> [y])"
  by (simp_all add: List.map_filter_def split: option.split)

lemma set_map_filter_iff: "y \<in> set (List.map_filter f xs) \<longleftrightarrow> (\<exists>x \<in> set xs. f x = Some y)"
  by (induction xs) (auto simp: List.map_filter_simps split: option.splits)

lemma map_filter_map_same: "\<forall>x \<in> set xs. f (g x) = f x \<Longrightarrow> List.map_filter f (map g xs) = List.map_filter f xs"
  by (induction xs) (auto simp: List.map_filter_simps split: option.split)

lemma distinct_map_filter_filter: "distinct (List.map_filter f xs) \<Longrightarrow> distinct (List.map_filter f (filter P xs))"
  by (induction xs) (auto simp: List.map_filter_simps set_map_filter_iff split: option.splits)

lemma distinct_map_filterD: "distinct (map f (filter P xs))" if "distinct (map f xs)"
  using that by (simp add: distinct_map_filter)

lemma add_handler_ok:
  assumes inv: "pi_inv setup st" and "ps_sequence st' = ps_sequence st"
    and "ps_handlers st' = ps_handlers st @ [h]" and "ph_id h = ps_sequence st"
    and "length (ps_handlers st) < MAX_PENDING_REQUESTS"
    and "ps_active st' = ps_active st" "ps_unfinished st' = ps_unfinished st" "ps_replies st' = ps_replies st"
    and new: "ps_sequence st \<notin> set (map ph_id (ps_handlers st) @ map fst (ps_replies st))"
    and ids: "ps_identities st' = ps_identities st \<and> ph_key h = None \<and> ph_phase h = Replying
      \<or> (\<exists>i call. ps_identities st' = ps_identities st @ [(int (length (ps_active st)), i)] \<and> ph_key h = Some (int (length (ps_active st)), i)
          \<and> ph_phase h = Waiting \<and> int (length (ps_active st)) \<notin> set (ps_unfinished st)
          \<and> map_of (ps_active st) (int (length (ps_active st))) = Some call
          \<and> stopped_for ''toolUse'' call \<and> tool_allowed setup (ph_name h) \<and> (int (length (ps_active st)), i) \<notin> set (ps_identities st)
          \<and> int (length (ps_identities st)) < pl_max_tool_calls (pu_limits setup))"
  shows "pi_inv setup st'"
proof -
  have c: "calls_ok setup st" "tools_ok setup st" "handlers_ok setup st" using inv by (simp_all add: pi_inv_def)
  have "calls_ok setup st'" using c(1) assms by (simp add: calls_ok_def)
  moreover have "tools_ok setup st'" using c(2) ids assms by (auto simp: tools_ok_def)
  moreover have "handlers_ok setup st'"
  proof -
    have d: "distinct (map ph_id (ps_handlers st') @ map fst (ps_replies st'))"
      using c(3) new assms unfolding handlers_ok_def by auto
    have le: "i \<le> ps_sequence st'" if "i \<in> set (map ph_id (ps_handlers st') @ map fst (ps_replies st'))" for i
    proof (cases "i \<in> set (map ph_id (ps_handlers st) @ map fst (ps_replies st))")
      case True
      then have "i \<le> ps_sequence st" using c(3) unfolding handlers_ok_def by blast
      then show ?thesis using assms(2) by simp
    next
      case False
      then show ?thesis using that assms(2,3,4,8) by auto
    qed
    have keys: "distinct (handler_keys st') \<and> set (handler_keys st') \<subseteq> set (ps_identities st')"
      using c(3) ids assms(3) unfolding handlers_ok_def handler_keys_def by auto
    have open_calls: "ps_unfinished st = [] \<or> ps_unfinished st = [int (length (ps_active st))]" using c(1) by (auto simp: calls_ok_def)
    have h: "ps_unfinished st' = [] \<and> tool_allowed setup (ph_name g) \<and> (\<exists>i. ph_key g = Some (int (length (ps_active st')), i))"
      if "g \<in> set (ps_handlers st')" "ph_phase g \<noteq> Replying" for g
    proof (cases "g \<in> set (ps_handlers st)")
      case True
      then show ?thesis using c(3) that(2) assms(6,7) unfolding handlers_ok_def by metis
    next
      case False
      then have "g = h" using that(1) assms(3) by simp
      then show ?thesis using ids that(2) open_calls assms(6,7) by auto
    qed
    have "tool_slots st' = tool_slots st" using ids assms(3) by (auto simp: tool_slots_def)
    then show ?thesis using d le keys h c(3) assms(3,5) unfolding handlers_ok_def by simp
  qed
  ultimately show ?thesis by (simp add: pi_inv_def)
qed

text \<open>A handler goes on, without changing what it is for.\<close>

definition next_phase :: "pi_handler \<Rightarrow> pi_handler \<Rightarrow> bool" where
  "next_phase h h' \<longleftrightarrow> ph_id h' = ph_id h \<and> ph_key h' = ph_key h \<and> ph_name h' = ph_name h
     \<and> (ph_phase h' = Replying \<or> ph_phase h = Waiting \<and> ph_phase h' = Calling)"

lemma put_handler_ok:
  assumes inv: "pi_inv setup st" and h: "h \<in> set (ps_handlers st)" "next_phase h h'"
    and slots: "ph_phase h' = Calling \<Longrightarrow> int (length (tool_slots st)) < pl_max_parallel_tools (pu_limits setup)"
  shows "pi_inv setup (put_handler h' st)"
proof -
  have c: "calls_ok setup st" "tools_ok setup st" "handlers_ok setup st" using inv by (simp_all add: pi_inv_def)
  let ?f = "\<lambda>g. if ph_id g = ph_id h' then h' else g"
  have dist: "distinct (map ph_id (ps_handlers st))" using c(3) by (simp add: handlers_ok_def)
  have same: "g = h" if "g \<in> set (ps_handlers st)" "ph_id g = ph_id h'" for g
    using dist h that by (metis next_phase_def distinct_map inj_onD)
  have e: "map ph_id (map ?f (ps_handlers st)) = map ph_id (ps_handlers st)" by simp
  have k: "List.map_filter ph_key (map ?f (ps_handlers st)) = List.map_filter ph_key (ps_handlers st)"
    by (rule map_filter_map_same) (use same h in \<open>auto simp: next_phase_def\<close>)
  have len: "length (filter (\<lambda>g. ph_phase g = Calling) (map ?f gs)) \<le> length (filter (\<lambda>g. ph_phase g = Calling) gs) + (if ph_phase h' = Calling then 1 else 0)"
    if "distinct (map ph_id gs)" for gs
    using that
  proof (induction gs)
    case (Cons g gs)
    have "ph_id x \<noteq> ph_id h'" if "ph_id g = ph_id h'" "x \<in> set gs" for x
      using Cons.prems that by (metis distinct.simps(2) image_eqI list.map(2) list.set_map)
    then have "map ?f gs = gs" if "ph_id g = ph_id h'" using that by (auto intro!: map_idI)
    with Cons show ?case by (cases "ph_id g = ph_id h'") auto
  qed simp
  have "handlers_ok setup (put_handler h' st)" unfolding handlers_ok_def
  proof (intro conjI)
    show "\<forall>g \<in> set (ps_handlers (put_handler h' st)). ph_phase g \<noteq> Replying \<longrightarrow> ps_unfinished (put_handler h' st) = []
        \<and> tool_allowed setup (ph_name g) \<and> (\<exists>i. ph_key g = Some (int (length (ps_active (put_handler h' st))), i))"
      using c(3) h by (auto simp: handlers_ok_def put_handler_def next_phase_def)
    show "int (length (tool_slots (put_handler h' st))) \<le> max 0 (pl_max_parallel_tools (pu_limits setup))"
      using len [OF dist] slots c(3) by (auto simp: handlers_ok_def tool_slots_def put_handler_def split: if_splits)
  qed (use c(3) in \<open>auto simp: handlers_ok_def put_handler_def handler_keys_def k e simp del: map_map\<close>)
  moreover have "calls_ok setup (put_handler h' st)" "tools_ok setup (put_handler h' st)"
    using c by (simp_all add: calls_ok_def tools_ok_def put_handler_def)
  ultimately show ?thesis by (simp add: pi_inv_def)
qed

lemma distinct_move:
  assumes "distinct (as @ bs)"
  shows "distinct (filter (\<lambda>j. j \<noteq> i) as @ bs)" and "i \<in> set as \<Longrightarrow> distinct (filter (\<lambda>j. j \<noteq> i) as @ bs @ [i])"
  using assms by auto

lemma length_filter_weaken: "(\<And>x. P x \<Longrightarrow> Q x) \<Longrightarrow> length (filter P xs) \<le> length (filter Q xs)"
  by (induction xs) auto

lemma drop_handler_ok:
  assumes inv: "pi_inv setup st"
    and "ps_replies st' = ps_replies st \<or> (\<exists>h d. h \<in> set (ps_handlers st) \<and> i = ph_id h \<and> ps_replies st' = ps_replies st @ [(i, d)])"
    and st': "ps_active st' = ps_active st" "ps_unfinished st' = ps_unfinished st" "ps_identities st' = ps_identities st"
      "ps_handlers st' = filter (\<lambda>g. ph_id g \<noteq> i) (ps_handlers st)" "ps_sequence st' = ps_sequence st"
  shows "pi_inv setup st'"
proof -
  have c: "calls_ok setup st" "tools_ok setup st" "handlers_ok setup st" using inv by (simp_all add: pi_inv_def)
  let ?hs = "ps_handlers st"
  have ids: "map ph_id (filter (\<lambda>g. ph_id g \<noteq> i) ?hs) = filter (\<lambda>j. j \<noteq> i) (map ph_id ?hs)" by (simp add: filter_map comp_def)
  have "handlers_ok setup st'" unfolding handlers_ok_def
  proof (intro conjI)
    have d: "distinct (map ph_id ?hs @ map fst (ps_replies st))" using c(3) unfolding handlers_ok_def by blast
    show "distinct (map ph_id (ps_handlers st') @ map fst (ps_replies st'))"
      using assms(2)
    proof
      assume "ps_replies st' = ps_replies st"
      then show ?thesis using distinct_move(1) [OF d] unfolding st' ids by simp
    next
      assume "\<exists>h d. h \<in> set ?hs \<and> i = ph_id h \<and> ps_replies st' = ps_replies st @ [(i, d)]"
      then obtain d' where i: "i \<in> set (map ph_id ?hs)" and r: "ps_replies st' = ps_replies st @ [(i, d')]" by auto
      show ?thesis using distinct_move(2) [OF d i] unfolding st' ids r by simp
    qed
    have "set (map ph_id (ps_handlers st') @ map fst (ps_replies st')) \<subseteq> set (map ph_id ?hs @ map fst (ps_replies st))"
      using assms(2) unfolding st' ids by force
    then show "\<forall>j \<in> set (map ph_id (ps_handlers st') @ map fst (ps_replies st')). j \<le> ps_sequence st'"
      using c(3) unfolding handlers_ok_def st' by blast
    show "length (ps_handlers st') \<le> MAX_PENDING_REQUESTS"
      using c(3) unfolding handlers_ok_def st' by (meson le_trans length_filter_le)
    show "distinct (handler_keys st')"
      using c(3) distinct_map_filter_filter unfolding handlers_ok_def handler_keys_def st' by blast
    show "set (handler_keys st') \<subseteq> set (ps_identities st')"
      using c(3) unfolding handlers_ok_def handler_keys_def st' by (fastforce simp: set_map_filter_iff)
    show "\<forall>h \<in> set (ps_handlers st'). ph_phase h \<noteq> Replying \<longrightarrow> ps_unfinished st' = [] \<and> tool_allowed setup (ph_name h)
        \<and> (\<exists>i. ph_key h = Some (int (length (ps_active st')), i))"
      using c(3) unfolding handlers_ok_def st' by auto
    have "length (filter (\<lambda>h. ph_phase h = Calling) (filter (\<lambda>g. ph_id g \<noteq> i) ?hs)) \<le> length (filter (\<lambda>h. ph_phase h = Calling) ?hs)"
      unfolding filter_filter by (rule length_filter_weaken) simp
    then show "int (length (tool_slots st')) \<le> max 0 (pl_max_parallel_tools (pu_limits setup))"
      using c(3) unfolding handlers_ok_def tool_slots_def st' by linarith
  qed
  moreover have "calls_ok setup st'" "tools_ok setup st'" using c by (simp_all add: calls_ok_def tools_ok_def st')
  ultimately show ?thesis by (simp add: pi_inv_def)
qed

lemma find_handlerD:
  assumes "find_handler i p st = Some h"
  shows "h \<in> set (ps_handlers st)" "ph_id h = i" "ph_phase h = p"
  using find_SomeD [OF assms [unfolded find_handler_def]] by auto

lemma start_tool_inv:
  assumes inv: "pi_inv setup st" shows "pi_inv setup (start_tool env setup i st)"
proof (cases "find_handler i Waiting st")
  case (Some h)
  note h = find_handlerD [OF Some]
  let ?h = "h\<lparr>ph_phase := Calling, ph_started := ps_now st\<rparr>" and ?log = "pi_log env ''pi_tool_started'' (tool_identity env h) st"
  show ?thesis
  proof (cases "int (length (tool_slots st)) < pl_max_parallel_tools (pu_limits setup)")
    case True
    have "pi_inv setup (put_handler ?h ?log)"
      by (rule put_handler_ok [where h = h])
        (use inv h True same_control_inv [of st ?log] in \<open>auto simp: pi_frame next_phase_def tool_slots_def\<close>)
    then show ?thesis using Some True by (simp add: start_tool_def)
  qed (use Some inv in \<open>simp add: start_tool_def\<close>)
qed (use inv in \<open>simp add: start_tool_def\<close>)

lemma end_tool_inv:
  assumes inv: "pi_inv setup st" shows "pi_inv setup (end_tool env setup i raw st)"
proof (cases "find_handler i Calling st")
  case (Some h)
  note h = find_handlerD [OF Some]
  obtain se r where t: "tools_call env (pu_tools setup) (ph_name h) (ph_arguments h) raw (ps_session st) = (se, r)" by fastforce
  show ?thesis
  proof (cases r)
    case (Inl e)
    let ?st = "note_failure e (drop_handler i (tool_failed_log env h e (set_session env se st)))"
    have "pi_inv setup ?st"
      by (rule drop_handler_ok [OF inv, of _ i]) (simp_all add: note_failure_def drop_handler_def tool_failed_log_def pi_frame)
    then show ?thesis using Some t Inl by (simp add: end_tool_def)
  next
    case (Inr reply)
    let ?log = "pi_log env ''pi_tool_finished'' (tool_identity env h @ [(''is_error'', dict_get_or ''is_error'' JNull reply),
        (''latency_ms'', latency_of env h (ps_now st))]) (set_session env se st)"
    have "pi_inv setup (put_handler (h\<lparr>ph_phase := Replying, ph_reply := reply\<rparr>) ?log)"
      by (rule put_handler_ok [where h = h]) (use inv h same_control_inv [of st ?log] in \<open>auto simp: pi_frame next_phase_def\<close>)
    then show ?thesis using Some t Inr by (simp add: end_tool_def)
  qed
qed (use inv in \<open>simp add: end_tool_def\<close>)

lemma write_reply_inv:
  assumes inv: "pi_inv setup st" shows "pi_inv setup (write_reply i failure st)"
proof (cases "find_handler i Replying st")
  case (Some h)
  note h = find_handlerD [OF Some]
  show ?thesis
  proof (cases failure)
    case None
    have "pi_inv setup (drop_handler i (st\<lparr>ps_replies := ps_replies st @ [(i, ph_reply h)]\<rparr>))"
      by (rule drop_handler_ok [OF inv, of _ i]) (use h in \<open>auto simp: drop_handler_def\<close>)
    then show ?thesis using Some None by (simp add: write_reply_def)
  next
    case (Some e)
    have "pi_inv setup (note_failure e (drop_handler i st))"
      by (rule drop_handler_ok [OF inv, of _ i]) (simp_all add: note_failure_def drop_handler_def)
    then show ?thesis using \<open>find_handler i Replying st = Some h\<close> Some by (simp add: write_reply_def)
  qed
qed (use inv in \<open>simp add: write_reply_def\<close>)

lemma handle_cases:
  assumes inv: "pi_inv setup st" and h: "handle_request env setup rec st = (st1, r)"
  obtains (answered) "served setup st st1" and "\<And>k name. r \<noteq> Inr (Tool_Admitted k name)"
    | (tool) turn i name call where "r = Inr (Tool_Admitted (turn, i) name)" and "st1 = st\<lparr>ps_identities := ps_identities st @ [(turn, i)]\<rparr>"
        and "turn = int (length (ps_active st))" and "turn \<notin> set (ps_unfinished st)" and "map_of (ps_active st) turn = Some call"
        and "stopped_for ''toolUse'' call" and "tool_allowed setup name" and "(turn, i) \<notin> set (ps_identities st)"
        and "int (length (ps_identities st)) < pl_max_tool_calls (pu_limits setup)"
proof -
  have same: "served setup st st" using served_same [OF inv] by simp
  show ?thesis
  proof (cases "json_int (dict_get_or ''turn'' JNull rec)")
    case None
    then show ?thesis using h same answered by (auto simp: handle_request_def)
  next
    case (Some turn)
    let ?kind = "dict_get_or ''kind'' JNull rec"
    consider "turn < 1 \<or> pl_max_turns (pu_limits setup) < turn" | "1 \<le> turn" "turn \<le> pl_max_turns (pu_limits setup)" "?kind = JStr ''tool_call''"
      | "1 \<le> turn" "turn \<le> pl_max_turns (pu_limits setup)" "?kind = JStr ''prepare_request''"
      | "1 \<le> turn" "turn \<le> pl_max_turns (pu_limits setup)" "?kind = JStr ''model_end''" "turn \<in> set (ps_unfinished st)"
      | "1 \<le> turn" "turn \<le> pl_max_turns (pu_limits setup)" "?kind \<noteq> JStr ''tool_call''" "?kind \<noteq> JStr ''prepare_request''"
          "\<not> (?kind = JStr ''model_end'' \<and> turn \<in> set (ps_unfinished st))" by linarith
    then show ?thesis
    proof cases
      case 1
      then show ?thesis using h Some same answered by (auto simp: handle_request_def)
    next
      case 2
      then have a: "admit_tool env setup turn rec st = (st1, r)" using h Some by (simp add: handle_request_def)
      show ?thesis
      proof (cases rule: admit_tool_result [OF a])
        case (1 e)
        then show ?thesis using answered same by simp
      next
        case (2 i name call)
        then show ?thesis using tool by blast
      qed
    next
      case 3
      then have "prepare_request env setup turn rec st = (st1, r)" using h Some by (simp add: handle_request_def)
      from prepare_request_served [OF inv this 3(2)] show ?thesis using answered by blast
    next
      case 4
      then have "model_end env setup turn rec st = (st1, r)" using h Some by (simp add: handle_request_def)
      from model_end_served [OF inv this 4(4)] show ?thesis using answered by blast
    next
      case 5
      then show ?thesis using h Some same answered by (auto simp: handle_request_def)
    qed
  qed
qed

lemma respond_inv:
  assumes inv: "pi_inv setup st" and new: "ps_sequence st \<notin> set (map ph_id (ps_handlers st) @ map fst (ps_replies st))"
    and room: "length (ps_handlers st) < MAX_PENDING_REQUESTS"
  shows "pi_inv setup (respond env setup (ps_sequence st) rec st)"
proof -
  obtain st1 r where h: "handle_request env setup rec st = (st1, r)" by fastforce
  show ?thesis
  proof (cases rule: handle_cases [OF inv h])
    case 1
    note s = 1(1) [unfolded served_def]
    show ?thesis
    proof (cases r)
      case (Inl e)
      then show ?thesis using h s same_control_inv [of st1 "note_failure e st1"] by (simp add: respond_def)
    next
      case (Inr x)
      then obtain d where d: "r = Inr (Reply d)" using 1(2) by (cases x) auto
      let ?h = "\<lparr>ph_id = ps_sequence st, ph_key = None, ph_name = [], ph_arguments = JNull, ph_started = 0, ph_reply = d, ph_phase = Replying\<rparr>"
      have "pi_inv setup (st1\<lparr>ps_handlers := ps_handlers st1 @ [?h]\<rparr>)"
        by (rule add_handler_ok [where st = st1 and h = ?h]) (use s new room in auto)
      then show ?thesis using h d by (simp add: respond_def)
    qed
  next
    case (2 turn i name call)
    let ?h = "\<lparr>ph_id = ps_sequence st, ph_key = Some (turn, i), ph_name = name, ph_arguments = dict_get_or ''arguments'' JNull rec,
      ph_started = 0, ph_reply = [], ph_phase = Waiting\<rparr>"
    have "pi_inv setup (st1\<lparr>ps_handlers := ps_handlers st1 @ [?h]\<rparr>)"
      by (rule add_handler_ok [OF inv, of _ ?h]) (use 2 new room in auto)
    then show ?thesis using h 2(1) by (simp add: respond_def)
  qed
qed

lemma bumped_inv:
  assumes inv: "pi_inv setup st" shows "pi_inv setup (st\<lparr>ps_sequence := ps_sequence st + 1\<rparr>)" (is "pi_inv setup ?st")
proof -
  have "calls_ok setup ?st" using inv by (simp add: pi_inv_def calls_ok_def)
  moreover have "tools_ok setup ?st" using inv by (simp add: pi_inv_def tools_ok_def)
  moreover have "handlers_ok setup ?st"
  proof -
    have h: "handlers_ok setup st" using inv by (simp add: pi_inv_def)
    then have "\<forall>i \<in> set (map ph_id (ps_handlers st) @ map fst (ps_replies st)). i \<le> ps_sequence st" unfolding handlers_ok_def by blast
    then have "\<forall>i \<in> set (map ph_id (ps_handlers ?st) @ map fst (ps_replies ?st)). i \<le> ps_sequence ?st"
      by (simp add: ball_Un add_increasing2)
    then show ?thesis using h unfolding handlers_ok_def handler_keys_def tool_slots_def by simp
  qed
  ultimately show ?thesis by (simp add: pi_inv_def)
qed

lemma read_line_inv:
  assumes inv: "pi_inv setup st" and r: "read_line env setup line st = (st1, x)"
  shows "pi_inv setup st1 \<and> (\<forall>rec. x = Some (Inr rec) \<longrightarrow> st1 = st \<and> ps_handlers st = [])"
proof (cases "st1 = st \<and> (\<forall>rec. x = Some (Inr rec) \<longrightarrow> ps_handlers st = [])")
  case True
  then show ?thesis using inv by auto
next
  case False
  let ?st = "st\<lparr>ps_sequence := ps_sequence st + 1\<rparr>"
  have acc: "accept_result rec st = Inr rec' \<Longrightarrow> ps_handlers st = []" for rec rec' by (auto simp: accept_result_def split: if_splits)
  obtain rec where line: "line = Line (JObj rec)" "dict_get_or ''type'' JNull rec \<noteq> JStr ''result''"
    "dict_get_or ''type'' JNull rec \<noteq> JStr ''error''"
    "dict_get_or ''type'' JNull rec = JStr ''request'' \<and> dict_get_or ''id'' JNull rec = JStr (show_int (ps_sequence st + 1))"
    using False r acc by (auto simp: read_line_def Let_def split: pi_line.splits json.splits if_splits)
  note inv1 = bumped_inv [OF inv]
  have "i \<le> ps_sequence st" if "i \<in> set (map ph_id (ps_handlers st) @ map fst (ps_replies st))" for i
    using inv that unfolding pi_inv_def handlers_ok_def by blast
  then have new: "ps_sequence ?st \<notin> set (map ph_id (ps_handlers ?st) @ map fst (ps_replies ?st))" by fastforce
  show ?thesis
  proof (cases "MAX_PENDING_REQUESTS \<le> length (ps_handlers st)")
    case True
    then have "st1 = ?st \<and> (\<exists>e. x = Some (Inl e))" using r line by (auto simp: read_line_def Let_def)
    then show ?thesis using inv1 by auto
  next
    case False
    then have "st1 = respond env setup (ps_sequence ?st) rec ?st" "x = None" using r line by (simp_all add: read_line_def Let_def)
    then show ?thesis using respond_inv [OF inv1 new] False by simp
  qed
qed

lemma pi_step_inv:
  assumes inv: "pi_inv setup st" and s: "pi_step env setup ev st = (st1, x)"
  shows "pi_inv setup st1 \<and> (\<forall>rec. x = Some (Inr rec) \<longrightarrow> ps_handlers st1 = [])"
proof (cases ev)
  case (Pi_Line l)
  then show ?thesis using s inv read_line_inv [OF inv] by (fastforce simp: if_failed_def split: option.splits)
qed (use s inv start_tool_inv end_tool_inv write_reply_inv same_control_inv [of st st1] in \<open>auto simp: if_failed_def split: option.splits\<close>)

lemma pi_loop_inv:
  "pi_inv setup st \<Longrightarrow> pi_loop env setup evs st = (st1, x) \<Longrightarrow> pi_inv setup st1 \<and> (\<forall>rec. x = Some (Inr rec) \<longrightarrow> ps_handlers st1 = [])"
proof (induction evs arbitrary: st)
  case (Cons ev evs)
  obtain st2 y where s: "pi_step env setup ev (tick st) = (st2, y)" by fastforce
  have "pi_inv setup (tick st)" using Cons.prems(1) same_control_inv [of st "tick st"] by simp
  from pi_step_inv [OF this s] show ?case using Cons s by (cases y) auto
qed simp

lemma initial_inv: "pi_inv setup (initial_state w se)"
  by (simp add: pi_inv_def calls_ok_def tools_ok_def handlers_ok_def initial_state_def handler_keys_def tool_slots_def)

lemma start_attempt_control: "same_control st (fst (start_attempt env setup st))"
proof -
  let ?log = "pi_log env ''pi_run_started'' [(''model'', JStr (pm_model (pu_model setup))), (''max_turns'', jint (pl_max_turns (pu_limits setup)))] st"
  obtain st1 c where c: "pi_compose env setup ?log = (st1, c)" by fastforce
  from pi_compose_control [OF this] have "same_control st st1" using same_control_trans [of st ?log st1] by simp
  then show ?thesis by (simp add: start_attempt_def c)
qed

lemma attempt_inv:
  assumes "pi_loop env setup evs (fst (start_attempt env setup (initial_state w se))) = (st, x)"
  shows "pi_inv setup st" and "x = Some (Inr rec) \<Longrightarrow> ps_handlers st = []"
  using pi_loop_inv [OF same_control_inv [OF start_attempt_control initial_inv] assms] by blast+

section \<open>What the store holds\<close>

text \<open>Other tasks leave the records of this attempt alone.\<close>

definition spares_calls :: "pi_env \<Rightarrow> pi_setup \<Rightarrow> pi_event \<Rightarrow> bool" where
  "spares_calls env setup ev = (case ev of
      Pi_Others f \<Rightarrow> (\<forall>w. \<forall>t \<in> {1 .. pl_max_turns (pu_limits setup)}. stored_call (pv_call_id env t) (w_store (f w)) = stored_call (pv_call_id env t) (w_store w))
    | _ \<Rightarrow> True)"

definition stored_ok :: "pi_env \<Rightarrow> pi_state \<Rightarrow> bool" where
  "stored_ok env st = (\<forall>(t, c) \<in> set (ps_active st). mc_call_id c = pv_call_id env t
     \<and> (t \<notin> set (ps_unfinished st) \<longrightarrow> stored_call (mc_call_id c) (w_store (ps_world st)) = Some c))"

lemma skill_audit_calls: "s_model_calls (w_store (fold (skill_audit env run) evs w)) = s_model_calls (w_store w)"
proof (induction evs arbitrary: w)
  case (Cons ev evs)
  have "s_model_calls (w_store (skill_audit env run ev w)) = s_model_calls (w_store w)"
    by (cases ev) (simp add: skill_audit_def runtime_log_def)
  with Cons show ?case by simp
qed simp

lemma calls_frame [simp]:
  "s_model_calls (w_store (ps_world (pi_log env t d st))) = s_model_calls (w_store (ps_world st))"
  "s_model_calls (w_store (ps_world (set_session env se st))) = s_model_calls (w_store (ps_world st))"
  "s_model_calls (w_store (ps_world (note_failure e st))) = s_model_calls (w_store (ps_world st))"
  "s_model_calls (w_store (ps_world (put_handler h st))) = s_model_calls (w_store (ps_world st))"
  "s_model_calls (w_store (ps_world (drop_handler i st))) = s_model_calls (w_store (ps_world st))"
  "s_model_calls (w_store (ps_world (tool_failed_log env h e st))) = s_model_calls (w_store (ps_world st))"
  by (simp_all add: pi_log_def set_session_def skill_audit_calls note_failure_def put_handler_def drop_handler_def tool_failed_log_def)

lemma stored_call_frame [simp]:
  "stored_call i (w_store (ps_world (pi_log env t d st))) = stored_call i (w_store (ps_world st))"
  "stored_call i (w_store (ps_world (set_session env se st))) = stored_call i (w_store (ps_world st))"
  "stored_call i (w_store (ps_world (tool_failed_log env h e st))) = stored_call i (w_store (ps_world st))"
  by (simp_all add: stored_call_def)

lemma stored_call_save [simp]:
  "stored_call i (w_store (ps_world (pi_save c st))) = (if i = mc_call_id c then Some c else stored_call i (w_store (ps_world st)))"
  by (simp add: stored_call_in pi_save_def save_call_def stored_in_save)

definition fresh_ids :: "pi_env \<Rightarrow> pi_setup \<Rightarrow> bool" where
  "fresh_ids env setup = (\<forall>s \<in> {1 .. pl_max_turns (pu_limits setup)}. \<forall>t \<in> {1 .. pl_max_turns (pu_limits setup)}.
     pv_call_id env s = pv_call_id env t \<longrightarrow> s = t)"

lemma stored_ok_same:
  assumes "stored_ok env st" and "ps_active st' = ps_active st" "ps_unfinished st' = ps_unfinished st"
    and "\<And>t c. (t, c) \<in> set (ps_active st) \<Longrightarrow> stored_call (pv_call_id env t) (w_store (ps_world st')) = stored_call (pv_call_id env t) (w_store (ps_world st))"
  shows "stored_ok env st'"
  unfolding stored_ok_def assms(2,3)
proof (intro ballI, clarify, intro conjI impI)
  fix t c assume t: "(t, c) \<in> set (ps_active st)"
  with assms(1) show id: "mc_call_id c = pv_call_id env t" by (auto simp: stored_ok_def)
  assume "t \<notin> set (ps_unfinished st)"
  with assms(1) t have "stored_call (mc_call_id c) (w_store (ps_world st)) = Some c" by (auto simp: stored_ok_def)
  then show "stored_call (mc_call_id c) (w_store (ps_world st')) = Some c" using assms(4) [OF t] id by simp
qed

lemma active_turn:
  assumes "calls_ok setup st" and "(t, c) \<in> set (ps_active st)"
  shows "1 \<le> t \<and> t \<le> int (length (ps_active st)) \<and> t \<le> pl_max_turns (pu_limits setup)"
proof -
  have "t \<in> set (map fst (ps_active st))" using assms(2) by force
  then have "1 \<le> t \<and> t \<le> int (length (ps_active st))" using calls_okD(2) [OF assms(1)] by blast
  moreover have "int (length (ps_active st)) \<le> max 0 (pl_max_turns (pu_limits setup))" using assms(1) by (simp add: calls_ok_def)
  ultimately show ?thesis by linarith
qed

text \<open>A record that is written to the store does not hide the others.\<close>

lemma stored_ok_write:
  assumes ok: "stored_ok env st" and inv: "calls_ok setup st" and ids: "fresh_ids env setup"
    and turn: "1 \<le> turn" "turn \<le> pl_max_turns (pu_limits setup)" and id: "mc_call_id call = pv_call_id env turn"
    and st': "ps_active st' = AList.update turn call (ps_active st)" "set (ps_unfinished st) \<subseteq> insert turn (set (ps_unfinished st'))"
    and w: "\<And>i. stored_call i (w_store (ps_world st')) = (if i = mc_call_id call then Some call else stored_call i (w_store (ps_world st)))"
  shows "stored_ok env st'"
  unfolding stored_ok_def
proof (intro ballI, clarify)
  fix t c assume t: "(t, c) \<in> set (ps_active st')"
  have d: "distinct (map fst (ps_active st))" using calls_okD(1) [OF inv] .
  then have "distinct (map fst (ps_active st'))" by (simp add: st' distinct_update)
  then have "map_of (ps_active st') t = Some c" using t by simp
  then have c: "if t = turn then c = call else (t, c) \<in> set (ps_active st)" using d by (auto simp: st' update_conv' split: if_splits)
  show "mc_call_id c = pv_call_id env t \<and> (t \<notin> set (ps_unfinished st') \<longrightarrow> stored_call (mc_call_id c) (w_store (ps_world st')) = Some c)"
  proof (cases "t = turn")
    case True
    then show ?thesis using c id w by simp
  next
    case False
    then have m: "(t, c) \<in> set (ps_active st)" using c by simp
    from active_turn [OF inv m] have "pv_call_id env t \<noteq> pv_call_id env turn"
      using ids turn False unfolding fresh_ids_def by (metis atLeastAtMost_iff)
    then show ?thesis using ok m w id st'(2) False by (auto simp: stored_ok_def)
  qed
qed

lemma pi_compose_stored:
  assumes "pi_compose env setup st = (s, c)" and "stored_ok env st"
  shows "stored_ok env s" and "stored_call i (w_store (ps_world s)) = stored_call i (w_store (ps_world st))"
proof -
  obtain se where s: "s = set_session env se st" using assms(1) by (auto simp: pi_compose_def split: prod.splits)
  show "stored_ok env s" by (rule stored_ok_same [OF assms(2)]) (simp_all add: s pi_frame)
  show "stored_call i (w_store (ps_world s)) = stored_call i (w_store (ps_world st))" by (simp add: s)
qed

lemma new_pi_call_id [simp]: "mc_call_id (new_pi_call env setup turn n c v now) = pv_call_id env turn"
  by (simp add: new_pi_call_def)

lemma prepare_request_stored:
  assumes inv: "pi_inv setup st" and ok: "stored_ok env st" and ids: "fresh_ids env setup"
    and p: "prepare_request env setup turn rec st = (st1, r)" and turn: "1 \<le> turn" "turn \<le> pl_max_turns (pu_limits setup)"
  shows "stored_ok env st1"
proof (cases "turn \<noteq> int (length (ps_active st)) + 1 \<or> ps_unfinished st \<noteq> [] \<or> running_tools st \<noteq> []")
  case True
  then have "prepare_request env setup turn rec st = (st, Inl (ValueError ''Duplicate or out-of-order Pi turn''))"
    unfolding prepare_request_def by (rule if_P)
  then show ?thesis using p ok by simp
next
  case False
  obtain s c where c: "pi_compose env setup st = (s, c)" by fastforce
  note sc = pi_compose_control [OF c] and ss = pi_compose_stored [OF c ok]
  have cs: "calls_ok setup s" using same_control_inv [OF sc inv] by (simp add: pi_inv_def)
  consider "st1 = st" | "st1 = s"
    | n v where "st1 = pi_log env ''pi_model_started'' [(''turn'', jint turn), (''call_id'', JStr (pv_call_id env turn))]
        (pi_save (new_pi_call env setup turn n c v (ps_now st)) (s\<lparr>ps_active := AList.update turn (new_pi_call env setup turn n c v (ps_now st)) (ps_active s),
           ps_unfinished := ps_unfinished s @ [turn]\<rparr>))"
  proof (cases "metric (dict_get_or ''message_count'' JNull rec) ''message count''")
    case (Inl e)
    then have "st1 = st" using p unfolding prepare_request_def if_not_P [OF False] by simp
    then show ?thesis using that by blast
  next
    case n: (Inr n)
    show ?thesis
    proof (cases "optional_name (pu_prompt_version setup)")
      case (Inl e)
      then have "st1 = s" using p n c unfolding prepare_request_def if_not_P [OF False] by simp
      then show ?thesis using that by blast
    next
      case (Inr v)
      then show ?thesis using that(3) [of n v] p n c unfolding prepare_request_def if_not_P [OF False] by (simp add: Let_def)
    qed
  qed
  then show ?thesis
  proof cases
    case 3
    show ?thesis
      by (rule stored_ok_write [OF ss(1) cs ids turn, of "new_pi_call env setup turn n c v (ps_now st)"])
        (use False sc in \<open>auto simp: 3 pi_frame same_control_def\<close>)
  qed (use ok ss in simp_all)
qed

lemma model_end_stored:
  assumes inv: "pi_inv setup st" and ok: "stored_ok env st" and ids: "fresh_ids env setup"
    and m: "model_end env setup turn rec st = (st1, r)" and t: "turn \<in> set (ps_unfinished st)"
  shows "stored_ok env st1"
proof -
  have c: "calls_ok setup st" using inv by (simp add: pi_inv_def)
  have d: "distinct (map fst (ps_active st))" using calls_okD(1) [OF c] .
  obtain call where call: "map_of (ps_active st) turn = Some call" "(turn, call) \<in> set (ps_active st)" and u: "ps_unfinished st = [turn]"
    by (rule unfinished_call [OF inv t])
  have id: "mc_call_id call = pv_call_id env turn" using ok call(2) by (auto simp: stored_ok_def)
  show ?thesis
  proof (cases rule: model_end_cases [OF m call(1)])
    case (1 e)
    then show ?thesis using ok by simp
  next
    case (2 call1 e usage reason)
    have "mc_call_id c' = pv_call_id env t' \<and> (t' \<notin> set (ps_unfinished st) \<longrightarrow> stored_call (mc_call_id c') (w_store (ps_world st)) = Some c')"
      if "(t', c') \<in> set (ps_active st1)" for t' c'
    proof -
      have "distinct (map fst (ps_active st1))" using d by (simp add: 2 distinct_update)
      then have "map_of (ps_active st1) t' = Some c'" using that by simp
      then have "if t' = turn then c' = call1 else (t', c') \<in> set (ps_active st)" using d by (auto simp: 2 update_conv' split: if_splits)
      then show ?thesis using reported_call_fields(3) [OF 2(1)] id ok u by (cases "t' = turn") (auto simp: stored_ok_def)
    qed
    then show ?thesis by (auto simp: stored_ok_def 2)
  next
    case (3 call1 usage reason)
    show ?thesis
      by (rule stored_ok_write [OF ok c ids, of turn call1])
        (use active_turn [OF c call(2)] reported_call_fields(3) [OF 3(1)] id u in \<open>auto simp: 3(2) pi_frame\<close>)
  qed
qed

lemma handle_stored:
  assumes inv: "pi_inv setup st" and ok: "stored_ok env st" and ids: "fresh_ids env setup" and h: "handle_request env setup rec st = (st1, r)"
  shows "stored_ok env st1"
proof -
  consider "st1 = st" | i where "st1 = st\<lparr>ps_identities := i\<rparr>"
    | turn where "1 \<le> turn" "turn \<le> pl_max_turns (pu_limits setup)" "prepare_request env setup turn rec st = (st1, r)"
    | turn where "turn \<in> set (ps_unfinished st)" "model_end env setup turn rec st = (st1, r)"
    using h by (auto simp: handle_request_def Let_def not_less elim!: admit_tool_result split: option.splits if_splits)
  then show ?thesis
  proof cases
    case 2
    show ?thesis by (rule stored_ok_same [OF ok]) (simp_all add: 2)
  qed (use ok prepare_request_stored [OF inv ok ids] model_end_stored [OF inv ok ids] in blast)+
qed

lemma pi_step_stored:
  assumes inv: "pi_inv setup st" and ok: "stored_ok env st" and ids: "fresh_ids env setup" and others: "spares_calls env setup ev"
    and s: "pi_step env setup ev st = (st1, x)"
  shows "stored_ok env st1"
proof -
  note same = stored_ok_same [OF ok]
  show ?thesis
  proof (cases ev)
    case (Pi_Line l)
    show ?thesis
    proof (cases "st1 = st \<or> st1 = st\<lparr>ps_sequence := ps_sequence st + 1\<rparr>")
      case True
      then show ?thesis using same [of st1] by auto
    next
      case False
      let ?st = "st\<lparr>ps_sequence := ps_sequence st + 1\<rparr>"
      obtain rec where st1: "st1 = respond env setup (ps_sequence st + 1) rec ?st"
        using s False unfolding Pi_Line
        by (auto simp: if_failed_def read_line_def Let_def split: option.splits pi_line.splits json.splits if_splits)
      obtain st2 r where h: "handle_request env setup rec ?st = (st2, r)" by fastforce
      note bumped_inv [OF inv]
      moreover have "stored_ok env ?st" by (rule same) simp_all
      ultimately have ok2: "stored_ok env st2" using handle_stored [OF _ _ ids h] by blast
      show ?thesis
        unfolding st1 by (rule stored_ok_same [OF ok2]) (simp_all add: respond_def h note_failure_def split: sum.split pi_reply.split)
    qed
  next
    case (Pi_Others f)
    then have st1: "st1 = st\<lparr>ps_world := f (ps_world st)\<rparr>" using s by simp
    have "stored_call (pv_call_id env t) (w_store (f (ps_world st))) = stored_call (pv_call_id env t) (w_store (ps_world st))"
      if "(t, c) \<in> set (ps_active st)" for t c
    proof -
      have "calls_ok setup st" using inv by (simp add: pi_inv_def)
      from active_turn [OF this that] show ?thesis using others unfolding Pi_Others spares_calls_def by auto
    qed
    then show ?thesis using same [of st1] by (simp add: st1)
  next
    case (Pi_Slot i)
    have "stored_ok env (start_tool env setup i st)"
      by (rule same) (simp_all add: start_tool_def put_handler_def pi_frame stored_call_def split: option.split)
    then show ?thesis using s Pi_Slot by simp
  next
    case (Pi_Done i raw)
    have "stored_ok env (end_tool env setup i raw st)"
      by (rule same) (simp_all add: end_tool_def put_handler_def drop_handler_def note_failure_def tool_failed_log_def pi_frame stored_call_def
        split: option.split sum.split prod.split)
    then show ?thesis using s Pi_Done by simp
  next
    case (Pi_Sent i failure)
    have "stored_ok env (write_reply i failure st)"
      by (rule same) (simp_all add: write_reply_def drop_handler_def note_failure_def split: option.split)
    then show ?thesis using s Pi_Sent by simp
  qed (use s ok in \<open>auto simp: if_failed_def split: option.splits\<close>)
qed

lemma pi_loop_stored:
  assumes "fresh_ids env setup" and "\<forall>ev \<in> set evs. spares_calls env setup ev"
  shows "pi_inv setup st \<Longrightarrow> stored_ok env st \<Longrightarrow> pi_loop env setup evs st = (st1, x) \<Longrightarrow> stored_ok env st1"
  using assms(2)
proof (induction evs arbitrary: st)
  case (Cons ev evs)
  obtain st2 y where s: "pi_step env setup ev (tick st) = (st2, y)" by fastforce
  have inv: "pi_inv setup (tick st)" using Cons.prems(1) same_control_inv [of st "tick st"] by simp
  have ok: "stored_ok env (tick st)" by (rule stored_ok_same [OF Cons.prems(2)]) (simp_all add: tick_def)
  have "stored_ok env st2" using pi_step_stored [OF inv ok assms(1) _ s] Cons.prems(4) by simp
  then show ?case using Cons s pi_step_inv [OF inv s] by (cases y) auto
qed simp

definition recorded :: "pi_env \<Rightarrow> pi_state \<Rightarrow> bool" where
  "recorded env st = (\<forall>(t, c) \<in> set (ps_active st). mc_status c \<in> {''succeeded'', ''failed''} \<and> mc_finish_time c \<noteq> None
     \<and> stored_call (pv_call_id env t) (w_store (ps_world st)) = Some c)"

lemma recorded_no_open:
  assumes "calls_ok setup st" and "stored_ok env st" and "ps_unfinished st = []"
  shows "recorded env st"
  using assms unfolding recorded_def stored_ok_def calls_ok_def by fastforce

lemma fold_failed_log:
  "same_control st (fold (\<lambda>h. tool_failed_log env h e) hs st)"
  "stored_call i (w_store (ps_world (fold (\<lambda>h. tool_failed_log env h e) hs st))) = stored_call i (w_store (ps_world st))"
  "ps_failure (fold (\<lambda>h. tool_failed_log env h e) hs st) = ps_failure st"
proof (induction hs arbitrary: st)
  case (Cons h hs)
  case 1
  show ?case using Cons(1) [of "tool_failed_log env h e st"] same_control_trans [of st "tool_failed_log env h e st"]
    by (simp add: tool_failed_log_def)
  case 2
  show ?case using Cons(2) [of "tool_failed_log env h e st"] by simp
  case 3
  show ?case using Cons(3) [of "tool_failed_log env h e st"] by (simp add: tool_failed_log_def pi_frame)
qed simp_all

lemma cancel_handlers_frame:
  "ps_active (cancel_handlers env st) = ps_active st" "ps_unfinished (cancel_handlers env st) = ps_unfinished st"
  "ps_identities (cancel_handlers env st) = ps_identities st" "ps_handlers (cancel_handlers env st) = []"
  "ps_failure (cancel_handlers env st) = ps_failure st"
  "stored_call i (w_store (ps_world (cancel_handlers env st))) = stored_call i (w_store (ps_world st))"
  using fold_failed_log [where st = st and env = env and e = CancelledError and hs = "tool_slots st"] by (simp_all add: cancel_handlers_def same_control_def)

lemma cancel_handlers_inv: "pi_inv setup st \<Longrightarrow> pi_inv setup (cancel_handlers env st)"
proof -
  assume "pi_inv setup st"
  then have "pi_inv setup (fold (\<lambda>h. tool_failed_log env h CancelledError) (tool_slots st) st)"
    using same_control_inv [OF fold_failed_log(1)] by blast
  then have "calls_ok setup (cancel_handlers env st)" "tools_ok setup (cancel_handlers env st)" "handlers_ok setup (cancel_handlers env st)"
    unfolding pi_inv_def cancel_handlers_def
    by (simp_all add: calls_ok_def, simp add: tools_ok_def, simp add: handlers_ok_def handler_keys_def tool_slots_def)
  then show "pi_inv setup (cancel_handlers env st)" by (simp add: pi_inv_def)
qed

lemma conclude_frame:
  assumes "conclude env setup rec st = (st1, r)"
  shows "same_control st st1" and "stored_call i (w_store (ps_world st1)) = stored_call i (w_store (ps_world st))"
    and "ps_failure st1 = ps_failure st"
  using assms by (auto simp: conclude_def Let_def pi_frame split: sum.splits prod.splits option.splits)

lemma conclude_Inr:
  assumes "conclude env setup rec st = (st1, Inr out)"
  obtains answer v call where "check_result rec st = Inr answer" and "snd (output_value env setup answer) = Inr v" and "pi_output env v = Inr out"
    and "ps_unfinished st = []" and "json_int (dict_get_or ''turns'' JNull rec) = Some (int (length (ps_active st)))"
    and "map_of (ps_active st) (int (length (ps_active st))) = Some call" and "stopped_for ''stop'' call"
    and "dict_get_or ''text'' JNull rec = JStr answer"
proof -
  obtain answer where t: "check_result rec st = Inr answer" using assms by (cases "check_result rec st") (auto simp: conclude_def)
  obtain report x where o: "output_value env setup answer = (report, x)" by fastforce
  obtain v where v: "x = Inr v" using assms t o by (cases x) (auto simp: conclude_def Let_def)
  have p: "pi_output env v = Inr out" using assms t o v by (cases "pi_output env v") (auto simp: conclude_def Let_def)
  obtain call where call: "map_of (ps_active st) (int (length (ps_active st))) = Some call"
    using t by (cases "map_of (ps_active st) (int (length (ps_active st)))") (auto simp: check_result_def Let_def split: if_splits)
  have "ps_unfinished st = []" "json_int (dict_get_or ''turns'' JNull rec) = Some (int (length (ps_active st)))" "stopped_for ''stop'' call"
    "dict_get_or ''text'' JNull rec = JStr answer"
    using t call by (auto simp: check_result_def Let_def split: if_splits json.splits)
  then show ?thesis using that t o v p call by simp
qed

lemma close_attempt_recorded:
  assumes pinv: "pi_inv setup st" and ok: "stored_ok env st" and ids: "fresh_ids env setup"
  shows "recorded env (close_attempt env e st)" and "map fst (ps_active (close_attempt env e st)) = map fst (ps_active st)"
proof -
  have inv: "calls_ok setup st" using pinv by (simp add: pi_inv_def)
  let ?n = "int (length (ps_active st))"
  consider "ps_unfinished st = []" | "ps_unfinished st = [?n]" "ps_active st \<noteq> []" using inv by (auto simp: calls_ok_def)
  then have "recorded env (close_attempt env e st) \<and> map fst (ps_active (close_attempt env e st)) = map fst (ps_active st)"
  proof cases
    case 1
    then show ?thesis using recorded_no_open [OF inv ok 1] by (simp add: close_attempt_def recorded_def pi_frame)
  next
    case 2
    then have "?n \<in> set (map fst (ps_active st))" using calls_okD(3) [OF inv, of ?n] by simp
    then obtain call where call: "map_of (ps_active st) ?n = Some call" by (metis map_of_eq_None_iff image_set option.exhaust)
    have mem: "(?n, call) \<in> set (ps_active st)" using call by (rule map_of_SomeD)
    let ?c = "interrupted_call env (ps_now st) e call"
    let ?st = "st\<lparr>ps_active := AList.update ?n ?c (ps_active st)\<rparr>"
    have c: "close_attempt env e st = pi_log env ''pi_run_failed'' [(''error_type'', JStr (exc_name e))] (pi_save ?c ?st)"
      using 2 call by (simp add: close_attempt_def close_call_def Let_def)
    have id: "mc_call_id ?c = pv_call_id env ?n" using ok mem by (auto simp: stored_ok_def interrupted_call_def)
    have "stored_ok env ((close_attempt env e st)\<lparr>ps_unfinished := []\<rparr>)"
      by (rule stored_ok_write [OF ok inv ids, of ?n ?c]) (use active_turn [OF inv mem] id 2 in \<open>auto simp: c pi_frame\<close>)
    moreover have "pi_inv setup ((close_attempt env e st)\<lparr>ps_unfinished := []\<rparr>)"
      by (rule touch_call_ok [OF pinv, of ?n _ ?c]) (use 2 in \<open>simp_all add: c pi_frame interrupted_call_def\<close>)
    then have "calls_ok setup ((close_attempt env e st)\<lparr>ps_unfinished := []\<rparr>)" by (simp add: pi_inv_def)
    ultimately have "recorded env ((close_attempt env e st)\<lparr>ps_unfinished := []\<rparr>)" by (intro recorded_no_open) simp_all
    then have "recorded env (close_attempt env e st)" by (simp add: recorded_def)
    then show ?thesis using AList_update_known(1) \<open>?n \<in> set (map fst (ps_active st))\<close> by (simp add: c pi_frame)
  qed
  then show "recorded env (close_attempt env e st)" "map fst (ps_active (close_attempt env e st)) = map fst (ps_active st)" by blast+
qed

section \<open>Properties\<close>

lemma pi_limits_pos:
  assumes "pi_limits_of runtime = Inr l"
  shows "1 \<le> pl_max_turns l" "1 \<le> pl_max_tool_calls l" "1 \<le> pl_max_parallel_tools l \<and> pl_max_parallel_tools l \<le> 64"
proof -
  obtain a b c where "positive_int (dict_get_or ''max_turns'' (JNum 10) runtime) ''max_turns'' = Inr a"
    "positive_int (dict_get_or ''max_tool_calls'' (JNum 100) runtime) ''max_tool_calls'' = Inr b"
    "positive_int (dict_get_or ''max_parallel_tools'' (JNum 8) runtime) ''max_parallel_tools'' = Inr c" "c \<le> 64"
    "pl_max_turns l = a" "pl_max_tool_calls l = b" "pl_max_parallel_tools l = c"
    using assms by (auto simp: pi_limits_of_def split: sum.splits if_splits json.splits)
  then show "1 \<le> pl_max_turns l" "1 \<le> pl_max_tool_calls l" "1 \<le> pl_max_parallel_tools l \<and> pl_max_parallel_tools l \<le> 64"
    using int_within_Inr unfolding positive_int_def by blast+
qed

lemma pi_output_sound:
  assumes "pi_output env v = Inr out"
  shows "\<not> has_nul (JObj out) \<and> map_of out ''agent'' \<noteq> None"
proof -
  let ?d = "case v of JObj d \<Rightarrow> d | _ \<Rightarrow> [(''data'', v)]"
  obtain j where out: "out = dict_setdefault ''agent'' j ?d" and "validate_output_json env out = Inr ()"
    using assms by (auto simp: pi_output_def Let_def split: sum.splits)
  then show ?thesis by (auto simp: validate_output_json_def map_of_setdefault split: if_splits option.splits)
qed

lemma pi_loop_result:
  "pi_loop env setup evs st = (st1, Some (Inr rec)) \<Longrightarrow> ps_failure st1 = None \<and> Pi_Line (Line (JObj rec)) \<in> set evs"
proof (induction evs arbitrary: st)
  case (Cons ev evs)
  obtain st2 y where s: "pi_step env setup ev (tick st) = (st2, y)" by fastforce
  show ?case
  proof (cases y)
    case None
    then show ?thesis using Cons s by auto
  next
    case (Some z)
    then have y: "y = Some (Inr rec)" and st1: "st1 = st2" using Cons.prems s by auto
    show ?thesis
    proof (cases ev)
      case (Pi_Line line)
      have a: "accept_result d (tick st) = Inr rec \<Longrightarrow> d = rec" for d
        by (auto simp: accept_result_def split: if_splits json.splits option.splits)
      have ok: "ps_failure (tick st) = None" "read_line env setup line (tick st) = (st2, Some (Inr rec))"
        using s y Pi_Line by (auto simp: if_failed_def split: option.splits)
      then have "st2 = tick st \<and> line = Line (JObj rec)"
        using a by (auto simp: read_line_def Let_def split: pi_line.splits json.splits if_splits)
      then show ?thesis using ok(1) st1 Pi_Line by simp
    qed (use s y in \<open>auto simp: if_failed_def split: option.splits\<close>)
  qed
qed simp

lemma finish_attempt_cases:
  assumes "finish_attempt env setup r st = (st1, out)"
  obtains (ended) rec d where "r = Inr rec" and "out = Inr d" and "conclude env setup rec st = (st1, Inr d)"
    | (stopped) e st2 where "out = Inl e" and "st1 = close_attempt env e st2" and "same_control st st2"
        and "\<And>i. stored_call i (w_store (ps_world st2)) = stored_call i (w_store (ps_world st))"
proof (cases r)
  case (Inl e)
  then show ?thesis using assms stopped [of e st] by (simp add: finish_attempt_def)
next
  case (Inr rec)
  obtain st2 x where c: "conclude env setup rec st = (st2, x)" by fastforce
  show ?thesis
  proof (cases x)
    case (Inl e)
    then show ?thesis using assms Inr c stopped [of e st2] conclude_frame [OF c] by (simp add: finish_attempt_def)
  next
    case d: (Inr d)
    then show ?thesis using assms Inr c ended [of rec d] by (simp add: finish_attempt_def)
  qed
qed

text \<open>
  C35: A worker stays within its limits. Whatever lines the worker sends and however tools,
  cancellation and other tasks are interleaved, the attempt opens at most the configured number of model calls, one at a
  time, admits at most the configured number of tool requests, runs at most the configured number of tools at once, never a tool
  while a model call is open, and never keeps more than 128 requests pending.
\<close>

theorem pi_stays_within_limits:
  assumes "pi_prepare env runtime input_data se = Inr setup"
    and "pi_loop env setup evs (fst (start_attempt env setup (initial_state w se))) = (st, r)"
  shows "int (length (ps_active st)) \<le> pl_max_turns (pu_limits setup)
     \<and> int (length (ps_identities st)) \<le> pl_max_tool_calls (pu_limits setup)
     \<and> int (length (tool_slots st)) \<le> pl_max_parallel_tools (pu_limits setup)
     \<and> length (ps_handlers st) \<le> 128 \<and> length (ps_unfinished st) \<le> 1
     \<and> (ps_unfinished st \<noteq> [] \<longrightarrow> running_tools st = [])"
proof -
  have lim: "pi_limits_of runtime = Inr (pu_limits setup)"
    using assms(1) by (auto simp: pi_prepare_def Let_def split: sum.splits)
  have "1 \<le> pl_max_turns (pu_limits setup)" "1 \<le> pl_max_tool_calls (pu_limits setup)" "1 \<le> pl_max_parallel_tools (pu_limits setup)"
    using pi_limits_pos [OF lim] by simp_all
  moreover have inv: "pi_inv setup st" using attempt_inv(1) [OF assms(2)] .
  moreover have "ps_unfinished st \<noteq> [] \<longrightarrow> running_tools st = []"
    using inv running_tools_Nil unfolding pi_inv_def handlers_ok_def by blast
  moreover have "length (ps_unfinished st) \<le> 1" using inv by (auto simp: pi_inv_def calls_ok_def)
  ultimately show ?thesis unfolding pi_inv_def by (auto simp: calls_ok_def tools_ok_def handlers_ok_def MAX_PENDING_REQUESTS_def)
qed




section \<open>Witnesses\<close>

definition demo_pi_env :: pi_env where
  "demo_pi_env = \<lparr>pv_runtime = demo_runtime None, pv_agent = echo_agent, pv_run = demo_run None RUNNING, pv_clk = (\<lambda>n. int n), pv_mono = (\<lambda>n. of_nat n),
     pv_defaults = [(''base_url'', JStr ''http://m''), (''model'', JStr ''x'')], pv_registry = None, pv_prompt_spec = (\<lambda>n v. None),
     pv_compose_dumps = (\<lambda>x. fst x), pv_json = (\<lambda>j. Some []), pv_loads = (\<lambda>s. Inl (OtherException ''JSONDecodeError'' [])),
     pv_format = (\<lambda>t args. Inr []), pv_adapter = (\<lambda>t. Inl (ValueError [])), pv_error_types = [], pv_nfkc = id, pv_chain = (\<lambda>e. [e]),
     pv_sqlalchemy = (\<lambda>e. False), pv_script = (\<lambda>n s d se. (se, Inr JNull)), pv_call_id = (\<lambda>t. show_int t)\<rparr>"

definition empty_session :: skill_session where
  "empty_session = \<lparr>se_run_id = ''r'', se_assignments = [], se_order = [], se_active = [], se_max_active = 8, se_max_chars = 20000,
     se_audit = [], se_last_truncated = None\<rparr>"

definition demo_request :: "int \<Rightarrow> string \<Rightarrow> dict \<Rightarrow> pi_event" where
  "demo_request i kind rest = Pi_Line (Line (JObj ([(''type'', JStr ''request''), (''id'', JStr (show_int i)), (''kind'', JStr kind), (''turn'', JNum 1)] @ rest)))"

definition demo_dialogue :: "pi_event list" where
  "demo_dialogue = [demo_request 1 ''prepare_request'' [(''message_count'', JNum 1)], Pi_Sent 1 None,
     demo_request 2 ''model_end'' [(''stop_reason'', JStr ''stop''), (''latency_ms'', JNum 3)], Pi_Sent 2 None,
     Pi_Line (Line (JObj [(''type'', JStr ''result''), (''text'', JStr ''hello''), (''turns'', JNum 1)]))]"

definition demo_pi_setup :: pi_setup where
  "demo_pi_setup = (case pi_prepare demo_pi_env [] [] empty_session of Inr s \<Rightarrow> s | Inl e \<Rightarrow> undefined)"

lemma demo_pi_prepared: "pi_prepare demo_pi_env [] [] empty_session = Inr demo_pi_setup"
proof -
  have "case pi_prepare demo_pi_env [] [] empty_session of Inr s \<Rightarrow> True | Inl e \<Rightarrow> False" by code_simp
  then show ?thesis by (simp add: demo_pi_setup_def split: sum.splits)
qed

lemma demo_pi_completed:
  "case pi_prepare demo_pi_env [] [] empty_session of Inl e \<Rightarrow> False
   | Inr s \<Rightarrow> (case pi_attempt demo_pi_env s demo_dialogue (initial_state (demo_world (demo_run None RUNNING)) empty_session) of
        (st, Some (Inr out)) \<Rightarrow> length (ps_active st) = 1 | _ \<Rightarrow> False)"
  by code_simp

abbreviation demo_pi_start :: pi_state where
  "demo_pi_start \<equiv> initial_state (demo_world (demo_run None RUNNING)) empty_session"

lemma demo_pi_attempt:
  obtains st out where "pi_attempt demo_pi_env demo_pi_setup demo_dialogue demo_pi_start = (st, Some (Inr out))" and "length (ps_active st) = 1"
  using demo_pi_completed unfolding demo_pi_prepared
  by (auto split: prod.splits option.splits sum.splits)

lemma demo_pi_loop:
  obtains st r where "pi_loop demo_pi_env demo_pi_setup demo_dialogue (fst (start_attempt demo_pi_env demo_pi_setup demo_pi_start)) = (st, Some r)"
    and "length (ps_active st) = 1"
proof -
  obtain st out where a: "pi_attempt demo_pi_env demo_pi_setup demo_dialogue demo_pi_start = (st, Some (Inr out))" "length (ps_active st) = 1"
    by (rule demo_pi_attempt)
  obtain st1 r where l: "pi_loop demo_pi_env demo_pi_setup demo_dialogue (fst (start_attempt demo_pi_env demo_pi_setup demo_pi_start)) = (st1, Some r)"
    and f: "finish_attempt demo_pi_env demo_pi_setup r (cancel_handlers demo_pi_env st1) = (st, Inr out)"
    using a(1) by (auto simp: pi_attempt_def split: prod.splits option.splits)
  obtain rec where "conclude demo_pi_env demo_pi_setup rec (cancel_handlers demo_pi_env st1) = (st, Inr out)"
    by (cases rule: finish_attempt_cases [OF f]) auto
  from conclude_frame(1) [OF this] have "ps_active st = ps_active st1" by (simp add: same_control_def cancel_handlers_frame)
  with a(2) l show ?thesis using that by simp
qed

theorem pi_stays_within_limits_witness:
  "\<exists>st r. pi_loop demo_pi_env demo_pi_setup demo_dialogue (fst (start_attempt demo_pi_env demo_pi_setup demo_pi_start)) = (st, r)
     \<and> length (ps_active st) = 1 \<and> 1 \<le> pl_max_turns (pu_limits demo_pi_setup) \<and> length (ps_handlers st) \<le> 128"
proof -
  obtain st r where l: "pi_loop demo_pi_env demo_pi_setup demo_dialogue (fst (start_attempt demo_pi_env demo_pi_setup demo_pi_start)) = (st, Some r)"
    "length (ps_active st) = 1" by (rule demo_pi_loop)
  from pi_stays_within_limits [OF demo_pi_prepared l(1)] l show ?thesis by auto
qed




end
