(* ===== verification/Platform_Config.thy ===== *)
theory Platform_Config
  imports Schema "HOL-Library.List_Lexorder" "HOL-Library.Multiset"
begin

text \<open>
  The platform configuration kept in the database (\<^verbatim>\<open>src/infra/store/repository/platform_config.py\<close>,
  \<^verbatim>\<open>src/infra/store/repository/platform_settings.py\<close>, the classes of \<^verbatim>\<open>src/domain\<close> they store): named sections
  as the application sees them, four tables of typed rows underneath.

  A table maps names to rows, a row is the instance that was written; reading validates it again. Every
  operation is one transaction under a lock of its own, so it is one step on the
  tables, and an exception leaves them as they were. The namespaces of runtime settings are visited in
  the order of their declaration, where the code iterates over a set.
\<close>

section \<open>Declarations\<close>

definition text_within :: "nat \<Rightarrow> string \<Rightarrow> bool" where
  "text_within n s = (s \<noteq> [] \<and> char_count s \<le> n)"

definition positive_float :: field_type where
  "positive_float = Float_of (\<lambda>x. 0 < x)"

definition nonneg_float :: field_type where
  "nonneg_float = Float_of (\<lambda>x. 0 \<le> x)"

definition positive_int_type :: field_type where
  "positive_int_type = Int_of (\<lambda>i. 0 < i)"

definition lower_text :: "json \<Rightarrow> json" where
  "lower_text j = (case j of JStr s \<Rightarrow> JStr (str_lower s) | _ \<Rightarrow> j)"

definition log_levels :: "string list" where
  "log_levels = [''debug'', ''info'', ''warning'', ''warn'', ''error'', ''critical'', ''fatal'', ''notset'']"

definition positive_limits :: "json \<Rightarrow> json option" where
  "positive_limits j = (case j of JObj d \<Rightarrow> if list_all (\<lambda>(k, x). case x of JNum n \<Rightarrow> 0 < n | _ \<Rightarrow> True) d then Some j else None | _ \<Rightarrow> Some j)"

definition limits_type :: field_type where
  "limits_type = Checked (Dict_of (Int_of (\<lambda>_. True))) positive_limits"

type_synonym fields = "(string \<times> field_type \<times> json option) list"

definition token_bucket_fields :: fields where
  "token_bucket_fields = [(''capacity'', positive_float, Some (JNum 100)), (''fill_rate'', nonneg_float, Some (JNum 10))]"

definition runtime_fields :: fields where
  "runtime_fields =
     [(''name'', Str_of (text_within 100), Some (JStr ''default'')),
      (''worker_poll_interval_seconds'', positive_float, Some (JNum 1)),
      (''worker_batch_size'', positive_int_type, Some (jint 20)),
      (''worker_lease_seconds'', positive_float, Some (JNum 60)),
      (''worker_shutdown_timeout_seconds'', positive_float, Some (JNum 10)),
      (''queue_global_max_concurrency'', positive_int_type, Some (jint 20)),
      (''queue_route_limits'', limits_type, Some (JObj [])),
      (''queue_caller_limits'', limits_type, Some (JObj [])),
      (''queue_max_nested_depth'', Int_of (\<lambda>i. 0 \<le> i), Some (jint 3)),
      (''queue_max_active_children_per_root'', positive_int_type, Some (jint 5)),
      (''rate_limit_enabled'', Bool_of, Some (JBool True)),
      (''rate_limit_default_capacity'', positive_float, Some (JNum 100)),
      (''rate_limit_default_fill_rate'', nonneg_float, Some (JNum 10)),
      (''rate_limit_caller_limits'', Dict_of (Model_of token_bucket_fields Forbid), Some (JObj [])),
      (''config_watcher_poll_interval_seconds'', positive_float, Some (JNum 5)),
      (''kanban_require_api_key'', Bool_of, Some (JBool True)),
      (''logging_level'', Prepared lower_text (Literal_of log_levels), Some (JStr ''info'')),
      (''logging_max_file_size_mb'', positive_int_type, Some (jint 100)),
      (''logging_retention_days'', positive_int_type, Some (jint 100)),
      (''logging_max_body_chars'', positive_int_type, Some (jint 4096)),
      (''run_log_retention_days'', Nullable positive_float, Some JNull),
      (''callback_retention_days'', Nullable positive_float, Some JNull),
      (''model_call_retention_days'', Nullable positive_float, Some JNull)]"

definition runtime_config :: field_type where
  "runtime_config = Model_of runtime_fields Forbid"

definition model_fields :: fields where
  "model_fields =
     [(''name'', Str_of (text_within 100), Some (JStr ''default'')),
      (''base_url'', Nullable (Str_of (\<lambda>_. True)), Some JNull),
      (''api_key'', Nullable (Str_of (\<lambda>_. True)), Some JNull),
      (''model'', Nullable (Str_of (\<lambda>_. True)), Some JNull),
      (''timeout_seconds'', positive_float, Some (JNum 60)),
      (''temperature'', Float_of (\<lambda>x. 0 \<le> x \<and> x \<le> 2), Some (JNum 0)),
      (''max_retries'', Int_of (\<lambda>i. 0 \<le> i), Some (jint 2)),
      (''initial_backoff_seconds'', nonneg_float, Some (JNum 1)),
      (''max_backoff_seconds'', nonneg_float, Some (JNum 30)),
      (''fallback_models'', List_of (Str_of (\<lambda>s. s \<noteq> [])), Some (JList []))]"

definition valid_backoff_range :: "json \<Rightarrow> json option" where
  "valid_backoff_range j = (case (field ''max_backoff_seconds'' j, field ''initial_backoff_seconds'' j) of
      (JNum b, JNum a) \<Rightarrow> if b < a then None else Some j | _ \<Rightarrow> Some j)"

definition model_config :: field_type where
  "model_config = Checked (Model_of model_fields Forbid) valid_backoff_range"

definition callback_fields :: fields where
  "callback_fields =
     [(''name'', Str_of (text_within 100), Some (JStr ''default'')),
      (''timeout_seconds'', positive_float, Some (JNum 10)),
      (''max_attempts'', positive_int_type, Some (jint 3)),
      (''backoff_seconds'', nonneg_float, Some (JNum 1)),
      (''backoff_type'', Literal_of [''exponential'', ''fixed''], Some (JStr ''exponential'')),
      (''signing_secret'', Nullable (Str_of (\<lambda>_. True)), Some JNull),
      (''url_allowlist'', List_of (Str_of (\<lambda>_. True)), Some (JList [])),
      (''channels'', Dict_of Any_of, Some (JObj [])),
      (''dispatch_poll_interval_seconds'', positive_float, Some (JNum 1)),
      (''dispatch_batch_size'', positive_int_type, Some (jint 20))]"

definition platform_callback_config :: field_type where
  "platform_callback_config = Model_of callback_fields Forbid"

definition normalize_scopes :: "json \<Rightarrow> json" where
  "normalize_scopes j = (case j of JStr s \<Rightarrow> jstrs (filter (\<lambda>x. x \<noteq> []) (map str_strip (split_on CHR '','' s))) | _ \<Rightarrow> j)"

definition nonempty_scopes :: "json \<Rightarrow> json option" where
  "nonempty_scopes j = (case j of JList xs \<Rightarrow> if xs = [] \<or> JStr [] \<in> set xs then None else Some j | _ \<Rightarrow> Some j)"

definition api_key_fields :: fields where
  "api_key_fields =
     [(''name'', Str_of (text_within 200), None),
      (''api_key'', Str_of (\<lambda>s. s \<noteq> []), None),
      (''scopes'', Checked (Prepared normalize_scopes (List_of (Str_of (\<lambda>_. True)))) nonempty_scopes, Some (jstrs [''*''])),
      (''enabled'', Bool_of, Some (JBool True))]"

definition api_key_config :: field_type where
  "api_key_config = Model_of api_key_fields Forbid"

section \<open>Tables\<close>

type_synonym named_table = "(string \<times> json) list"

record platform_db =
  pd_runtime :: named_table
  pd_model :: named_table
  pd_callback :: named_table
  pd_keys :: named_table

definition row_name :: "json \<Rightarrow> string" where
  "row_name row = (case field ''name'' row of JStr s \<Rightarrow> s | _ \<Rightarrow> [])"

definition named_get :: "scalars \<Rightarrow> field_type \<Rightarrow> string \<Rightarrow> named_table \<Rightarrow> py_exc + json option" where
  "named_get v t name tbl = (case map_of tbl name of None \<Rightarrow> Inr None
     | Some row \<Rightarrow> map_sum id Some (validated ''stored row'' (validate v t row)))"

definition named_save :: "json \<Rightarrow> named_table \<Rightarrow> named_table" where
  "named_save config tbl = AList.update (row_name config) config tbl"

definition named_delete :: "string \<Rightarrow> named_table \<Rightarrow> named_table" where
  "named_delete name tbl = AList.delete name tbl"

fun validate_rows :: "scalars \<Rightarrow> field_type \<Rightarrow> json list \<Rightarrow> py_exc + json list" where
  "validate_rows v t [] = Inr []"
| "validate_rows v t (row # rows) = (case validated ''stored row'' (validate v t row) of Inl e \<Rightarrow> Inl e
     | Inr x \<Rightarrow> map_sum id (\<lambda>xs. x # xs) (validate_rows v t rows))"

definition named_list :: "scalars \<Rightarrow> field_type \<Rightarrow> named_table \<Rightarrow> py_exc + json list" where
  "named_list v t tbl = validate_rows v t (map snd (sort_key (\<lambda>kr. map byte (fst kr)) tbl))"

text \<open>All keys are written anew; names and keys are unique columns.\<close>

definition replace_keys :: "json list \<Rightarrow> platform_db \<Rightarrow> py_exc + platform_db" where
  "replace_keys configs db =
     (if distinct (map row_name configs) \<and> distinct (map (field ''api_key'') configs)
      then Inr (db\<lparr>pd_keys := map (\<lambda>c. (row_name c, c)) configs\<rparr>)
      else Inl (OtherException ''IntegrityError'' ''duplicate key value violates unique constraint''))"

section \<open>Sections\<close>

record platform_config =
  pc_namespace :: string
  pc_config :: dict
  pc_enabled :: bool
  pc_description :: string
  pc_owner :: "string option"
  pc_managed_by :: string
  pc_updated_by :: "string option"

definition platform_section :: "string \<Rightarrow> dict \<Rightarrow> platform_config" where
  "platform_section namespace config = \<lparr>pc_namespace = namespace, pc_config = config, pc_enabled = True, pc_description = [],
     pc_owner = None, pc_managed_by = ''db'', pc_updated_by = None\<rparr>"

definition RUNTIME_NAMESPACES :: "string list" where
  "RUNTIME_NAMESPACES = [''worker'', ''queue'', ''rate_limit'', ''config_watcher'', ''kanban'', ''logging'', ''retention'']"

text \<open>The keys of a section and the fields that hold them; \<^verbatim>\<open>rate_limit\<close> nests two of them.\<close>

definition section_fields :: "(string \<times> (string \<times> string) list) list" where
  "section_fields =
     [(''worker'', [(''poll_interval_seconds'', ''worker_poll_interval_seconds''), (''batch_size'', ''worker_batch_size''),
        (''lease_seconds'', ''worker_lease_seconds''), (''shutdown_timeout_seconds'', ''worker_shutdown_timeout_seconds'')]),
      (''queue'', [(''global_max_concurrency'', ''queue_global_max_concurrency''), (''route_tags'', ''queue_route_limits''),
        (''callers'', ''queue_caller_limits''), (''max_nested_depth'', ''queue_max_nested_depth''),
        (''max_active_children_per_root'', ''queue_max_active_children_per_root'')]),
      (''rate_limit'', [(''enabled'', ''rate_limit_enabled''), (''callers'', ''rate_limit_caller_limits'')]),
      (''config_watcher'', [(''poll_interval_seconds'', ''config_watcher_poll_interval_seconds'')]),
      (''kanban'', [(''require_api_key'', ''kanban_require_api_key'')]),
      (''logging'', [(''level'', ''logging_level''), (''max_file_size_mb'', ''logging_max_file_size_mb''),
        (''retention_days'', ''logging_retention_days''), (''max_body_chars'', ''logging_max_body_chars'')]),
      (''retention'', [(''log_days'', ''run_log_retention_days''), (''callback_days'', ''callback_retention_days''),
        (''model_call_days'', ''model_call_retention_days'')])]"

definition default_limit_fields :: "(string \<times> string) list" where
  "default_limit_fields = [(''capacity'', ''rate_limit_default_capacity''), (''fill_rate'', ''rate_limit_default_fill_rate'')]"

definition SECTION_KEYS :: "(string \<times> string list) list" where
  "SECTION_KEYS = map (\<lambda>(ns, ks). (ns, (if ns = ''rate_limit'' then [''default''] else []) @ map fst ks)) section_fields
     @ [(''model'', tl (map fst model_fields)), (''callback'', tl (map fst callback_fields)), (''auth'', [''api_keys''])]"

definition unsupported_namespace :: "string \<Rightarrow> py_exc" where
  "unsupported_namespace namespace = ValueError (''unsupported platform config namespace: '' @ namespace)"

definition validate_section :: "string \<Rightarrow> dict \<Rightarrow> py_exc + unit" where
  "validate_section namespace config =
     (case map_of SECTION_KEYS namespace of None \<Rightarrow> Inl (unsupported_namespace namespace)
      | Some allowed \<Rightarrow>
          let unsupported = filter (\<lambda>k. k \<notin> set allowed) (map fst config)
          in if unsupported = [] then Inr ()
             else Inl (ValueError (''unsupported '' @ namespace @ '' configuration fields: '' @ join_with '', '' (sort_key (map byte) unsupported))))"

text \<open>What a section shows of the runtime settings, and what it writes into them.\<close>

definition shown_fields :: "(string \<times> string) list \<Rightarrow> json \<Rightarrow> dict" where
  "shown_fields ks config = map (\<lambda>(k, f). (k, field f config)) ks"

definition runtime_section :: "json \<Rightarrow> string \<Rightarrow> dict" where
  "runtime_section config ns =
     (case map_of section_fields ns of None \<Rightarrow> []
      | Some ks \<Rightarrow> if ns = ''rate_limit''
          then [(''enabled'', field ''rate_limit_enabled'' config), (''default'', JObj (shown_fields default_limit_fields config)),
                (''callers'', field ''rate_limit_caller_limits'' config)]
          else shown_fields ks config)"

definition runtime_sections :: "json \<Rightarrow> platform_config list" where
  "runtime_sections config = map (\<lambda>ns. platform_section ns (runtime_section config ns)) RUNTIME_NAMESPACES"

definition mapped_fields :: "(string \<times> string) list \<Rightarrow> json \<Rightarrow> dict \<Rightarrow> dict" where
  "mapped_fields ks current config = map (\<lambda>(k, f). (f, dict_get_or k (field f current) config)) ks"

definition runtime_mapping :: "json \<Rightarrow> string \<Rightarrow> dict \<Rightarrow> py_exc + dict" where
  "runtime_mapping current namespace config =
     (case map_of section_fields namespace of None \<Rightarrow> Inl (ValueError (''unsupported runtime namespace: '' @ namespace))
      | Some ks \<Rightarrow> if namespace = ''rate_limit''
          then (case sub_dict ''default'' False ''get'' config of Inl e \<Rightarrow> Inl e
            | Inr dflt \<Rightarrow> Inr (mapped_fields ks current config @ mapped_fields default_limit_fields current dflt))
          else Inr (mapped_fields ks current config))"

definition update_runtime :: "scalars \<Rightarrow> json \<Rightarrow> string \<Rightarrow> dict \<Rightarrow> py_exc + json" where
  "update_runtime v current namespace config =
     (case runtime_mapping current namespace config of Inl e \<Rightarrow> Inl e
      | Inr mapped \<Rightarrow> validated ''RuntimeConfig'' (validate v runtime_config
          (JObj (dict_update (case current of JObj d \<Rightarrow> d | _ \<Rightarrow> []) mapped))))"

definition model_from_section :: "scalars \<Rightarrow> json \<Rightarrow> dict \<Rightarrow> py_exc + json" where
  "model_from_section v current config =
     validated ''ModelConfig'' (validate v model_config (JObj (dict_update (case current of JObj d \<Rightarrow> d | _ \<Rightarrow> []) config)))"

definition callback_from_section :: "scalars \<Rightarrow> json \<Rightarrow> dict \<Rightarrow> py_exc + json" where
  "callback_from_section v current config =
     validated ''PlatformCallbackConfig'' (validate v platform_callback_config (JObj (dict_update (case current of JObj d \<Rightarrow> d | _ \<Rightarrow> []) config)))"

section \<open>API keys\<close>

text \<open>Names are made unique with the first free suffix.\<close>

definition suffixed :: "string \<Rightarrow> nat \<Rightarrow> string" where
  "suffixed base k = base @ ''-'' @ show_nat k"

lemma parse_digits_append:
  "parse_digits acc (xs @ ys) = (case parse_digits acc xs of None \<Rightarrow> None | Some n \<Rightarrow> parse_digits n ys)"
  by (induction xs arbitrary: acc) (auto split: option.splits)

lemma digit_value_char [simp]: "d < 10 \<Longrightarrow> digit_value (char_of (48 + d)) = Some d"
  by (simp add: digit_value_def)

declare show_nat.simps [simp del]

lemma parse_show_nat: "parse_digits 0 (show_nat n) = Some n"
proof (induction n rule: less_induct)
  case (less n)
  show ?case
  proof (cases "n < 10")
    case True
    then show ?thesis by (simp add: show_nat.simps [of n])
  next
    case False
    then have "parse_digits 0 (show_nat (n div 10)) = Some (n div 10)" by (intro less) simp
    then show ?thesis using False by (simp add: show_nat.simps [of n] parse_digits_append)
  qed
qed

lemma show_nat_inj: "show_nat m = show_nat n \<longleftrightarrow> m = n"
  by (metis option.inject parse_show_nat)

lemma suffixed_inj: "inj (suffixed base)"
  by (rule injI) (simp add: suffixed_def show_nat_inj)

lemma finite_taken: "finite {j. suffixed base j \<in> set names}"
  using finite_vimageI [OF finite_set suffixed_inj] by (simp add: vimage_def)

function free_suffix :: "string list \<Rightarrow> string \<Rightarrow> nat \<Rightarrow> nat" where
  "free_suffix names base k = (if suffixed base k \<in> set names then free_suffix names base (Suc k) else k)"
  by auto
termination
proof (relation "measure (\<lambda>(names, base, k). card {j. k \<le> j \<and> suffixed base j \<in> set names})", simp, clarsimp)
  fix names :: "string list" and base k
  assume taken: "suffixed base k \<in> set names"
  have fin: "finite {j. k \<le> j \<and> suffixed base j \<in> set names}"
    by (rule finite_subset [OF _ finite_taken [of base names]]) auto
  have "k \<in> {j. k \<le> j \<and> suffixed base j \<in> set names}" "k \<notin> {j. Suc k \<le> j \<and> suffixed base j \<in> set names}"
    using taken by simp_all
  then have "{j. Suc k \<le> j \<and> suffixed base j \<in> set names} \<subset> {j. k \<le> j \<and> suffixed base j \<in> set names}"
    by (metis (no_types, lifting) Collect_mono Suc_leD psubsetI)
  then show "card {j. Suc k \<le> j \<and> suffixed base j \<in> set names} < card {j. k \<le> j \<and> suffixed base j \<in> set names}"
    by (rule psubset_card_mono [OF fin])
qed

declare free_suffix.simps [simp del]

definition free_name :: "string list \<Rightarrow> string \<Rightarrow> string" where
  "free_name names base = (if base \<in> set names then suffixed base (free_suffix names base 2) else base)"

definition key_item_fields :: "nat \<Rightarrow> json \<Rightarrow> dict" where
  "key_item_fields index raw =
     (let name = JStr (''key-'' @ show_nat index) in
      case raw of
        JObj d \<Rightarrow> [(''api_key'', dict_get_or ''key'' (JStr []) d), (''name'', json_or (dict_get_or ''name'' JNull d) name),
            (''scopes'', dict_get_or ''scopes'' (jstrs [''*'']) d), (''enabled'', dict_get_or ''enabled'' (JBool True) d)]
      | _ \<Rightarrow> [(''api_key'', raw), (''name'', name)])"

text \<open>A name that is no text is not found among the names; one that cannot be hashed raises.\<close>

definition unique_name :: "string list \<Rightarrow> json \<Rightarrow> py_exc + json" where
  "unique_name names name = (case name of
      JStr s \<Rightarrow> Inr (JStr (free_name names s))
    | JList _ \<Rightarrow> Inl (TypeError ''unhashable type: list'')
    | JObj _ \<Rightarrow> Inl (TypeError ''unhashable type: dict'')
    | _ \<Rightarrow> Inr name)"

fun parse_keys :: "scalars \<Rightarrow> (json \<Rightarrow> string) \<Rightarrow> nat \<Rightarrow> string list \<Rightarrow> json list \<Rightarrow> json list \<Rightarrow> py_exc + json list" where
  "parse_keys v str index names keys [] = Inr []"
| "parse_keys v str index names keys (raw # raws) =
     (let item = key_item_fields index raw in
      case unique_name names (dict_get_or ''name'' JNull item) of Inl e \<Rightarrow> Inl e
      | Inr name \<Rightarrow> case validated ''ApiKeyConfig'' (validate v api_key_config (JObj (AList.update ''name'' name item))) of Inl e \<Rightarrow> Inl e
      | Inr parsed \<Rightarrow>
          if field ''api_key'' parsed \<in> set keys then Inl (ValueError ''duplicate inbound API keys are not allowed'')
          else map_sum id (\<lambda>rest. parsed # rest)
            (parse_keys v str (Suc index) (str_with str name # names) (field ''api_key'' parsed # keys) raws))"

definition api_keys_from_section :: "scalars \<Rightarrow> (json \<Rightarrow> string) \<Rightarrow> dict \<Rightarrow> py_exc + json list" where
  "api_keys_from_section v str config =
     parse_keys v str 1 [] [] (case dict_get_or ''api_keys'' (JList []) config of JList raws \<Rightarrow> raws | raw \<Rightarrow> [raw])"

definition standard_name :: "string \<Rightarrow> bool" where
  "standard_name s = (take 4 s = ''key-'' \<and> drop 4 s \<noteq> [] \<and> list_all (\<lambda>c. digit_value c \<noteq> None) (drop 4 s))"

definition api_key_to_setting :: "json \<Rightarrow> json" where
  "api_key_to_setting item =
     (if standard_name (row_name item) \<and> field ''scopes'' item = jstrs [''*''] \<and> field ''enabled'' item = JBool True
      then field ''api_key'' item
      else JObj [(''key'', field ''api_key'' item), (''name'', field ''name'' item), (''scopes'', field ''scopes'' item),
        (''enabled'', field ''enabled'' item)])"

section \<open>Operations\<close>

definition is_initialized :: "scalars \<Rightarrow> platform_db \<Rightarrow> py_exc + bool" where
  "is_initialized v db = map_sum id (\<lambda>r. r \<noteq> None) (named_get v runtime_config ''default'' (pd_runtime db))"

text \<open>\<^verbatim>\<open>get("default") or Config()\<close>\<close>

definition current_or_default :: "scalars \<Rightarrow> field_type \<Rightarrow> fields \<Rightarrow> named_table \<Rightarrow> py_exc + json" where
  "current_or_default v t fs tbl = map_sum id (\<lambda>r. case r of None \<Rightarrow> defaults_of fs | Some c \<Rightarrow> c) (named_get v t ''default'' tbl)"

definition delete_section :: "scalars \<Rightarrow> string \<Rightarrow> platform_db \<Rightarrow> py_exc + platform_db" where
  "delete_section v namespace db =
     (if namespace \<in> set RUNTIME_NAMESPACES
      then (case current_or_default v runtime_config runtime_fields (pd_runtime db) of Inl e \<Rightarrow> Inl e
        | Inr current \<Rightarrow> map_sum id (\<lambda>c. db\<lparr>pd_runtime := named_save c (pd_runtime db)\<rparr>)
            (update_runtime v current namespace (runtime_section (defaults_of runtime_fields) namespace)))
      else if namespace = ''model'' then Inr (db\<lparr>pd_model := named_delete ''default'' (pd_model db)\<rparr>)
      else if namespace = ''callback'' then Inr (db\<lparr>pd_callback := named_delete ''default'' (pd_callback db)\<rparr>)
      else if namespace = ''auth'' then replace_keys [] db
      else Inr db)"

definition save_section :: "scalars \<Rightarrow> (json \<Rightarrow> string) \<Rightarrow> string \<Rightarrow> dict \<Rightarrow> platform_db \<Rightarrow> py_exc + platform_db" where
  "save_section v str namespace config db =
     (if namespace \<in> set RUNTIME_NAMESPACES
      then (case current_or_default v runtime_config runtime_fields (pd_runtime db) of Inl e \<Rightarrow> Inl e
        | Inr current \<Rightarrow> map_sum id (\<lambda>c. db\<lparr>pd_runtime := named_save c (pd_runtime db)\<rparr>) (update_runtime v current namespace config))
      else if namespace = ''model''
      then (case current_or_default v model_config model_fields (pd_model db) of Inl e \<Rightarrow> Inl e
        | Inr current \<Rightarrow> map_sum id (\<lambda>c. db\<lparr>pd_model := named_save c (pd_model db)\<rparr>) (model_from_section v current config))
      else if namespace = ''callback''
      then (case current_or_default v platform_callback_config callback_fields (pd_callback db) of Inl e \<Rightarrow> Inl e
        | Inr current \<Rightarrow> map_sum id (\<lambda>c. db\<lparr>pd_callback := named_save c (pd_callback db)\<rparr>) (callback_from_section v current config))
      else if namespace = ''auth''
      then (case api_keys_from_section v str config of Inl e \<Rightarrow> Inl e | Inr keys \<Rightarrow> replace_keys keys db)
      else Inl (unsupported_namespace namespace))"

text \<open>A transaction: an exception leaves the tables alone.\<close>

definition committed :: "'a \<Rightarrow> platform_db \<Rightarrow> py_exc + platform_db \<Rightarrow> platform_db \<times> (py_exc + 'a)" where
  "committed x db r = (case r of Inl e \<Rightarrow> (db, Inl e) | Inr db' \<Rightarrow> (db', Inr x))"

definition platform_save :: "scalars \<Rightarrow> (json \<Rightarrow> string) \<Rightarrow> platform_config \<Rightarrow> platform_db \<Rightarrow> platform_db \<times> (py_exc + platform_config)" where
  "platform_save v str pc db =
     (case validate_section (pc_namespace pc) (pc_config pc) of Inl e \<Rightarrow> (db, Inl e)
      | Inr _ \<Rightarrow> committed pc db (if \<not> pc_enabled pc then delete_section v (pc_namespace pc) db
          else save_section v str (pc_namespace pc) (pc_config pc) db))"

definition platform_delete :: "scalars \<Rightarrow> string \<Rightarrow> platform_db \<Rightarrow> platform_db \<times> (py_exc + unit)" where
  "platform_delete v namespace db =
     (if namespace \<notin> fst ` set SECTION_KEYS then (db, Inl (unsupported_namespace namespace))
      else committed () db (delete_section v namespace db))"

definition without_name :: "json \<Rightarrow> dict" where
  "without_name config = (case config of JObj d \<Rightarrow> filter (\<lambda>kv. fst kv \<noteq> ''name'') d | _ \<Rightarrow> [])"

definition named_section :: "string \<Rightarrow> json option \<Rightarrow> platform_config list" where
  "named_section namespace config = (case config of None \<Rightarrow> [] | Some c \<Rightarrow> [platform_section namespace (without_name c)])"

definition sections_of :: "json option \<Rightarrow> json option \<Rightarrow> json option \<Rightarrow> json list \<Rightarrow> platform_config list" where
  "sections_of runtime model callback keys =
     sort_key (\<lambda>pc. map byte (pc_namespace pc))
       ((case runtime of None \<Rightarrow> [] | Some c \<Rightarrow> runtime_sections c) @ named_section ''model'' model @ named_section ''callback'' callback
        @ (if keys = [] then [] else [platform_section ''auth'' [(''api_keys'', JList (map api_key_to_setting keys))]]))"

definition platform_list :: "scalars \<Rightarrow> platform_db \<Rightarrow> py_exc + platform_config list" where
  "platform_list v db =
     (case named_get v runtime_config ''default'' (pd_runtime db) of Inl e \<Rightarrow> Inl e
      | Inr runtime \<Rightarrow> case named_get v model_config ''default'' (pd_model db) of Inl e \<Rightarrow> Inl e
      | Inr model \<Rightarrow> case named_get v platform_callback_config ''default'' (pd_callback db) of Inl e \<Rightarrow> Inl e
      | Inr callback \<Rightarrow> case named_list v api_key_config (pd_keys db) of Inl e \<Rightarrow> Inl e
      | Inr keys \<Rightarrow> Inr (sections_of runtime model callback keys))"

definition platform_get :: "scalars \<Rightarrow> string \<Rightarrow> platform_db \<Rightarrow> py_exc + platform_config option" where
  "platform_get v namespace db = map_sum id (find (\<lambda>pc. pc_namespace pc = namespace)) (platform_list v db)"

section \<open>Initialisation\<close>

definition section_values :: "platform_config list \<Rightarrow> (string \<times> dict) list" where
  "section_values configs = fold (\<lambda>pc. AList.update (pc_namespace pc) (pc_config pc)) (filter pc_enabled configs) []"

fun validate_sections :: "(string \<times> dict) list \<Rightarrow> py_exc + unit" where
  "validate_sections [] = Inr ()"
| "validate_sections ((ns, config) # rest) = (case validate_section ns config of Inl e \<Rightarrow> Inl e | Inr _ \<Rightarrow> validate_sections rest)"

definition value_of :: "string \<Rightarrow> (string \<times> dict) list \<Rightarrow> dict" where
  "value_of ns vals = (case map_of vals ns of None \<Rightarrow> [] | Some d \<Rightarrow> d)"

fun update_runtimes :: "scalars \<Rightarrow> (string \<times> dict) list \<Rightarrow> string list \<Rightarrow> json \<Rightarrow> py_exc + json" where
  "update_runtimes v vals [] current = Inr current"
| "update_runtimes v vals (ns # nss) current =
     (case update_runtime v current ns (value_of ns vals) of Inl e \<Rightarrow> Inl e | Inr c \<Rightarrow> update_runtimes v vals nss c)"

definition records_from_sections :: "scalars \<Rightarrow> (json \<Rightarrow> string) \<Rightarrow> platform_config list \<Rightarrow> py_exc + json \<times> json \<times> json \<times> json list" where
  "records_from_sections v str configs =
     (let vals = section_values configs in
      case validate_sections vals of Inl e \<Rightarrow> Inl e
      | Inr _ \<Rightarrow> case update_runtimes v vals RUNTIME_NAMESPACES (defaults_of runtime_fields) of Inl e \<Rightarrow> Inl e
      | Inr runtime \<Rightarrow> case model_from_section v (defaults_of model_fields) (value_of ''model'' vals) of Inl e \<Rightarrow> Inl e
      | Inr model \<Rightarrow> case callback_from_section v (defaults_of callback_fields) (value_of ''callback'' vals) of Inl e \<Rightarrow> Inl e
      | Inr callback \<Rightarrow> case api_keys_from_section v str (value_of ''auth'' vals) of Inl e \<Rightarrow> Inl e
      | Inr keys \<Rightarrow> Inr (runtime, model, callback, keys))"

definition platform_initialize :: "scalars \<Rightarrow> (json \<Rightarrow> string) \<Rightarrow> platform_config list \<Rightarrow> platform_db \<Rightarrow> platform_db \<times> (py_exc + bool)" where
  "platform_initialize v str configs db =
     (case records_from_sections v str configs of Inl e \<Rightarrow> (db, Inl e)
      | Inr (runtime, model, callback, keys) \<Rightarrow>
          if map_of (pd_runtime db) ''default'' \<noteq> None then (db, Inr False)
          else committed True db (replace_keys keys
            (db\<lparr>pd_runtime := named_save runtime (pd_runtime db), pd_model := named_save model (pd_model db),
                pd_callback := named_save callback (pd_callback db)\<rparr>)))"

section \<open>Declarations are stable\<close>

lemma stable_limits [stable_rules]: "faithful_scalars v \<Longrightarrow> stable v limits_type"
  unfolding limits_type_def
  by (rule stable_Checked) (auto simp: stable_rules positive_limits_def split: json.splits if_splits)

lemma stable_lower_text [stable_rules]: "stable v (Prepared lower_text (Literal_of log_levels))"
proof (rule stable_Prepared)
  show "stable v (Literal_of log_levels)" by (auto simp: stable_def split: json.splits if_splits)
  have low: "\<forall>s \<in> set log_levels. str_lower s = s" by code_simp
  fix j x
  assume "validate v (Literal_of log_levels) j = Some x"
  then show "lower_text x = x" using low by (auto simp: lower_text_def split: json.splits if_splits)
qed

lemma stable_scopes [stable_rules]:
  assumes "faithful_scalars v"
  shows "stable v (Checked (Prepared normalize_scopes (List_of (Str_of (\<lambda>_. True)))) nonempty_scopes)"
proof (rule stable_Checked)
  show "stable v (Prepared normalize_scopes (List_of (Str_of (\<lambda>_. True))))"
  proof (rule stable_Prepared)
    show "stable v (List_of (Str_of (\<lambda>_. True)))" using assms by (simp add: stable_rules)
    fix j x
    assume "validate v (List_of (Str_of (\<lambda>_. True))) j = Some x"
    then show "normalize_scopes x = x" by (auto simp: normalize_scopes_def)
  qed
qed (auto simp: nonempty_scopes_def split: json.splits if_splits)

lemmas scalar_types = positive_float_def nonneg_float_def positive_int_type_def

lemma default_values [simp]:
  "text_within 100 ''default''"
  "validate v (Prepared lower_text (Literal_of log_levels)) (JStr ''info'') = Some (JStr ''info'')"
  "validate v limits_type (JObj []) = Some (JObj [])"
proof -
  have "str_lower ''info'' = ''info''" "''info'' \<in> set log_levels" by code_simp+
  then show "validate v (Prepared lower_text (Literal_of log_levels)) (JStr ''info'') = Some (JStr ''info'')"
    by (simp add: lower_text_def)
  show "text_within 100 ''default''" by code_simp
qed (simp add: limits_type_def as_map_def positive_limits_def)

lemma runtime_fields_ok:
  assumes "faithful_scalars v"
  shows "list_all (field_ok v) runtime_fields"
proof -
  have bucket: "stable v (Model_of token_bucket_fields Forbid)"
    by (rule stable_Model) (use assms in \<open>simp_all add: token_bucket_fields_def scalar_types stable_rules faithful_scalarsD\<close>)
  show ?thesis
    unfolding runtime_fields_def using assms bucket
    by (simp del: validate.simps(10) add: scalar_types stable_rules faithful_scalarsD as_map_def)
qed

lemma model_fields_ok: "faithful_scalars v \<Longrightarrow> list_all (field_ok v) model_fields"
  unfolding model_fields_def by (simp add: scalar_types stable_rules faithful_scalarsD as_list_def)

lemma callback_fields_ok: "faithful_scalars v \<Longrightarrow> list_all (field_ok v) callback_fields"
  unfolding callback_fields_def by (simp add: scalar_types stable_rules faithful_scalarsD as_list_def as_map_def)

lemma api_key_fields_ok: "faithful_scalars v \<Longrightarrow> list_all (field_ok v) api_key_fields"
  unfolding api_key_fields_def
  by (simp add: stable_rules faithful_scalarsD normalize_scopes_def nonempty_scopes_def as_list_def jstrs_def)

lemma distinct_fields [simp]:
  "distinct (map fst runtime_fields)" "distinct (map fst model_fields)" "distinct (map fst callback_fields)" "distinct (map fst api_key_fields)"
  by (simp_all add: runtime_fields_def model_fields_def callback_fields_def api_key_fields_def)

lemma stable_configs:
  assumes "faithful_scalars v"
  shows "stable v runtime_config" "stable v model_config" "stable v platform_callback_config" "stable v api_key_config"
proof -
  show "stable v model_config" unfolding model_config_def
    by (rule stable_Checked) (use assms in \<open>auto simp: stable_Model model_fields_ok valid_backoff_range_def split: json.splits if_splits\<close>)
qed (use assms in \<open>simp_all add: runtime_config_def platform_callback_config_def api_key_config_def stable_Model runtime_fields_ok callback_fields_ok api_key_fields_ok\<close>)

lemma defaults_accepted:
  assumes "faithful_scalars v"
  shows "validate v runtime_config (defaults_of runtime_fields) = Some (defaults_of runtime_fields)"
    "validate v model_config (defaults_of model_fields) = Some (defaults_of model_fields)"
    "validate v platform_callback_config (defaults_of callback_fields) = Some (defaults_of callback_fields)"
proof -
  show "validate v runtime_config (defaults_of runtime_fields) = Some (defaults_of runtime_fields)" unfolding runtime_config_def
    by (rule defaults_valid) (use runtime_fields_ok [OF assms] in \<open>simp_all add: runtime_fields_def\<close>)
  show "validate v platform_callback_config (defaults_of callback_fields) = Some (defaults_of callback_fields)" unfolding platform_callback_config_def
    by (rule defaults_valid) (use callback_fields_ok [OF assms] in \<open>simp_all add: callback_fields_def\<close>)
  have "validate v (Model_of model_fields Forbid) (defaults_of model_fields) = Some (defaults_of model_fields)"
    by (rule defaults_valid) (use model_fields_ok [OF assms] in \<open>simp_all add: model_fields_def\<close>)
  moreover have "valid_backoff_range (defaults_of model_fields) = Some (defaults_of model_fields)"
    by (simp add: valid_backoff_range_def field_def dict_get_or_def defaults_of_def model_fields_def)
  ultimately show "validate v model_config (defaults_of model_fields) = Some (defaults_of model_fields)"
    by (simp add: model_config_def)
qed

section \<open>The tables stay well-formed\<close>

definition table_ok :: "scalars \<Rightarrow> field_type \<Rightarrow> named_table \<Rightarrow> bool" where
  "table_ok v t tbl = (distinct (map fst tbl) \<and> (\<forall>(n, row) \<in> set tbl. row_name row = n \<and> validate v t row = Some row))"

definition platform_ok :: "scalars \<Rightarrow> platform_db \<Rightarrow> bool" where
  "platform_ok v db =
     (table_ok v runtime_config (pd_runtime db) \<and> table_ok v model_config (pd_model db) \<and> table_ok v platform_callback_config (pd_callback db)
      \<and> table_ok v api_key_config (pd_keys db) \<and> distinct (map (\<lambda>kr. field ''api_key'' (snd kr)) (pd_keys db)))"

lemma named_get_ok: "table_ok v t tbl \<Longrightarrow> named_get v t n tbl = Inr (map_of tbl n)"
  by (auto simp: named_get_def table_ok_def validated_def split: option.splits dest!: map_of_SomeD)

lemma named_save_ok:
  assumes "table_ok v t tbl" and "validate v t c = Some c"
  shows "table_ok v t (named_save c tbl)"
proof -
  have "kr \<in> set (named_save c tbl) \<Longrightarrow> kr = (row_name c, c) \<or> kr \<in> set tbl" for kr
    unfolding named_save_def by (induction tbl) (auto split: if_splits)
  moreover have "distinct (map fst (named_save c tbl))" using assms(1) by (simp add: table_ok_def named_save_def distinct_update)
  ultimately show ?thesis using assms unfolding table_ok_def by (simp add: case_prod_beta) (metis fst_conv snd_conv)
qed

lemma named_delete_ok: "table_ok v t tbl \<Longrightarrow> table_ok v t (named_delete n tbl)"
  unfolding table_ok_def named_delete_def by (auto simp: AList.delete_eq distinct_map_filter)

lemma validated_Inr: "validated m r = Inr x \<longleftrightarrow> r = Some x"
  by (cases r) (simp_all add: validated_def)

lemma validate_rows_ok: "(\<forall>row \<in> set rows. validate v t row = Some row) \<Longrightarrow> validate_rows v t rows = Inr rows"
  by (induction rows) (simp_all add: validated_def)

lemma named_list_ok: "table_ok v t tbl \<Longrightarrow> named_list v t tbl = Inr (map snd (sort_key (\<lambda>kr. map byte (fst kr)) tbl))"
  unfolding named_list_def table_ok_def by (rule validate_rows_ok) auto

lemma current_ok:
  assumes "table_ok v t tbl" and "validate v t (defaults_of fs) = Some (defaults_of fs)"
  obtains c where "current_or_default v t fs tbl = Inr c" and "validate v t c = Some c"
    and "c = (case map_of tbl ''default'' of None \<Rightarrow> defaults_of fs | Some c \<Rightarrow> c)"
proof (rule that)
  let ?c = "case map_of tbl ''default'' of None \<Rightarrow> defaults_of fs | Some c \<Rightarrow> c"
  show "current_or_default v t fs tbl = Inr ?c" using assms(1) by (simp add: current_or_default_def named_get_ok)
  show "validate v t ?c = Some ?c" using assms by (auto simp: table_ok_def split: option.splits dest!: map_of_SomeD)
qed simp

lemma update_runtime_valid:
  assumes "faithful_scalars v" and "update_runtime v current ns config = Inr c"
  shows "validate v runtime_config c = Some c"
  using assms(2) stableD [OF stable_configs(1) [OF assms(1)]] by (auto simp: update_runtime_def validated_Inr split: sum.splits)

lemma model_from_section_valid: "faithful_scalars v \<Longrightarrow> model_from_section v current config = Inr c \<Longrightarrow> validate v model_config c = Some c"
  using stableD [OF stable_configs(2)] by (auto simp: model_from_section_def validated_Inr)

lemma callback_from_section_valid: "faithful_scalars v \<Longrightarrow> callback_from_section v current config = Inr c \<Longrightarrow> validate v platform_callback_config c = Some c"
  using stableD [OF stable_configs(3)] by (auto simp: callback_from_section_def validated_Inr)

lemma parse_keys_valid:
  assumes "faithful_scalars v" and "parse_keys v str index names keys raws = Inr configs"
  shows "\<forall>c \<in> set configs. validate v api_key_config c = Some c"
  using assms(2)
proof (induction raws arbitrary: index names keys configs)
  case (Cons raw raws)
  obtain nm where nm: "unique_name names (dict_get_or ''name'' JNull (key_item_fields index raw)) = Inr nm"
    using Cons.prems by (auto simp: Let_def split: sum.splits)
  obtain parsed where p: "validate v api_key_config (JObj (AList.update ''name'' nm (key_item_fields index raw))) = Some parsed"
    using Cons.prems nm by (auto simp: Let_def validated_Inr split: sum.splits)
  obtain rest where r: "parse_keys v str (Suc index) (str_with str nm # names) (field ''api_key'' parsed # keys) raws = Inr rest"
    "configs = parsed # rest"
    using Cons.prems nm p by (auto simp: Let_def validated_def map_sum_def split: sum.splits if_splits)
  show ?case using Cons.IH [OF r(1)] stableD [OF stable_configs(4) [OF assms(1)] p] r(2) by simp
qed simp

lemma replace_keys_ok:
  assumes "replace_keys configs db = Inr db'" and "platform_ok v db" and "\<forall>c \<in> set configs. validate v api_key_config c = Some c"
  shows "platform_ok v db'"
  using assms by (auto simp: replace_keys_def platform_ok_def table_ok_def comp_def split: if_splits)

lemma delete_section_ok:
  assumes "faithful_scalars v" and "platform_ok v db" and "delete_section v ns db = Inr db'"
  shows "platform_ok v db'"
proof (cases "ns \<in> set RUNTIME_NAMESPACES")
  case True
  obtain c where c: "current_or_default v runtime_config runtime_fields (pd_runtime db) = Inr c"
    using assms(2) by (auto simp: platform_ok_def intro: current_ok defaults_accepted(1) [OF assms(1)])
  obtain c' where c': "update_runtime v c ns (runtime_section (defaults_of runtime_fields) ns) = Inr c'"
    and db': "db' = db\<lparr>pd_runtime := named_save c' (pd_runtime db)\<rparr>"
    using assms(3) True c by (auto simp: delete_section_def map_sum_def split: sum.splits)
  show ?thesis using assms(2) update_runtime_valid [OF assms(1) c'] by (simp add: db' platform_ok_def named_save_ok)
next
  case False
  then show ?thesis
    using assms replace_keys_ok [of "[]" db db' v] by (auto simp: delete_section_def platform_ok_def named_delete_ok split: if_splits)
qed

lemma save_section_ok:
  assumes "faithful_scalars v" and "platform_ok v db" and "save_section v str ns config db = Inr db'"
  shows "platform_ok v db'"
proof -
  note accepted = defaults_accepted [OF assms(1)]
  obtain r m c where cur: "current_or_default v runtime_config runtime_fields (pd_runtime db) = Inr r"
    "current_or_default v model_config model_fields (pd_model db) = Inr m"
    "current_or_default v platform_callback_config callback_fields (pd_callback db) = Inr c"
    using assms(2) accepted unfolding platform_ok_def by (metis current_ok)
  consider (runtime) r' where "update_runtime v r ns config = Inr r'" "db' = db\<lparr>pd_runtime := named_save r' (pd_runtime db)\<rparr>"
    | (model) m' where "model_from_section v m config = Inr m'" "db' = db\<lparr>pd_model := named_save m' (pd_model db)\<rparr>"
    | (callback) c' where "callback_from_section v c config = Inr c'" "db' = db\<lparr>pd_callback := named_save c' (pd_callback db)\<rparr>"
    | (auth) keys where "api_keys_from_section v str config = Inr keys" "replace_keys keys db = Inr db'"
    using assms(3) cur by (auto simp: save_section_def map_sum_def split: if_splits sum.splits)
  then show ?thesis
  proof cases
    case runtime
    then show ?thesis using assms(2) update_runtime_valid [OF assms(1) runtime(1)] by (simp add: platform_ok_def named_save_ok)
  next
    case model
    then show ?thesis using assms(2) model_from_section_valid [OF assms(1) model(1)] by (simp add: platform_ok_def named_save_ok)
  next
    case callback
    then show ?thesis using assms(2) callback_from_section_valid [OF assms(1) callback(1)] by (simp add: platform_ok_def named_save_ok)
  next
    case auth
    then show ?thesis using replace_keys_ok [OF auth(2) assms(2)] parse_keys_valid [OF assms(1)] by (auto simp: api_keys_from_section_def)
  qed
qed

lemma committed_ok: "platform_ok v db \<Longrightarrow> (\<And>db'. r = Inr db' \<Longrightarrow> platform_ok v db') \<Longrightarrow> platform_ok v (fst (committed x db r))"
  by (cases r) (simp_all add: committed_def)

lemma platform_save_ok: "faithful_scalars v \<Longrightarrow> platform_ok v db \<Longrightarrow> platform_ok v (fst (platform_save v str pc db))"
  unfolding platform_save_def
  by (auto split: sum.splits intro!: committed_ok dest: delete_section_ok save_section_ok)

lemma platform_delete_ok: "faithful_scalars v \<Longrightarrow> platform_ok v db \<Longrightarrow> platform_ok v (fst (platform_delete v ns db))"
  unfolding platform_delete_def by (auto intro!: committed_ok dest: delete_section_ok)

lemma update_runtimes_valid:
  assumes "faithful_scalars v" and "update_runtimes v vals nss c = Inr c'" and "validate v runtime_config c = Some c"
  shows "validate v runtime_config c' = Some c'"
  using assms(2,3)
  by (induction nss arbitrary: c) (auto split: sum.splits dest: update_runtime_valid [OF assms(1)])

lemma records_from_sections_valid:
  assumes "faithful_scalars v" and "records_from_sections v str configs = Inr (runtime, model, callback, keys)"
  shows "validate v runtime_config runtime = Some runtime" and "validate v model_config model = Some model"
    and "validate v platform_callback_config callback = Some callback" and "\<forall>c \<in> set keys. validate v api_key_config c = Some c"
proof -
  define vals where "vals = section_values configs"
  have r: "update_runtimes v vals RUNTIME_NAMESPACES (defaults_of runtime_fields) = Inr runtime"
    "model_from_section v (defaults_of model_fields) (value_of ''model'' vals) = Inr model"
    "callback_from_section v (defaults_of callback_fields) (value_of ''callback'' vals) = Inr callback"
    "api_keys_from_section v str (value_of ''auth'' vals) = Inr keys"
    using assms(2) by (auto simp: records_from_sections_def Let_def vals_def [symmetric] split: sum.splits)
  show "validate v runtime_config runtime = Some runtime"
    using update_runtimes_valid [OF assms(1) r(1) defaults_accepted(1) [OF assms(1)]] .
  show "validate v model_config model = Some model" using model_from_section_valid [OF assms(1) r(2)] .
  show "validate v platform_callback_config callback = Some callback" using callback_from_section_valid [OF assms(1) r(3)] .
  show "\<forall>c \<in> set keys. validate v api_key_config c = Some c"
    using parse_keys_valid [OF assms(1)] r(4) unfolding api_keys_from_section_def by blast
qed

lemma platform_initialize_ok:
  assumes "faithful_scalars v" and "platform_ok v db"
  shows "platform_ok v (fst (platform_initialize v str configs db))"
proof (cases "records_from_sections v str configs")
  case (Inr records)
  obtain runtime model callback keys where rec: "records = (runtime, model, callback, keys)" by (cases records)
  note valid = records_from_sections_valid [OF assms(1), of str configs runtime model callback keys]
  let ?db = "db\<lparr>pd_runtime := named_save runtime (pd_runtime db), pd_model := named_save model (pd_model db),
    pd_callback := named_save callback (pd_callback db)\<rparr>"
  have "platform_ok v ?db" using assms(2) valid(1-3) Inr rec by (simp add: platform_ok_def named_save_ok)
  moreover have "\<forall>c \<in> set keys. validate v api_key_config c = Some c" using valid(4) Inr rec by simp
  ultimately have "replace_keys keys ?db = Inr db' \<Longrightarrow> platform_ok v db'" for db' using replace_keys_ok by blast
  then show ?thesis using assms(2) Inr rec by (auto simp: platform_initialize_def intro!: committed_ok)
qed (simp add: platform_initialize_def assms(2))

section \<open>Runtime settings field by field\<close>

definition namespace_fields :: "string \<Rightarrow> string list" where
  "namespace_fields ns = (case map_of section_fields ns of None \<Rightarrow> []
     | Some ks \<Rightarrow> map snd ks @ (if ns = ''rate_limit'' then map snd default_limit_fields else []))"

text \<open>Every field but the name belongs to exactly one namespace.\<close>

lemma fields_partitioned:
  "\<forall>f \<in> set (tl (map fst runtime_fields)). \<exists>ns \<in> set RUNTIME_NAMESPACES. f \<in> set (namespace_fields ns)"
  "\<forall>ns \<in> set RUNTIME_NAMESPACES. \<forall>ns' \<in> set RUNTIME_NAMESPACES. ns \<noteq> ns' \<longrightarrow> list_all (\<lambda>f. f \<notin> set (namespace_fields ns')) (namespace_fields ns)"
  "\<forall>ns \<in> set RUNTIME_NAMESPACES. list_all (\<lambda>f. f \<in> set (tl (map fst runtime_fields))) (namespace_fields ns)"
  "map fst runtime_fields = ''name'' # tl (map fst runtime_fields)"
  "\<forall>ns \<in> set RUNTIME_NAMESPACES. map_of section_fields ns \<noteq> None \<and> ns \<notin> {''model'', ''callback'', ''auth''}"
  by (simp_all add: runtime_fields_def RUNTIME_NAMESPACES_def namespace_fields_def section_fields_def default_limit_fields_def)

lemma mapped_shown: "distinct (map fst ks) \<Longrightarrow> mapped_fields ks c (shown_fields ks r) = map (\<lambda>(k, f). (f, field f r)) ks"
proof -
  assume "distinct (map fst ks)"
  then have "(k, f) \<in> set ks \<Longrightarrow> map_of (shown_fields ks r) k = Some (field f r)" for k f
    unfolding shown_fields_def by (induction ks) force+
  then show ?thesis by (auto simp: mapped_fields_def dict_get_or_def)
qed

lemma map_of_shown: "map_of (rev (map (\<lambda>(k, f). (f, field f r)) ks)) f = (if f \<in> snd ` set ks then Some (field f r) else None)"
  by (induction ks) (auto simp: map_add_def split: option.splits)

lemma distinct_section_keys: "map_of section_fields ns = Some ks \<Longrightarrow> distinct (map fst ks)"
  by (auto simp: section_fields_def split: if_splits)

lemma mapping_of_section:
  assumes "ns \<in> set RUNTIME_NAMESPACES"
  obtains m where "runtime_mapping c ns (runtime_section r ns) = Inr m"
    and "\<And>f. map_of (rev m) f = (if f \<in> set (namespace_fields ns) then Some (field f r) else None)"
proof -
  obtain ks where ks: "map_of section_fields ns = Some ks" using fields_partitioned(5) assms by auto
  show ?thesis
  proof (cases "ns = ''rate_limit''")
    case False
    have "runtime_mapping c ns (runtime_section r ns) = Inr (map (\<lambda>(k, f). (f, field f r)) ks)"
      using False ks mapped_shown [OF distinct_section_keys [OF ks]] by (simp add: runtime_mapping_def runtime_section_def)
    then show ?thesis by (rule that) (simp add: False ks map_of_shown namespace_fields_def)
  next
    case True
    let ?ks = "[(''enabled'', ''rate_limit_enabled''), (''callers'', ''rate_limit_caller_limits'')] @ default_limit_fields"
    have "runtime_mapping c ns (runtime_section r ns) = Inr (map (\<lambda>(k, f). (f, field f r)) ?ks)"
      by (simp add: True runtime_mapping_def runtime_section_def section_fields_def mapped_fields_def sub_dict_def shown_fields_def
        default_limit_fields_def dict_get_or_def)
    then show ?thesis
      by (rule that) (simp only: map_of_shown, simp add: True namespace_fields_def section_fields_def default_limit_fields_def)
  qed
qed

lemma runtime_lookup:
  assumes "validate v runtime_config c = Some c"
  obtains d where "c = JObj d" and "fst ` set d = set (map fst runtime_fields)"
    and "\<And>f. f \<in> set (map fst runtime_fields) \<Longrightarrow> map_of d f = Some (field f c)"
proof -
  obtain d where "c = JObj d" "map fst d = map fst runtime_fields" "\<And>f. f \<in> set (map fst runtime_fields) \<Longrightarrow> map_of d f = Some (field f c)"
    using model_lookup [OF assms [unfolded runtime_config_def] distinct_fields(1)] by metis
  then show ?thesis using that by (metis list.set_map)
qed

lemma runtime_value:
  "validate v runtime_config c = Some c \<Longrightarrow> (f, t, dflt) \<in> set runtime_fields \<Longrightarrow> validate v t (field f c) = Some (field f c)"
  unfolding runtime_config_def by (rule model_value) simp_all

text \<open>A field that is not mapped keeps its value, a mapped one holds the validated value.\<close>

lemma update_runtime_field:
  assumes "validate v runtime_config c = Some c" and "update_runtime v c ns config = Inr c'"
    and "runtime_mapping c ns config = Inr m" and "(f, t, dflt) \<in> set runtime_fields"
  shows "case map_of (rev m) f of None \<Rightarrow> field f c' = field f c | Some y \<Rightarrow> validate v t y = Some (field f c')"
proof -
  obtain d where d: "c = JObj d" "f \<in> set (map fst runtime_fields) \<Longrightarrow> map_of d f = Some (field f c)"
    using runtime_lookup [OF assms(1)] by metis
  have "f \<in> set (map fst runtime_fields)" using assms(4) by force
  moreover have "validate v (Model_of runtime_fields Forbid) (JObj (dict_update d m)) = Some c'"
    using assms(2,3) d by (simp add: update_runtime_def validated_Inr runtime_config_def)
  note new = model_field [OF this assms(4)]
  ultimately show ?thesis using new runtime_value [OF assms(1,4)] d(2) by (simp add: map_of_dict_update split: option.splits)
qed

text \<open>Writing a section of other settings succeeds and copies its fields.\<close>

lemma copy_section:
  assumes "validate v runtime_config c = Some c" and "validate v runtime_config r = Some r" and "ns \<in> set RUNTIME_NAMESPACES"
  obtains c' where "update_runtime v c ns (runtime_section r ns) = Inr c'"
    and "\<And>f. f \<in> set (map fst runtime_fields) \<Longrightarrow> field f c' = (if f \<in> set (namespace_fields ns) then field f r else field f c)"
proof -
  obtain m where m: "runtime_mapping c ns (runtime_section r ns) = Inr m"
    "\<And>f. map_of (rev m) f = (if f \<in> set (namespace_fields ns) then Some (field f r) else None)"
    using mapping_of_section [OF assms(3)] by blast
  obtain d where d: "c = JObj d" "fst ` set d = set (map fst runtime_fields)"
    "\<And>f. f \<in> set (map fst runtime_fields) \<Longrightarrow> map_of d f = Some (field f c)"
    using runtime_lookup [OF assms(1)] by metis
  let ?g = "\<lambda>f. if f \<in> set (namespace_fields ns) then field f r else field f c"
  have look: "f \<in> set (map fst runtime_fields) \<Longrightarrow> map_of (dict_update d m) f = Some (?g f)" for f
    using d(3) by (simp add: map_of_dict_update m(2))
  have "f \<in> fst ` set m \<longleftrightarrow> f \<in> set (namespace_fields ns)" for f
    using m(2) [of f] by (metis map_of_eq_None_iff option.distinct(1) set_rev)
  moreover have "set (namespace_fields ns) \<subseteq> set (map fst runtime_fields)"
    using fields_partitioned(3) assms(3) by (subst fields_partitioned(4)) (auto simp: list_all_iff)
  ultimately have keys: "fst ` set (dict_update d m) \<subseteq> set (map fst runtime_fields)"
    unfolding dict_update_keys d(2) by blast
  have "validate v (Model_of runtime_fields Forbid) (JObj (dict_update d m))
      = Some (JObj (map (\<lambda>f. (fst f, the (map_of (dict_update d m) (fst f)))) runtime_fields))"
  proof (rule model_accepts [OF _ keys])
    fix k t dflt
    assume k: "(k, t, dflt) \<in> set runtime_fields"
    then have "validate v t (?g k) = Some (?g k)" using runtime_value [OF assms(1) k] runtime_value [OF assms(2) k] by simp
    then show "\<exists>y. map_of (dict_update d m) k = Some y \<and> validate v t y = Some y" using look k by force
  qed
  also have "map (\<lambda>f. (fst f, the (map_of (dict_update d m) (fst f)))) runtime_fields = map (\<lambda>f. (fst f, ?g (fst f))) runtime_fields"
    using look by auto
  finally have "update_runtime v c ns (runtime_section r ns) = Inr (JObj (map (\<lambda>f. (fst f, ?g (fst f))) runtime_fields))"
    using m(1) d(1) by (simp add: update_runtime_def validated_def runtime_config_def)
  then show ?thesis by (rule that) (rule field_of_instance)
qed

section \<open>Properties\<close>

text \<open>The runtime settings in force: those of the stored row, or the defaults.\<close>

definition runtime_in_force :: "platform_db \<Rightarrow> json" where
  "runtime_in_force db = (case map_of (pd_runtime db) ''default'' of None \<Rightarrow> defaults_of runtime_fields | Some c \<Rightarrow> c)"

lemma runtime_in_force_ok:
  assumes "faithful_scalars v" and "platform_ok v db"
  shows "current_or_default v runtime_config runtime_fields (pd_runtime db) = Inr (runtime_in_force db)"
    and "validate v runtime_config (runtime_in_force db) = Some (runtime_in_force db)"
proof -
  have t: "table_ok v runtime_config (pd_runtime db)" using assms(2) by (simp add: platform_ok_def)
  show "current_or_default v runtime_config runtime_fields (pd_runtime db) = Inr (runtime_in_force db)"
    by (rule current_ok [OF t defaults_accepted(1) [OF assms(1)]]) (simp add: runtime_in_force_def)
  show "validate v runtime_config (runtime_in_force db) = Some (runtime_in_force db)"
    by (rule current_ok [OF t defaults_accepted(1) [OF assms(1)]]) (simp add: runtime_in_force_def)
qed

lemma row_name_kept:
  assumes "faithful_scalars v" and "validate v runtime_config c = Some c" and "update_runtime v c ns config = Inr c'"
    and "ns \<in> set RUNTIME_NAMESPACES" and "runtime_mapping c ns config = Inr m" and "map_of (rev m) ''name'' = None"
  shows "row_name c' = row_name c"
proof -
  have "(''name'', Str_of (text_within 100), Some (JStr ''default'')) \<in> set runtime_fields" by (simp add: runtime_fields_def)
  from update_runtime_field [OF assms(2,3,5) this] assms(6) show ?thesis by (simp add: row_name_def)
qed

lemma row_name_default:
  assumes "platform_ok v db"
  shows "row_name (runtime_in_force db) = ''default''"
proof (cases "map_of (pd_runtime db) ''default''")
  case None
  then show ?thesis
    by (simp add: runtime_in_force_def row_name_def field_def defaults_of_def runtime_fields_def dict_get_or_def)
next
  case (Some c)
  then show ?thesis using assms by (auto simp: runtime_in_force_def platform_ok_def table_ok_def dest!: map_of_SomeD)
qed

lemma mapping_keys:
  assumes "runtime_mapping c ns config = Inr m"
  shows "map fst m = namespace_fields ns"
  using assms
  by (auto simp: runtime_mapping_def namespace_fields_def mapped_fields_def comp_def case_prod_beta split: option.splits if_splits sum.splits)

lemma mapping_keeps_others:
  assumes "runtime_mapping c ns config = Inr m" and "f \<notin> set (namespace_fields ns)"
  shows "map_of (rev m) f = None"
proof -
  have "f \<notin> fst ` set (rev m)" using mapping_keys [OF assms(1)] assms(2) by (metis list.set_map set_rev)
  then show ?thesis by (simp add: map_of_eq_None_iff)
qed

lemma name_not_mapped: "ns \<in> set RUNTIME_NAMESPACES \<Longrightarrow> ''name'' \<notin> set (namespace_fields ns)"
  by (auto simp: RUNTIME_NAMESPACES_def namespace_fields_def section_fields_def default_limit_fields_def)

lemma section_cong: "(\<And>f. f \<in> set (namespace_fields ns) \<Longrightarrow> field f c' = field f c) \<Longrightarrow> runtime_section c' ns = runtime_section c ns"
proof (cases "ns = ''rate_limit''")
  case True
  assume "\<And>f. f \<in> set (namespace_fields ns) \<Longrightarrow> field f c' = field f c"
  then show ?thesis by (simp add: True runtime_section_def namespace_fields_def section_fields_def default_limit_fields_def shown_fields_def)
next
  case False
  assume "\<And>f. f \<in> set (namespace_fields ns) \<Longrightarrow> field f c' = field f c"
  then show ?thesis using False by (fastforce simp: runtime_section_def namespace_fields_def shown_fields_def split: option.splits)
qed

lemma other_sections_kept:
  assumes "validate v runtime_config c = Some c" and "update_runtime v c ns config = Inr c'" and "ns \<in> set RUNTIME_NAMESPACES"
    and "ns' \<in> set RUNTIME_NAMESPACES" and "ns' \<noteq> ns"
  shows "runtime_section c' ns' = runtime_section c ns'"
proof (rule section_cong)
  fix f
  assume f: "f \<in> set (namespace_fields ns')"
  obtain m where m: "runtime_mapping c ns config = Inr m" using assms(2) by (auto simp: update_runtime_def split: sum.splits)
  have "f \<notin> set (namespace_fields ns)" using fields_partitioned(2) assms(3-5) f by (auto simp: list_all_iff)
  note kept = mapping_keeps_others [OF m this]
  have "f \<in> set (map fst runtime_fields)" using fields_partitioned(3) assms(4) f by (subst fields_partitioned(4)) (auto simp: list_all_iff)
  then obtain t dflt where "(f, t, dflt) \<in> set runtime_fields" by force
  from update_runtime_field [OF assms(1,2) m this] kept show "field f c' = field f c" by simp
qed

lemma stored_runtime:
  assumes "faithful_scalars v" and "platform_ok v db" and "update_runtime v (runtime_in_force db) ns config = Inr c'"
    and "ns \<in> set RUNTIME_NAMESPACES"
  shows "runtime_in_force (db\<lparr>pd_runtime := named_save c' (pd_runtime db)\<rparr>) = c'"
proof -
  obtain m where m: "runtime_mapping (runtime_in_force db) ns config = Inr m"
    using assms(3) by (auto simp: update_runtime_def split: sum.splits)
  have "row_name c' = ''default''"
    using row_name_kept [OF assms(1) runtime_in_force_ok(2) [OF assms(1,2)] assms(3,4) m]
      mapping_keeps_others [OF m name_not_mapped [OF assms(4)]] row_name_default [OF assms(2)] by simp
  then show ?thesis by (simp add: runtime_in_force_def named_save_def update_conv')
qed

text \<open>
  A saved section is shown: what it gives is validated and stored, what it leaves out keeps its value, and the other
  sections, the other tables and the API keys are untouched.
\<close>

theorem saved_section_is_shown:
  assumes "faithful_scalars v" and "platform_ok v db" and "pc_namespace pc \<in> set RUNTIME_NAMESPACES" and "pc_enabled pc"
    and "platform_save v str pc db = (db', Inr r)"
  shows "(\<forall>ns \<in> set RUNTIME_NAMESPACES - {pc_namespace pc}. runtime_section (runtime_in_force db') ns = runtime_section (runtime_in_force db) ns)
     \<and> pd_model db' = pd_model db \<and> pd_callback db' = pd_callback db \<and> pd_keys db' = pd_keys db
     \<and> (\<forall>ks k f. map_of section_fields (pc_namespace pc) = Some ks \<longrightarrow> (k, f) \<in> set ks \<longrightarrow>
          (case map_of (pc_config pc) k of None \<Rightarrow> field f (runtime_in_force db') = field f (runtime_in_force db)
           | Some x \<Rightarrow> \<exists>t dflt. (f, t, dflt) \<in> set runtime_fields \<and> validate v t x = Some (field f (runtime_in_force db'))))"
proof -
  let ?c = "runtime_in_force db" and ?ns = "pc_namespace pc"
  note cur = runtime_in_force_ok [OF assms(1,2)]
  obtain c' where c': "update_runtime v ?c ?ns (pc_config pc) = Inr c'" "db' = db\<lparr>pd_runtime := named_save c' (pd_runtime db)\<rparr>"
    using assms(3-5) cur(1) by (auto simp: platform_save_def save_section_def committed_def map_sum_def split: sum.splits)
  have new: "runtime_in_force db' = c'" unfolding c'(2) by (rule stored_runtime [OF assms(1,2) c'(1) assms(3)])
  obtain m where m: "runtime_mapping ?c ?ns (pc_config pc) = Inr m" using c'(1) by (auto simp: update_runtime_def split: sum.splits)
  have "case map_of (pc_config pc) k of None \<Rightarrow> field f c' = field f ?c
      | Some x \<Rightarrow> \<exists>t dflt. (f, t, dflt) \<in> set runtime_fields \<and> validate v t x = Some (field f c')"
    if ks: "map_of section_fields ?ns = Some ks" "(k, f) \<in> set ks" for ks k f
  proof -
    have mf: "map_of (rev m) f = Some (dict_get_or k (field f ?c) (pc_config pc))"
      using m ks by (auto simp: runtime_mapping_def section_fields_def mapped_fields_def default_limit_fields_def split: if_splits sum.splits)
    have "f \<in> set (map fst runtime_fields)"
      using ks fields_partitioned(3) assms(3) by (subst fields_partitioned(4)) (force simp: list_all_iff namespace_fields_def)
    then obtain t dflt where t: "(f, t, dflt) \<in> set runtime_fields" by force
    show ?thesis
      using update_runtime_field [OF cur(2) c'(1) m t] mf runtime_value [OF cur(2) t] t
      by (cases "map_of (pc_config pc) k") (auto simp: dict_get_or_def)
  qed
  moreover have "pd_model db' = pd_model db" "pd_callback db' = pd_callback db" "pd_keys db' = pd_keys db" using c'(2) by simp_all
  ultimately show ?thesis unfolding new using other_sections_kept [OF cur(2) c'(1) assms(3)] by blast
qed

text \<open>
  Deleting a section of runtime settings never fails. It shows the defaults afterwards; the other sections are untouched.
\<close>

theorem deleted_section_is_default:
  assumes "faithful_scalars v" and "platform_ok v db" and "ns \<in> set RUNTIME_NAMESPACES"
  shows "\<exists>db'. platform_delete v ns db = (db', Inr ())
     \<and> (\<forall>ns' \<in> set RUNTIME_NAMESPACES. runtime_section (runtime_in_force db') ns'
          = runtime_section (if ns' = ns then defaults_of runtime_fields else runtime_in_force db) ns')
     \<and> pd_model db' = pd_model db \<and> pd_callback db' = pd_callback db \<and> pd_keys db' = pd_keys db"
proof -
  let ?c = "runtime_in_force db" and ?d = "defaults_of runtime_fields"
  note cur = runtime_in_force_ok [OF assms(1,2)]
  obtain c' where c': "update_runtime v ?c ns (runtime_section ?d ns) = Inr c'"
    and f: "\<And>f. f \<in> set (map fst runtime_fields) \<Longrightarrow> field f c' = (if f \<in> set (namespace_fields ns) then field f ?d else field f ?c)"
    using copy_section [OF cur(2) defaults_accepted(1) [OF assms(1)] assms(3)] by blast
  let ?db = "db\<lparr>pd_runtime := named_save c' (pd_runtime db)\<rparr>"
  have "ns \<in> fst ` set SECTION_KEYS"
    using assms(3) by (auto simp: RUNTIME_NAMESPACES_def SECTION_KEYS_def section_fields_def)
  then have "platform_delete v ns db = (?db, Inr ())"
    using c' cur(1) assms(3) by (simp add: platform_delete_def delete_section_def committed_def)
  moreover have "runtime_in_force ?db = c'" by (rule stored_runtime [OF assms(1,2) c' assms(3)])
  moreover have "runtime_section c' ns = runtime_section ?d ns"
  proof (rule section_cong)
    fix g
    assume g: "g \<in> set (namespace_fields ns)"
    then have "g \<in> set (map fst runtime_fields)" using fields_partitioned(3) assms(3) by (subst fields_partitioned(4)) (auto simp: list_all_iff)
    then show "field g c' = field g ?d" using f g by simp
  qed
  ultimately show ?thesis using other_sections_kept [OF cur(2) c' assms(3)] by auto
qed

section \<open>Export and import\<close>

lemma fold_sections:
  assumes "distinct (map pc_namespace pcs)"
  shows "map_of (fold (\<lambda>pc. AList.update (pc_namespace pc) (pc_config pc)) pcs d) ns
     = (case map_of (map (\<lambda>pc. (pc_namespace pc, pc_config pc)) pcs) ns of None \<Rightarrow> map_of d ns | Some x \<Rightarrow> Some x)"
  using assms
proof (induction pcs arbitrary: d)
  case (Cons pc pcs)
  have "pc_namespace pc \<notin> fst ` set (map (\<lambda>pc. (pc_namespace pc, pc_config pc)) pcs)" using Cons.prems by (auto simp: image_image)
  then have "map_of (map (\<lambda>pc. (pc_namespace pc, pc_config pc)) pcs) (pc_namespace pc) = None" by (simp add: map_of_eq_None_iff)
  then show ?case using Cons by (auto simp: update_conv' split: option.splits)
qed simp

lemma section_values_map:
  assumes "distinct (map pc_namespace pcs)" and "\<forall>pc \<in> set pcs. pc_enabled pc"
  shows "map_of (section_values pcs) = map_of (map (\<lambda>pc. (pc_namespace pc, pc_config pc)) pcs)"
proof
  fix ns
  have "filter pc_enabled pcs = pcs" using assms(2) by simp
  then show "map_of (section_values pcs) ns = map_of (map (\<lambda>pc. (pc_namespace pc, pc_config pc)) pcs) ns"
    using fold_sections [OF assms(1)] by (simp add: section_values_def split: option.splits)
qed

lemma validate_sections_iff: "validate_sections vals = Inr () \<longleftrightarrow> (\<forall>(ns, config) \<in> set vals. validate_section ns config = Inr ())"
  by (induction vals rule: validate_sections.induct) (auto split: sum.splits)

lemma distinct_sections:
  "distinct (map fst d) \<Longrightarrow> distinct (map fst (fold (\<lambda>pc. AList.update (pc_namespace pc) (pc_config pc)) pcs d))"
  by (induction pcs arbitrary: d) (simp_all add: distinct_update)

text \<open>The sections of a complete configuration, by namespace.\<close>

definition listed :: "json \<Rightarrow> json \<Rightarrow> json \<Rightarrow> json list \<Rightarrow> (string \<times> dict) list" where
  "listed r m c keys = map (\<lambda>ns. (ns, runtime_section r ns)) RUNTIME_NAMESPACES @ [(''model'', without_name m), (''callback'', without_name c)]
     @ (if keys = [] then [] else [(''auth'', [(''api_keys'', JList (map api_key_to_setting keys))])])"

lemma listed_distinct: "distinct (map fst (listed r m c keys))"
  by (simp add: listed_def RUNTIME_NAMESPACES_def)

lemma sections_of_listed:
  fixes r m c keys
  defines "pcs \<equiv> sections_of (Some r) (Some m) (Some c) keys"
  shows "map_of (section_values pcs) = map_of (listed r m c keys)" and "set (section_values pcs) \<subseteq> set (listed r m c keys)"
proof -
  define l where "l = runtime_sections r @ named_section ''model'' (Some m) @ named_section ''callback'' (Some c)
    @ (if keys = [] then [] else [platform_section ''auth'' [(''api_keys'', JList (map api_key_to_setting keys))]])"
  let ?f = "\<lambda>pc. (pc_namespace pc, pc_config pc)"
  have pcs: "pcs = sort_key (\<lambda>pc. map byte (pc_namespace pc)) l" by (simp add: pcs_def sections_of_def l_def)
  have l: "map ?f l = listed r m c keys"
    by (simp add: listed_def runtime_sections_def named_section_def platform_section_def l_def)
  have "map pc_namespace l = map fst (listed r m c keys)" by (simp flip: l add: comp_def)
  then have "distinct (map pc_namespace l)" using listed_distinct by metis
  moreover have "mset (map pc_namespace pcs) = mset (map pc_namespace l)" by (simp only: pcs mset_map mset_sort)
  ultimately have d: "distinct (map pc_namespace pcs)" by (metis mset_eq_imp_distinct_iff)
  have en: "\<forall>pc \<in> set pcs. pc_enabled pc"
    by (auto simp: pcs l_def runtime_sections_def named_section_def platform_section_def)
  note vals = section_values_map [OF d en]
  have "mset (map ?f pcs) = mset (map ?f l)" by (simp only: pcs mset_map mset_sort)
  then have same: "set (map ?f pcs) = set (listed r m c keys)" unfolding l by (metis set_mset_mset)
  have "distinct (map fst (map ?f pcs))" using d by (simp add: comp_def)
  then show eq: "map_of (section_values pcs) = map_of (listed r m c keys)"
    unfolding vals using same listed_distinct by (metis map_of_inject_set)
  show "set (section_values pcs) \<subseteq> set (listed r m c keys)"
  proof
    fix x
    assume "x \<in> set (section_values pcs)"
    moreover have "distinct (map fst (section_values pcs))"
      unfolding section_values_def by (rule distinct_sections) simp
    ultimately have "map_of (section_values pcs) (fst x) = Some (snd x)" by simp
    then show "x \<in> set (listed r m c keys)" unfolding eq by (metis map_of_SomeD prod.collapse)
  qed
qed

lemma copy_sections:
  assumes "validate v runtime_config c = Some c" and "validate v runtime_config r = Some r"
    and "set nss \<subseteq> set RUNTIME_NAMESPACES" and "\<forall>ns \<in> set nss. value_of ns vals = runtime_section r ns" and "faithful_scalars v"
  shows "\<exists>c'. update_runtimes v vals nss c = Inr c' \<and> validate v runtime_config c' = Some c'
     \<and> (\<forall>f \<in> set (map fst runtime_fields). field f c' = (if \<exists>ns \<in> set nss. f \<in> set (namespace_fields ns) then field f r else field f c))"
  using assms(1,3,4)
proof (induction nss arbitrary: c)
  case (Cons ns nss)
  obtain c1 where c1: "update_runtime v c ns (runtime_section r ns) = Inr c1"
    and f1: "\<And>f. f \<in> set (map fst runtime_fields) \<Longrightarrow> field f c1 = (if f \<in> set (namespace_fields ns) then field f r else field f c)"
    using copy_section [OF Cons.prems(1) assms(2), of ns] Cons.prems(2) by auto
  have "validate v runtime_config c1 = Some c1" by (rule update_runtime_valid [OF assms(5) c1])
  from Cons.IH [OF this] Cons.prems(2,3) obtain c' where c': "update_runtimes v vals nss c1 = Inr c'" "validate v runtime_config c' = Some c'"
    "\<forall>f \<in> set (map fst runtime_fields). field f c' = (if \<exists>ns \<in> set nss. f \<in> set (namespace_fields ns) then field f r else field f c1)"
    by auto
  then show ?case using c1 f1 Cons.prems(3) by auto
qed simp

lemma runtime_rebuilt:
  assumes "faithful_scalars v" and "validate v runtime_config r = Some r" and "row_name r = ''default''"
    and "\<forall>ns \<in> set RUNTIME_NAMESPACES. value_of ns vals = runtime_section r ns"
  shows "update_runtimes v vals RUNTIME_NAMESPACES (defaults_of runtime_fields) = Inr r"
proof -
  let ?d = "defaults_of runtime_fields"
  obtain c where c: "update_runtimes v vals RUNTIME_NAMESPACES ?d = Inr c" "validate v runtime_config c = Some c"
    and f: "\<forall>f \<in> set (map fst runtime_fields). field f c = (if \<exists>ns \<in> set RUNTIME_NAMESPACES. f \<in> set (namespace_fields ns) then field f r else field f ?d)"
    using copy_sections [OF defaults_accepted(1) [OF assms(1)] assms(2) _ assms(4,1)] by auto
  have nm: "(''name'', Str_of (text_within 100), Some (JStr ''default'')) \<in> set runtime_fields" by (simp add: runtime_fields_def)
  have "validate v (Str_of (text_within 100)) (field ''name'' r) = Some (field ''name'' r)" by (rule runtime_value [OF assms(2) nm])
  then have "field ''name'' r = JStr ''default''" using assms(3) by (elim text_value) (simp add: row_name_def)
  moreover have "field ''name'' ?d = JStr ''default''" by (simp add: field_def defaults_of_def runtime_fields_def dict_get_or_def)
  ultimately have same: "field ''name'' r = field ''name'' ?d" by simp
  have "field k c = field k r" if k: "k \<in> set (map fst runtime_fields)" for k
  proof -
    have "k = ''name'' \<or> k \<in> set (tl (map fst runtime_fields))" using k by (subst (asm) fields_partitioned(4)) simp
    then show ?thesis
    proof
      assume "k = ''name''"
      then show ?thesis using bspec [OF f k] same by simp
    next
      assume "k \<in> set (tl (map fst runtime_fields))"
      then show ?thesis using bspec [OF f k] fields_partitioned(1) by simp
    qed
  qed
  then have "c = r" using model_eqI [OF c(2) [unfolded runtime_config_def] assms(2) [unfolded runtime_config_def]] by simp
  with c show ?thesis by simp
qed

text \<open>The sections of the model and of callbacks show every field but the name.\<close>

lemma named_rebuilt:
  assumes "validate v (Model_of fs Forbid) c = Some c" and "distinct (map fst fs)" and "field ''name'' c = field ''name'' (defaults_of fs)"
  shows "validate v (Model_of fs Forbid) (JObj (dict_update (case defaults_of fs of JObj d \<Rightarrow> d | _ \<Rightarrow> []) (without_name c))) = Some c"
proof (rule model_rebuilt [OF assms(1,2)])
  let ?d = "map (\<lambda>(k, t, dflt). (k, case dflt of None \<Rightarrow> JNull | Some x \<Rightarrow> x)) fs"
  obtain d where d: "c = JObj d" "map fst d = map fst fs" "\<And>f. f \<in> set (map fst fs) \<Longrightarrow> map_of d f = Some (field f c)"
    using model_lookup [OF assms(1,2)] by metis
  have b: "(case defaults_of fs of JObj d \<Rightarrow> d | _ \<Rightarrow> []) = ?d" by (simp add: defaults_of_def)
  have keys: "map fst ?d = map fst fs" by (simp add: comp_def case_prod_beta)
  have wn: "without_name c = filter (\<lambda>kv. fst kv \<noteq> ''name'') d" by (simp add: d(1) without_name_def)
  have "distinct (map fst (filter (\<lambda>kv. fst kv \<noteq> ''name'') d))" using d(2) assms(2) by (simp add: distinct_map_filter)
  then have rev: "map_of (rev (without_name c)) = map_of (without_name c)" unfolding wn by (rule map_of_rev_distinct)
  note look = map_of_filter_other [of "''name''" d, folded wn]
  fix f
  assume f: "f \<in> set (map fst fs)"
  have "f \<in> fst ` set ?d" using f unfolding keys [symmetric] by (simp only: set_map)
  then have "map_of ?d f \<noteq> None" by (simp only: map_of_eq_None_iff not_not)
  then have "f = ''name'' \<Longrightarrow> map_of ?d f = Some (field f c)"
    using assms(3) by (auto simp: field_def defaults_of_def dict_get_or_def)
  then show "map_of (dict_update (case defaults_of fs of JObj d \<Rightarrow> d | _ \<Rightarrow> []) (without_name c)) f = Some (field f c)"
    unfolding b map_of_dict_update rev look using d(3) [OF f] by auto
next
  obtain d where d: "c = JObj d" "map fst d = map fst fs" using model_lookup [OF assms(1,2)] by metis
  have "fst ` set (without_name c) \<subseteq> set (map fst fs)" unfolding d(2) [symmetric] by (auto simp: d(1) without_name_def)
  moreover have "fst ` set (case defaults_of fs of JObj d \<Rightarrow> d | _ \<Rightarrow> []) = set (map fst fs)"
    by (simp add: defaults_of_def image_image case_prod_beta)
  ultimately show "fst ` set (dict_update (case defaults_of fs of JObj d \<Rightarrow> d | _ \<Rightarrow> []) (without_name c)) \<subseteq> set (map fst fs)"
    by (simp add: dict_update_keys)
qed

lemma key_exported:
  assumes "validate v api_key_config k = Some k"
  obtains s a where "field ''name'' k = JStr s" and "s \<noteq> []" and "field ''api_key'' k = JStr a" and "a \<noteq> []" and "row_name k = s"
proof -
  note val = model_value [OF assms [unfolded api_key_config_def] distinct_fields(4)]
  have "validate v (Str_of (text_within 200)) (field ''name'' k) = Some (field ''name'' k)"
    "validate v (Str_of (\<lambda>s. s \<noteq> [])) (field ''api_key'' k) = Some (field ''api_key'' k)"
    by (rule val, simp add: api_key_fields_def)+
  then obtain s a where "field ''name'' k = JStr s" "text_within 200 s" "field ''api_key'' k = JStr a" "a \<noteq> []" by (elim text_value)
  then show ?thesis by (intro that [of s a]) (simp_all add: text_within_def row_name_def)
qed

lemma keys_rebuilt:
  assumes "faithful_scalars v" and "\<forall>k \<in> set keys. validate v api_key_config k = Some k \<and> \<not> standard_name (row_name k)"
    and "distinct (map row_name keys)" and "distinct (map (field ''api_key'') keys)"
    and "set names \<inter> row_name ` set keys = {}" and "set seen \<inter> field ''api_key'' ` set keys = {}"
  shows "parse_keys v str index names seen (map api_key_to_setting keys) = Inr keys"
  using assms(2-)
proof (induction keys arbitrary: index names seen)
  case (Cons k keys)
  have valid: "validate v api_key_config k = Some k" using Cons.prems(1) by simp
  obtain s a where k: "field ''name'' k = JStr s" "s \<noteq> []" "field ''api_key'' k = JStr a" "row_name k = s"
    by (rule key_exported [OF valid])
  let ?item = "[(''api_key'', field ''api_key'' k), (''name'', JStr s), (''scopes'', field ''scopes'' k), (''enabled'', field ''enabled'' k)]"
  have item: "key_item_fields index (api_key_to_setting k) = ?item"
    using Cons.prems(1) k by (simp add: api_key_to_setting_def key_item_fields_def dict_get_or_def json_or_def)
  have nm: "unique_name names (JStr s) = Inr (JStr s)"
    using Cons.prems(4) k(4) by (simp add: unique_name_def free_name_def)
  have "validate v api_key_config (JObj ?item) = Some k" unfolding api_key_config_def
    by (rule model_rebuilt [OF valid [unfolded api_key_config_def] distinct_fields(4)]) (use k(1) in \<open>auto simp: api_key_fields_def\<close>)
  moreover have "field ''api_key'' k \<notin> set seen" using Cons.prems(5) by simp
  moreover have "parse_keys v str (Suc index) (s # names) (field ''api_key'' k # seen) (map api_key_to_setting keys) = Inr keys"
    by (rule Cons.IH) (use Cons.prems k(4) in auto)
  ultimately show ?case using nm by (simp add: item dict_get_or_def Let_def validated_def str_with_def)
qed simp

definition empty_platform_db :: platform_db where
  "empty_platform_db = \<lparr>pd_runtime = [], pd_model = [], pd_callback = [], pd_keys = []\<rparr>"

lemma valid_backoff_range_same: "valid_backoff_range x = Some y \<Longrightarrow> y = x"
  by (cases "field ''max_backoff_seconds'' x"; cases "field ''initial_backoff_seconds'' x") (simp_all add: valid_backoff_range_def split: if_splits)

lemma model_parts:
  assumes "validate v model_config m = Some m"
  shows "validate v (Model_of model_fields Forbid) m = Some m" and "valid_backoff_range m = Some m"
proof -
  obtain x where x: "validate v (Model_of model_fields Forbid) m = Some x" "valid_backoff_range x = Some m"
    using assms by (auto simp del: validate.simps(12) simp: model_config_def bind_eq_Some_conv)
  with valid_backoff_range_same show "validate v (Model_of model_fields Forbid) m = Some m" "valid_backoff_range m = Some m" by blast+
qed

lemma sections_accepted:
  assumes "validate v model_config m = Some m" and "validate v platform_callback_config c = Some c"
  shows "\<forall>(ns, config) \<in> set (listed r m c keys). validate_section ns config = Inr ()"
proof -
  have accepted: "validate_section ns config = Inr ()"
    if "map_of SECTION_KEYS ns = Some ks" "set (map fst config) \<subseteq> set ks" for ns config ks
  proof -
    have "filter (\<lambda>k. k \<notin> set ks) (map fst config) = []" using that(2) by (auto simp: filter_empty_conv)
    then show ?thesis using that(1) by (simp add: validate_section_def)
  qed
  have "\<forall>ns \<in> set RUNTIME_NAMESPACES. case map_of SECTION_KEYS ns of None \<Rightarrow> False
      | Some ks \<Rightarrow> list_all (\<lambda>k. k \<in> set ks) (map fst (runtime_section r ns))"
    by (simp add: RUNTIME_NAMESPACES_def SECTION_KEYS_def section_fields_def runtime_section_def shown_fields_def)
  note checked = this
  have runtime: "ns \<in> set RUNTIME_NAMESPACES \<Longrightarrow> validate_section ns (runtime_section r ns) = Inr ()" for ns
  proof -
    assume "ns \<in> set RUNTIME_NAMESPACES"
    then obtain ks where "map_of SECTION_KEYS ns = Some ks" "list_all (\<lambda>k. k \<in> set ks) (map fst (runtime_section r ns))"
      using bspec [OF checked, of ns] by (cases "map_of SECTION_KEYS ns") simp_all
    then show ?thesis by (intro accepted) (auto simp: list_all_iff)
  qed
  have named: "set (map fst (without_name x)) \<subseteq> set (tl (map fst fs))"
    if "validate v (Model_of fs Forbid) x = Some x" "distinct (map fst fs)" "hd (map fst fs) = ''name''" for x and fs :: fields
  proof -
    note x = that
    obtain d where d: "x = JObj d" "map fst d = map fst fs" using model_lookup [OF x(1,2)] by metis
    show ?thesis using that(3) unfolding d(2) [symmetric] d(1) by (cases d) (force simp: without_name_def)+
  qed
  have "validate v (Model_of model_fields Forbid) m = Some m"
    using model_parts(1) [OF assms(1)] .
  then have m: "validate_section ''model'' (without_name m) = Inr ()"
    by (intro accepted [of _ "tl (map fst model_fields)"] named) (simp_all add: SECTION_KEYS_def section_fields_def, simp add: model_fields_def)
  have c: "validate_section ''callback'' (without_name c) = Inr ()"
    by (intro accepted [of _ "tl (map fst callback_fields)"] named)
      (use assms(2) in \<open>simp_all add: SECTION_KEYS_def section_fields_def platform_callback_config_def\<close>, simp add: callback_fields_def)
  have "validate_section ''auth'' [(''api_keys'', x)] = Inr ()" for x
    by (rule accepted [of _ "[''api_keys'']"]) (simp_all add: SECTION_KEYS_def section_fields_def)
  with runtime m c show ?thesis by (auto simp: listed_def)
qed

lemma name_is_default:
  assumes "validate v (Model_of fs Forbid) c = Some c" and "distinct (map fst fs)" and "row_name c = ''default''"
    and "(''name'', Str_of (text_within 100), Some (JStr ''default'')) \<in> set fs"
  shows "field ''name'' c = field ''name'' (defaults_of fs)"
proof -
  let ?d = "map (\<lambda>(k, t, dflt). (k, case dflt of None \<Rightarrow> JNull | Some x \<Rightarrow> x)) fs"
  have "distinct (map fst ?d)" using assms(2) by (simp add: comp_def case_prod_beta)
  moreover have "(''name'', JStr ''default'') \<in> set ?d" using assms(4) by force
  ultimately have "map_of ?d ''name'' = Some (JStr ''default'')" by (rule map_of_is_SomeI)
  moreover have "field ''name'' c = JStr ''default''"
    using model_value [OF assms(1,2,4)] assms(3) by (elim text_value) (simp add: row_name_def)
  ultimately show ?thesis by (simp add: field_def defaults_of_def dict_get_or_def)
qed

lemma model_section_rebuilt:
  assumes "validate v model_config m = Some m" and "row_name m = ''default''"
  shows "model_from_section v (defaults_of model_fields) (without_name m) = Inr m"
proof -
  have m: "validate v (Model_of model_fields Forbid) m = Some m" "valid_backoff_range m = Some m"
    using model_parts [OF assms(1)] by simp_all
  have "field ''name'' m = field ''name'' (defaults_of model_fields)"
    by (rule name_is_default [OF m(1) distinct_fields(2) assms(2)]) (simp add: model_fields_def)
  from named_rebuilt [OF m(1) distinct_fields(2) this] m(2) show ?thesis by (simp add: model_from_section_def model_config_def validated_def)
qed

lemma callback_section_rebuilt:
  assumes "validate v platform_callback_config c = Some c" and "row_name c = ''default''"
  shows "callback_from_section v (defaults_of callback_fields) (without_name c) = Inr c"
proof -
  have c: "validate v (Model_of callback_fields Forbid) c = Some c" using assms(1) by (simp add: platform_callback_config_def)
  have "field ''name'' c = field ''name'' (defaults_of callback_fields)"
    by (rule name_is_default [OF c distinct_fields(3) assms(2)]) (simp add: callback_fields_def)
  from named_rebuilt [OF c distinct_fields(3) this] show ?thesis by (simp add: callback_from_section_def platform_callback_config_def validated_def)
qed

text \<open>The records that the sections of a complete configuration stand for.\<close>

lemma records_restored:
  fixes r m c keys
  defines "pcs \<equiv> sections_of (Some r) (Some m) (Some c) keys"
  assumes "faithful_scalars v" and "validate v runtime_config r = Some r" and "validate v model_config m = Some m"
    and "validate v platform_callback_config c = Some c" and "row_name r = ''default''" and "row_name m = ''default''" and "row_name c = ''default''"
    and "\<forall>k \<in> set keys. validate v api_key_config k = Some k \<and> \<not> standard_name (row_name k)"
    and "distinct (map row_name keys)" and "distinct (map (field ''api_key'') keys)"
  shows "records_from_sections v str pcs = Inr (r, m, c, keys)"
proof -
  note vals = sections_of_listed [of r m c keys, folded pcs_def]
  have "validate_sections (section_values pcs) = Inr ()"
    using sections_accepted [OF assms(4,5), of r keys] vals(2) by (auto simp: validate_sections_iff)
  moreover have "update_runtimes v (section_values pcs) RUNTIME_NAMESPACES (defaults_of runtime_fields) = Inr r"
    by (rule runtime_rebuilt [OF assms(2,3,6)]) (auto simp: value_of_def vals(1) listed_def RUNTIME_NAMESPACES_def)
  moreover have "value_of ''model'' (section_values pcs) = without_name m" "value_of ''callback'' (section_values pcs) = without_name c"
    "value_of ''auth'' (section_values pcs) = (if keys = [] then [] else [(''api_keys'', JList (map api_key_to_setting keys))])"
    by (simp_all add: value_of_def vals(1) listed_def RUNTIME_NAMESPACES_def)
  moreover have "parse_keys v str 1 [] [] (map api_key_to_setting keys) = Inr keys"
    by (rule keys_rebuilt [OF assms(2,9-11)]) simp_all
  ultimately show ?thesis
    using model_section_rebuilt [OF assms(4,7)] callback_section_rebuilt [OF assms(5,8)]
    by (simp add: records_from_sections_def Let_def api_keys_from_section_def dict_get_or_def)
qed

text \<open>
  C39: Export and import: the sections that are listed for a complete configuration initialise an empty database to the same tables,
  provided the API keys have names of their own.
\<close>

theorem listed_sections_restore_the_tables:
  assumes "faithful_scalars v" and "platform_ok v db"
    and "pd_runtime db = [(''default'', r)]" and "pd_model db = [(''default'', m)]" and "pd_callback db = [(''default'', c)]"
    and "\<forall>(n, k) \<in> set (pd_keys db). \<not> standard_name n" and "platform_list v db = Inr pcs"
  shows "platform_initialize v str pcs empty_platform_db
     = (db\<lparr>pd_keys := sort_key (\<lambda>kr. map byte (fst kr)) (pd_keys db)\<rparr>, Inr True)"
proof -
  have ok: "table_ok v runtime_config (pd_runtime db)" "table_ok v model_config (pd_model db)" "table_ok v platform_callback_config (pd_callback db)"
    "table_ok v api_key_config (pd_keys db)" "distinct (map (\<lambda>kr. field ''api_key'' (snd kr)) (pd_keys db))"
    using assms(2) by (simp_all add: platform_ok_def)
  have valid: "validate v runtime_config r = Some r" "validate v model_config m = Some m" "validate v platform_callback_config c = Some c"
    and names: "row_name r = ''default''" "row_name m = ''default''" "row_name c = ''default''"
    using ok(1-3) by (simp_all add: table_ok_def assms(3-5))
  define rows where "rows = sort_key (\<lambda>kr. map byte (fst kr)) (pd_keys db)"
  define keys where "keys = map snd rows"
  have "named_get v runtime_config ''default'' (pd_runtime db) = Inr (Some r)" "named_get v model_config ''default'' (pd_model db) = Inr (Some m)"
    "named_get v platform_callback_config ''default'' (pd_callback db) = Inr (Some c)"
    by (simp_all add: named_get_ok [OF ok(1)] named_get_ok [OF ok(2)] named_get_ok [OF ok(3)]) (simp_all add: assms(3-5))
  then have pcs: "pcs = sections_of (Some r) (Some m) (Some c) keys"
    using assms(7) by (simp add: platform_list_def named_list_ok [OF ok(4)] keys_def rows_def)
  have row: "\<forall>(n, k) \<in> set rows. row_name k = n \<and> validate v api_key_config k = Some k \<and> \<not> standard_name n"
    using ok(4) assms(6) unfolding table_ok_def rows_def by auto
  have rows: "map (\<lambda>k. (row_name k, k)) keys = rows" using row by (simp add: keys_def map_idI case_prod_beta)
  have "mset (map fst rows) = mset (map fst (pd_keys db))" by (simp only: rows_def mset_map mset_sort)
  from mset_eq_imp_distinct_iff [OF this] ok(4) have "distinct (map fst rows)" by (simp add: table_ok_def)
  moreover have "map fst rows = map row_name keys" by (subst rows [symmetric]) (simp add: comp_def)
  ultimately have dn: "distinct (map row_name keys)" by simp
  have "mset (map (\<lambda>kr. field ''api_key'' (snd kr)) rows) = mset (map (\<lambda>kr. field ''api_key'' (snd kr)) (pd_keys db))"
    by (simp only: rows_def mset_map mset_sort)
  from mset_eq_imp_distinct_iff [OF this] ok(5) have dk: "distinct (map (field ''api_key'') keys)" by (simp add: keys_def comp_def)
  have "\<forall>k \<in> set keys. validate v api_key_config k = Some k \<and> \<not> standard_name (row_name k)" using row by (auto simp: keys_def)
  then have "records_from_sections v str pcs = Inr (r, m, c, keys)"
    unfolding pcs by (rule records_restored [OF assms(1) valid names]) (fact dn, fact dk)
  then show ?thesis
    using dn dk rows names
    by (simp add: platform_initialize_def empty_platform_db_def replace_keys_def committed_def named_save_def rows_def [symmetric] assms(3-5))
qed

section \<open>Sequences of operations\<close>

datatype platform_op = Save_Section platform_config | Delete_Section string | Initialize "platform_config list"

fun platform_step :: "scalars \<Rightarrow> (json \<Rightarrow> string) \<Rightarrow> platform_op \<Rightarrow> platform_db \<Rightarrow> platform_db" where
  "platform_step v str (Save_Section pc) db = fst (platform_save v str pc db)"
| "platform_step v str (Delete_Section ns) db = fst (platform_delete v ns db)"
| "platform_step v str (Initialize pcs) db = fst (platform_initialize v str pcs db)"

lemma platform_history_ok:
  assumes "faithful_scalars v" and "platform_ok v db"
  shows "platform_ok v (fold (platform_step v str) ops db)"
  using assms(2)
proof (induction ops arbitrary: db)
  case (Cons op ops)
  have "platform_ok v (platform_step v str op db)"
    using Cons.prems assms(1) by (cases op) (simp_all add: platform_save_ok platform_delete_ok platform_initialize_ok)
  then show ?case by (simp add: Cons.IH)
qed simp

lemma empty_platform_ok: "platform_ok v empty_platform_db"
  by (simp add: platform_ok_def table_ok_def empty_platform_db_def)

lemma scopes_not_empty:
  assumes "validate v api_key_config k = Some k"
  shows "field ''scopes'' k \<noteq> JList []"
proof -
  have "validate v (Checked (Prepared normalize_scopes (List_of (Str_of (\<lambda>_. True)))) nonempty_scopes) (field ''scopes'' k) = Some (field ''scopes'' k)"
    by (rule model_value [OF assms [unfolded api_key_config_def] distinct_fields(4)]) (simp add: api_key_fields_def)
  then show ?thesis by (auto simp: normalize_scopes_def nonempty_scopes_def as_list_def split: if_splits)
qed

text \<open>
  C38: Whatever is saved, deleted or initialised in whatever order, the configuration can be read, the runtime settings read are a valid
  configuration, no two API keys share a name or a key, and every key is a text that grants something.
\<close>

theorem platform_tables_stay_readable:
  fixes v str
  assumes "faithful_scalars v"
  defines "after \<equiv> \<lambda>ops. fold (platform_step v str) ops empty_platform_db"
  shows "(\<exists>pcs. platform_list v (after ops) = Inr pcs)
     \<and> validate v runtime_config (runtime_in_force (after ops)) = Some (runtime_in_force (after ops))
     \<and> distinct (map fst (pd_keys (after ops))) \<and> distinct (map (\<lambda>kr. field ''api_key'' (snd kr)) (pd_keys (after ops)))
     \<and> (\<forall>(n, k) \<in> set (pd_keys (after ops)). (\<exists>s. field ''api_key'' k = JStr s \<and> s \<noteq> []) \<and> field ''scopes'' k \<noteq> JList [])"
proof -
  have ok: "platform_ok v (after ops)" unfolding after_def by (rule platform_history_ok [OF assms(1) empty_platform_ok])
  then have t: "table_ok v runtime_config (pd_runtime (after ops))" "table_ok v model_config (pd_model (after ops))"
    "table_ok v platform_callback_config (pd_callback (after ops))" "table_ok v api_key_config (pd_keys (after ops))"
    "distinct (map (\<lambda>kr. field ''api_key'' (snd kr)) (pd_keys (after ops)))"
    by (simp_all add: platform_ok_def)
  have "\<exists>pcs. platform_list v (after ops) = Inr pcs"
    by (simp add: platform_list_def named_get_ok [OF t(1)] named_get_ok [OF t(2)] named_get_ok [OF t(3)] named_list_ok [OF t(4)])
  moreover have "(\<exists>s. field ''api_key'' k = JStr s \<and> s \<noteq> []) \<and> field ''scopes'' k \<noteq> JList []"
    if "(n, k) \<in> set (pd_keys (after ops))" for n k
  proof -
    have "validate v api_key_config k = Some k" using t(4) that by (auto simp: table_ok_def)
    then show ?thesis using scopes_not_empty by (metis key_exported)
  qed
  ultimately show ?thesis using t(4,5) runtime_in_force_ok(2) [OF assms(1) ok] unfolding table_ok_def by blast
qed

text \<open>
  A misspelt key below \<^verbatim>\<open>default\<close> of the rate limits is accepted and changes nothing, while every other unknown key is refused.
\<close>

lemma unknown_default_limit_is_ignored:
  assumes "k \<noteq> ''capacity''" and "k \<noteq> ''fill_rate''"
  shows "validate_section ''rate_limit'' [(''default'', JObj [(k, x)])] = Inr ()"
    and "runtime_mapping c ''rate_limit'' [(''default'', JObj [(k, x)])] = runtime_mapping c ''rate_limit'' []"
  using assms
  by (simp_all add: validate_section_def SECTION_KEYS_def section_fields_def runtime_mapping_def mapped_fields_def sub_dict_def dict_get_or_def
    default_limit_fields_def)

section \<open>Witnesses\<close>

definition demo_key :: json where
  "demo_key = JObj [(''name'', JStr ''ops''), (''api_key'', JStr ''k''), (''scopes'', jstrs [''*'']), (''enabled'', JBool True)]"

definition demo_platform :: platform_db where
  "demo_platform = \<lparr>pd_runtime = [(''default'', defaults_of runtime_fields)], pd_model = [(''default'', defaults_of model_fields)],
     pd_callback = [(''default'', defaults_of callback_fields)], pd_keys = [(''ops'', demo_key)]\<rparr>"

lemma demo_platform_ok: "platform_ok strict_scalars demo_platform"
proof -
  have "text_within 200 ''ops''" by code_simp
  then have "validate strict_scalars api_key_config demo_key = Some demo_key"
    by (simp add: demo_key_def api_key_config_def api_key_fields_def field_value_def extra_values_def strict_scalars_def as_dict_def
      normalize_scopes_def nonempty_scopes_def jstrs_def as_list_def)
  moreover have "row_name (defaults_of runtime_fields) = ''default''" "row_name (defaults_of model_fields) = ''default''"
    "row_name (defaults_of callback_fields) = ''default''" "row_name demo_key = ''ops''"
    by (simp_all add: row_name_def field_def defaults_of_def dict_get_or_def runtime_fields_def model_fields_def callback_fields_def demo_key_def)
  ultimately show ?thesis
    using defaults_accepted [OF faithful_strict] by (simp add: platform_ok_def table_ok_def demo_platform_def)
qed

lemma demo_platform_rows:
  "pd_runtime demo_platform = [(''default'', defaults_of runtime_fields)]"
  "pd_model demo_platform = [(''default'', defaults_of model_fields)]"
  "pd_callback demo_platform = [(''default'', defaults_of callback_fields)]"
  "pd_keys demo_platform = [(''ops'', demo_key)]"
  by (simp_all add: demo_platform_def)

lemma demo_platform_list: "\<exists>pcs. platform_list strict_scalars demo_platform = Inr pcs"
proof -
  have "table_ok strict_scalars runtime_config (pd_runtime demo_platform)" "table_ok strict_scalars model_config (pd_model demo_platform)"
    "table_ok strict_scalars platform_callback_config (pd_callback demo_platform)" "table_ok strict_scalars api_key_config (pd_keys demo_platform)"
    using demo_platform_ok by (simp_all add: platform_ok_def)
  then show ?thesis by (simp add: platform_list_def named_get_ok named_list_ok)
qed

text \<open>Seven runs in a batch.\<close>

lemma demo_update:
  "\<exists>c'. update_runtime strict_scalars (defaults_of runtime_fields) ''worker'' [(''batch_size'', jint 7)] = Inr c'"
proof -
  have level: "lower_text (JStr ''info'') = JStr ''info''" "''info'' \<in> set log_levels" by code_simp+
  show ?thesis
    using faithful_scalarsD [OF faithful_strict]
    by (simp add: update_runtime_def runtime_mapping_def mapped_fields_def section_fields_def dict_get_or_def defaults_of_def runtime_fields_def
      field_def runtime_config_def field_value_def extra_values_def validated_def as_dict_def as_map_def scalar_types level)
qed

theorem saved_section_is_shown_witness:
  "\<exists>db' r. platform_save strict_scalars (\<lambda>_. []) (platform_section ''worker'' [(''batch_size'', jint 7)]) demo_platform = (db', Inr r)
     \<and> runtime_section (runtime_in_force db') ''queue'' = runtime_section (runtime_in_force demo_platform) ''queue''
     \<and> field ''worker_batch_size'' (runtime_in_force db') = jint 7"
proof -
  let ?pc = "platform_section ''worker'' [(''batch_size'', jint 7)]"
  obtain c' where "update_runtime strict_scalars (defaults_of runtime_fields) ''worker'' [(''batch_size'', jint 7)] = Inr c'"
    using demo_update by blast
  note c' = this
  have v: "validate_section ''worker'' [(''batch_size'', jint 7)] = Inr ()" by (simp add: validate_section_def SECTION_KEYS_def section_fields_def)
  have "runtime_in_force demo_platform = defaults_of runtime_fields" by (simp add: runtime_in_force_def demo_platform_rows)
  note cur = runtime_in_force_ok(1) [OF faithful_strict demo_platform_ok, unfolded this]
  have "''worker'' \<in> set RUNTIME_NAMESPACES" by (simp add: RUNTIME_NAMESPACES_def)
  then have "platform_save strict_scalars (\<lambda>_. []) ?pc demo_platform
    = (demo_platform\<lparr>pd_runtime := named_save c' (pd_runtime demo_platform)\<rparr>, Inr ?pc)"
    by (simp add: platform_save_def v save_section_def cur c' committed_def platform_section_def)
  then obtain db' r where save: "platform_save strict_scalars (\<lambda>_. []) ?pc demo_platform = (db', Inr r)" by blast
  have ns: "pc_namespace ?pc \<in> set RUNTIME_NAMESPACES" "pc_enabled ?pc" "pc_namespace ?pc = ''worker''" "pc_config ?pc = [(''batch_size'', jint 7)]"
    by (simp_all add: platform_section_def RUNTIME_NAMESPACES_def)
  note shown = saved_section_is_shown [OF faithful_strict demo_platform_ok ns(1,2) save]
  have "map_of section_fields ''worker'' = Some [(''poll_interval_seconds'', ''worker_poll_interval_seconds''), (''batch_size'', ''worker_batch_size''),
        (''lease_seconds'', ''worker_lease_seconds''), (''shutdown_timeout_seconds'', ''worker_shutdown_timeout_seconds'')]"
    by (simp add: section_fields_def)
  note given = shown [THEN conjunct2, THEN conjunct2, THEN conjunct2, THEN conjunct2, unfolded ns(3,4), rule_format, OF this,
      of "''batch_size''" "''worker_batch_size''"]
  then obtain t dflt where t: "(''worker_batch_size'', t, dflt) \<in> set runtime_fields"
    "validate strict_scalars t (jint 7) = Some (field ''worker_batch_size'' (runtime_in_force db'))"
    by (simp only: list.set insert_iff simp_thms map_of.simps fst_conv snd_conv fun_upd_same option.case) blast
  have "t = positive_int_type" using t(1) by (simp add: runtime_fields_def)
  then have "field ''worker_batch_size'' (runtime_in_force db') = jint 7"
    using t(2) faithful_scalarsD [OF faithful_strict] by (simp add: positive_int_type_def)
  moreover have "''queue'' \<in> set RUNTIME_NAMESPACES - {pc_namespace ?pc}" by (simp add: ns(3) RUNTIME_NAMESPACES_def)
  ultimately show ?thesis using save shown by blast
qed

theorem deleted_section_is_default_witness:
  "\<exists>db'. platform_delete strict_scalars ''worker'' demo_platform = (db', Inr ())
     \<and> runtime_section (runtime_in_force db') ''worker'' = runtime_section (defaults_of runtime_fields) ''worker''"
  using deleted_section_is_default [OF faithful_strict demo_platform_ok, of "''worker''"] by (auto simp: RUNTIME_NAMESPACES_def)

theorem listed_sections_restore_the_tables_witness:
  "\<exists>pcs. platform_list strict_scalars demo_platform = Inr pcs
     \<and> platform_initialize strict_scalars (\<lambda>_. []) pcs empty_platform_db
       = (demo_platform\<lparr>pd_keys := sort_key (\<lambda>kr. map byte (fst kr)) (pd_keys demo_platform)\<rparr>, Inr True)"
proof -
  obtain pcs where pcs: "platform_list strict_scalars demo_platform = Inr pcs" using demo_platform_list by blast
  have "\<not> standard_name ''ops''" by code_simp
  then have "\<forall>(n, k) \<in> set (pd_keys demo_platform). \<not> standard_name n"
    by (simp add: demo_platform_rows(4))
  from listed_sections_restore_the_tables [OF faithful_strict demo_platform_ok demo_platform_rows(1-3) this pcs] pcs show ?thesis by blast
qed

theorem platform_tables_stay_readable_witness:
  "\<exists>pcs. platform_list strict_scalars (fold (platform_step strict_scalars (\<lambda>_. [])) [Initialize [], Delete_Section ''model''] empty_platform_db) = Inr pcs"
  using platform_tables_stay_readable [OF faithful_strict, of "\<lambda>_. []" "[Initialize [], Delete_Section ''model'']"] by blast

end
