(* ===== verification/Settings.thy ===== *)
theory Settings
  imports Platform_Config
begin

text \<open>
  The typed bootstrap settings (\<^verbatim>\<open>src/interfaces/settings.py\<close>), their overlay by the sections of the
  database, and how a server loads them (\<^verbatim>\<open>src/interfaces/http/server.py\<close>).

  The layered sources of the settings (environment, files, YAML) are left to their library: the settings are the
  dictionary it yields. Sections keep fields they do not declare; the snapshot ignores sections it does not declare.
\<close>

section \<open>Sections\<close>

definition text_field :: field_type where
  "text_field = Str_of (\<lambda>_. True)"

definition any_int :: field_type where
  "any_int = Int_of (\<lambda>_. True)"

definition nonneg_int :: field_type where
  "nonneg_int = Int_of (\<lambda>i. 0 \<le> i)"

definition api_key_setting :: field_type where
  "api_key_setting = Model_of
     [(''key'', Str_of (\<lambda>s. s \<noteq> []), None), (''name'', text_field, Some (JStr [])),
      (''scopes'', Union_of text_field (List_of text_field), Some (jstrs [''*''])), (''enabled'', Bool_of, Some (JBool True))] Allow"

text \<open>A key object is dumped with the fields that were set.\<close>

definition normalize_api_key :: "scalars \<Rightarrow> json \<Rightarrow> json option" where
  "normalize_api_key v j = (case j of
      JObj d \<Rightarrow> (case validate v api_key_setting j of Some (JObj e) \<Rightarrow> Some (JObj (filter (\<lambda>kv. fst kv \<in> fst ` set d) e)) | _ \<Rightarrow> None)
    | JStr s \<Rightarrow> if s = [] then None else Some j
    | _ \<Rightarrow> None)"

definition normalize_api_keys :: "scalars \<Rightarrow> json \<Rightarrow> json option" where
  "normalize_api_keys v j = (case j of JList xs \<Rightarrow> map_option JList (those (map (normalize_api_key v) xs)) | _ \<Rightarrow> None)"

definition auth_section :: "scalars \<Rightarrow> fields" where
  "auth_section v = [(''api_keys'', Checked (List_of Any_of) (normalize_api_keys v), Some (JList []))]"

definition app_section :: fields where
  "app_section =
    [(''name'', text_field, Some (JStr ''agent-task-platform''))]"

definition server_section :: fields where
  "server_section =
    [(''host'', text_field, Some (JStr ''127.0.0.1'')), (''port'', any_int, Some (jint 8765)), (''reload'', Bool_of, Some (JBool False))]"

definition database_section :: fields where
  "database_section =
    [(''backend'', text_field, Some (JStr ''postgresql'')), (''host'', Nullable text_field, Some (JNull)),
     (''port'', any_int, Some (jint 5432)), (''name'', Nullable text_field, Some (JNull)), (''user'', Nullable text_field, Some (JNull)),
     (''password'', Nullable text_field, Some (JNull)), (''strict_pg'', Bool_of, Some (JBool True)),
     (''path'', Nullable text_field, Some (JNull))]"

definition kanban_section :: fields where
  "kanban_section =
    [(''require_api_key'', Bool_of, Some (JBool True))]"

definition queue_section :: fields where
  "queue_section =
    [(''global_max_concurrency'', positive_int_type, Some (jint 20)), (''route_tags'', limits_type, Some (JObj [])),
     (''callers'', limits_type, Some (JObj [])), (''max_nested_depth'', nonneg_int, Some (jint 3)),
     (''max_active_children_per_root'', positive_int_type, Some (jint 5))]"

definition callback_section :: fields where
  "callback_section =
    [(''timeout_seconds'', positive_float, Some (JNum 10)), (''max_attempts'', positive_int_type, Some (jint 3)),
     (''backoff_seconds'', nonneg_float, Some (JNum 1)),
     (''backoff_type'', Literal_of [''exponential'', ''fixed''], Some (JStr ''exponential'')),
     (''signing_secret'', Nullable text_field, Some (JNull)), (''url_allowlist'', List_of text_field, Some (JList [])),
     (''channels'', Dict_of Any_of, Some (JObj [])), (''dispatch_poll_interval_seconds'', positive_float, Some (JNum 1)),
     (''dispatch_batch_size'', positive_int_type, Some (jint 20))]"

definition worker_section :: fields where
  "worker_section =
    [(''poll_interval_seconds'', positive_float, Some (JNum 1)), (''batch_size'', positive_int_type, Some (jint 20)),
     (''lease_seconds'', positive_float, Some (JNum 60)), (''shutdown_timeout_seconds'', positive_float, Some (JNum 10)),
     (''alert_sweep_interval_seconds'', positive_float, Some (JNum 30)), (''worker_id'', Nullable text_field, Some (JNull))]"

definition model_section :: fields where
  "model_section =
    [(''provider'', text_field, Some (JStr ''openai_compatible'')), (''base_url'', Nullable text_field, Some (JNull)),
     (''api_key'', Nullable text_field, Some (JNull)), (''model'', Nullable text_field, Some (JNull)),
     (''timeout_seconds'', positive_float, Some (JNum 60)),
     (''temperature'', Float_of (\<lambda>x. 0 \<le> x \<and> x \<le> 2), Some (JNum 0)), (''max_retries'', nonneg_int, Some (jint 2)),
     (''initial_backoff_seconds'', nonneg_float, Some (JNum 1)), (''max_backoff_seconds'', nonneg_float, Some (JNum 30)),
     (''fallback_models'', List_of (Str_of (\<lambda>s. s \<noteq> [])), Some (JList []))]"

definition config_watcher_section :: fields where
  "config_watcher_section =
    [(''poll_interval_seconds'', positive_float, Some (JNum 5))]"

definition rate_limit_section :: fields where
  "rate_limit_section =
    [(''enabled'', Bool_of, Some (JBool True)), (''default'', Model_of token_bucket_fields Allow, Some (defaults_of token_bucket_fields)),
     (''callers'', Dict_of (Model_of token_bucket_fields Allow), Some (JObj []))]"

definition logging_section :: fields where
  "logging_section =
    [(''level'', Prepared lower_text (Literal_of log_levels), Some (JStr ''info'')), (''file_enabled'', Bool_of, Some (JBool False)),
     (''directory'', text_field, Some (JStr ''logs'')), (''max_file_size_mb'', positive_int_type, Some (jint 100)),
     (''retention_days'', positive_int_type, Some (jint 100)), (''max_body_chars'', positive_int_type, Some (jint 4096)),
     (''log_payloads'', Bool_of, Some (JBool False))]"

definition outbound_section :: fields where
  "outbound_section =
    [(''tool_private_url_allowlist'', List_of text_field, Some (JList []))]"

definition retention_section :: fields where
  "retention_section =
    [(''log_days'', Nullable positive_float, Some (JNull)), (''callback_days'', Nullable positive_float, Some (JNull)),
     (''model_call_days'', Nullable positive_float, Some (JNull))]"

definition platform_config_section :: fields where
  "platform_config_section =
    [(''database_managed'', Bool_of, Some (JBool False)), (''initialize_if_missing'', Bool_of, Some (JBool True))]"

definition settings_sections :: "scalars \<Rightarrow> (string \<times> fields) list" where
  "settings_sections v =
     [(''app'', app_section), (''server'', server_section), (''database'', database_section), (''auth'', auth_section v),
      (''kanban'', kanban_section), (''queue'', queue_section), (''callback'', callback_section), (''worker'', worker_section),
      (''model'', model_section), (''config_watcher'', config_watcher_section), (''coordination'', []),
      (''rate_limit'', rate_limit_section), (''alerts'', []), (''logging'', logging_section), (''outbound'', outbound_section),
      (''retention'', retention_section), (''platform_config'', platform_config_section)]"

definition snapshot_fields :: "scalars \<Rightarrow> fields" where
  "snapshot_fields v = map (\<lambda>(n, fs). (n, Model_of fs Allow, Some (defaults_of fs))) (settings_sections v)"

definition settings_snapshot :: "scalars \<Rightarrow> dict \<Rightarrow> py_exc + json" where
  "settings_snapshot v settings = validated ''SettingsSnapshot'' (validate v (Model_of (snapshot_fields v) Ignore) (JObj settings))"

section \<open>Governed sections\<close>

definition PLATFORM_CONFIG_NAMESPACES :: "string list" where
  "PLATFORM_CONFIG_NAMESPACES = [''auth'', ''model'', ''callback'', ''worker'', ''queue'', ''rate_limit'', ''kanban'', ''config_watcher'',
     ''logging'', ''retention'']"

definition ALLOWED_KEYS :: "(string \<times> string list) list" where
  "ALLOWED_KEYS =
     [(''auth'', [''api_keys'']),
      (''model'', [''base_url'', ''api_key'', ''model'', ''timeout_seconds'', ''temperature'', ''max_retries'', ''initial_backoff_seconds'',
        ''max_backoff_seconds'', ''fallback_models'']),
      (''callback'', [''timeout_seconds'', ''max_attempts'', ''backoff_seconds'', ''backoff_type'', ''signing_secret'', ''url_allowlist'',
        ''channels'', ''dispatch_poll_interval_seconds'', ''dispatch_batch_size'']),
      (''worker'', [''poll_interval_seconds'', ''batch_size'', ''lease_seconds'', ''shutdown_timeout_seconds'']),
      (''queue'', [''global_max_concurrency'', ''route_tags'', ''callers'', ''max_nested_depth'', ''max_active_children_per_root'']),
      (''rate_limit'', [''enabled'', ''default'', ''callers'']),
      (''kanban'', [''require_api_key'']),
      (''config_watcher'', [''poll_interval_seconds'']),
      (''logging'', [''level'', ''max_file_size_mb'', ''retention_days'', ''max_body_chars'']),
      (''retention'', [''log_days'', ''callback_days'', ''model_call_days''])]"

definition allowed_keys :: "string \<Rightarrow> string list" where
  "allowed_keys ns = (case map_of ALLOWED_KEYS ns of None \<Rightarrow> [] | Some ks \<Rightarrow> ks)"

definition governed_values :: "json \<Rightarrow> string \<Rightarrow> dict" where
  "governed_values snapshot ns = map (\<lambda>k. (k, field k (field ns snapshot))) (allowed_keys ns)"

definition platform_configs_from_settings :: "scalars \<Rightarrow> dict \<Rightarrow> py_exc + platform_config list" where
  "platform_configs_from_settings v settings =
     map_sum id (\<lambda>snapshot. map (\<lambda>ns. (platform_section ns (governed_values snapshot ns))\<lparr>pc_managed_by := ''bootstrap''\<rparr>) PLATFORM_CONFIG_NAMESPACES)
       (settings_snapshot v settings)"

section \<open>Overlay\<close>

definition settings_error :: "string \<Rightarrow> py_exc" where
  "settings_error text = OtherException ''SettingsValidationError'' text"

text \<open>Governed sections start from their defaults; three of them keep their other fields.\<close>

fun reset_sections :: "json \<Rightarrow> string list \<Rightarrow> dict \<Rightarrow> py_exc + dict" where
  "reset_sections defaults [] merged = Inr merged"
| "reset_sections defaults (ns # nss) merged =
     (if ns \<in> {''logging'', ''worker'', ''model''}
      then (case dict_get_or ns (JObj []) merged of
          JObj s \<Rightarrow> reset_sections defaults nss (AList.update ns (JObj (dict_update s (governed_values defaults ns))) merged)
        | j \<Rightarrow> Inl (TypeError (py_repr (json_type_name j) @ '' object does not support item assignment'')))
      else reset_sections defaults nss (AList.update ns (JObj (governed_values defaults ns)) merged))"

fun overlay_sections :: "platform_config list \<Rightarrow> dict \<Rightarrow> py_exc + dict" where
  "overlay_sections [] merged = Inr merged"
| "overlay_sections (pc # pcs) merged =
     (case map_of ALLOWED_KEYS (pc_namespace pc) of
        None \<Rightarrow> Inl (settings_error (''unsupported platform config namespace: '' @ pc_namespace pc))
      | Some allowed \<Rightarrow>
          if \<not> pc_enabled pc then overlay_sections pcs merged
          else let unsupported = filter (\<lambda>k. k \<notin> set allowed) (map fst (pc_config pc)) in
            if unsupported \<noteq> []
            then Inl (settings_error (''platform config '' @ py_repr (pc_namespace pc) @ '' contains unsupported keys: ''
                   @ join_with '', '' (sort_key (map byte) unsupported)))
            else (case dict_get_or (pc_namespace pc) (JObj []) merged of
                JObj s \<Rightarrow> overlay_sections pcs (AList.update (pc_namespace pc) (JObj (dict_update s (pc_config pc))) merged)
              | j \<Rightarrow> Inl (attribute_error j ''update'')))"

definition merge_platform_configs :: "scalars \<Rightarrow> dict \<Rightarrow> platform_config list \<Rightarrow> py_exc + json" where
  "merge_platform_configs v bootstrap_settings configs =
     (case reset_sections (defaults_of (snapshot_fields v)) PLATFORM_CONFIG_NAMESPACES bootstrap_settings of Inl e \<Rightarrow> Inl e
      | Inr merged \<Rightarrow> case overlay_sections configs merged of Inl e \<Rightarrow> Inl e
      | Inr merged \<Rightarrow> settings_snapshot v merged)"

section \<open>Loading\<close>

text \<open>The sections a start needs and does not find.\<close>

definition missing_sections :: "platform_config list \<Rightarrow> string list" where
  "missing_sections configs =
     filter (\<lambda>ns. ns \<noteq> ''auth'' \<and> ns \<notin> pc_namespace ` set (filter pc_enabled configs)) PLATFORM_CONFIG_NAMESPACES"

definition load_snapshot :: "scalars \<Rightarrow> dict \<Rightarrow> platform_db \<Rightarrow> py_exc + json \<times> platform_config list" where
  "load_snapshot v bootstrap_settings db =
     (case platform_list v db of Inl e \<Rightarrow> Inl e
      | Inr configs \<Rightarrow>
          if missing_sections configs \<noteq> []
          then Inl (settings_error (''database-managed platform configuration is incomplete: ''
                 @ join_with '', '' (sort_key (map byte) (missing_sections configs))))
          else map_sum id (\<lambda>settings. (settings, configs)) (merge_platform_configs v bootstrap_settings configs))"

definition load_platform_settings ::
    "scalars \<Rightarrow> (json \<Rightarrow> string) \<Rightarrow> dict \<Rightarrow> platform_db \<Rightarrow> platform_db \<times> (py_exc + json \<times> platform_config list)" where
  "load_platform_settings v str bootstrap_settings db =
     (case is_initialized v db of Inl e \<Rightarrow> (db, Inl e)
      | Inr True \<Rightarrow> (db, load_snapshot v bootstrap_settings db)
      | Inr False \<Rightarrow>
          (case sub_dict ''platform_config'' False ''get'' bootstrap_settings of Inl e \<Rightarrow> (db, Inl e)
           | Inr governed \<Rightarrow>
               if \<not> json_truthy (dict_get_or ''initialize_if_missing'' (JBool True) governed)
               then (db, Inl (settings_error ''database-managed platform configuration is enabled but has not been initialized''))
               else (case platform_configs_from_settings v bootstrap_settings of Inl e \<Rightarrow> (db, Inl e)
                 | Inr configs \<Rightarrow> (case platform_initialize v str configs db of
                       (db', Inl e) \<Rightarrow> (db', Inl e)
                     | (db', Inr _) \<Rightarrow> (db', load_snapshot v bootstrap_settings db')))))"

section \<open>Properties\<close>

lemma overlay_other:
  assumes "overlay_sections pcs merged = Inr merged'" and "map_of ALLOWED_KEYS ns = None"
  shows "map_of merged' ns = map_of merged ns"
  using assms(1)
proof (induction pcs arbitrary: merged)
  case (Cons pc pcs)
  then obtain allowed where a: "map_of ALLOWED_KEYS (pc_namespace pc) = Some allowed" by (auto split: option.splits)
  then have "pc_namespace pc \<noteq> ns" using assms(2) by auto
  with Cons a show ?case by (auto simp: Let_def update_conv' split: if_splits json.splits)
qed simp

lemma reset_other:
  assumes "reset_sections dflts nss merged = Inr merged'" and "ns \<notin> set nss"
  shows "map_of merged' ns = map_of merged ns"
  using assms
  by (induction nss arbitrary: merged) (auto simp: update_conv' split: if_splits json.splits)

lemma snapshot_names: "map fst (snapshot_fields v) = map fst (settings_sections v)"
  by (simp add: snapshot_fields_def comp_def case_prod_beta)

lemma distinct_sections_names [simp]: "distinct (map fst (snapshot_fields v))"
  unfolding snapshot_names by (simp add: settings_sections_def)

text \<open>
  The sections of the database reach governed sections only: every other section of the effective settings, the database, the server and
  the outbound policy among them, is what the process was started with.
\<close>

theorem overlay_keeps_local_sections:
  assumes "merge_platform_configs v bootstrap_settings configs = Inr settings"
    and "settings_snapshot v bootstrap_settings = Inr own"
    and "ns \<in> set (map fst (settings_sections v))" and "ns \<notin> set PLATFORM_CONFIG_NAMESPACES"
  shows "field ns settings = field ns own"
proof -
  obtain m1 m2 where m: "reset_sections (defaults_of (snapshot_fields v)) PLATFORM_CONFIG_NAMESPACES bootstrap_settings = Inr m1"
    "overlay_sections configs m1 = Inr m2" "settings_snapshot v m2 = Inr settings"
    using assms(1) by (auto simp: merge_platform_configs_def split: sum.splits)
  have "map_of ALLOWED_KEYS ns = None"
    using assms(4) by (auto simp: ALLOWED_KEYS_def PLATFORM_CONFIG_NAMESPACES_def)
  then have same: "map_of m2 ns = map_of bootstrap_settings ns" using overlay_other [OF m(2)] reset_other [OF m(1) assms(4)] by simp
  obtain t dflt where t: "(ns, t, dflt) \<in> set (snapshot_fields v)" using assms(3) unfolding snapshot_names [symmetric] by force
  have "validate v (Model_of (snapshot_fields v) Ignore) (JObj m2) = Some settings"
    "validate v (Model_of (snapshot_fields v) Ignore) (JObj bootstrap_settings) = Some own"
    using m(3) assms(2) by (simp_all only: settings_snapshot_def validated_Inr)
  from model_field [OF this(1) t] model_field [OF this(2) t] show ?thesis by (simp add: same)
qed

lemma sections_without:
  assumes "ns = ''model'' \<and> model = None \<or> ns = ''callback'' \<and> callback = None"
  shows "ns \<notin> pc_namespace ` set (sections_of runtime model callback keys)"
proof -
  have "pc_namespace ` set (runtime_sections c) = set RUNTIME_NAMESPACES" for c
    by (simp add: runtime_sections_def platform_section_def image_image)
  then have "pc_namespace ` set (case runtime of None \<Rightarrow> [] | Some c \<Rightarrow> runtime_sections c) \<subseteq> set RUNTIME_NAMESPACES"
    by (cases runtime) simp_all
  note runtime = this
  have named: "n \<noteq> ns \<or> x = None \<Longrightarrow> ns \<notin> pc_namespace ` set (named_section n x)" for n x
    by (cases x) (simp_all add: named_section_def platform_section_def)
  have "ns \<notin> pc_namespace ` set (named_section ''model'' model)" by (rule named) (use assms in auto)
  moreover have "ns \<notin> pc_namespace ` set (named_section ''callback'' callback)" by (rule named) (use assms in auto)
  moreover note runtime
  moreover have "ns \<notin> set RUNTIME_NAMESPACES" "ns \<noteq> ''auth''" using assms by (auto simp: RUNTIME_NAMESPACES_def)
  moreover from this(2) have "ns \<notin> pc_namespace ` set (if keys = [] then [] else [platform_section ''auth'' x])" for x
    by (simp add: platform_section_def)
  ultimately show ?thesis unfolding sections_of_def set_sort set_append image_Un Un_iff by blast
qed


theorem overlay_keeps_local_sections_witness:
  "\<exists>settings own. merge_platform_configs strict_scalars [(''server'', JObj [(''port'', jint 80)])] [] = Inr settings
     \<and> settings_snapshot strict_scalars [(''server'', JObj [(''port'', jint 80)])] = Inr own \<and> field ''server'' settings = field ''server'' own"
proof -
  let ?b = "[(''server'', JObj [(''port'', jint 80)])]"
  have "case (merge_platform_configs strict_scalars ?b [], settings_snapshot strict_scalars ?b) of (Inr a, Inr b) \<Rightarrow> True | _ \<Rightarrow> False" by code_simp
  then obtain settings own where s: "merge_platform_configs strict_scalars ?b [] = Inr settings" "settings_snapshot strict_scalars ?b = Inr own"
    by (auto split: sum.splits)
  from overlay_keeps_local_sections [OF s, of "''server''"] s show ?thesis
    by (simp add: settings_sections_def PLATFORM_CONFIG_NAMESPACES_def)
qed


end
