(* ===== verification/Spec2Isabelle.thy ===== *)
theory Spec2Isabelle
  imports Entities Scheduler Tool_Gateway Config_Watcher Run_Manager Coordination Resilience
    Worker Outbound_Policy Access_Control Agent_Runtime Pi_Protocol Settings
begin

text \<open>
  A model of the agent task platform, and proofs about it. The platform accepts tasks, keeps each of
  them as a durable \<^emph>\<open>run\<close>, lets workers claim and execute the runs, and delivers the results by signed
  callbacks. This theory imports all others and holds no definitions.

  \<^bold>\<open>How the parts interact.\<close> A submission (\<open>Run_Service\<close>, called through \<open>Run_Manager\<close>) resolves the agent in
  a registry (\<open>Registry\<close>), pins the versions and hashes of its Skills (\<open>Skill_Session\<close>) and inserts a run
  into the store (\<open>Store\<close>, \<open>Run_Store\<close>). A worker (\<open>Worker\<close>) polls the manager, which claims waiting runs
  with a lease and starts a background task for each. The task passes the scheduler's limits
  (\<open>Scheduler\<close>, \<open>Coordination\<close>) and enters the executor (\<open>Run_Executor\<close>), which makes the attempts and writes
  every state of the run only if no one else took the run away in between. An attempt is the work of the agent
  runtime (\<open>Agent_Runtime\<close>) with an adapter; a Pi agent (\<open>Pi_Setup\<close>, \<open>Pi_Protocol\<close>) is a process of its own whose
  requests the platform checks. Agents run durable stages (\<open>Stage_Runner\<close>, \<open>Stage_Store\<close>), child runs
  (\<open>Child_Runs\<close>), tools (\<open>Tool_Gateway\<close> with \<open>Resilience\<close>), model calls (\<open>Model_Gateway\<close>) and Skills. A finished
  run leaves a callback delivery, which \<open>Callback_Service\<close> sends to a URL that the outbound policy
  (\<open>Outbound_Policy\<close>) has accepted. Agents, tools and Skills come from the database and are brought in
  line by \<open>Config_Watcher\<close>; the settings of the platform itself are in \<open>Platform_Config\<close> and \<open>Settings\<close>. Requests
  reach the services through the guards of \<open>Access_Control\<close>.

  \<^bold>\<open>State.\<close> The database is a record of tables (\<open>store\<close>), each table a list of rows in insertion order.
  A repository method is one function on a table, because it is one transaction; a list of
  operations is an interleaving of the processes that issue them. The state of a whole process is the
  \<open>world\<close> of \<open>Run_Executor\<close>: the store, the cancellation events, the children of each run and the background
  tasks. Components that keep more (\<open>gateway\<close>, \<open>scheduler\<close>, \<open>worker\<close>, the registries) pass a record of their own
  beside it. An exception is a value of \<open>py_exc\<close> in the left part of a sum; \<open>CancelledError\<close> is one
  of them, and is caught only where the code catches it.
\<close>

section \<open>Theories\<close>

text \<open>
  Foundations.

  \<^item> \<open>Prelude\<close>: strings, JSON documents, dictionaries with their insertion order, exceptions with their text,
    points in time (microseconds), rows and tables, and the interfaces of the tables.
  \<^item> \<open>Dynamic\<close>: what Python does with a value whose type is known only at run time.
  \<^item> \<open>Domain\<close>: the records and enumerations of \<^verbatim>\<open>src/domain\<close>.
  \<^item> \<open>Codec\<close>, \<open>Schema\<close>: \<^verbatim>\<open>model_dump\<close> and \<^verbatim>\<open>model_validate\<close> of the Pydantic models, model by model for the
    domain and from a declaration (\<open>field_type\<close>) for settings and configuration.

  Persistence (\<^verbatim>\<open>src/infra/store\<close>).

  \<^item> \<open>Run_Store\<close>, \<open>Stage_Store\<close>: the repositories of runs and of stages (\<^verbatim>\<open>repository/run.py\<close>,
    \<^verbatim>\<open>repository/stage.py\<close>).
  \<^item> \<open>Store\<close>: the other repositories and \<^verbatim>\<open>sqlalchemy_store.py\<close>.
  \<^item> \<open>Entities\<close>: the columns of the tables and their mapping to the domain (\<^verbatim>\<open>model/*.py\<close>).
  \<^item> \<open>Platform_Config\<close>: \<^verbatim>\<open>repository/platform_config.py\<close>, \<^verbatim>\<open>repository/platform_settings.py\<close> and
    the domain models they store.

  Orchestration (\<^verbatim>\<open>src/orchestration\<close>).

  \<^item> \<open>Run_Service\<close> (\<^verbatim>\<open>run_service.py\<close>, \<^verbatim>\<open>conversation_service.py\<close>), \<open>Run_Executor\<close> (\<^verbatim>\<open>run_executor.py\<close> and
    \<^verbatim>\<open>src/framework/tool/error_handlers.py\<close>), \<open>Run_Manager\<close> (\<^verbatim>\<open>manager.py\<close>), \<open>Worker\<close>
    (\<^verbatim>\<open>worker.py\<close>), \<open>Scheduler\<close> (\<^verbatim>\<open>scheduler.py\<close>), \<open>Callback_Service\<close> (\<^verbatim>\<open>callback_service.py\<close>),
    \<open>Config_Watcher\<close> (\<^verbatim>\<open>config_watcher.py\<close>).

  Framework (\<^verbatim>\<open>src/framework\<close>).

  \<^item> \<open>Registry\<close> (\<^verbatim>\<open>registry.py\<close>), \<open>Stage_Runner\<close> (\<^verbatim>\<open>runtime/stage_runner.py\<close>,
    \<^verbatim>\<open>tool/stage_context.py\<close>), \<open>Child_Runs\<close> (\<^verbatim>\<open>runtime/context.py\<close>), \<open>Agent_Runtime\<close>
    (\<^verbatim>\<open>runtime/agent_runtime.py\<close>, \<^verbatim>\<open>runtime/adapters/python.py\<close>), \<open>Hooks\<close> (\<^verbatim>\<open>tool/hooks.py\<close>).
  \<^item> \<open>Tool_Gateway\<close> (\<^verbatim>\<open>tool/tools.py\<close>, \<^verbatim>\<open>tool/guardrails.py\<close>), \<open>Resilience\<close> (\<^verbatim>\<open>tool/resilience.py\<close> and
    \<^verbatim>\<open>src/infra/rate_limiter.py\<close>), \<open>Model_Gateway\<close> (\<^verbatim>\<open>model_gateway.py\<close>, \<^verbatim>\<open>runtime/utils.py\<close>).
  \<^item> \<open>Skill_Artifact\<close> (\<^verbatim>\<open>src/domain/skill_spec.py\<close>, \<^verbatim>\<open>skill/loader.py\<close>), \<open>Skill_Session\<close>
    (\<^verbatim>\<open>SkillRegistry\<close> of \<^verbatim>\<open>registry.py\<close>, \<^verbatim>\<open>skill/session.py\<close>, \<^verbatim>\<open>skill/runtime.py\<close>, \<^verbatim>\<open>skill/catalog.py\<close>).
  \<^item> \<open>Pi_Setup\<close>, \<open>Pi_Protocol\<close> (\<^verbatim>\<open>runtime/adapters/pi_agent.py\<close>, \<^verbatim>\<open>runtime/pi/tools.py\<close>,
    \<^verbatim>\<open>runtime/pi/transport.py\<close>).

  Boundaries.

  \<^item> \<open>Coordination\<close> (\<^verbatim>\<open>src/infra/coordination.py\<close>).
  \<^item> \<open>Url\<close> (Python's \<^verbatim>\<open>urllib.parse\<close> and \<^verbatim>\<open>ipaddress\<close>), \<open>Outbound_Policy\<close>
    (\<^verbatim>\<open>src/infra/outbound_policy.py\<close>, and the file client of \<^verbatim>\<open>src/framework/runtime/files.py\<close>).
  \<^item> \<open>Access_Control\<close> (\<^verbatim>\<open>src/interfaces/http/auth.py\<close>, \<^verbatim>\<open>src/interfaces/http/dependencies.py\<close>), \<open>Settings\<close>
    (\<^verbatim>\<open>src/interfaces/settings.py\<close>, \<^verbatim>\<open>load_platform_settings\<close> of \<^verbatim>\<open>src/interfaces/http/server.py\<close>).

  A definition has the name of the function or method it translates, without a leading
  underscore; where two components use one name, a word that tells them apart is added.
  A long method is divided into definitions at its awaits or \<^verbatim>\<open>try\<close> blocks.
\<close>

section \<open>What the lemmas show\<close>

text \<open>
  \<^item> \<^emph>\<open>Concurrent writers.\<close> A guarded update changes its row only in an expected state; a claim hands
    out a run once; a stage record is changed only by its newest execution; whatever a list of
    operations of the workers, an external side effect is dispatched at most once, by the store as by the tool
    gateway.
  \<^item> \<^emph>\<open>Life of a run.\<close> A request id is accepted once; an execution that lost its run writes nothing
    any more; an undisturbed execution ends in a settled run with its lease released; cancellation is final for the run and
    its children; renewal, recovery and reclaiming touch the runs they should and no others; a worker
    drains the queue; retrying starts the run afresh; notification never changes a result.
  \<^item> \<^emph>\<open>Stages.\<close> The table stays well-formed; a finished stage returns its stored value without being executed
    again; an interrupted one is taken up at its checkpoint; generated stage keys are accepted.
  \<^item> \<^emph>\<open>Configuration.\<close> A reload brings the registries in line with the tables and a second one changes nothing;
    a tag is resolved to the agent that declared it; a Skill is used only with the content its hash
    pins; platform tables always read back; exported sections restore them; a deleted section stops every
    start.
  \<^item> \<^emph>\<open>Limits.\<close> Running runs, tool calls, model requests, API requests, fetched files and Pi attempts stay
    within what is configured, for every interleaving.
  \<^item> \<^emph>\<open>Boundaries.\<close> An accepted URL resolves to public addresses, or was exempted; its path stays under the
    allowed one however often it is decoded; logs hold no secrets; a guarded request has a granted scope.
  \<^item> \<^emph>\<open>Pi.\<close> The worker process may send anything: model calls are numbered and closed with a
    status that tells how they ended, tools run only as asked by the model, and the output is the final
    one, complete.

  Each theorem that has a hypothesis is followed by an instance of it on concrete data.
\<close>

section \<open>Interfaces\<close>

text \<open>
  Contracts between components are locales, each interpreted on the model's own operations.

  \<^item> In \<open>Prelude\<close>: \<open>repository\<close> (read after write; runs, deliveries, conversations), \<open>cas_table\<close> (guarded
    updates; runs), \<open>lease_queue\<close> (claims; runs and deliveries), \<open>fenced_table\<close> (rows that a
    newer execution takes over; stages).
  \<^item> \<open>json_codec\<close> (\<open>Codec\<close>): what is dumped is read back, with interpretations for the nested
    models in \<open>Entities\<close> and for every stable declaration in \<open>Schema\<close>. \<open>entity\<close> (\<open>Entities\<close>): a row
    represents a domain object and keeps its key, for all eight tables.
  \<^item> \<open>row_sweep\<close> (\<open>Run_Manager\<close>): a loop over rows treats each row by itself; recovery and reclaiming.
  \<^item> \<open>mutex_backend\<close> (\<open>Coordination\<close>): exclusive keys; the slot semaphore is proved from its laws.
  \<^item> \<open>synced_registry\<close> (\<open>Config_Watcher\<close>): the registries of agents, tools and Skills under one reload.
  \<^item> \<open>observing_hooks\<close> (\<open>Hooks\<close>): hooks that change nothing; logging hooks and their compositions.
\<close>

section \<open>Parameters\<close>

text \<open>
  Code outside \<^verbatim>\<open>src\<close> is an argument, gathered in an environment record for each component: HTTP exchanges, model
  providers, Python agents and functions, MCP sessions, name resolution, hash functions, YAML, the
  scalar validators of Pydantic, JSON-schema validation, version ordering, advisory locks of PostgreSQL, and
  all clocks. Theorems that rely on such code say so in a hypothesis (for instance
  \<open>faithful_scalars\<close>: a scalar of the declared type validates to itself). Where the code awaits, a
  parameter gives what other tasks and processes do meanwhile to the world or the store
  (\<open>xe_others\<close>, \<open>mg_others\<close>, \<open>sn_others\<close>, the events of \<open>sched_event\<close> and \<open>pi_event\<close>); theorems about
  undisturbed executions say that nobody touches the run.

  Times are integers in microseconds, or rationals where the code has floats; rounding of floats is
  not modelled. A Python string is the list of the bytes of its UTF-8 encoding; case conversion acts on ASCII
  letters. Addresses are words of 32 and 128 bits. URL and address
  rules are those of Python 3.12, the version of the Docker image.
\<close>

section \<open>Bounds\<close>

text \<open>
  \<^item> Cancelling follows the tree of child runs recursively; the argument is the depth that the
    interpreter's recursion limit allows, and reaching it is the exception it is in Python. A row is
    tried 10 times, as in the code, and giving up is its exception.
  \<^item> The scheduler's walk over active ancestors has fuel, the number of registered runs. It is proved to be enough
    when parents are registered before their children; the code itself would not end on a cycle.
  \<^item> A path is decoded at most 5 times, as in the code. The theorem on confined paths is about any
    number of decodings.
  \<^item> The search for a free API key name counts upwards; it ends because finitely many names are taken. Decoding of
    percent signs and of UTF-8 ends because the text gets shorter.
  \<^item> Attempts of runs, tools, model calls and callbacks are recursions over the list of attempts that the code
    iterates over.
  \<^item> Loops without an end of their own take the list of their turns: the worker, the watcher, the QPS limiter (one clock
    reading for each turn) and a Pi attempt (one event for each step). Theorems hold for all lists, or
    say how many turns suffice.
\<close>

section \<open>What is not modelled\<close>

text \<open>
  \<^item> The routes, error responses, middleware and assembly of the HTTP server, the command line, logging
    and tracing: wiring of the modelled services, and input and output.
  \<^item> The clients of MCP and of function tools, scripts of Skills, the adapters for remote services and
    subprocesses, the prompt workflow: each is a parameter of a modelled component.
  \<^item> The Node process of a Pi agent with its environment, its pipes and their limits, and its termination; its lines are
    arbitrary events.
  \<^item> The layered sources of the settings (environment, \<^verbatim>\<open>.env\<close>, YAML files) and the reload, which calls the modelled
    reconfiguration of each component. Files on disk: materialising Skills and temporary files.
  \<^item> Views for operators (Kanban, tool health), migrations and generated DDL, protocol classes, and the example
    agents and plugins. The uniqueness constraints of the schema are part of the tables.
  \<^item> SQL and transactions are those of one statement or one session block: a repository method is atomic. Anomalies
    that the isolation level of the database admits between two statements of one method are outside the model.
  \<^item> The order of waiting tasks on one \<^verbatim>\<open>asyncio.Semaphore\<close>: any waiting task may be next.
\<close>

end
